(* ===== verification/Prelude.thy ===== *)
theory Prelude
  imports Main "HOL-Library.Word" "HOL-Library.Sublist"
begin

text \<open>
  What every component theory shares.  Go's \<^verbatim>\<open>[]byte\<close> and \<^verbatim>\<open>string\<close> are both byte
  strings, so both are modelled by \<open>bytes\<close>, a list of HOL characters (8-bit values).
  This theory models the functions of the packages \<^verbatim>\<open>bytes\<close> and \<^verbatim>\<open>strings\<close> that the
  repository calls (searching, cutting), Go's byte comparisons, the wrap-around of
  \<^verbatim>\<open>int64\<close>, the collections of lemmas the component proofs draw on, and the
  interfaces several components implement, as locales: a packet codec, a stream
  codec, a handler registry and a transition system with an invariant.  A Go index
  of \<open>-1\<close> is \<open>None\<close>.
\<close>

type_synonym bytes = string

named_theorems search_simps \<open>what a successful or failed byte search says about the buffer\<close>

section \<open>Byte values\<close>

definition byte_val :: "char \<Rightarrow> nat" where
  "byte_val c = of_char c"

definition byte_of :: "nat \<Rightarrow> char" where
  "byte_of n = char_of n"

lemma byte_val_less [simp]: "byte_val c < 256"
  by (simp add: byte_val_def)

lemma byte_val_le [simp]: "byte_val c \<le> 255"
  using byte_val_less [of c] by linarith

lemma byte_of_val [simp]: "byte_of (byte_val c) = c"
  by (simp add: byte_of_def byte_val_def)

lemma byte_val_of [simp]: "byte_val (byte_of n) = n mod 256"
  by (simp add: byte_of_def byte_val_def)

lemma byte_val_inject [simp]: "byte_val a = byte_val b \<longleftrightarrow> a = b"
  by (simp add: byte_val_def)

lemma byte_of_bits:
  "byte_of n = Char (odd n) (odd (n div 2)) (odd (n div 4)) (odd (n div 8))
     (odd (n div 16)) (odd (n div 32)) (odd (n div 64)) (odd (n div 128))"
  by (simp add: byte_of_def char_of_def bit_iff_odd)

text \<open>Evaluation of bytes given by numerals, for concrete inputs.\<close>

lemmas byte_eval = byte_val_def byte_of_bits

definition is_digit :: "char \<Rightarrow> bool" where
  "is_digit c \<longleftrightarrow> 48 \<le> byte_val c \<and> byte_val c \<le> 57"

lemma take_slice_drop: "i \<le> j \<Longrightarrow> take i s @ drop i (take j s) @ drop j s = s"
  by (metis append_assoc append_take_drop_id min.absorb1 take_take)

section \<open>Searching: packages bytes and strings\<close>

fun Index :: "bytes \<Rightarrow> bytes \<Rightarrow> nat option" where
  "Index [] sep = (if sep = [] then Some 0 else None)"
| "Index (c # cs) sep =
     (if prefix sep (c # cs) then Some 0 else map_option Suc (Index cs sep))"

fun IndexByte :: "bytes \<Rightarrow> char \<Rightarrow> nat option" where
  "IndexByte [] b = None"
| "IndexByte (c # cs) b = (if c = b then Some 0 else map_option Suc (IndexByte cs b))"

definition LastIndexByte :: "bytes \<Rightarrow> char \<Rightarrow> nat option" where
  "LastIndexByte s b = map_option (\<lambda>i. length s - Suc i) (IndexByte (rev s) b)"

definition Cut :: "bytes \<Rightarrow> bytes \<Rightarrow> bytes \<times> bytes \<times> bool" where
  "Cut s sep = (case Index s sep of
      None \<Rightarrow> (s, [], False)
    | Some i \<Rightarrow> (take i s, drop (i + length sep) s, True))"

text \<open>A Go scan \<^verbatim>\<open>for i < len(data) && p(data[i]) { i++ }\<close>: the index where it stops.\<close>

function scan_while :: "(char \<Rightarrow> bool) \<Rightarrow> bytes \<Rightarrow> nat \<Rightarrow> nat" where
  "scan_while p data i = (if i < length data \<and> p (data ! i) then scan_while p data (Suc i) else i)"
  by pat_completeness auto
termination
  by (relation "measure (\<lambda>(p, data, i). length data - i)") auto

declare scan_while.simps [simp del]

lemma Index_Some_prefix:
  "Index s sep = Some i \<Longrightarrow> prefix sep (drop i s) \<and> i + length sep \<le> length s"
proof (induction s arbitrary: i)
  case Nil
  then show ?case by (auto split: if_splits)
next
  case (Cons c cs)
  show ?case
  proof (cases "prefix sep (c # cs)")
    case True
    with Cons.prems show ?thesis by (auto dest: prefix_length_le)
  next
    case False
    with Cons.prems obtain j where "Index cs sep = Some j" "i = Suc j" by auto
    with Cons.IH show ?thesis by auto
  qed
qed

lemma Index_Some_bound [search_simps]: "Index s sep = Some i \<Longrightarrow> i + length sep \<le> length s"
  by (simp add: Index_Some_prefix)

lemma Index_Some_split:
  assumes "Index s sep = Some i"
  shows "s = take i s @ sep @ drop (i + length sep) s"
proof -
  from Index_Some_prefix [OF assms] obtain r where "drop i s = sep @ r"
    by (auto simp: prefix_def)
  moreover from this have "drop (i + length sep) s = r"
    by (metis add.commute append_eq_conv_conj drop_drop)
  ultimately show ?thesis by (metis append_take_drop_id)
qed

lemma Index_Some_least: "Index s sep = Some i \<Longrightarrow> j < i \<Longrightarrow> \<not> prefix sep (drop j s)"
proof (induction s arbitrary: i j)
  case Nil
  then show ?case by (auto split: if_splits)
next
  case (Cons c cs)
  then show ?case by (cases j) (auto split: if_splits)
qed

lemma Index_None_iff [search_simps]: "Index s sep = None \<longleftrightarrow> \<not> sublist sep s"
proof (induction s)
  case Nil
  then show ?case by auto
next
  case (Cons c cs)
  then show ?case by (auto simp: sublist_Cons_right)
qed

definition first_at :: "bytes \<Rightarrow> bytes \<Rightarrow> nat \<Rightarrow> bool" where
  "first_at sep s i \<longleftrightarrow> i \<le> length s \<and> prefix sep (drop i s) \<and> (\<forall>j<i. \<not> prefix sep (drop j s))"

lemma first_at_unique: "first_at sep s i \<Longrightarrow> first_at sep s j \<Longrightarrow> i = j"
  by (metis first_at_def linorder_neqE_nat)

lemma Index_Some_iff: "Index s sep = Some i \<longleftrightarrow> first_at sep s i"
proof
  assume "Index s sep = Some i"
  then show "first_at sep s i"
    using Index_Some_prefix [of s sep i] Index_Some_least [of s sep i] by (auto simp: first_at_def)
next
  assume f: "first_at sep s i"
  then obtain r where "s = take i s @ sep @ r"
    by (metis append_take_drop_id first_at_def prefix_def)
  then have "sublist sep s" by (metis sublist_def)
  then obtain j where j: "Index s sep = Some j"
    by (metis Index_None_iff option.exhaust)
  then have "first_at sep s j"
    using Index_Some_prefix [OF j] Index_Some_least [OF j] by (auto simp: first_at_def)
  with f have "i = j" by (rule first_at_unique)
  with j show "Index s sep = Some i" by simp
qed

lemma first_at_Nil [simp]: "first_at [] s i \<longleftrightarrow> i = 0"
  by (auto simp: first_at_def)

lemma Index_Nil_sep [simp]: "Index s [] = Some 0"
  by (simp add: Index_Some_iff)

lemma Index_append_sep: "\<exists>i. Index (a @ sep @ b) sep = Some i \<and> i \<le> length a"
proof (induction a)
  case Nil
  have "prefix sep (sep @ b)" by simp
  then show ?case by (cases "sep @ b") auto
next
  case (Cons c a)
  then show ?case by auto
qed

lemma IndexByte_Some_iff [search_simps]:
  "IndexByte s b = Some i \<longleftrightarrow> i < length s \<and> s ! i = b \<and> b \<notin> set (take i s)"
proof (induction s arbitrary: i)
  case Nil
  then show ?case by simp
next
  case (Cons c cs)
  then show ?case by (cases i) auto
qed

lemma IndexByte_None_iff [search_simps]: "IndexByte s b = None \<longleftrightarrow> b \<notin> set s"
  by (induction s) auto

lemma IndexByte_Some_split:
  "IndexByte s b = Some i \<Longrightarrow> s = take i s @ b # drop (Suc i) s"
  by (auto simp: IndexByte_Some_iff intro: id_take_nth_drop)

lemma IndexByte_append: "b \<notin> set a \<Longrightarrow> IndexByte (a @ b # r) b = Some (length a)"
  by (simp add: IndexByte_Some_iff)

lemma LastIndexByte_Some_iff [search_simps]:
  "LastIndexByte s b = Some i \<longleftrightarrow> i < length s \<and> s ! i = b \<and> b \<notin> set (drop (Suc i) s)"
  (is "?l \<longleftrightarrow> ?r")
proof
  assume ?l
  then obtain j where j: "IndexByte (rev s) b = Some j" and i: "i = length s - Suc j"
    by (auto simp: LastIndexByte_def)
  moreover from j have "Suc (length s - Suc j) = length s - j"
    by (auto simp: IndexByte_Some_iff)
  ultimately show ?r
    by (auto simp: IndexByte_Some_iff rev_nth take_rev)
next
  assume r: ?r
  have "IndexByte (rev s) b = Some (length s - Suc i)"
    using r by (auto simp: IndexByte_Some_iff rev_nth take_rev)
  with r show ?l by (simp add: LastIndexByte_def)
qed

lemma LastIndexByte_None_iff [search_simps]: "LastIndexByte s b = None \<longleftrightarrow> b \<notin> set s"
  by (simp add: LastIndexByte_def IndexByte_None_iff)

lemma scan_while_eq:
  "scan_while p data i = i + length (takeWhile p (drop i data))"
proof (induction p data i rule: scan_while.induct)
  case (1 p data i)
  show ?case
  proof (cases "i < length data \<and> p (data ! i)")
    case True
    then have "drop i data = data ! i # drop (Suc i) data"
      by (simp add: Cons_nth_drop_Suc)
    with True 1 show ?thesis by (simp add: scan_while.simps [of p data i])
  next
    case False
    then have "takeWhile p (drop i data) = []"
      by (cases "drop i data") (auto simp: Cons_nth_drop_Suc [symmetric] dest: nth_via_drop)
    with False show ?thesis by (auto simp: scan_while.simps [of p data i])
  qed
qed

lemma scan_while_bounds: "i \<le> length data \<Longrightarrow> i \<le> scan_while p data i \<and> scan_while p data i \<le> length data"
  using length_takeWhile_le [of p "drop i data"] by (simp add: scan_while_eq)

section \<open>Signed 64-bit arithmetic\<close>

text \<open>Go's \<^verbatim>\<open>int\<close>, \<^verbatim>\<open>int64\<close> and \<^verbatim>\<open>time.Duration\<close> wrap around.\<close>

definition wrap64 :: "int \<Rightarrow> int" where
  "wrap64 x = (x + 2 ^ 63) mod 2 ^ 64 - 2 ^ 63"

lemma wrap64_range: "- (2 ^ 63) \<le> wrap64 x \<and> wrap64 x < 2 ^ 63"
  using pos_mod_bound [of "2 ^ 64" "x + 2 ^ 63"] pos_mod_sign [of "2 ^ 64" "x + 2 ^ 63"]
  by (simp add: wrap64_def)

lemma wrap64_id: "- (2 ^ 63) \<le> x \<Longrightarrow> x < 2 ^ 63 \<Longrightarrow> wrap64 x = x"
  by (simp add: wrap64_def)

lemma wrap64_once:
  "2 ^ 63 \<le> x \<Longrightarrow> x < 3 * 2 ^ 63 \<Longrightarrow> wrap64 x = x - 2 ^ 64" "x < - (2 ^ 63) \<Longrightarrow> - (3 * 2 ^ 63) \<le> x \<Longrightarrow> wrap64 x = x + 2 ^ 64"
proof -
  show "2 ^ 63 \<le> x \<Longrightarrow> x < 3 * 2 ^ 63 \<Longrightarrow> wrap64 x = x - 2 ^ 64"
    using mod_add_self2 [of "x - 2 ^ 63" "2 ^ 64"] by (simp add: wrap64_def add.commute)
  show "x < - (2 ^ 63) \<Longrightarrow> - (3 * 2 ^ 63) \<le> x \<Longrightarrow> wrap64 x = x + 2 ^ 64"
    using mod_add_self2 [of "x + 2 ^ 63" "2 ^ 64"] by (simp add: wrap64_def)
qed

section \<open>Interfaces\<close>

text \<open>
  A packet codec: decoding an encoded well-formed packet yields its canonical form.
\<close>

locale packet_codec =
  fixes wf :: "'a \<Rightarrow> bool" and canon :: "'a \<Rightarrow> 'a"
    and encode :: "'a \<Rightarrow> bytes" and decode :: "bytes \<Rightarrow> 'e + 'a"
  assumes decode_encoded: "wf x \<Longrightarrow> decode (encode x) = Inr (canon x)"
begin

lemma encode_separates:
  assumes "wf x" and "wf y" and "encode x = encode y"
  shows "canon x = canon y"
  using decode_encoded [OF assms(1)] decode_encoded [OF assms(2)] assms(3) by simp

end

text \<open>
  A stream codec: reading takes one value off the front of a byte stream.  The law
  for one value gives it for any sequence of values written back to back.
\<close>

fun read_many :: "(bytes \<Rightarrow> 'e + ('a \<times> bytes)) \<Rightarrow> nat \<Rightarrow> bytes \<Rightarrow> 'e + ('a list \<times> bytes)" where
  "read_many rd 0 s = Inr ([], s)"
| "read_many rd (Suc n) s =
    (case rd s of
       Inl e \<Rightarrow> Inl e
     | Inr (x, s) \<Rightarrow> (case read_many rd n s of Inl e \<Rightarrow> Inl e | Inr (xs, s) \<Rightarrow> Inr (x # xs, s)))"

locale stream_codec =
  fixes ok :: "'a \<Rightarrow> bool" and wr :: "'a \<Rightarrow> bytes" and rd :: "bytes \<Rightarrow> 'e + ('a \<times> bytes)"
  assumes read_written: "ok x \<Longrightarrow> rd (wr x @ rest) = Inr (x, rest)"
begin

lemma read_many_written:
  "list_all ok xs \<Longrightarrow> read_many rd (length xs) (concat (map wr xs) @ rest) = Inr (xs, rest)"
  by (induction xs) (simp_all add: read_written)

lemma writes_prefix_free:
  assumes "ok x" and "ok y" and "wr x @ r = wr y @ s"
  shows "x = y \<and> r = s"
proof -
  have "Inr (x, r) = rd (wr x @ r)" using read_written [OF assms(1)] by (rule sym)
  also have "\<dots> = rd (wr y @ s)" by (simp only: assms(3))
  also have "\<dots> = Inr (y, s)" using assms(2) by (rule read_written)
  finally show ?thesis by simp
qed

end

text \<open>A registry of handlers under keys; a key that is not valid may be ignored.\<close>

locale registry =
  fixes valid :: "'k \<Rightarrow> bool" and get :: "'k \<Rightarrow> 's \<Rightarrow> 'h option" and put :: "'k \<Rightarrow> 'h \<Rightarrow> 's \<Rightarrow> 's"
  assumes get_put_same: "valid k \<Longrightarrow> get k (put k h s) = Some h"
    and get_put_other: "k \<noteq> k' \<Longrightarrow> get k (put k' h s) = get k s"
begin

lemma get_after_puts:
  "list_all (\<lambda>r. valid (fst r)) regs \<Longrightarrow> get k (fold (\<lambda>r. put (fst r) (snd r)) regs s) =
    (case map_of (rev regs) k of Some h \<Rightarrow> Some h | None \<Rightarrow> get k s)"
proof (induction regs arbitrary: s)
  case Nil
  then show ?case by simp
next
  case (Cons r regs)
  then show ?case
    by (cases r) (auto simp: map_add_def get_put_same get_put_other split: option.splits)
qed

end

text \<open>Transition systems and their reachable states.\<close>

inductive reach :: "('s \<Rightarrow> bool) \<Rightarrow> ('s \<Rightarrow> 's \<Rightarrow> bool) \<Rightarrow> 's \<Rightarrow> bool"
  for init :: "'s \<Rightarrow> bool" and step :: "'s \<Rightarrow> 's \<Rightarrow> bool" where
  reach_init: "init s \<Longrightarrow> reach init step s"
| reach_step: "reach init step s \<Longrightarrow> step s t \<Longrightarrow> reach init step t"

locale invariant_system =
  fixes init :: "'s \<Rightarrow> bool" and step :: "'s \<Rightarrow> 's \<Rightarrow> bool" and inv :: "'s \<Rightarrow> bool"
  assumes inv_init: "init s \<Longrightarrow> inv s"
    and inv_step: "inv s \<Longrightarrow> step s t \<Longrightarrow> inv t"
begin

lemma reach_inv: "reach init step s \<Longrightarrow> inv s"
  by (induction rule: reach.induct) (auto intro: inv_init inv_step)

end

end
