(* ===== verification/Extract.thy ===== *)
theory Extract
  imports Prelude
begin

text \<open>
  Package \<^verbatim>\<open>extract\<close>, file \<^verbatim>\<open>src/extract/extract.go\<close>: cutting text between
  boundaries, reading HTML attributes, regular-expression captures, and the push
  iterators over all matches.  A pair \<^verbatim>\<open>([]byte, error)\<close> is a sum with the error on
  the left.  A push iterator takes the consumer's \<^verbatim>\<open>yield\<close> as an argument, threads
  the consumer's state through it and stops when it returns false.  The wrappers
  that return \<^verbatim>\<open>generic.Result\<close> and \<^verbatim>\<open>generic.Optional\<close> (a package outside the
  repository) take that package's two constructors as arguments; the compiled
  regular expressions of Go are arguments as well.
\<close>

datatype extract_error =
    ErrElementNotFound
  | ErrBetweenNotFound
  | ErrAttrNotFound
  | ErrRegexMismatch
  | ErrCompileRegex bytes

section \<open>Between\<close>

definition Between :: "bytes \<Rightarrow> bytes \<Rightarrow> bytes \<Rightarrow> extract_error + bytes" where
  "Between src pre suf =
    (case (if pre \<noteq> [] then map_option (\<lambda>pIdx. pIdx + length pre) (Index src pre) else Some 0) of
       None \<Rightarrow> Inl ErrBetweenNotFound
     | Some startIdx \<Rightarrow>
         (let remaining = drop startIdx src in
          if suf \<noteq> [] then
            (case Cut remaining suf of (before, _, ok) \<Rightarrow>
               if \<not> ok then Inl ErrBetweenNotFound else Inr before)
          else Inr remaining))"

definition BetweenResult ::
  "(extract_error \<Rightarrow> 'r) \<Rightarrow> (bytes \<Rightarrow> 'r) \<Rightarrow> bytes \<Rightarrow> bytes \<Rightarrow> bytes \<Rightarrow> 'r" where
  "BetweenResult failure success src pre suf =
    (case Between src pre suf of Inl err \<Rightarrow> failure err | Inr b \<Rightarrow> success b)"

definition BetweenString ::
  "(extract_error \<Rightarrow> 'r) \<Rightarrow> (bytes \<Rightarrow> 'r) \<Rightarrow> bytes \<Rightarrow> bytes \<Rightarrow> bytes \<Rightarrow> 'r" where
  "BetweenString failure success src pre suf =
    (case Between src pre suf of Inl err \<Rightarrow> failure err | Inr b \<Rightarrow> success b)"

definition BetweenOptional :: "'r \<Rightarrow> (bytes \<Rightarrow> 'r) \<Rightarrow> bytes \<Rightarrow> bytes \<Rightarrow> bytes \<Rightarrow> 'r" where
  "BetweenOptional none some src pre suf =
    (case Between src pre suf of Inl err \<Rightarrow> none | Inr b \<Rightarrow> some b)"

section \<open>HTML attributes\<close>

abbreviation dquote :: char where "dquote \<equiv> CHR 0x22"
abbreviation squote :: char where "squote \<equiv> CHR 0x27"

definition extractAttributeValue :: "bytes \<Rightarrow> bytes \<Rightarrow> extract_error + bytes" where
  "extractAttributeValue data attrName =
    (let attrKey = attrName @ [CHR ''='', dquote]; idx = Index data attrKey; quote = dquote;
         (attrKey, idx, quote) =
           (if idx = None then
              (let attrKey = attrName @ [CHR ''='', squote] in (attrKey, Index data attrKey, squote))
            else (attrKey, idx, quote))
     in case idx of
          None \<Rightarrow> Inl ErrAttrNotFound
        | Some i \<Rightarrow>
            (let start = i + length attrKey in
             case IndexByte (drop start data) quote of
               None \<Rightarrow> Inl ErrAttrNotFound
             | Some n \<Rightarrow> Inr (take n (drop start data))))"

definition Attr :: "bytes \<Rightarrow> bytes \<Rightarrow> bytes \<Rightarrow> extract_error + bytes" where
  "Attr src css attrName =
    (if css = [] \<or> hd css \<noteq> CHR ''#'' then extractAttributeValue src attrName
     else
      (let idTarget = tl css;
           pos = Index src (''id='' @ [dquote] @ idTarget @ [dquote]);
           pos = (if pos = None then Index src (''id='' @ [squote] @ idTarget @ [squote]) else pos)
       in case pos of
            None \<Rightarrow> Inl ErrElementNotFound
          | Some pos \<Rightarrow>
              (case LastIndexByte (take pos src) CHR ''<'' of
                 None \<Rightarrow> Inl ErrAttrNotFound
               | Some tagStart \<Rightarrow>
                   (case IndexByte (drop pos src) CHR ''>'' of
                      None \<Rightarrow> Inl ErrAttrNotFound
                    | Some tagEnd \<Rightarrow>
                        (let tagSlice = drop tagStart (take (pos + tagEnd + 1) src) in
                         extractAttributeValue tagSlice attrName)))))"

definition AttrResult ::
  "(extract_error \<Rightarrow> 'r) \<Rightarrow> (bytes \<Rightarrow> 'r) \<Rightarrow> bytes \<Rightarrow> bytes \<Rightarrow> bytes \<Rightarrow> 'r" where
  "AttrResult failure success src css attrName =
    (case Attr src css attrName of Inl err \<Rightarrow> failure err | Inr b \<Rightarrow> success b)"

definition AttrString ::
  "(extract_error \<Rightarrow> 'r) \<Rightarrow> (bytes \<Rightarrow> 'r) \<Rightarrow> bytes \<Rightarrow> bytes \<Rightarrow> bytes \<Rightarrow> 'r" where
  "AttrString failure success src css attrName =
    (case Attr src css attrName of Inl err \<Rightarrow> failure err | Inr b \<Rightarrow> success b)"

definition AttrOptional :: "'r \<Rightarrow> (bytes \<Rightarrow> 'r) \<Rightarrow> bytes \<Rightarrow> bytes \<Rightarrow> bytes \<Rightarrow> 'r" where
  "AttrOptional none some src css attrName =
    (case Attr src css attrName of Inl err \<Rightarrow> none | Inr b \<Rightarrow> some b)"

section \<open>Regular expressions\<close>

text \<open>
  \<open>compile\<close> is \<^verbatim>\<open>regexp.Compile\<close> (\<open>None\<close>: the pattern does not compile) and
  \<open>FindSubmatch\<close> gives the match followed by the capture groups, or no element.
\<close>

definition Regex ::
  "(bytes \<Rightarrow> 'rx option) \<Rightarrow> ('rx \<Rightarrow> bytes \<Rightarrow> bytes list) \<Rightarrow> bytes \<Rightarrow> bytes \<Rightarrow> extract_error + bytes" where
  "Regex compile FindSubmatch src pattern =
    (case compile pattern of
       None \<Rightarrow> Inl (ErrCompileRegex pattern)
     | Some rx \<Rightarrow>
         (let matches = FindSubmatch rx src in
          if length matches < 2 then
            (if length matches = 1 then Inr (matches ! 0) else Inl ErrRegexMismatch)
          else Inr (matches ! 1)))"

definition RegexResult ::
  "(extract_error \<Rightarrow> 'r) \<Rightarrow> (bytes \<Rightarrow> 'r) \<Rightarrow> (bytes \<Rightarrow> 'rx option) \<Rightarrow>
   ('rx \<Rightarrow> bytes \<Rightarrow> bytes list) \<Rightarrow> bytes \<Rightarrow> bytes \<Rightarrow> 'r" where
  "RegexResult failure success compile FindSubmatch src pattern =
    (case Regex compile FindSubmatch src pattern of Inl err \<Rightarrow> failure err | Inr b \<Rightarrow> success b)"

definition RegexString ::
  "(extract_error \<Rightarrow> 'r) \<Rightarrow> (bytes \<Rightarrow> 'r) \<Rightarrow> (bytes \<Rightarrow> 'rx option) \<Rightarrow>
   ('rx \<Rightarrow> bytes \<Rightarrow> bytes list) \<Rightarrow> bytes \<Rightarrow> bytes \<Rightarrow> 'r" where
  "RegexString failure success compile FindSubmatch src pattern =
    (case Regex compile FindSubmatch src pattern of Inl err \<Rightarrow> failure err | Inr b \<Rightarrow> success b)"

definition RegexOptional ::
  "'r \<Rightarrow> (bytes \<Rightarrow> 'r) \<Rightarrow> (bytes \<Rightarrow> 'rx option) \<Rightarrow>
   ('rx \<Rightarrow> bytes \<Rightarrow> bytes list) \<Rightarrow> bytes \<Rightarrow> bytes \<Rightarrow> 'r" where
  "RegexOptional none some compile FindSubmatch src pattern =
    (case Regex compile FindSubmatch src pattern of Inl err \<Rightarrow> none | Inr b \<Rightarrow> some b)"

section \<open>Push iterators\<close>

type_synonym ('a, 's) yield = "'a \<Rightarrow> 's \<Rightarrow> bool \<times> 's"

function betweenAll_loop ::
  "bytes \<Rightarrow> bytes \<Rightarrow> bytes \<Rightarrow> (bytes, 's) yield \<Rightarrow> nat \<Rightarrow> 's \<Rightarrow> 's" where
  "betweenAll_loop src pre suf yield cursor st =
    (if cursor < length src then
       (case Index (drop cursor src) pre of
          None \<Rightarrow> st
        | Some idx \<Rightarrow>
            (let start = cursor + idx + length pre in
             if length suf = 0 then snd (yield (drop start src) st)
             else (case Index (drop start src) suf of
                None \<Rightarrow> st
              | Some n \<Rightarrow>
                  (let matched = take n (drop start src);
                       cursor = start + n + length suf;
                       (more, st) = yield matched st
                   in if \<not> more then st
                      else betweenAll_loop src pre suf yield cursor st))))
     else st)"
  by pat_completeness auto
termination
  by (relation "measure (\<lambda>(src, pre, suf, yield, cursor, st). length src - cursor)")
     (auto simp del: length_greater_0_conv simp: length_greater_0_conv [symmetric])

declare betweenAll_loop.simps [simp del]

definition BetweenAll :: "bytes \<Rightarrow> bytes \<Rightarrow> bytes \<Rightarrow> (bytes, 's) yield \<Rightarrow> 's \<Rightarrow> 's" where
  "BetweenAll src pre suf yield st =
    (if pre = [] \<and> suf = [] then st else betweenAll_loop src pre suf yield 0 st)"

definition BetweenAllString :: "bytes \<Rightarrow> bytes \<Rightarrow> bytes \<Rightarrow> (bytes, 's) yield \<Rightarrow> 's \<Rightarrow> 's" where
  "BetweenAllString src pre suf yield st =
    (if pre = [] \<and> suf = [] then st else betweenAll_loop src pre suf yield 0 st)"

fun regexAll_loop :: "bytes list list \<Rightarrow> (bytes, 's) yield \<Rightarrow> 's \<Rightarrow> 's" where
  "regexAll_loop [] yield st = st"
| "regexAll_loop (m # ms) yield st =
    (if length m \<ge> 2 then
       (let (more, st) = yield (m ! 1) st in if \<not> more then st else regexAll_loop ms yield st)
     else if length m = 1 then
       (let (more, st) = yield (m ! 0) st in if \<not> more then st else regexAll_loop ms yield st)
     else regexAll_loop ms yield st)"

definition RegexAll ::
  "('rx \<Rightarrow> bytes \<Rightarrow> bytes list list) \<Rightarrow> bytes \<Rightarrow> 'rx option \<Rightarrow> (bytes, 's) yield \<Rightarrow> 's \<Rightarrow> 's" where
  "RegexAll FindAllSubmatch src rx yield st =
    (case rx of None \<Rightarrow> st | Some r \<Rightarrow> regexAll_loop (FindAllSubmatch r src) yield st)"

fun regexAllSubmatch_loop :: "bytes list list \<Rightarrow> (bytes list, 's) yield \<Rightarrow> 's \<Rightarrow> 's" where
  "regexAllSubmatch_loop [] yield st = st"
| "regexAllSubmatch_loop (m # ms) yield st =
    (let (more, st) = yield m st in if \<not> more then st else regexAllSubmatch_loop ms yield st)"

definition RegexAllSubmatch ::
  "('rx \<Rightarrow> bytes \<Rightarrow> bytes list list) \<Rightarrow> bytes \<Rightarrow> 'rx option \<Rightarrow> (bytes list, 's) yield \<Rightarrow> 's \<Rightarrow> 's" where
  "RegexAllSubmatch FindAllSubmatch src rx yield st =
    (case rx of None \<Rightarrow> st | Some r \<Rightarrow> regexAllSubmatch_loop (FindAllSubmatch r src) yield st)"

definition attrsAll_next :: "bytes \<Rightarrow> bytes \<Rightarrow> (char \<times> nat) option" where
  "attrsAll_next rest attrName =
    (let attrKey1 = attrName @ [CHR ''='', dquote]; attrKey2 = attrName @ [CHR ''='', squote];
         idx1 = Index rest attrKey1; idx2 = Index rest attrKey2
     in if idx1 \<noteq> None \<and> (idx2 = None \<or> the idx1 < the idx2) then Some (dquote, the idx1 + length attrKey1)
        else if idx2 \<noteq> None then Some (squote, the idx2 + length attrKey2)
        else None)"

function attrsAll_loop :: "bytes \<Rightarrow> bytes \<Rightarrow> (bytes, 's) yield \<Rightarrow> nat \<Rightarrow> 's \<Rightarrow> 's" where
  "attrsAll_loop src attrName yield cursor st =
    (if cursor < length src then
       (case attrsAll_next (drop cursor src) attrName of
          None \<Rightarrow> st
        | Some (quote, startOffset) \<Rightarrow>
            (let valStart = cursor + startOffset in
             case IndexByte (drop valStart src) quote of
               None \<Rightarrow> st
             | Some valEnd \<Rightarrow>
                 (let val = take valEnd (drop valStart src);
                      cursor = valStart + valEnd + 1;
                      (more, st) = yield val st
                  in if \<not> more then st else attrsAll_loop src attrName yield cursor st)))
     else st)"
  by pat_completeness auto
termination
  by (relation "measure (\<lambda>(src, attrName, yield, cursor, st). length src - cursor)") auto

declare attrsAll_loop.simps [simp del]

definition AttrsAll :: "bytes \<Rightarrow> bytes \<Rightarrow> (bytes, 's) yield \<Rightarrow> 's \<Rightarrow> 's" where
  "AttrsAll src attrName yield st =
    (if length attrName = 0 then st else attrsAll_loop src attrName yield 0 st)"

section \<open>What Between returns\<close>

lemma Between_Inr_iff:
  "Between src pre suf = Inr m \<longleftrightarrow>
     (\<exists>a b. src = a @ pre @ m @ suf @ b \<and> first_at pre src (length a) \<and>
            (if suf = [] then b = [] else first_at suf (m @ suf @ b) (length m)))"
  (is "?l \<longleftrightarrow> ?r")
proof
  assume l: ?l
  define i where "i = (if pre \<noteq> [] then the (Index src pre) else 0)"
  have i: "first_at pre src i"
    using l by (auto simp: Between_def i_def Index_Some_iff [symmetric] split: option.splits if_splits)
  define r where "r = drop (i + length pre) src"
  have src: "src = take i src @ pre @ r" and il: "i \<le> length src"
    using i Index_Some_split [of src pre i] by (auto simp: Index_Some_iff r_def first_at_def)
  have m: "(if suf = [] then m = r else \<exists>n. Index r suf = Some n \<and> m = take n r)"
    using l by (auto simp: Between_def Cut_def i_def r_def Let_def split: option.splits if_splits)
  show ?r
  proof (cases "suf = []")
    case True
    with m src i il show ?thesis by (intro exI [of _ "take i src"] exI [of _ "[]"]) auto
  next
    case False
    with m obtain n where n: "Index r suf = Some n" "m = take n r" by auto
    then have r: "r = m @ suf @ drop (n + length suf) r" using Index_Some_split by auto
    moreover have "length m = n" using n Index_Some_bound [of r suf n] by simp
    ultimately show ?thesis
      using src i il n False
      by (intro exI [of _ "take i src"] exI [of _ "drop (n + length suf) r"])
         (auto simp: Index_Some_iff)
  qed
next
  assume ?r
  then obtain a b where src: "src = a @ pre @ m @ suf @ b" and f: "first_at pre src (length a)"
    and s: "if suf = [] then b = [] else first_at suf (m @ suf @ b) (length m)" by blast
  have i: "Index src pre = Some (length a)" using f by (simp add: Index_Some_iff)
  have d: "drop (length a + length pre) src = m @ suf @ b" by (simp add: src)
  have z: "a = []" if "pre = []" using f that by simp
  show ?l
  proof (cases "suf = []")
    case True
    with s i d z src show ?thesis by (auto simp: Between_def)
  next
    case False
    then have "Index (m @ suf @ b) suf = Some (length m)" using s by (simp add: Index_Some_iff)
    with False i d z src show ?thesis by (auto simp: Between_def Cut_def Let_def)
  qed
qed

lemma Between_Inl_iff:
  "(\<exists>e. Between src pre suf = Inl e) \<longleftrightarrow>
     Between src pre suf = Inl ErrBetweenNotFound"
  by (auto simp: Between_def Cut_def Let_def split: option.splits if_splits)

section \<open>Iterators against the list of matches\<close>

text \<open>What a consumer sees of a list of values: it is called on each in turn until it declines.\<close>

fun drive :: "('a, 's) yield \<Rightarrow> 'a list \<Rightarrow> 's \<Rightarrow> 's" where
  "drive yield [] st = st"
| "drive yield (x # xs) st = (let (more, st) = yield x st in if more then drive yield xs st else st)"

function segments :: "bytes \<Rightarrow> bytes \<Rightarrow> bytes \<Rightarrow> bytes list" where
  "segments pre suf s =
    (if s = [] then []
     else (case Index s pre of
        None \<Rightarrow> []
      | Some i \<Rightarrow>
          (let r = drop (i + length pre) s in
           if suf = [] then [r]
           else (case Index r suf of
              None \<Rightarrow> []
            | Some n \<Rightarrow> take n r # segments pre suf (drop (n + length suf) r)))))"
  by pat_completeness auto
termination
  by (relation "measure (\<lambda>(pre, suf, s). length s)")
     (auto simp del: length_greater_0_conv simp: length_greater_0_conv [symmetric])

declare segments.simps [simp del]

lemma betweenAll_loop_eq:
  "betweenAll_loop src pre suf yield cursor st = drive yield (segments pre suf (drop cursor src)) st"
proof (induction src pre suf yield cursor st rule: betweenAll_loop.induct)
  case (1 src pre suf yield cursor st)
  show ?case
  proof (cases "cursor < length src")
    case False
    then show ?thesis by (simp add: betweenAll_loop.simps [of src pre suf yield cursor] segments.simps)
  next
    case True
    note IH = 1 [OF True]
    show ?thesis
    proof (cases "Index (drop cursor src) pre")
      case None
      with True show ?thesis
        by (simp add: betweenAll_loop.simps [of src pre suf yield cursor]
            segments.simps [of pre suf "drop cursor src"])
    next
      case (Some i)
      show ?thesis
      proof (cases "suf = [] \<or> Index (drop (cursor + i + length pre) src) suf = None")
        case True
        with \<open>cursor < length src\<close> Some show ?thesis
          by (auto simp: betweenAll_loop.simps [of src pre suf yield cursor] Let_def ac_simps
              segments.simps [of pre suf "drop cursor src"] split: prod.splits)
      next
        case False
        then obtain n where n: "suf \<noteq> []" "Index (drop (cursor + i + length pre) src) suf = Some n"
          by auto
        obtain more st' where y: "yield (take n (drop (cursor + i + length pre) src)) st = (more, st')"
          by (cases "yield (take n (drop (cursor + i + length pre) src)) st")
        have "more \<Longrightarrow> betweenAll_loop src pre suf yield (cursor + i + length pre + n + length suf) st'
           = drive yield (segments pre suf (drop (cursor + i + length pre + n + length suf) src)) st'"
          using IH [OF Some refl _ n(2) refl refl y [symmetric] refl] n(1) by simp
        with True Some n y show ?thesis
          by (simp add: betweenAll_loop.simps [of src pre suf yield cursor] Let_def ac_simps
              segments.simps [of pre suf "drop cursor src"])
      qed
    qed
  qed
qed

lemma segments_hd:
  "segments pre suf s = m # ms \<Longrightarrow> Between s pre suf = Inr m"
  by (subst (asm) segments.simps)
     (auto simp: Between_def Cut_def Let_def split: if_splits option.splits)

lemma segments_decompose:
  "suf \<noteq> [] \<Longrightarrow> \<exists>gaps rest. length gaps = length (segments pre suf s) \<and>
     s = concat (map2 (\<lambda>g m. g @ pre @ m @ suf) gaps (segments pre suf s)) @ rest"
proof (induction pre suf s rule: segments.induct)
  case (1 pre suf s)
  show ?case
  proof (cases "segments pre suf s")
    case Nil
    then show ?thesis by (intro exI [of _ "[]"] exI [of _ s]) simp
  next
    case (Cons m ms)
    then have "s \<noteq> []" by (auto simp: segments.simps)
    obtain i where i: "Index s pre = Some i"
      using Cons by (subst (asm) segments.simps) (auto split: if_splits option.splits)
    define r where "r = drop (i + length pre) s"
    obtain n where n: "Index r suf = Some n"
      using Cons \<open>s \<noteq> []\<close> i 1(2)
      by (subst (asm) segments.simps) (auto simp: r_def Let_def split: option.splits)
    define t where "t = drop (n + length suf) r"
    have ms: "m = take n r" "ms = segments pre suf t"
      using Cons \<open>s \<noteq> []\<close> i n 1(2)
      by (subst (asm) segments.simps, simp add: Let_def r_def t_def)+
    obtain gaps rest where g: "length gaps = length ms"
      "t = concat (map2 (\<lambda>g m. g @ pre @ m @ suf) gaps ms) @ rest"
      using 1(1) [OF \<open>s \<noteq> []\<close> i r_def _ n] 1(2) by (auto simp: t_def ms)
    have "s = take i s @ pre @ m @ suf @ t"
      using Index_Some_split [OF i] Index_Some_split [OF n] by (simp add: r_def t_def ms)
    with g show ?thesis unfolding Cons
      by (intro exI [of _ "take i s # gaps"] exI [of _ rest]) (simp add: append_assoc)
  qed
qed

section \<open>Attributes\<close>

text \<open>A quoted occurrence of an attribute: its name, an equals sign and the quoted value.\<close>

definition quoted :: "bytes \<Rightarrow> char \<Rightarrow> bytes \<Rightarrow> bytes" where
  "quoted name q v = name @ [CHR ''='', q] @ v @ [q]"

lemma quoted_value_sublist:
  assumes "Index data (name @ [CHR ''='', q]) = Some i"
    and "IndexByte (drop (i + length name + 2) data) q = Some n"
    and "v = take n (drop (i + length name + 2) data)"
  shows "sublist (quoted name q v) data \<and> q \<notin> set v"
proof -
  define r where "r = drop (i + length name + 2) data"
  have d: "data = take i data @ (name @ [CHR ''='', q]) @ r"
    using Index_Some_split [OF assms(1)] by (simp add: r_def numeral_2_eq_2)
  have "r = v @ q # drop (Suc n) r"
    using IndexByte_Some_split [OF assms(2)] assms(3) by (simp add: r_def)
  with d have "data = take i data @ quoted name q v @ drop (Suc n) r"
    by (simp add: quoted_def)
  then have "sublist (quoted name q v) data" by (metis sublist_appendI)
  moreover have "q \<notin> set v" using assms(2,3) by (simp add: IndexByte_Some_iff)
  ultimately show ?thesis by simp
qed

lemma extractAttributeValue_quoted:
  assumes "extractAttributeValue data name = Inr v"
  shows "\<exists>q \<in> {dquote, squote}. sublist (quoted name q v) data \<and> q \<notin> set v"
proof -
  obtain q i n where q: "q \<in> {dquote, squote}" and i: "Index data (name @ [CHR ''='', q]) = Some i"
    and n: "IndexByte (drop (i + length name + 2) data) q = Some n"
    and v: "v = take n (drop (i + length name + 2) data)"
    using assms unfolding extractAttributeValue_def Let_def
    by (cases "Index data (name @ [CHR ''='', dquote])") (auto split: option.splits)
  from quoted_value_sublist [OF i n v] q show ?thesis by blast
qed

lemma attrsAll_next_Some:
  assumes "attrsAll_next rest name = Some (q, off)"
  shows "q \<in> {dquote, squote} \<and>
    (\<exists>i. Index rest (name @ [CHR ''='', q]) = Some i \<and> off = i + length name + 2)"
  using assms unfolding attrsAll_next_def Let_def by (auto split: if_splits)

text \<open>The values \<open>AttrsAll\<close> visits, as a list over the unread part of the source.\<close>

function attr_values :: "bytes \<Rightarrow> bytes \<Rightarrow> bytes list" where
  "attr_values name s =
    (if s = [] then []
     else (case attrsAll_next s name of
        None \<Rightarrow> []
      | Some (q, off) \<Rightarrow>
          (case IndexByte (drop off s) q of
             None \<Rightarrow> []
           | Some n \<Rightarrow> take n (drop off s) # attr_values name (drop (off + n + 1) s))))"
  by pat_completeness auto
termination
  by (relation "measure (\<lambda>(name, s). length s)") auto

declare attr_values.simps [simp del]

lemma attr_values_Nil [simp]: "attr_values name [] = []"
  by (simp add: attr_values.simps)

lemma attrsAll_loop_eq:
  "attrsAll_loop src name yield cursor st = drive yield (attr_values name (drop cursor src)) st"
proof (induction src name yield cursor st rule: attrsAll_loop.induct)
  case (1 src name yield cursor st)
  show ?case
  proof (cases "cursor < length src \<and> attrsAll_next (drop cursor src) name \<noteq> None")
    case False
    then show ?thesis
      by (cases "attrsAll_next (drop cursor src) name")
         (auto simp: attrsAll_loop.simps [of src name yield cursor]
          attr_values.simps [of name "drop cursor src"])
  next
    case True
    then obtain q off where c: "cursor < length src"
      and n: "attrsAll_next (drop cursor src) name = Some (q, off)" by auto
    note IH = 1 [OF c n refl refl]
    show ?thesis
    proof (cases "IndexByte (drop (cursor + off) src) q")
      case None
      with c n show ?thesis
        by (simp add: attrsAll_loop.simps [of src name yield cursor] add.commute
            attr_values.simps [of name "drop cursor src"])
    next
      case (Some k)
      obtain more st' where y: "yield (take k (drop (cursor + off) src)) st = (more, st')"
        by (cases "yield (take k (drop (cursor + off) src)) st")
      have "more \<Longrightarrow> attrsAll_loop src name yield (cursor + off + k + 1) st'
         = drive yield (attr_values name (drop (cursor + off + k + 1) src)) st'"
        using IH [OF Some refl refl y [symmetric] refl] by simp
      with c n Some y show ?thesis
        by (simp add: attrsAll_loop.simps [of src name yield cursor] ac_simps Let_def
            attr_values.simps [of name "drop cursor src"])
    qed
  qed
qed

lemma attr_values_quoted:
  "v \<in> set (attr_values name s) \<Longrightarrow>
     \<exists>q \<in> {dquote, squote}. sublist (quoted name q v) s \<and> q \<notin> set v"
proof (induction name s rule: attr_values.induct)
  case (1 name s)
  from 1(2) obtain q off n where s: "s \<noteq> []" and nx: "attrsAll_next s name = Some (q, off)"
    and n: "IndexByte (drop off s) q = Some n"
    and v: "v = take n (drop off s) \<or> v \<in> set (attr_values name (drop (off + n + 1) s))"
    by (simp add: attr_values.simps [of name s] split: if_splits option.splits) metis
  show ?case
  proof (cases "v = take n (drop off s)")
    case True
    then show ?thesis
      using quoted_value_sublist [of s name q _ n v] attrsAll_next_Some [OF nx] n by auto
  next
    case False
    with v have "v \<in> set (attr_values name (drop (off + n + 1) s))" by simp
    from 1(1) [OF s nx refl n this] show ?thesis
      by (metis sublist_drop sublist_order.order_trans)
  qed
qed

lemma Attr_hash_position:
  assumes "Attr src (CHR ''#'' # idt) name = Inr v"
  obtains q pos ts te where "q \<in> {dquote, squote}"
    and "Index src (quoted ''id'' q idt) = Some pos"
    and "LastIndexByte (take pos src) CHR ''<'' = Some ts"
    and "IndexByte (drop pos src) CHR ''>'' = Some te"
    and "extractAttributeValue (drop ts (take (pos + te + 1) src)) name = Inr v"
proof (cases "Index src (quoted ''id'' dquote idt)")
  case None
  with assms that [of squote] show ?thesis
    unfolding Attr_def Let_def by (simp add: quoted_def split: option.splits)
next
  case (Some p)
  with assms that [of dquote] show ?thesis
    unfolding Attr_def Let_def by (simp add: quoted_def split: option.splits)
qed

lemma Attr_hash_tag:
  assumes "Attr src (CHR ''#'' # idt) name = Inr v" and "CHR ''>'' \<notin> set idt"
  shows "\<exists>pre tag post. src = pre @ tag @ post \<and> hd tag = CHR ''<'' \<and> last tag = CHR ''>'' \<and>
    (\<exists>q \<in> {dquote, squote}. sublist (quoted ''id'' q idt) tag) \<and>
    extractAttributeValue tag name = Inr v"
proof -
  obtain q pos ts te where q: "q \<in> {dquote, squote}" and pos: "Index src (quoted ''id'' q idt) = Some pos"
    and ts: "LastIndexByte (take pos src) CHR ''<'' = Some ts"
    and te: "IndexByte (drop pos src) CHR ''>'' = Some te"
    and v: "extractAttributeValue (drop ts (take (pos + te + 1) src)) name = Inr v"
    using assms(1) by (rule Attr_hash_position)
  define key where "key = quoted ''id'' q idt"
  define tag where "tag = drop ts (take (pos + te + 1) src)"
  have b: "ts < pos" "pos + te < length src" "src ! ts = CHR ''<''" "src ! (pos + te) = CHR ''>''"
    using ts te by (auto simp: search_simps)
  have t: "tag \<noteq> []" "hd tag = CHR ''<''" "last tag = CHR ''>''"
    using b by (auto simp: tag_def hd_drop_conv_nth last_conv_nth)
  have src: "src = take ts src @ tag @ drop (pos + te + 1) src"
    using b take_slice_drop [of ts "pos + te + 1" src] by (simp add: tag_def)
  have pk: "prefix key (drop pos src)" using Index_Some_prefix [OF pos] by (simp add: key_def)
  have gt: "CHR ''>'' \<notin> set key" using assms(2) q by (auto simp: key_def quoted_def)
  have "length key \<le> te"
  proof (rule ccontr)
    assume "\<not> length key \<le> te"
    then have "drop pos src ! te = key ! te" using pk by (auto simp: prefix_def nth_append)
    with te gt \<open>\<not> length key \<le> te\<close> show False by (auto simp: search_simps) (metis not_le nth_mem)
  qed
  then have "prefix key (take (te + 1) (drop pos src))"
    using pk by (auto simp: prefix_def)
  moreover have "take (te + 1) (drop pos src) = drop (pos - ts) tag"
    using b by (simp add: tag_def take_drop ac_simps)
  ultimately have "sublist key tag"
    by (metis prefix_imp_sublist sublist_drop sublist_order.order_trans)
  with src t v q show ?thesis unfolding key_def tag_def by blast
qed

section \<open>Properties\<close>

text \<open>\<open>Between\<close> returns \<open>m\<close> exactly when the source is the first occurrence of the prefix,
  followed by \<open>m\<close>, followed by the first occurrence of the suffix in what remains (everything
  that remains when the suffix is empty).\<close>
theorem Between_correct:
  "Between src pre suf = Inr m \<longleftrightarrow>
     (\<exists>a b. src = a @ pre @ m @ suf @ b \<and> first_at pre src (length a) \<and>
            (if suf = [] then b = [] else first_at suf (m @ suf @ b) (length m)))"
  by (rule Between_Inr_iff)

text \<open>For any consumer, \<open>BetweenAll\<close> shows it the list \<open>segments\<close> in order and stops when it
  declines; with a non-empty suffix those segments are disjoint pieces of the source, in source
  order, each directly between the prefix and the suffix, and the first of them is what \<open>Between\<close>
  returns.\<close>
theorem BetweenAll_correct:
  assumes "suf \<noteq> []"
  shows "BetweenAll src pre suf yield st = drive yield (segments pre suf src) st \<and>
    (\<exists>gaps rest. length gaps = length (segments pre suf src) \<and>
       src = concat (map2 (\<lambda>g m. g @ pre @ m @ suf) gaps (segments pre suf src)) @ rest) \<and>
    (\<forall>m ms. segments pre suf src = m # ms \<longrightarrow> Between src pre suf = Inr m)"
  using assms segments_decompose [of suf pre src] segments_hd
  by (auto simp: BetweenAll_def betweenAll_loop_eq)

theorem BetweenAll_correct_witness:
  "segments ''['' '']'' ''a[x]b[yz]c'' = [''x'', ''yz''] \<and>
   BetweenAll ''a[x]b[yz]c'' ''['' '']'' (\<lambda>m acc. (True, acc @ [m])) [] = [''x'', ''yz'']"
  using BetweenAll_correct [of "'']''" "''a[x]b[yz]c''" "''[''" "\<lambda>m acc. (True, acc @ [m])" "[]"]
  by (simp add: segments.simps)

text \<open>An attribute looked up by element id (an id without \<^verbatim>\<open>>\<close>) is read from one tag of the
  source: a piece that starts with \<open><\<close>, ends with \<open>>\<close> and carries the id attribute; the value
  found there is quoted and does not contain its own quote.\<close>
theorem Attr_by_id_correct:
  assumes "Attr src (CHR ''#'' # idt) name = Inr v" and "CHR ''>'' \<notin> set idt"
  shows "\<exists>pre tag post. src = pre @ tag @ post \<and> hd tag = CHR ''<'' \<and> last tag = CHR ''>'' \<and>
    (\<exists>q \<in> {dquote, squote}. sublist (quoted ''id'' q idt) tag) \<and>
    (\<exists>q \<in> {dquote, squote}. sublist (quoted name q v) tag \<and> q \<notin> set v)"
proof -
  obtain pre tag post where t: "src = pre @ tag @ post" "hd tag = CHR ''<''" "last tag = CHR ''>''"
    "\<exists>q \<in> {dquote, squote}. sublist (quoted ''id'' q idt) tag" "extractAttributeValue tag name = Inr v"
    using Attr_hash_tag [OF assms] by (elim exE conjE)
  from extractAttributeValue_quoted [OF t(5)] t(1-4) show ?thesis
    by (intro exI [of _ pre] exI [of _ tag] exI [of _ post] conjI)
qed

lemma Attr_example:
  "Attr (''<p><a id='' @ [squote] @ ''k'' @ [squote] @ '' href='' @ [dquote] @ ''u'' @ [dquote] @ ''>'')
     ''#k'' ''href'' = Inr ''u''"
  by (simp add: Attr_def extractAttributeValue_def LastIndexByte_def)

theorem Attr_by_id_correct_witness:
  "\<exists>pre tag post. ''<p><a id='' @ [squote] @ ''k'' @ [squote] @ '' href='' @ [dquote] @ ''u'' @ [dquote] @ ''>''
      = pre @ tag @ post \<and> hd tag = CHR ''<'' \<and> last tag = CHR ''>'' \<and>
    (\<exists>q \<in> {dquote, squote}. sublist (quoted ''id'' q ''k'') tag) \<and>
    (\<exists>q \<in> {dquote, squote}. sublist (quoted ''href'' q ''u'') tag \<and> q \<notin> set ''u'')"
  using Attr_by_id_correct [OF Attr_example] by simp

text \<open>\<open>AttrsAll\<close> shows its consumer the list \<open>attr_values\<close> until it declines, and every value of
  that list stands quoted in the source without containing its quote.\<close>
theorem AttrsAll_correct:
  assumes "name \<noteq> []"
  shows "AttrsAll src name yield st = drive yield (attr_values name src) st \<and>
    (\<forall>v \<in> set (attr_values name src).
       \<exists>q \<in> {dquote, squote}. sublist (quoted name q v) src \<and> q \<notin> set v)"
  using assms attr_values_quoted by (auto simp: AttrsAll_def attrsAll_loop_eq)

lemma attr_values_example:
  "attr_values ''h'' (''<a h='' @ [squote] @ ''1'' @ [squote] @ '' h='' @ [dquote] @ ''2'' @ [dquote]) =
     [''1'', ''2'']"
  by code_simp

theorem AttrsAll_correct_witness:
  "AttrsAll (''<a h='' @ [squote] @ ''1'' @ [squote] @ '' h='' @ [dquote] @ ''2'' @ [dquote]) ''h''
     (\<lambda>v acc. (True, acc @ [v])) [] = [''1'', ''2'']"
  using AttrsAll_correct [of "''h''" "''<a h='' @ [squote] @ ''1'' @ [squote] @ '' h='' @ [dquote] @ ''2'' @ [dquote]"
    "\<lambda>v acc. (True, acc @ [v])" "[]"]
  by (simp only: attr_values_example) simp

text \<open>An attribute name is matched as a bare substring: the attribute \<^verbatim>\<open>data-href\<close> of an element
  is taken for its \<^verbatim>\<open>href\<close>, and a double-quoted occurrence wins over an earlier single-quoted one.\<close>
theorem attribute_name_matches_suffix:
  "extractAttributeValue (''<a data-href='' @ [dquote] @ ''x'' @ [dquote] @ '' href='' @ [dquote] @ ''y'' @ [dquote] @ ''>'')
     ''href'' = Inr ''x'' \<and>
   extractAttributeValue (''<a href='' @ [squote] @ ''x'' @ [squote] @ ''><a href='' @ [dquote] @ ''y'' @ [dquote] @ ''>'')
     ''href'' = Inr ''y''"
  by (simp add: extractAttributeValue_def)

end
