(* ===== verification/Go_Utf8.thy ===== *)
theory Go_Utf8
  imports Prelude
begin

text \<open>
  The part of Go's package \<^verbatim>\<open>unicode/utf8\<close> the repository calls: \<^verbatim>\<open>AppendRune\<close>,
  \<^verbatim>\<open>Valid\<close> and the constants.  A rune is its code point, a natural number; an
  invalid code point is encoded as U+FFFD, as Go does.
\<close>

abbreviation MaxRune :: nat where "MaxRune \<equiv> 0x10FFFF"
abbreviation RuneError :: nat where "RuneError \<equiv> 0xFFFD"

definition is_scalar :: "nat \<Rightarrow> bool" where
  "is_scalar r \<longleftrightarrow> r \<le> MaxRune \<and> \<not> (0xD800 \<le> r \<and> r \<le> 0xDFFF)"

definition encode_rune :: "nat \<Rightarrow> bytes" where
  "encode_rune r =
    (if r \<le> 0x7F then [byte_of r]
     else if r \<le> 0x7FF then [byte_of (0xC0 + r div 64), byte_of (0x80 + r mod 64)]
     else if \<not> is_scalar r then [byte_of 0xEF, byte_of 0xBF, byte_of 0xBD]
     else if r \<le> 0xFFFF then
       [byte_of (0xE0 + r div 4096), byte_of (0x80 + r div 64 mod 64), byte_of (0x80 + r mod 64)]
     else
       [byte_of (0xF0 + r div 262144), byte_of (0x80 + r div 4096 mod 64),
        byte_of (0x80 + r div 64 mod 64), byte_of (0x80 + r mod 64)])"

definition AppendRune :: "bytes \<Rightarrow> nat \<Rightarrow> bytes" where
  "AppendRune dst r = dst @ encode_rune r"

text \<open>
  The number of bytes of the well-formed sequence at the head of a buffer (Unicode
  table 3-7, which Go's decoder implements), or \<open>0\<close> when there is none.
\<close>

definition cont :: "char \<Rightarrow> bool" where
  "cont c \<longleftrightarrow> 0x80 \<le> byte_val c \<and> byte_val c \<le> 0xBF"

definition second_ok :: "nat \<Rightarrow> char \<Rightarrow> bool" where
  "second_ok b0 c \<longleftrightarrow>
     (if b0 = 0xE0 then 0xA0 \<le> byte_val c \<and> byte_val c \<le> 0xBF
      else if b0 = 0xED then 0x80 \<le> byte_val c \<and> byte_val c \<le> 0x9F
      else if b0 = 0xF0 then 0x90 \<le> byte_val c \<and> byte_val c \<le> 0xBF
      else if b0 = 0xF4 then 0x80 \<le> byte_val c \<and> byte_val c \<le> 0x8F
      else cont c)"

fun rune_len :: "bytes \<Rightarrow> nat" where
  "rune_len [] = 0"
| "rune_len (c # cs) =
    (let b0 = byte_val c in
     if b0 < 0x80 then 1
     else if 0xC2 \<le> b0 \<and> b0 \<le> 0xDF then
       (case cs of c1 # _ \<Rightarrow> if cont c1 then 2 else 0 | _ \<Rightarrow> 0)
     else if 0xE0 \<le> b0 \<and> b0 \<le> 0xEF then
       (case cs of c1 # c2 # _ \<Rightarrow> if second_ok b0 c1 \<and> cont c2 then 3 else 0 | _ \<Rightarrow> 0)
     else if 0xF0 \<le> b0 \<and> b0 \<le> 0xF4 then
       (case cs of c1 # c2 # c3 # _ \<Rightarrow>
          if second_ok b0 c1 \<and> cont c2 \<and> cont c3 then 4 else 0 | _ \<Rightarrow> 0)
     else 0)"

lemma rune_len_le: "rune_len s \<le> length s"
  by (cases s) (auto simp: Let_def split: list.splits)

function Valid :: "bytes \<Rightarrow> bool" where
  "Valid s = (if s = [] then True else if rune_len s = 0 then False else Valid (drop (rune_len s) s))"
  by pat_completeness auto
termination
  by (relation "measure length") (auto simp: rune_len_le)

declare Valid.simps [simp del]

lemma Valid_Nil [simp]: "Valid []"
  by (simp add: Valid.simps)

lemma encode_rune_length: "length (encode_rune r) \<le> 4"
  by (simp add: encode_rune_def)

lemma encode_rune_not_Nil [simp]: "encode_rune r \<noteq> []"
  by (simp add: encode_rune_def)

lemma rune_len_take: "rune_len s = n \<Longrightarrow> 0 < n \<Longrightarrow> rune_len (take n s @ t) = n"
  by (cases s) (auto simp: Let_def split: list.splits if_splits)

lemma Valid_append_rune:
  assumes "rune_len r = length r" and "r \<noteq> []"
  shows "Valid (r @ s) = Valid s"
proof -
  have "rune_len (r @ s) = length r"
    using rune_len_take [of r "length r" s] assms by simp
  with assms show ?thesis by (simp add: Valid.simps [of "r @ s"])
qed

lemma rune_len_two: "0x80 \<le> r \<Longrightarrow> r \<le> 0x7FF \<Longrightarrow> rune_len (encode_rune r) = 2"
proof -
  assume r: "0x80 \<le> r" "r \<le> 0x7FF"
  have "2 \<le> r div 64" using div_le_mono [OF r(1), of 64] by simp
  moreover have "r div 64 \<le> 31" using div_le_mono [OF r(2), of 64] by simp
  ultimately show ?thesis using r by (simp add: encode_rune_def cont_def Let_def)
qed

lemma rune_len_three:
  assumes "0x800 \<le> r" "r \<le> 0xFFFF" "is_scalar r"
  shows "rune_len (encode_rune r) = 3"
proof -
  have q: "r div 4096 \<le> 15" using div_le_mono [OF assms(2), of 4096] by simp
  have d: "r div 64 div 64 = r div 4096" by (simp add: div_mult2_eq [symmetric])
  have s: "64 * (r div 64 div 64) + r div 64 mod 64 = r div 64" by simp
  have m: "r div 64 mod 64 < 64" "r mod 64 < 64" by simp_all
  have e0: "32 \<le> r div 64 mod 64" if "r div 4096 = 0"
    using div_le_mono [OF assms(1), of 64] s d that by simp
  have ed: "r div 64 mod 64 < 32" if "r div 4096 = 13"
  proof -
    have "4096 * 13 + r mod 4096 = r"
      using that by (metis mult_div_mod_eq)
    moreover have "r mod 4096 < 4096" by simp
    ultimately have "r < 0xE000" by linarith
    then have "r < 0xD800" using assms(3) by (simp add: is_scalar_def)
    then have "r div 64 < 864" by (simp add: div_less_iff_less_mult)
    with s d that show ?thesis by simp
  qed
  have c2: "cont (byte_of (0x80 + r mod 64))" using m by (simp add: cont_def)
  have "second_ok (0xE0 + r div 4096) (byte_of (0x80 + r div 64 mod 64))"
    using m e0 ed q by (auto simp: second_ok_def cont_def)
  with assms q c2 show ?thesis by (simp add: encode_rune_def Let_def)
qed

lemma rune_len_four:
  assumes "0x10000 \<le> r" "is_scalar r"
  shows "rune_len (encode_rune r) = 4"
proof -
  have r: "r \<le> 0x10FFFF" using assms(2) by (simp add: is_scalar_def)
  have q: "r div 262144 \<le> 4" using div_le_mono [OF r, of 262144] by simp
  have m: "r div 4096 mod 64 < 64" "r div 64 mod 64 < 64" "r mod 64 < 64" by simp_all
  have d: "r div 4096 div 64 = r div 262144" by (simp add: div_mult2_eq [symmetric])
  have s: "64 * (r div 4096 div 64) + r div 4096 mod 64 = r div 4096" by simp
  have lo: "16 \<le> r div 4096" using div_le_mono [OF assms(1), of 4096] by simp
  have hi: "r div 4096 \<le> 271" using div_le_mono [OF r, of 4096] by simp
  have f0: "16 \<le> r div 4096 mod 64" if "r div 262144 = 0" using that d lo s by simp
  have f4: "r div 4096 mod 64 < 16" if "r div 262144 = 4" using that d hi s by simp
  have c: "cont (byte_of (0x80 + r div 64 mod 64))" "cont (byte_of (0x80 + r mod 64))"
    using m by (simp_all add: cont_def)
  have "second_ok (0xF0 + r div 262144) (byte_of (0x80 + r div 4096 mod 64))"
    using m f0 f4 q by (auto simp: second_ok_def cont_def)
  with assms q c show ?thesis by (simp add: encode_rune_def Let_def)
qed

lemma encode_rune_invalid:
  "\<not> is_scalar r \<Longrightarrow> encode_rune r = [byte_of 0xEF, byte_of 0xBF, byte_of 0xBD]"
  by (auto simp: encode_rune_def is_scalar_def)

lemma rune_len_encode_rune: "rune_len (encode_rune r) = length (encode_rune r)"
proof (cases "is_scalar r")
  case False
  then show ?thesis by (simp add: encode_rune_invalid cont_def second_ok_def Let_def)
next
  case True
  consider "r \<le> 0x7F" | "0x80 \<le> r" "r \<le> 0x7FF" | "0x800 \<le> r" "r \<le> 0xFFFF" | "0x10000 \<le> r"
    by linarith
  then show ?thesis
  proof cases
    case 1
    then show ?thesis by (simp add: encode_rune_def Let_def)
  next
    case 2
    then show ?thesis using rune_len_two [of r] by (simp add: encode_rune_def)
  next
    case 3
    then show ?thesis using rune_len_three [of r] True by (simp add: encode_rune_def)
  next
    case 4
    then show ?thesis using rune_len_four [of r] True by (simp add: encode_rune_def)
  qed
qed

lemma Valid_encode_rune [simp]: "Valid (encode_rune r @ s) = Valid s"
  by (rule Valid_append_rune) (simp_all add: rune_len_encode_rune)

end
