(* ===== verification/Extract_Unescape.thy ===== *)
theory Extract_Unescape
  imports Go_Utf8
begin

text \<open>
  Package \<^verbatim>\<open>extract\<close>, file \<^verbatim>\<open>src/extract/unescape.go\<close>: decoding of HTML entities.
  \<open>parseNumericEntity\<close> keeps its accumulator at Go's width (\<^verbatim>\<open>uint32\<close>), the pair
  \<^verbatim>\<open>(rune, bool)\<close> is an option, and the loop of \<open>AppendUnescape\<close> is a recursion on
  the remaining source.  The theory relates the loop to a reference decoder that
  reads one character at a time, shows that the 32-bit accumulator never wraps,
  that a decoded rune is a Unicode scalar value, that the output never outgrows
  the input (so the buffer \<open>Unescape\<close> allocates is never reallocated), and that
  decoding undoes escaping.
\<close>

unbundle bit_operations_syntax

section \<open>The entity parsers\<close>

definition named_base :: "(bytes \<times> nat) list" where
  "named_base =
   [(''quot'', 0x22), (''amp'', 0x26), (''apos'', 0x27), (''lt'', 0x3C), (''gt'', 0x3E),
    (''nbsp'', 0x00A0)]"

definition named_typography :: "(bytes \<times> nat) list" where
  "named_typography =
   [(''copy'', 0x00A9), (''reg'', 0x00AE), (''trade'', 0x2122), (''euro'', 0x20AC),
    (''cent'', 0x00A2), (''pound'', 0x00A3), (''yen'', 0x00A5), (''sect'', 0x00A7),
    (''deg'', 0x00B0), (''plusmn'', 0x00B1), (''para'', 0x00B6), (''middot'', 0x00B7),
    (''times'', 0x00D7), (''divide'', 0x00F7), (''hellip'', 0x2026), (''ndash'', 0x2013),
    (''mdash'', 0x2014), (''lsquo'', 0x2018), (''rsquo'', 0x2019), (''sbquo'', 0x201A),
    (''ldquo'', 0x201C), (''rdquo'', 0x201D), (''bdquo'', 0x201E), (''dagger'', 0x2020),
    (''Dagger'', 0x2021), (''permil'', 0x2030), (''lsaquo'', 0x2039), (''rsaquo'', 0x203A),
    (''bull'', 0x2022), (''prime'', 0x2032), (''Prime'', 0x2033), (''oline'', 0x203E),
    (''frasl'', 0x2044), (''weierp'', 0x2118), (''image'', 0x2111), (''real'', 0x211C),
    (''alefsym'', 0x2135), (''larr'', 0x2190), (''uarr'', 0x2191), (''rarr'', 0x2192),
    (''darr'', 0x2193), (''harr'', 0x2194), (''crarr'', 0x21B5), (''lArr'', 0x21D0),
    (''uArr'', 0x21D1), (''rArr'', 0x21D2), (''dArr'', 0x21D3), (''hArr'', 0x21D4)]"

definition named_symbols :: "(bytes \<times> nat) list" where
  "named_symbols =
   [(''forall'', 0x2200), (''part'', 0x2202), (''exist'', 0x2203), (''empty'', 0x2205),
    (''nabla'', 0x2207), (''isin'', 0x2208), (''notin'', 0x2209), (''ni'', 0x220B),
    (''prod'', 0x220F), (''sum'', 0x2211), (''minus'', 0x2212), (''lowast'', 0x2217),
    (''radic'', 0x221A), (''prop'', 0x221D), (''infin'', 0x221E), (''ang'', 0x2220),
    (''and'', 0x2227), (''or'', 0x2228), (''cap'', 0x2229), (''cup'', 0x222A),
    (''int'', 0x222B), (''there4'', 0x2234), (''sim'', 0x223C), (''cong'', 0x2245),
    (''asymp'', 0x2248), (''ne'', 0x2260), (''equiv'', 0x2261), (''le'', 0x2264),
    (''ge'', 0x2265), (''sub'', 0x2282), (''sup'', 0x2283), (''nsub'', 0x2284),
    (''sube'', 0x2286), (''supe'', 0x2287), (''oplus'', 0x2295), (''otimes'', 0x2297),
    (''perp'', 0x22A5), (''sdot'', 0x22C5), (''lceil'', 0x2308), (''rceil'', 0x2309),
    (''lfloor'', 0x230A), (''rfloor'', 0x230B), (''lang'', 0x2329), (''rang'', 0x232A),
    (''loz'', 0x25CA), (''spades'', 0x2660), (''clubs'', 0x2663), (''hearts'', 0x2665),
    (''diams'', 0x2666)]"

definition parseNamedEntity :: "bytes \<Rightarrow> nat option" where
  "parseNamedEntity name = map_of (named_base @ named_typography @ named_symbols) name"

fun hexDigits_loop :: "bytes \<Rightarrow> 32 word \<Rightarrow> 32 word option" where
  "hexDigits_loop [] val = Some val"
| "hexDigits_loop (c # cs) val =
    (let val = push_bit 4 val in
     if 48 \<le> byte_val c \<and> byte_val c \<le> 57 then
       hexDigits_loop cs (val OR of_nat (byte_val c - 48))
     else if 97 \<le> byte_val c \<and> byte_val c \<le> 102 then
       hexDigits_loop cs (val OR of_nat (byte_val c - 97 + 10))
     else if 65 \<le> byte_val c \<and> byte_val c \<le> 70 then
       hexDigits_loop cs (val OR of_nat (byte_val c - 65 + 10))
     else None)"

fun decDigits_loop :: "bytes \<Rightarrow> 32 word \<Rightarrow> 32 word option" where
  "decDigits_loop [] val = Some val"
| "decDigits_loop (c # cs) val =
    (if \<not> is_digit c then None
     else let val = val * 10 + of_nat (byte_val c - 48) in
       if val > of_nat MaxRune then None else decDigits_loop cs val)"

definition parseNumericEntity :: "bytes \<Rightarrow> nat option" where
  "parseNumericEntity num =
    (if num = [] then None
     else let parsed =
       (if hd num = CHR ''x'' \<or> hd num = CHR ''X'' then
          (let hexDigits = tl num in
           if length hexDigits = 0 \<or> length hexDigits > 6 then None
           else hexDigits_loop hexDigits 0)
        else if length num > 7 then None
        else decDigits_loop num 0)
     in case parsed of
          None \<Rightarrow> None
        | Some val \<Rightarrow>
            if val > of_nat MaxRune \<or> (val \<ge> 0xD800 \<and> val \<le> 0xDFFF) then Some RuneError
            else Some (unat val))"

definition parseHTMLEntity :: "bytes \<Rightarrow> nat option" where
  "parseHTMLEntity entity =
    (if entity = [] then None
     else if hd entity = CHR ''#'' then parseNumericEntity (tl entity)
     else parseNamedEntity entity)"

section \<open>The decoding loop\<close>

function AppendUnescape :: "bytes \<Rightarrow> bytes \<Rightarrow> bytes" where
  "AppendUnescape dst src =
    (if src = [] then dst
     else case IndexByte src CHR ''&'' of
       None \<Rightarrow> dst @ src
     | Some idx \<Rightarrow>
        (let dst = dst @ take idx src; src = drop idx src in
         case IndexByte src CHR '';'' of
           None \<Rightarrow> AppendUnescape (dst @ [CHR ''&'']) (drop 1 src)
         | Some semi \<Rightarrow>
             if semi > 12 then AppendUnescape (dst @ [CHR ''&'']) (drop 1 src)
             else (case parseHTMLEntity (take (semi - 1) (drop 1 src)) of
               Some r \<Rightarrow> AppendUnescape (AppendRune dst r) (drop (semi + 1) src)
             | None \<Rightarrow> AppendUnescape (dst @ [CHR ''&'']) (drop 1 src))))"
  by pat_completeness auto
termination
  by (relation "measure (\<lambda>(dst, src). length src)") (auto simp: search_simps)

declare AppendUnescape.simps [simp del]

definition Unescape :: "bytes \<Rightarrow> bytes" where
  "Unescape src = (if IndexByte src CHR ''&'' = None then src else AppendUnescape [] src)"

definition HTMLUnescape :: "bytes \<Rightarrow> bytes" where
  "HTMLUnescape src = Unescape src"

definition AppendHTMLUnescape :: "bytes \<Rightarrow> bytes \<Rightarrow> bytes" where
  "AppendHTMLUnescape dst src = AppendUnescape dst src"

section \<open>The numeric parser against unbounded arithmetic\<close>

definition hex_digit :: "char \<Rightarrow> nat option" where
  "hex_digit c =
    (if 48 \<le> byte_val c \<and> byte_val c \<le> 57 then Some (byte_val c - 48)
     else if 97 \<le> byte_val c \<and> byte_val c \<le> 102 then Some (byte_val c - 97 + 10)
     else if 65 \<le> byte_val c \<and> byte_val c \<le> 70 then Some (byte_val c - 65 + 10)
     else None)"

definition dec_digit :: "char \<Rightarrow> nat option" where
  "dec_digit c = (if is_digit c then Some (byte_val c - 48) else None)"

fun digits_value :: "(char \<Rightarrow> nat option) \<Rightarrow> nat \<Rightarrow> bytes \<Rightarrow> nat \<Rightarrow> nat option" where
  "digits_value d b [] v = Some v"
| "digits_value d b (c # cs) v =
    (case d c of None \<Rightarrow> None | Some k \<Rightarrow> digits_value d b cs (b * v + k))"

definition to_scalar :: "nat \<Rightarrow> nat" where
  "to_scalar v = (if is_scalar v then v else RuneError)"

definition numeric_reference :: "bytes \<Rightarrow> nat option" where
  "numeric_reference num =
    (if num = [] then None
     else if hd num = CHR ''x'' \<or> hd num = CHR ''X'' then
       (if length (tl num) = 0 \<or> length (tl num) > 6 then None
        else map_option to_scalar (digits_value hex_digit 16 (tl num) 0))
     else if length num > 7 then None
     else (case digits_value dec_digit 10 num 0 of
             None \<Rightarrow> None
           | Some v \<Rightarrow> if v > MaxRune then None else Some (to_scalar v)))"

lemma hex_digit_less: "hex_digit c = Some k \<Longrightarrow> k < 16"
  by (auto simp: hex_digit_def split: if_splits)

lemma unat_shift_or:
  assumes "unat (v :: 32 word) < 2 ^ 28" and "k < 16"
  shows "unat (push_bit 4 v OR of_nat k) = 16 * unat v + k"
proof -
  have s: "unat (push_bit 4 v) = 16 * unat v"
    using assms(1) by (simp add: push_bit_eq_mult unat_word_ariths)
  have k: "unat (of_nat k :: 32 word) = k"
    using assms(2) by (simp add: unat_of_nat)
  have kb: "take_bit 4 k = k" using assms(2) by (simp add: take_bit_eq_mod)
  have "push_bit 4 (unat v) AND take_bit 4 k = 0"
    by (rule bit_eqI) (auto simp: bit_simps)
  then have "push_bit 4 (unat v) OR k = push_bit 4 (unat v) + k"
    by (simp add: kb disjunctive_add_eq_or)
  moreover have "unat (push_bit 4 v OR of_nat k) = unat (push_bit 4 v) OR unat (of_nat k :: 32 word)"
    by (simp only: unsigned_or_eq)
  ultimately show ?thesis
    unfolding s k by (simp add: push_bit_eq_mult mult.commute)
qed

lemma hexDigits_loop_step:
  "hexDigits_loop (c # cs) val =
     (case hex_digit c of None \<Rightarrow> None | Some k \<Rightarrow> hexDigits_loop cs (push_bit 4 val OR of_nat k))"
  by (simp add: hex_digit_def Let_def)

lemma hexDigits_loop_value:
  "unat val < 16 ^ n \<Longrightarrow> n + length cs \<le> 8 \<Longrightarrow>
   map_option unat (hexDigits_loop cs val) = digits_value hex_digit 16 cs (unat val)"
proof (induction cs arbitrary: val n)
  case Nil
  then show ?case by simp
next
  case (Cons c cs)
  show ?case
  proof (cases "hex_digit c")
    case None
    then show ?thesis by (simp del: hexDigits_loop.simps add: hexDigits_loop_step)
  next
    case (Some k)
    have k: "k < 16" using Some by (rule hex_digit_less)
    have "(16::nat) ^ n \<le> 16 ^ 7" using Cons.prems by (intro power_increasing) auto
    with Cons.prems(1) have "unat val < 2 ^ 28" by simp
    then have u: "unat (push_bit 4 val OR of_nat k) = 16 * unat val + k"
      using k by (rule unat_shift_or)
    have "unat (push_bit 4 val OR of_nat k) < 16 ^ Suc n"
      using u k Cons.prems(1) by simp
    from Cons.IH [OF this] Cons.prems(2) u Some show ?thesis
      by (simp del: hexDigits_loop.simps add: hexDigits_loop_step)
  qed
qed

lemma digits_value_mono: "digits_value d b cs v = Some w \<Longrightarrow> 1 \<le> b \<Longrightarrow> v \<le> w"
proof (induction cs arbitrary: v)
  case Nil
  then show ?case by simp
next
  case (Cons c cs)
  then obtain k where "d c = Some k" "digits_value d b cs (b * v + k) = Some w"
    by (auto split: option.splits)
  with Cons have "b * v + k \<le> w" by blast
  with \<open>1 \<le> b\<close> show ?case by (metis le_add1 le_trans mult_le_mono1 nat_mult_1)
qed

lemma decDigits_loop_value:
  "unat val \<le> MaxRune \<Longrightarrow>
   map_option unat (decDigits_loop cs val) =
     (case digits_value dec_digit 10 cs (unat val) of
        None \<Rightarrow> None | Some v \<Rightarrow> if v > MaxRune then None else Some v)"
proof (induction cs arbitrary: val)
  case Nil
  then show ?case by simp
next
  case (Cons c cs)
  show ?case
  proof (cases "is_digit c")
    case False
    then show ?thesis by (simp add: dec_digit_def)
  next
    case True
    define k where "k = byte_val c - 48"
    have k: "k \<le> 9" using True by (auto simp: k_def is_digit_def)
    have d: "dec_digit c = Some k" using True by (simp add: dec_digit_def k_def)
    have u: "unat (val * 10 + of_nat k) = 10 * unat val + k"
      using Cons.prems k by (simp add: unat_word_ariths unat_of_nat)
    have c: "val * 10 + of_nat k > of_nat MaxRune \<longleftrightarrow> 10 * unat val + k > MaxRune"
      by (simp add: word_less_nat_alt u)
    show ?thesis
    proof (cases "10 * unat val + k > MaxRune")
      case True
      then have "v > MaxRune" if "digits_value dec_digit 10 cs (10 * unat val + k) = Some v" for v
        using digits_value_mono [OF that] by simp
      with True c d \<open>is_digit c\<close> show ?thesis
        by (auto simp: Let_def k_def [symmetric] split: option.splits)
    next
      case False
      then have "unat (val * 10 + of_nat k) \<le> MaxRune" using u by simp
      from Cons.IH [OF this] False c d u \<open>is_digit c\<close> show ?thesis
        by (simp add: Let_def k_def [symmetric])
    qed
  qed
qed

lemma word_scalar:
  "(if (val :: 32 word) > of_nat MaxRune \<or> (val \<ge> 0xD800 \<and> val \<le> 0xDFFF) then Some RuneError
    else Some (unat val)) = Some (to_scalar (unat val))"
  by (auto simp: to_scalar_def is_scalar_def word_less_nat_alt word_le_nat_alt)

lemma parse_tail:
  "(case parsed of None \<Rightarrow> None
    | Some val \<Rightarrow> if (val :: 32 word) > of_nat MaxRune \<or> (val \<ge> 0xD800 \<and> val \<le> 0xDFFF)
        then Some RuneError else Some (unat val)) = map_option to_scalar (map_option unat parsed)"
  by (cases parsed) (simp_all only: word_scalar option.case option.map)

lemma parseNumericEntity_reference_eq: "parseNumericEntity num = numeric_reference num"
proof -
  have h: "map_option unat (hexDigits_loop (tl num) 0) = digits_value hex_digit 16 (tl num) 0"
    if "length (tl num) \<le> 6"
    using hexDigits_loop_value [of 0 0 "tl num"] that by simp
  have d: "map_option unat (decDigits_loop num 0) =
     (case digits_value dec_digit 10 num 0 of
        None \<Rightarrow> None | Some v \<Rightarrow> if v > MaxRune then None else Some v)"
    using decDigits_loop_value [of 0 num] by simp
  show ?thesis
    unfolding parseNumericEntity_def numeric_reference_def Let_def parse_tail
    using h d by (auto split: option.splits)
qed


lemma parseNumericEntity_scalar: "parseNumericEntity num = Some r \<Longrightarrow> is_scalar r"
  by (auto simp: parseNumericEntity_reference_eq numeric_reference_def to_scalar_def
      is_scalar_def split: if_splits option.splits)

lemma named_range:
  "\<forall>(name, r) \<in> set (named_base @ named_typography @ named_symbols).
     2 \<le> length name \<and> r \<le> 0x2666"
  by (simp add: named_base_def named_typography_def named_symbols_def)

lemma parseNamedEntity_range: "parseNamedEntity name = Some r \<Longrightarrow> 2 \<le> length name \<and> r \<le> 0x2666"
  using named_range by (auto simp: parseNamedEntity_def dest!: map_of_SomeD)

lemma parseHTMLEntity_scalar: "parseHTMLEntity entity = Some r \<Longrightarrow> is_scalar r"
  by (auto simp: parseHTMLEntity_def is_scalar_def [of r] split: if_splits
      dest: parseNumericEntity_scalar [unfolded is_scalar_def] parseNamedEntity_range)

lemma parseHTMLEntity_length: "parseHTMLEntity entity = Some r \<Longrightarrow> 2 \<le> length entity"
proof -
  assume p: "parseHTMLEntity entity = Some r"
  show ?thesis
  proof (cases "entity \<noteq> [] \<and> hd entity = CHR ''#''")
    case True
    then have "tl entity \<noteq> []" using p by (auto simp: parseHTMLEntity_def parseNumericEntity_def)
    then show ?thesis by (cases entity; cases "tl entity") auto
  next
    case False
    with p have "parseNamedEntity entity = Some r"
      by (auto simp: parseHTMLEntity_def split: if_splits)
    then show ?thesis by (simp add: parseNamedEntity_range)
  qed
qed

section \<open>The reference decoder\<close>

text \<open>The entity at the head of a buffer whose leading ampersand has been removed.\<close>

definition entity_at :: "bytes \<Rightarrow> (nat \<times> bytes) option" where
  "entity_at s = (case IndexByte s CHR '';'' of
      None \<Rightarrow> None
    | Some k \<Rightarrow> if k < 12 then map_option (\<lambda>r. (r, drop (Suc k) s)) (parseHTMLEntity (take k s))
                else None)"

lemma entity_at_shorter: "entity_at s = Some (r, t) \<Longrightarrow> length t < length s"
  by (auto simp: entity_at_def search_simps split: option.splits if_splits)

function unescape_reference :: "bytes \<Rightarrow> bytes" where
  "unescape_reference [] = []"
| "unescape_reference (c # cs) =
    (if c = CHR ''&'' then
       (case entity_at cs of
          Some (r, t) \<Rightarrow> encode_rune r @ unescape_reference t
        | None \<Rightarrow> c # unescape_reference cs)
     else c # unescape_reference cs)"
  by pat_completeness auto
termination
  by (relation "measure length") (auto dest: entity_at_shorter)

lemma unescape_reference_plain:
  "CHR ''&'' \<notin> set p \<Longrightarrow> unescape_reference (p @ s) = p @ unescape_reference s"
  by (induction p) auto

lemma AppendUnescape_amp:
  "AppendUnescape dst (CHR ''&'' # cs) =
     (case entity_at cs of
        Some (r, t) \<Rightarrow> AppendUnescape (AppendRune dst r) t
      | None \<Rightarrow> AppendUnescape (dst @ [CHR ''&'']) cs)"
  by (subst AppendUnescape.simps)
     (auto simp: entity_at_def Let_def split: option.splits)

lemma AppendUnescape_skip:
  assumes "IndexByte src CHR ''&'' = Some i"
  shows "AppendUnescape dst src =
    AppendUnescape (dst @ take i src) (CHR ''&'' # drop (Suc i) src)"
proof -
  have d: "drop i src = CHR ''&'' # drop (Suc i) src"
    using assms by (metis Cons_nth_drop_Suc IndexByte_Some_iff)
  have "src \<noteq> []" using assms by auto
  with assms d show ?thesis
    by (subst (1 2) AppendUnescape.simps) (simp add: Let_def)
qed

lemma AppendUnescape_eq: "AppendUnescape dst src = dst @ unescape_reference src"
proof (induction "length src" arbitrary: dst src rule: less_induct)
  case less
  show ?case
  proof (cases "IndexByte src CHR ''&''")
    case None
    then have "unescape_reference src = src"
      using unescape_reference_plain [of src "[]"] by (simp add: search_simps)
    with None show ?thesis by (subst AppendUnescape.simps) simp
  next
    case (Some i)
    define p cs where "p = take i src" and "cs = drop (Suc i) src"
    have src: "src = p @ CHR ''&'' # cs"
      using IndexByte_Some_split [OF Some] by (simp add: p_def cs_def)
    have p: "CHR ''&'' \<notin> set p" using Some by (simp add: search_simps p_def)
    have short: "length cs < length src" using src by simp
    have "AppendUnescape dst src = AppendUnescape (dst @ p) (CHR ''&'' # cs)"
      using AppendUnescape_skip [OF Some] by (simp add: p_def cs_def)
    also have "\<dots> = dst @ p @ unescape_reference (CHR ''&'' # cs)"
    proof (cases "entity_at cs")
      case None
      with less [OF short] show ?thesis by (simp add: AppendUnescape_amp)
    next
      case (Some e)
      then obtain r t where e: "entity_at cs = Some (r, t)" by (cases e) auto
      with entity_at_shorter [OF e] short have "length t < length src" by simp
      with less e show ?thesis by (simp add: AppendUnescape_amp AppendRune_def)
    qed
    also have "\<dots> = dst @ unescape_reference src"
      using p by (simp add: src unescape_reference_plain)
    finally show ?thesis .
  qed
qed

lemma Unescape_eq: "Unescape src = unescape_reference src"
  using unescape_reference_plain [of src "[]"]
  by (simp add: Unescape_def AppendUnescape_eq search_simps)

lemma unescape_reference_length: "length (unescape_reference s) \<le> length s"
proof (induction s rule: unescape_reference.induct)
  case 1
  then show ?case by simp
next
  case (2 c cs)
  show ?case
  proof (cases "c = CHR ''&'' \<and> entity_at cs \<noteq> None")
    case False
    with 2 show ?thesis by (auto split: option.splits)
  next
    case True
    then obtain r t where e: "entity_at cs = Some (r, t)" by auto
    then obtain k where "IndexByte cs CHR '';'' = Some k" "parseHTMLEntity (take k cs) = Some r"
      "t = drop (Suc k) cs" by (auto simp: entity_at_def split: option.splits if_splits)
    then have "2 \<le> k" "k < length cs" "length t = length cs - Suc k"
      using parseHTMLEntity_length by (fastforce simp: search_simps)+
    moreover note encode_rune_length [of r]
    moreover have "length (unescape_reference t) \<le> length t"
      using 2 True e by simp
    ultimately show ?thesis using True e by simp
  qed
qed

section \<open>Escaping, the inverse of decoding\<close>

text \<open>The five substitutions of Go's \<^verbatim>\<open>html.EscapeString\<close> style encoders.\<close>

definition escape_char :: "char \<Rightarrow> bytes" where
  "escape_char c =
    (if c = CHR ''&'' then ''&amp;'' else if c = CHR ''<'' then ''&lt;''
     else if c = CHR ''>'' then ''&gt;'' else if c = CHR 0x22 then ''&quot;''
     else if c = CHR 0x27 then ''&#39;'' else [c])"

definition escape :: "bytes \<Rightarrow> bytes" where
  "escape s = concat (map escape_char s)"

lemma unescape_escape_char: "unescape_reference (escape_char c @ s) = c # unescape_reference s"
  by (auto simp: escape_char_def entity_at_def parseHTMLEntity_def parseNamedEntity_def
      named_base_def parseNumericEntity_def is_digit_def byte_eval encode_rune_def Let_def
      word_less_nat_alt word_le_nat_alt)

lemma unescape_escape: "unescape_reference (escape s) = s"
proof (induction s)
  case Nil
  then show ?case by (simp add: escape_def)
next
  case (Cons c s)
  have "escape (c # s) = escape_char c @ escape s" by (simp add: escape_def)
  with Cons show ?case by (simp only: unescape_escape_char)
qed

section \<open>Properties\<close>

text \<open>C1: the decoding loop of \<open>AppendUnescape\<close>, which jumps from ampersand to ampersand and
  cuts the source at each entity, computes on every input exactly what the one-character-at-a-time
  reference decoder computes, appended to the destination; \<open>Unescape\<close>, with its fast path for
  sources without an ampersand, is the same function.\<close>
theorem AppendUnescape_refines_reference:
  "AppendUnescape dst src = dst @ unescape_reference src \<and> Unescape src = unescape_reference src"
  by (simp add: AppendUnescape_eq Unescape_eq)

text \<open>C2: the 32-bit accumulator of the numeric entity parser never wraps: on every input the
  parser returns what the same algorithm returns on unbounded integers.\<close>
theorem parseNumericEntity_exact: "parseNumericEntity num = numeric_reference num"
  by (rule parseNumericEntity_reference_eq)

text \<open>Decoding never lengthens the text, so the buffer of capacity \<^verbatim>\<open>len(src)\<close> that
  \<open>Unescape\<close> allocates always holds the result, and it undoes the escaping of markup characters
  on every byte string.\<close>
theorem Unescape_fits_and_inverts:
  "length (Unescape src) \<le> length src \<and> Unescape (escape s) = s"
  by (simp add: Unescape_eq unescape_reference_length unescape_escape)

text \<open>Every rune an entity decodes to is a Unicode scalar value, so the appended bytes are
  well-formed UTF-8.\<close>
theorem entity_is_scalar:
  assumes "parseHTMLEntity entity = Some r"
  shows "is_scalar r \<and> Valid (AppendRune [] r)"
  using assms Valid_encode_rune [of r "[]"] by (simp_all add: parseHTMLEntity_scalar AppendRune_def)

theorem entity_is_scalar_witness:
  "parseHTMLEntity ''euro'' = Some 0x20AC \<and> is_scalar 0x20AC \<and> Valid (AppendRune [] 0x20AC)"
proof -
  have "parseHTMLEntity ''euro'' = Some 0x20AC"
    by (simp add: parseHTMLEntity_def parseNamedEntity_def named_base_def named_typography_def)
  then show ?thesis using entity_is_scalar by blast
qed

end
