(* ===== verification/Go_Strconv.thy ===== *)
theory Go_Strconv
  imports Prelude
begin

text \<open>
  The decimal conversions of Go's package \<^verbatim>\<open>strconv\<close> that the repository calls:
  \<^verbatim>\<open>Itoa\<close>/\<^verbatim>\<open>FormatInt\<close>, \<^verbatim>\<open>ParseUint\<close>, \<^verbatim>\<open>ParseInt\<close> and \<^verbatim>\<open>Atoi\<close>, base 10.  Go
  returns a value together with a range error (the nearest representable number);
  callers here that ignore the error see that value, so \<open>ParseInt\<close> returns both.
\<close>

datatype num_error = ErrSyntax | ErrRange

abbreviation MaxUint64 :: nat where "MaxUint64 \<equiv> 2 ^ 64 - 1"
abbreviation MaxInt64 :: int where "MaxInt64 \<equiv> 2 ^ 63 - 1"
abbreviation MinInt64 :: int where "MinInt64 \<equiv> - (2 ^ 63)"

definition digit_char :: "nat \<Rightarrow> char" where
  "digit_char d = byte_of (48 + d)"

fun format_nat :: "nat \<Rightarrow> bytes" where
  "format_nat n = (if n < 10 then [digit_char n] else format_nat (n div 10) @ [digit_char (n mod 10)])"

declare format_nat.simps [simp del]

definition FormatInt :: "int \<Rightarrow> bytes" where
  "FormatInt i = (if i < 0 then CHR ''-'' # format_nat (nat (- i)) else format_nat (nat i))"

definition Itoa :: "int \<Rightarrow> bytes" where
  "Itoa i = FormatInt i"

text \<open>The digit loop: an invalid byte is a syntax error, a value above \<open>maxVal\<close> a range error,
  whichever comes first.\<close>

fun parseUint_loop :: "nat \<Rightarrow> bytes \<Rightarrow> nat \<Rightarrow> num_error + nat" where
  "parseUint_loop maxVal [] n = Inr n"
| "parseUint_loop maxVal (c # cs) n =
    (if \<not> is_digit c then Inl ErrSyntax
     else let n1 = 10 * n + (byte_val c - 48) in
       if n1 > maxVal then Inl ErrRange else parseUint_loop maxVal cs n1)"

definition ParseUint :: "bytes \<Rightarrow> nat \<Rightarrow> num_error + nat" where
  "ParseUint s bits = (if s = [] then Inl ErrSyntax else parseUint_loop (2 ^ bits - 1) s 0)"

text \<open>\<^verbatim>\<open>ParseInt(s, 10, 64)\<close>: the value and whether there was an error.\<close>

definition ParseInt64 :: "bytes \<Rightarrow> int \<times> num_error option" where
  "ParseInt64 s =
    (let neg = (s \<noteq> [] \<and> hd s = CHR ''-'');
         rest = (if s \<noteq> [] \<and> (hd s = CHR ''-'' \<or> hd s = CHR ''+'') then tl s else s)
     in case ParseUint rest 64 of
          Inl ErrSyntax \<Rightarrow> (0, Some ErrSyntax)
        | Inl ErrRange \<Rightarrow> (if neg then MinInt64 else MaxInt64, Some ErrRange)
        | Inr un \<Rightarrow>
            if \<not> neg \<and> int un > MaxInt64 then (MaxInt64, Some ErrRange)
            else if neg \<and> int un > 2 ^ 63 then (MinInt64, Some ErrRange)
            else (if neg then - int un else int un, None))"

definition Atoi :: "bytes \<Rightarrow> int option" where
  "Atoi s = (case ParseInt64 s of (v, None) \<Rightarrow> Some v | (_, Some _) \<Rightarrow> None)"

section \<open>Round trips\<close>

lemma is_digit_digit_char [simp]: "d < 10 \<Longrightarrow> is_digit (digit_char d)"
  by (simp add: is_digit_def digit_char_def)

lemma digit_char_val [simp]: "d < 10 \<Longrightarrow> byte_val (digit_char d) - 48 = d"
  by (simp add: digit_char_def)

lemma format_nat_not_Nil [simp]: "format_nat n \<noteq> []"
  by (subst format_nat.simps) simp

lemma format_nat_digits: "\<forall>c \<in> set (format_nat n). is_digit c"
proof (induction n rule: format_nat.induct)
  case (1 n)
  then show ?case by (subst format_nat.simps) auto
qed

lemma format_nat_hd_digit: "is_digit (hd (format_nat n))"
  using format_nat_digits [of n] by (simp add: list.set_sel(1))

lemma parseUint_loop_append:
  "parseUint_loop m (xs @ [c]) n =
    (case parseUint_loop m xs n of Inl e \<Rightarrow> Inl e | Inr v \<Rightarrow> parseUint_loop m [c] v)"
  by (induction xs arbitrary: n) (auto simp: Let_def)

lemma parseUint_loop_format: "n \<le> m \<Longrightarrow> parseUint_loop m (format_nat n) 0 = Inr n"
proof (induction n rule: format_nat.induct)
  case (1 n)
  show ?case
  proof (cases "n < 10")
    case True
    with "1.prems" show ?thesis by (subst format_nat.simps) (simp add: Let_def)
  next
    case False
    have le: "n div 10 \<le> m" using "1.prems" by (meson div_le_dividend le_trans)
    have e: "10 * (n div 10) + n mod 10 = n" by simp
    show ?thesis
      using "1.IH" [OF False le] False "1.prems"
      by (subst format_nat.simps) (simp add: parseUint_loop_append Let_def e)
  qed
qed

lemma ParseUint_format: "n < 2 ^ bits \<Longrightarrow> ParseUint (format_nat n) bits = Inr n"
  by (simp add: ParseUint_def parseUint_loop_format)

lemma parseUint_loop_le: "parseUint_loop m s n = Inr v \<Longrightarrow> n \<le> m \<Longrightarrow> v \<le> m"
  by (induction s arbitrary: n) (auto simp: Let_def split: if_splits)

lemma digit_not_sign: "is_digit c \<Longrightarrow> c \<noteq> CHR ''-'' \<and> c \<noteq> CHR ''+''"
  by (auto simp: is_digit_def byte_eval)

lemma ParseInt64_unsigned:
  assumes "s \<noteq> []" and "is_digit (hd s)"
  shows "ParseInt64 s =
    (case ParseUint s 64 of
       Inl ErrSyntax \<Rightarrow> (0, Some ErrSyntax)
     | Inl ErrRange \<Rightarrow> (MaxInt64, Some ErrRange)
     | Inr un \<Rightarrow> if int un > MaxInt64 then (MaxInt64, Some ErrRange) else (int un, None))"
  using digit_not_sign [OF assms(2)] by (simp add: ParseInt64_def Let_def split: sum.splits num_error.splits)

lemma ParseInt64_FormatInt:
  assumes "0 \<le> i" and "i \<le> MaxInt64"
  shows "ParseInt64 (FormatInt i) = (i, None)"
proof -
  have "nat i < 2 ^ 64" using assms by (simp add: nat_less_iff)
  then show ?thesis
    using assms by (simp add: FormatInt_def ParseInt64_unsigned format_nat_hd_digit ParseUint_format)
qed

lemma ParseInt64_FormatInt_signed:
  assumes "MinInt64 \<le> i" and "i \<le> MaxInt64"
  shows "ParseInt64 (FormatInt i) = (i, None)"
proof (cases "0 \<le> i")
  case False
  then have "nat (- i) < 2 ^ 64" using assms by (simp add: nat_less_iff)
  then show ?thesis using False assms by (simp add: FormatInt_def ParseInt64_def ParseUint_format Let_def)
qed (use assms ParseInt64_FormatInt in simp)

lemma Atoi_Itoa: "0 \<le> i \<Longrightarrow> i \<le> MaxInt64 \<Longrightarrow> Atoi (Itoa i) = Some i"
  by (simp add: Atoi_def Itoa_def ParseInt64_FormatInt)

lemma ParseInt64_range: "MinInt64 \<le> fst (ParseInt64 s) \<and> fst (ParseInt64 s) \<le> MaxInt64"
  by (auto simp: ParseInt64_def Let_def split: sum.splits num_error.splits)

lemma ParseInt64_nonneg: "s = [] \<or> is_digit (hd s) \<Longrightarrow> 0 \<le> fst (ParseInt64 s)"
  using ParseInt64_unsigned [of s]
  by (cases "s = []") (auto simp: ParseInt64_def ParseUint_def Let_def split: sum.splits num_error.splits)

lemma digits_takeWhile:
  assumes "r = [] \<or> \<not> is_digit (hd r)"
  shows "takeWhile is_digit (format_nat n @ r) = format_nat n"
  using assms format_nat_digits [of n] by (cases r) (auto simp: takeWhile_append)

end
