(* ===== verification/SIO_Packet.thy ===== *)
theory SIO_Packet
  imports Go_Strconv Complex_Main
begin

text \<open>
  Package \<^verbatim>\<open>socketio\<close>, file \<^verbatim>\<open>src/socketio/packet.go\<close>: the Socket.IO packet codec and
  the handling of binary attachments.  The parsers walk the buffer by an offset,
  as the source does.  Go's \<^verbatim>\<open>any\<close> is the datatype \<open>any\<close>; a Go map is the list of
  its entries in the order the iteration visits them, so a statement over all
  lists covers every iteration order.  \<^verbatim>\<open>encoding/json\<close> appears as the arguments
  \<open>unmarshal\<close> (into \<^verbatim>\<open>any\<close>), \<open>unmarshalArgs\<close> (into \<^verbatim>\<open>[]json.RawMessage\<close>) and
  \<open>marshal\<close>.  The message read by \<open>readSingleEIOPacket\<close> is an argument, the result
  of \<^verbatim>\<open>conn.ReadMessage\<close>.
\<close>

section \<open>Packets\<close>

abbreviation eioOpen :: char where "eioOpen \<equiv> CHR ''0''"
abbreviation eioClose :: char where "eioClose \<equiv> CHR ''1''"
abbreviation eioPing :: char where "eioPing \<equiv> CHR ''2''"
abbreviation eioPong :: char where "eioPong \<equiv> CHR ''3''"
abbreviation eioMessage :: char where "eioMessage \<equiv> CHR ''4''"
abbreviation eioBinary :: char where "eioBinary \<equiv> CHR ''b''"

abbreviation sioConnect :: char where "sioConnect \<equiv> CHR ''0''"
abbreviation sioDisconnect :: char where "sioDisconnect \<equiv> CHR ''1''"
abbreviation sioEvent :: char where "sioEvent \<equiv> CHR ''2''"
abbreviation sioAck :: char where "sioAck \<equiv> CHR ''3''"
abbreviation sioConnectError :: char where "sioConnectError \<equiv> CHR ''4''"
abbreviation sioBinaryEvent :: char where "sioBinaryEvent \<equiv> CHR ''5''"
abbreviation sioBinaryAck :: char where "sioBinaryAck \<equiv> CHR ''6''"

abbreviation maxBinaryAttachments :: nat where "maxBinaryAttachments \<equiv> 64"
abbreviation maxBinaryBufferSize :: nat where "maxBinaryBufferSize \<equiv> 32 * 1024 * 1024"
abbreviation maxEIOPacketSize :: nat where "maxEIOPacketSize \<equiv> 8 * 1024 * 1024"

record sioPacket =
  pkt_Type :: char
  pkt_Namespace :: bytes
  pkt_ID :: "int option"
  pkt_Attachments :: int
  pkt_Data :: "bytes option"

datatype sio_error =
    ErrNotConnected
  | ErrAckTimeout
  | ErrEmptyPacket
  | ErrAttachmentCount bytes
  | ErrWrongAttachments nat nat
  | ErrUnmarshalPacket
  | ErrUnmarshalArg
  | ErrPacketTooLarge
  | ErrEOF
  | ErrRead
  | ErrUnexpectedOpen char
  | ErrOpenParams
  | ErrConnectRejected bytes
  | ErrUnexpectedConnect char bytes
  | ErrMarshal
  | ErrWrite
  | ErrContext
  | ErrDial

definition encodeSIOPacket :: "sioPacket \<Rightarrow> bytes" where
  "encodeSIOPacket pkt =
    [pkt_Type pkt]
    @ (if pkt_Type pkt = sioBinaryEvent \<or> pkt_Type pkt = sioBinaryAck
       then Itoa (pkt_Attachments pkt) @ [CHR ''-''] else [])
    @ (if pkt_Namespace pkt \<noteq> [] \<and> pkt_Namespace pkt \<noteq> ''/''
       then pkt_Namespace pkt @ [CHR '',''] else [])
    @ (case pkt_ID pkt of Some n \<Rightarrow> FormatInt n | None \<Rightarrow> [])
    @ (case pkt_Data pkt of Some d \<Rightarrow> d | None \<Rightarrow> [])"

definition parseAttachments :: "bytes \<Rightarrow> nat \<Rightarrow> sio_error + (int \<times> nat)" where
  "parseAttachments data offset =
    (let start = offset; i = scan_while (\<lambda>c. c \<noteq> CHR ''-'') data start;
         text = take (i - start) (drop start data)
     in case Atoi text of
          None \<Rightarrow> Inl (ErrAttachmentCount text)
        | Some attachments \<Rightarrow>
            if attachments < 0 \<or> attachments > int maxBinaryAttachments
            then Inl (ErrAttachmentCount text)
            else (let i = (if i < length data then i + 1 else i) in Inr (attachments, i)))"

definition parseNamespace :: "bytes \<Rightarrow> nat \<Rightarrow> bytes \<times> nat" where
  "parseNamespace data offset =
    (if offset \<ge> length data \<or> data ! offset \<noteq> CHR ''/'' then (''/'', offset)
     else
      (let start = offset; i = scan_while (\<lambda>c. c \<noteq> CHR '','') data start;
           nsp = take (i - start) (drop start data);
           i = (if i < length data then i + 1 else i)
       in (nsp, i)))"

definition parseAckID :: "bytes \<Rightarrow> nat \<Rightarrow> int option \<times> nat" where
  "parseAckID data offset =
    (if offset \<ge> length data \<or> \<not> is_digit (data ! offset) then (None, offset)
     else
      (let start = offset; i = scan_while is_digit data start
       in (Some (fst (ParseInt64 (take (i - start) (drop start data)))), i)))"

definition decodeSIOPacket :: "bytes \<Rightarrow> sio_error + sioPacket" where
  "decodeSIOPacket data =
    (if length data = 0 then Inl ErrEmptyPacket
     else
      (let type = data ! 0; offset = 1;
           header = (if type = sioBinaryEvent \<or> type = sioBinaryAck
                     then parseAttachments data offset else Inr (0, offset))
       in case header of
            Inl err \<Rightarrow> Inl err
          | Inr (attachments, offset) \<Rightarrow>
              (let (nsp, offset) = parseNamespace data offset;
                   (id, offset) = parseAckID data offset
               in Inr \<lparr>pkt_Type = type, pkt_Namespace = nsp, pkt_ID = id,
                       pkt_Attachments = attachments,
                       pkt_Data = (if offset < length data then Some (drop offset data) else None)\<rparr>)))"

datatype frame_kind = FrameText | FrameBinary

definition readSingleEIOPacket :: "(frame_kind \<times> bytes) option \<Rightarrow> sio_error + (char \<times> bytes)" where
  "readSingleEIOPacket message =
    (case message of
       None \<Rightarrow> Inl ErrRead
     | Some (msgType, data) \<Rightarrow>
         if length data = 0 then Inl ErrEOF
         else if length data > maxEIOPacketSize then Inl ErrPacketTooLarge
         else if msgType = FrameBinary then Inr (eioBinary, data)
         else Inr (data ! 0, drop 1 data))"

section \<open>Binary attachments\<close>

text \<open>
  The values \<^verbatim>\<open>any\<close> can hold here: what \<^verbatim>\<open>encoding/json\<close> produces, Go integers,
  \<^verbatim>\<open>json.Number\<close>, byte slices, a raw JSON message, a map of raw JSON messages, an acknowledgment callback
  (by its identity), and any other Go value.
\<close>

datatype any =
    VNull
  | VBool bool
  | VFloat rat
  | VInt int
  | VNumber bytes
  | VStr bytes
  | VBytes bytes
  | VSlice "any list"
  | VMap "(bytes \<times> any) list"
  | VRawMap "(bytes \<times> bytes) list"
  | VRawMessage bytes
  | VCallback nat
  | VOther nat

fun hasBinaryWith :: "(bytes \<Rightarrow> bool) \<Rightarrow> any \<Rightarrow> bool" where
  "hasBinaryWith raw (VBytes b) = True"
| "hasBinaryWith raw (VSlice vs) = list_ex (hasBinaryWith raw) vs"
| "hasBinaryWith raw (VMap m) = list_ex (\<lambda>kv. hasBinaryWith raw (snd kv)) m"
| "hasBinaryWith raw (VRawMap m) = list_ex (\<lambda>kv. raw (snd kv)) m"
| "hasBinaryWith raw v = False"

text \<open>
  \<^verbatim>\<open>hasBinaryRaw\<close> decodes a raw message and inspects the result, in which there is no
  map of raw messages (\<^verbatim>\<open>encoding/json\<close> never makes one).
\<close>

definition hasBinaryRaw :: "(bytes \<Rightarrow> any option) \<Rightarrow> bytes \<Rightarrow> bool" where
  "hasBinaryRaw unmarshal raw =
    (case unmarshal raw of None \<Rightarrow> False | Some v \<Rightarrow> hasBinaryWith (\<lambda>_. False) v)"

definition hasBinary :: "(bytes \<Rightarrow> any option) \<Rightarrow> any \<Rightarrow> bool" where
  "hasBinary unmarshal v = hasBinaryWith (hasBinaryRaw unmarshal) v"

fun deconstructBinaryWithOffset :: "any \<Rightarrow> bytes list \<Rightarrow> any \<times> bytes list"
  and deconstruct_items :: "any list \<Rightarrow> bytes list \<Rightarrow> any list \<times> bytes list"
  and deconstruct_entries :: "(bytes \<times> any) list \<Rightarrow> bytes list \<Rightarrow> (bytes \<times> any) list \<times> bytes list"
  where
  "deconstructBinaryWithOffset (VBytes v) buffers =
     (VMap [(''_placeholder'', VBool True), (''num'', VInt (int (length buffers)))], buffers @ [v])"
| "deconstructBinaryWithOffset (VSlice vs) buffers =
     (case deconstruct_items vs buffers of (rs, buffers) \<Rightarrow> (VSlice rs, buffers))"
| "deconstructBinaryWithOffset (VMap m) buffers =
     (case deconstruct_entries m buffers of (rs, buffers) \<Rightarrow> (VMap rs, buffers))"
| "deconstructBinaryWithOffset v buffers = (v, buffers)"
| "deconstruct_items [] buffers = ([], buffers)"
| "deconstruct_items (v # vs) buffers =
     (case deconstructBinaryWithOffset v buffers of (r, buffers) \<Rightarrow>
      case deconstruct_items vs buffers of (rs, buffers) \<Rightarrow> (r # rs, buffers))"
| "deconstruct_entries [] buffers = ([], buffers)"
| "deconstruct_entries ((k, v) # m) buffers =
     (case deconstructBinaryWithOffset v buffers of (r, buffers) \<Rightarrow>
      case deconstruct_entries m buffers of (rs, buffers) \<Rightarrow> ((k, r) # rs, buffers))"

definition deconstructBinary :: "any \<Rightarrow> any \<times> bytes list" where
  "deconstructBinary data = deconstructBinaryWithOffset data []"

definition isPlaceholder :: "(bytes \<times> any) list \<Rightarrow> bool" where
  "isPlaceholder m \<longleftrightarrow> map_of m ''_placeholder'' = Some (VBool True)"

text \<open>Go's conversion of a floating-point number to an integer truncates towards zero.\<close>

definition truncate_rat :: "rat \<Rightarrow> int" where
  "truncate_rat n = (if n \<ge> 0 then \<lfloor>n\<rfloor> else \<lceil>n\<rceil>)"

definition resolvePlaceholderBuffer :: "(bytes \<times> any) list \<Rightarrow> bytes list \<Rightarrow> any" where
  "resolvePlaceholderBuffer m buffers =
    (let idx = (case map_of m ''num'' of
                  Some (VFloat n) \<Rightarrow> truncate_rat n
                | Some (VInt n) \<Rightarrow> n
                | Some (VNumber n) \<Rightarrow> fst (ParseInt64 n)
                | _ \<Rightarrow> -1)
     in if idx \<ge> 0 \<and> idx < int (length buffers) then VBytes (buffers ! nat idx) else VMap m)"

fun reconstructBinary :: "any \<Rightarrow> bytes list \<Rightarrow> any" where
  "reconstructBinary (VMap m) buffers =
     (if isPlaceholder m then resolvePlaceholderBuffer m buffers
      else VMap (map (\<lambda>kv. (fst kv, reconstructBinary (snd kv) buffers)) m))"
| "reconstructBinary (VSlice vs) buffers = VSlice (map (\<lambda>v. reconstructBinary v buffers) vs)"
| "reconstructBinary v buffers = v"

record binaryReconstructor =
  br_attachments :: int
  br_buffers :: "bytes list"
  br_packet :: sioPacket

definition newBinaryReconstructor :: "int \<Rightarrow> sioPacket \<Rightarrow> binaryReconstructor" where
  "newBinaryReconstructor attachments pkt =
    (let attachments = (if attachments > int maxBinaryAttachments then int maxBinaryAttachments
                        else attachments)
     in \<lparr>br_attachments = attachments, br_buffers = [], br_packet = pkt\<rparr>)"

fun exceeds_loop :: "bytes list \<Rightarrow> nat \<Rightarrow> bool" where
  "exceeds_loop [] totalSize = False"
| "exceeds_loop (buf # bufs) totalSize =
    (let totalSize = totalSize + length buf in
     if totalSize > maxBinaryBufferSize then True else exceeds_loop bufs totalSize)"

definition addBuffer :: "binaryReconstructor \<Rightarrow> bytes \<Rightarrow> bool \<times> binaryReconstructor" where
  "addBuffer br data =
    (let br = br\<lparr>br_buffers := br_buffers br @ [data]\<rparr>
     in (if exceeds_loop (br_buffers br) 0 then True
         else int (length (br_buffers br)) \<ge> br_attachments br, br))"

fun reconstruct_args ::
  "(bytes \<Rightarrow> any option) \<Rightarrow> bytes list \<Rightarrow> bytes list \<Rightarrow> sio_error + any list" where
  "reconstruct_args unmarshal buffers [] = Inr []"
| "reconstruct_args unmarshal buffers (raw # raws) =
    (case unmarshal raw of
       None \<Rightarrow> Inl ErrUnmarshalArg
     | Some v \<Rightarrow>
         (case reconstruct_args unmarshal buffers raws of
            Inl e \<Rightarrow> Inl e
          | Inr vs \<Rightarrow> Inr (reconstructBinary v buffers # vs)))"

text \<open>
  The marshalled arguments replace the data; on a marshalling error Go's
  \<^verbatim>\<open>json.Marshal\<close> returns no bytes and the source ignores the error.
\<close>

definition reconstruct ::
  "(bytes \<Rightarrow> bytes list option) \<Rightarrow> (bytes \<Rightarrow> any option) \<Rightarrow> (any \<Rightarrow> bytes option) \<Rightarrow>
   binaryReconstructor \<Rightarrow> sio_error + sioPacket" where
  "reconstruct unmarshalArgs unmarshal marshal br =
    (if int (length (br_buffers br)) \<noteq> br_attachments br
     then Inl (ErrWrongAttachments (nat (br_attachments br)) (length (br_buffers br)))
     else
      (case (case pkt_Data (br_packet br) of None \<Rightarrow> None | Some d \<Rightarrow> unmarshalArgs d) of
         None \<Rightarrow> Inl ErrUnmarshalPacket
       | Some rawArgs \<Rightarrow>
           (case reconstruct_args unmarshal (br_buffers br) rawArgs of
              Inl e \<Rightarrow> Inl e
            | Inr data \<Rightarrow>
                Inr ((br_packet br)\<lparr>pkt_Data := marshal (VSlice data), pkt_Type := sioEvent\<rparr>))))"

section \<open>The codec\<close>

named_theorems sio_parse \<open>what the offset parsers do at a known position\<close>

lemma scan_while_at:
  "scan_while p (x @ y) (length x) = length x + length (takeWhile p y)"
  by (simp add: scan_while_eq)

lemma takeWhile_stop: "x \<notin> set a \<Longrightarrow> takeWhile (\<lambda>c. c \<noteq> x) (a @ x # r) = a"
  by (induction a) auto

lemma parseAttachments_at [sio_parse]:
  assumes "0 \<le> a" and "a \<le> 64"
  shows "parseAttachments (x @ Itoa a @ CHR ''-'' # r) (length x) = Inr (a, length x + length (Itoa a) + 1)"
proof -
  have "CHR ''-'' \<notin> set (Itoa a)"
    using assms(1) format_nat_digits [of "nat a"] digit_not_sign by (auto simp: Itoa_def FormatInt_def)
  then have "takeWhile (\<lambda>c. c \<noteq> CHR ''-'') (Itoa a @ CHR ''-'' # r) = Itoa a"
    by (rule takeWhile_stop)
  with assms show ?thesis
    by (simp add: parseAttachments_def Let_def scan_while_at Atoi_Itoa)
qed

lemma parseNamespace_at [sio_parse]:
  assumes "ns \<noteq> []" and "hd ns = CHR ''/''" and "CHR '','' \<notin> set ns"
  shows "parseNamespace (x @ ns @ CHR '','' # r) (length x) = (ns, length x + length ns + 1)"
proof -
  have "takeWhile (\<lambda>c. c \<noteq> CHR '','') (ns @ CHR '','' # r) = ns"
    using assms(3) by (rule takeWhile_stop)
  moreover have "(x @ ns @ CHR '','' # r) ! length x = CHR ''/''"
    using assms(1,2) by (simp add: nth_append hd_conv_nth)
  ultimately show ?thesis
    using assms(1) by (simp add: parseNamespace_def Let_def scan_while_at)
qed

lemma parseNamespace_absent [sio_parse]:
  "r = [] \<or> hd r \<noteq> CHR ''/'' \<Longrightarrow> parseNamespace (x @ r) (length x) = (''/'', length x)"
  by (cases r) (auto simp: parseNamespace_def)

lemma parseAckID_at [sio_parse]:
  assumes "0 \<le> n" and "n \<le> MaxInt64" and "r = [] \<or> \<not> is_digit (hd r)"
  shows "parseAckID (x @ FormatInt n @ r) (length x) = (Some n, length x + length (FormatInt n))"
proof -
  have f: "FormatInt n = format_nat (nat n)" using assms(1) by (simp add: FormatInt_def)
  have "is_digit ((x @ FormatInt n @ r) ! length x)"
    using format_nat_hd_digit [of "nat n"] by (simp add: f nth_append hd_conv_nth)
  moreover have "takeWhile is_digit (FormatInt n @ r) = FormatInt n"
    using assms(3) by (simp add: f digits_takeWhile)
  ultimately show ?thesis
    using ParseInt64_FormatInt [OF assms(1,2)]
    by (simp add: parseAckID_def Let_def scan_while_at f)
qed

lemma parseAckID_absent [sio_parse]:
  "r = [] \<or> \<not> is_digit (hd r) \<Longrightarrow> parseAckID (x @ r) (length x) = (None, length x)"
  by (cases r) (auto simp: parseAckID_def)

text \<open>
  The packets the encoder can carry without ambiguity.  Data that starts with a
  digit would be read as (the continuation of) an acknowledgment id, data that
  starts with a slash as a namespace; JSON arrays and objects do neither.
\<close>

definition wf_packet :: "sioPacket \<Rightarrow> bool" where
  "wf_packet p \<longleftrightarrow>
    (if pkt_Type p = sioBinaryEvent \<or> pkt_Type p = sioBinaryAck
     then 0 \<le> pkt_Attachments p \<and> pkt_Attachments p \<le> 64 else pkt_Attachments p = 0) \<and>
    (pkt_Namespace p = [] \<or> (hd (pkt_Namespace p) = CHR ''/'' \<and> CHR '','' \<notin> set (pkt_Namespace p))) \<and>
    (case pkt_ID p of None \<Rightarrow> True | Some n \<Rightarrow> 0 \<le> n \<and> n \<le> MaxInt64) \<and>
    (case pkt_Data p of None \<Rightarrow> True
     | Some d \<Rightarrow> d \<noteq> [] \<and> \<not> is_digit (hd d) \<and> hd d \<noteq> CHR ''/'')"

definition canonical_packet :: "sioPacket \<Rightarrow> sioPacket" where
  "canonical_packet p = p\<lparr>pkt_Namespace := (if pkt_Namespace p = [] then ''/'' else pkt_Namespace p)\<rparr>"

lemma digit_not_slash: "is_digit c \<Longrightarrow> c \<noteq> CHR ''/''"
  by (auto simp: is_digit_def byte_eval)

text \<open>The tail of a packet after its namespace, at any position of the buffer.\<close>

definition id_data :: "sioPacket \<Rightarrow> bytes" where
  "id_data p = (case pkt_ID p of Some n \<Rightarrow> FormatInt n | None \<Rightarrow> [])
             @ (case pkt_Data p of Some d \<Rightarrow> d | None \<Rightarrow> [])"

lemma id_data_parse:
  assumes "wf_packet p"
  shows "\<exists>k. parseAckID (x @ id_data p) (length x) = (pkt_ID p, length x + k) \<and>
    pkt_Data p = (if length x + k < length (x @ id_data p) then Some (drop k (id_data p)) else None)"
proof -
  define d where "d = (case pkt_Data p of Some d \<Rightarrow> d | None \<Rightarrow> [])"
  have d: "d = [] \<or> \<not> is_digit (hd d)" and pd: "pkt_Data p = (if d = [] then None else Some d)"
    using assms by (auto simp: wf_packet_def d_def split: option.splits)
  show ?thesis
  proof (cases "pkt_ID p")
    case None
    then have "id_data p = d" by (simp add: id_data_def d_def)
    with None d pd show ?thesis by (intro exI [of _ 0]) (auto simp: parseAckID_absent)
  next
    case (Some n)
    then have "id_data p = FormatInt n @ d" and "0 \<le> n" and "n \<le> MaxInt64"
      using assms by (auto simp: id_data_def d_def wf_packet_def)
    with Some d pd show ?thesis
      by (intro exI [of _ "length (FormatInt n)"]) (auto simp: parseAckID_at)
  qed
qed

lemma id_data_no_slash: "wf_packet p \<Longrightarrow> id_data p = [] \<or> hd (id_data p) \<noteq> CHR ''/''"
  using format_nat_hd_digit digit_not_slash
  by (auto simp: id_data_def wf_packet_def FormatInt_def split: option.splits)

definition ns_part :: "sioPacket \<Rightarrow> bytes" where
  "ns_part p = (if pkt_Namespace p \<noteq> [] \<and> pkt_Namespace p \<noteq> ''/''
     then pkt_Namespace p @ [CHR '',''] else [])"

lemma decode_body:
  assumes "wf_packet p"
  obtains off k where
    "parseNamespace (x @ ns_part p @ id_data p) (length x) = (pkt_Namespace (canonical_packet p), off)"
    "parseAckID (x @ ns_part p @ id_data p) off = (pkt_ID p, off + k)"
    "pkt_Data p = (if off + k < length (x @ ns_part p @ id_data p)
       then Some (drop (off + k) (x @ ns_part p @ id_data p)) else None)"
proof (cases "pkt_Namespace p \<noteq> [] \<and> pkt_Namespace p \<noteq> ''/''")
  case True
  let ?ns = "pkt_Namespace p" and ?y = "x @ pkt_Namespace p @ [CHR '','']"
  have ns: "hd ?ns = CHR ''/''" "CHR '','' \<notin> set ?ns" using assms True by (auto simp: wf_packet_def)
  obtain k where k: "parseAckID (?y @ id_data p) (length ?y) = (pkt_ID p, length ?y + k)"
    "pkt_Data p = (if length ?y + k < length (?y @ id_data p) then Some (drop k (id_data p)) else None)"
    using id_data_parse [OF assms] by blast
  show ?thesis
    using True ns k parseNamespace_at [of ?ns x "id_data p"]
    by (intro that [of "length ?y" k]) (auto simp: canonical_packet_def ns_part_def)
next
  case False
  obtain k where k: "parseAckID (x @ id_data p) (length x) = (pkt_ID p, length x + k)"
    "pkt_Data p = (if length x + k < length (x @ id_data p) then Some (drop k (id_data p)) else None)"
    using id_data_parse [OF assms] by blast
  have "parseNamespace (x @ id_data p) (length x) = (''/'', length x)"
    using id_data_no_slash [OF assms] by (rule parseNamespace_absent)
  with False k show ?thesis
    by (intro that [of "length x" k]) (auto simp: canonical_packet_def ns_part_def)
qed

lemma decode_encode:
  assumes "wf_packet p"
  shows "decodeSIOPacket (encodeSIOPacket p) = Inr (canonical_packet p)"
proof -
  let ?bin = "pkt_Type p = sioBinaryEvent \<or> pkt_Type p = sioBinaryAck"
  define x where "x = pkt_Type p # (if ?bin then Itoa (pkt_Attachments p) @ [CHR ''-''] else [])"
  have e: "encodeSIOPacket p = x @ ns_part p @ id_data p"
    by (simp add: encodeSIOPacket_def x_def ns_part_def id_data_def)
  have t: "(x @ r) ! 0 = pkt_Type p" for r by (simp add: x_def)
  have h: "(if ?bin then parseAttachments (x @ r) 1 else Inr (0, 1)) = Inr (pkt_Attachments p, length x)" for r
  proof (cases ?bin)
    case True
    have "parseAttachments ([pkt_Type p] @ Itoa (pkt_Attachments p) @ CHR ''-'' # r) (length [pkt_Type p])
        = Inr (pkt_Attachments p, length [pkt_Type p] + length (Itoa (pkt_Attachments p)) + 1)"
      using assms True by (intro parseAttachments_at) (auto simp: wf_packet_def)
    with True show ?thesis by (simp add: x_def)
  next
    case False
    with assms show ?thesis by (simp add: x_def wf_packet_def)
  qed
  obtain off k where d: "parseNamespace (x @ ns_part p @ id_data p) (length x) = (pkt_Namespace (canonical_packet p), off)"
    "parseAckID (x @ ns_part p @ id_data p) off = (pkt_ID p, off + k)"
    "pkt_Data p = (if off + k < length (x @ ns_part p @ id_data p)
       then Some (drop (off + k) (x @ ns_part p @ id_data p)) else None)"
    using assms by (rule decode_body)
  have "decodeSIOPacket (x @ ns_part p @ id_data p) =
     Inr \<lparr>pkt_Type = pkt_Type p, pkt_Namespace = pkt_Namespace (canonical_packet p), pkt_ID = pkt_ID p,
          pkt_Attachments = pkt_Attachments p, pkt_Data = pkt_Data p\<rparr>"
    unfolding decodeSIOPacket_def Let_def t h using d by (simp add: x_def)
  then show ?thesis by (simp add: e canonical_packet_def)
qed

lemma parseAttachments_bounds:
  "parseAttachments data off = Inr (a, off') \<Longrightarrow> off \<le> length data \<Longrightarrow>
     0 \<le> a \<and> a \<le> 64 \<and> off' \<le> length data"
  using scan_while_bounds [of off data "\<lambda>c. c \<noteq> CHR ''-''"]
  by (auto simp: parseAttachments_def Let_def split: option.splits if_splits)

lemma parseNamespace_bounds:
  assumes "parseNamespace data off = (nsp, off')" and "off \<le> length data"
  shows "off' \<le> length data \<and> nsp \<noteq> [] \<and> hd nsp = CHR ''/''"
proof (cases "off \<ge> length data \<or> data ! off \<noteq> CHR ''/''")
  case True
  with assms show ?thesis by (auto simp: parseNamespace_def)
next
  case False
  then have "drop off data = CHR ''/'' # drop (Suc off) data" by (metis Cons_nth_drop_Suc not_le)
  then have "takeWhile (\<lambda>c. c \<noteq> CHR '','') (drop off data) =
      CHR ''/'' # takeWhile (\<lambda>c. c \<noteq> CHR '','') (drop (Suc off) data)" by simp
  then have "scan_while (\<lambda>c. c \<noteq> CHR '','') data off > off"
    by (simp add: scan_while_eq)
  with False assms scan_while_bounds [of off data "\<lambda>c. c \<noteq> CHR '',''"] show ?thesis
    by (auto simp: parseNamespace_def Let_def hd_take hd_drop_conv_nth split: if_splits)
qed

lemma parseAckID_bounds:
  assumes "parseAckID data off = (ident, off')" and "off \<le> length data"
  shows "off' \<le> length data \<and> (\<forall>n. ident = Some n \<longrightarrow> 0 \<le> n \<and> n \<le> MaxInt64)"
proof (cases "off \<ge> length data \<or> \<not> is_digit (data ! off)")
  case True
  with assms show ?thesis by (auto simp: parseAckID_def)
next
  case False
  define s where "s = take (scan_while is_digit data off - off) (drop off data)"
  have "s = [] \<or> is_digit (hd s)"
    using False by (cases "scan_while is_digit data off - off") (auto simp: s_def hd_drop_conv_nth)
  with False assms ParseInt64_nonneg [of s] ParseInt64_range [of s] scan_while_bounds [of off data is_digit]
  show ?thesis by (auto simp: parseAckID_def Let_def s_def)
qed

lemma sio_decode_range:
  assumes "decodeSIOPacket data = Inr p"
  shows "0 \<le> pkt_Attachments p \<and> pkt_Attachments p \<le> 64 \<and>
    (\<forall>n. pkt_ID p = Some n \<longrightarrow> 0 \<le> n \<and> n \<le> MaxInt64) \<and>
    pkt_Namespace p \<noteq> [] \<and> hd (pkt_Namespace p) = CHR ''/'' \<and>
    (\<forall>d. pkt_Data p = Some d \<longrightarrow> d \<noteq> [] \<and> suffix d data)"
proof -
  have "data \<noteq> []" using assms by (auto simp: decodeSIOPacket_def)
  then have l: "1 \<le> length data" by (simp add: Suc_leI)
  define h where "h = (if data ! 0 = sioBinaryEvent \<or> data ! 0 = sioBinaryAck
     then parseAttachments data 1 else Inr (0, 1))"
  obtain a o1 where h: "h = Inr (a, o1)"
    using assms by (auto simp: decodeSIOPacket_def Let_def h_def split: sum.splits if_splits)
  obtain nsp o2 where n: "parseNamespace data o1 = (nsp, o2)" by (cases "parseNamespace data o1")
  obtain i o3 where i: "parseAckID data o2 = (i, o3)" by (cases "parseAckID data o2")
  have p: "p = \<lparr>pkt_Type = data ! 0, pkt_Namespace = nsp, pkt_ID = i, pkt_Attachments = a,
     pkt_Data = (if o3 < length data then Some (drop o3 data) else None)\<rparr>"
    using assms \<open>data \<noteq> []\<close> n i unfolding decodeSIOPacket_def Let_def h_def [symmetric] h by simp
  have a: "0 \<le> a \<and> a \<le> 64 \<and> o1 \<le> length data"
    using h l parseAttachments_bounds [of data 1 a o1] by (auto simp: h_def split: if_splits)
  show ?thesis
    using a parseNamespace_bounds [OF n] parseAckID_bounds [OF i]
    by (auto simp: p suffix_drop split: if_splits)
qed

interpretation sio_codec: packet_codec wf_packet canonical_packet encodeSIOPacket decodeSIOPacket
  by unfold_locales (rule decode_encode)

section \<open>Deconstruction and reconstruction\<close>

text \<open>
  What a value becomes on the wire: \<^verbatim>\<open>encoding/json\<close> reads every number back as a
  floating-point number; \<open>f\<close> is the identity for a value that stays in the process.
\<close>

fun renumber :: "(int \<Rightarrow> any) \<Rightarrow> any \<Rightarrow> any" where
  "renumber f (VInt n) = f n"
| "renumber f (VSlice vs) = VSlice (map (renumber f) vs)"
| "renumber f (VMap m) = VMap (map (\<lambda>kv. (fst kv, renumber f (snd kv))) m)"
| "renumber f v = v"

fun no_placeholder :: "any \<Rightarrow> bool" where
  "no_placeholder (VSlice vs) \<longleftrightarrow> list_all no_placeholder vs"
| "no_placeholder (VMap m) \<longleftrightarrow> \<not> isPlaceholder m \<and> list_all (\<lambda>kv. no_placeholder (snd kv)) m"
| "no_placeholder v \<longleftrightarrow> True"

lemma deconstruct_extends:
  "\<exists>more. snd (deconstructBinaryWithOffset v bufs) = bufs @ more"
  "\<exists>more. snd (deconstruct_items vs bufs) = bufs @ more"
  "\<exists>more. snd (deconstruct_entries m bufs) = bufs @ more"
  by (induction v bufs and vs bufs and m bufs
      rule: deconstructBinaryWithOffset_deconstruct_items_deconstruct_entries.induct)
     (auto split: prod.splits)

lemma resolve_placeholder_number:
  assumes "f = VInt \<or> f = (\<lambda>n. VFloat (of_int n))" and "k < length bufs"
  shows "resolvePlaceholderBuffer [(''_placeholder'', VBool True), (''num'', f (int k))] bufs
    = VBytes (bufs ! k)"
  using assms by (auto simp: resolvePlaceholderBuffer_def truncate_rat_def)

lemma renumber_entries_placeholder:
  assumes "fst (deconstruct_entries m bufs) = rs" and "\<not> isPlaceholder m"
    and "f = VInt \<or> f = (\<lambda>n. VFloat (of_int n))"
  shows "\<not> isPlaceholder (map (\<lambda>kv. (fst kv, renumber f (snd kv))) rs)"
proof -
  have b: "renumber f (fst (deconstructBinaryWithOffset v b)) = VBool True \<longleftrightarrow> v = VBool True" for v b
    using assms(3) by (cases v) (auto split: prod.splits)
  have "map_of (map (\<lambda>kv. (fst kv, renumber f (snd kv))) rs) x = Some (VBool True) \<longleftrightarrow>
      map_of m x = Some (VBool True)" for x
    using assms(1)
  proof (induction m arbitrary: bufs rs)
    case Nil
    then show ?case by simp
  next
    case (Cons kv m)
    obtain k v where kv: "kv = (k, v)" by (cases kv)
    obtain r b1 where r: "deconstructBinaryWithOffset v bufs = (r, b1)"
      by (cases "deconstructBinaryWithOffset v bufs")
    define rs' where rs': "rs' = fst (deconstruct_entries m b1)"
    have rs: "rs = (k, r) # rs'" using Cons.prems r by (auto simp: kv rs' split: prod.splits)
    show ?case using Cons.IH [of b1 rs'] rs' b [of v bufs] r Cons.prems by (simp add: kv rs)
  qed
  with assms(2) show ?thesis by (simp add: isPlaceholder_def)
qed

text \<open>
  Reconstructing what deconstruction produced gives the value back, whatever
  buffers later deconstructions append.
\<close>

lemma reconstruct_deconstruct:
  assumes "f = VInt \<or> f = (\<lambda>n. VFloat (of_int n))"
  shows "no_placeholder v \<Longrightarrow>
      reconstructBinary (renumber f (fst (deconstructBinaryWithOffset v bufs)))
        (snd (deconstructBinaryWithOffset v bufs) @ ext) = renumber f v"
    and "list_all no_placeholder vs \<Longrightarrow>
      map (\<lambda>w. reconstructBinary (renumber f w) (snd (deconstruct_items vs bufs) @ ext))
        (fst (deconstruct_items vs bufs)) = map (renumber f) vs"
    and "list_all (\<lambda>kv. no_placeholder (snd kv)) m \<Longrightarrow>
      map (\<lambda>kv. (fst kv, reconstructBinary (renumber f (snd kv)) (snd (deconstruct_entries m bufs) @ ext)))
        (fst (deconstruct_entries m bufs)) = map (\<lambda>kv. (fst kv, renumber f (snd kv))) m"
proof (induction v bufs and vs bufs and m bufs arbitrary: ext and ext and ext
    rule: deconstructBinaryWithOffset_deconstruct_items_deconstruct_entries.induct)
  case (1 v buffers)
  have "isPlaceholder [(''_placeholder'', VBool True), (''num'', f (int (length buffers)))]"
    by (simp add: isPlaceholder_def)
  moreover have "(buffers @ v # ext) ! length buffers = v" by simp
  ultimately show ?case
    using resolve_placeholder_number [OF assms, of "length buffers" "buffers @ v # ext"] by simp
next
  case (2 vs buffers)
  then show ?case by (auto split: prod.splits simp: comp_def)
next
  case (3 m buffers)
  have "\<not> isPlaceholder (map (\<lambda>kv. (fst kv, renumber f (snd kv))) (fst (deconstruct_entries m buffers)))"
    using 3 assms by (intro renumber_entries_placeholder) auto
  with 3 show ?case by (auto split: prod.splits simp: comp_def)
next
  case (6 v vs buffers)
  obtain r b1 where r: "deconstructBinaryWithOffset v buffers = (r, b1)"
    by (cases "deconstructBinaryWithOffset v buffers")
  obtain more where m: "snd (deconstruct_items vs b1) = b1 @ more"
    using deconstruct_extends(2) [of vs b1] by blast
  show ?case
    using 6(1) [of "more @ ext"] 6(2) [OF r [symmetric], of ext] 6(3) r m
    by (auto split: prod.splits)
next
  case (8 k v m buffers)
  obtain r b1 where r: "deconstructBinaryWithOffset v buffers = (r, b1)"
    by (cases "deconstructBinaryWithOffset v buffers")
  obtain more where m: "snd (deconstruct_entries m b1) = b1 @ more"
    using deconstruct_extends(3) [of m b1] by blast
  show ?case
    using 8(1) [of "more @ ext"] 8(2) [OF r [symmetric], of ext] 8(3) r m
    by (auto split: prod.splits)
qed (insert assms, auto)

lemma deconstruct_no_binary:
  "\<not> hasBinaryWith (\<lambda>_. False) (fst (deconstructBinaryWithOffset v bufs))"
  "\<not> list_ex (hasBinaryWith (\<lambda>_. False)) (fst (deconstruct_items vs bufs))"
  "\<not> list_ex (\<lambda>kv. hasBinaryWith (\<lambda>_. False) (snd kv)) (fst (deconstruct_entries m bufs))"
  by (induction v bufs and vs bufs and m bufs
      rule: deconstructBinaryWithOffset_deconstruct_items_deconstruct_entries.induct)
     (auto split: prod.splits simp: list_ex_iff)

lemma exceeds_loop_iff: "exceeds_loop bufs n \<longleftrightarrow> bufs \<noteq> [] \<and> n + sum_list (map length bufs) > maxBinaryBufferSize
    \<or> bufs \<noteq> [] \<and> n > maxBinaryBufferSize"
  by (induction bufs arbitrary: n) (auto simp: Let_def)

section \<open>Properties\<close>

text \<open>C3: decoding an encoded packet gives the packet back, with the empty namespace read as the
  root namespace, for every packet whose parts are unambiguous on the wire.\<close>
theorem sio_packet_roundtrip:
  assumes "wf_packet p"
  shows "decodeSIOPacket (encodeSIOPacket p) = Inr (canonical_packet p)"
  using assms by (rule decode_encode)

theorem sio_packet_roundtrip_witness:
  "decodeSIOPacket (encodeSIOPacket
     \<lparr>pkt_Type = sioBinaryEvent, pkt_Namespace = ''/chat'', pkt_ID = Some 17, pkt_Attachments = 2,
      pkt_Data = Some ''[]''\<rparr>) = Inr
     \<lparr>pkt_Type = sioBinaryEvent, pkt_Namespace = ''/chat'', pkt_ID = Some 17, pkt_Attachments = 2,
      pkt_Data = Some ''[]''\<rparr>"
  using sio_packet_roundtrip [of "\<lparr>pkt_Type = sioBinaryEvent, pkt_Namespace = ''/chat'', pkt_ID = Some 17,
     pkt_Attachments = 2, pkt_Data = Some ''[]''\<rparr>"]
  by (simp add: wf_packet_def canonical_packet_def is_digit_def byte_eval)

text \<open>C19: whatever bytes arrive, a decoded packet is within bounds: at most 64 attachments, an id
  that fits a non-negative \<^verbatim>\<open>int64\<close>, a namespace that starts with a slash, and data that is a
  non-empty tail of the input.\<close>
theorem sio_decode_bounds:
  assumes "decodeSIOPacket data = Inr p"
  shows "0 \<le> pkt_Attachments p \<and> pkt_Attachments p \<le> 64 \<and>
    (\<forall>n. pkt_ID p = Some n \<longrightarrow> 0 \<le> n \<and> n \<le> MaxInt64) \<and>
    pkt_Namespace p \<noteq> [] \<and> hd (pkt_Namespace p) = CHR ''/'' \<and>
    (\<forall>d. pkt_Data p = Some d \<longrightarrow> d \<noteq> [] \<and> suffix d data)"
  using assms by (rule sio_decode_range)

theorem sio_decode_bounds_witness:
  "\<exists>p. decodeSIOPacket ''217[]'' = Inr p \<and> pkt_ID p = Some 17 \<and> (\<forall>n. pkt_ID p = Some n \<longrightarrow> n \<le> MaxInt64)"
proof -
  let ?p = "\<lparr>pkt_Type = sioEvent, pkt_Namespace = ''/'', pkt_ID = Some 17, pkt_Attachments = 0,
     pkt_Data = Some ''[]''\<rparr>"
  have "encodeSIOPacket ?p = ''217[]''"
    by (simp add: encodeSIOPacket_def FormatInt_def format_nat.simps digit_char_def byte_eval)
  moreover have "wf_packet ?p" and "canonical_packet ?p = ?p"
    by (simp_all add: wf_packet_def canonical_packet_def is_digit_def byte_eval)
  ultimately have d: "decodeSIOPacket ''217[]'' = Inr ?p" using decode_encode [of ?p] by simp
  show ?thesis using sio_decode_bounds [OF d] d by simp
qed

text \<open>Taking the byte slices out of a value leaves none behind, and putting them back gives the
  value again, for any map iteration order, whether the numbers of the placeholders come back as
  Go integers or, after JSON, as floating-point numbers.\<close>
theorem binary_roundtrip:
  assumes "no_placeholder v" and "f = VInt \<or> f = (\<lambda>n. VFloat (of_int n))"
  shows "\<not> hasBinaryWith (\<lambda>_. False) (fst (deconstructBinary v)) \<and>
    reconstructBinary (renumber f (fst (deconstructBinary v))) (snd (deconstructBinary v)) = renumber f v"
  using reconstruct_deconstruct(1) [OF assms(2,1), of "[]" "[]"] deconstruct_no_binary(1) [of v "[]"]
  by (simp add: deconstructBinary_def)

theorem binary_roundtrip_witness:
  "reconstructBinary (renumber (\<lambda>n. VFloat (of_int n)) (fst (deconstructBinary
      (VSlice [VStr ''ev'', VBytes ''ab'', VMap [(''k'', VBytes ''c'')]])))) [''ab'', ''c'']
    = VSlice [VStr ''ev'', VBytes ''ab'', VMap [(''k'', VBytes ''c'')]]"
  using binary_roundtrip [of "VSlice [VStr ''ev'', VBytes ''ab'', VMap [(''k'', VBytes ''c'')]]"
     "\<lambda>n. VFloat (of_int n)"]
  by (simp add: isPlaceholder_def deconstructBinary_def)

end
