(* ===== verification/SIO_Client.thy ===== *)
theory SIO_Client
  imports SIO_Packet
begin

text \<open>
  Package \<^verbatim>\<open>socketio\<close>, files \<^verbatim>\<open>src/socketio/client.go\<close>, \<^verbatim>\<open>engineio.go\<close> and
  \<^verbatim>\<open>reconnect.go\<close>: the client connection.  Its state is the record \<open>Conn\<close>; an
  operation takes the state and returns it updated.  What an operation does to the
  world (a message written to a connection, a connection closed, a goroutine
  started) is appended to the field \<open>trace\<close>, in order.  The code the package
  calls but does not contain is the record \<open>env\<close> of functions: \<^verbatim>\<open>encoding/json\<close>, the
  state-machine library, \<^verbatim>\<open>generic.Coalesce\<close>, the acknowledgment manager
  \<^verbatim>\<open>task.Manager\<close> (over an abstract state \<open>'m\<close>) and the outcome of
  \<^verbatim>\<open>WriteMessage\<close>, which may depend on everything that happened before.  A callback
  is a number, its identity.  The close channel is a flag: every use reads the
  channel of the moment through \<^verbatim>\<open>getClosedChan\<close>.
\<close>

section \<open>State\<close>

datatype sioConnState = sioStateClosed | sioStateOpening | sioStateOpen

datatype sioEventType = sioEventTypeOpen | sioEventTypeClose | sioEventTypeReconnect

datatype handler = Handler nat | CatchAll nat

datatype effect =
    WriteMessage nat frame_kind bytes
  | CloseConn nat
  | GoHandler handler "bytes list"
  | GoAck nat "bytes list"
  | GoOnClose nat
  | GoOnReconnecting nat int
  | GoOnReconnected nat
  | GoOnReconnectFailed nat
  | BackoffNext
  | BackoffReset
  | GoReadLoop
  | GoHeartbeatLoop
  | GoReconnectLoop

record Config =
  Reconnection :: bool
  ReconnectionAttempts :: int
  ReconnectionDelay :: int
  ReconnectionDelayMax :: int
  JitterFactor :: rat
  ConnectTimeout :: int
  PingTimeout :: int
  cfg_Namespace :: bytes
  Auth :: any

record 'm Conn =
  conn :: "nat option"
  sid :: bytes
  closed :: bool
  config :: Config
  namespace :: bytes
  nsEvents :: "bytes \<Rightarrow> (bytes \<Rightarrow> handler option) option"
  onClose :: "nat option"
  onReconnecting :: "nat option"
  onReconnected :: "nat option"
  onReconnectFailed :: "nat option"
  ackMgr :: 'm
  state :: sioConnState
  fsm :: sioConnState
  attemptCount :: int
  skipReconnect :: bool
  pingInterval :: int
  pongCh :: "nat option"
  pongTokens :: "nat list"
  binaryBuf :: "binaryReconstructor option"
  pid :: bytes
  offset :: bytes
  trace :: "effect list"

type_synonym fsm_rule = "sioConnState \<times> sioEventType \<times> sioConnState"

record 'm env =
  unmarshalArgs :: "bytes \<Rightarrow> bytes list option"
  unmarshalAny :: "bytes \<Rightarrow> any option"
  unmarshalString :: "bytes \<Rightarrow> bytes option"
  unmarshalOpen :: "bytes \<Rightarrow> (bytes \<times> int) option"
  unmarshalConnect :: "bytes \<Rightarrow> bytes \<times> bytes"
  marshal :: "any \<Rightarrow> bytes option"
  Transition :: "fsm_rule list \<Rightarrow> sioConnState \<Rightarrow> sioEventType \<Rightarrow> sioConnState"
  CoalesceString :: "bytes \<Rightarrow> bytes \<Rightarrow> bytes"
  CoalesceDuration :: "int \<Rightarrow> int \<Rightarrow> int"
  CoalesceFloat :: "rat \<Rightarrow> rat \<Rightarrow> rat"
  write_ok :: "effect list \<Rightarrow> bool"
  NextID :: "'m \<Rightarrow> int \<times> 'm"
  AddJob :: "int \<Rightarrow> nat \<Rightarrow> 'm \<Rightarrow> 'm"
  Resolve :: "int \<Rightarrow> bytes list \<Rightarrow> 'm \<Rightarrow> nat option \<times> 'm"

definition emit_effect :: "effect \<Rightarrow> 'm Conn \<Rightarrow> 'm Conn" where
  "emit_effect e s = s\<lparr>trace := trace s @ [e]\<rparr>"

definition emit_opt :: "('a \<Rightarrow> effect) \<Rightarrow> 'a option \<Rightarrow> 'm Conn \<Rightarrow> 'm Conn" where
  "emit_opt f cb s = (case cb of None \<Rightarrow> s | Some c \<Rightarrow> emit_effect (f c) s)"

section \<open>client.go: registration\<close>

abbreviation Second :: int where "Second \<equiv> 1000000000"
abbreviation Millisecond :: int where "Millisecond \<equiv> 1000000"

definition ResolveDefaults :: "'m env \<Rightarrow> Config \<Rightarrow> Config" where
  "ResolveDefaults E cfg = cfg\<lparr>
     ReconnectionDelay := CoalesceDuration E (ReconnectionDelay cfg) Second,
     ReconnectionDelayMax := CoalesceDuration E (ReconnectionDelayMax cfg) (30 * Second),
     JitterFactor := CoalesceFloat E (JitterFactor cfg) (1 / 2),
     ConnectTimeout := CoalesceDuration E (ConnectTimeout cfg) (20 * Second),
     PingTimeout := CoalesceDuration E (PingTimeout cfg) (20 * Second),
     cfg_Namespace := CoalesceString E (cfg_Namespace cfg) ''/''\<rparr>"

text \<open>A nil handler stored under an event is the value \<open>None\<close>, which Go's lookup finds and skips.\<close>

definition setNamespaceHandler :: "bytes \<Rightarrow> bytes \<Rightarrow> handler option \<Rightarrow> 'm Conn \<Rightarrow> 'm Conn" where
  "setNamespaceHandler nsp event h s =
    (let handlers = (case nsEvents s nsp of None \<Rightarrow> (\<lambda>_. None) | Some m \<Rightarrow> m);
         handlers = (if event \<noteq> [] then handlers(event := h) else handlers)
     in s\<lparr>nsEvents := (nsEvents s)(nsp \<mapsto> handlers)\<rparr>)"

definition On :: "bytes \<Rightarrow> nat \<Rightarrow> 'm Conn \<Rightarrow> 'm Conn" where
  "On event h s = setNamespaceHandler (namespace s) event (Some (Handler h)) s"

definition OnAny :: "nat \<Rightarrow> 'm Conn \<Rightarrow> 'm Conn" where
  "OnAny h s = setNamespaceHandler (namespace s) ''*'' (Some (CatchAll h)) s"

definition OnNamespace :: "bytes \<Rightarrow> 'm Conn \<Rightarrow> bytes \<times> 'm Conn" where
  "OnNamespace nsp s = (nsp, setNamespaceHandler nsp [] None s)"

definition ns_On :: "bytes \<Rightarrow> bytes \<Rightarrow> nat \<Rightarrow> 'm Conn \<Rightarrow> 'm Conn" where
  "ns_On nsp event h s = setNamespaceHandler nsp event (Some (Handler h)) s"

definition ns_OnAny :: "bytes \<Rightarrow> nat \<Rightarrow> 'm Conn \<Rightarrow> 'm Conn" where
  "ns_OnAny nsp h s = setNamespaceHandler nsp ''*'' (Some (CatchAll h)) s"

definition OnClose :: "nat \<Rightarrow> 'm Conn \<Rightarrow> 'm Conn" where
  "OnClose h s = s\<lparr>onClose := Some h\<rparr>"

definition OnReconnecting :: "nat \<Rightarrow> 'm Conn \<Rightarrow> 'm Conn" where
  "OnReconnecting h s = s\<lparr>onReconnecting := Some h\<rparr>"

definition OnReconnected :: "nat \<Rightarrow> 'm Conn \<Rightarrow> 'm Conn" where
  "OnReconnected h s = s\<lparr>onReconnected := Some h\<rparr>"

definition OnReconnectFailed :: "nat \<Rightarrow> 'm Conn \<Rightarrow> 'm Conn" where
  "OnReconnectFailed h s = s\<lparr>onReconnectFailed := Some h\<rparr>"

text \<open>
  What a started handler calls: the user's function with its arguments; the wrapper
  of \<^verbatim>\<open>OnAny\<close> decodes the event name first and may call nothing.
\<close>

definition run_handler ::
  "'m env \<Rightarrow> handler \<Rightarrow> bytes list \<Rightarrow> (nat \<times> bytes option \<times> bytes list) option" where
  "run_handler E h args =
    (case h of
       Handler f \<Rightarrow> Some (f, None, args)
     | CatchAll f \<Rightarrow>
         (if length args = 0 then None
          else case unmarshalString E (args ! 0) of
                 None \<Rightarrow> None
               | Some eventName \<Rightarrow> Some (f, Some eventName, drop 1 args)))"

section \<open>engineio.go: writing\<close>

definition initFSM :: "fsm_rule list" where
  "initFSM =
    [(sioStateClosed, sioEventTypeOpen, sioStateOpen),
     (sioStateOpen, sioEventTypeClose, sioStateClosed),
     (sioStateClosed, sioEventTypeReconnect, sioStateOpen),
     (sioStateOpening, sioEventTypeOpen, sioStateOpen),
     (sioStateOpening, sioEventTypeClose, sioStateClosed)]"

definition fire :: "'m env \<Rightarrow> sioEventType \<Rightarrow> 'm Conn \<Rightarrow> 'm Conn" where
  "fire E e s = s\<lparr>fsm := Transition E initFSM (fsm s) e\<rparr>"

definition writeEIOPacket :: "'m env \<Rightarrow> char \<Rightarrow> bytes \<Rightarrow> 'm Conn \<Rightarrow> sio_error option \<times> 'm Conn" where
  "writeEIOPacket E pType payload s =
    (case conn s of
       None \<Rightarrow> (Some ErrNotConnected, s)
     | Some c \<Rightarrow>
         (let s = emit_effect (if pType = eioBinary then WriteMessage c FrameBinary payload
                               else WriteMessage c FrameText (pType # payload)) s
          in (if write_ok E (trace s) then None else Some ErrWrite, s)))"

definition map_set :: "'k \<Rightarrow> 'v \<Rightarrow> ('k \<times> 'v) list \<Rightarrow> ('k \<times> 'v) list" where
  "map_set k v m = filter (\<lambda>kv. fst kv \<noteq> k) m @ [(k, v)]"

definition sendConnect :: "'m env \<Rightarrow> 'm Conn \<Rightarrow> sio_error option \<times> 'm Conn" where
  "sendConnect E s =
    (let authData = (case Auth (config s) of
            VNull \<Rightarrow> Some []
          | VMap m \<Rightarrow> Some m
          | v \<Rightarrow> (case marshal E v of None \<Rightarrow> None | Some b \<Rightarrow> Some [(''token'', VRawMessage b)]))
     in case authData of
          None \<Rightarrow> (Some ErrMarshal, s)
        | Some authData \<Rightarrow>
            (let authData = (if pid s \<noteq> [] then map_set ''pid'' (VStr (pid s)) authData else authData);
                 authData = (if offset s \<noteq> [] then map_set ''offset'' (VStr (offset s)) authData else authData);
                 data = (if length authData > 0
                         then map_option Some (marshal E (VMap authData)) else Some None)
             in case data of
                  None \<Rightarrow> (Some ErrMarshal, s)
                | Some d \<Rightarrow>
                    writeEIOPacket E eioMessage (encodeSIOPacket
                      \<lparr>pkt_Type = sioConnect, pkt_Namespace = namespace s, pkt_ID = None,
                       pkt_Attachments = 0, pkt_Data = d\<rparr>) s))"

section \<open>engineio.go: handshake\<close>

text \<open>What a read under a context gives: the context ended first, or the read returned.\<close>

datatype ctx_read = CtxDone | ReadReturned "(frame_kind \<times> bytes) option"

definition readEIOPacket :: "(frame_kind \<times> bytes) option \<Rightarrow> 'm Conn \<Rightarrow> sio_error + (char \<times> bytes)" where
  "readEIOPacket message s =
    (case conn s of None \<Rightarrow> Inl ErrNotConnected | Some c \<Rightarrow> readSingleEIOPacket message)"

definition readEIOPacketCtx ::
  "ctx_read \<Rightarrow> nat \<Rightarrow> 'm Conn \<Rightarrow> (sio_error + (char \<times> bytes)) \<times> 'm Conn" where
  "readEIOPacketCtx r c s =
    (case r of
       CtxDone \<Rightarrow> (Inl ErrContext, emit_effect (CloseConn c) s)
     | ReadReturned message \<Rightarrow> (readSingleEIOPacket message, s))"

definition readAndParseEIOOpen ::
  "'m env \<Rightarrow> ctx_read \<Rightarrow> nat \<Rightarrow> 'm Conn \<Rightarrow> sio_error option \<times> 'm Conn" where
  "readAndParseEIOOpen E r c s =
    (case readEIOPacketCtx r c s of
       (Inl err, s) \<Rightarrow> (Some err, s)
     | (Inr (pType, payload), s) \<Rightarrow>
         if pType \<noteq> eioOpen then (Some (ErrUnexpectedOpen pType), s)
         else case unmarshalOpen E payload of
                None \<Rightarrow> (Some ErrOpenParams, s)
              | Some (SID, PingInterval) \<Rightarrow>
                  (None, s\<lparr>sid := SID, pingInterval := wrap64 (PingInterval * Millisecond)\<rparr>))"

definition readAndParseSIOConnect ::
  "'m env \<Rightarrow> ctx_read \<Rightarrow> nat \<Rightarrow> 'm Conn \<Rightarrow> sio_error option \<times> 'm Conn" where
  "readAndParseSIOConnect E r c s =
    (case readEIOPacketCtx r c s of
       (Inl err, s) \<Rightarrow> (Some err, s)
     | (Inr (pType, payload), s) \<Rightarrow>
         if pType \<noteq> eioMessage \<or> length payload < 1 \<or> payload ! 0 \<noteq> sioConnect then
           (if pType = eioMessage \<and> length payload > 0 \<and> payload ! 0 = sioConnectError
            then (Some (ErrConnectRejected (drop 1 payload)), s)
            else (Some (ErrUnexpectedConnect pType payload), s))
         else
           (case unmarshalConnect E (drop 1 payload) of
              (SID, PID) \<Rightarrow> (None, if PID \<noteq> [] then s\<lparr>pid := PID\<rparr> else s)))"

definition doHandshake ::
  "'m env \<Rightarrow> ctx_read \<Rightarrow> ctx_read \<Rightarrow> 'm Conn \<Rightarrow> sio_error option \<times> 'm Conn" where
  "doHandshake E r1 r2 s =
    (case conn s of
       None \<Rightarrow> (Some ErrNotConnected, s)
     | Some c \<Rightarrow>
         (case readAndParseEIOOpen E r1 c s of
            (Some err, s) \<Rightarrow> (Some err, s)
          | (None, s) \<Rightarrow>
              (case sendConnect E s of
                 (Some err, s) \<Rightarrow> (Some err, s)
               | (None, s) \<Rightarrow> readAndParseSIOConnect E r2 c s)))"

definition new_conn :: "Config \<Rightarrow> nat \<Rightarrow> 'm \<Rightarrow> 'm Conn" where
  "new_conn cfg c mgr =
     \<lparr>conn = Some c, sid = [], closed = False, config = cfg, namespace = cfg_Namespace cfg,
      nsEvents = (\<lambda>_. None), onClose = None, onReconnecting = None, onReconnected = None,
      onReconnectFailed = None, ackMgr = mgr, state = sioStateClosed, fsm = sioStateClosed,
      attemptCount = 0, skipReconnect = False, pingInterval = 0, pongCh = None,
      pongTokens = [], binaryBuf = None, pid = [], offset = [], trace = []\<rparr>"

definition NewSocketIOConn ::
  "'m env \<Rightarrow> nat \<Rightarrow> Config \<Rightarrow> 'm \<Rightarrow> ctx_read \<Rightarrow> ctx_read \<Rightarrow> sio_error option \<times> 'm Conn" where
  "NewSocketIOConn E c cfg mgr r1 r2 =
    (let cfg = ResolveDefaults E cfg; sio = new_conn cfg c mgr
     in case doHandshake E r1 r2 sio of
          (Some err, sio) \<Rightarrow> (Some err, emit_effect (CloseConn c) sio)
        | (None, sio) \<Rightarrow>
            (None, emit_effect GoHeartbeatLoop (emit_effect GoReadLoop
                     ((fire E sioEventTypeOpen sio)\<lparr>state := sioStateOpen\<rparr>))))"

text \<open>The result of \<^verbatim>\<open>ws.DialWebSocket\<close> is an argument: the connection, or none.\<close>

definition DialSocketIO ::
  "'m env \<Rightarrow> nat option \<Rightarrow> Config \<Rightarrow> 'm \<Rightarrow> ctx_read \<Rightarrow> ctx_read \<Rightarrow> (sio_error + 'm Conn)" where
  "DialSocketIO E dial cfg mgr r1 r2 =
    (case dial of
       None \<Rightarrow> Inl ErrDial
     | Some c \<Rightarrow>
         (case NewSocketIOConn E c cfg mgr r1 r2 of
            (Some err, sio) \<Rightarrow> Inl err
          | (None, sio) \<Rightarrow> Inr sio))"

section \<open>engineio.go: reading and dispatch\<close>

definition handleSIOConnect :: "'m env \<Rightarrow> sioPacket \<Rightarrow> 'm Conn \<Rightarrow> 'm Conn" where
  "handleSIOConnect E pkt s =
    (case (case pkt_Data pkt of None \<Rightarrow> ([], []) | Some d \<Rightarrow> unmarshalConnect E d) of
       (SID, PID) \<Rightarrow>
         (let s = (if SID \<noteq> [] then s\<lparr>sid := SID\<rparr> else s)
          in if PID \<noteq> [] then s\<lparr>pid := PID\<rparr> else s))"

definition handleSIOConnectError :: "'m Conn \<Rightarrow> 'm Conn" where
  "handleSIOConnectError s = emit_opt GoOnClose (onClose s) s"

text \<open>Unmarshalling no data (a nil slice) is an error of \<^verbatim>\<open>encoding/json\<close>.\<close>

definition unmarshal_data :: "'m env \<Rightarrow> bytes option \<Rightarrow> bytes list option" where
  "unmarshal_data E d = (case d of None \<Rightarrow> None | Some d \<Rightarrow> unmarshalArgs E d)"

definition dispatchPacket :: "'m env \<Rightarrow> sioPacket \<Rightarrow> 'm Conn \<Rightarrow> 'm Conn" where
  "dispatchPacket E pkt s =
    (case unmarshal_data E (pkt_Data pkt) of
       None \<Rightarrow> s
     | Some [] \<Rightarrow> s
     | Some (name # args) \<Rightarrow>
         (case unmarshalString E name of
            None \<Rightarrow> s
          | Some eventName \<Rightarrow>
              (let nsp = CoalesceString E (pkt_Namespace pkt) (namespace s)
               in case nsEvents s nsp of
                    None \<Rightarrow> s
                  | Some handlers \<Rightarrow>
                      emit_opt (\<lambda>h. GoHandler h (name # args)) (handlers ''*'')
                        (emit_opt (\<lambda>h. GoHandler h args) (handlers eventName) s))))"

definition handleAck :: "'m env \<Rightarrow> int \<Rightarrow> bytes option \<Rightarrow> 'm Conn \<Rightarrow> 'm Conn" where
  "handleAck E ident data s =
    (case unmarshal_data E data of
       None \<Rightarrow> s
     | Some args \<Rightarrow>
         (case Resolve E ident args (ackMgr s) of
            (cb, mgr) \<Rightarrow> emit_opt (\<lambda>f. GoAck f args) cb (s\<lparr>ackMgr := mgr\<rparr>)))"

definition handleSIOPacket :: "'m env \<Rightarrow> bytes \<Rightarrow> 'm Conn \<Rightarrow> 'm Conn" where
  "handleSIOPacket E data s =
    (case decodeSIOPacket data of
       Inl err \<Rightarrow> s
     | Inr pkt \<Rightarrow>
         if pkt_Type pkt = sioConnect then handleSIOConnect E pkt s
         else if pkt_Type pkt = sioEvent then dispatchPacket E pkt s
         else if pkt_Type pkt = sioAck then
           (case pkt_ID pkt of None \<Rightarrow> s | Some ident \<Rightarrow> handleAck E ident (pkt_Data pkt) s)
         else if pkt_Type pkt = sioBinaryEvent \<or> pkt_Type pkt = sioBinaryAck then
           s\<lparr>binaryBuf := Some (newBinaryReconstructor (pkt_Attachments pkt) pkt)\<rparr>
         else if pkt_Type pkt = sioConnectError then handleSIOConnectError s
         else s)"

definition dispatchEIOPacket :: "'m env \<Rightarrow> char \<Rightarrow> bytes \<Rightarrow> 'm Conn \<Rightarrow> bool \<times> 'm Conn" where
  "dispatchEIOPacket E pType payload s =
    (if pType = eioClose then (True, s)
     else if pType = eioPong then
       (False,
        case pongCh s of
          None \<Rightarrow> s
        | Some ch \<Rightarrow> (if ch \<in> set (pongTokens s) then s else s\<lparr>pongTokens := ch # pongTokens s\<rparr>))
     else if pType = eioMessage then
       (False, if length payload > 0 then handleSIOPacket E payload s else s)
     else if pType = eioBinary then
       (False,
        case binaryBuf s of
          None \<Rightarrow> s
        | Some br \<Rightarrow>
            (case addBuffer br payload of
               (False, br) \<Rightarrow> s\<lparr>binaryBuf := Some br\<rparr>
             | (True, br) \<Rightarrow>
                 (let s = s\<lparr>binaryBuf := None\<rparr>
                  in case reconstruct (unmarshalArgs E) (unmarshalAny E) (marshal E) br of
                       Inl err \<Rightarrow> s
                     | Inr pkt \<Rightarrow> dispatchPacket E pkt s)))
     else (False, s))"

text \<open>The flag returned by \<open>cleanupConnection\<close> says whether the reconnection loop was started.\<close>

definition cleanupConnection :: "'m env \<Rightarrow> 'm Conn \<Rightarrow> bool \<times> 'm Conn" where
  "cleanupConnection E s =
    (let s = fire E sioEventTypeClose s;
         s = s\<lparr>state := sioStateClosed\<rparr>;
         s = emit_opt CloseConn (conn s) s;
         s = emit_opt GoOnClose (onClose s) s
     in if \<not> skipReconnect s \<and> Reconnection (config s)
        then (True, emit_effect GoReconnectLoop s) else (False, s))"

text \<open>
  The read loop over the results of successive reads; the flag says whether it
  left the loop (and ran its deferred cleanup).
\<close>

fun readLoop :: "'m env \<Rightarrow> (frame_kind \<times> bytes) option list \<Rightarrow> 'm Conn \<Rightarrow> bool \<times> 'm Conn" where
  "readLoop E [] s = (False, s)"
| "readLoop E (r # rs) s =
    (case readEIOPacket r s of
       Inl err \<Rightarrow> (True, snd (cleanupConnection E s))
     | Inr (pType, payload) \<Rightarrow>
         (case dispatchEIOPacket E pType payload s of
            (True, s) \<Rightarrow> (True, snd (cleanupConnection E s))
          | (False, s) \<Rightarrow> readLoop E rs s))"

text \<open>
  One turn of the heartbeat loop: the tick (a fresh channel \<open>ch\<close> for the answer, a
  ping), then the answer, the timeout or the closing of the connection.
\<close>

definition heartbeat_interval :: "'m Conn \<Rightarrow> int" where
  "heartbeat_interval s = (if pingInterval s \<le> 0 then 25 * Second else pingInterval s)"

definition heartbeat_tick :: "'m env \<Rightarrow> nat \<Rightarrow> 'm Conn \<Rightarrow> sio_error option \<times> 'm Conn" where
  "heartbeat_tick E ch s = writeEIOPacket E eioPing [] (s\<lparr>pongCh := Some ch\<rparr>)"

definition heartbeat_pong :: "nat \<Rightarrow> 'm Conn \<Rightarrow> 'm Conn option" where
  "heartbeat_pong ch s =
    (if ch \<in> set (pongTokens s) then Some (s\<lparr>pongTokens := remove1 ch (pongTokens s)\<rparr>) else None)"

definition heartbeat_timeout :: "'m Conn \<Rightarrow> 'm Conn" where
  "heartbeat_timeout s =
    (let s = (if \<not> skipReconnect s then s\<lparr>closed := True\<rparr> else s)
     in emit_opt CloseConn (conn s) s)"

section \<open>client.go: emitting and closing\<close>

definition Connected :: "'m Conn \<Rightarrow> bool" where
  "Connected s \<longleftrightarrow> state s = sioStateOpen"

definition assertOpen :: "'m Conn \<Rightarrow> sio_error option" where
  "assertOpen s = (if state s \<noteq> sioStateOpen then Some ErrNotConnected else None)"

definition extractAckCallback :: "any list \<Rightarrow> any list \<times> nat option" where
  "extractAckCallback args =
    (if length args > 0 then
       (case last args of VCallback f \<Rightarrow> (butlast args, Some f) | _ \<Rightarrow> (args, None))
     else (args, None))"

definition registerAckJob :: "'m env \<Rightarrow> nat \<Rightarrow> 'm Conn \<Rightarrow> int \<times> 'm Conn" where
  "registerAckJob E ackFn s =
    (case NextID E (ackMgr s) of
       (ident, mgr) \<Rightarrow> (ident, s\<lparr>ackMgr := AddJob E ident ackFn mgr\<rparr>))"

definition register_opt :: "'m env \<Rightarrow> nat option \<Rightarrow> 'm Conn \<Rightarrow> int option \<times> 'm Conn" where
  "register_opt E ackFn s =
    (case ackFn of
       None \<Rightarrow> (None, s)
     | Some f \<Rightarrow> (case registerAckJob E f s of (ident, s) \<Rightarrow> (Some ident, s)))"

fun send_attachments :: "'m env \<Rightarrow> bytes list \<Rightarrow> 'm Conn \<Rightarrow> sio_error option \<times> 'm Conn" where
  "send_attachments E [] s = (None, s)"
| "send_attachments E (buf # bufs) s =
    (case writeEIOPacket E eioBinary buf s of
       (Some err, s) \<Rightarrow> (Some err, s)
     | (None, s) \<Rightarrow> send_attachments E bufs s)"

definition emitBinaryNS ::
  "'m env \<Rightarrow> bytes \<Rightarrow> any \<Rightarrow> nat option \<Rightarrow> 'm Conn \<Rightarrow> sio_error option \<times> 'm Conn" where
  "emitBinaryNS E nsp data ackFn s =
    (case deconstructBinary data of (deconstructed, buffers) \<Rightarrow>
      (case marshal E deconstructed of
         None \<Rightarrow> (Some ErrMarshal, s)
       | Some jsonData \<Rightarrow>
           (case register_opt E ackFn s of (ident, s) \<Rightarrow>
             (case writeEIOPacket E eioMessage (encodeSIOPacket
                     \<lparr>pkt_Type = sioBinaryEvent, pkt_Namespace = nsp, pkt_ID = ident,
                      pkt_Attachments = int (length buffers), pkt_Data = Some jsonData\<rparr>) s of
                (Some err, s) \<Rightarrow> (Some err, s)
              | (None, s) \<Rightarrow> send_attachments E buffers s))))"

definition emitNS :: "'m env \<Rightarrow> bytes \<Rightarrow> bytes \<Rightarrow> any list \<Rightarrow> 'm Conn \<Rightarrow> sio_error option \<times> 'm Conn" where
  "emitNS E nsp event args s =
    (case assertOpen s of
       Some err \<Rightarrow> (Some err, s)
     | None \<Rightarrow>
         (case extractAckCallback args of (emitArgs, ackFn) \<Rightarrow>
           (let payload = VSlice (VStr event # emitArgs)
            in if hasBinary (unmarshalAny E) payload then emitBinaryNS E nsp payload ackFn s
               else case marshal E payload of
                      None \<Rightarrow> (Some ErrMarshal, s)
                    | Some jsonData \<Rightarrow>
                        (case register_opt E ackFn s of (ident, s) \<Rightarrow>
                          writeEIOPacket E eioMessage (encodeSIOPacket
                            \<lparr>pkt_Type = sioEvent, pkt_Namespace = nsp, pkt_ID = ident,
                             pkt_Attachments = 0, pkt_Data = Some jsonData\<rparr>) s))))"

definition Emit :: "'m env \<Rightarrow> bytes \<Rightarrow> any list \<Rightarrow> 'm Conn \<Rightarrow> sio_error option \<times> 'm Conn" where
  "Emit E event args s = emitNS E (namespace s) event args s"

definition emitVolatileNS ::
  "'m env \<Rightarrow> bytes \<Rightarrow> bytes \<Rightarrow> any list \<Rightarrow> 'm Conn \<Rightarrow> sio_error option \<times> 'm Conn" where
  "emitVolatileNS E nsp event args s =
    (if \<not> Connected s then (None, s) else emitNS E nsp event args s)"

definition EmitVolatile :: "'m env \<Rightarrow> bytes \<Rightarrow> any list \<Rightarrow> 'm Conn \<Rightarrow> sio_error option \<times> 'm Conn" where
  "EmitVolatile E event args s = emitVolatileNS E (namespace s) event args s"

text \<open>
  \<^verbatim>\<open>emitWithAckNS\<close> sends with a callback \<open>ch\<close> of its own and then waits for what
  comes first.
\<close>

datatype ack_wait = WaitCtx | WaitClosed | WaitTimer | WaitAck "bytes list"

definition emitWithAckNS ::
  "'m env \<Rightarrow> bytes \<Rightarrow> bytes \<Rightarrow> any list \<Rightarrow> nat \<Rightarrow> ack_wait \<Rightarrow> 'm Conn \<Rightarrow>
   (sio_error + bytes list) \<times> 'm Conn" where
  "emitWithAckNS E nsp event args ch first s =
    (case emitNS E nsp event (args @ [VCallback ch]) s of
       (Some err, s) \<Rightarrow> (Inl err, s)
     | (None, s) \<Rightarrow>
         (case first of
            WaitCtx \<Rightarrow> Inl ErrContext
          | WaitClosed \<Rightarrow> Inl ErrNotConnected
          | WaitTimer \<Rightarrow> Inl ErrAckTimeout
          | WaitAck result \<Rightarrow> Inr result, s))"

definition EmitWithAck ::
  "'m env \<Rightarrow> bytes \<Rightarrow> any list \<Rightarrow> nat \<Rightarrow> ack_wait \<Rightarrow> 'm Conn \<Rightarrow> (sio_error + bytes list) \<times> 'm Conn" where
  "EmitWithAck E event args ch first s = emitWithAckNS E (namespace s) event args ch first s"

text \<open>The same on a socket of a namespace \<open>nsp\<close>.\<close>

definition ns_Emit :: "'m env \<Rightarrow> bytes \<Rightarrow> bytes \<Rightarrow> any list \<Rightarrow> 'm Conn \<Rightarrow> sio_error option \<times> 'm Conn" where
  "ns_Emit E nsp event args s = emitNS E nsp event args s"

definition ns_EmitWithAck ::
  "'m env \<Rightarrow> bytes \<Rightarrow> bytes \<Rightarrow> any list \<Rightarrow> nat \<Rightarrow> ack_wait \<Rightarrow> 'm Conn \<Rightarrow> (sio_error + bytes list) \<times> 'm Conn" where
  "ns_EmitWithAck E nsp event args ch first s = emitWithAckNS E nsp event args ch first s"

definition ns_EmitVolatile :: "'m env \<Rightarrow> bytes \<Rightarrow> bytes \<Rightarrow> any list \<Rightarrow> 'm Conn \<Rightarrow> sio_error option \<times> 'm Conn" where
  "ns_EmitVolatile E nsp event args s = emitVolatileNS E nsp event args s"

definition Close :: "'m env \<Rightarrow> 'm Conn \<Rightarrow> 'm Conn" where
  "Close E s =
    (if closed s then s
     else
      (let s = s\<lparr>closed := True, skipReconnect := True\<rparr>;
           payload = encodeSIOPacket \<lparr>pkt_Type = sioDisconnect, pkt_Namespace = namespace s,
             pkt_ID = None, pkt_Attachments = 0, pkt_Data = None\<rparr>;
           s = snd (writeEIOPacket E eioMessage payload s);
           s = snd (writeEIOPacket E eioClose [] s)
       in emit_opt CloseConn (conn s) s))"

section \<open>reconnect.go\<close>

definition handleReconnectFailure :: "'m Conn \<Rightarrow> bool \<times> 'm Conn" where
  "handleReconnectFailure s =
    (if ReconnectionAttempts (config s) > 0 \<and> attemptCount s \<ge> ReconnectionAttempts (config s)
     then (True, emit_opt GoOnReconnectFailed (onReconnectFailed s) s)
     else (False, s))"

definition resetConnectionState :: "'m Conn \<Rightarrow> 'm Conn" where
  "resetConnectionState s = s\<lparr>closed := False, skipReconnect := False, binaryBuf := None\<rparr>"

definition finalizeReconnection :: "'m env \<Rightarrow> 'm Conn \<Rightarrow> 'm Conn" where
  "finalizeReconnection E s =
    (let s = (fire E sioEventTypeReconnect s)\<lparr>state := sioStateOpen\<rparr>;
         s = emit_effect BackoffReset s;
         s = s\<lparr>attemptCount := 0\<rparr>;
         s = emit_opt GoOnReconnected (onReconnected s) s
     in emit_effect GoHeartbeatLoop (emit_effect GoReadLoop s))"

text \<open>The result of \<^verbatim>\<open>ws.DialWebSocket\<close> is an argument: the new connection, or none.\<close>

definition attemptReconnection ::
  "'m env \<Rightarrow> int \<Rightarrow> nat option \<Rightarrow> nat option \<Rightarrow> ctx_read \<Rightarrow> ctx_read \<Rightarrow> 'm Conn \<Rightarrow> bool \<times> 'm Conn" where
  "attemptReconnection E attempt cb dial r1 r2 s =
    (let s = emit_opt (\<lambda>f. GoOnReconnecting f attempt) cb s
     in case dial of
          None \<Rightarrow> handleReconnectFailure s
        | Some c \<Rightarrow>
            (case doHandshake E r1 r2 (resetConnectionState (s\<lparr>conn := Some c\<rparr>)) of
               (Some err, s) \<Rightarrow> handleReconnectFailure (emit_effect (CloseConn c) s)
             | (None, s) \<Rightarrow> (True, finalizeReconnection E s)))"

definition begin_attempt :: "'m Conn \<Rightarrow> 'm Conn" where
  "begin_attempt s = s\<lparr>attemptCount := attemptCount s + 1\<rparr>"

text \<open>
  The reconnection loop over the outcomes of its successive turns: whether the
  sleep ended by the timer, the dialled connection, and the two handshake reads.
  The flag says whether the loop returned.
\<close>

type_synonym turn = "bool \<times> nat option \<times> ctx_read \<times> ctx_read"

fun reconnectLoop :: "'m env \<Rightarrow> turn list \<Rightarrow> 'm Conn \<Rightarrow> bool \<times> 'm Conn" where
  "reconnectLoop E [] s = (False, s)"
| "reconnectLoop E ((timer, dial, r1, r2) # turns) s =
    (if closed s then (True, s)
     else
      (let s = emit_effect BackoffNext s in
       if \<not> timer then (True, s)
       else
        (let s = begin_attempt s in
         case attemptReconnection E (attemptCount s) (onReconnecting s) dial r1 r2 s of
           (True, s) \<Rightarrow> (True, s)
         | (False, s) \<Rightarrow> reconnectLoop E turns s)))"

section \<open>The documented behaviour of the libraries\<close>

text \<open>\<^verbatim>\<open>fsm.Transition\<close> follows the rule for the present state and event; without one it fails and
  the state stays.\<close>

definition fsm_lib :: "'m env \<Rightarrow> bool" where
  "fsm_lib E \<longleftrightarrow> (\<forall>rules a e. Transition E rules a e =
     (case find (\<lambda>(f, ev, t). f = a \<and> ev = e) rules of None \<Rightarrow> a | Some (f, ev, t) \<Rightarrow> t))"

text \<open>\<^verbatim>\<open>generic.Coalesce\<close> returns its first non-zero argument.\<close>

definition coalesce_lib :: "'m env \<Rightarrow> bool" where
  "coalesce_lib E \<longleftrightarrow> (\<forall>a b. CoalesceString E a b = (if a \<noteq> [] then a else b)) \<and>
     (\<forall>a b. CoalesceDuration E a b = (if a \<noteq> 0 then a else b)) \<and>
     (\<forall>a b. CoalesceFloat E a b = (if a \<noteq> 0 then a else b))"

section \<open>Frame conditions\<close>

text \<open>The life cycle of the connection: the part of the state, and the loops started, that reading,
  dispatching and emitting leave alone.\<close>

named_theorems frame \<open>operations that leave the life cycle unchanged\<close>

fun is_loop :: "effect \<Rightarrow> bool" where
  "is_loop GoReadLoop = True"
| "is_loop GoHeartbeatLoop = True"
| "is_loop GoReconnectLoop = True"
| "is_loop e = False"

definition life where
  "life s = (state s, fsm s, attemptCount s, Conn.closed s, skipReconnect s, config s, conn s,
     filter is_loop (trace s))"

lemma life_updates [simp]:
  "life (s\<lparr>sid := a\<rparr>) = life s" "life (s\<lparr>pid := a\<rparr>) = life s" "life (s\<lparr>ackMgr := m\<rparr>) = life s"
  "life (s\<lparr>binaryBuf := b\<rparr>) = life s" "life (s\<lparr>pongCh := p\<rparr>) = life s"
  "life (s\<lparr>pongTokens := q\<rparr>) = life s" "life (s\<lparr>nsEvents := n\<rparr>) = life s"
  "life (s\<lparr>pingInterval := k\<rparr>) = life s"
  by (simp_all add: life_def)

lemma emit_effect_fields [simp]:
  "conn (emit_effect e s) = conn s" "closed (emit_effect e s) = closed s"
  "config (emit_effect e s) = config s" "namespace (emit_effect e s) = namespace s"
  "nsEvents (emit_effect e s) = nsEvents s" "state (emit_effect e s) = state s"
  "fsm (emit_effect e s) = fsm s" "attemptCount (emit_effect e s) = attemptCount s"
  "skipReconnect (emit_effect e s) = skipReconnect s" "binaryBuf (emit_effect e s) = binaryBuf s"
  "onReconnecting (emit_effect e s) = onReconnecting s" "trace (emit_effect e s) = trace s @ [e]"
  "ackMgr (emit_effect e s) = ackMgr s"
  by (simp_all add: emit_effect_def)

lemma emit_opt_fields [simp]:
  "conn (emit_opt f cb s) = conn s" "closed (emit_opt f cb s) = closed s"
  "config (emit_opt f cb s) = config s" "namespace (emit_opt f cb s) = namespace s"
  "nsEvents (emit_opt f cb s) = nsEvents s" "state (emit_opt f cb s) = state s"
  "fsm (emit_opt f cb s) = fsm s" "attemptCount (emit_opt f cb s) = attemptCount s"
  "skipReconnect (emit_opt f cb s) = skipReconnect s" "binaryBuf (emit_opt f cb s) = binaryBuf s"
  "onReconnecting (emit_opt f cb s) = onReconnecting s"
  "trace (emit_opt f cb s) = trace s @ (case cb of None \<Rightarrow> [] | Some c \<Rightarrow> [f c])"
  by (simp_all add: emit_opt_def split: option.split)

lemma life_emit [simp]:
  "\<not> is_loop e \<Longrightarrow> life (emit_effect e s) = life s"
  "(\<And>x. \<not> is_loop (f x)) \<Longrightarrow> life (emit_opt f cb s) = life s"
  by (simp_all add: life_def split: option.split)

text \<open>Emitting and the handshake also leave a reconstruction in progress alone.\<close>

definition still where
  "still s = (life s, binaryBuf s)"

lemma still_updates [simp]:
  "still (s\<lparr>sid := a\<rparr>) = still s" "still (s\<lparr>pid := a\<rparr>) = still s" "still (s\<lparr>ackMgr := m\<rparr>) = still s"
  "still (s\<lparr>sid := a, pingInterval := k\<rparr>) = still s"
  by (simp_all add: still_def)

lemma still_emit [simp]:
  "\<not> is_loop e \<Longrightarrow> still (emit_effect e s) = still s"
  "(\<And>x. \<not> is_loop (f x)) \<Longrightarrow> still (emit_opt f cb s) = still s"
  by (simp_all add: still_def)

lemma still_life: "still s = still t \<Longrightarrow> life s = life t" and still_buf: "still s = still t \<Longrightarrow> binaryBuf s = binaryBuf t"
  by (simp_all add: still_def)

lemma write_still [frame, simp]: "still (snd (writeEIOPacket E t p s)) = still s"
  by (simp add: writeEIOPacket_def Let_def split: option.split)

lemma write_fields [simp]:
  "nsEvents (snd (writeEIOPacket E t p s)) = nsEvents s"
  "binaryBuf (snd (writeEIOPacket E t p s)) = binaryBuf s"
  by (simp_all add: writeEIOPacket_def Let_def split: option.split)

lemma dispatch_life [frame, simp]: "life (dispatchPacket E pkt s) = life s"
  by (simp add: dispatchPacket_def Let_def split: option.split list.split)

lemma dispatch_buf [simp]: "binaryBuf (dispatchPacket E pkt s) = binaryBuf s"
  by (simp add: dispatchPacket_def Let_def split: option.split list.split)

lemma handleAck_life [frame, simp]:
  "life (handleAck E i d s) = life s" "binaryBuf (handleAck E i d s) = binaryBuf s"
  by (simp_all add: handleAck_def split: option.split prod.split)

lemma handleSIOConnect_life [frame, simp]:
  "life (handleSIOConnect E pkt s) = life s" "binaryBuf (handleSIOConnect E pkt s) = binaryBuf s"
  by (simp_all add: handleSIOConnect_def Let_def split: option.split prod.split)

lemma handleSIOPacket_life [frame, simp]: "life (handleSIOPacket E d s) = life s"
  by (simp add: handleSIOPacket_def handleSIOConnectError_def split: sum.split option.split)

lemma dispatchEIOPacket_life [frame, simp]: "life (snd (dispatchEIOPacket E t p s)) = life s"
  by (simp add: dispatchEIOPacket_def Let_def split: option.split prod.split sum.split bool.split)

lemma send_attachments_still [frame, simp]: "still (snd (send_attachments E bufs s)) = still s"
proof (induction bufs arbitrary: s)
  case Nil
  then show ?case by simp
next
  case (Cons b bufs)
  obtain e s' where w: "writeEIOPacket E eioBinary b s = (e, s')" by (cases "writeEIOPacket E eioBinary b s")
  have "still s' = still s" using write_still [of E eioBinary b s] w by simp
  with Cons [of s'] w show ?case by (simp split: option.split)
qed

lemma register_still [frame, simp]: "still (snd (register_opt E f s)) = still s"
  by (simp add: register_opt_def registerAckJob_def split: option.split prod.split)

lemma still_result:
  "writeEIOPacket E t p s = (e, s') \<Longrightarrow> still s' = still s"
  "send_attachments E bufs s = (e, s') \<Longrightarrow> still s' = still s"
  "register_opt E f s = (i, s') \<Longrightarrow> still s' = still s"
  using write_still [of E t p s] send_attachments_still [of E bufs s] register_still [of E f s] by simp_all

lemma emitBinaryNS_still [frame, simp]: "still (snd (emitBinaryNS E nsp d f s)) = still s"
  by (auto simp: emitBinaryNS_def split: prod.split option.split dest!: still_result)

lemma emitNS_still [frame, simp]: "still (snd (emitNS E nsp ev args s)) = still s"
  by (auto simp: emitNS_def Let_def split: prod.split option.split dest!: still_result)

lemma sendConnect_still [frame, simp]: "still (snd (sendConnect E s)) = still s"
  by (simp add: sendConnect_def Let_def split: option.split any.split)

lemma handshake_reads_still [frame, simp]:
  "still (snd (readAndParseEIOOpen E r c s)) = still s"
  "still (snd (readAndParseSIOConnect E r c s)) = still s"
  by (simp_all add: readAndParseEIOOpen_def readAndParseSIOConnect_def readEIOPacketCtx_def
      split: ctx_read.split sum.split prod.split option.split)

lemma handshake_result:
  "readAndParseEIOOpen E r c s = (e, s') \<Longrightarrow> still s' = still s"
  "sendConnect E s = (e, s') \<Longrightarrow> still s' = still s"
  "readAndParseSIOConnect E r c s = (e, s') \<Longrightarrow> still s' = still s"
  using handshake_reads_still [of E r c s] sendConnect_still [of E s] by simp_all

lemma doHandshake_still [frame, simp]: "still (snd (doHandshake E r1 r2 s)) = still s"
  by (auto simp: doHandshake_def split: option.split prod.split dest!: handshake_result)

section \<open>Receiving a binary event\<close>

definition deliver :: "'m env \<Rightarrow> binaryReconstructor \<Rightarrow> 'm Conn \<Rightarrow> 'm Conn" where
  "deliver E br s =
    (case reconstruct (unmarshalArgs E) (unmarshalAny E) (marshal E) br of
       Inl err \<Rightarrow> s | Inr pkt \<Rightarrow> dispatchPacket E pkt s)"

definition frame_ok :: "bytes \<Rightarrow> bool" where
  "frame_ok b \<longleftrightarrow> b \<noteq> [] \<and> length b \<le> maxEIOPacketSize"

lemma addBuffer_within:
  assumes "sum_list (map length (br_buffers br @ [b])) \<le> maxBinaryBufferSize"
  shows "addBuffer br b = (int (Suc (length (br_buffers br))) \<ge> br_attachments br,
           br\<lparr>br_buffers := br_buffers br @ [b]\<rparr>)"
  using assms by (auto simp: addBuffer_def Let_def exceeds_loop_iff)

lemma read_binary_frame:
  assumes "conn s = Some c" and "frame_ok b"
  shows "readLoop E (Some (FrameBinary, b) # rs) s =
    readLoop E rs (snd (dispatchEIOPacket E eioBinary b s))"
  using assms
  by (auto simp: readEIOPacket_def readSingleEIOPacket_def frame_ok_def dispatchEIOPacket_def Let_def)

lemma read_text_frame:
  assumes "conn s = Some c" and "length d < maxEIOPacketSize" and "t \<noteq> eioClose"
  shows "readLoop E (Some (FrameText, t # d) # rs) s =
    readLoop E rs (snd (dispatchEIOPacket E t d s))"
  using assms
  by (auto simp: readEIOPacket_def readSingleEIOPacket_def dispatchEIOPacket_def Let_def)

lemma attachments_collected:
  assumes "conn s = Some c" and "binaryBuf s = Some br" and "bufs \<noteq> []"
    and "br_attachments br = int (length (br_buffers br) + length bufs)"
    and "list_all frame_ok bufs"
    and "sum_list (map length (br_buffers br @ bufs)) \<le> maxBinaryBufferSize"
  shows "readLoop E (map (\<lambda>b. Some (FrameBinary, b)) bufs) s =
    (False, deliver E (br\<lparr>br_buffers := br_buffers br @ bufs\<rparr>) (s\<lparr>binaryBuf := None\<rparr>))"
  using assms
proof (induction bufs arbitrary: s br)
  case Nil
  then show ?case by simp
next
  case (Cons b bufs)
  define br' where "br' = br\<lparr>br_buffers := br_buffers br @ [b]\<rparr>"
  have add: "addBuffer br b = (bufs = [], br')"
    using Cons.prems addBuffer_within [of br b] by (cases bufs) (auto simp: br'_def)
  have step: "readLoop E (map (\<lambda>b. Some (FrameBinary, b)) (b # bufs)) s =
      readLoop E (map (\<lambda>b. Some (FrameBinary, b)) bufs) (snd (dispatchEIOPacket E eioBinary b s))"
    unfolding list.map using Cons.prems by (intro read_binary_frame [of _ c]) auto
  show ?case
  proof (cases "bufs = []")
    case True
    then show ?thesis
      using step add Cons.prems(2) by (simp add: dispatchEIOPacket_def Let_def deliver_def br'_def)
  next
    case False
    then have d: "snd (dispatchEIOPacket E eioBinary b s) = s\<lparr>binaryBuf := Some br'\<rparr>"
      using add Cons.prems(2) by (simp add: dispatchEIOPacket_def)
    have "readLoop E (map (\<lambda>b. Some (FrameBinary, b)) bufs) (s\<lparr>binaryBuf := Some br'\<rparr>) =
      (False, deliver E (br'\<lparr>br_buffers := br_buffers br' @ bufs\<rparr>) (s\<lparr>binaryBuf := Some br', binaryBuf := None\<rparr>))"
      using Cons.prems False by (intro Cons.IH) (auto simp: br'_def)
    then show ?thesis using step d by (simp add: br'_def)
  qed
qed

lemma binary_header_read:
  assumes "conn s = Some c" and "wf_packet p" and "pkt_Type p = sioBinaryEvent \<or> pkt_Type p = sioBinaryAck"
    and "length (encodeSIOPacket p) < maxEIOPacketSize"
  shows "readLoop E (Some (FrameText, eioMessage # encodeSIOPacket p) # rs) s =
    readLoop E rs (s\<lparr>binaryBuf := Some \<lparr>br_attachments = pkt_Attachments p, br_buffers = [],
       br_packet = canonical_packet p\<rparr>\<rparr>)"
proof -
  have "encodeSIOPacket p \<noteq> []" by (simp add: encodeSIOPacket_def)
  moreover have "pkt_Attachments p \<le> 64" using assms(2,3) by (auto simp: wf_packet_def)
  ultimately have "snd (dispatchEIOPacket E eioMessage (encodeSIOPacket p) s) =
      s\<lparr>binaryBuf := Some \<lparr>br_attachments = pkt_Attachments p, br_buffers = [],
         br_packet = canonical_packet p\<rparr>\<rparr>"
    using assms(3) decode_encode [OF assms(2)]
    by (auto simp: dispatchEIOPacket_def handleSIOPacket_def canonical_packet_def newBinaryReconstructor_def)
  moreover have "readLoop E (Some (FrameText, eioMessage # encodeSIOPacket p) # rs) s =
      readLoop E rs (snd (dispatchEIOPacket E eioMessage (encodeSIOPacket p) s))"
    using assms(1,4) by (intro read_text_frame [of _ c]) auto
  ultimately show ?thesis by (simp only:)
qed

lemma binary_event_delivered:
  assumes "conn s = Some c" and "wf_packet p" and "pkt_Type p = sioBinaryEvent \<or> pkt_Type p = sioBinaryAck"
    and "length (encodeSIOPacket p) < maxEIOPacketSize"
    and "pkt_Attachments p = int (length bufs)" and "bufs \<noteq> []" and "list_all frame_ok bufs"
    and "sum_list (map length bufs) \<le> maxBinaryBufferSize"
  shows "readLoop E (Some (FrameText, eioMessage # encodeSIOPacket p) # map (\<lambda>b. Some (FrameBinary, b)) bufs) s =
    (False, deliver E \<lparr>br_attachments = int (length bufs), br_buffers = bufs, br_packet = canonical_packet p\<rparr>
       (s\<lparr>binaryBuf := None\<rparr>))"
  unfolding binary_header_read [OF assms(1-4)] using assms
  by (subst attachments_collected) auto

section \<open>Emitting\<close>

text \<open>The frames an operation wrote to connection \<open>c\<close>, as the peer reads them.\<close>

fun frames_to :: "nat \<Rightarrow> effect list \<Rightarrow> (frame_kind \<times> bytes) list" where
  "frames_to c [] = []"
| "frames_to c (WriteMessage d k b # es) = (if d = c then (k, b) # frames_to c es else frames_to c es)"
| "frames_to c (e # es) = frames_to c es"

lemma frames_to_append [simp]: "frames_to c (xs @ ys) = frames_to c xs @ frames_to c ys"
  by (induction c xs rule: frames_to.induct) auto

lemma write_trace:
  assumes "conn s = Some c" and "writeEIOPacket E t p s = (None, s')"
  shows "conn s' = Some c \<and> frames_to c (trace s') = frames_to c (trace s) @
    [if t = eioBinary then (FrameBinary, p) else (FrameText, t # p)]"
  using assms by (auto simp: writeEIOPacket_def Let_def split: if_splits)

lemma attachments_trace:
  assumes "conn s = Some c" and "send_attachments E bufs s = (None, s')"
  shows "frames_to c (trace s') = frames_to c (trace s) @ map (\<lambda>b. (FrameBinary, b)) bufs"
  using assms
proof (induction bufs arbitrary: s)
  case Nil
  then show ?case by simp
next
  case (Cons b bufs)
  then obtain s1 where w: "writeEIOPacket E eioBinary b s = (None, s1)"
    and r: "send_attachments E bufs s1 = (None, s')" by (auto split: prod.splits option.splits)
  show ?case using write_trace [OF Cons.prems(1) w] Cons.IH [of s1] r by simp
qed

lemma register_trace:
  "register_opt E f s = (i, s') \<Longrightarrow> trace s' = trace s \<and> conn s' = conn s"
  by (auto simp: register_opt_def registerAckJob_def split: option.splits prod.splits)

lemma emitBinary_trace:
  assumes "conn s = Some c" and "emitBinaryNS E nsp data f s = (None, s')"
    and "deconstructBinary data = (dec, bufs)"
  shows "\<exists>jd i. marshal E dec = Some jd \<and> i = fst (register_opt E f s) \<and>
    frames_to c (trace s') = frames_to c (trace s) @
      (FrameText, eioMessage # encodeSIOPacket \<lparr>pkt_Type = sioBinaryEvent, pkt_Namespace = nsp, pkt_ID = i,
         pkt_Attachments = int (length bufs), pkt_Data = Some jd\<rparr>) # map (\<lambda>b. (FrameBinary, b)) bufs"
proof -
  from assms(2,3) obtain jd i s1 s2 where jd: "marshal E dec = Some jd"
    and r: "register_opt E f s = (i, s1)"
    and w: "writeEIOPacket E eioMessage (encodeSIOPacket \<lparr>pkt_Type = sioBinaryEvent, pkt_Namespace = nsp,
         pkt_ID = i, pkt_Attachments = int (length bufs), pkt_Data = Some jd\<rparr>) s1 = (None, s2)"
    and a: "send_attachments E bufs s2 = (None, s')"
    by (auto simp: emitBinaryNS_def split: prod.splits option.splits)
  have "conn s1 = Some c" using register_trace [OF r] assms(1) by simp
  then show ?thesis
    using jd r write_trace [OF _ w] register_trace [OF r] attachments_trace [OF _ a] by simp
qed

lemma reconstruct_args_ok:
  "map (unmarshalAny E) raws = map Some vs \<Longrightarrow>
    reconstruct_args (unmarshalAny E) bufs raws = Inr (map (\<lambda>v. reconstructBinary v bufs) vs)"
  by (induction raws arbitrary: vs) auto

text \<open>
  The packet a binary emit sends, and the conditions under which the peer can read
  it: within the limits of the decoder, JSON text that reads back as the value
  written (numbers as floating-point numbers).
\<close>

definition binary_packet :: "bytes \<Rightarrow> int option \<Rightarrow> bytes list \<Rightarrow> bytes \<Rightarrow> sioPacket" where
  "binary_packet nsp ident bufs jd =
    \<lparr>pkt_Type = sioBinaryEvent, pkt_Namespace = nsp, pkt_ID = ident,
     pkt_Attachments = int (length bufs), pkt_Data = Some jd\<rparr>"

definition event_packet :: "bytes \<Rightarrow> int option \<Rightarrow> bytes option \<Rightarrow> sioPacket" where
  "event_packet nsp ident jd =
    \<lparr>pkt_Type = sioEvent, pkt_Namespace = nsp, pkt_ID = ident, pkt_Attachments = 0, pkt_Data = jd\<rparr>"

definition attachments_ok :: "bytes list \<Rightarrow> bool" where
  "attachments_ok bufs \<longleftrightarrow> bufs \<noteq> [] \<and> list_all frame_ok bufs \<and>
     sum_list (map length bufs) \<le> maxBinaryBufferSize"

definition reads_back :: "'m env \<Rightarrow> any list \<Rightarrow> bytes \<Rightarrow> bool" where
  "reads_back E vs jd \<longleftrightarrow> (\<exists>raws. unmarshalArgs E jd = Some raws \<and>
     map (unmarshalAny E) raws = map (\<lambda>v. Some (renumber (\<lambda>n. VFloat (of_int n)) v)) vs)"

lemma deconstruct_slice:
  "\<exists>ds. fst (deconstructBinary (VSlice vs)) = VSlice ds"
  by (auto simp: deconstructBinary_def split: prod.splits)

lemma reconstruct_emitted:
  assumes "list_all no_placeholder vs" and "deconstructBinary (VSlice vs) = (VSlice ds, bufs)"
    and "reads_back E ds jd" and "pkt_Data p = Some jd"
  shows "reconstruct (unmarshalArgs E) (unmarshalAny E) (marshal E)
      \<lparr>br_attachments = int (length bufs), br_buffers = bufs, br_packet = p\<rparr> =
    Inr (p\<lparr>pkt_Data := marshal E (VSlice (map (renumber (\<lambda>n. VFloat (of_int n))) vs)), pkt_Type := sioEvent\<rparr>)"
proof -
  let ?f = "\<lambda>n. VFloat (of_int n)"
  obtain raws where r: "unmarshalArgs E jd = Some raws"
    "map (unmarshalAny E) raws = map Some (map (renumber ?f) ds)"
    using assms(3) by (auto simp: reads_back_def comp_def)
  have "no_placeholder (VSlice vs)" using assms(1) by simp
  from reconstruct_deconstruct(1) [OF _ this, of ?f "[]" "[]"] assms(2)
  have "map (\<lambda>v. reconstructBinary v bufs) (map (renumber ?f) ds) = map (renumber ?f) vs"
    by (simp add: deconstructBinary_def comp_def)
  then show ?thesis
    using r(1) assms(4) reconstruct_args_ok [OF r(2), of bufs] by (simp add: reconstruct_def)
qed

lemma emitNS_binary:
  assumes "emitNS E nsp ev args s = (None, s')" and "extractAckCallback args = (vs, cb)"
    and "hasBinary (unmarshalAny E) (VSlice (VStr ev # vs))"
  shows "emitBinaryNS E nsp (VSlice (VStr ev # vs)) cb s = (None, s')"
  using assms by (auto simp: emitNS_def assertOpen_def Let_def split: if_splits)


section \<open>Routing\<close>

definition handler_at :: "bytes \<times> bytes \<Rightarrow> 'm Conn \<Rightarrow> handler option" where
  "handler_at k s = (case nsEvents s (fst k) of None \<Rightarrow> None | Some m \<Rightarrow> m (snd k))"

interpretation nsp_handlers: registry "\<lambda>k. snd k \<noteq> []" handler_at
  "\<lambda>k h. setNamespaceHandler (fst k) (snd k) (Some h)"
  by unfold_locales (auto simp: handler_at_def setNamespaceHandler_def Let_def prod_eq_iff split: option.split)

lemma dispatch_trace:
  assumes "unmarshal_data E (pkt_Data p) = Some (name # args)" and "unmarshalString E name = Some ev"
    and "nsp = CoalesceString E (pkt_Namespace p) (namespace s)"
  shows "trace (dispatchPacket E p s) = trace s
    @ (case handler_at (nsp, ev) s of None \<Rightarrow> [] | Some h \<Rightarrow> [GoHandler h args])
    @ (case handler_at (nsp, ''*'') s of None \<Rightarrow> [] | Some h \<Rightarrow> [GoHandler h (name # args)])"
  using assms by (auto simp: dispatchPacket_def Let_def handler_at_def split: option.split)

section \<open>The running client\<close>

text \<open>
  The goroutines of a client: read loops (a number), reconnection loops and
  heartbeat loops, each at one of the points where it waits.  A step is one
  goroutine running from one waiting point to the next, or a call of the user; the
  goroutines an operation starts are the \<open>Go\<dots>\<close> effects it appends to the trace.
\<close>

datatype loop_pc = LTop | LSleep | LDial

datatype heart_pc = HWait | HPing nat

record 'm sys =
  sys_conn :: "'m Conn"
  readers :: nat
  loops :: "loop_pc list"
  hearts :: "heart_pc list"
  next_ch :: nat

datatype user_op =
    UserEmit bytes bytes "any list"
  | UserVolatile bytes bytes "any list"
  | UserClose
  | UserOn bytes bytes "handler option"
  | UserOnClose nat
  | UserOnReconnecting nat
  | UserOnReconnected nat
  | UserOnReconnectFailed nat

fun run_user :: "'m env \<Rightarrow> user_op \<Rightarrow> 'm Conn \<Rightarrow> 'm Conn" where
  "run_user E (UserEmit nsp ev args) s = snd (emitNS E nsp ev args s)"
| "run_user E (UserVolatile nsp ev args) s = snd (emitVolatileNS E nsp ev args s)"
| "run_user E UserClose s = Close E s"
| "run_user E (UserOn nsp ev h) s = setNamespaceHandler nsp ev h s"
| "run_user E (UserOnClose h) s = OnClose h s"
| "run_user E (UserOnReconnecting h) s = OnReconnecting h s"
| "run_user E (UserOnReconnected h) s = OnReconnected h s"
| "run_user E (UserOnReconnectFailed h) s = OnReconnectFailed h s"

definition started :: "effect \<Rightarrow> 'm Conn \<Rightarrow> 'm Conn \<Rightarrow> nat" where
  "started e c c' = count_list (trace c') e - count_list (trace c) e"

definition become :: "'m Conn \<Rightarrow> 'm sys \<Rightarrow> 'm sys" where
  "become c' s = s\<lparr>sys_conn := c',
     readers := readers s + started GoReadLoop (sys_conn s) c',
     loops := loops s @ replicate (started GoReconnectLoop (sys_conn s) c') LTop,
     hearts := hearts s @ replicate (started GoHeartbeatLoop (sys_conn s) c') HWait\<rparr>"

inductive sio_step :: "'m env \<Rightarrow> 'm sys \<Rightarrow> 'm sys \<Rightarrow> bool" for E :: "'m env" where
  Read_next: "readers s > 0 \<Longrightarrow> readEIOPacket m (sys_conn s) = Inr (t, p) \<Longrightarrow>
     dispatchEIOPacket E t p (sys_conn s) = (False, c) \<Longrightarrow> sio_step E s (become c s)"
| Read_error: "readers s > 0 \<Longrightarrow> readEIOPacket m (sys_conn s) = Inl e \<Longrightarrow>
     cleanupConnection E (sys_conn s) = (again, c) \<Longrightarrow>
     sio_step E s (become c (s\<lparr>readers := readers s - 1\<rparr>))"
| Read_close: "readers s > 0 \<Longrightarrow> readEIOPacket m (sys_conn s) = Inr (t, p) \<Longrightarrow>
     dispatchEIOPacket E t p (sys_conn s) = (True, c) \<Longrightarrow> cleanupConnection E c = (again, c') \<Longrightarrow>
     sio_step E s (become c' (s\<lparr>readers := readers s - 1\<rparr>))"
| Loop_closed: "loops s = pre @ pc # post \<Longrightarrow> pc = LTop \<or> pc = LSleep \<Longrightarrow> Conn.closed (sys_conn s) \<Longrightarrow>
     sio_step E s (s\<lparr>loops := pre @ post\<rparr>)"
| Loop_sleep: "loops s = pre @ LTop # post \<Longrightarrow> \<not> Conn.closed (sys_conn s) \<Longrightarrow>
     sio_step E s (become (emit_effect BackoffNext (sys_conn s)) (s\<lparr>loops := pre @ LSleep # post\<rparr>))"
| Loop_timer: "loops s = pre @ LSleep # post \<Longrightarrow>
     sio_step E s (become (begin_attempt (sys_conn s)) (s\<lparr>loops := pre @ LDial # post\<rparr>))"
| Loop_attempt: "loops s = pre @ LDial # post \<Longrightarrow>
     attemptReconnection E (attemptCount (sys_conn s)) (onReconnecting (sys_conn s)) dial r1 r2 (sys_conn s)
       = (finished, c) \<Longrightarrow>
     sio_step E s (become c (s\<lparr>loops := (if finished then pre @ post else pre @ LTop # post)\<rparr>))"
| Heart_closed: "hearts s = pre @ h # post \<Longrightarrow> Conn.closed (sys_conn s) \<Longrightarrow>
     sio_step E s (s\<lparr>hearts := pre @ post\<rparr>)"
| Heart_tick: "hearts s = pre @ HWait # post \<Longrightarrow>
     heartbeat_tick E (next_ch s) (sys_conn s) = (err, c) \<Longrightarrow>
     sio_step E s (become c (s\<lparr>next_ch := Suc (next_ch s),
       hearts := (if err = None then pre @ HPing (next_ch s) # post else pre @ post)\<rparr>))"
| Heart_pong: "hearts s = pre @ HPing ch # post \<Longrightarrow> heartbeat_pong ch (sys_conn s) = Some c \<Longrightarrow>
     sio_step E s (become c (s\<lparr>hearts := pre @ HWait # post\<rparr>))"
| Heart_timeout: "hearts s = pre @ HPing ch # post \<Longrightarrow>
     sio_step E s (become (heartbeat_timeout (sys_conn s)) (s\<lparr>hearts := pre @ post\<rparr>))"
| User: "sio_step E s (become (run_user E op (sys_conn s)) s)"

inductive_cases sio_stepE: "sio_step E s t"

definition sio_init :: "'m env \<Rightarrow> 'm sys \<Rightarrow> bool" where
  "sio_init E s \<longleftrightarrow> (\<exists>c cfg mgr r1 r2. NewSocketIOConn E c cfg mgr r1 r2 = (None, sys_conn s)) \<and>
     readers s = 1 \<and> loops s = [] \<and> hearts s = [HWait]"

section \<open>The invariant of the running client\<close>

definition buf_ok :: "binaryReconstructor option \<Rightarrow> bool" where
  "buf_ok b \<longleftrightarrow> (case b of None \<Rightarrow> True | Some br \<Rightarrow>
     0 \<le> br_attachments br \<and> br_attachments br \<le> 64 \<and>
     sum_list (map length (br_buffers br)) \<le> maxBinaryBufferSize \<and>
     (br_buffers br = [] \<or> int (length (br_buffers br)) < br_attachments br))"

definition attempts_ok :: "int \<Rightarrow> int \<Rightarrow> loop_pc list \<Rightarrow> bool" where
  "attempts_ok limit n pcs \<longleftrightarrow> 0 \<le> n \<and> (0 < limit \<longrightarrow> n \<le> limit \<and> (LTop \<in> set pcs \<or> LSleep \<in> set pcs \<longrightarrow> n < limit))"

definition life_ok :: "'m Conn \<Rightarrow> nat \<Rightarrow> loop_pc list \<Rightarrow> bool" where
  "life_ok c rs pcs \<longleftrightarrow> fsm c = state c \<and> (state c = sioStateOpen \<longleftrightarrow> rs = 1) \<and> state c \<noteq> sioStateOpening \<and>
     rs + length pcs \<le> 1 \<and> (rs = 1 \<longrightarrow> attemptCount c = 0) \<and>
     attempts_ok (ReconnectionAttempts (config c)) (attemptCount c) pcs"

definition sio_inv :: "'m sys \<Rightarrow> bool" where
  "sio_inv s \<longleftrightarrow> life_ok (sys_conn s) (readers s) (loops s) \<and> buf_ok (binaryBuf (sys_conn s))"

lemma life_ok_cong: "life c' = life c \<Longrightarrow> life_ok c' = life_ok c"
  by (auto simp: life_def life_ok_def fun_eq_iff)

lemma count_loops: "is_loop e \<Longrightarrow> count_list (trace c) e = count_list (filter is_loop (trace c)) e"
  by (simp add: count_list_eq_length_filter conj_commute) (metis (mono_tags, lifting))

lemma started_quiet:
  assumes "life c' = life c" and "is_loop e"
  shows "started e c c' = 0"
  using assms count_loops [of e c] count_loops [of e c'] by (simp add: started_def life_def)

lemma become_quiet:
  "life c = life (sys_conn s) \<Longrightarrow> become c s = s\<lparr>sys_conn := c\<rparr>"
  by (simp add: become_def started_quiet)

lemma sio_inv_quiet:
  assumes "sio_inv s" and "life c = life (sys_conn s)" and "buf_ok (binaryBuf c)"
    and "loops s = loops t" and "readers s = readers t" and "sys_conn s = sys_conn t"
  shows "sio_inv (become c t)"
  using assms life_ok_cong [OF assms(2)] by (simp add: sio_inv_def become_quiet)

lemma addBuffer_ok:
  assumes "addBuffer br b = (False, br')" and "buf_ok (Some br)"
  shows "buf_ok (Some br')"
  using assms by (auto simp: addBuffer_def Let_def exceeds_loop_iff buf_ok_def split: if_splits)

lemma handleSIOPacket_buf: "buf_ok (binaryBuf s) \<Longrightarrow> buf_ok (binaryBuf (handleSIOPacket E d s))"
  using sio_decode_range [of d]
  by (auto simp: handleSIOPacket_def handleSIOConnectError_def newBinaryReconstructor_def Let_def
      buf_ok_def split: sum.split option.split)

lemma dispatchEIOPacket_buf:
  "buf_ok (binaryBuf s) \<Longrightarrow> buf_ok (binaryBuf (snd (dispatchEIOPacket E t p s)))"
  using handleSIOPacket_buf [of s E p]
  by (auto simp: dispatchEIOPacket_def Let_def buf_ok_def [of None] dest: addBuffer_ok
      split: option.split prod.split sum.split bool.split)

lemma started_from: "life c = life d \<Longrightarrow> is_loop e \<Longrightarrow> started e d c' = started e c c'"
  using count_loops [of e c] count_loops [of e d] by (simp add: started_def life_def)

lemma fsm_table:
  assumes "fsm_lib E"
  shows "Transition E initFSM sioStateOpen sioEventTypeClose = sioStateClosed"
    and "Transition E initFSM sioStateClosed sioEventTypeReconnect = sioStateOpen"
    and "Transition E initFSM sioStateClosed sioEventTypeOpen = sioStateOpen"
  using assms by (simp_all add: fsm_lib_def initFSM_def)

lemma cleanup_effect:
  assumes "fsm_lib E" and "fsm c = sioStateOpen" and "cleanupConnection E c = (again, c')"
  shows "state c' = sioStateClosed" "fsm c' = sioStateClosed" "attemptCount c' = attemptCount c"
    "config c' = config c" "binaryBuf c' = binaryBuf c" "started GoReadLoop c c' = 0"
    "started GoReconnectLoop c c' = (if again then 1 else 0)" "again \<longrightarrow> Reconnection (config c)"
  using assms(2,3) fsm_table(1) [OF assms(1)]
  by (auto simp: cleanupConnection_def Let_def fire_def started_def split: if_splits option.splits)

lemma reconnect_failure_effect:
  assumes "handleReconnectFailure c = (fin, c')"
  shows "life c' = life c \<and> binaryBuf c' = binaryBuf c \<and>
    (fin \<longleftrightarrow> ReconnectionAttempts (config c) > 0 \<and> attemptCount c \<ge> ReconnectionAttempts (config c))"
  using assms by (auto simp: handleReconnectFailure_def split: if_splits)

lemma finalize_effect:
  assumes "fsm_lib E" and "fsm c = sioStateClosed"
  shows "state (finalizeReconnection E c) = sioStateOpen" "fsm (finalizeReconnection E c) = sioStateOpen"
    "attemptCount (finalizeReconnection E c) = 0" "config (finalizeReconnection E c) = config c"
    "binaryBuf (finalizeReconnection E c) = binaryBuf c"
    "started GoReadLoop c (finalizeReconnection E c) = 1"
    "started GoReconnectLoop c (finalizeReconnection E c) = 0"
  using assms(2) fsm_table(2) [OF assms(1)]
  by (auto simp: finalizeReconnection_def Let_def fire_def started_def split: option.splits)

text \<open>What one reconnection attempt can do: connect, or fail with the count of attempts unchanged.\<close>

lemma attempt_effect:
  assumes "fsm_lib E" and "fsm c = sioStateClosed" and "state c = sioStateClosed"
    and "attemptReconnection E n cb dial r1 r2 c = (fin, c')"
  obtains (connected) "fin" "state c' = sioStateOpen" "fsm c' = sioStateOpen" "attemptCount c' = 0"
      "config c' = config c" "binaryBuf c' = None" "started GoReadLoop c c' = 1" "started GoReconnectLoop c c' = 0"
    | (failed) "state c' = sioStateClosed" "fsm c' = sioStateClosed" "attemptCount c' = attemptCount c"
      "config c' = config c" "binaryBuf c' = binaryBuf c \<or> binaryBuf c' = None"
      "started GoReadLoop c c' = 0" "started GoReconnectLoop c c' = 0"
      "fin \<longleftrightarrow> ReconnectionAttempts (config c) > 0 \<and> attemptCount c \<ge> ReconnectionAttempts (config c)"
proof -
  define c1 where "c1 = emit_opt (\<lambda>f. GoOnReconnecting f n) cb c"
  have c1: "life c1 = life c" "binaryBuf c1 = binaryBuf c" by (simp_all add: c1_def)
  show thesis
  proof (cases dial)
    case None
    then have "handleReconnectFailure c1 = (fin, c')"
      using assms(4) by (simp add: attemptReconnection_def c1_def)
    from reconnect_failure_effect [OF this] c1 assms(2,3) have l: "life c' = life c"
      and "binaryBuf c' = binaryBuf c"
      and "fin \<longleftrightarrow> ReconnectionAttempts (config c) > 0 \<and> attemptCount c \<ge> ReconnectionAttempts (config c)"
      by (auto simp: life_def)
    with assms(2,3) show thesis
      by (intro failed) (auto simp: life_def started_quiet [OF l])
  next
    case (Some k)
    define c2 where "c2 = resetConnectionState (c1\<lparr>conn := Some k\<rparr>)"
    have c2: "state c2 = sioStateClosed" "fsm c2 = sioStateClosed" "attemptCount c2 = attemptCount c"
      "config c2 = config c" "binaryBuf c2 = None" "trace c2 = trace c1"
      using assms(2,3) by (simp_all add: c2_def c1_def resetConnectionState_def)
    obtain err c3 where h: "doHandshake E r1 r2 c2 = (err, c3)" by (cases "doHandshake E r1 r2 c2")
    then have c3: "life c3 = life c2" "binaryBuf c3 = None"
      using doHandshake_still [of E r1 r2 c2] c2(5) by (auto dest: still_life still_buf)
    have tr: "is_loop e \<Longrightarrow> started e c d = started e c3 d" for e d
      using c3 c1 c2(6) count_loops [of e c] count_loops [of e c3] by (simp add: started_def life_def)
    have a: "(case err of Some err \<Rightarrow> handleReconnectFailure (emit_effect (CloseConn k) c3)
        | None \<Rightarrow> (True, finalizeReconnection E c3)) = (fin, c')"
      using assms(4) h Some by (cases err) (auto simp: attemptReconnection_def c1_def c2_def)
    show thesis
    proof (cases err)
      case None
      with a have "fin" and c': "c' = finalizeReconnection E c3" by simp_all
      moreover have "fsm c3 = sioStateClosed" using c3(1) c2 by (simp add: life_def)
      ultimately show thesis
        using finalize_effect [OF assms(1)] c3 c2 by (intro connected) (auto simp: tr life_def)
    next
      case (Some e)
      with a have f: "handleReconnectFailure (emit_effect (CloseConn k) c3) = (fin, c')" by simp
      from reconnect_failure_effect [OF this] c3 have l: "life c' = life c3" "binaryBuf c' = None"
        and fin: "fin \<longleftrightarrow> ReconnectionAttempts (config c3) > 0 \<and> attemptCount c3 \<ge> ReconnectionAttempts (config c3)"
        by simp_all
      show thesis
        using l c3(1) c2 fin by (intro failed) (auto simp: tr life_def started_quiet [OF l(1)])
    qed
  qed
qed

lemma one_element: "xs = pre @ x # post \<Longrightarrow> length xs \<le> 1 \<Longrightarrow> pre = [] \<and> post = []"
  by simp

lemma loop_facts:
  assumes "sio_inv s" and "loops s = pre @ pc # post"
  shows "pre = []" "post = []" "readers s = 0" "state (sys_conn s) = sioStateClosed"
    "fsm (sys_conn s) = sioStateClosed"
  using assms by (cases "state (sys_conn s)"; auto simp: sio_inv_def life_ok_def)+

lemma reader_facts:
  assumes "sio_inv s" and "readers s > 0"
  shows "readers s = 1" "loops s = []" "state (sys_conn s) = sioStateOpen" "fsm (sys_conn s) = sioStateOpen"
    "attemptCount (sys_conn s) = 0"
  using assms by (auto simp: sio_inv_def life_ok_def)

lemma sio_inv_cleanup:
  assumes "fsm_lib E" and "sio_inv s" and "readers s > 0" and "life c = life (sys_conn s)"
    and "buf_ok (binaryBuf c)" and "cleanupConnection E c = (again, c')"
  shows "sio_inv (become c' (s\<lparr>readers := readers s - 1\<rparr>))"
proof -
  have f: "fsm c = sioStateOpen" "attemptCount c = 0"
    using reader_facts [OF assms(2,3)] assms(4) by (auto simp: life_def)
  show ?thesis
    using cleanup_effect [OF assms(1) f(1) assms(6)] reader_facts [OF assms(2,3)] assms(5) f(2)
    by (auto simp: sio_inv_def life_ok_def become_def started_from [OF assms(4)] attempts_ok_def)
qed

lemma sio_inv_attempt:
  assumes "fsm_lib E" and "sio_inv s" and "loops s = pre @ LDial # post"
    and "attemptReconnection E (attemptCount (sys_conn s)) (onReconnecting (sys_conn s)) dial r1 r2 (sys_conn s)
       = (finished, c)"
  shows "sio_inv (become c (s\<lparr>loops := (if finished then pre @ post else pre @ LTop # post)\<rparr>))"
proof (rule attempt_effect [OF assms(1) loop_facts(5,4) [OF assms(2,3)] assms(4)], goal_cases)
  case 1
  then show ?thesis
    using loop_facts [OF assms(2,3)]
    by (auto simp: sio_inv_def life_ok_def become_def attempts_ok_def buf_ok_def)
next
  case 2
  then show ?thesis
    using loop_facts [OF assms(2,3)] assms(2,3)
    by (auto simp: sio_inv_def life_ok_def become_def attempts_ok_def buf_ok_def)
qed

lemma sio_inv_begin:
  assumes "sio_inv s" and "loops s = pre @ LSleep # post"
  shows "sio_inv (become (begin_attempt (sys_conn s)) (s\<lparr>loops := pre @ LDial # post\<rparr>))"
  using loop_facts [OF assms] assms
  by (auto simp: sio_inv_def life_ok_def become_def begin_attempt_def started_def attempts_ok_def)

text \<open>Closing, a missed pong and the registration of callbacks do not move the state machine.\<close>

lemma sio_inv_same:
  assumes "sio_inv s" and "state c = state (sys_conn s)" and "fsm c = fsm (sys_conn s)"
    and "attemptCount c = attemptCount (sys_conn s)" and "config c = config (sys_conn s)"
    and "binaryBuf c = binaryBuf (sys_conn s)"
    and "filter is_loop (trace c) = filter is_loop (trace (sys_conn s))"
    and "loops s = loops t" and "readers s = readers t" and "sys_conn s = sys_conn t"
  shows "sio_inv (become c t)"
proof -
  have "started e (sys_conn t) c = 0" if "is_loop e" for e
    using that assms(7,10) count_loops [of e c] count_loops [of e "sys_conn s"] by (simp add: started_def)
  then show ?thesis using assms by (simp add: sio_inv_def life_ok_def become_def)
qed

lemma Close_same:
  "state (Close E c) = state c \<and> fsm (Close E c) = fsm c \<and> attemptCount (Close E c) = attemptCount c \<and>
   config (Close E c) = config c \<and> binaryBuf (Close E c) = binaryBuf c \<and>
   filter is_loop (trace (Close E c)) = filter is_loop (trace c)"
  by (simp add: Close_def Let_def writeEIOPacket_def split: option.split)

lemma heartbeat_timeout_same:
  "state (heartbeat_timeout c) = state c \<and> fsm (heartbeat_timeout c) = fsm c \<and>
   attemptCount (heartbeat_timeout c) = attemptCount c \<and> config (heartbeat_timeout c) = config c \<and>
   binaryBuf (heartbeat_timeout c) = binaryBuf c \<and>
   filter is_loop (trace (heartbeat_timeout c)) = filter is_loop (trace c)"
  by (simp add: heartbeat_timeout_def Let_def split: option.split)

lemma still_same:
  "still c = still d \<Longrightarrow> state c = state d \<and> fsm c = fsm d \<and> attemptCount c = attemptCount d \<and>
   config c = config d \<and> binaryBuf c = binaryBuf d \<and> filter is_loop (trace c) = filter is_loop (trace d)"
  by (simp add: still_def life_def)

lemma run_user_same:
  "state (run_user E op c) = state c \<and> fsm (run_user E op c) = fsm c \<and>
   attemptCount (run_user E op c) = attemptCount c \<and> config (run_user E op c) = config c \<and>
   binaryBuf (run_user E op c) = binaryBuf c \<and>
   filter is_loop (trace (run_user E op c)) = filter is_loop (trace c)"
proof (cases op)
  case (UserEmit nsp ev args)
  then show ?thesis using still_same [OF emitNS_still [of E nsp ev args c]] by simp
next
  case (UserVolatile nsp ev args)
  then show ?thesis using still_same [OF emitNS_still [of E nsp ev args c]] by (simp add: emitVolatileNS_def)
qed (simp_all add: Close_same setNamespaceHandler_def Let_def OnClose_def OnReconnecting_def
       OnReconnected_def OnReconnectFailed_def)

lemma heartbeat_tick_still: "heartbeat_tick E ch c = (e, c') \<Longrightarrow> state c' = state c \<and> fsm c' = fsm c \<and>
   attemptCount c' = attemptCount c \<and> config c' = config c \<and> binaryBuf c' = binaryBuf c \<and>
   filter is_loop (trace c') = filter is_loop (trace c)"
  using still_same [OF write_still [of E eioPing "[]" "c\<lparr>pongCh := Some ch\<rparr>"]]
  by (simp add: heartbeat_tick_def)

lemma sio_inv_step:
  assumes "fsm_lib E" and "sio_inv s" and "sio_step E s t"
  shows "sio_inv t"
proof -
  have b: "buf_ok (binaryBuf (sys_conn s))" using assms(2) by (simp add: sio_inv_def)
  show ?thesis
    using assms(3)
  proof cases
    case (Read_next m ty p c)
    then show ?thesis
      using assms(2) dispatchEIOPacket_life [of E ty p "sys_conn s"] dispatchEIOPacket_buf [OF b, of E ty p]
      by (auto intro!: sio_inv_quiet [of s])
  next
    case (Read_error m e again c)
    then show ?thesis using sio_inv_cleanup [OF assms(1,2) Read_error(2) refl b Read_error(4)] by simp
  next
    case (Read_close m ty p c again c')
    then show ?thesis
      using sio_inv_cleanup [OF assms(1,2) Read_close(2) _ _ Read_close(5)] Read_close(4)
        dispatchEIOPacket_life [of E ty p "sys_conn s"] dispatchEIOPacket_buf [OF b, of E ty p] by simp
  next
    case (Loop_closed pre pc post)
    then show ?thesis using assms(2) by (auto simp: sio_inv_def life_ok_def attempts_ok_def)
  next
    case (Loop_sleep pre post)
    have "sio_inv (s\<lparr>loops := pre @ LSleep # post\<rparr>)"
      using Loop_sleep assms(2) by (auto simp: sio_inv_def life_ok_def attempts_ok_def)
    then show ?thesis using Loop_sleep by (auto intro!: sio_inv_same)
  next
    case (Loop_timer pre post)
    then show ?thesis using assms(2) sio_inv_begin by simp
  next
    case (Loop_attempt pre post dial r1 r2 finished c)
    then show ?thesis using sio_inv_attempt [OF assms(1,2) Loop_attempt(2,3)] by simp
  next
    case (Heart_closed pre h post)
    then show ?thesis using assms(2) by (simp add: sio_inv_def)
  next
    case (Heart_tick pre post err c)
    then show ?thesis using assms(2) heartbeat_tick_still [OF Heart_tick(3)] by (auto intro!: sio_inv_same [of s])
  next
    case (Heart_pong pre ch post c)
    then show ?thesis using assms(2)
      by (auto simp: heartbeat_pong_def split: if_splits intro!: sio_inv_same [of s])
  next
    case (Heart_timeout pre ch post)
    then show ?thesis using assms(2) heartbeat_timeout_same by (auto intro!: sio_inv_same [of s])
  next
    case (User op)
    then show ?thesis using assms(2) run_user_same by (auto intro!: sio_inv_same [of s])
  qed
qed

lemma new_conn_effect:
  assumes "fsm_lib E" and "NewSocketIOConn E c cfg mgr r1 r2 = (None, s)"
  shows "state s = sioStateOpen \<and> fsm s = sioStateOpen \<and> attemptCount s = 0 \<and> binaryBuf s = None \<and>
    conn s = Some c \<and> \<not> Conn.closed s \<and> \<not> skipReconnect s \<and>
    filter is_loop (trace s) = [GoReadLoop, GoHeartbeatLoop]"
proof -
  define s0 where "s0 = new_conn (ResolveDefaults E cfg) c mgr"
  obtain e s1 where h: "doHandshake E r1 r2 s0 = (e, s1)" by (cases "doHandshake E r1 r2 s0")
  have l: "still s1 = still s0" using doHandshake_still [of E r1 r2 s0] h by simp
  have "s = emit_effect GoHeartbeatLoop (emit_effect GoReadLoop
          ((fire E sioEventTypeOpen s1)\<lparr>state := sioStateOpen\<rparr>))"
    using assms(2) h unfolding NewSocketIOConn_def Let_def s0_def [symmetric] by (auto split: option.splits)
  then show ?thesis
    using l fsm_table(3) [OF assms(1)] by (auto simp: still_def life_def s0_def new_conn_def fire_def)
qed

lemma sio_inv_init:
  assumes "fsm_lib E" and "sio_init E s"
  shows "sio_inv s"
  using assms new_conn_effect [OF assms(1)]
  by (auto simp: sio_init_def sio_inv_def life_ok_def attempts_ok_def buf_ok_def)

interpretation sio_system: invariant_system "\<lambda>s. fsm_lib E \<and> sio_init E s" "sio_step E"
    "\<lambda>s. fsm_lib E \<and> sio_inv s" for E :: "'m env"
  by unfold_locales (auto intro: sio_inv_init sio_inv_step)

section \<open>The reconnection loop\<close>

lemma attempt_retry:
  assumes "attemptReconnection E n cb dial r1 r2 c = (False, c')"
  shows "attemptCount c' = attemptCount c \<and> config c' = config c \<and>
    \<not> (ReconnectionAttempts (config c) > 0 \<and> attemptCount c \<ge> ReconnectionAttempts (config c))"
proof (cases dial)
  case None
  then show ?thesis
    using assms by (auto simp: attemptReconnection_def handleReconnectFailure_def Let_def split: if_splits)
next
  case (Some k)
  define c2 where "c2 = resetConnectionState ((emit_opt (\<lambda>f. GoOnReconnecting f n) cb c)\<lparr>conn := Some k\<rparr>)"
  obtain e c3 where h: "doHandshake E r1 r2 c2 = (e, c3)" by (cases "doHandshake E r1 r2 c2")
  have "attemptCount c3 = attemptCount c" "config c3 = config c"
    using still_same [OF doHandshake_still [of E r1 r2 c2]] h
    by (simp_all add: c2_def resetConnectionState_def)
  then show ?thesis
    using assms Some h
    by (auto simp: attemptReconnection_def c2_def [symmetric] handleReconnectFailure_def Let_def
        split: if_splits option.splits)
qed

lemma attempt_final_count:
  assumes "attemptReconnection E n cb dial r1 r2 c = (True, c')" and "0 \<le> attemptCount c"
  shows "0 \<le> attemptCount c' \<and> attemptCount c' \<le> attemptCount c"
proof (cases dial)
  case None
  then show ?thesis
    using assms by (auto simp: attemptReconnection_def handleReconnectFailure_def Let_def split: if_splits)
next
  case (Some k)
  define c2 where "c2 = resetConnectionState ((emit_opt (\<lambda>f. GoOnReconnecting f n) cb c)\<lparr>conn := Some k\<rparr>)"
  obtain e c3 where h: "doHandshake E r1 r2 c2 = (e, c3)" by (cases "doHandshake E r1 r2 c2")
  have "attemptCount c3 = attemptCount c"
    using still_same [OF doHandshake_still [of E r1 r2 c2]] h
    by (simp add: c2_def resetConnectionState_def)
  then show ?thesis
    using assms Some h
    by (auto simp: attemptReconnection_def c2_def [symmetric] handleReconnectFailure_def Let_def
        finalizeReconnection_def split: if_splits option.splits)
qed

lemma reconnect_terminates:
  assumes "N = ReconnectionAttempts (config s)" and "0 < N" and "0 \<le> attemptCount s" and "attemptCount s < N"
    and "int (length turns) \<ge> N - attemptCount s"
  shows "\<exists>s'. reconnectLoop E turns s = (True, s') \<and> 0 \<le> attemptCount s' \<and> attemptCount s' \<le> N"
  using assms
proof (induction turns arbitrary: s)
  case Nil
  then show ?case by simp
next
  case (Cons tn turns)
  obtain timer dial r1 r2 where tn: "tn = (timer, dial, r1, r2)" by (cases tn)
  define s1 where "s1 = begin_attempt (emit_effect BackoffNext s)"
  have s1: "attemptCount s1 = attemptCount s + 1" "config s1 = config s"
    by (simp_all add: s1_def begin_attempt_def)
  obtain fin s2 where a: "attemptReconnection E (attemptCount s1) (onReconnecting s1) dial r1 r2 s1 = (fin, s2)"
    by (cases "attemptReconnection E (attemptCount s1) (onReconnecting s1) dial r1 r2 s1")
  consider "Conn.closed s" | "\<not> Conn.closed s" "\<not> timer" | "\<not> Conn.closed s" "timer" "fin"
    | "\<not> Conn.closed s" "timer" "\<not> fin" by blast
  then show ?case
  proof cases
    case 3
    then show ?thesis
      using a attempt_final_count [of E "attemptCount s1" "onReconnecting s1" dial r1 r2 s1 s2] s1 Cons.prems
      by (simp add: tn Let_def s1_def [symmetric])
  next
    case 4
    then have r: "attemptCount s2 = attemptCount s1" "config s2 = config s1" "attemptCount s1 < N"
      using attempt_retry [of E "attemptCount s1" "onReconnecting s1" dial r1 r2 s1 s2] a s1 Cons.prems by auto
    then have "\<exists>s'. reconnectLoop E turns s2 = (True, s') \<and> 0 \<le> attemptCount s' \<and> attemptCount s' \<le> N"
      using Cons.prems s1 by (intro Cons.IH) auto
    then show ?thesis using 4 a by (simp add: tn Let_def s1_def [symmetric])
  qed (use Cons.prems in \<open>simp_all add: tn Let_def\<close>)
qed

lemma all_dials_fail:
  assumes "N = ReconnectionAttempts (config s)" and "0 < N" and "0 \<le> attemptCount s" and "attemptCount s < N"
    and "int (length turns) \<ge> N - attemptCount s" and "\<not> Conn.closed s"
    and "list_all (\<lambda>t. fst t \<and> fst (snd t) = None) turns" and "onReconnectFailed s = Some f"
  shows "attemptCount (snd (reconnectLoop E turns s)) = N \<and>
    last (trace (snd (reconnectLoop E turns s))) = GoOnReconnectFailed f"
  using assms
proof (induction turns arbitrary: s)
  case Nil
  then show ?case by simp
next
  case (Cons tn turns)
  obtain r1 r2 where tn: "tn = (True, None, r1, r2)" using Cons.prems(7) by (cases tn) auto
  define s1 where "s1 = begin_attempt (emit_effect BackoffNext s)"
  define s2 where "s2 = emit_opt (\<lambda>f. GoOnReconnecting f (attemptCount s1)) (onReconnecting s1) s1"
  have s2: "attemptCount s2 = attemptCount s + 1" "config s2 = config s" "\<not> Conn.closed s2"
    "onReconnectFailed s2 = Some f"
    using Cons.prems by (simp_all add: s2_def s1_def begin_attempt_def emit_opt_def emit_effect_def split: option.split)
  have u: "reconnectLoop E (tn # turns) s = (case handleReconnectFailure s2 of
      (True, s) \<Rightarrow> (True, s) | (False, s) \<Rightarrow> reconnectLoop E turns s)"
    using Cons.prems(6) by (simp add: tn Let_def attemptReconnection_def s1_def [symmetric] s2_def [symmetric])
  show ?case
  proof (cases "attemptCount s2 \<ge> N")
    case True
    then show ?thesis using u s2 Cons.prems by (simp add: handleReconnectFailure_def)
  next
    case False
    then have "reconnectLoop E (tn # turns) s = reconnectLoop E turns s2"
      using u s2 Cons.prems by (simp add: handleReconnectFailure_def)
    then show ?thesis using Cons.IH [of s2] s2 Cons.prems False by simp
  qed
qed

section \<open>The handshake\<close>

lemma sendConnect_frames:
  assumes "conn s = Some c" and "sendConnect E s = (None, s')"
  shows "\<exists>d. frames_to c (trace s') = frames_to c (trace s) @ [(FrameText, eioMessage # encodeSIOPacket
      \<lparr>pkt_Type = sioConnect, pkt_Namespace = namespace s, pkt_ID = None, pkt_Attachments = 0, pkt_Data = d\<rparr>)]"
proof -
  from assms(2) obtain d where "writeEIOPacket E eioMessage (encodeSIOPacket
      \<lparr>pkt_Type = sioConnect, pkt_Namespace = namespace s, pkt_ID = None, pkt_Attachments = 0, pkt_Data = d\<rparr>) s
      = (None, s')"
    by (auto simp: sendConnect_def Let_def split: any.splits option.splits if_splits)
  from write_trace [OF assms(1) this] show ?thesis by auto
qed

lemma read_open_ok:
  assumes "readAndParseEIOOpen E r c s = (None, s')"
  shows "trace s' = trace s \<and> namespace s' = namespace s \<and>
    (\<exists>m payload SID iv. r = ReadReturned m \<and> readSingleEIOPacket m = Inr (eioOpen, payload) \<and>
       unmarshalOpen E payload = Some (SID, iv) \<and> sid s' = SID)"
  using assms
  by (auto simp: readAndParseEIOOpen_def readEIOPacketCtx_def
      split: ctx_read.splits sum.splits prod.splits if_splits option.splits)

lemma read_connect_ok:
  assumes "readAndParseSIOConnect E r c s = (None, s')"
  shows "trace s' = trace s \<and> sid s' = sid s \<and>
    (\<exists>m payload. r = ReadReturned m \<and> readSingleEIOPacket m = Inr (eioMessage, sioConnect # payload))"
proof -
  from assms obtain m payload where m: "r = ReadReturned m" "readSingleEIOPacket m = Inr (eioMessage, payload)"
    "payload \<noteq> []" "payload ! 0 = sioConnect" "trace s' = trace s" "sid s' = sid s"
    by (auto simp: readAndParseSIOConnect_def readEIOPacketCtx_def
        split: ctx_read.splits sum.splits prod.splits if_splits option.splits)
  then have "payload = sioConnect # tl payload" by (cases payload) auto
  with m show ?thesis by metis
qed

lemma sendConnect_sid: "sid (snd (sendConnect E s)) = sid s"
  by (auto simp: sendConnect_def Let_def writeEIOPacket_def emit_effect_def split: option.split any.split)

lemma handshake_ok:
  assumes "conn s = Some c" and "trace s = []" and "doHandshake E r1 r2 s = (None, s')"
  shows "\<exists>m1 m2 p1 p2 iv d. r1 = ReadReturned m1 \<and> readSingleEIOPacket m1 = Inr (eioOpen, p1) \<and>
      unmarshalOpen E p1 = Some (sid s', iv) \<and>
      r2 = ReadReturned m2 \<and> readSingleEIOPacket m2 = Inr (eioMessage, sioConnect # p2) \<and>
      frames_to c (trace s') = [(FrameText, eioMessage # encodeSIOPacket
        \<lparr>pkt_Type = sioConnect, pkt_Namespace = namespace s, pkt_ID = None, pkt_Attachments = 0, pkt_Data = d\<rparr>)]"
proof -
  from assms(1,3) obtain s1 s2 where a: "readAndParseEIOOpen E r1 c s = (None, s1)"
    and b: "sendConnect E s1 = (None, s2)" and d: "readAndParseSIOConnect E r2 c s2 = (None, s')"
    by (auto simp: doHandshake_def split: prod.splits option.splits)
  have "conn s1 = Some c" using handshake_result(1) [OF a] assms(1) by (simp add: still_def life_def)
  from sendConnect_frames [OF this b] read_open_ok [OF a] read_connect_ok [OF d]
    sendConnect_sid [of E s1] b assms(2)
  show ?thesis by auto
qed

lemma new_conn_failed:
  assumes "NewSocketIOConn E c cfg mgr r1 r2 = (Some err, s)"
  shows "\<not> Connected s \<and> last (trace s) = CloseConn c \<and> filter is_loop (trace s) = []"
proof -
  define s0 where "s0 = new_conn (ResolveDefaults E cfg) c mgr"
  obtain e s1 where h: "doHandshake E r1 r2 s0 = (e, s1)" by (cases "doHandshake E r1 r2 s0")
  have l: "still s1 = still s0" using doHandshake_still [of E r1 r2 s0] h by simp
  have "s = emit_effect (CloseConn c) s1"
    using assms h unfolding NewSocketIOConn_def Let_def s0_def [symmetric] by (auto split: option.splits)
  then show ?thesis using l by (auto simp: Connected_def still_def life_def s0_def new_conn_def)
qed

lemma new_conn_ok:
  assumes "NewSocketIOConn E c cfg mgr r1 r2 = (None, s)"
  shows "\<exists>m1 m2 p1 p2 iv d. r1 = ReadReturned m1 \<and> readSingleEIOPacket m1 = Inr (eioOpen, p1) \<and>
      unmarshalOpen E p1 = Some (sid s, iv) \<and>
      r2 = ReadReturned m2 \<and> readSingleEIOPacket m2 = Inr (eioMessage, sioConnect # p2) \<and>
      frames_to c (trace s) = [(FrameText, eioMessage # encodeSIOPacket
        \<lparr>pkt_Type = sioConnect, pkt_Namespace = CoalesceString E (cfg_Namespace cfg) ''/'', pkt_ID = None,
         pkt_Attachments = 0, pkt_Data = d\<rparr>)]"
proof -
  define s0 where "s0 = new_conn (ResolveDefaults E cfg) c mgr"
  obtain e s1 where h: "doHandshake E r1 r2 s0 = (e, s1)" by (cases "doHandshake E r1 r2 s0")
  have s: "e = None" "s = emit_effect GoHeartbeatLoop (emit_effect GoReadLoop
          ((fire E sioEventTypeOpen s1)\<lparr>state := sioStateOpen\<rparr>))"
    using assms h unfolding NewSocketIOConn_def Let_def s0_def [symmetric] by (auto split: option.splits)
  have "conn s0 = Some c" "trace s0 = []" by (simp_all add: s0_def new_conn_def)
  from handshake_ok [OF this, of E r1 r2 s1] h s(1) show ?thesis
    by (simp add: s(2) fire_def s0_def new_conn_def ResolveDefaults_def emit_effect_def)
qed

section \<open>Defects of the life cycle\<close>

text \<open>
  A missed pong closes the channel that the reconnection loop checks first, so the
  loop started by the cleanup that follows returns at once: the connection is not
  re-established although reconnection is enabled.
\<close>

lemma ping_timeout_never_reconnects:
  assumes "\<not> skipReconnect s" and "Reconnection (config s)"
    and "cleanupConnection E (heartbeat_timeout s) = (again, s')"
  shows "again \<and> reconnectLoop E (turn # turns) s' = (True, s')"
  using assms
  by (cases turn) (auto simp: cleanupConnection_def heartbeat_timeout_def Let_def fire_def)

text \<open>
  A \<^verbatim>\<open>Close\<close> issued while the reconnection loop is dialling is forgotten: the new
  connection gets a fresh close channel and the connection opens.
\<close>

lemma close_while_dialling_lost:
  assumes "attemptReconnection E n cb (Some c) r1 r2 (Close E s) = (True, s')"
    and "\<not> ReconnectionAttempts (config s) > 0"
  shows "Connected s' \<and> \<not> Conn.closed s' \<and> \<not> skipReconnect s'"
proof -
  define c1 where "c1 = resetConnectionState ((emit_opt (\<lambda>f. GoOnReconnecting f n) cb (Close E s))\<lparr>conn := Some c\<rparr>)"
  obtain e c2 where h: "doHandshake E r1 r2 c1 = (e, c2)" by (cases "doHandshake E r1 r2 c1")
  have l: "life c2 = life c1" using still_life [OF doHandshake_still [of E r1 r2 c1]] h by simp
  have cfg: "config c2 = config s" using l Close_same [of E s] by (simp add: life_def c1_def resetConnectionState_def)
  have e: "e = None" and s': "s' = finalizeReconnection E c2"
    using assms h cfg
    by (auto simp: attemptReconnection_def c1_def [symmetric] Let_def handleReconnectFailure_def
        split: option.splits if_splits)
  show ?thesis
    using l unfolding s' by (simp add: finalizeReconnection_def Let_def fire_def Connected_def life_def
        c1_def resetConnectionState_def)
qed

text \<open>
  A binary acknowledgment is reconstructed as an event packet: no pending
  acknowledgment is resolved by it.
\<close>

lemma dispatch_mgr: "ackMgr (dispatchPacket E p s) = ackMgr s"
  by (simp add: dispatchPacket_def Let_def emit_opt_def split: option.split list.split)

lemma binary_ack_never_resolves:
  assumes "conn s = Some c" and "wf_packet p" and "pkt_Type p = sioBinaryAck"
    and "length (encodeSIOPacket p) < maxEIOPacketSize"
    and "pkt_Attachments p = int (length bufs)" and "bufs \<noteq> []" and "list_all frame_ok bufs"
    and "sum_list (map length bufs) \<le> maxBinaryBufferSize"
  shows "ackMgr (snd (readLoop E (Some (FrameText, eioMessage # encodeSIOPacket p) #
            map (\<lambda>b. Some (FrameBinary, b)) bufs) s)) = ackMgr s"
  using binary_event_delivered [OF assms(1,2) _ assms(4-8)] assms(3)
  by (simp add: deliver_def dispatch_mgr split: sum.split)

text \<open>An empty binary message, which an empty byte slice becomes, ends the connection.\<close>

lemma empty_binary_frame_disconnects:
  "conn s = Some c \<Longrightarrow>
    readLoop E (Some (FrameBinary, []) # rs) s = (True, snd (cleanupConnection E s))"
  by (simp add: readEIOPacket_def readSingleEIOPacket_def)

section \<open>Properties\<close>

text \<open>A concrete environment and connection, for the examples.\<close>

definition sample_env :: "nat env" where
  "sample_env = \<lparr>
     unmarshalArgs = (\<lambda>_. Some [''e'', ''b'']),
     unmarshalAny = (\<lambda>r. if r = ''e'' then Some (VStr ''e'')
        else Some (VMap [(''_placeholder'', VBool True), (''num'', VFloat 0)])),
     unmarshalString = Some, unmarshalOpen = (\<lambda>p. Some (p, 25000)), unmarshalConnect = (\<lambda>_. ([], [])),
     marshal = (\<lambda>_. Some ''[e,b]''),
     Transition = (\<lambda>rules a e. case find (\<lambda>(f, ev, t). f = a \<and> ev = e) rules of
        None \<Rightarrow> a | Some (f, ev, t) \<Rightarrow> t),
     CoalesceString = (\<lambda>a b. if a \<noteq> [] then a else b),
     CoalesceDuration = (\<lambda>a b. if a \<noteq> 0 then a else b),
     CoalesceFloat = (\<lambda>a b. if a \<noteq> 0 then a else b),
     write_ok = (\<lambda>_. True),
     NextID = (\<lambda>m. (int m, Suc m)), AddJob = (\<lambda>_ _ m. m), Resolve = (\<lambda>_ _ m. (None, m))\<rparr>"

definition sample_config :: Config where
  "sample_config = \<lparr>Reconnection = True, ReconnectionAttempts = 2, ReconnectionDelay = 0,
     ReconnectionDelayMax = 0, JitterFactor = 0, ConnectTimeout = 0, PingTimeout = 0,
     cfg_Namespace = ''/'', Auth = VNull\<rparr>"

definition sample_conn :: "nat Conn" where
  "sample_conn = (new_conn sample_config 7 0)\<lparr>state := sioStateOpen, fsm := sioStateOpen\<rparr>"

lemma sample_fsm: "fsm_lib sample_env"
  by (simp add: fsm_lib_def sample_env_def)



text \<open>Routing.  After any registrations, an event packet starts exactly the handler last
  registered for its namespace and event, then the catch-all handler last registered there, which
  gets the event name and the arguments; nothing else happens.\<close>
theorem events_are_routed:
  assumes "coalesce_lib E" and "list_all (\<lambda>r. snd (fst r) \<noteq> []) regs" and "nsEvents s = (\<lambda>_. None)"
    and "unmarshal_data E (pkt_Data p) = Some (name # args)" and "unmarshalString E name = Some ev"
    and "pkt_Namespace p \<noteq> []"
    and "t = fold (\<lambda>r. setNamespaceHandler (fst (fst r)) (snd (fst r)) (Some (snd r))) regs s"
  shows "trace (dispatchPacket E p t) = trace t
      @ (case map_of (rev regs) (pkt_Namespace p, ev) of None \<Rightarrow> [] | Some h \<Rightarrow> [GoHandler h args])
      @ (case map_of (rev regs) (pkt_Namespace p, ''*'') of None \<Rightarrow> [] | Some h \<Rightarrow> [GoHandler h (name # args)]) \<and>
    life (dispatchPacket E p t) = life t \<and>
    (\<forall>f. run_handler E (CatchAll f) (name # args) = Some (f, Some ev, args))"
proof -
  have g: "handler_at k t = map_of (rev regs) k" for k
    using nsp_handlers.get_after_puts [of regs k s] assms(2,3,7)
    by (auto simp: handler_at_def split: option.split)
  have n: "pkt_Namespace p = CoalesceString E (pkt_Namespace p) (namespace t)"
    using assms(1,6) by (simp add: coalesce_lib_def)
  show ?thesis
    using dispatch_trace [OF assms(4,5) n] assms(5) by (simp add: g run_handler_def)
qed

theorem events_are_routed_witness:
  "trace (dispatchPacket sample_env \<lparr>pkt_Type = sioEvent, pkt_Namespace = ''/'', pkt_ID = None,
       pkt_Attachments = 0, pkt_Data = Some ''[e,b]''\<rparr>
     (setNamespaceHandler ''/'' ''e'' (Some (Handler 2)) (setNamespaceHandler ''/'' ''e'' (Some (Handler 1)) sample_conn)))
   = [GoHandler (Handler 2) [''b'']]"
proof -
  let ?regs = "[((''/'', ''e''), Handler 1), ((''/'', ''e''), Handler 2)]"
  let ?t = "setNamespaceHandler ''/'' ''e'' (Some (Handler 2)) (setNamespaceHandler ''/'' ''e'' (Some (Handler 1)) sample_conn)"
  have t: "?t = fold (\<lambda>r. setNamespaceHandler (fst (fst r)) (snd (fst r)) (Some (snd r))) ?regs sample_conn"
    by simp
  have "trace ?t = []" by (simp add: setNamespaceHandler_def Let_def sample_conn_def new_conn_def)
  with events_are_routed [of sample_env ?regs sample_conn "\<lparr>pkt_Type = sioEvent, pkt_Namespace = ''/'', pkt_ID = None,
       pkt_Attachments = 0, pkt_Data = Some ''[e,b]''\<rparr>" "''e''" "[''b'']" "''e''", OF _ _ _ _ _ _ t]
  show ?thesis
    by (simp add: coalesce_lib_def sample_env_def unmarshal_data_def sample_conn_def new_conn_def)
qed



text \<open>C18: the reconnection loop ends.  With a positive limit it returns after at most the attempts
  that are left, whatever the network does; when every dial fails it makes exactly the configured
  number of attempts and then calls the failure callback.\<close>
theorem reconnection_ends:
  assumes "N = ReconnectionAttempts (config s)" and "0 < N" and "0 \<le> attemptCount s" and "attemptCount s < N"
    and "int (length turns) \<ge> N - attemptCount s"
  shows "(\<exists>s'. reconnectLoop E turns s = (True, s') \<and> 0 \<le> attemptCount s' \<and> attemptCount s' \<le> N) \<and>
    (\<forall>f. \<not> Conn.closed s \<and> list_all (\<lambda>t. fst t \<and> fst (snd t) = None) turns \<and> onReconnectFailed s = Some f \<longrightarrow>
       attemptCount (snd (reconnectLoop E turns s)) = N \<and>
       last (trace (snd (reconnectLoop E turns s))) = GoOnReconnectFailed f)"
  using reconnect_terminates [OF assms, of E] all_dials_fail [OF assms, of _ E] by blast

theorem reconnection_ends_witness:
  "\<exists>s'. reconnectLoop sample_env [(True, None, CtxDone, CtxDone), (True, None, CtxDone, CtxDone)] sample_conn
     = (True, s') \<and> attemptCount s' \<le> 2"
  using reconnection_ends [of 2 sample_conn "[(True, None, CtxDone, CtxDone), (True, None, CtxDone, CtxDone)]" sample_env]
  by (auto simp: sample_conn_def new_conn_def sample_config_def)

text \<open>The handshake.  A connection is returned only after an Engine.IO open packet (whose session
  id it takes), one CONNECT packet for the configured namespace as the only message written, and the
  server's CONNECT answer; then it is connected and its two loops run.  On any failure it is not
  connected, no loop runs and the transport is closed.\<close>
theorem handshake_contract:
  assumes "fsm_lib E"
  shows "case NewSocketIOConn E c cfg mgr r1 r2 of
      (None, s) \<Rightarrow> Connected s \<and> filter is_loop (trace s) = [GoReadLoop, GoHeartbeatLoop] \<and>
        (\<exists>m1 m2 p1 p2 iv d. r1 = ReadReturned m1 \<and> readSingleEIOPacket m1 = Inr (eioOpen, p1) \<and>
          unmarshalOpen E p1 = Some (sid s, iv) \<and>
          r2 = ReadReturned m2 \<and> readSingleEIOPacket m2 = Inr (eioMessage, sioConnect # p2) \<and>
          frames_to c (trace s) = [(FrameText, eioMessage # encodeSIOPacket
            \<lparr>pkt_Type = sioConnect, pkt_Namespace = CoalesceString E (cfg_Namespace cfg) ''/'', pkt_ID = None,
             pkt_Attachments = 0, pkt_Data = d\<rparr>)])
    | (Some err, s) \<Rightarrow> \<not> Connected s \<and> last (trace s) = CloseConn c \<and> filter is_loop (trace s) = []"
proof (cases "fst (NewSocketIOConn E c cfg mgr r1 r2)")
  case None
  then obtain s where s: "NewSocketIOConn E c cfg mgr r1 r2 = (None, s)"
    by (metis prod.collapse)
  show ?thesis
    using new_conn_effect [OF assms s] new_conn_ok [OF s] by (simp only: s prod.case option.case Connected_def simp_thms)
next
  case (Some err)
  then obtain s where s: "NewSocketIOConn E c cfg mgr r1 r2 = (Some err, s)"
    by (metis prod.collapse)
  show ?thesis using new_conn_failed [OF s] by (simp add: s)
qed

theorem handshake_contract_witness:
  "case NewSocketIOConn sample_env 7 sample_config 0 CtxDone CtxDone of
      (None, s) \<Rightarrow> True
    | (Some err, s) \<Rightarrow> \<not> Connected s \<and> last (trace s) = CloseConn 7 \<and> filter is_loop (trace s) = []"
  using handshake_contract [OF sample_fsm, where c = 7 and cfg = sample_config and mgr = 0 and ?r1.0 = CtxDone and ?r2.0 = CtxDone] by (auto split: prod.splits option.splits)
end
