(* ===== verification/Go_Binary.thy ===== *)
theory Go_Binary
  imports Prelude
begin

text \<open>
  What the repository uses of Go's packages \<^verbatim>\<open>encoding/binary\<close> (32-bit integers in
  either byte order, at their width) and \<^verbatim>\<open>io\<close> (\<^verbatim>\<open>ReadFull\<close> on a stream given by the
  bytes it will still deliver before it ends).
\<close>

unbundle bit_operations_syntax

section \<open>Byte order\<close>

datatype byte_order = LittleEndian | BigEndian

definition byte_at :: "nat \<Rightarrow> 32 word \<Rightarrow> char" where
  "byte_at k v = byte_of (unat (drop_bit k v))"

definition PutUint32 :: "byte_order \<Rightarrow> 32 word \<Rightarrow> bytes" where
  "PutUint32 order v =
    (case order of
       LittleEndian \<Rightarrow> [byte_at 0 v, byte_at 8 v, byte_at 16 v, byte_at 24 v]
     | BigEndian \<Rightarrow> [byte_at 24 v, byte_at 16 v, byte_at 8 v, byte_at 0 v])"

definition place :: "nat \<Rightarrow> char \<Rightarrow> 32 word" where
  "place k c = push_bit k (word_of_nat (byte_val c))"

definition Uint32 :: "byte_order \<Rightarrow> bytes \<Rightarrow> 32 word" where
  "Uint32 order b =
    (case order of
       LittleEndian \<Rightarrow> place 0 (b ! 0) OR place 8 (b ! 1) OR place 16 (b ! 2) OR place 24 (b ! 3)
     | BigEndian \<Rightarrow> place 24 (b ! 0) OR place 16 (b ! 1) OR place 8 (b ! 2) OR place 0 (b ! 3))"

lemma place_byte_at: "place k (byte_at j v) = push_bit k (take_bit 8 (drop_bit j v))"
proof -
  have "unat (drop_bit j v) mod 256 = take_bit 8 (unat (drop_bit j v))"
    by (simp add: take_bit_eq_mod)
  then have "(word_of_nat (unat (drop_bit j v) mod 256) :: 32 word) = take_bit 8 (drop_bit j v)"
    by (simp add: of_nat_take_bit)
  then show ?thesis by (simp add: place_def byte_at_def)
qed

lemma bytes_of_word:
  "take_bit 8 v OR push_bit 8 (take_bit 8 (drop_bit 8 v)) OR push_bit 16 (take_bit 8 (drop_bit 16 v))
     OR push_bit 24 (take_bit 8 (drop_bit 24 v)) = (v :: 32 word)"
proof (rule bit_word_eqI)
  fix n assume "n < LENGTH(32)"
  then consider "n < 8" | "8 \<le> n" "n < 16" | "16 \<le> n" "n < 24" | "24 \<le> n" "n < 32" by fastforce
  then show "bit (take_bit 8 v OR push_bit 8 (take_bit 8 (drop_bit 8 v)) OR push_bit 16 (take_bit 8 (drop_bit 16 v))
     OR push_bit 24 (take_bit 8 (drop_bit 24 v))) n = bit v n"
    by cases (auto simp: bit_simps)
qed

lemma Uint32_PutUint32 [simp]: "Uint32 order (PutUint32 order v) = v"
proof (cases order)
  case LittleEndian
  then show ?thesis using bytes_of_word [of v] by (simp add: Uint32_def PutUint32_def place_byte_at)
next
  case BigEndian
  then show ?thesis
    using bytes_of_word [of v] by (simp add: Uint32_def PutUint32_def place_byte_at ac_simps)
qed

lemma length_PutUint32 [simp]: "length (PutUint32 order v) = 4"
  by (cases order) (simp_all add: PutUint32_def)

section \<open>Reading\<close>

datatype io_error = EOF | ErrUnexpectedEOF

text \<open>\<^verbatim>\<open>io.ReadFull\<close> into a slice of length \<open>n\<close>.\<close>

definition ReadFull :: "nat \<Rightarrow> bytes \<Rightarrow> io_error + (bytes \<times> bytes)" where
  "ReadFull n s =
    (if n \<le> length s then Inr (take n s, drop n s)
     else if s = [] then Inl EOF else Inl ErrUnexpectedEOF)"

lemma ReadFull_append [simp]: "n = length a \<Longrightarrow> ReadFull n (a @ b) = Inr (a, b)"
  by (simp add: ReadFull_def)

end
