(* ===== verification/Socket_Frame.thy ===== *)
theory Socket_Frame
  imports Go_Binary
begin

text \<open>
  Package \<^verbatim>\<open>socket\<close> (\<^verbatim>\<open>src/socket/frame.go\<close>): pooled frame buffers and the
  length-prefixed framer, and the \<^verbatim>\<open>NetConnWrapper\<close> of
  \<^verbatim>\<open>src/socket/connector/connector.go\<close> that puts a cipher in front of a framer.  A
  frame buffer is a backing array with the length of the slice over it, so that what
  a recycled buffer still contains is visible.  A reader is the bytes it will
  deliver before it ends; a writer accepts a number of bytes and then fails.  The
  pool and the cipher are not part of the package: what the pool hands out and the
  cipher's two functions are arguments.
\<close>

section \<open>Buffers\<close>

record FrameBuffer =
  fb_arr :: bytes
  fb_len :: nat

abbreviation maxPooledCapacity :: nat where "maxPooledCapacity \<equiv> 128 * 1024"
abbreviation defaultMaxFrame :: nat where "defaultMaxFrame \<equiv> 10 * 1024 * 1024"

definition Len :: "FrameBuffer \<Rightarrow> nat" where
  "Len fb = fb_len fb"

definition Bytes :: "FrameBuffer \<Rightarrow> bytes" where
  "Bytes fb = take (fb_len fb) (fb_arr fb)"

definition Reset :: "FrameBuffer \<Rightarrow> FrameBuffer" where
  "Reset fb = fb\<lparr>fb_len := 0\<rparr>"

datatype equal_arg = EqPointer "FrameBuffer option" | EqValue FrameBuffer | EqBytes bytes | EqOther

definition Equal :: "FrameBuffer \<Rightarrow> equal_arg \<Rightarrow> bool" where
  "Equal fb other =
    (case other of
       EqPointer None \<Rightarrow> False
     | EqPointer (Some v) \<Rightarrow> Bytes fb = Bytes v
     | EqValue v \<Rightarrow> Bytes fb = Bytes v
     | EqBytes v \<Rightarrow> Bytes fb = v
     | EqOther \<Rightarrow> False)"

text \<open>\<^verbatim>\<open>make([]byte, n)\<close> is zeroed; a recycled array keeps its old bytes.\<close>

definition make_buffer :: "nat \<Rightarrow> FrameBuffer" where
  "make_buffer n = \<lparr>fb_arr = replicate n (byte_of 0), fb_len = n\<rparr>"

definition AcquireFrameBuffer :: "FrameBuffer option \<Rightarrow> nat \<Rightarrow> FrameBuffer" where
  "AcquireFrameBuffer pooled n =
    (case pooled of
       None \<Rightarrow> make_buffer n
     | Some fb \<Rightarrow> if length (fb_arr fb) < n then make_buffer n else fb\<lparr>fb_len := n\<rparr>)"

text \<open>What \<^verbatim>\<open>ReleaseFrameBuffer\<close> puts back into the pool.\<close>

definition ReleaseFrameBuffer :: "FrameBuffer \<Rightarrow> FrameBuffer option" where
  "ReleaseFrameBuffer fb =
    (if length (fb_arr fb) > maxPooledCapacity then None else Some (fb\<lparr>fb_len := 0\<rparr>))"

section \<open>Streams\<close>

datatype sock_error =
    ErrInvalidMagic
  | ErrFrameTooLarge nat nat
  | ErrHeaderSize
  | IOErr io_error
  | ErrWriteFailed
  | ErrEncrypt
  | ErrDecrypt

record writer =
  w_out :: bytes
  w_room :: nat

definition Write :: "writer \<Rightarrow> bytes \<Rightarrow> sock_error option \<times> writer" where
  "Write w p =
    (if length p \<le> w_room w then (None, \<lparr>w_out = w_out w @ p, w_room = w_room w - length p\<rparr>)
     else (Some ErrWriteFailed, \<lparr>w_out = w_out w @ take (w_room w) p, w_room = 0\<rparr>))"

section \<open>The framer\<close>

record LengthPrefixedConfig =
  cfg_ByteOrder :: "byte_order option"
  cfg_Magic :: bytes
  cfg_MaxLength :: "32 word"

record LengthPrefixedFramer =
  ByteOrder :: byte_order
  Magic :: bytes
  MaxLength :: "32 word"

text \<open>\<^verbatim>\<open>generic.Ternary\<close> and \<^verbatim>\<open>generic.Coalesce\<close> of the library, as arguments.\<close>

definition NewLengthPrefixedFramer ::
  "(bool \<Rightarrow> byte_order \<Rightarrow> byte_order \<Rightarrow> byte_order) \<Rightarrow> (32 word \<Rightarrow> 32 word \<Rightarrow> 32 word) \<Rightarrow>
   LengthPrefixedConfig \<Rightarrow> LengthPrefixedFramer" where
  "NewLengthPrefixedFramer ternary coalesce cfg =
    \<lparr>ByteOrder = ternary (cfg_ByteOrder cfg \<noteq> None)
       (case cfg_ByteOrder cfg of Some b \<Rightarrow> b | None \<Rightarrow> LittleEndian) LittleEndian,
     Magic = cfg_Magic cfg,
     MaxLength = coalesce (cfg_MaxLength cfg) (word_of_nat defaultMaxFrame)\<rparr>"

text \<open>The first component of the result lists the buffers given back to the pool.\<close>

definition ReadFrame ::
  "LengthPrefixedFramer \<Rightarrow> FrameBuffer option \<Rightarrow> bytes \<Rightarrow>
   FrameBuffer list \<times> (sock_error + (FrameBuffer \<times> bytes))" where
  "ReadFrame f pooled r =
    (let headerLen = 4 + length (Magic f) in
     if headerLen > 16 then ([], Inl ErrHeaderSize)
     else case ReadFull headerLen r of
       Inl err \<Rightarrow> ([], Inl (IOErr err))
     | Inr (header, r) \<Rightarrow>
         (let len = Uint32 (ByteOrder f) (take 4 header) in
          if len > MaxLength f then ([], Inl (ErrFrameTooLarge (unat len) (unat (MaxLength f))))
          else if length (Magic f) > 0 \<and> drop 4 (take headerLen header) \<noteq> Magic f
          then ([], Inl ErrInvalidMagic)
          else
           (let fb = AcquireFrameBuffer pooled (unat len)
            in case ReadFull (Len fb) r of
                 Inl err \<Rightarrow> ([fb], Inl (IOErr err))
               | Inr (data, r) \<Rightarrow> ([], Inr (fb\<lparr>fb_arr := data @ drop (Len fb) (fb_arr fb)\<rparr>, r)))))"

definition WriteFrame :: "LengthPrefixedFramer \<Rightarrow> writer \<Rightarrow> bytes \<Rightarrow> sock_error option \<times> writer" where
  "WriteFrame f w data =
    (let headerLen = 4 + length (Magic f) in
     if headerLen > 16 then (Some ErrHeaderSize, w)
     else
      (let header = PutUint32 (ByteOrder f) (word_of_nat (length data)) @ Magic f
       in case Write w header of
            (Some err, w) \<Rightarrow> (Some err, w)
          | (None, w) \<Rightarrow> Write w data))"

section \<open>NetConnWrapper\<close>

text \<open>
  A cipher is the pair of its functions on the bytes of a buffer.  Whether the
  cipher returns the same buffer or a new one only decides which buffers go back to
  the pool, which is the second component of the results.
\<close>

record cipher =
  Encrypt :: "FrameBuffer \<Rightarrow> (bool \<times> FrameBuffer) option"
  Decrypt :: "FrameBuffer \<Rightarrow> (bool \<times> FrameBuffer) option"

record NetConnWrapper =
  n_framer :: LengthPrefixedFramer
  n_cipher :: "cipher option"

definition NewNetConnWrapper :: "LengthPrefixedFramer \<Rightarrow> cipher option \<Rightarrow> NetConnWrapper" where
  "NewNetConnWrapper framer cipher = \<lparr>n_framer = framer, n_cipher = cipher\<rparr>"

definition getCipher :: "NetConnWrapper \<Rightarrow> cipher option" where
  [simp]: "getCipher n = n_cipher n"

definition SetCipher :: "cipher option \<Rightarrow> NetConnWrapper \<Rightarrow> NetConnWrapper" where
  "SetCipher c n = n\<lparr>n_cipher := c\<rparr>"

definition copy_into :: "FrameBuffer \<Rightarrow> bytes \<Rightarrow> FrameBuffer" where
  "copy_into fb data =
    (let k = min (fb_len fb) (length data) in fb\<lparr>fb_arr := take k data @ drop k (fb_arr fb)\<rparr>)"

definition Send ::
  "NetConnWrapper \<Rightarrow> FrameBuffer option \<Rightarrow> writer \<Rightarrow> bytes \<Rightarrow>
   sock_error option \<times> FrameBuffer list \<times> writer" where
  "Send n pooled w data =
    (case getCipher n of
       Some cipher \<Rightarrow>
         (let fb = copy_into (AcquireFrameBuffer pooled (length data)) data
          in case Encrypt cipher fb of
               None \<Rightarrow> (Some ErrEncrypt, [fb], w)
             | Some (same, enc) \<Rightarrow>
                 (case WriteFrame (n_framer n) w (Bytes enc) of
                    (err, w) \<Rightarrow> (err, if same then [fb] else [fb, enc], w)))
     | None \<Rightarrow> (case WriteFrame (n_framer n) w data of (err, w) \<Rightarrow> (err, [], w)))"

definition Receive ::
  "NetConnWrapper \<Rightarrow> FrameBuffer option \<Rightarrow> bytes \<Rightarrow> FrameBuffer list \<times> (sock_error + (FrameBuffer \<times> bytes))" where
  "Receive n pooled r =
    (case ReadFrame (n_framer n) pooled r of
       (released, Inl err) \<Rightarrow> (released, Inl err)
     | (released, Inr (fb, r)) \<Rightarrow>
         (case getCipher n of
            Some cipher \<Rightarrow>
              (case Decrypt cipher fb of
                 None \<Rightarrow> ([fb], Inl ErrDecrypt)
               | Some (same, dec) \<Rightarrow> (if same then [] else [fb], Inr (dec, r)))
          | None \<Rightarrow> ([], Inr (fb, r))))"

section \<open>The framer as a stream codec\<close>

definition framer_ok :: "LengthPrefixedFramer \<Rightarrow> bool" where
  "framer_ok f \<longleftrightarrow> length (Magic f) \<le> 12"

definition payload_ok :: "LengthPrefixedFramer \<Rightarrow> bytes \<Rightarrow> bool" where
  "payload_ok f data \<longleftrightarrow> length data \<le> unat (MaxLength f)"

definition frame_bytes :: "LengthPrefixedFramer \<Rightarrow> bytes \<Rightarrow> bytes" where
  "frame_bytes f data = PutUint32 (ByteOrder f) (word_of_nat (length data)) @ Magic f @ data"

definition read_payload :: "LengthPrefixedFramer \<Rightarrow> FrameBuffer option \<Rightarrow> bytes \<Rightarrow> sock_error + (bytes \<times> bytes)" where
  "read_payload f pooled r =
    (case snd (ReadFrame f pooled r) of Inl e \<Rightarrow> Inl e | Inr (fb, r) \<Rightarrow> Inr (Bytes fb, r))"

lemma Len_Acquire [simp]: "Len (AcquireFrameBuffer pooled n) = n"
  by (auto simp: AcquireFrameBuffer_def Len_def make_buffer_def split: option.split)

lemma fb_len_Acquire [simp]: "fb_len (AcquireFrameBuffer pooled n) = n"
  using Len_Acquire [of pooled n] by (simp add: Len_def)

lemma Bytes_filled: "length data = fb_len fb \<Longrightarrow> Bytes (fb\<lparr>fb_arr := data @ r\<rparr>) = data"
  by (simp add: Bytes_def)

lemma max_below_word: "length data \<le> unat (m :: 32 word) \<Longrightarrow> length data < 2 ^ 32"
  using unsigned_less [of m, where 'a = nat] by simp

text \<open>What the reader does on any input, in terms of the bytes of the stream alone.\<close>

lemma read_payload_eq:
  assumes "framer_ok f"
  shows "read_payload f pooled r =
    (let k = 4 + length (Magic f); n = unat (Uint32 (ByteOrder f) (take 4 r)) in
     if length r < k then Inl (IOErr (if r = [] then EOF else ErrUnexpectedEOF))
     else if n > unat (MaxLength f) then Inl (ErrFrameTooLarge n (unat (MaxLength f)))
     else if drop 4 (take k r) \<noteq> Magic f then Inl ErrInvalidMagic
     else if length r < k + n then Inl (IOErr (if length r = k then EOF else ErrUnexpectedEOF))
     else Inr (take n (drop k r), drop (k + n) r))"
  using assms
  by (auto simp: read_payload_def ReadFrame_def Let_def ReadFull_def framer_ok_def min_def word_less_nat_alt
      Bytes_filled Len_def Bytes_def add.commute split: if_splits)

lemma read_payload_written:
  assumes "framer_ok f" and "payload_ok f data"
  shows "read_payload f pooled (frame_bytes f data @ rest) = Inr (data, rest)"
proof -
  have l: "length data < 2 ^ 32" using assms(2) max_below_word by (auto simp: payload_ok_def)
  then have u: "unat (word_of_nat (length data) :: 32 word) = length data"
    by (simp add: unat_of_nat)
  have t: "take 4 (frame_bytes f data @ rest) = PutUint32 (ByteOrder f) (word_of_nat (length data))"
    by (simp add: frame_bytes_def)
  show ?thesis
    using assms u by (simp add: read_payload_eq t Let_def payload_ok_def) (simp add: frame_bytes_def)
qed

interpretation framer: stream_codec "\<lambda>data. framer_ok f \<and> payload_ok f data" "frame_bytes f"
    "read_payload f pooled" for f pooled
  by unfold_locales (simp add: read_payload_written)

lemma WriteFrame_out:
  assumes "framer_ok f" and "length (frame_bytes f data) \<le> w_room w"
  shows "WriteFrame f w data = (None, \<lparr>w_out = w_out w @ frame_bytes f data,
     w_room = w_room w - length (frame_bytes f data)\<rparr>)"
  using assms by (auto simp: WriteFrame_def Let_def Write_def frame_bytes_def framer_ok_def)

text \<open>Whatever room the writer has, what reaches it is a prefix of the frame, the whole frame exactly
  when the call succeeds.\<close>

lemma Write_prefix:
  "\<exists>written. w_out (snd (Write w p)) = w_out w @ written \<and> prefix written p \<and>
     (fst (Write w p) = None \<longleftrightarrow> length p \<le> w_room w) \<and> (fst (Write w p) = None \<longrightarrow> written = p)"
  by (auto simp: Write_def take_is_prefix)

lemma WriteFrame_prefix:
  "\<exists>written. w_out (snd (WriteFrame f w data)) = w_out w @ written \<and> prefix written (frame_bytes f data) \<and>
     (fst (WriteFrame f w data) = None \<longrightarrow> written = frame_bytes f data)"
proof (cases "4 + length (Magic f) > 16")
  case True
  then show ?thesis by (simp add: WriteFrame_def)
next
  case False
  define h where "h = PutUint32 (ByteOrder f) (word_of_nat (length data)) @ Magic f"
  obtain e w1 where w: "Write w h = (e, w1)" by (cases "Write w h")
  obtain a where a: "w_out w1 = w_out w @ a" "prefix a h" "e = None \<longrightarrow> a = h"
    using Write_prefix [of w h] w by auto
  obtain b where b: "w_out (snd (Write w1 data)) = w_out w1 @ b" "prefix b data"
    "fst (Write w1 data) = None \<longrightarrow> b = data"
    using Write_prefix [of w1 data] by auto
  have fr: "frame_bytes f data = h @ data" by (simp add: frame_bytes_def h_def)
  have wf: "WriteFrame f w data = (case e of Some err \<Rightarrow> (Some err, w1) | None \<Rightarrow> Write w1 data)"
    using False w by (simp add: WriteFrame_def Let_def h_def split: option.split)
  show ?thesis
  proof (cases e)
    case None
    then show ?thesis using a b wf fr by (intro exI [of _ "h @ b"]) simp
  next
    case (Some err)
    then show ?thesis using a wf fr by (intro exI [of _ a]) (simp add: prefix_prefix)
  qed
qed

text \<open>
  The writer checks neither limit: a payload over the maximum is written and then
  refused by the reader, and the length of a payload of \<open>2 ^ 32\<close> bytes or more is
  announced modulo \<open>2 ^ 32\<close>.
\<close>

lemma oversized_frame_unreadable:
  assumes "framer_ok f" and "unat (MaxLength f) < length data" and "length data < 2 ^ 32"
  shows "read_payload f pooled (frame_bytes f data @ rest) = Inl (ErrFrameTooLarge (length data) (unat (MaxLength f)))"
proof -
  have u: "unat (word_of_nat (length data) :: 32 word) = length data"
    using assms(3) by (simp add: unat_of_nat)
  have t: "take 4 (frame_bytes f data @ rest) = PutUint32 (ByteOrder f) (word_of_nat (length data))"
    by (simp add: frame_bytes_def)
  have "data \<noteq> []" using assms(2) by auto
  then show ?thesis using assms u by (simp add: read_payload_eq t Let_def) (simp add: frame_bytes_def)
qed

lemma length_announced_modulo:
  "unat (Uint32 (ByteOrder f) (take 4 (frame_bytes f data))) = length data mod 2 ^ 32"
  by (simp add: frame_bytes_def unat_of_nat)

section \<open>The encrypted connection\<close>

definition cipher_ok :: "cipher \<Rightarrow> bool" where
  "cipher_ok c \<longleftrightarrow> (\<forall>fb same enc. Encrypt c fb = Some (same, enc) \<longrightarrow>
     (\<forall>fb'. Bytes fb' = Bytes enc \<longrightarrow> (\<exists>same' dec. Decrypt c fb' = Some (same', dec) \<and> Bytes dec = Bytes fb)))"

lemma Bytes_copy_into [simp]: "Bytes (copy_into (AcquireFrameBuffer pooled (length data)) data) = data"
  by (simp add: copy_into_def Let_def Bytes_def)

lemma ReadFrame_written:
  assumes "framer_ok f" and "payload_ok f data"
  shows "\<exists>fb. ReadFrame f pooled (frame_bytes f data @ rest) = ([], Inr (fb, rest)) \<and> Bytes fb = data"
proof -
  have "read_payload f pooled (frame_bytes f data @ rest) = Inr (data, rest)"
    using assms by (rule read_payload_written)
  then obtain rel fb where "ReadFrame f pooled (frame_bytes f data @ rest) = (rel, Inr (fb, rest))" "Bytes fb = data"
    by (auto simp: read_payload_def split: sum.splits prod.splits) (metis prod.collapse)
  moreover from this(1) have "rel = []"
    by (auto simp: ReadFrame_def Let_def split: if_splits sum.splits prod.splits)
  ultimately show ?thesis by simp
qed

text \<open>What the framer can carry: the payload itself, or what the cipher makes of it.\<close>

definition sendable :: "LengthPrefixedFramer \<Rightarrow> cipher option \<Rightarrow> bytes \<Rightarrow> bool" where
  "sendable f ci data \<longleftrightarrow>
    (case ci of
       None \<Rightarrow> payload_ok f data
     | Some c \<Rightarrow> cipher_ok c \<and>
         (\<forall>fb same enc. Bytes fb = data \<and> Encrypt c fb = Some (same, enc) \<longrightarrow> payload_ok f (Bytes enc)))"

text \<open>
  A send that gets as far as writing writes one frame, from which the other side
  recovers the payload.
\<close>

lemma Send_frame:
  assumes "framer_ok f" and "sendable f ci data" and "Send \<lparr>n_framer = f, n_cipher = ci\<rparr> p1 w data = (e, rel, w')"
  obtains "e = Some ErrEncrypt" "w' = w"
  | enc where "WriteFrame f w enc = (e, w')" "payload_ok f enc"
      "\<And>p2 rest. \<exists>rel' fb. Receive \<lparr>n_framer = f, n_cipher = ci\<rparr> p2 (frame_bytes f enc @ rest) = (rel', Inr (fb, rest)) \<and> Bytes fb = data"
proof (cases ci)
  case None
  then have w: "WriteFrame f w data = (e, w')" and ok: "payload_ok f data"
    using assms(2,3) by (auto simp: sendable_def Send_def split: prod.splits)
  have "\<exists>rel' fb. Receive \<lparr>n_framer = f, n_cipher = ci\<rparr> p2 (frame_bytes f data @ rest) = (rel', Inr (fb, rest)) \<and> Bytes fb = data"
    for p2 rest
    using ReadFrame_written [OF assms(1) ok, of p2 rest] None by (auto simp: Receive_def)
  with w ok show ?thesis by (rule that(2))
next
  case (Some c)
  define fb where "fb = copy_into (AcquireFrameBuffer p1 (length data)) data"
  have fb: "Bytes fb = data" by (simp add: fb_def)
  show ?thesis
  proof (cases "Encrypt c fb")
    case None
    then show ?thesis using that(1) assms(3) Some by (simp add: Send_def fb_def)
  next
    case (Some enc)
    obtain same buf where enc: "enc = (same, buf)" by (cases enc)
    have ok: "cipher_ok c" "payload_ok f (Bytes buf)"
      using assms(2) \<open>ci = Some c\<close> Some fb enc by (auto simp: sendable_def)
    have w: "WriteFrame f w (Bytes buf) = (e, w')"
      using assms(3) \<open>ci = Some c\<close> Some enc by (auto simp: Send_def fb_def Let_def split: prod.splits)
    have "\<exists>rel' out. Receive \<lparr>n_framer = f, n_cipher = ci\<rparr> p2 (frame_bytes f (Bytes buf) @ rest) = (rel', Inr (out, rest)) \<and>
        Bytes out = data" for p2 rest
    proof -
      obtain fb' where r: "ReadFrame f p2 (frame_bytes f (Bytes buf) @ rest) = ([], Inr (fb', rest))" "Bytes fb' = Bytes buf"
        using ReadFrame_written [OF assms(1) ok(2)] by blast
      then obtain same' dec where "Decrypt c fb' = Some (same', dec)" "Bytes dec = data"
        using ok(1) Some enc fb unfolding cipher_ok_def by metis
      then show ?thesis using r \<open>ci = Some c\<close> by (simp add: Receive_def)
    qed
    with w ok(2) show ?thesis by (rule that(2))
  qed
qed

section \<open>Properties\<close>

text \<open>Any sequence of payloads within the limit, framed one after the other, is read back as the
  same sequence, whatever old bytes the pooled buffers contain and whatever follows on the stream.\<close>
theorem frames_roundtrip:
  assumes "framer_ok f" and "list_all (payload_ok f) datas"
  shows "read_many (read_payload f pooled) (length datas) (concat (map (frame_bytes f) datas) @ rest) =
    Inr (datas, rest)"
  using framer.read_many_written [where f = f and xs = datas] assms by (simp add: list_all_iff)

theorem frames_roundtrip_witness:
  "read_many (read_payload \<lparr>ByteOrder = BigEndian, Magic = ''VT'', MaxLength = 8\<rparr> None) 2
     (concat (map (frame_bytes \<lparr>ByteOrder = BigEndian, Magic = ''VT'', MaxLength = 8\<rparr>) [''abc'', []]) @ ''x'')
   = Inr ([''abc'', []], ''x'')"
proof -
  have l: "(2 :: nat) = length [''abc'', []]" by simp
  show ?thesis unfolding l by (rule frames_roundtrip) (simp_all add: framer_ok_def payload_ok_def)
qed

text \<open>C20: on any input, the frame read is exactly the announced part of the stream: at most the
  configured maximum, preceded by the magic bytes, with the rest of the stream untouched; every
  other input gives the error for its first defect, and the writer never emits anything but a prefix
  of one frame.\<close>
theorem framer_safe:
  assumes "framer_ok f"
  shows "read_payload f pooled r =
    (let k = 4 + length (Magic f); n = unat (Uint32 (ByteOrder f) (take 4 r)) in
     if length r < k then Inl (IOErr (if r = [] then EOF else ErrUnexpectedEOF))
     else if n > unat (MaxLength f) then Inl (ErrFrameTooLarge n (unat (MaxLength f)))
     else if drop 4 (take k r) \<noteq> Magic f then Inl ErrInvalidMagic
     else if length r < k + n then Inl (IOErr (if length r = k then EOF else ErrUnexpectedEOF))
     else Inr (take n (drop k r), drop (k + n) r)) \<and>
    (\<exists>written. w_out (snd (WriteFrame f w data)) = w_out w @ written \<and> prefix written (frame_bytes f data) \<and>
       (fst (WriteFrame f w data) = None \<longrightarrow> written = frame_bytes f data))"
  using read_payload_eq [OF assms] WriteFrame_prefix by (intro conjI)

theorem framer_safe_witness:
  "read_payload \<lparr>ByteOrder = LittleEndian, Magic = [], MaxLength = 8\<rparr> None ''ab'' = Inl (IOErr ErrUnexpectedEOF)"
  using framer_safe [of "\<lparr>ByteOrder = LittleEndian, Magic = [], MaxLength = 8\<rparr>" None "''ab''"]
  by (simp add: framer_ok_def)

text \<open>With any cipher whose decryption inverts its encryption, or with none, what one side sends
  the other receives: the same bytes, from buffers of any history.\<close>
theorem send_receive:
  assumes "framer_ok f" and "sendable f ci data"
    and "Send \<lparr>n_framer = f, n_cipher = ci\<rparr> p1 \<lparr>w_out = [], w_room = room\<rparr> data = (None, rel, w)"
  shows "\<exists>rel' fb. Receive \<lparr>n_framer = f, n_cipher = ci\<rparr> p2 (w_out w @ rest) = (rel', Inr (fb, rest)) \<and> Bytes fb = data"
  using assms
proof (cases rule: Send_frame)
  case (2 enc)
  then have "w_out w = frame_bytes f enc"
    using WriteFrame_prefix [of f "\<lparr>w_out = [], w_room = room\<rparr>" enc] by auto
  then show ?thesis using 2(3) by simp
qed simp

theorem send_receive_witness:
  "\<exists>rel' fb. Receive \<lparr>n_framer = \<lparr>ByteOrder = LittleEndian, Magic = [], MaxLength = 8\<rparr>, n_cipher = None\<rparr> None
     (w_out (snd (snd (Send \<lparr>n_framer = \<lparr>ByteOrder = LittleEndian, Magic = [], MaxLength = 8\<rparr>, n_cipher = None\<rparr> None
        \<lparr>w_out = [], w_room = 100\<rparr> ''hey''))) @ ''z'') = (rel', Inr (fb, ''z'')) \<and> Bytes fb = ''hey''"
proof -
  let ?f = "\<lparr>ByteOrder = LittleEndian, Magic = [], MaxLength = 8\<rparr>"
  obtain rel w where s: "Send \<lparr>n_framer = ?f, n_cipher = None\<rparr> None \<lparr>w_out = [], w_room = 100\<rparr> ''hey'' = (None, rel, w)"
    by (simp add: Send_def WriteFrame_def Write_def Let_def split: prod.splits)
  have "framer_ok ?f" by (simp add: framer_ok_def)
  from send_receive [OF this _ s, of None "''z''"] s show ?thesis by (simp add: sendable_def payload_ok_def)
qed

end
