(* ===== verification/Socket_Dispatch.thy ===== *)
theory Socket_Dispatch
  imports Socket_Frame "HOL-Library.Multiset"
begin

text \<open>
  Packages \<^verbatim>\<open>dispatcher\<close>, \<^verbatim>\<open>processor\<close> and \<^verbatim>\<open>session\<close> under \<^verbatim>\<open>src/socket\<close>: the routing
  of decoded packets, the worker pool that decodes frames, and the session state.
  The job manager \<^verbatim>\<open>task.Manager\<close> is the record \<open>task_lib\<close> of its functions over an
  abstract state, with the behaviour relied upon as \<open>task_laws\<close>.  Handlers are
  numbers; what was called is part of the result of \<open>Dispatch\<close>.
\<close>

section \<open>dispatcher.go\<close>

datatype 'e task_result = TaskPacket 'e | TaskCancelled

record ('job, 'pkt, 't) task_lib =
  Add :: "'job \<Rightarrow> 't \<Rightarrow> 't"
  ResolveTask :: "'job \<Rightarrow> 'pkt task_result \<Rightarrow> 't \<Rightarrow> bool \<times> 't"
  CancelAll :: "'t \<Rightarrow> 't"
  pending :: "'t \<Rightarrow> 'job set"

text \<open>A job is pending from \<open>Add\<close> until it is resolved; resolving reports whether it was.\<close>

definition task_laws :: "('job, 'pkt, 't) task_lib \<Rightarrow> bool" where
  "task_laws L \<longleftrightarrow>
    (\<forall>j t. pending L (Add L j t) \<subseteq> insert j (pending L t)) \<and>
    (\<forall>j t. pending L t \<subseteq> pending L (Add L j t)) \<and>
    (\<forall>j r t. fst (ResolveTask L j r t) \<longleftrightarrow> j \<in> pending L t) \<and>
    (\<forall>j r t. pending L (snd (ResolveTask L j r t)) = pending L t - {j}) \<and>
    (\<forall>t. pending L (CancelAll L t) = {})"

record ('op, 'job, 'pkt) Extractor =
  GetOpCode :: "('pkt \<Rightarrow> 'op) option"
  GetMethod :: "('pkt \<Rightarrow> bytes option) option"
  GetJobID :: "('pkt \<Rightarrow> 'job option) option"

record ('op, 't) Dispatcher =
  tasks :: 't
  opcodeHandlers :: "'op \<Rightarrow> nat option"
  methodHandlers :: "bytes \<Rightarrow> nat option"
  jobCounter :: "64 word"
  d_closed :: bool

text \<open>The capacity handed to the job manager is an argument of its constructor.\<close>

definition max_jobs :: "int \<Rightarrow> int" where
  "max_jobs MaxJobs = (if MaxJobs \<le> 0 then 1000 else MaxJobs)"

definition New_dispatcher :: "(int \<Rightarrow> 't) \<Rightarrow> int \<Rightarrow> ('op, 't) Dispatcher" where
  "New_dispatcher NewManager MaxJobs =
    \<lparr>tasks = NewManager (max_jobs MaxJobs), opcodeHandlers = (\<lambda>_. None), methodHandlers = (\<lambda>_. None),
     jobCounter = 0, d_closed = False\<rparr>"

definition NextJobID :: "('op, 't) Dispatcher \<Rightarrow> 64 word \<times> ('op, 't) Dispatcher" where
  "NextJobID d = (let n = jobCounter d + 1 in (n, d\<lparr>jobCounter := n\<rparr>))"

text \<open>Registering no handler (nil) deletes the entry.\<close>

definition RegisterHandler :: "'op \<Rightarrow> nat option \<Rightarrow> ('op, 't) Dispatcher \<Rightarrow> ('op, 't) Dispatcher" where
  "RegisterHandler op h d = d\<lparr>opcodeHandlers := (opcodeHandlers d)(op := h)\<rparr>"

definition RegisterMethodHandler :: "bytes \<Rightarrow> nat option \<Rightarrow> ('op, 't) Dispatcher \<Rightarrow> ('op, 't) Dispatcher" where
  "RegisterMethodHandler m h d = d\<lparr>methodHandlers := (methodHandlers d)(m := h)\<rparr>"

definition ClearHandlers :: "('op, 't) Dispatcher \<Rightarrow> ('op, 't) Dispatcher" where
  "ClearHandlers d = d\<lparr>opcodeHandlers := (\<lambda>_. None), methodHandlers := (\<lambda>_. None)\<rparr>"

datatype disp_error = DErrClosed | DErrSend | DErrCtx | DErrCancelled

text \<open>What \<^verbatim>\<open>SendSync\<close> meets: the outcome of the write, then the end of the context or the result;
  the flag with a result says whether the context has ended by then.\<close>

datatype 'pkt sync_wait = SyncCtx | SyncResult "'pkt task_result" bool

definition SendSync ::
  "('job, 'pkt, 't) task_lib \<Rightarrow> bool \<Rightarrow> 'pkt sync_wait \<Rightarrow> 'job \<Rightarrow> ('op, 't) Dispatcher \<Rightarrow>
   (disp_error + 'pkt) \<times> ('op, 't) Dispatcher" where
  "SendSync L sent wait jobID d =
    (if d_closed d then (Inl DErrClosed, d)
     else
      (let d = d\<lparr>tasks := Add L jobID (tasks d)\<rparr>;
           finish = (\<lambda>d. d\<lparr>tasks := snd (ResolveTask L jobID TaskCancelled (tasks d))\<rparr>)
       in if \<not> sent then (Inl DErrSend, finish d)
          else (case wait of
                  SyncCtx \<Rightarrow> Inl DErrCtx
                | SyncResult TaskCancelled ended \<Rightarrow> (if ended then Inl DErrCtx else Inl DErrCancelled)
                | SyncResult (TaskPacket pkt) ended \<Rightarrow> Inr pkt, finish d)))"

datatype handler_call = MethodHandler nat | OpcodeHandler nat

definition Dispatch ::
  "('job, 'pkt, 't) task_lib \<Rightarrow> ('op, 'job, 'pkt) Extractor \<Rightarrow> 'pkt \<Rightarrow> ('op, 't) Dispatcher \<Rightarrow>
   bool \<times> handler_call list \<times> ('op, 't) Dispatcher" where
  "Dispatch L X packet d =
    (let job = (case GetJobID X of
                  None \<Rightarrow> (False, tasks d)
                | Some f \<Rightarrow> (case f packet of
                     None \<Rightarrow> (False, tasks d)
                   | Some jobID \<Rightarrow> ResolveTask L jobID (TaskPacket packet) (tasks d)));
         d = d\<lparr>tasks := snd job\<rparr>
     in if fst job then (True, [], d)
        else
         (let method = (case GetMethod X of
                          None \<Rightarrow> None
                        | Some f \<Rightarrow> (case f packet of
                             None \<Rightarrow> None
                           | Some m \<Rightarrow> (if m \<noteq> [] then methodHandlers d m else None)))
          in case method of
               Some h \<Rightarrow> (True, [MethodHandler h], d)
             | None \<Rightarrow>
                 (case GetOpCode X of
                    None \<Rightarrow> (False, [], d)
                  | Some f \<Rightarrow>
                      (case opcodeHandlers d (f packet) of
                         Some h \<Rightarrow> (True, [OpcodeHandler h], d)
                       | None \<Rightarrow> (False, [], d)))))"

definition Close_dispatcher :: "('job, 'pkt, 't) task_lib \<Rightarrow> ('op, 't) Dispatcher \<Rightarrow> ('op, 't) Dispatcher" where
  "Close_dispatcher L d =
    (if d_closed d then d else d\<lparr>d_closed := True, tasks := CancelAll L (tasks d)\<rparr>)"

section \<open>session.go\<close>

text \<open>An atomic pointer is the value it holds.\<close>

definition NewState :: "'a option \<Rightarrow> 'a option" where
  "NewState initial = initial"

definition Load_state :: "'a option \<Rightarrow> 'a option" where
  "Load_state s = s"

definition Store_state :: "'a option \<Rightarrow> 'a option \<Rightarrow> 'a option" where
  "Store_state val s = val"

definition Swap :: "'a option \<Rightarrow> 'a option \<Rightarrow> 'a option \<times> 'a option" where
  "Swap val s = (s, val)"

record BasicSession =
  sessionID :: "64 word"
  token :: "bytes option"

definition SetSessionID :: "64 word \<Rightarrow> BasicSession \<Rightarrow> BasicSession" where
  "SetSessionID n b = b\<lparr>sessionID := n\<rparr>"

definition SetToken :: "bytes \<Rightarrow> BasicSession \<Rightarrow> BasicSession" where
  "SetToken t b = b\<lparr>token := Some t\<rparr>"

definition Token :: "BasicSession \<Rightarrow> bytes" where
  "Token b = (case token b of Some t \<Rightarrow> t | None \<Rightarrow> [])"

section \<open>processor.go\<close>

definition worker_count :: "int \<Rightarrow> int \<Rightarrow> int" where
  "worker_count NumCPU WorkerCount = (if WorkerCount \<le> 0 then max NumCPU 2 else WorkerCount)"

text \<open>
  One frame: decoded and handed to the consumer, if both are there; the buffer is
  released in every case.  The result is what was dispatched and what was released.
\<close>

definition processFrame ::
  "(bytes \<Rightarrow> 'pkt option) option \<Rightarrow> bool \<Rightarrow> FrameBuffer \<Rightarrow> 'pkt list \<times> FrameBuffer list" where
  "processFrame decode consumer fb =
    ((case decode of
        None \<Rightarrow> []
      | Some f \<Rightarrow> if \<not> consumer then []
                  else (case f (Bytes fb) of None \<Rightarrow> [] | Some pkt \<Rightarrow> [pkt])), [fb])"

text \<open>
  The pool: the input channel (with whether it is closed), the context, the number of
  workers waiting in their \<^verbatim>\<open>select\<close>, the frames workers hold, and the record of
  what was enqueued, dispatched and released.
\<close>

record 'pkt pool =
  input :: "FrameBuffer option list"
  input_closed :: bool
  cancelled :: bool
  started_once :: bool
  idle :: nat
  busy :: "FrameBuffer multiset"
  enqueued :: "FrameBuffer multiset"
  dispatched :: "'pkt multiset"
  released :: "FrameBuffer multiset"

text \<open>A processor: the number of its workers, and its pool before they are started, on a channel still empty.\<close>

definition New_processor :: "int \<Rightarrow> int \<Rightarrow> nat \<times> 'pkt pool" where
  "New_processor NumCPU WorkerCount =
    (nat (worker_count NumCPU WorkerCount),
     \<lparr>input = [], input_closed = False, cancelled = False, started_once = False, idle = 0, busy = {#}, enqueued = {#},
      dispatched = {#}, released = {#}\<rparr>)"

definition Start :: "nat \<Rightarrow> 'pkt pool \<Rightarrow> 'pkt pool" where
  "Start workers p = (if started_once p then p else p\<lparr>started_once := True, idle := idle p + workers\<rparr>)"

definition Stop :: "'pkt pool \<Rightarrow> 'pkt pool" where
  "Stop p = p\<lparr>cancelled := True\<rparr>"

inductive pool_step :: "(bytes \<Rightarrow> 'pkt option) option \<Rightarrow> bool \<Rightarrow> nat \<Rightarrow> 'pkt pool \<Rightarrow> 'pkt pool \<Rightarrow> bool"
  for decode :: "(bytes \<Rightarrow> 'pkt option) option" and consumer :: bool and workers :: nat where
  Pool_start: "pool_step decode consumer workers p (Start workers p)"
| Pool_stop: "pool_step decode consumer workers p (Stop p)"
| Pool_enqueue: "\<not> input_closed p \<Longrightarrow> pool_step decode consumer workers p
     (p\<lparr>input := input p @ [x], enqueued := enqueued p + (case x of None \<Rightarrow> {#} | Some fb \<Rightarrow> {#fb#})\<rparr>)"
| Pool_close: "pool_step decode consumer workers p (p\<lparr>input_closed := True\<rparr>)"
| Worker_cancelled: "idle p > 0 \<Longrightarrow> cancelled p \<Longrightarrow> pool_step decode consumer workers p (p\<lparr>idle := idle p - 1\<rparr>)"
| Worker_drained: "idle p > 0 \<Longrightarrow> input p = [] \<Longrightarrow> input_closed p \<Longrightarrow>
     pool_step decode consumer workers p (p\<lparr>idle := idle p - 1\<rparr>)"
| Worker_nil: "idle p > 0 \<Longrightarrow> input p = None # rest \<Longrightarrow>
     pool_step decode consumer workers p (p\<lparr>input := rest\<rparr>)"
| Worker_take: "idle p > 0 \<Longrightarrow> input p = Some fb # rest \<Longrightarrow>
     pool_step decode consumer workers p (p\<lparr>input := rest, idle := idle p - 1, busy := busy p + {#fb#}\<rparr>)"
| Worker_process: "fb \<in># busy p \<Longrightarrow> processFrame decode consumer fb = (pkts, bufs) \<Longrightarrow>
     pool_step decode consumer workers p (p\<lparr>busy := busy p - {#fb#}, idle := idle p + 1,
       dispatched := dispatched p + mset pkts, released := released p + mset bufs\<rparr>)"

inductive_cases pool_stepE: "pool_step decode consumer workers p q"

definition pool_init :: "'pkt pool \<Rightarrow> bool" where
  "pool_init p \<longleftrightarrow> input p = [] \<and> \<not> started_once p \<and> idle p = 0 \<and> busy p = {#} \<and> enqueued p = {#} \<and>
     dispatched p = {#} \<and> released p = {#}"

text \<open>Whatever is configured, a new processor has a worker to start and nothing done yet.\<close>

lemma new_processor_init:
  assumes "New_processor NumCPU WorkerCount = (workers, p)"
  shows "0 < workers" and "pool_init p" and "idle (Start workers p) = workers"
  using assms by (auto simp: New_processor_def worker_count_def pool_init_def Start_def)

lemma state_cell: "Load_state (Store_state v s) = v" "Swap v s = (Load_state s, Store_state v s)"
  by (simp_all add: Load_state_def Store_state_def Swap_def)

section \<open>Routing\<close>

interpretation opcodes: registry "\<lambda>_. True" "\<lambda>op d. opcodeHandlers d op"
    "\<lambda>op h. RegisterHandler op (Some h)"
  by unfold_locales (simp_all add: RegisterHandler_def)

interpretation methods: registry "\<lambda>_. True" "\<lambda>m d. methodHandlers d m"
    "\<lambda>m h. RegisterMethodHandler m (Some h)"
  by unfold_locales (simp_all add: RegisterMethodHandler_def)

definition job_of :: "('op, 'job, 'pkt) Extractor \<Rightarrow> 'pkt \<Rightarrow> 'job option" where
  "job_of X p = (case GetJobID X of None \<Rightarrow> None | Some f \<Rightarrow> f p)"

definition method_of :: "('op, 'job, 'pkt) Extractor \<Rightarrow> 'pkt \<Rightarrow> bytes option" where
  "method_of X p = (case GetMethod X of None \<Rightarrow> None | Some f \<Rightarrow>
     (case f p of None \<Rightarrow> None | Some m \<Rightarrow> if m = [] then None else Some m))"

definition opcode_of :: "('op, 'job, 'pkt) Extractor \<Rightarrow> 'pkt \<Rightarrow> 'op option" where
  "opcode_of X p = (case GetOpCode X of None \<Rightarrow> None | Some f \<Rightarrow> Some (f p))"

lemma Dispatch_calls:
  assumes "task_laws L"
  shows "let j = job_of X p; resolved = (\<exists>x. j = Some x \<and> x \<in> pending L (tasks d));
             calls = (if resolved then []
                      else case Option.bind (method_of X p) (methodHandlers d) of
                             Some h \<Rightarrow> [MethodHandler h]
                           | None \<Rightarrow> (case Option.bind (opcode_of X p) (opcodeHandlers d) of
                                         Some h \<Rightarrow> [OpcodeHandler h] | None \<Rightarrow> []))
         in \<exists>d'. Dispatch L X p d = (resolved \<or> calls \<noteq> [], calls, d') \<and>
              pending L (tasks d') = pending L (tasks d) - set_option j"
  using assms
  by (auto simp: Dispatch_def Let_def job_of_def method_of_def opcode_of_def task_laws_def
      split: option.splits if_splits)

lemma task_lawsD:
  assumes "task_laws L"
  shows "pending L (Add L j t) \<subseteq> insert j (pending L t)" and "pending L t \<subseteq> pending L (Add L j t)"
    and "fst (ResolveTask L j r t) \<longleftrightarrow> j \<in> pending L t"
    and "pending L (snd (ResolveTask L j r t)) = pending L t - {j}"
    and "pending L (CancelAll L t) = {}"
  using assms unfolding task_laws_def by (simp_all only: simp_thms)

lemma SendSync_pending:
  assumes "task_laws L" and "\<not> d_closed d"
  shows "pending L (tasks (snd (SendSync L sent wait j d))) = pending L (tasks d) - {j}"
proof -
  have "pending L (Add L j (tasks d)) - {j} = pending L (tasks d) - {j}"
    using task_lawsD(1,2) [OF assms(1), where j = j and t = "tasks d"] by auto
  then show ?thesis using assms(2) by (simp add: SendSync_def Let_def task_lawsD(4) [OF assms(1)])
qed

lemma registered_methods [simp]:
  "methodHandlers (fold (\<lambda>r. RegisterHandler (fst r) (Some (snd r))) rs e) = methodHandlers e"
  by (induction rs arbitrary: e) (simp_all add: RegisterHandler_def)

lemma registered_opcodes [simp]:
  "opcodeHandlers (fold (\<lambda>r. RegisterMethodHandler (fst r) (Some (snd r))) rs e) = opcodeHandlers e"
  by (induction rs arbitrary: e) (simp_all add: RegisterMethodHandler_def)

section \<open>Job numbers\<close>

fun job_ids :: "nat \<Rightarrow> ('op, 't) Dispatcher \<Rightarrow> 64 word list \<times> ('op, 't) Dispatcher" where
  "job_ids 0 d = ([], d)"
| "job_ids (Suc k) d =
    (case NextJobID d of (n, d) \<Rightarrow> (case job_ids k d of (ns, d) \<Rightarrow> (n # ns, d)))"

lemma job_ids_eq: "fst (job_ids k d) = map (\<lambda>i. jobCounter d + word_of_nat (Suc i)) [0..<k]"
proof (induction k arbitrary: d)
  case 0
  then show ?case by simp
next
  case (Suc k)
  have "[0..<Suc k] = 0 # map Suc [0..<k]" by (simp add: map_Suc_upt upt_conv_Cons)
  with Suc [of "d\<lparr>jobCounter := jobCounter d + 1\<rparr>"] show ?case
    by (simp add: NextJobID_def Let_def split_beta comp_def ac_simps del: upt_Suc)
qed

lemma job_ids_distinct:
  assumes "k \<le> 2 ^ 64"
  shows "distinct (fst (job_ids k d))"
proof -
  have "inj_on (\<lambda>i. jobCounter d + word_of_nat (Suc i)) {0..<k}"
  proof (rule inj_onI)
    fix i j assume ij: "i \<in> {0..<k}" "j \<in> {0..<k}"
      and eq: "jobCounter d + word_of_nat (Suc i) = jobCounter d + word_of_nat (Suc j)"
    then have "(word_of_nat i :: 64 word) = word_of_nat j" by simp
    then have "i mod 2 ^ 64 = j mod 2 ^ 64" by (simp add: word_of_nat_eq_iff take_bit_eq_mod)
    then show "i = j" using ij assms by simp
  qed
  then show ?thesis by (simp add: job_ids_eq distinct_map)
qed

section \<open>The worker pool\<close>

definition waiting :: "'pkt pool \<Rightarrow> FrameBuffer multiset" where
  "waiting p = mset (concat (map (\<lambda>x. case x of None \<Rightarrow> [] | Some fb \<Rightarrow> [fb]) (input p)))"

definition pool_inv :: "(bytes \<Rightarrow> 'pkt option) option \<Rightarrow> bool \<Rightarrow> nat \<Rightarrow> 'pkt pool \<Rightarrow> bool" where
  "pool_inv decode consumer workers p \<longleftrightarrow>
     enqueued p = waiting p + busy p + released p \<and>
     dispatched p = (\<Sum>fb\<in>#released p. mset (fst (processFrame decode consumer fb))) \<and>
     (if started_once p then idle p + size (busy p) \<le> workers else idle p = 0 \<and> busy p = {#})"

lemma pool_inv_init: "pool_init p \<Longrightarrow> pool_inv decode consumer workers p"
  by (simp add: pool_init_def pool_inv_def waiting_def)

lemma pool_inv_step:
  assumes "pool_inv decode consumer workers p" and "pool_step decode consumer workers p q"
  shows "pool_inv decode consumer workers q"
  using assms(2,1)
proof cases
  case (Worker_process fb pkts bufs)
  then obtain b where b: "busy p = add_mset fb b" by (metis mset_add)
  show ?thesis using Worker_process assms(1) b
    by (auto simp: pool_inv_def waiting_def processFrame_def split: if_splits)
qed (auto simp: pool_inv_def waiting_def Start_def Stop_def split: option.splits if_splits)

interpretation worker_pool: invariant_system pool_init "pool_step decode consumer workers"
    "pool_inv decode consumer workers" for decode consumer workers
  by unfold_locales (auto intro: pool_inv_init pool_inv_step)

section \<open>Properties\<close>

text \<open>A packet goes to exactly one place: the pending job it answers; else the handler last
  registered for its (non-empty) method; else the one for its operation code; else nowhere, and only
  then \<^verbatim>\<open>Dispatch\<close> reports false.  It removes that job and no other.\<close>
theorem dispatch_priority:
  assumes "task_laws L" and "\<forall>m. methodHandlers d m = None" and "\<forall>op. opcodeHandlers d op = None"
    and "d1 = fold (\<lambda>r. RegisterMethodHandler (fst r) (Some (snd r))) ms
           (fold (\<lambda>r. RegisterHandler (fst r) (Some (snd r))) ops d)"
  shows "let j = job_of X p; resolved = (\<exists>x. j = Some x \<and> x \<in> pending L (tasks d1));
             calls = (if resolved then []
                      else case Option.bind (method_of X p) (map_of (rev ms)) of
                             Some h \<Rightarrow> [MethodHandler h]
                           | None \<Rightarrow> (case Option.bind (opcode_of X p) (map_of (rev ops)) of
                                         Some h \<Rightarrow> [OpcodeHandler h] | None \<Rightarrow> []))
         in \<exists>d'. Dispatch L X p d1 = (resolved \<or> calls \<noteq> [], calls, d') \<and>
              pending L (tasks d') = pending L (tasks d1) - set_option j"
proof -
  define d0 where "d0 = fold (\<lambda>r. RegisterHandler (fst r) (Some (snd r))) ops d"
  have m: "methodHandlers d1 = map_of (rev ms)"
    using methods.get_after_puts [where regs = ms and s = d0] assms(2,4)
    by (auto simp: fun_eq_iff list_all_iff d0_def registered_methods split: option.splits)
  have o: "opcodeHandlers d1 = map_of (rev ops)"
    using opcodes.get_after_puts [where regs = ops and s = d] assms(3,4)
    by (auto simp: fun_eq_iff list_all_iff d0_def registered_opcodes split: option.splits)
  show ?thesis using Dispatch_calls [OF assms(1), of X p d1] by (simp only: m o)
qed

definition sample_tasks :: "(nat, nat, nat list) task_lib" where
  "sample_tasks = \<lparr>Add = (#), ResolveTask = (\<lambda>j r t. (j \<in> set t, filter (\<lambda>x. x \<noteq> j) t)),
     CancelAll = (\<lambda>_. []), pending = set\<rparr>"

theorem dispatch_priority_witness:
  "\<exists>d'. Dispatch sample_tasks \<lparr>GetOpCode = Some (\<lambda>p. p), GetMethod = None, GetJobID = Some (\<lambda>p. Some p)\<rparr> 5
      (RegisterHandler 5 (Some 9) (New_dispatcher (\<lambda>_. [4]) 0)) = (True, [OpcodeHandler 9], d')"
proof -
  let ?X = "\<lparr>GetOpCode = Some (\<lambda>p. p), GetMethod = None, GetJobID = Some (\<lambda>p. Some p)\<rparr>"
  let ?d = "New_dispatcher (\<lambda>_. [4]) 0 :: (nat, nat list) Dispatcher"
  have "task_laws sample_tasks" by (auto simp: task_laws_def sample_tasks_def)
  from dispatch_priority [OF this, of ?d "RegisterHandler 5 (Some 9) ?d" "[]" "[(5, 9)]" ?X 5] show ?thesis
    by (auto simp: New_dispatcher_def RegisterHandler_def job_of_def method_of_def opcode_of_def sample_tasks_def)
qed

text \<open>C8: jobs do not leak.  Whatever happens to a synchronous request - a failed write, a cancelled
  context, a cancelled job or an answer - its job is no longer pending afterwards and every other job
  is untouched; after closing nothing is pending and requests are refused; and job numbers repeat
  only after \<open>2 ^ 64\<close> calls.\<close>
theorem jobs_do_not_leak:
  assumes "task_laws L"
  shows "(\<not> d_closed d \<longrightarrow> pending L (tasks (snd (SendSync L sent wait j d))) = pending L (tasks d) - {j} \<and>
       pending L (tasks (Close_dispatcher L d)) = {}) \<and>
    SendSync L sent wait j (Close_dispatcher L d) = (Inl DErrClosed, Close_dispatcher L d) \<and>
    (k \<le> 2 ^ 64 \<longrightarrow> distinct (fst (job_ids k d)))"
  using SendSync_pending [OF assms, of d sent wait j] job_ids_distinct [of k d] task_lawsD(5) [OF assms]
  by (auto simp: Close_dispatcher_def SendSync_def)

theorem jobs_do_not_leak_witness:
  "pending sample_tasks (tasks (snd (SendSync sample_tasks False SyncCtx 4
     (New_dispatcher (\<lambda>_. [4, 6]) 0 :: (nat, nat list) Dispatcher)))) = {6}"
proof -
  have "task_laws sample_tasks" by (auto simp: task_laws_def sample_tasks_def)
  from jobs_do_not_leak [OF this, of "New_dispatcher (\<lambda>_. [4, 6]) 0 :: (nat, nat list) Dispatcher" False SyncCtx 4 0] show ?thesis
    by (simp add: New_dispatcher_def sample_tasks_def)
qed

text \<open>C21: the worker pool loses, duplicates and leaks nothing.  However workers, producer and
  shutdown interleave, every frame put into the channel is waiting, held by one worker, or released
  once; what was dispatched is exactly the decodable part of what was released; and no more workers
  run than were configured.\<close>
theorem pool_conserves_frames:
  assumes "reach pool_init (pool_step decode consumer workers) p"
  shows "enqueued p = waiting p + busy p + released p \<and>
    dispatched p = (\<Sum>fb\<in>#released p. mset (fst (processFrame decode consumer fb))) \<and>
    idle p + size (busy p) \<le> workers \<and>
    (input p = [] \<and> busy p = {#} \<longrightarrow> released p = enqueued p)"
  using worker_pool.reach_inv [OF assms] by (auto simp: pool_inv_def waiting_def split: if_splits)

theorem pool_conserves_frames_witness:
  "\<exists>p. reach pool_init (pool_step (Some (\<lambda>b. Some (length b))) True 1) p \<and> idle p = 1 \<and>
     enqueued p = {#make_buffer 3#} \<and> enqueued p = waiting p + busy p + released p"
proof -
  let ?st = "pool_step (Some (\<lambda>b. Some (length b))) True 1"
  define p0 :: "nat pool" where "p0 = \<lparr>input = [], input_closed = False, cancelled = False, started_once = False, idle = 0,
     busy = {#}, enqueued = {#}, dispatched = {#}, released = {#}\<rparr>"
  define p1 where "p1 = Start 1 p0"
  define p2 where "p2 = p1\<lparr>input := input p1 @ [Some (make_buffer 3)], enqueued := enqueued p1 +
     (case Some (make_buffer 3) of None \<Rightarrow> {#} | Some fb \<Rightarrow> {#fb#})\<rparr>"
  have "?st p1 p2" unfolding p2_def by (rule Pool_enqueue) (simp add: p1_def p0_def Start_def)
  moreover have "?st p0 p1" unfolding p1_def by (rule Pool_start)
  moreover have "reach pool_init ?st p0" by (rule reach_init) (simp add: pool_init_def p0_def)
  ultimately have r: "reach pool_init ?st p2" by (metis reach_step)
  show ?thesis using pool_conserves_frames [OF r] r by (intro exI [of _ p2]) (simp add: p2_def p1_def p0_def Start_def)
qed

end
