(* ===== verification/Socket_Connector.thy ===== *)
theory Socket_Connector
  imports Socket_Frame Complex_Main
begin

text \<open>
  Package \<^verbatim>\<open>connector\<close> (\<^verbatim>\<open>src/socket/connector/connector.go\<close>): the connection life cycle.
  The record \<open>Connector\<close> holds the fields of the Go struct and, in the fields
  starting with \<open>w_\<close>, the world around it: which connections are open, which
  reconnection contexts were cancelled, and the goroutines (read loops by their
  connection, reconnection loops by their context).  A connection and a context are
  numbers.  The dialer, the random numbers and the floating-point multiplication of
  the backoff are arguments.  An operation runs between two points where it waits; a
  dial is such a point, so \<^verbatim>\<open>Connect\<close> is a part before and a part after the dial.
\<close>

section \<open>Policy\<close>

record 'ep ReconnectPolicy =
  MaxAttempts :: int
  InitialBackoff :: int
  MaxBackoff :: int
  BackoffFactor :: rat
  Jitter :: bool
  EndpointSelector :: "('ep list \<Rightarrow> 'ep option) option"

text \<open>\<open>rnd n\<close> is the result of \<^verbatim>\<open>rand.IntN(n)\<close>.\<close>

definition default_selector :: "(nat \<Rightarrow> nat) \<Rightarrow> 'ep list \<Rightarrow> 'ep option" where
  "default_selector rnd eps = (if length eps = 0 then None else Some (eps ! rnd (length eps)))"

definition DefaultReconnectPolicy :: "(nat \<Rightarrow> nat) \<Rightarrow> 'ep ReconnectPolicy" where
  "DefaultReconnectPolicy rnd =
    \<lparr>MaxAttempts = 0, InitialBackoff = 1000000000, MaxBackoff = 30 * 1000000000, BackoffFactor = 2,
     Jitter = True, EndpointSelector = Some (default_selector rnd)\<rparr>"

definition resolve_policy :: "(nat \<Rightarrow> nat) \<Rightarrow> 'ep ReconnectPolicy \<Rightarrow> 'ep ReconnectPolicy" where
  "resolve_policy rnd p =
    (let d = DefaultReconnectPolicy rnd;
         p = (if InitialBackoff p = 0 then d else p);
         p = (if EndpointSelector p = None then p\<lparr>EndpointSelector := EndpointSelector d\<rparr> else p);
         p = (if MaxBackoff p = 0 then p\<lparr>MaxBackoff := MaxBackoff d\<rparr> else p)
     in if BackoffFactor p \<le> 1 then p\<lparr>BackoffFactor := BackoffFactor d\<rparr> else p)"

text \<open>
  The pause after a failed attempt.  \<open>jit n\<close> is the result of \<^verbatim>\<open>rand.Int64N(n)\<close>, which
  panics (\<open>None\<close>) unless \<open>n\<close> is positive; Go's division truncates.
\<close>

definition sleepDur :: "(int \<Rightarrow> int) \<Rightarrow> 'ep ReconnectPolicy \<Rightarrow> int \<Rightarrow> int option" where
  "sleepDur jit p backoff =
    (if Jitter p then
       (let half = (if backoff \<ge> 0 then backoff div 2 else - ((- backoff) div 2))
        in if half \<le> 0 then None
           else Some (min (wrap64 (backoff + jit half)) (MaxBackoff p)))
     else Some (min backoff (MaxBackoff p)))"

definition next_backoff :: "(int \<Rightarrow> rat \<Rightarrow> int) \<Rightarrow> 'ep ReconnectPolicy \<Rightarrow> int \<Rightarrow> int" where
  "next_backoff mul p backoff =
    (let factor = (if BackoffFactor p \<le> 1 then 2 else BackoffFactor p)
     in min (mul backoff factor) (MaxBackoff p))"

section \<open>State\<close>

datatype conn_error = CErrClosed | CErrDisconnected | CErrAlreadyConnecting | CErrNoDialer | CErrDial | CErrSend

datatype loop_at = RTop | RDial | RSleep

record rloop =
  rl_ctx :: nat
  rl_backoff :: int
  rl_attempts :: int
  rl_pc :: loop_at

record 'ep Connector =
  c_policy :: "'ep ReconnectPolicy"
  c_dialer :: bool
  c_timeout :: int
  c_closed :: bool
  c_conn :: "nat option"
  c_connecting :: bool
  c_recCancel :: "nat option"
  c_last :: 'ep
  c_endpoints :: "'ep list"
  c_onReconnect :: "nat option"
  c_incoming :: "FrameBuffer list"
  w_open :: "nat list"
  w_cancelled :: "nat list"
  w_reads :: "nat list"
  w_loops :: "rloop list"
  w_callbacks :: "nat list"
  w_next :: nat

definition New_connector ::
  "(nat \<Rightarrow> nat) \<Rightarrow> (int \<Rightarrow> int \<Rightarrow> int) \<Rightarrow> 'ep ReconnectPolicy \<Rightarrow> bool \<Rightarrow> int \<Rightarrow> 'ep \<Rightarrow> 'ep Connector" where
  "New_connector rnd coalesce policy dialer timeout zero =
    \<lparr>c_policy = resolve_policy rnd policy, c_dialer = dialer,
     c_timeout = coalesce timeout (20 * 1000000000), c_closed = False,
     c_conn = None, c_connecting = False, c_recCancel = None, c_last = zero, c_endpoints = [],
     c_onReconnect = None, c_incoming = [], w_open = [], w_cancelled = [], w_reads = [], w_loops = [],
     w_callbacks = [], w_next = 0\<rparr>"

definition IsConnected :: "'ep Connector \<Rightarrow> bool" where
  "IsConnected c \<longleftrightarrow> c_conn c \<noteq> None \<and> \<not> c_closed c"

definition CurrentEndpoint :: "'ep Connector \<Rightarrow> 'ep \<times> bool" where
  "CurrentEndpoint c = (c_last c, c_conn c \<noteq> None \<and> \<not> c_closed c)"

text \<open>
  One look of \<^verbatim>\<open>WaitForConnection\<close> at the connector: its result, or none to keep waiting.
  When the connector is closed the \<^verbatim>\<open>select\<close> may still choose a pending tick.
\<close>

definition wait_poll :: "bool \<Rightarrow> 'ep Connector \<Rightarrow> conn_error option option" where
  "wait_poll tick c =
    (if c_closed c \<and> \<not> tick then Some (Some CErrClosed)
     else if IsConnected c then Some None
     else if \<not> c_connecting c then Some (Some CErrDisconnected)
     else None)"

definition SetOnReconnect :: "nat \<Rightarrow> 'ep Connector \<Rightarrow> 'ep Connector" where
  "SetOnReconnect f c = c\<lparr>c_onReconnect := Some f\<rparr>"

definition UpdateEndpoints :: "'ep list \<Rightarrow> 'ep Connector \<Rightarrow> 'ep Connector" where
  "UpdateEndpoints eps c = c\<lparr>c_endpoints := eps\<rparr>"

definition close_conn :: "nat option \<Rightarrow> 'ep Connector \<Rightarrow> 'ep Connector" where
  "close_conn n c = (case n of None \<Rightarrow> c | Some n \<Rightarrow> c\<lparr>w_open := filter (\<lambda>m. m \<noteq> n) (w_open c)\<rparr>)"

section \<open>Operations\<close>

definition cancelReconnect :: "'ep Connector \<Rightarrow> 'ep Connector" where
  "cancelReconnect c =
    (case c_recCancel c of
       None \<Rightarrow> c
     | Some x \<Rightarrow> c\<lparr>c_recCancel := None, w_cancelled := x # w_cancelled c\<rparr>)"

definition triggerReconnect :: "'ep Connector \<Rightarrow> 'ep Connector" where
  "triggerReconnect c =
    (if c_recCancel c \<noteq> None \<or> c_closed c then c
     else c\<lparr>c_recCancel := Some (w_next c), w_next := Suc (w_next c),
            w_loops := w_loops c @ [\<lparr>rl_ctx = w_next c, rl_backoff = InitialBackoff (c_policy c),
                                     rl_attempts = 0, rl_pc = RTop\<rparr>]\<rparr>)"

definition connect_begin :: "bool \<Rightarrow> 'ep Connector \<Rightarrow> conn_error option \<times> 'ep Connector" where
  "connect_begin reconnecting c =
    (if c_closed c then (Some CErrClosed, c)
     else
      (let c = (if \<not> reconnecting then cancelReconnect c else c) in
       if c_connecting c then (Some CErrAlreadyConnecting, c)
       else if \<not> c_dialer c then (Some CErrNoDialer, c)
       else (None, c\<lparr>c_connecting := True\<rparr>)))"

text \<open>The dialer's result: whether it succeeded; a new connection gets the next number.\<close>

definition connect_commit :: "bool \<Rightarrow> 'ep \<Rightarrow> bool \<Rightarrow> 'ep Connector \<Rightarrow> conn_error option \<times> 'ep Connector" where
  "connect_commit reconnecting endpoint dialled c =
    (if \<not> dialled then (Some CErrDial, c\<lparr>c_connecting := False\<rparr>)
     else
      (let n = w_next c;
           c = c\<lparr>w_next := Suc n, w_open := n # w_open c\<rparr>;
           c = close_conn (c_conn c) c;
           c = c\<lparr>c_conn := Some n, c_last := endpoint\<rparr>;
           c = c\<lparr>w_reads := w_reads c @ [n]\<rparr>;
           c = (if reconnecting then (case c_onReconnect c of None \<Rightarrow> c
                   | Some f \<Rightarrow> c\<lparr>w_callbacks := w_callbacks c @ [f]\<rparr>) else c)
       in (None, c\<lparr>c_connecting := False\<rparr>)))"

definition Connect :: "bool \<Rightarrow> 'ep \<Rightarrow> bool \<Rightarrow> 'ep Connector \<Rightarrow> conn_error option \<times> 'ep Connector" where
  "Connect reconnecting endpoint dialled c =
    (case connect_begin reconnecting c of
       (Some err, c) \<Rightarrow> (Some err, c)
     | (None, c) \<Rightarrow> connect_commit reconnecting endpoint dialled c)"

definition readLoop_exit :: "nat \<Rightarrow> 'ep Connector \<Rightarrow> 'ep Connector" where
  "readLoop_exit n c =
    (let isSame = (c_conn c = Some n);
         c = (if isSame then c\<lparr>c_conn := None\<rparr> else c);
         c = (if isSame then close_conn (Some n) c else c);
         c = c\<lparr>w_reads := remove1 n (w_reads c)\<rparr>
     in if \<not> c_closed c then triggerReconnect c else c)"

text \<open>Sending: the result of the connection's own \<^verbatim>\<open>Send\<close> is an argument.\<close>

definition Send_connector :: "(nat \<Rightarrow> bool) \<Rightarrow> 'ep Connector \<Rightarrow> conn_error option" where
  "Send_connector sent c =
    (if c_closed c then Some CErrClosed
     else case c_conn c of
            None \<Rightarrow> Some CErrDisconnected
          | Some n \<Rightarrow> (if sent n then None else Some CErrSend))"

definition Disconnect :: "'ep Connector \<Rightarrow> 'ep Connector" where
  "Disconnect c =
    (let c = cancelReconnect c; n = c_conn c in close_conn n (c\<lparr>c_conn := None\<rparr>))"

definition Close_connector :: "'ep Connector \<Rightarrow> 'ep Connector" where
  "Close_connector c =
    (if c_closed c then c
     else
      (let c = cancelReconnect (c\<lparr>c_closed := True\<rparr>); n = c_conn c
       in close_conn n (c\<lparr>c_conn := None\<rparr>)))"

section \<open>The reconnection loop\<close>

definition ctx_done :: "nat \<Rightarrow> 'ep Connector \<Rightarrow> bool" where
  "ctx_done x c \<longleftrightarrow> x \<in> set (w_cancelled c) \<or> c_closed c"

definition select_endpoint :: "'ep Connector \<Rightarrow> 'ep" where
  "select_endpoint c =
    (case (case EndpointSelector (c_policy c) of None \<Rightarrow> None | Some f \<Rightarrow> f (c_endpoints c)) of
       Some ep \<Rightarrow> ep | None \<Rightarrow> c_last c)"

definition loop_over :: "rloop \<Rightarrow> 'ep Connector \<Rightarrow> bool" where
  "loop_over l c \<longleftrightarrow> ctx_done (rl_ctx l) c \<or>
     (MaxAttempts (c_policy c) > 0 \<and> rl_attempts l \<ge> MaxAttempts (c_policy c))"

text \<open>The deferred \<^verbatim>\<open>cancelReconnect\<close> of a loop that returns.\<close>

definition loop_exit :: "rloop list \<Rightarrow> rloop list \<Rightarrow> 'ep Connector \<Rightarrow> 'ep Connector" where
  "loop_exit pre post c = cancelReconnect (c\<lparr>w_loops := pre @ post\<rparr>)"

definition put_loop :: "rloop list \<Rightarrow> rloop \<Rightarrow> rloop list \<Rightarrow> 'ep Connector \<Rightarrow> 'ep Connector" where
  "put_loop pre l post c = c\<lparr>w_loops := pre @ l # post\<rparr>"

section \<open>The running connector\<close>

record 'ep csys =
  kon :: "'ep Connector"
  dials :: "'ep list"

inductive conn_step :: "(int \<Rightarrow> rat \<Rightarrow> int) \<Rightarrow> 'ep csys \<Rightarrow> 'ep csys \<Rightarrow> bool"
  for mul :: "int \<Rightarrow> rat \<Rightarrow> int" where
  User_dial: "connect_begin False (kon s) = (None, c) \<Longrightarrow>
     conn_step mul s (s\<lparr>kon := c, dials := ep # dials s\<rparr>)"
| User_refused: "connect_begin False (kon s) = (Some e, c) \<Longrightarrow> conn_step mul s (s\<lparr>kon := c\<rparr>)"
| User_commit: "dials s = pre @ ep # post \<Longrightarrow> connect_commit False ep dialled (kon s) = (e, c) \<Longrightarrow>
     conn_step mul s (s\<lparr>kon := c, dials := pre @ post\<rparr>)"
| User_disconnect: "conn_step mul s (s\<lparr>kon := Disconnect (kon s)\<rparr>)"
| User_close: "conn_step mul s (s\<lparr>kon := Close_connector (kon s)\<rparr>)"
| User_trigger: "conn_step mul s (s\<lparr>kon := triggerReconnect (kon s)\<rparr>)"
| User_endpoints: "conn_step mul s (s\<lparr>kon := UpdateEndpoints eps (kon s)\<rparr>)"
| User_callback: "conn_step mul s (s\<lparr>kon := SetOnReconnect f (kon s)\<rparr>)"
| Read_frame: "n \<in> set (w_reads (kon s)) \<Longrightarrow> \<not> c_closed (kon s) \<Longrightarrow> length (c_incoming (kon s)) < 1024 \<Longrightarrow>
     conn_step mul s (s\<lparr>kon := (kon s)\<lparr>c_incoming := c_incoming (kon s) @ [fb]\<rparr>\<rparr>)"
| User_receive: "c_incoming (kon s) = fb # fbs \<Longrightarrow>
     conn_step mul s (s\<lparr>kon := (kon s)\<lparr>c_incoming := fbs\<rparr>\<rparr>)"
| Read_exit: "n \<in> set (w_reads (kon s)) \<Longrightarrow> conn_step mul s (s\<lparr>kon := readLoop_exit n (kon s)\<rparr>)"
| Loop_return: "w_loops (kon s) = pre @ l # post \<Longrightarrow> rl_pc l = RTop \<Longrightarrow> loop_over l (kon s) \<Longrightarrow>
     conn_step mul s (s\<lparr>kon := loop_exit pre post (kon s)\<rparr>)"
| Loop_dial: "w_loops (kon s) = pre @ l # post \<Longrightarrow> rl_pc l = RTop \<Longrightarrow> \<not> loop_over l (kon s) \<Longrightarrow>
     connect_begin True (kon s) = (None, c) \<Longrightarrow>
     conn_step mul s (s\<lparr>kon := put_loop pre (l\<lparr>rl_pc := RDial\<rparr>) post c\<rparr>)"
| Loop_refused: "w_loops (kon s) = pre @ l # post \<Longrightarrow> rl_pc l = RTop \<Longrightarrow> \<not> loop_over l (kon s) \<Longrightarrow>
     connect_begin True (kon s) = (Some e, c) \<Longrightarrow>
     conn_step mul s (s\<lparr>kon := put_loop pre (l\<lparr>rl_pc := RSleep, rl_attempts := rl_attempts l + 1\<rparr>) post c\<rparr>)"
| Loop_connected: "w_loops (kon s) = pre @ l # post \<Longrightarrow> rl_pc l = RDial \<Longrightarrow>
     connect_commit True ep True (kon s) = (None, c) \<Longrightarrow>
     conn_step mul s (s\<lparr>kon := loop_exit pre post c\<rparr>)"
| Loop_failed: "w_loops (kon s) = pre @ l # post \<Longrightarrow> rl_pc l = RDial \<Longrightarrow>
     connect_commit True ep False (kon s) = (Some e, c) \<Longrightarrow>
     conn_step mul s (s\<lparr>kon := put_loop pre (l\<lparr>rl_pc := RSleep, rl_attempts := rl_attempts l + 1\<rparr>) post c\<rparr>)"
| Loop_woken: "w_loops (kon s) = pre @ l # post \<Longrightarrow> rl_pc l = RSleep \<Longrightarrow>
     conn_step mul s (s\<lparr>kon := put_loop pre (l\<lparr>rl_pc := RTop,
       rl_backoff := next_backoff mul (c_policy (kon s)) (rl_backoff l)\<rparr>) post (kon s)\<rparr>)"
| Loop_stopped: "w_loops (kon s) = pre @ l # post \<Longrightarrow> rl_pc l = RSleep \<Longrightarrow> ctx_done (rl_ctx l) (kon s) \<Longrightarrow>
     conn_step mul s (s\<lparr>kon := loop_exit pre post (kon s)\<rparr>)"

inductive_cases conn_stepE: "conn_step mul s t"

definition conn_init :: "'ep csys \<Rightarrow> bool" where
  "conn_init s \<longleftrightarrow> (\<exists>rnd coalesce policy dialer timeout zero.
     kon s = New_connector rnd coalesce policy dialer timeout zero) \<and> dials s = []"

section \<open>The invariant\<close>

definition dialling :: "rloop list \<Rightarrow> nat" where
  "dialling ls = length (filter (\<lambda>l. rl_pc l = RDial) ls)"

lemma dialling_simps [simp]:
  "dialling [] = 0" "dialling (l # ls) = (if rl_pc l = RDial then 1 else 0) + dialling ls"
  "dialling (xs @ ys) = dialling xs + dialling ys"
  by (simp_all add: dialling_def)

definition loop_ok :: "'ep Connector \<Rightarrow> rloop \<Rightarrow> bool" where
  "loop_ok c l \<longleftrightarrow> (rl_ctx l \<in> set (w_cancelled c) \<or> c_recCancel c = Some (rl_ctx l)) \<and> rl_ctx l < w_next c \<and>
     0 \<le> rl_attempts l \<and> (MaxAttempts (c_policy c) > 0 \<longrightarrow> rl_attempts l \<le> MaxAttempts (c_policy c) \<and>
       (rl_pc l = RDial \<longrightarrow> rl_attempts l < MaxAttempts (c_policy c)))"

definition loops_ok :: "'ep Connector \<Rightarrow> rloop list \<Rightarrow> bool" where
  "loops_ok c ls \<longleftrightarrow> (\<forall>l\<in>set ls. loop_ok c l) \<and> distinct (map rl_ctx ls)"

lemma loops_ok_transfer:
  assumes "loops_ok c ls" and "set (w_cancelled c) \<subseteq> set (w_cancelled c')" and "c_policy c' = c_policy c"
    and "w_next c \<le> w_next c'"
    and "\<forall>x. c_recCancel c = Some x \<longrightarrow> x \<in> set (w_cancelled c') \<or> c_recCancel c' = Some x"
  shows "loops_ok c' ls"
  using assms unfolding loops_ok_def loop_ok_def by (metis order_less_le_trans subsetD)

lemma loops_ok_replace:
  "loops_ok c (pre @ l # post) \<Longrightarrow> rl_ctx l' = rl_ctx l \<Longrightarrow> loop_ok c l' \<Longrightarrow> loops_ok c (pre @ l' # post)"
  by (simp add: loops_ok_def)

lemma loops_ok_remove: "loops_ok c (pre @ l # post) \<Longrightarrow> loops_ok c (pre @ post)"
  by (simp add: loops_ok_def)

lemma loops_ok_member: "loops_ok c (pre @ l # post) \<Longrightarrow> loop_ok c l"
  by (simp add: loops_ok_def)

definition kinv :: "'ep Connector \<Rightarrow> nat \<Rightarrow> bool" where
  "kinv c k \<longleftrightarrow> k + dialling (w_loops c) = (if c_connecting c then 1 else 0) \<and>
     set (w_open c) = set_option (c_conn c) \<and> (\<forall>n. c_conn c = Some n \<longrightarrow> n \<in> set (w_reads c) \<and> n < w_next c) \<and>
     loops_ok c (w_loops c) \<and>
     (c_closed c \<longrightarrow> c_recCancel c = None)"

lemma cancel_fields [simp]:
  "c_conn (cancelReconnect c) = c_conn c" "c_closed (cancelReconnect c) = c_closed c"
  "w_loops (cancelReconnect c) = w_loops c" "c_connecting (cancelReconnect c) = c_connecting c"
  "c_recCancel (cancelReconnect c) = None" "c_policy (cancelReconnect c) = c_policy c"
  "w_open (cancelReconnect c) = w_open c" "w_next (cancelReconnect c) = w_next c"
  "w_reads (cancelReconnect c) = w_reads c"
  "set (w_cancelled (cancelReconnect c)) = set (w_cancelled c) \<union> set_option (c_recCancel c)"
  by (auto simp: cancelReconnect_def split: option.split)

lemma close_conn_fields [simp]:
  "c_conn (close_conn n c) = c_conn c" "c_closed (close_conn n c) = c_closed c"
  "w_loops (close_conn n c) = w_loops c" "c_connecting (close_conn n c) = c_connecting c"
  "c_recCancel (close_conn n c) = c_recCancel c" "c_policy (close_conn n c) = c_policy c"
  "set (w_open (close_conn n c)) = set (w_open c) - set_option n" "w_next (close_conn n c) = w_next c"
  "w_reads (close_conn n c) = w_reads c" "w_cancelled (close_conn n c) = w_cancelled c"
  "c_onReconnect (close_conn n c) = c_onReconnect c"
  by (auto simp: close_conn_def split: option.split)

lemma loops_ok_updates [simp]:
  "loops_ok (c\<lparr>c_conn := a\<rparr>) ls = loops_ok c ls" "loops_ok (c\<lparr>c_connecting := b\<rparr>) ls = loops_ok c ls"
  "loops_ok (c\<lparr>w_loops := l\<rparr>) ls = loops_ok c ls" "loops_ok (c\<lparr>w_reads := r\<rparr>) ls = loops_ok c ls"
  "loops_ok (c\<lparr>c_closed := b\<rparr>) ls = loops_ok c ls" "loops_ok (c\<lparr>c_incoming := i\<rparr>) ls = loops_ok c ls"
  "loops_ok (c\<lparr>c_endpoints := e\<rparr>) ls = loops_ok c ls" "loops_ok (c\<lparr>c_onReconnect := f\<rparr>) ls = loops_ok c ls"
  "loops_ok (close_conn n c) ls = loops_ok c ls"
  by (simp_all add: loops_ok_def loop_ok_def)

lemma loops_ok_cancel: "loops_ok c ls \<Longrightarrow> loops_ok (cancelReconnect c) ls"
  by (erule loops_ok_transfer) auto

lemma kinv_cancel: "kinv c k \<Longrightarrow> kinv (cancelReconnect c) k"
  by (simp add: kinv_def loops_ok_cancel)

lemma kinv_trigger: "kinv c k \<Longrightarrow> kinv (triggerReconnect c) k"
  by (auto simp: kinv_def triggerReconnect_def loops_ok_def loop_ok_def less_Suc_eq)

lemma kinv_unlink: "kinv c k \<Longrightarrow> kinv (close_conn (c_conn c) (c\<lparr>c_conn := None\<rparr>)) k"
  by (simp add: kinv_def)

lemma kinv_begin:
  assumes "kinv c k" and "connect_begin r c = (None, c')"
  shows "c_connecting c' \<and> kinv (c'\<lparr>c_connecting := False\<rparr>) 0 \<and> k = 0 \<and> dialling (w_loops c') = 0 \<and>
    w_loops c' = w_loops c \<and> c_policy c' = c_policy c \<and> w_next c' = w_next c"
proof -
  define d where "d = (if \<not> r then cancelReconnect c else c)"
  have d: "kinv d k" using assms(1) kinv_cancel [OF assms(1)] by (simp add: d_def)
  have f: "w_loops d = w_loops c" "c_policy d = c_policy c" "w_next d = w_next c" by (simp_all add: d_def)
  have c': "\<not> c_connecting d" "c' = d\<lparr>c_connecting := True\<rparr>"
    using assms(2) by (auto simp: connect_begin_def Let_def d_def [symmetric] split: if_splits)
  show ?thesis using d c' f by (simp add: kinv_def)
qed

lemma kinv_refused:
  "kinv c k \<Longrightarrow> connect_begin r c = (Some e, c') \<Longrightarrow> kinv c' k \<and> w_loops c' = w_loops c \<and> c_policy c' = c_policy c"
  using kinv_cancel [of c k] by (auto simp: connect_begin_def Let_def split: if_splits)

lemma commit_fields:
  assumes "connect_commit r ep ok c = (e, c')"
  shows "w_loops c' = w_loops c" "c_policy c' = c_policy c" "c_recCancel c' = c_recCancel c"
    "w_cancelled c' = w_cancelled c" "c_closed c' = c_closed c" "\<not> c_connecting c'" "w_next c \<le> w_next c'"
  using assms by (auto simp: connect_commit_def Let_def split: if_splits option.splits)

lemma loops_ok_commit: "loops_ok c ls \<Longrightarrow> connect_commit r ep ok c = (e, c') \<Longrightarrow> loops_ok c' ls"
  by (erule loops_ok_transfer) (simp_all add: commit_fields)

lemma kinv_commit:
  assumes "kinv c k" and "connect_commit r ep ok c = (e, c')"
  shows "set (w_open c') = set_option (c_conn c')"
    and "\<forall>n. c_conn c' = Some n \<longrightarrow> n \<in> set (w_reads c') \<and> n < w_next c'"
proof -
  have "set (w_open c') = set_option (c_conn c') \<and> (\<forall>n. c_conn c' = Some n \<longrightarrow> n \<in> set (w_reads c') \<and> n < w_next c')"
  proof (cases ok)
    case False
    then show ?thesis using assms by (auto simp: connect_commit_def kinv_def)
  next
    case True
    then have "set (w_open c') = {w_next c}" "c_conn c' = Some (w_next c)" "w_next c \<in> set (w_reads c')"
      "w_next c' = Suc (w_next c)"
      using assms by (auto simp: connect_commit_def kinv_def Let_def split: if_splits option.splits)
    then show ?thesis by simp
  qed
  then show "set (w_open c') = set_option (c_conn c')"
    and "\<forall>n. c_conn c' = Some n \<longrightarrow> n \<in> set (w_reads c') \<and> n < w_next c'" by blast+
qed

lemma kinv_exit:
  assumes "kinv c k" and "w_loops c = pre @ l # post" and "rl_pc l \<noteq> RDial"
  shows "kinv (loop_exit pre post c) k"
proof -
  have "kinv (c\<lparr>w_loops := pre @ post\<rparr>) k" using assms loops_ok_remove [of c pre l post] by (simp add: kinv_def)
  then show ?thesis unfolding loop_exit_def by (rule kinv_cancel)
qed

lemma kinv_put:
  assumes "kinv c k" and "w_loops c = pre @ l # post" and "rl_pc l \<noteq> RDial" and "rl_pc l' \<noteq> RDial"
    and "rl_ctx l' = rl_ctx l" and "0 \<le> rl_attempts l'"
    and "MaxAttempts (c_policy c) > 0 \<longrightarrow> rl_attempts l' \<le> MaxAttempts (c_policy c)"
  shows "kinv (put_loop pre l' post c) k"
proof -
  have "loops_ok c (pre @ l # post)" using assms(1,2) by (simp add: kinv_def)
  moreover from loops_ok_member [OF this] have "loop_ok c l'" using assms(4-7) by (simp add: loop_ok_def)
  ultimately have "loops_ok c (pre @ l' # post)" using assms(5) by (auto intro: loops_ok_replace)
  then show ?thesis using assms(1-4) by (simp add: kinv_def put_loop_def)
qed

lemma kinv_readLoop_exit: "kinv c k \<Longrightarrow> kinv (readLoop_exit n c) k"
proof -
  assume k: "kinv c k"
  define d where "d = (if c_conn c = Some n then close_conn (Some n) (c\<lparr>c_conn := None\<rparr>) else c)"
  have "kinv d k" using k kinv_unlink [OF k] by (auto simp: d_def)
  moreover have "c_conn d \<noteq> Some n" by (simp add: d_def)
  ultimately have "kinv (d\<lparr>w_reads := remove1 n (w_reads d)\<rparr>) k"
    by (auto simp: kinv_def in_set_remove1)
  then show ?thesis using kinv_trigger
    by (auto simp: readLoop_exit_def Let_def d_def split: if_splits)
qed

definition conn_inv :: "'ep csys \<Rightarrow> bool" where
  "conn_inv s \<longleftrightarrow> kinv (kon s) (length (dials s))"

lemma kinv_commit_user:
  assumes "kinv c (Suc k)" and "connect_commit r ep ok c = (e, c')"
  shows "kinv c' k"
  using kinv_commit [OF assms] commit_fields [OF assms(2)] loops_ok_commit [OF _ assms(2)] assms(1)
  by (simp add: kinv_def split: if_splits)

lemma kinv_commit_loop:
  assumes "kinv c k" and "w_loops c = pre @ l # post" and "rl_pc l = RDial"
    and "connect_commit r ep ok c = (e, c')" and "rl_ctx l' = rl_ctx l" and "rl_pc l' \<noteq> RDial"
    and "rl_attempts l' = rl_attempts l + 1"
  shows "kinv (put_loop pre l' post c') k"
proof -
  have ok: "loops_ok c' (pre @ l # post)" using assms(1,2) loops_ok_commit [OF _ assms(4)] by (simp add: kinv_def)
  from loops_ok_member [OF this] have "loop_ok c' l'" using assms(3,5-7) by (auto simp: loop_ok_def)
  then have "loops_ok c' (pre @ l' # post)" using ok assms(5) by (auto intro: loops_ok_replace)
  then show ?thesis
    using kinv_commit [OF assms(1,4)] commit_fields [OF assms(4)] assms(1-3,6)
    by (simp add: kinv_def put_loop_def split: if_splits)
qed

lemma kinv_connected_loop:
  assumes "kinv c k" and "w_loops c = pre @ l # post" and "rl_pc l = RDial"
    and "connect_commit r ep ok c = (e, c')"
  shows "kinv (loop_exit pre post c') k"
proof -
  have "kinv (put_loop pre (l\<lparr>rl_pc := RSleep, rl_attempts := rl_attempts l + 1\<rparr>) post c') k"
    using assms by (intro kinv_commit_loop [OF assms]) auto
  from kinv_exit [OF this] show ?thesis
    by (simp add: put_loop_def loop_exit_def)
qed

lemma kinv_dial_loop:
  assumes "kinv c k" and "w_loops c = pre @ l # post" and "\<not> loop_over l c"
    and "connect_begin True c = (None, c')"
  shows "kinv (put_loop pre (l\<lparr>rl_pc := RDial\<rparr>) post c') k"
proof -
  have b: "c_connecting c'" "kinv (c'\<lparr>c_connecting := False\<rparr>) 0" "k = 0" "dialling (w_loops c') = 0"
    "w_loops c' = pre @ l # post" "c_policy c' = c_policy c"
    using kinv_begin [OF assms(1,4)] assms(2) by auto
  then have ok: "loops_ok c' (pre @ l # post)" by (simp add: kinv_def)
  from loops_ok_member [OF this] have "loop_ok c' (l\<lparr>rl_pc := RDial\<rparr>)"
    using assms(3) b(6) by (auto simp: loop_ok_def loop_over_def)
  then have "loops_ok c' (pre @ l\<lparr>rl_pc := RDial\<rparr> # post)" using ok by (auto intro: loops_ok_replace)
  then show ?thesis using b by (simp add: kinv_def put_loop_def)
qed

lemma kinv_refused_loop:
  assumes "kinv c k" and "w_loops c = pre @ l # post" and "rl_pc l = RTop" and "\<not> loop_over l c"
    and "connect_begin True c = (Some e, c')"
  shows "kinv (put_loop pre (l\<lparr>rl_pc := RSleep, rl_attempts := rl_attempts l + 1\<rparr>) post c') k"
proof -
  have r: "kinv c' k" "w_loops c' = pre @ l # post" "c_policy c' = c_policy c"
    using kinv_refused [OF assms(1,5)] assms(2) by auto
  have "0 \<le> rl_attempts l" "MaxAttempts (c_policy c) > 0 \<longrightarrow> rl_attempts l + 1 \<le> MaxAttempts (c_policy c)"
    using assms(1,2,4) by (auto simp: kinv_def loops_ok_def loop_ok_def loop_over_def)
  then show ?thesis using r assms(3) by (intro kinv_put [OF r(1,2)]) auto
qed

lemma conn_inv_step:
  assumes "conn_inv s" and "conn_step mul s t"
  shows "conn_inv t"
proof -
  have k: "kinv (kon s) (length (dials s))" using assms(1) by (simp add: conn_inv_def)
  show ?thesis
    using assms(2)
  proof cases
    case (User_dial c ep)
    then show ?thesis using kinv_begin [OF k User_dial(2)] by (auto simp: conn_inv_def kinv_def)
  next
    case (User_refused e c)
    then show ?thesis using kinv_refused [OF k] by (simp add: conn_inv_def)
  next
    case (User_commit pre ep post dialled e c)
    then show ?thesis using kinv_commit_user [of "kon s" "length (pre @ post)"] k by (simp add: conn_inv_def)
  next
    case User_disconnect
    then show ?thesis using kinv_unlink [OF kinv_cancel [OF k]] by (simp add: conn_inv_def Disconnect_def Let_def)
  next
    case User_close
    have "kinv (cancelReconnect (kon s\<lparr>c_closed := True\<rparr>)) (length (dials s))"
      using k loops_ok_cancel [of "kon s\<lparr>c_closed := True\<rparr>" "w_loops (kon s)"] by (simp add: kinv_def)
    from kinv_unlink [OF this] User_close k show ?thesis
      by (auto simp: conn_inv_def Close_connector_def Let_def)
  next
    case User_trigger
    then show ?thesis using kinv_trigger [OF k] by (simp add: conn_inv_def)
  next
    case (Read_exit n)
    then show ?thesis using kinv_readLoop_exit [OF k] by (simp add: conn_inv_def)
  next
    case (Loop_return pre l post)
    then show ?thesis using kinv_exit [OF k Loop_return(2)] by (simp add: conn_inv_def)
  next
    case (Loop_dial pre l post c)
    then show ?thesis using kinv_dial_loop [OF k Loop_dial(2,4,5)] by (simp add: conn_inv_def)
  next
    case (Loop_refused pre l post e c)
    then show ?thesis using kinv_refused_loop [OF k Loop_refused(2-5)] by (simp add: conn_inv_def)
  next
    case (Loop_connected pre l post ep c)
    then show ?thesis using kinv_connected_loop [OF k Loop_connected(2-4)] by (simp add: conn_inv_def)
  next
    case (Loop_failed pre l post ep e c)
    then show ?thesis using kinv_commit_loop [OF k Loop_failed(2-4)] by (simp add: conn_inv_def)
  next
    case (Loop_woken pre l post)
    have "loop_ok (kon s) l" using k Loop_woken(2) by (simp add: kinv_def loops_ok_def)
    then show ?thesis using Loop_woken kinv_put [OF k Loop_woken(2)] by (simp add: conn_inv_def loop_ok_def)
  next
    case (Loop_stopped pre l post)
    then show ?thesis using kinv_exit [OF k Loop_stopped(2)] by (simp add: conn_inv_def)
  qed (use k in \<open>simp_all add: conn_inv_def kinv_def UpdateEndpoints_def SetOnReconnect_def\<close>)
qed

lemma conn_inv_init: "conn_init s \<Longrightarrow> conn_inv s"
  by (auto simp: conn_init_def conn_inv_def kinv_def New_connector_def loops_ok_def)

interpretation connector_system: invariant_system conn_init "conn_step mul" conn_inv for mul
  by unfold_locales (auto intro: conn_inv_init conn_inv_step)

section \<open>Backoff\<close>

definition jitter_ok :: "(int \<Rightarrow> int) \<Rightarrow> bool" where
  "jitter_ok jit \<longleftrightarrow> (\<forall>n>0. 0 \<le> jit n \<and> jit n < n)"

definition mul_ok :: "(int \<Rightarrow> rat \<Rightarrow> int) \<Rightarrow> bool" where
  "mul_ok mul \<longleftrightarrow> (\<forall>b f. 0 < b \<and> 1 < f \<longrightarrow> b \<le> mul b f)"

lemma backoff_range:
  assumes "mul_ok mul" and "2 \<le> lo" and "lo \<le> InitialBackoff p" and "lo \<le> MaxBackoff p"
  shows "lo \<le> (next_backoff mul p ^^ k) (InitialBackoff p) \<and>
    (next_backoff mul p ^^ k) (InitialBackoff p) \<le> max (InitialBackoff p) (MaxBackoff p)"
proof (induction k)
  case 0
  then show ?case using assms by simp
next
  case (Suc k)
  define b where "b = (next_backoff mul p ^^ k) (InitialBackoff p)"
  define f where "f = (if BackoffFactor p \<le> 1 then 2 else BackoffFactor p)"
  have "b \<le> mul b f" using assms(1,2) Suc by (simp add: mul_ok_def b_def f_def)
  moreover have "(next_backoff mul p ^^ Suc k) (InitialBackoff p) = min (mul b f) (MaxBackoff p)"
    by (simp add: b_def f_def next_backoff_def [of _ _ "(next_backoff mul p ^^ k) (InitialBackoff p)"] Let_def)
  ultimately show ?case using Suc assms(4) by (simp only: b_def [symmetric]) linarith
qed

lemma sleepDur_range:
  assumes "jitter_ok jit" and "2 \<le> lo" and "lo \<le> b" and "b < 2 ^ 62" and "lo \<le> MaxBackoff p"
  shows "\<exists>d. sleepDur jit p b = Some d \<and> lo \<le> d \<and> d \<le> MaxBackoff p"
proof -
  have h: "0 < b div 2" "b div 2 \<le> b" using assms(2,3) by auto
  then have j: "0 \<le> jit (b div 2)" "jit (b div 2) < b" using assms(1) unfolding jitter_ok_def by (blast, force)
  then have "wrap64 (b + jit (b div 2)) = b + jit (b div 2)"
    using assms(2-4) by (intro wrap64_id) auto
  then show ?thesis using h j assms by (auto simp: sleepDur_def Let_def)
qed

section \<open>Defects of the life cycle\<close>

text \<open>An explicit \<^verbatim>\<open>Disconnect\<close> does not stick: the read loop it ends starts the reconnection.\<close>

lemma disconnect_reconnects:
  assumes "\<not> c_closed c"
  shows "w_loops (readLoop_exit n (Disconnect c)) = w_loops c @
    [\<lparr>rl_ctx = w_next c, rl_backoff = InitialBackoff (c_policy c), rl_attempts = 0, rl_pc = RTop\<rparr>]"
  using assms by (simp add: readLoop_exit_def Disconnect_def Let_def triggerReconnect_def)

text \<open>A loop that was cancelled and returns later cancels the loop that replaced it.\<close>

lemma stale_loop_cancels_successor:
  assumes "c_recCancel c = Some x"
  shows "x \<in> set (w_cancelled (loop_exit pre post c)) \<and> c_recCancel (loop_exit pre post c) = None"
  using assms by (simp add: loop_exit_def)

text \<open>With jitter, a backoff below two nanoseconds makes \<^verbatim>\<open>rand.Int64N\<close> panic.\<close>

lemma tiny_backoff_panics: "Jitter p \<Longrightarrow> b < 2 \<Longrightarrow> sleepDur jit p b = None"
  by (auto simp: sleepDur_def Let_def)

text \<open>A connector whose connection replaced a live one: the old read loop is about to end.\<close>

definition superseding :: "'ep csys \<Rightarrow> nat \<Rightarrow> nat \<Rightarrow> bool" where
  "superseding s old new \<longleftrightarrow> c_conn (kon s) = Some new \<and> old \<noteq> new \<and> w_reads (kon s) = [old, new] \<and>
     new < w_next (kon s) \<and> w_loops (kon s) = [] \<and> c_recCancel (kon s) = None \<and>
     (\<forall>x\<in>set (w_cancelled (kon s)). x < w_next (kon s)) \<and>
     \<not> c_closed (kon s) \<and> \<not> c_connecting (kon s) \<and> c_dialer (kon s)"

lemma churn_run:
  assumes "superseding s old new"
  shows "\<exists>t newer. (conn_step mul)\<^sup>*\<^sup>* s t \<and> superseding t new newer \<and> newer \<noteq> new"
proof -
  define c where "c = kon s"
  note h = assms [unfolded superseding_def c_def [symmetric]]
  define l where "l = \<lparr>rl_ctx = w_next c, rl_backoff = InitialBackoff (c_policy c), rl_attempts = 0, rl_pc = RTop\<rparr>"
  define c1 where "c1 = readLoop_exit old c"
  have c1: "c1 = c\<lparr>w_reads := [new], c_recCancel := Some (w_next c), w_next := Suc (w_next c), w_loops := [l]\<rparr>"
    using h by (simp add: c1_def readLoop_exit_def triggerReconnect_def l_def)
  define s1 where "s1 = s\<lparr>kon := c1\<rparr>"
  have 1: "conn_step mul s s1"
    unfolding s1_def c1_def c_def by (rule Read_exit) (use h in \<open>simp add: c_def\<close>)
  define c2 where "c2 = c1\<lparr>c_connecting := True\<rparr>"
  have b: "connect_begin True (kon s1) = (None, c2)"
    using h by (simp add: connect_begin_def s1_def c2_def c1)
  have nl: "\<not> loop_over l (kon s1)"
    using h by (auto simp: loop_over_def ctx_done_def s1_def c1 l_def)
  define s2 where "s2 = s1\<lparr>kon := put_loop [] (l\<lparr>rl_pc := RDial\<rparr>) [] c2\<rparr>"
  have 2: "conn_step mul s1 s2"
    unfolding s2_def by (rule Loop_dial [OF _ _ nl b]) (simp_all add: s1_def c1 l_def)
  define c3 where "c3 = snd (connect_commit True (c_last c) True (kon s2))"
  have cc: "connect_commit True (c_last c) True (kon s2) = (None, c3)"
    by (simp add: c3_def connect_commit_def Let_def)
  define t where "t = s2\<lparr>kon := loop_exit [] [] c3\<rparr>"
  have 3: "conn_step mul s2 t"
    unfolding t_def by (rule Loop_connected [OF _ _ cc, where l = "l\<lparr>rl_pc := RDial\<rparr>"])
      (simp_all add: s2_def put_loop_def)
  have "superseding t new (Suc (w_next c))"
    using h
    by (auto simp: superseding_def t_def loop_exit_def c3_def connect_commit_def Let_def s2_def put_loop_def
        c2_def c1 s1_def cancelReconnect_def close_conn_def less_Suc_eq split: option.splits)
  moreover have "(conn_step mul)\<^sup>*\<^sup>* s t"
    using 1 2 3 by (meson converse_rtranclp_into_rtranclp rtranclp.rtrancl_refl)
  ultimately show ?thesis using h by (intro exI [of _ t] exI [of _ "Suc (w_next c)"]) auto
qed

section \<open>Properties\<close>


definition sample_sys :: "nat csys" where
  "sample_sys = \<lparr>kon = New_connector (\<lambda>_. 0) (\<lambda>a b. if a \<noteq> 0 then a else b)
     \<lparr>MaxAttempts = 3, InitialBackoff = 5, MaxBackoff = 0, BackoffFactor = 0, Jitter = True, EndpointSelector = None\<rparr>
     True 0 0, dials = []\<rparr>"


text \<open>The pauses of the reconnection loop.  With backoffs of at least two nanoseconds no pause
  panics, and after any number of failures the pause lies between the smaller of the two configured
  backoffs and the maximum.\<close>
theorem backoff_bounded:
  assumes "mul_ok mul" and "jitter_ok jit" and "p = resolve_policy rnd q"
    and "2 \<le> InitialBackoff p" and "2 \<le> MaxBackoff p"
    and "InitialBackoff p < 2 ^ 62" and "MaxBackoff p < 2 ^ 62"
  shows "\<exists>d. sleepDur jit p ((next_backoff mul p ^^ k) (InitialBackoff p)) = Some d \<and>
    min (InitialBackoff p) (MaxBackoff p) \<le> d \<and> d \<le> MaxBackoff p \<and> 1 < BackoffFactor p"
proof -
  have "1 < BackoffFactor p"
    by (simp add: assms(3) resolve_policy_def Let_def DefaultReconnectPolicy_def)
  moreover have "\<exists>d. sleepDur jit p ((next_backoff mul p ^^ k) (InitialBackoff p)) = Some d \<and>
    min (InitialBackoff p) (MaxBackoff p) \<le> d \<and> d \<le> MaxBackoff p"
    using backoff_range [OF assms(1), of "min (InitialBackoff p) (MaxBackoff p)" p k] assms(4-7)
    by (intro sleepDur_range [OF assms(2)]) auto
  ultimately show ?thesis by auto
qed

theorem backoff_bounded_witness:
  "\<exists>d. sleepDur (\<lambda>n. 0) (DefaultReconnectPolicy (\<lambda>_. 0) :: nat ReconnectPolicy)
     ((next_backoff (\<lambda>b f. b * 2) (DefaultReconnectPolicy (\<lambda>_. 0) :: nat ReconnectPolicy) ^^ 5) 1000000000) = Some d \<and> d \<le> 30000000000"
proof -
  let ?p = "DefaultReconnectPolicy (\<lambda>_. 0) :: nat ReconnectPolicy"
  have "?p = resolve_policy (\<lambda>_. 0) ?p" by (simp add: resolve_policy_def DefaultReconnectPolicy_def)
  from backoff_bounded [OF _ _ this, of "\<lambda>b f. b * 2" "\<lambda>n. 0" 5] show ?thesis
    by (auto simp: mul_ok_def jitter_ok_def DefaultReconnectPolicy_def)
qed

text \<open>Replacing a live connection never settles.  Once \<^verbatim>\<open>Connect\<close> has replaced a connection, the
  read loop of the old one starts a reconnection although the new one is healthy; that replaces it
  again and leaves the connector in the same situation with yet another connection.\<close>
theorem replaced_connection_churns:
  assumes "superseding s old new"
  shows "\<exists>t newer. (conn_step mul)\<^sup>*\<^sup>* s t \<and> superseding t new newer \<and> newer \<noteq> new"
  using assms by (rule churn_run)

theorem replaced_connection_churns_witness:
  "\<exists>t newer. (conn_step (\<lambda>b f. b * 2))\<^sup>*\<^sup>*
     \<lparr>kon = snd (Connect False 8 True (snd (Connect False 7 True (kon sample_sys)))), dials = []\<rparr> t \<and>
     superseding t 1 newer \<and> newer \<noteq> 1"
proof -
  have "superseding \<lparr>kon = snd (Connect False 8 True (snd (Connect False 7 True (kon sample_sys)))), dials = []\<rparr> 0 1"
    by (simp add: superseding_def Connect_def connect_begin_def connect_commit_def sample_sys_def New_connector_def
        cancelReconnect_def close_conn_def Let_def)
  then show ?thesis by (rule replaced_connection_churns)
qed

end
