(* ===== verification/WT_Capsule.thy ===== *)
theory WT_Capsule
  imports Go_Binary Go_Utf8
begin

text \<open>
  Package \<^verbatim>\<open>webtransport\<close>, files \<^verbatim>\<open>src/webtransport/errors.go\<close>, \<^verbatim>\<open>capsule.go\<close> and the
  readers of \<^verbatim>\<open>dial.go\<close>: error codes, capsules and the variable-length integers on
  a stream.  The encoders write into a given slice: \<open>None\<close> is a panic of a slice
  expression, and an append that does not fit leaves the slice as it was, since Go
  then appends to a copy.  The varint library is the record \<open>varint\<close>; what the code
  relies on is \<open>varint_laws\<close>, and RFC 9000's encoding is shown to satisfy it.
\<close>

section \<open>errors.go\<close>

abbreviation WTApplicationErrorFirst :: "64 word" where "WTApplicationErrorFirst \<equiv> 0x52e4a40fa8db"
abbreviation WTApplicationErrorLast :: "64 word" where "WTApplicationErrorLast \<equiv> 0x52e5ac983162"

datatype wt_error =
    ErrSessionClosed
  | ErrSessionDraining
  | ErrInvalidCapsule
  | ErrStreamClosed
  | ErrFlowControl
  | SessionError "32 word" bytes
  | WtIO io_error
  | WtCtx
  | WtTransport
  | ErrHandshakeFailed bytes
  | ErrUnexpectedFrame nat
  | ErrHeadersTooLarge nat
  | ErrQpack

definition WebTransportCodeToHTTPCode :: "32 word \<Rightarrow> 64 word" where
  "WebTransportCodeToHTTPCode n =
    (let n64 = (ucast n :: 64 word) in WTApplicationErrorFirst + n64 + (n64 div 0x1e))"

definition HTTPCodeToWebTransportCode :: "64 word \<Rightarrow> 32 word option" where
  "HTTPCodeToWebTransportCode h =
    (if h < WTApplicationErrorFirst \<or> h > WTApplicationErrorLast then None
     else if (h - 0x21) mod 0x1f = 0 then None
     else
      (let shifted = h - WTApplicationErrorFirst; wtCode = shifted - (shifted div 0x1f)
       in if wtCode > 0xffffffff then None else Some (ucast wtCode)))"

section \<open>capsule.go\<close>

abbreviation CapsuleCloseWebTransportSession :: nat where "CapsuleCloseWebTransportSession \<equiv> 0x2843"
abbreviation CapsuleDrainWebTransportSession :: nat where "CapsuleDrainWebTransportSession \<equiv> 0x78ae"
abbreviation MaxStreamsLimit :: nat where "MaxStreamsLimit \<equiv> 2 ^ 60"

record varint =
  vAppend :: "nat \<Rightarrow> bytes"
  vParse :: "bytes \<Rightarrow> (nat \<times> nat) option"
  vLen :: "nat \<Rightarrow> nat"

record CloseSessionPayload =
  ApplicationErrorCode :: "32 word"
  ErrorMessage :: bytes

definition overwrite :: "bytes \<Rightarrow> nat \<Rightarrow> bytes \<Rightarrow> bytes" where
  "overwrite dst off bs = take off dst @ bs @ drop (off + length bs) dst"

text \<open>\<^verbatim>\<open>quicvarint.Append(dst[off:off], v)\<close> and \<^verbatim>\<open>copy(dst[off:], bs)\<close>.\<close>

definition append_at :: "bytes \<Rightarrow> nat \<Rightarrow> bytes \<Rightarrow> bytes option" where
  "append_at dst off bs =
    (if off > length dst then None
     else if off + length bs \<le> length dst then Some (overwrite dst off bs) else Some dst)"

definition copy_at :: "bytes \<Rightarrow> nat \<Rightarrow> bytes \<Rightarrow> bytes option" where
  "copy_at dst off bs =
    (if off > length dst then None else Some (overwrite dst off (take (length dst - off) bs)))"

definition put32_at :: "bytes \<Rightarrow> nat \<Rightarrow> 32 word \<Rightarrow> bytes option" where
  "put32_at dst off v =
    (if off + 4 > length dst then None else Some (overwrite dst off (PutUint32 BigEndian v)))"

definition EncodeVarint :: "varint \<Rightarrow> nat \<Rightarrow> bytes \<Rightarrow> bytes \<times> nat" where
  "EncodeVarint V v b =
    (let b1 = vAppend V v in (case append_at b 0 b1 of Some d \<Rightarrow> d | None \<Rightarrow> b, length b1))"

definition DecodeVarint :: "varint \<Rightarrow> bytes \<Rightarrow> wt_error + (nat \<times> nat)" where
  "DecodeVarint V b = (case vParse V b of None \<Rightarrow> Inl ErrInvalidCapsule | Some r \<Rightarrow> Inr r)"

definition EncodeCapsuleHeader :: "varint \<Rightarrow> nat \<Rightarrow> nat \<Rightarrow> bytes \<Rightarrow> (bytes \<times> nat) option" where
  "EncodeCapsuleHeader V capsuleType payloadLen b =
    (let b1 = vAppend V capsuleType; n1 = length b1; b2 = vAppend V payloadLen; n2 = length b2
     in case append_at b 0 b1 of
          None \<Rightarrow> None
        | Some b \<Rightarrow> map_option (\<lambda>b. (b, n1 + n2)) (append_at b n1 b2))"

definition EncodeCapsule :: "varint \<Rightarrow> nat \<Rightarrow> bytes \<Rightarrow> bytes \<Rightarrow> (bytes \<times> nat) option" where
  "EncodeCapsule V capsuleType payload dst =
    (case EncodeCapsuleHeader V capsuleType (length payload) dst of
       None \<Rightarrow> None
     | Some (dst, hdrLen) \<Rightarrow>
         map_option (\<lambda>dst. (dst, hdrLen + length payload)) (copy_at dst hdrLen payload))"

function trim_valid :: "bytes \<Rightarrow> bytes" where
  "trim_valid b = (if length b > 0 \<and> \<not> Valid b then trim_valid (take (length b - 1) b) else b)"
  by pat_completeness auto
termination
  by (relation "measure length") auto

declare trim_valid.simps [simp del]

definition TruncateErrorMessage :: "bytes \<Rightarrow> bytes" where
  "TruncateErrorMessage msg = (if length msg \<le> 1024 then msg else trim_valid (take 1024 msg))"

definition EncodeCloseSessionPayload :: "CloseSessionPayload \<Rightarrow> bytes \<Rightarrow> (bytes \<times> nat) option" where
  "EncodeCloseSessionPayload payload dst =
    (let msg = TruncateErrorMessage (ErrorMessage payload)
     in case put32_at dst 0 (ApplicationErrorCode payload) of
          None \<Rightarrow> None
        | Some dst \<Rightarrow> map_option (\<lambda>dst. (dst, 4 + length msg)) (copy_at dst 4 msg))"

definition EncodeCloseSessionCapsule :: "varint \<Rightarrow> CloseSessionPayload \<Rightarrow> bytes \<Rightarrow> (bytes \<times> nat) option" where
  "EncodeCloseSessionCapsule V payload dst =
    (let msg = TruncateErrorMessage (ErrorMessage payload); payloadLen = 4 + length msg
     in case EncodeCapsuleHeader V CapsuleCloseWebTransportSession payloadLen dst of
          None \<Rightarrow> None
        | Some (dst, hdrLen) \<Rightarrow>
            (case put32_at dst hdrLen (ApplicationErrorCode payload) of
               None \<Rightarrow> None
             | Some dst \<Rightarrow> map_option (\<lambda>dst. (dst, hdrLen + payloadLen)) (copy_at dst (hdrLen + 4) msg)))"

definition DecodeCloseSessionPayload :: "bytes \<Rightarrow> wt_error + CloseSessionPayload" where
  "DecodeCloseSessionPayload payload =
    (if length payload < 4 then Inl ErrInvalidCapsule
     else
      (let msgBytes = drop 4 payload in
       if length msgBytes > 1024 \<or> \<not> Valid msgBytes then Inl ErrInvalidCapsule
       else Inr \<lparr>ApplicationErrorCode = Uint32 BigEndian (take 4 payload), ErrorMessage = msgBytes\<rparr>))"

definition EncodeDrainSessionCapsule :: "varint \<Rightarrow> bytes \<Rightarrow> (bytes \<times> nat) option" where
  "EncodeDrainSessionCapsule V dst = EncodeCapsuleHeader V CapsuleDrainWebTransportSession 0 dst"

definition EncodeMaxDataCapsule :: "varint \<Rightarrow> nat \<Rightarrow> nat \<Rightarrow> bytes \<Rightarrow> (bytes \<times> nat) option" where
  "EncodeMaxDataCapsule V capsuleType maxData dst =
    (let val = vAppend V maxData
     in case EncodeCapsuleHeader V capsuleType (length val) dst of
          None \<Rightarrow> None
        | Some (dst, hdrLen) \<Rightarrow> map_option (\<lambda>dst. (dst, hdrLen + length val)) (copy_at dst hdrLen val))"

definition EncodeMaxStreamsCapsule ::
  "varint \<Rightarrow> nat \<Rightarrow> nat \<Rightarrow> bytes \<Rightarrow> wt_error + (bytes \<times> nat) option" where
  "EncodeMaxStreamsCapsule V capsuleType maxStreams dst =
    (if maxStreams > MaxStreamsLimit then Inl ErrFlowControl
     else
      (let val = vAppend V maxStreams
       in Inr (case EncodeCapsuleHeader V capsuleType (length val) dst of
                 None \<Rightarrow> None
               | Some (dst, hdrLen) \<Rightarrow>
                   map_option (\<lambda>dst. (dst, hdrLen + length val)) (copy_at dst hdrLen val))))"

definition DecodeMaxStreamsPayload :: "varint \<Rightarrow> bytes \<Rightarrow> wt_error + nat" where
  "DecodeMaxStreamsPayload V payload =
    (case DecodeVarint V payload of
       Inl err \<Rightarrow> Inl err
     | Inr (v, n) \<Rightarrow> if v > MaxStreamsLimit then Inl ErrFlowControl else Inr v)"

definition DecodeMaxDataPayload :: "varint \<Rightarrow> bytes \<Rightarrow> wt_error + nat" where
  "DecodeMaxDataPayload V payload =
    (case DecodeVarint V payload of Inl err \<Rightarrow> Inl err | Inr (v, n) \<Rightarrow> Inr v)"

section \<open>Reading integers and capsules from a stream\<close>

definition readVarintFromStream :: "varint \<Rightarrow> bytes \<Rightarrow> wt_error + (nat \<times> bytes)" where
  "readVarintFromStream V r =
    (case ReadFull 1 r of
       Inl err \<Rightarrow> Inl (WtIO err)
     | Inr (firstByte, r) \<Rightarrow>
         (let tag = byte_val (firstByte ! 0) div 64; varintLen = 2 ^ tag
          in case (if varintLen > 1 then ReadFull (varintLen - 1) r else Inr ([], r)) of
               Inl err \<Rightarrow> Inl (WtIO err)
             | Inr (others, r) \<Rightarrow>
                 (case DecodeVarint V (firstByte @ others) of
                    Inl err \<Rightarrow> Inl err
                  | Inr (v, n) \<Rightarrow> Inr (v, r))))"

definition readH3FrameHeader :: "varint \<Rightarrow> bytes \<Rightarrow> wt_error + (nat \<times> nat \<times> bytes)" where
  "readH3FrameHeader V r =
    (case readVarintFromStream V r of
       Inl err \<Rightarrow> Inl err
     | Inr (fType, r) \<Rightarrow>
         (case readVarintFromStream V r of
            Inl err \<Rightarrow> Inl err
          | Inr (fLen, r) \<Rightarrow> Inr (fType, fLen, r)))"

text \<open>The part of the control loop that reads one capsule.\<close>

abbreviation max_capsule :: nat where "max_capsule \<equiv> 16 * 1024 * 1024"

definition read_capsule :: "varint \<Rightarrow> bytes \<Rightarrow> wt_error + ((nat \<times> bytes) \<times> bytes)" where
  "read_capsule V r =
    (case readH3FrameHeader V r of
       Inl err \<Rightarrow> Inl err
     | Inr (capsuleType, payloadLen, r) \<Rightarrow>
         if payloadLen > max_capsule then Inl ErrInvalidCapsule
         else (case (if payloadLen > 0 then ReadFull payloadLen r else Inr ([], r)) of
                 Inl err \<Rightarrow> Inl (WtIO err)
               | Inr (payload, r) \<Rightarrow> Inr ((capsuleType, payload), r)))"

text \<open>The decoder of QPACK is an argument: the list of header fields, or an error.\<close>

abbreviation (input) FrameTypeHeaders :: nat where "FrameTypeHeaders \<equiv> 1"

definition readH3ResponseHeaders ::
  "varint \<Rightarrow> (bytes \<Rightarrow> (bytes \<times> bytes) list option) \<Rightarrow> bytes \<Rightarrow> wt_error + ((bytes \<Rightarrow> bytes option) \<times> bytes)" where
  "readH3ResponseHeaders V qpack r =
    (case readH3FrameHeader V r of
       Inl err \<Rightarrow> Inl err
     | Inr (frameType, payloadLen, r) \<Rightarrow>
         if frameType \<noteq> FrameTypeHeaders then Inl (ErrUnexpectedFrame frameType)
         else if payloadLen > max_capsule then Inl (ErrHeadersTooLarge payloadLen)
         else (case ReadFull payloadLen r of
                 Inl err \<Rightarrow> Inl (WtIO err)
               | Inr (payload, r) \<Rightarrow>
                   (case qpack payload of
                      None \<Rightarrow> Inl ErrQpack
                    | Some hfs \<Rightarrow> Inr (map_of (rev hfs), r))))"

section \<open>The varint library\<close>

definition varint_laws :: "varint \<Rightarrow> bool" where
  "varint_laws V \<longleftrightarrow> (\<forall>v<2 ^ 62. vAppend V v \<noteq> [] \<and>
     length (vAppend V v) = 2 ^ (byte_val (hd (vAppend V v)) div 64) \<and>
     (\<forall>r. vParse V (vAppend V v @ r) = Some (v, length (vAppend V v))) \<and> vLen V v = length (vAppend V v))"

text \<open>RFC 9000, section 16.\<close>

definition big_endian :: "nat \<Rightarrow> nat \<Rightarrow> bytes" where
  "big_endian k v = map (\<lambda>i. byte_of (v div 256 ^ i)) (rev [0..<k])"

definition rfc_append :: "nat \<Rightarrow> bytes" where
  "rfc_append v =
    (if v < 2 ^ 6 then [byte_of v]
     else if v < 2 ^ 14 then byte_of (64 + v div 256) # big_endian 1 v
     else if v < 2 ^ 30 then byte_of (128 + v div 256 ^ 3) # big_endian 3 v
     else byte_of (192 + v div 256 ^ 7) # big_endian 7 v)"

definition rfc_parse :: "bytes \<Rightarrow> (nat \<times> nat) option" where
  "rfc_parse b =
    (case b of
       [] \<Rightarrow> None
     | c # cs \<Rightarrow>
         (let n = 2 ^ (byte_val c div 64) in
          if length b < n then None
          else Some (foldl (\<lambda>a d. a * 256 + byte_val d) (byte_val c mod 64) (take (n - 1) cs), n)))"

definition rfc_varint :: varint where
  "rfc_varint = \<lparr>vAppend = rfc_append, vParse = rfc_parse, vLen = (\<lambda>v. length (rfc_append v))\<rparr>"

lemma foldl_big_endian:
  "foldl (\<lambda>a d. a * 256 + byte_val d) a (big_endian k v) = a * 256 ^ k + v mod 256 ^ k"
proof (induction k arbitrary: a)
  case 0
  then show ?case by (simp add: big_endian_def)
next
  case (Suc k)
  have "big_endian (Suc k) v = byte_of (v div 256 ^ k) # big_endian k v" by (simp add: big_endian_def)
  moreover have "v mod 256 ^ Suc k = v div 256 ^ k mod 256 * 256 ^ k + v mod 256 ^ k"
    using mod_mult2_eq [of v "256 ^ k" 256] by (simp add: mult.commute)
  ultimately show ?case using Suc by (simp add: algebra_simps)
qed

lemma length_big_endian [simp]: "length (big_endian k v) = k"
  by (simp add: big_endian_def)

lemma rfc_parse_long:
  assumes "w = tag * 64 + v div 256 ^ k" and "v div 256 ^ k < 64" and "tag < 4" and "Suc k = 2 ^ tag"
  shows "rfc_parse (byte_of w # big_endian k v @ r) = Some (v, Suc k) \<and> 2 ^ (byte_val (byte_of w) div 64) = Suc k"
proof -
  define c where "c = byte_of w"
  have w: "byte_val c = tag * 64 + v div 256 ^ k" using assms(1-3) by (simp add: c_def)
  have d: "byte_val c div 64 = tag" "byte_val c mod 64 = v div 256 ^ k"
    unfolding w using assms(2) by simp_all
  have "foldl (\<lambda>a d. a * 256 + byte_val d) (v div 256 ^ k) (big_endian k v) = v"
    by (simp only: foldl_big_endian div_mult_mod_eq)
  then show ?thesis using assms(4) d by (simp add: rfc_parse_def Let_def c_def [symmetric] flip: assms(4))
qed

lemma rfc_parse_append:
  assumes "v < 2 ^ 62"
  shows "rfc_parse (rfc_append v @ r) = Some (v, length (rfc_append v)) \<and>
    length (rfc_append v) = 2 ^ (byte_val (hd (rfc_append v)) div 64)"
proof -
  consider "v < 2 ^ 6" | "2 ^ 6 \<le> v" "v < 2 ^ 14" | "2 ^ 14 \<le> v" "v < 2 ^ 30" | "2 ^ 30 \<le> v" "v < 2 ^ 62"
    using assms by linarith
  then show ?thesis
  proof cases
    case 1
    then show ?thesis by (simp add: rfc_append_def rfc_parse_def)
  next
    case 2
    then have "v div 256 ^ 1 < 64" by (simp add: less_mult_imp_div_less)
    with 2 rfc_parse_long [of "64 + v div 256" 1 v 1 r] show ?thesis by (simp add: rfc_append_def)
  next
    case 3
    then have "v div 256 ^ 3 < 64" by (simp add: less_mult_imp_div_less)
    with 3 rfc_parse_long [of "128 + v div 256 ^ 3" 2 v 3 r] show ?thesis by (simp add: rfc_append_def)
  next
    case 4
    then have "v div 256 ^ 7 < 64" by (simp add: less_mult_imp_div_less)
    with 4 rfc_parse_long [of "192 + v div 256 ^ 7" 3 v 7 r] show ?thesis by (simp add: rfc_append_def)
  qed
qed

lemma rfc_varint_laws: "varint_laws rfc_varint"
proof -
  have "rfc_append v \<noteq> []" for v by (simp add: rfc_append_def)
  then show ?thesis using rfc_parse_append by (simp add: varint_laws_def rfc_varint_def)
qed

section \<open>Stream codecs\<close>

lemma varint_lawsD:
  assumes "varint_laws V" and "v < 2 ^ 62"
  shows "vAppend V v \<noteq> []" "length (vAppend V v) = 2 ^ (byte_val (hd (vAppend V v)) div 64)"
    "vParse V (vAppend V v @ r) = Some (v, length (vAppend V v))" "vLen V v = length (vAppend V v)"
  using assms by (auto simp: varint_laws_def)

lemma readVarint_written:
  assumes "varint_laws V" and "v < 2 ^ 62"
  shows "readVarintFromStream V (vAppend V v @ r) = Inr (v, r)"
proof -
  obtain c cs where b: "vAppend V v = c # cs" using varint_lawsD(1) [OF assms] by (cases "vAppend V v") auto
  have l: "Suc (length cs) = 2 ^ (byte_val c div 64)" using varint_lawsD(2) [OF assms] b by simp
  have p: "vParse V (c # cs) = Some (v, Suc (length cs))" using varint_lawsD(3) [OF assms, of "[]"] b by simp
  have n: "2 ^ (byte_val c div 64) - 1 = length cs" using l by simp
  show ?thesis
    using p by (auto simp: readVarintFromStream_def b ReadFull_def Let_def n [simplified] l [symmetric]
        DecodeVarint_def)
qed

interpretation varints: stream_codec "\<lambda>v. varint_laws V \<and> v < 2 ^ 62" "vAppend V" "readVarintFromStream V" for V
  by unfold_locales (simp add: readVarint_written)

definition capsule_ok :: "varint \<Rightarrow> nat \<times> bytes \<Rightarrow> bool" where
  "capsule_ok V c \<longleftrightarrow> varint_laws V \<and> fst c < 2 ^ 62 \<and> length (snd c) \<le> max_capsule"

definition capsule_bytes :: "varint \<Rightarrow> nat \<times> bytes \<Rightarrow> bytes" where
  "capsule_bytes V c = vAppend V (fst c) @ vAppend V (length (snd c)) @ snd c"

lemma read_capsule_written:
  assumes "capsule_ok V c"
  shows "read_capsule V (capsule_bytes V c @ r) = Inr (c, r)"
proof -
  have "length (snd c) < 2 ^ 62" using assms by (simp add: capsule_ok_def)
  then show ?thesis
    using assms
    by (cases c) (auto simp: capsule_ok_def capsule_bytes_def read_capsule_def readH3FrameHeader_def
        readVarint_written ReadFull_def)
qed

interpretation capsules: stream_codec "capsule_ok V" "capsule_bytes V" "read_capsule V" for V
  by unfold_locales (rule read_capsule_written)

section \<open>Error codes\<close>

lemma code_value:
  "unat (WebTransportCodeToHTTPCode n) = 0x52e4a40fa8db + unat n + unat n div 30"
proof -
  have n: "unat n < 2 ^ 32" using unsigned_less [of n, where 'a = nat] by simp
  have u: "unat (ucast n :: 64 word) = unat n" using n by (simp add: unsigned_ucast_eq take_bit_nat_eq_self_iff)
  have "unat n div 30 \<le> unat n" by simp
  then have s: "0x52e4a40fa8db + unat n + unat n div 30 < 2 ^ 64" using n by simp
  then show ?thesis
    by (simp add: WebTransportCodeToHTTPCode_def Let_def unat_word_ariths u unat_div_distrib)
qed

lemma shifted_bound:
  assumes "(s :: nat) \<le> 4438132871"
  shows "s - s div 31 \<le> 4294967295"
proof -
  define q r where "q = s div 31" and "r = s mod 31"
  have "s = 31 * q + r" "r < 31" by (simp_all add: q_def r_def)
  then have "30 * q + r \<le> 4294967295" using assms by arith
  with \<open>s = 31 * q + r\<close> show ?thesis by (simp add: q_def [symmetric])
qed

lemma code_of_value:
  "HTTPCodeToWebTransportCode h =
    (let s = unat h - 0x52e4a40fa8db in
     if unat h < 0x52e4a40fa8db \<or> unat h > 0x52e5ac983162 \<or> s mod 31 = 30 then None
     else Some (word_of_nat (s - s div 31)))"
proof (cases "unat h < 0x52e4a40fa8db \<or> unat h > 0x52e5ac983162")
  case True
  then show ?thesis by (auto simp: HTTPCodeToWebTransportCode_def word_less_nat_alt Let_def)
next
  case False
  define s where "s = unat h - 0x52e4a40fa8db"
  have h: "unat h = 0x52e4a40fa8db + s" and sb: "s \<le> 4438132871" using False by (auto simp: s_def)
  have r: "\<not> h < WTApplicationErrorFirst" "\<not> h > WTApplicationErrorLast"
    using False by (auto simp: word_less_nat_alt)
  have u1: "unat (h - 0x21) = unat h - 0x21" using h by (simp add: unat_sub word_le_nat_alt)
  have f: "0x52e4a40fa8db + s - 0x21 = 31 * 2940063177767 + (1 + s)" by simp
  have "unat ((h - 0x21) mod 0x1f) = (31 * 2940063177767 + (1 + s)) mod 31"
    by (simp only: unat_mod u1 h f) simp
  also have "\<dots> = (1 + s) mod 31" by (simp only: mod_mult_self4)
  finally have "(h - 0x21) mod 0x1f = 0 \<longleftrightarrow> (1 + s) mod 31 = 0" by (simp add: unat_eq_0 [symmetric])
  moreover have "(1 + s) mod 31 = 0 \<longleftrightarrow> s mod 31 = 30" by presburger
  ultimately have m: "(h - 0x21) mod 0x1f = 0 \<longleftrightarrow> s mod 31 = 30" by (simp only:)
  define d where "d = h - WTApplicationErrorFirst"
  have u2: "unat d = s" using h by (simp add: d_def unat_sub word_le_nat_alt)
  have "d div 0x1f \<le> d" by (simp add: word_le_nat_alt unat_div)
  then have u3: "unat (d - d div 0x1f) = s - s div 31" by (simp add: unat_sub unat_div u2)
  have "\<not> d - d div 0x1f > 0xffffffff" using shifted_bound [OF sb] by (simp add: word_less_nat_alt u3)
  moreover have "(ucast (d - d div 0x1f) :: 32 word) = word_of_nat (s - s div 31)"
    by (metis of_nat_unat u3)
  ultimately show ?thesis
    using r m False by (simp add: HTTPCodeToWebTransportCode_def Let_def d_def [symmetric] s_def [symmetric])
qed

lemma code_roundtrip: "HTTPCodeToWebTransportCode (WebTransportCodeToHTTPCode n) = Some n"
proof -
  define q r where "q = unat n div 30" and "r = unat n mod 30"
  have n: "unat n = 30 * q + r" "r < 30" by (simp_all add: q_def r_def)
  have "unat n < 2 ^ 32" using unsigned_less [of n, where 'a = nat] by simp
  then have b: "31 * q + r \<le> 4438132871" using n by simp
  have v: "unat (WebTransportCodeToHTTPCode n) = 0x52e4a40fa8db + (31 * q + r)"
    using n by (simp add: code_value q_def [symmetric])
  have "(31 * q + r) mod 31 = r" "(31 * q + r) div 31 = q" using n(2) by simp_all
  moreover have "30 * word_of_nat q + word_of_nat r = n"
    using arg_cong [OF n(1), of "word_of_nat :: nat \<Rightarrow> 32 word"] by simp
  ultimately show ?thesis using n(2) b by (simp add: code_of_value v Let_def)
qed

lemma code_inverse:
  assumes "HTTPCodeToWebTransportCode h = Some n"
  shows "WebTransportCodeToHTTPCode n = h"
proof -
  define s where "s = unat h - 0x52e4a40fa8db"
  define q r where "q = s div 31" and "r = s mod 31"
  have s: "s = 31 * q + r" "r < 31" by (simp_all add: q_def r_def)
  have h: "unat h = 0x52e4a40fa8db + s" "s \<le> 4438132871" "r \<noteq> 30" "n = word_of_nat (s - q)"
    using assms by (auto simp: code_of_value Let_def s_def q_def r_def split: if_splits)
  have "s - q \<le> 4294967295" using shifted_bound [OF h(2)] by (simp add: q_def)
  moreover have "unat n = (s - q) mod 2 ^ LENGTH(32)" unfolding h(4) by (rule unat_of_nat)
  ultimately have "unat n = 30 * q + r" using s by simp
  then have "unat (WebTransportCodeToHTTPCode n) = unat h"
    using h(1,3) s by (simp add: code_value)
  then show ?thesis by (simp add: word_unat_eq_iff)
qed

section \<open>Truncation\<close>

lemma trim_valid_props: "Valid (trim_valid b) \<and> prefix (trim_valid b) b \<and>
    (\<forall>j\<le>length b. Valid (take j b) \<longrightarrow> j \<le> length (trim_valid b))"
proof (induction b rule: trim_valid.induct)
  case (1 b)
  show ?case
  proof (cases "length b > 0 \<and> \<not> Valid b")
    case True
    define c where "c = take (length b - 1) b"
    have IH: "Valid (trim_valid c)" "prefix (trim_valid c) c"
      "\<forall>j\<le>length c. Valid (take j c) \<longrightarrow> j \<le> length (trim_valid c)"
      using 1 True by (auto simp: c_def)
    have t: "trim_valid b = trim_valid c" using True by (simp add: trim_valid.simps [of b] c_def)
    have "prefix c b" by (simp add: c_def take_is_prefix)
    moreover have "j \<le> length (trim_valid c)" if "j \<le> length b" "Valid (take j b)" for j
    proof -
      have "j \<noteq> length b" using that True by auto
      then have "j \<le> length c" "take j c = take j b" using that by (auto simp: c_def min_def)
      then show ?thesis using IH(3) that(2) by auto
    qed
    ultimately show ?thesis using IH t prefix_order.trans by auto
  next
    case False
    then show ?thesis by (auto simp: trim_valid.simps [of b])
  qed
qed

lemma rune_len_le_4: "rune_len s \<le> 4"
  by (cases s) (auto simp: Let_def split: list.splits)

lemma valid_near:
  "Valid s \<Longrightarrow> k \<le> length s \<Longrightarrow> \<exists>j\<le>k. k \<le> j + 3 \<and> Valid (take j s)"
proof (induction s arbitrary: k rule: Valid.induct)
  case (1 s)
  show ?case
  proof (cases "s = [] \<or> k < rune_len s")
    case True
    then show ?thesis using rune_len_le_4 [of s] 1(3) by (intro exI [of _ 0]) auto
  next
    case False
    define n where "n = rune_len s"
    have n: "n \<noteq> 0" "Valid (drop n s)" "n \<le> k" "n \<le> length s"
      using 1(2) False rune_len_le [of s] by (auto simp: Valid.simps [of s] n_def split: if_splits)
    have "k - n \<le> length (drop n s)" using 1(3) by (simp add: diff_le_mono)
    then obtain j where j: "j \<le> k - n" "k - n \<le> j + 3" "Valid (take j (drop n s))"
      using 1(1) [of "k - n"] False n unfolding n_def by blast
    have l: "length (take n s) = n" using n by simp
    have "Valid (take n s @ take j (drop n s))"
      using j n rune_len_take [of s n "[]"] by (subst Valid_append_rune) (auto simp: n_def)
    moreover have "take n s @ take j (drop n s) = take (n + j) s" by (simp add: take_add)
    ultimately show ?thesis using j n by (intro exI [of _ "n + j"]) auto
  qed
qed

lemma truncate_props:
  assumes "Valid msg"
  shows "Valid (TruncateErrorMessage msg) \<and> prefix (TruncateErrorMessage msg) msg \<and>
    length (TruncateErrorMessage msg) \<le> 1024 \<and> min (length msg) 1021 \<le> length (TruncateErrorMessage msg)"
proof (cases "length msg \<le> 1024")
  case True
  then show ?thesis using assms by (simp add: TruncateErrorMessage_def)
next
  case False
  define b where "b = take 1024 msg"
  obtain j where j: "j \<le> 1024" "1024 \<le> j + 3" "Valid (take j msg)"
    using valid_near [OF assms, of 1024] False by auto
  then have "take j b = take j msg" "j \<le> length b" using False by (auto simp: b_def min_def)
  then have "j \<le> length (trim_valid b)" using trim_valid_props [of b] j by auto
  moreover have "prefix (trim_valid b) msg"
    using trim_valid_props [of b] take_is_prefix [of 1024 msg] prefix_order.trans by (auto simp: b_def)
  moreover have "length (trim_valid b) \<le> 1024"
    using trim_valid_props [of b] prefix_length_le [of "trim_valid b" b] by (simp add: b_def)
  ultimately show ?thesis
    using False j trim_valid_props [of b] by (auto simp: TruncateErrorMessage_def b_def)
qed

section \<open>Encoding into a slice\<close>

lemma header_written:
  assumes "length (vAppend V t @ vAppend V l) \<le> length dst"
  shows "EncodeCapsuleHeader V t l dst =
    Some (vAppend V t @ vAppend V l @ drop (length (vAppend V t @ vAppend V l)) dst, length (vAppend V t @ vAppend V l))"
  using assms
  by (auto simp: EncodeCapsuleHeader_def Let_def append_at_def overwrite_def add.commute)

lemma EncodeCapsule_written:
  assumes "length (capsule_bytes V (t, payload)) \<le> length dst"
  shows "EncodeCapsule V t payload dst =
    Some (capsule_bytes V (t, payload) @ drop (length (capsule_bytes V (t, payload))) dst,
          length (capsule_bytes V (t, payload)))"
proof -
  have "length (vAppend V t @ vAppend V (length payload)) \<le> length dst"
    using assms by (simp add: capsule_bytes_def)
  from header_written [OF this] show ?thesis
    using assms
    by (simp add: EncodeCapsule_def copy_at_def overwrite_def capsule_bytes_def ac_simps)
qed

definition close_bytes :: "CloseSessionPayload \<Rightarrow> bytes" where
  "close_bytes p = PutUint32 BigEndian (ApplicationErrorCode p) @ TruncateErrorMessage (ErrorMessage p)"

lemma close_capsule_written:
  assumes "length (capsule_bytes V (CapsuleCloseWebTransportSession, close_bytes p)) \<le> length dst"
  shows "\<exists>d n. EncodeCloseSessionCapsule V p dst = Some (d, n) \<and> n \<le> length d \<and>
    take n d = capsule_bytes V (CapsuleCloseWebTransportSession, close_bytes p)"
proof -
  let ?l = "4 + length (TruncateErrorMessage (ErrorMessage p))"
  have "length (vAppend V CapsuleCloseWebTransportSession @ vAppend V ?l) \<le> length dst"
    using assms by (simp add: capsule_bytes_def close_bytes_def)
  from header_written [OF this] show ?thesis
    using assms
    by (simp add: EncodeCloseSessionCapsule_def Let_def put32_at_def copy_at_def overwrite_def capsule_bytes_def
        close_bytes_def add.assoc)
qed

text \<open>When the capsule does not fit, the reported length exceeds the slice.\<close>

lemma close_capsule_overflow:
  assumes "length (capsule_bytes V (CapsuleCloseWebTransportSession, close_bytes p)) > length dst"
    and "EncodeCloseSessionCapsule V p dst = Some (d, n)"
  shows "n > length d"
proof -
  have o: "length (overwrite x off y) = length x" if "off + length y \<le> length x" for x off y
    using that by (simp add: overwrite_def)
  have a: "append_at x off y = Some z \<Longrightarrow> length z = length x" for x off y z
    by (auto simp: append_at_def o split: if_splits)
  have c: "copy_at x off y = Some z \<Longrightarrow> length z = length x" for x off y z
    by (auto simp: copy_at_def o split: if_splits)
  have q: "put32_at x off y = Some z \<Longrightarrow> length z = length x" for x off y z
    by (auto simp: put32_at_def o split: if_splits)
  have h: "EncodeCapsuleHeader V t l x = Some (z, k) \<Longrightarrow>
      length z = length x \<and> k = length (vAppend V t) + length (vAppend V l)" for t l x z k
    by (auto simp: EncodeCapsuleHeader_def Let_def split: option.splits dest!: a)
  have "length d = length dst \<and> n = length (capsule_bytes V (CapsuleCloseWebTransportSession, close_bytes p))"
    using assms(2)
    by (auto simp: EncodeCloseSessionCapsule_def Let_def capsule_bytes_def close_bytes_def
        split: option.splits prod.splits dest!: h q c)
  then show ?thesis using assms(1) by simp
qed

lemma decode_close_bytes:
  assumes "Valid (ErrorMessage p)"
  shows "DecodeCloseSessionPayload (close_bytes p) =
    Inr \<lparr>ApplicationErrorCode = ApplicationErrorCode p, ErrorMessage = TruncateErrorMessage (ErrorMessage p)\<rparr>"
  using truncate_props [OF assms] by (simp add: DecodeCloseSessionPayload_def close_bytes_def Let_def)

section \<open>Properties\<close>

text \<open>The two error-code maps are inverse to each other: every application code has its own HTTP/3
  code, inside the reserved range and never a reserved codepoint, and exactly these codes convert
  back.  No step of the 64-bit arithmetic wraps.\<close>
theorem error_codes_bijective:
  "HTTPCodeToWebTransportCode h = Some n \<longleftrightarrow> h = WebTransportCodeToHTTPCode n"
  using code_roundtrip code_inverse by metis

text \<open>C9: capsules survive the wire.  Any sequence of capsules, each written by \<^verbatim>\<open>EncodeCapsule\<close> into a
  slice that is large enough, is read back from the stream one by one, with nothing consumed beyond
  them.\<close>
theorem capsules_roundtrip:
  assumes "list_all (capsule_ok V) cs"
  shows "(\<forall>c\<in>set cs. \<forall>dst. length (capsule_bytes V c) \<le> length dst \<longrightarrow>
      (\<exists>d n. EncodeCapsule V (fst c) (snd c) dst = Some (d, n) \<and> n \<le> length d \<and> take n d = capsule_bytes V c)) \<and>
    read_many (read_capsule V) (length cs) (concat (map (capsule_bytes V) cs) @ rest) = Inr (cs, rest)"
  using EncodeCapsule_written capsules.read_many_written [OF assms] by force

theorem capsules_roundtrip_witness:
  "read_many (read_capsule rfc_varint) (Suc (Suc 0))
     (concat (map (capsule_bytes rfc_varint) [(0x78ae, []), (0x190b4d3d, ''ab'')]) @ ''z'')
   = Inr ([(0x78ae, []), (0x190b4d3d, ''ab'')], ''z'')"
proof -
  have "list_all (capsule_ok rfc_varint) [(0x78ae, []), (0x190b4d3d, ''ab'')]"
    using rfc_varint_laws by (simp add: capsule_ok_def)
  from capsules_roundtrip [OF this, of "''z''"] show ?thesis by simp
qed

text \<open>Closing.  The closing capsule for any code and any valid UTF-8 message is read back as that
  code with the message cut to a valid prefix of at most 1024 bytes that loses at most three bytes
  to the character boundary.\<close>
theorem close_capsule_roundtrip:
  assumes "varint_laws V" and "Valid (ErrorMessage p)"
    and "length (capsule_bytes V (CapsuleCloseWebTransportSession, close_bytes p)) \<le> length dst"
  shows "\<exists>d n payload msg. EncodeCloseSessionCapsule V p dst = Some (d, n) \<and>
    read_capsule V (take n d @ rest) = Inr ((CapsuleCloseWebTransportSession, payload), rest) \<and>
    DecodeCloseSessionPayload payload = Inr \<lparr>ApplicationErrorCode = ApplicationErrorCode p, ErrorMessage = msg\<rparr> \<and>
    prefix msg (ErrorMessage p) \<and> Valid msg \<and> length msg \<le> 1024 \<and> min (length (ErrorMessage p)) 1021 \<le> length msg"
proof -
  have "capsule_ok V (CapsuleCloseWebTransportSession, close_bytes p)"
    using assms(1) truncate_props [OF assms(2)] by (simp add: capsule_ok_def close_bytes_def)
  from read_capsule_written [OF this, of rest] close_capsule_written [OF assms(3)]
    decode_close_bytes [OF assms(2)] truncate_props [OF assms(2)]
  show ?thesis by auto
qed

theorem close_capsule_roundtrip_witness:
  "\<exists>d n payload msg. EncodeCloseSessionCapsule rfc_varint \<lparr>ApplicationErrorCode = 7, ErrorMessage = ''bye''\<rparr>
      (replicate 64 (CHR ''x'')) = Some (d, n) \<and>
    read_capsule rfc_varint (take n d @ ''z'') = Inr ((CapsuleCloseWebTransportSession, payload), ''z'') \<and>
    DecodeCloseSessionPayload payload = Inr \<lparr>ApplicationErrorCode = 7, ErrorMessage = msg\<rparr> \<and> length msg \<le> 1024"
proof -
  let ?p = "\<lparr>ApplicationErrorCode = 7, ErrorMessage = ''bye''\<rparr>"
  have "Valid (ErrorMessage ?p)" by (simp add: Valid.simps Let_def byte_eval)
  moreover have "length (capsule_bytes rfc_varint (CapsuleCloseWebTransportSession, close_bytes ?p))
      \<le> length (replicate 64 (CHR ''x''))"
    by (simp add: capsule_bytes_def close_bytes_def rfc_varint_def rfc_append_def TruncateErrorMessage_def)
  ultimately show ?thesis
    using close_capsule_roundtrip [OF rfc_varint_laws, of ?p "replicate 64 (CHR ''x'')" "''z''"] by auto
qed

end
