(* ===== verification/WT_Session.thy ===== *)
theory WT_Session
  imports WT_Capsule Go_Strconv
begin

text \<open>
  Package \<^verbatim>\<open>webtransport\<close>, files \<^verbatim>\<open>src/webtransport/stream.go\<close>, \<^verbatim>\<open>session.go\<close> and the
  connection dispatcher of \<^verbatim>\<open>dial.go\<close>: streams with their coalesced header, the session
  and its control loop, and the delivery of streams and datagrams.  The QUIC
  transport is not part of the package: what a raw stream accepts of a write and
  what the transport returns are arguments.  The channels and the mutex of a session
  have a step relation of their own at the end, because there the order of the
  steps matters.
\<close>

section \<open>stream.go\<close>

abbreviation (input) StreamTypeWebTransportUni :: nat where "StreamTypeWebTransportUni \<equiv> 0x54"
abbreviation (input) FrameTypeWebTransportBidi :: nat where "FrameTypeWebTransportBidi \<equiv> 0x41"

text \<open>\<open>acc out p\<close>: how many bytes of \<open>p\<close> the raw stream takes after \<open>out\<close>, and the error.\<close>

type_synonym raw_accept = "bytes \<Rightarrow> bytes \<Rightarrow> nat \<times> wt_error option"

text \<open>
  A send stream and a bidirectional stream share their header state and the writing half
  of the raw stream: the bytes it took, whether it was closed, and the codes
  it was cancelled with.  A bidirectional stream adds its role and its reading half; of a
  receive stream only the reading half exists.
\<close>

record SendStream =
  st_session :: nat
  st_id :: nat
  st_headerWritten :: bool
  st_closed :: bool
  st_out :: bytes
  st_rawClosed :: bool
  st_cancelled :: "64 word list"

record Stream = SendStream +
  st_isClient :: bool
  st_readCancelled :: "64 word list"

record ReceiveStream =
  rs_session :: nat
  rs_id :: nat
  rs_closed :: bool
  rs_readCancelled :: "64 word list"

definition newOutgoingStream :: "nat \<Rightarrow> nat \<Rightarrow> Stream" where
  "newOutgoingStream sessionID streamID =
    \<lparr>st_session = sessionID, st_id = streamID, st_headerWritten = False, st_closed = False,
     st_out = [], st_rawClosed = False, st_cancelled = [], st_isClient = True, st_readCancelled = []\<rparr>"

definition newIncomingStream :: "nat \<Rightarrow> nat \<Rightarrow> Stream" where
  "newIncomingStream sessionID streamID =
    \<lparr>st_session = sessionID, st_id = streamID, st_headerWritten = True, st_closed = False,
     st_out = [], st_rawClosed = False, st_cancelled = [], st_isClient = False, st_readCancelled = []\<rparr>"

definition raw_write :: "raw_accept \<Rightarrow> bytes \<Rightarrow> 'a SendStream_scheme \<Rightarrow> (nat \<times> wt_error option) \<times> 'a SendStream_scheme" where
  "raw_write acc p s =
    (let (n, err) = acc (st_out s) p in ((n, err), s\<lparr>st_out := st_out s @ take n p\<rparr>))"

definition Read_stream :: "nat \<times> wt_error option \<Rightarrow> Stream \<Rightarrow> nat \<times> wt_error option" where
  "Read_stream result s = (if st_closed s then (0, Some ErrStreamClosed) else result)"

definition coalesced :: "raw_accept \<Rightarrow> bytes \<Rightarrow> bytes \<Rightarrow> 'a SendStream_scheme \<Rightarrow> (nat \<times> wt_error option) \<times> 'a SendStream_scheme" where
  "coalesced acc hdr p s =
    (case raw_write acc (hdr @ p) (s\<lparr>st_headerWritten := True\<rparr>) of
       ((n, err), s) \<Rightarrow> ((if n > length hdr then n - length hdr else 0, err), s))"

definition Write_stream :: "varint \<Rightarrow> raw_accept \<Rightarrow> bytes \<Rightarrow> Stream \<Rightarrow> (nat \<times> wt_error option) \<times> Stream" where
  "Write_stream V acc p s =
    (if st_closed s then ((0, Some ErrStreamClosed), s)
     else if st_isClient s \<and> \<not> st_headerWritten s
     then coalesced acc (vAppend V FrameTypeWebTransportBidi @ vAppend V (st_session s)) p s
     else raw_write acc p s)"

definition Close_stream :: "Stream \<Rightarrow> Stream" where
  "Close_stream s = (if st_closed s then s else s\<lparr>st_closed := True, st_rawClosed := True\<rparr>)"

definition CancelWrite :: "32 word \<Rightarrow> Stream \<Rightarrow> Stream" where
  "CancelWrite code s = s\<lparr>st_cancelled := st_cancelled s @ [WebTransportCodeToHTTPCode code]\<rparr>"

definition CancelRead :: "32 word \<Rightarrow> Stream \<Rightarrow> Stream" where
  "CancelRead code s = s\<lparr>st_readCancelled := st_readCancelled s @ [WebTransportCodeToHTTPCode code]\<rparr>"

text \<open>The addresses for \<^verbatim>\<open>net.Conn\<close>: the session, with a fixed network and text.\<close>

datatype wtAddr = WtAddr (addr_session: nat)

definition LocalAddr :: "Stream \<Rightarrow> wtAddr" where "LocalAddr s = WtAddr (st_session s)"

definition RemoteAddr :: "Stream \<Rightarrow> wtAddr" where "RemoteAddr s = WtAddr (st_session s)"

definition wtAddr_Network :: "wtAddr \<Rightarrow> bytes" where "wtAddr_Network a = ''webtransport''"

definition wtAddr_String :: "wtAddr \<Rightarrow> bytes" where "wtAddr_String a = ''webtransport:session''"

text \<open>Unidirectional send streams.\<close>

definition newSendStream :: "nat \<Rightarrow> nat \<Rightarrow> SendStream" where
  "newSendStream sessionID streamID =
    \<lparr>st_session = sessionID, st_id = streamID, st_headerWritten = False, st_closed = False,
     st_out = [], st_rawClosed = False, st_cancelled = []\<rparr>"

definition Write_send :: "varint \<Rightarrow> raw_accept \<Rightarrow> bytes \<Rightarrow> SendStream \<Rightarrow> (nat \<times> wt_error option) \<times> SendStream" where
  "Write_send V acc p s =
    (if st_closed s then ((0, Some ErrStreamClosed), s)
     else if \<not> st_headerWritten s
     then coalesced acc (vAppend V StreamTypeWebTransportUni @ vAppend V (st_session s)) p s
     else raw_write acc p s)"

definition Close_send :: "SendStream \<Rightarrow> SendStream" where
  "Close_send s = (if st_closed s then s else s\<lparr>st_closed := True, st_rawClosed := True\<rparr>)"

definition CancelWrite_send :: "32 word \<Rightarrow> SendStream \<Rightarrow> SendStream" where
  "CancelWrite_send code s = s\<lparr>st_cancelled := st_cancelled s @ [WebTransportCodeToHTTPCode code]\<rparr>"

text \<open>Unidirectional receive streams: closing one only marks it.\<close>

definition newReceiveStream :: "nat \<Rightarrow> nat \<Rightarrow> ReceiveStream" where
  "newReceiveStream sessionID streamID =
    \<lparr>rs_session = sessionID, rs_id = streamID, rs_closed = False, rs_readCancelled = []\<rparr>"

definition Read_receive :: "nat \<times> wt_error option \<Rightarrow> ReceiveStream \<Rightarrow> nat \<times> wt_error option" where
  "Read_receive result s = (if rs_closed s then (0, Some ErrStreamClosed) else result)"

definition Close_receive :: "ReceiveStream \<Rightarrow> ReceiveStream" where
  "Close_receive s = s\<lparr>rs_closed := True\<rparr>"

definition CancelRead_receive :: "32 word \<Rightarrow> ReceiveStream \<Rightarrow> ReceiveStream" where
  "CancelRead_receive code s = s\<lparr>rs_readCancelled := rs_readCancelled s @ [WebTransportCodeToHTTPCode code]\<rparr>"

section \<open>session.go\<close>

record Session =
  sessionID :: nat
  has_control :: bool
  ctx_done :: bool
  bidiStreams :: "Stream list"
  uniStreams :: "ReceiveStream list"
  datagrams :: "bytes list"
  ses_closed :: bool
  ses_draining :: bool
  closeErr :: "wt_error option"
  control_out :: bytes
  control_closed :: bool

definition NewSession :: "nat \<Rightarrow> bool \<Rightarrow> Session" where
  "NewSession sid ctl =
    \<lparr>sessionID = sid, has_control = ctl, ctx_done = False, bidiStreams = [], uniStreams = [],
     datagrams = [], ses_closed = False, ses_draining = False, closeErr = None, control_out = [],
     control_closed = False\<rparr>"

text \<open>Opening a stream: the transport's answer is an argument, the new stream's id or none.\<close>

definition OpenStream :: "nat option \<Rightarrow> Session \<Rightarrow> wt_error + Stream" where
  "OpenStream raw s =
    (if ses_closed s then Inl ErrSessionClosed
     else if ses_draining s then Inl ErrSessionDraining
     else case raw of None \<Rightarrow> Inl WtTransport | Some sid \<Rightarrow> Inr (newOutgoingStream (sessionID s) sid))"

definition OpenUniStream :: "nat option \<Rightarrow> Session \<Rightarrow> wt_error + SendStream" where
  "OpenUniStream raw s =
    (if ses_closed s then Inl ErrSessionClosed
     else if ses_draining s then Inl ErrSessionDraining
     else case raw of None \<Rightarrow> Inl WtTransport | Some sid \<Rightarrow> Inr (newSendStream (sessionID s) sid))"

text \<open>
  The three accepting operations wait on the session's context, the caller's and a
  channel; \<open>choice\<close> says which was ready and chosen.
\<close>

datatype accept_choice = AcSession | AcCaller | AcQueue

definition closed_error :: "Session \<Rightarrow> wt_error" where
  "closed_error s = (case closeErr s of Some e \<Rightarrow> e | None \<Rightarrow> ErrSessionClosed)"

definition accept_from :: "accept_choice \<Rightarrow> 'a list \<Rightarrow> Session \<Rightarrow> (wt_error + 'a) option \<times> 'a list" where
  "accept_from choice q s =
    (case choice of
       AcSession \<Rightarrow> (if ctx_done s then Some (Inl (closed_error s)) else None, q)
     | AcCaller \<Rightarrow> (Some (Inl WtCtx), q)
     | AcQueue \<Rightarrow>
         (case q of
            x # q \<Rightarrow> (Some (Inr x), q)
          | [] \<Rightarrow> (if ses_closed s then Some (Inl ErrSessionClosed) else None, [])))"

definition AcceptStream :: "accept_choice \<Rightarrow> Session \<Rightarrow> (wt_error + Stream) option \<times> Session" where
  "AcceptStream choice s =
    (case accept_from choice (bidiStreams s) s of (r, q) \<Rightarrow> (r, s\<lparr>bidiStreams := q\<rparr>))"

definition AcceptUniStream :: "accept_choice \<Rightarrow> Session \<Rightarrow> (wt_error + ReceiveStream) option \<times> Session" where
  "AcceptUniStream choice s =
    (case accept_from choice (uniStreams s) s of (r, q) \<Rightarrow> (r, s\<lparr>uniStreams := q\<rparr>))"

definition ReceiveDatagram :: "accept_choice \<Rightarrow> Session \<Rightarrow> (wt_error + bytes) option \<times> Session" where
  "ReceiveDatagram choice s =
    (case accept_from choice (datagrams s) s of (r, q) \<Rightarrow> (r, s\<lparr>datagrams := q\<rparr>))"

text \<open>
  \<^verbatim>\<open>SendDatagram\<close> fills a pooled buffer of the total length with the quarter stream id and
  the payload; the bytes handed to the transport are its result (\<open>None\<close> is a panic).
\<close>

definition SendDatagram :: "varint \<Rightarrow> bytes \<Rightarrow> bytes \<Rightarrow> Session \<Rightarrow> wt_error + bytes option" where
  "SendDatagram V pooled p s =
    (if ses_closed s then Inl ErrSessionClosed
     else
      (let quarterID = sessionID s div 4; idLen = vLen V quarterID; totalLen = idLen + length p;
           buf = (if length pooled < totalLen then replicate totalLen (byte_of 0) else take totalLen pooled)
       in Inr (case append_at buf 0 (vAppend V quarterID) of
                 None \<Rightarrow> None
               | Some buf \<Rightarrow> copy_at buf idLen p)))"

text \<open>
  \<open>written\<close> is what writing to the control stream returns.  The first component of
  \<open>Drain\<close> and \<open>CloseWithError\<close> says whether the operation panics.
\<close>

definition Drain :: "varint \<Rightarrow> wt_error option \<Rightarrow> Session \<Rightarrow> (bool \<times> wt_error option) \<times> Session" where
  "Drain V written s =
    (if ses_closed s then ((False, Some ErrSessionClosed), s)
     else if ses_draining s then ((False, None), s)
     else
      (let s = s\<lparr>ses_draining := True\<rparr> in
       case EncodeDrainSessionCapsule V (replicate 16 (byte_of 0)) of
         None \<Rightarrow> ((True, None), s)
       | Some (buf, n) \<Rightarrow>
           if \<not> has_control s then ((False, None), s)
           else if n > length buf then ((True, None), s)
           else ((False, written), s\<lparr>control_out := control_out s @ take n buf\<rparr>)))"

definition CloseWithError :: "varint \<Rightarrow> 32 word \<Rightarrow> bytes \<Rightarrow> Session \<Rightarrow> bool \<times> Session" where
  "CloseWithError V code msg s =
    (if ses_closed s then (False, s)
     else
      (let s = s\<lparr>ses_closed := True, closeErr := Some (SessionError code msg), ctx_done := True\<rparr>
       in case EncodeCloseSessionCapsule V \<lparr>ApplicationErrorCode = code, ErrorMessage = msg\<rparr>
                 (replicate 512 (byte_of 0)) of
            None \<Rightarrow> (True, s)
          | Some (buf, n) \<Rightarrow>
              if \<not> has_control s then (False, s)
              else if n > length buf then (True, s)
              else (False, s\<lparr>control_out := control_out s @ take n buf, control_closed := True\<rparr>)))"

definition Close_session :: "varint \<Rightarrow> Session \<Rightarrow> bool \<times> Session" where
  "Close_session V s = CloseWithError V 0 [] s"

text \<open>
  What an enqueue does at one moment: put the stream into the channel, close it, or
  wait.  When the context has ended and there is room, \<^verbatim>\<open>select\<close> may choose either.
\<close>

datatype incoming = Delivered | Refused | Waiting

definition enqueue :: "bool \<Rightarrow> nat \<Rightarrow> Session \<Rightarrow> incoming" where
  "enqueue ctxFirst len s =
    (if ses_closed s then Refused
     else if ctx_done s \<and> (ctxFirst \<or> len \<ge> 256) then Refused
     else if len < 256 then Delivered
     else Waiting)"

definition EnqueueBidiStream :: "bool \<Rightarrow> Stream \<Rightarrow> Session \<Rightarrow> incoming \<times> Session" where
  "EnqueueBidiStream ctxFirst str s =
    (case enqueue ctxFirst (length (bidiStreams s)) s of
       Delivered \<Rightarrow> (Delivered, s\<lparr>bidiStreams := bidiStreams s @ [str]\<rparr>)
     | other \<Rightarrow> (other, s))"

definition EnqueueUniStream :: "bool \<Rightarrow> ReceiveStream \<Rightarrow> Session \<Rightarrow> incoming \<times> Session" where
  "EnqueueUniStream ctxFirst str s =
    (case enqueue ctxFirst (length (uniStreams s)) s of
       Delivered \<Rightarrow> (Delivered, s\<lparr>uniStreams := uniStreams s @ [str]\<rparr>)
     | other \<Rightarrow> (other, s))"

definition EnqueueDatagram :: "bytes \<Rightarrow> Session \<Rightarrow> Session" where
  "EnqueueDatagram data s =
    (if ses_closed s then s
     else if length (datagrams s) < 1024 then s\<lparr>datagrams := datagrams s @ [data]\<rparr> else s)"

section \<open>The control loop\<close>

lemma ReadFull_shrinks: "ReadFull n r = Inr (a, r') \<Longrightarrow> length r' = length r - n \<and> n \<le> length r"
  by (auto simp: ReadFull_def split: if_splits)

lemma readVarint_shrinks: "readVarintFromStream V r = Inr (v, r') \<Longrightarrow> length r' < length r"
  by (auto simp: readVarintFromStream_def Let_def split: sum.splits prod.splits if_splits dest!: ReadFull_shrinks)

lemma read_capsule_shrinks: "read_capsule V r = Inr (c, r') \<Longrightarrow> length r' < length r"
  by (auto simp: read_capsule_def readH3FrameHeader_def split: sum.splits prod.splits if_splits
      dest!: ReadFull_shrinks readVarint_shrinks)

definition handle_capsule :: "varint \<Rightarrow> nat \<Rightarrow> bytes \<Rightarrow> Session \<Rightarrow> bool \<times> Session" where
  "handle_capsule V capsuleType payload s =
    (if capsuleType = CapsuleDrainWebTransportSession then (False, s\<lparr>ses_draining := True\<rparr>)
     else if capsuleType = CapsuleCloseWebTransportSession then
       (let s = (case DecodeCloseSessionPayload payload of
                   Inr p \<Rightarrow> s\<lparr>closeErr := Some (SessionError (ApplicationErrorCode p) (ErrorMessage p))\<rparr>
                 | Inl err \<Rightarrow> s)
        in (True, snd (Close_session V s)))
     else (False, s))"

function control_capsules :: "varint \<Rightarrow> bytes \<Rightarrow> Session \<Rightarrow> Session" where
  "control_capsules V r s =
    (case read_capsule V r of
       Inl err \<Rightarrow> s\<lparr>ctx_done := True\<rparr>
     | Inr ((capsuleType, payload), r) \<Rightarrow>
         (case handle_capsule V capsuleType payload s of
            (True, s) \<Rightarrow> s
          | (False, s) \<Rightarrow> control_capsules V r s))"
  by pat_completeness auto
termination
  by (relation "measure (\<lambda>(V, r, s). length r)") (auto dest: read_capsule_shrinks)

declare control_capsules.simps [simp del]

definition controlLoop :: "varint \<Rightarrow> bytes \<Rightarrow> Session \<Rightarrow> Session" where
  "controlLoop V r s = (if \<not> has_control s then s else control_capsules V r s)"

section \<open>dial.go: the connection dispatcher\<close>

definition handleIncomingBidi :: "varint \<Rightarrow> bool \<Rightarrow> nat \<Rightarrow> bytes \<Rightarrow> Session \<Rightarrow> (incoming \<times> bytes) \<times> Session" where
  "handleIncomingBidi V ctxFirst streamID r s =
    (case readVarintFromStream V r of
       Inl err \<Rightarrow> ((Refused, r), s)
     | Inr (fType, r) \<Rightarrow>
         if fType \<noteq> FrameTypeWebTransportBidi then ((Refused, r), s)
         else (case readVarintFromStream V r of
                 Inl err \<Rightarrow> ((Refused, r), s)
               | Inr (sessID, r) \<Rightarrow>
                   if sessID = sessionID s then
                     (case EnqueueBidiStream ctxFirst (newIncomingStream sessID streamID) s of
                        (result, s) \<Rightarrow> ((result, r), s))
                   else ((Refused, r), s)))"

definition handleIncomingUni :: "varint \<Rightarrow> bool \<Rightarrow> nat \<Rightarrow> bytes \<Rightarrow> Session \<Rightarrow> (incoming \<times> bytes) \<times> Session" where
  "handleIncomingUni V ctxFirst streamID r s =
    (case readVarintFromStream V r of
       Inl err \<Rightarrow> ((Refused, r), s)
     | Inr (sType, r) \<Rightarrow>
         if sType \<noteq> StreamTypeWebTransportUni then ((Refused, r), s)
         else (case readVarintFromStream V r of
                 Inl err \<Rightarrow> ((Refused, r), s)
               | Inr (sessID, r) \<Rightarrow>
                   if sessID = sessionID s then
                     (case EnqueueUniStream ctxFirst (newReceiveStream sessID streamID) s of
                        (result, s) \<Rightarrow> ((result, r), s))
                   else ((Refused, r), s)))"

text \<open>\<^verbatim>\<open>quarterID*4\<close> is computed in 64 bits.\<close>

definition dispatch_datagram :: "varint \<Rightarrow> bytes \<Rightarrow> Session \<Rightarrow> Session" where
  "dispatch_datagram V dgram s =
    (if length dgram = 0 then s
     else case DecodeVarint V dgram of
            Inl err \<Rightarrow> s
          | Inr (quarterID, n) \<Rightarrow>
              if quarterID * 4 mod 2 ^ 64 = sessionID s then EnqueueDatagram (drop n dgram) s else s)"

text \<open>When accepting or receiving fails, the dispatcher closes the session (\<^verbatim>\<open>Close\<close> acts once).\<close>

definition dispatcher_cleanup :: "varint \<Rightarrow> Session \<Rightarrow> Session" where
  "dispatcher_cleanup V s = snd (Close_session V s)"

text \<open>The end of \<^verbatim>\<open>DialWithConn\<close>: the response to the CONNECT request decides.\<close>

definition finish_handshake ::
  "varint \<Rightarrow> (bytes \<Rightarrow> (bytes \<times> bytes) list option) \<Rightarrow> nat \<Rightarrow> bytes \<Rightarrow> wt_error + (Session \<times> bytes)" where
  "finish_handshake V qpack sid r =
    (case readH3ResponseHeaders V qpack r of
       Inl err \<Rightarrow> Inl err
     | Inr (respHeaders, r) \<Rightarrow>
         (let status = (case respHeaders '':status'' of Some v \<Rightarrow> v | None \<Rightarrow> []);
              statusCode = (case Atoi status of Some n \<Rightarrow> n | None \<Rightarrow> 0)
          in if statusCode < 200 \<or> statusCode \<ge> 300 then Inl (ErrHandshakeFailed status)
             else Inr (NewSession sid True, r)))"

section \<open>The channels and the mutex\<close>

text \<open>
  How many goroutines are at which point: in an enqueue holding the read lock before
  (\<open>e1\<close>) and after (\<open>e2\<close>) the check of \<^verbatim>\<open>closed\<close>; in a close waiting for the write
  lock (\<open>c1\<close>), holding it (\<open>c2\<close>) and past it (\<open>c3\<close>).
\<close>

record wsys =
  w_closed :: bool
  w_ctx :: bool
  w_chans :: bool
  w_len :: nat
  e1 :: nat
  e2 :: nat
  c1 :: nat
  c2 :: nat
  c3 :: nat
  w_panic :: bool

inductive ws_step :: "bool \<Rightarrow> wsys \<Rightarrow> wsys \<Rightarrow> bool" for served :: bool where
  Enq_lock: "c2 s = 0 \<Longrightarrow> ws_step served s (s\<lparr>e1 := e1 s + 1\<rparr>)"
| Enq_refuse: "e1 s > 0 \<Longrightarrow> w_closed s \<Longrightarrow> ws_step served s (s\<lparr>e1 := e1 s - 1\<rparr>)"
| Enq_select: "e1 s > 0 \<Longrightarrow> \<not> w_closed s \<Longrightarrow> ws_step served s (s\<lparr>e1 := e1 s - 1, e2 := e2 s + 1\<rparr>)"
| Enq_send: "e2 s > 0 \<Longrightarrow> \<not> w_chans s \<Longrightarrow> w_len s < 256 \<Longrightarrow>
     ws_step served s (s\<lparr>e2 := e2 s - 1, w_len := w_len s + 1\<rparr>)"
| Enq_panic: "e2 s > 0 \<Longrightarrow> w_chans s \<Longrightarrow> ws_step served s (s\<lparr>w_panic := True\<rparr>)"
| Enq_ctx: "e2 s > 0 \<Longrightarrow> w_ctx s \<Longrightarrow> ws_step served s (s\<lparr>e2 := e2 s - 1\<rparr>)"
| Close_begin: "\<not> w_closed s \<Longrightarrow> ws_step served s (s\<lparr>w_closed := True, c1 := c1 s + 1\<rparr>)"
| Close_lock: "c1 s > 0 \<Longrightarrow> c2 s = 0 \<Longrightarrow> e1 s = 0 \<Longrightarrow> e2 s = 0 \<Longrightarrow>
     ws_step served s (s\<lparr>c1 := c1 s - 1, c2 := c2 s + 1\<rparr>)"
| Close_chans: "c2 s > 0 \<Longrightarrow> \<not> w_chans s \<Longrightarrow>
     ws_step served s (s\<lparr>w_chans := True, c2 := c2 s - 1, c3 := c3 s + 1\<rparr>)"
| Close_panic: "c2 s > 0 \<Longrightarrow> w_chans s \<Longrightarrow> ws_step served s (s\<lparr>w_panic := True\<rparr>)"
| Close_cancel: "c3 s > 0 \<Longrightarrow> ws_step served s (s\<lparr>w_ctx := True, c3 := c3 s - 1\<rparr>)"
| Accept: "served \<Longrightarrow> w_len s > 0 \<Longrightarrow> ws_step served s (s\<lparr>w_len := w_len s - 1\<rparr>)"
| Parent_cancel: "served \<Longrightarrow> ws_step served s (s\<lparr>w_ctx := True\<rparr>)"

inductive_cases ws_stepE: "ws_step served s t"

definition ws_init :: "wsys \<Rightarrow> bool" where
  "ws_init s \<longleftrightarrow> \<not> w_closed s \<and> \<not> w_ctx s \<and> \<not> w_chans s \<and> w_len s = 0 \<and> e1 s = 0 \<and> e2 s = 0 \<and>
     c1 s = 0 \<and> c2 s = 0 \<and> c3 s = 0 \<and> \<not> w_panic s"

definition ws_inv :: "wsys \<Rightarrow> bool" where
  "ws_inv s \<longleftrightarrow> \<not> w_panic s \<and> w_len s \<le> 256 \<and>
     c1 s + c2 s + (if w_chans s then 1 else 0) = (if w_closed s then 1 else 0) \<and>
     (c2 s > 0 \<longrightarrow> e1 s = 0 \<and> e2 s = 0) \<and> (e2 s > 0 \<longrightarrow> \<not> w_chans s)"

interpretation session_channels: invariant_system ws_init "ws_step served" ws_inv for served
proof
  show "ws_inv s" if "ws_init s" for s using that by (simp add: ws_init_def ws_inv_def)
  show "ws_inv t" if "ws_inv s" and "ws_step served s t" for s t
    using that(2,1) by cases (auto simp: ws_inv_def split: if_splits)
qed

text \<open>Closing while an enqueue waits for room: nothing but an accept (or the parent context) helps.\<close>

definition ws_stuck :: "wsys \<Rightarrow> bool" where
  "ws_stuck s \<longleftrightarrow> w_closed s \<and> \<not> w_ctx s \<and> \<not> w_chans s \<and> w_len s = 256 \<and> e2 s > 0 \<and>
     c1 s > 0 \<and> c2 s = 0 \<and> c3 s = 0"

interpretation stuck_close: invariant_system ws_stuck "ws_step False" ws_stuck
proof
  show "ws_stuck s" if "ws_stuck s" for s using that .
  show "ws_stuck t" if "ws_stuck s" and "ws_step False s t" for s t
    using that(2,1) by cases (auto simp: ws_stuck_def)
qed

section \<open>Streams\<close>

definition accepts_all :: "raw_accept \<Rightarrow> bool" where
  "accepts_all acc \<longleftrightarrow> (\<forall>out p. acc out p = (length p, None))"

fun write_all :: "(bytes \<Rightarrow> 'a \<Rightarrow> (nat \<times> wt_error option) \<times> 'a) \<Rightarrow> bytes list \<Rightarrow> 'a \<Rightarrow>
    (nat \<times> wt_error option) list \<times> 'a" where
  "write_all w [] s = ([], s)"
| "write_all w (p # ps) s =
    (case w p s of (r, s) \<Rightarrow> (case write_all w ps s of (rs, s) \<Rightarrow> (r # rs, s)))"

text \<open>
  Both kinds of stream write the same way: a header in front of the first write, nothing
  after that.  What follows from this is shown once.
\<close>

locale header_stream =
  fixes wr :: "raw_accept \<Rightarrow> bytes \<Rightarrow> 'a SendStream_scheme \<Rightarrow> (nat \<times> wt_error option) \<times> 'a SendStream_scheme"
    and hdr :: "nat \<Rightarrow> bytes"
    and fresh :: "nat \<Rightarrow> nat \<Rightarrow> 'a SendStream_scheme"
  assumes write_closed: "st_closed s \<Longrightarrow> wr acc p s = ((0, Some ErrStreamClosed), s)"
    and write_later: "\<not> st_closed s \<Longrightarrow> st_headerWritten s \<Longrightarrow> wr acc p s = raw_write acc p s"
    and write_first: "wr acc p (fresh sid k) = coalesced acc (hdr sid) p (fresh sid k)"
    and fresh_state: "\<not> st_closed (fresh sid k)" "\<not> st_headerWritten (fresh sid k)" "st_out (fresh sid k) = []"
begin

lemma writes_after_header:
  assumes "accepts_all acc" and "st_headerWritten s" and "\<not> st_closed s"
  shows "write_all (wr acc) ps s =
    (map (\<lambda>p. (length p, None)) ps, s\<lparr>st_out := st_out s @ concat ps\<rparr>)"
  using assms
proof (induction ps arbitrary: s)
  case Nil
  then show ?case by simp
next
  case (Cons p ps)
  then show ?case by (simp add: write_later raw_write_def accepts_all_def)
qed

lemma fresh_writes:
  assumes "accepts_all acc"
  shows "write_all (wr acc) ps (fresh sid k) =
    (map (\<lambda>p. (length p, None)) ps,
     (fresh sid k)\<lparr>st_headerWritten := (ps \<noteq> []), st_out := (if ps = [] then [] else hdr sid) @ concat ps\<rparr>)"
proof (cases ps)
  case Nil
  then show ?thesis using fresh_state(2,3) [of sid k] by (cases "fresh sid k") simp
next
  case (Cons p qs)
  define s1 where "s1 = (fresh sid k)\<lparr>st_headerWritten := True, st_out := hdr sid @ p\<rparr>"
  have w: "wr acc p (fresh sid k) = ((length p, None), s1)"
    using assms by (auto simp: write_first coalesced_def raw_write_def accepts_all_def fresh_state s1_def)
  have "write_all (wr acc) qs s1 = (map (\<lambda>p. (length p, None)) qs, s1\<lparr>st_out := st_out s1 @ concat qs\<rparr>)"
    using assms by (intro writes_after_header) (simp_all add: s1_def fresh_state)
  then show ?thesis using Cons w by (simp add: s1_def)
qed

lemma closed_writes: "st_closed s \<Longrightarrow> write_all (wr acc) ps s = (map (\<lambda>p. (0, Some ErrStreamClosed)) ps, s)"
  by (induction ps) (simp_all add: write_closed)

end

interpretation bidi: header_stream "Write_stream V"
    "\<lambda>sid. vAppend V FrameTypeWebTransportBidi @ vAppend V sid" newOutgoingStream for V
  by unfold_locales (simp_all add: Write_stream_def newOutgoingStream_def)

interpretation uni: header_stream "Write_send V"
    "\<lambda>sid. vAppend V StreamTypeWebTransportUni @ vAppend V sid" newSendStream for V
  by unfold_locales (simp_all add: Write_send_def newSendStream_def)

lemma incoming_header:
  assumes "varint_laws V" and "sessionID r < 2 ^ 62"
  shows "handleIncomingBidi V ctxFirst k ((vAppend V FrameTypeWebTransportBidi @ vAppend V (sessionID r)) @ data) r =
    (case EnqueueBidiStream ctxFirst (newIncomingStream (sessionID r) k) r of (result, r) \<Rightarrow> ((result, data), r))"
  using readVarint_written [OF assms(1), of "0x41"] readVarint_written [OF assms]
  by (simp add: handleIncomingBidi_def)

lemma incoming_uni_header:
  assumes "varint_laws V" and "sessionID r < 2 ^ 62"
  shows "handleIncomingUni V ctxFirst k ((vAppend V StreamTypeWebTransportUni @ vAppend V (sessionID r)) @ data) r =
    (case EnqueueUniStream ctxFirst (newReceiveStream (sessionID r) k) r of (result, r) \<Rightarrow> ((result, data), r))"
  using readVarint_written [OF assms(1), of "0x54"] readVarint_written [OF assms]
  by (simp add: handleIncomingUni_def)

text \<open>A unidirectional stream arrives like a bidirectional one.\<close>

lemma uni_stream_delivered:
  assumes "accepts_all acc" and "varint_laws V" and "sessionID r < 2 ^ 62" and "ps \<noteq> []"
    and "\<not> ses_closed r" and "\<not> ctx_done r" and "length (uniStreams r) < 256"
  shows "\<exists>s. write_all (Write_send V acc) ps (newSendStream (sessionID r) k) =
      (map (\<lambda>p. (length p, None)) ps, s) \<and>
    handleIncomingUni V ctxFirst k (st_out s) r =
      ((Delivered, concat ps), r\<lparr>uniStreams := uniStreams r @ [newReceiveStream (sessionID r) k]\<rparr>)"
  using assms uni.fresh_writes [OF assms(1)] incoming_uni_header [OF assms(2,3)]
  by (simp add: EnqueueUniStream_def enqueue_def)

text \<open>
  Closing: the raw stream is closed once, every later write fails and leaves the stream as
  it is, and reading fails as well, although a bidirectional stream only closes its
  writing side.
\<close>

lemma stream_closed:
  "Close_stream (Close_stream s) = Close_stream s"
  "write_all (Write_stream V acc) ps (Close_stream s) = (map (\<lambda>p. (0, Some ErrStreamClosed)) ps, Close_stream s)"
  "Read_stream result (Close_stream s) = (0, Some ErrStreamClosed)"
  by (simp_all add: bidi.closed_writes Read_stream_def Close_stream_def)

lemma send_stream_closed:
  "Close_send (Close_send s) = Close_send s"
  "write_all (Write_send V acc) ps (Close_send s) = (map (\<lambda>p. (0, Some ErrStreamClosed)) ps, Close_send s)"
  by (simp_all add: uni.closed_writes Close_send_def)

lemma receive_stream_closed: "Read_receive result (Close_receive s) = (0, Some ErrStreamClosed)"
  by (simp add: Read_receive_def Close_receive_def)

text \<open>The code a stream is cancelled with reaches the peer as the application's code.\<close>

lemma cancel_codes_recovered:
  "HTTPCodeToWebTransportCode (last (st_cancelled (CancelWrite c s))) = Some c"
  "HTTPCodeToWebTransportCode (last (st_readCancelled (CancelRead c s))) = Some c"
  "HTTPCodeToWebTransportCode (last (st_cancelled (CancelWrite_send c u))) = Some c"
  "HTTPCodeToWebTransportCode (last (rs_readCancelled (CancelRead_receive c r))) = Some c"
  by (simp_all add: CancelWrite_def CancelRead_def CancelWrite_send_def CancelRead_receive_def code_roundtrip)

section \<open>Datagrams\<close>

lemma fill_slice:
  assumes "length b = length h + length p"
  shows "append_at b 0 h = Some (h @ drop (length h) b)"
    and "copy_at (h @ drop (length h) b) (length h) p = Some (h @ p)"
  using assms by (simp_all add: append_at_def copy_at_def overwrite_def)

lemma datagram_sent:
  assumes "varint_laws V" and "sessionID s < 2 ^ 62" and "\<not> ses_closed s"
  shows "SendDatagram V pooled p s = Inr (Some (vAppend V (sessionID s div 4) @ p))"
proof -
  have q: "sessionID s div 4 < 2 ^ 62" using assms(2) by (simp add: less_mult_imp_div_less)
  define h where "h = vAppend V (sessionID s div 4)"
  have l: "vLen V (sessionID s div 4) = length h"
    using varint_lawsD(4) [OF assms(1) q] by (simp add: h_def)
  define b where "b = (if length pooled < length h + length p then replicate (length h + length p) (byte_of 0)
    else take (length h + length p) pooled)"
  have "length b = length h + length p" by (simp add: b_def)
  from fill_slice [OF this] show ?thesis
    using assms(3) unfolding SendDatagram_def Let_def l h_def [symmetric] b_def [symmetric] by simp
qed

lemma datagram_dispatched:
  assumes "varint_laws V" and "q < 2 ^ 62"
  shows "dispatch_datagram V (vAppend V q @ p) r = (if q * 4 mod 2 ^ 64 = sessionID r then EnqueueDatagram p r else r)"
  using varint_lawsD(1,3) [OF assms] by (simp add: dispatch_datagram_def DecodeVarint_def)

section \<open>The control loop\<close>

lemma control_step:
  assumes "capsule_ok V c"
  shows "control_capsules V (capsule_bytes V c @ r) s =
    (case handle_capsule V (fst c) (snd c) s of (True, s) \<Rightarrow> s | (False, s) \<Rightarrow> control_capsules V r s)"
  using read_capsule_written [OF assms, of r]
  by (subst control_capsules.simps) (simp add: case_prod_unfold split: bool.split)

lemma control_prefix:
  assumes "list_all (capsule_ok V) cs" and "\<forall>c\<in>set cs. fst c \<noteq> CapsuleCloseWebTransportSession"
  shows "control_capsules V (concat (map (capsule_bytes V) cs) @ r) s =
    control_capsules V r (s\<lparr>ses_draining := ses_draining s \<or> (\<exists>c\<in>set cs. fst c = CapsuleDrainWebTransportSession)\<rparr>)"
  using assms
proof (induction cs arbitrary: s)
  case Nil
  then show ?case by simp
next
  case (Cons c cs)
  have h: "handle_capsule V (fst c) (snd c) s =
      (False, s\<lparr>ses_draining := ses_draining s \<or> fst c = CapsuleDrainWebTransportSession\<rparr>)"
    using Cons.prems(2) by (auto simp: handle_capsule_def)
  show ?case using Cons control_step [of V c _ s] by (simp add: h disj_assoc)
qed

lemma short_varint:
  assumes "varint_laws V" and "v < 2 ^ 62"
  shows "length (vAppend V v) \<le> 8"
proof -
  have "byte_val (hd (vAppend V v)) div 64 \<le> 3" using byte_val_less [of "hd (vAppend V v)"] by linarith
  then have "(2 :: nat) ^ (byte_val (hd (vAppend V v)) div 64) \<le> 2 ^ 3" by (rule power_increasing) simp
  then show ?thesis using varint_lawsD(2) [OF assms] by simp
qed

lemma close_writes_capsule:
  assumes "varint_laws V" and "\<not> ses_closed s" and "has_control s"
  shows "Close_session V s =
    (False, s\<lparr>ses_closed := True, closeErr := Some (SessionError 0 []), ctx_done := True,
       control_out := control_out s @ capsule_bytes V (CapsuleCloseWebTransportSession, PutUint32 BigEndian 0),
       control_closed := True\<rparr>)"
proof -
  let ?p = "\<lparr>ApplicationErrorCode = 0, ErrorMessage = []\<rparr>"
  have c: "close_bytes ?p = PutUint32 BigEndian 0" by (simp add: close_bytes_def TruncateErrorMessage_def)
  have "length (capsule_bytes V (CapsuleCloseWebTransportSession, close_bytes ?p)) \<le> length (replicate 512 (byte_of 0))"
    using short_varint [OF assms(1), of "0x2843"] short_varint [OF assms(1), of 4]
    by (simp add: capsule_bytes_def c)
  from close_capsule_written [OF this] obtain d n where
    "EncodeCloseSessionCapsule V ?p (replicate 512 (byte_of 0)) = Some (d, n)" "n \<le> length d"
    "take n d = capsule_bytes V (CapsuleCloseWebTransportSession, PutUint32 BigEndian 0)"
    by (auto simp: c)
  then show ?thesis using assms(2,3) by (simp add: Close_session_def CloseWithError_def)
qed

lemma control_close:
  assumes "capsule_ok V (CapsuleCloseWebTransportSession, payload)" and "\<not> ses_closed s" and "has_control s"
  shows "control_capsules V (capsule_bytes V (CapsuleCloseWebTransportSession, payload) @ r) s =
    s\<lparr>ses_closed := True, closeErr := Some (SessionError 0 []), ctx_done := True,
       control_out := control_out s @ capsule_bytes V (CapsuleCloseWebTransportSession, PutUint32 BigEndian 0),
       control_closed := True\<rparr>"
proof -
  have "varint_laws V" using assms(1) by (simp add: capsule_ok_def)
  from close_writes_capsule [OF this] show ?thesis
    using assms(2,3)
    by (simp add: control_step [OF assms(1)] handle_capsule_def split: sum.split)
qed

lemma control_end: "control_capsules V [] s = s\<lparr>ctx_done := True\<rparr>"
  by (subst control_capsules.simps)
     (simp add: read_capsule_def readH3FrameHeader_def readVarintFromStream_def ReadFull_def)

text \<open>The code of the peer is lost: closing the session overwrites it with code 0.\<close>

lemma peer_close_code_lost:
  assumes "\<not> ses_closed s"
  shows "closeErr (snd (handle_capsule V CapsuleCloseWebTransportSession payload s)) = Some (SessionError 0 [])"
  using assms
  by (auto simp: handle_capsule_def Let_def Close_session_def CloseWithError_def split: sum.split option.split)

text \<open>A message that does not fit the 512-byte buffer makes the close panic, after the session is marked closed.\<close>

lemma long_close_message_panics:
  assumes "\<not> ses_closed s" and "has_control s"
    and "length (capsule_bytes V (CapsuleCloseWebTransportSession,
           close_bytes \<lparr>ApplicationErrorCode = code, ErrorMessage = msg\<rparr>)) > 512"
  shows "fst (CloseWithError V code msg s)"
proof (cases "EncodeCloseSessionCapsule V \<lparr>ApplicationErrorCode = code, ErrorMessage = msg\<rparr> (replicate 512 (byte_of 0))")
  case None
  then show ?thesis using assms(1) by (simp add: CloseWithError_def)
next
  case (Some r)
  obtain d n where r: "r = (d, n)" by (cases r)
  have "n > length d"
    using close_capsule_overflow [of "replicate 512 (byte_of 0)" V _ d n] assms(3) Some r by simp
  then show ?thesis using assms(1,2) Some r by (simp add: CloseWithError_def)
qed

lemma close_stuck_until_accept:
  "reach ws_stuck (ws_step False) s \<Longrightarrow> c1 s > 0 \<and> \<not> w_ctx s \<and> \<not> w_chans s"
  using stuck_close.reach_inv by (auto simp: ws_stuck_def)


text \<open>
  The header flag is set before the header is written: a second writer that runs in
  between puts its bytes first.
\<close>

lemma second_writer_overtakes_header:
  assumes "accepts_all acc"
  shows "st_out (snd (raw_write acc (hdr @ p)
     (snd (Write_stream V acc q ((newOutgoingStream sid k)\<lparr>st_headerWritten := True\<rparr>))))) = q @ hdr @ p"
  using assms by (simp add: Write_stream_def raw_write_def accepts_all_def newOutgoingStream_def)

section \<open>Properties\<close>

text \<open>C23: a stream opened by one side arrives at the other.  However the data is cut into writes, the
  header goes out once, in front, and the dispatcher of the peer hands over a stream of its
  session from which exactly the written data remains to be read.\<close>
theorem stream_delivered:
  assumes "accepts_all acc" and "varint_laws V" and "sessionID r < 2 ^ 62" and "ps \<noteq> []"
    and "\<not> ses_closed r" and "\<not> ctx_done r" and "length (bidiStreams r) < 256"
  shows "\<exists>s. write_all (Write_stream V acc) ps (newOutgoingStream (sessionID r) k) =
      (map (\<lambda>p. (length p, None)) ps, s) \<and>
    handleIncomingBidi V ctxFirst k (st_out s) r =
      ((Delivered, concat ps), r\<lparr>bidiStreams := bidiStreams r @ [newIncomingStream (sessionID r) k]\<rparr>)"
  using assms bidi.fresh_writes [OF assms(1)] incoming_header [OF assms(2,3)]
  by (simp add: EnqueueBidiStream_def enqueue_def)

theorem stream_delivered_witness:
  "\<exists>s. write_all (Write_stream rfc_varint (\<lambda>out p. (length p, None))) [''ab'', ''c''] (newOutgoingStream 4 9) =
      ([(Suc (Suc 0), None), (Suc 0, None)], s) \<and>
    handleIncomingBidi rfc_varint False 9 (st_out s) (NewSession 4 True) =
      ((Delivered, ''abc''), (NewSession 4 True)\<lparr>bidiStreams := [newIncomingStream 4 9]\<rparr>)"
  using stream_delivered [of "\<lambda>out p. (length p, None)" rfc_varint "NewSession 4 True" "[''ab'', ''c'']" 9 False]
    rfc_varint_laws
  by (simp add: accepts_all_def NewSession_def)

text \<open>C10: datagrams find their session.  What \<^verbatim>\<open>SendDatagram\<close> hands to the transport, whatever the pooled
  buffer held, is queued by the dispatcher of the session with the same id, payload unchanged,
  and leaves every other session alone.\<close>
theorem datagram_delivered:
  assumes "varint_laws V" and "sessionID s < 2 ^ 62" and "4 dvd sessionID s" and "\<not> ses_closed s"
  shows "\<exists>d. SendDatagram V pooled p s = Inr (Some d) \<and>
    dispatch_datagram V d r =
      (if sessionID r = sessionID s \<and> \<not> ses_closed r \<and> length (datagrams r) < 1024
       then r\<lparr>datagrams := datagrams r @ [p]\<rparr> else r)"
proof -
  have q: "sessionID s div 4 < 2 ^ 62" using assms(2) by (simp add: less_mult_imp_div_less)
  have "sessionID s div 4 * 4 mod 2 ^ 64 = sessionID s" using assms(2,3) by simp
  then show ?thesis
    using datagram_sent [OF assms(1,2,4), of pooled p] datagram_dispatched [OF assms(1) q, of p r]
    by (auto simp: EnqueueDatagram_def)
qed

theorem datagram_delivered_witness:
  "\<exists>d. SendDatagram rfc_varint ''old'' ''ab'' (NewSession 400 True) = Inr (Some d) \<and>
    dispatch_datagram rfc_varint d (NewSession 400 True) = (NewSession 400 True)\<lparr>datagrams := [''ab'']\<rparr> \<and>
    dispatch_datagram rfc_varint d (NewSession 404 True) = NewSession 404 True"
  using datagram_delivered [OF rfc_varint_laws, of "NewSession 400 True" "''old''" "''ab''" "NewSession 400 True"]
    datagram_delivered [OF rfc_varint_laws, of "NewSession 400 True" "''old''" "''ab''" "NewSession 404 True"]
  by (auto simp: NewSession_def)

text \<open>The control stream.  Any sequence of capsules other than the closing one changes nothing but the
  draining flag, which a drain capsule sets; the end of the stream ends the session's context; a
  closing capsule, with whatever payload, closes the session, answers with a closing capsule of
  code 0 and stops the loop.\<close>
theorem control_loop_effect:
  assumes "varint_laws V" and "list_all (capsule_ok V) cs" and "\<forall>c\<in>set cs. fst c \<noteq> CapsuleCloseWebTransportSession"
    and "has_control s" and "\<not> ses_closed s" and "length payload \<le> max_capsule"
    and "t = s\<lparr>ses_draining := ses_draining s \<or> (\<exists>c\<in>set cs. fst c = CapsuleDrainWebTransportSession)\<rparr>"
  shows "controlLoop V (concat (map (capsule_bytes V) cs)) s = t\<lparr>ctx_done := True\<rparr> \<and>
    controlLoop V (concat (map (capsule_bytes V) cs) @
        capsule_bytes V (CapsuleCloseWebTransportSession, payload) @ rest) s =
      t\<lparr>ses_closed := True, closeErr := Some (SessionError 0 []), ctx_done := True,
        control_out := control_out s @ capsule_bytes V (CapsuleCloseWebTransportSession, PutUint32 BigEndian 0),
        control_closed := True\<rparr>"
proof -
  have "capsule_ok V (CapsuleCloseWebTransportSession, payload)" using assms(1,6) by (simp add: capsule_ok_def)
  then have "control_capsules V (capsule_bytes V (CapsuleCloseWebTransportSession, payload) @ rest) t =
      t\<lparr>ses_closed := True, closeErr := Some (SessionError 0 []), ctx_done := True,
        control_out := control_out s @ capsule_bytes V (CapsuleCloseWebTransportSession, PutUint32 BigEndian 0),
        control_closed := True\<rparr>"
    using control_close [of V payload t rest] assms(4,5,7) by simp
  moreover have "controlLoop V (concat (map (capsule_bytes V) cs) @ r) s = control_capsules V r t" for r
    using control_prefix [OF assms(2,3), of r s] assms(4) by (simp add: controlLoop_def assms(7))
  ultimately show ?thesis using control_end [of V t] by (metis append_Nil2)
qed

theorem control_loop_effect_witness:
  "ses_draining (controlLoop rfc_varint (concat (map (capsule_bytes rfc_varint) [(0x78ae, []), (0x190b4d3d, ''@'')]))
     (NewSession 4 True))"
proof -
  let ?t = "(NewSession 4 True)\<lparr>ses_draining := ses_draining (NewSession 4 True) \<or>
    (\<exists>c\<in>set [(0x78ae, []), (0x190b4d3d, ''@'')]. fst c = CapsuleDrainWebTransportSession)\<rparr>"
  have "list_all (capsule_ok rfc_varint) [(0x78ae, []), (0x190b4d3d, ''@'')]"
    using rfc_varint_laws by (simp add: capsule_ok_def)
  from control_loop_effect [OF rfc_varint_laws this, of "NewSession 4 True" "[]" ?t "[]"]
  show ?thesis by (simp add: NewSession_def)
qed



end
