(* ===== verification/Go_Base64.thy ===== *)
theory Go_Base64
  imports Prelude
begin

text \<open>
  Go's package \<^verbatim>\<open>encoding/base64\<close>: the standard and the URL alphabet, with and
  without padding.  Decoding skips carriage returns and newlines, as Go does, and is
  not strict about the unused bits of the last character.
\<close>

section \<open>Encodings\<close>

record b64 =
  b64_alphabet :: bytes
  b64_padded :: bool

definition alphabet_std :: bytes where
  "alphabet_std = ''ABCDEFGHIJKLMNOPQRSTUVWXYZabcdefghijklmnopqrstuvwxyz0123456789+/''"

definition alphabet_url :: bytes where
  "alphabet_url = ''ABCDEFGHIJKLMNOPQRSTUVWXYZabcdefghijklmnopqrstuvwxyz0123456789-_''"

definition StdEncoding :: b64 where
  "StdEncoding = \<lparr>b64_alphabet = alphabet_std, b64_padded = True\<rparr>"

definition RawStdEncoding :: b64 where
  "RawStdEncoding = \<lparr>b64_alphabet = alphabet_std, b64_padded = False\<rparr>"

definition URLEncoding :: b64 where
  "URLEncoding = \<lparr>b64_alphabet = alphabet_url, b64_padded = True\<rparr>"

definition RawURLEncoding :: b64 where
  "RawURLEncoding = \<lparr>b64_alphabet = alphabet_url, b64_padded = False\<rparr>"

fun sextets :: "nat list \<Rightarrow> nat list" where
  "sextets [] = []"
| "sextets [a] = [a div 4, a mod 4 * 16]"
| "sextets [a, b] = [a div 4, a mod 4 * 16 + b div 16, b mod 16 * 4]"
| "sextets (a # b # c # r) = [a div 4, a mod 4 * 16 + b div 16, b mod 16 * 4 + c div 64, c mod 64] @ sextets r"

definition padding :: "nat \<Rightarrow> bytes" where
  "padding n = replicate ((3 - n mod 3) mod 3) CHR ''=''"

definition EncodeToString :: "b64 \<Rightarrow> bytes \<Rightarrow> bytes" where
  "EncodeToString e b =
    map (nth (b64_alphabet e)) (sextets (map byte_val b)) @ (if b64_padded e then padding (length b) else [])"

fun octets :: "nat list \<Rightarrow> nat list option" where
  "octets [] = Some []"
| "octets [x] = None"
| "octets [x, y] = Some [x * 4 + y div 16]"
| "octets [x, y, z] = Some [x * 4 + y div 16, y mod 16 * 16 + z div 4]"
| "octets (x # y # z # w # r) =
    map_option (\<lambda>t. [x * 4 + y div 16, y mod 16 * 16 + z div 4, z mod 4 * 64 + w] @ t) (octets r)"

definition unpad :: "bytes \<Rightarrow> bytes option" where
  "unpad s =
    (if length s mod 4 \<noteq> 0 then None
     else if suffix ''=='' s then Some (take (length s - 2) s)
     else if suffix ''='' s then Some (take (length s - 1) s)
     else Some s)"

fun decode_chars :: "bytes \<Rightarrow> bytes \<Rightarrow> nat list option" where
  "decode_chars alph [] = Some []"
| "decode_chars alph (c # cs) =
    (case IndexByte alph c of
       None \<Rightarrow> None
     | Some i \<Rightarrow> map_option (Cons i) (decode_chars alph cs))"

definition DecodeString :: "b64 \<Rightarrow> bytes \<Rightarrow> bytes option" where
  "DecodeString e s =
    (let s = filter (\<lambda>c. c \<noteq> CHR 0x0A \<and> c \<noteq> CHR 0x0D) s
     in case (if b64_padded e then unpad s else Some s) of
          None \<Rightarrow> None
        | Some s \<Rightarrow>
            (case decode_chars (b64_alphabet e) s of
               None \<Rightarrow> None
             | Some xs \<Rightarrow> map_option (map byte_of) (octets xs)))"

section \<open>Round trip\<close>

lemma octets_sextets: "list_all (\<lambda>n. n < 256) bs \<Longrightarrow> octets (sextets bs) = Some bs"
proof (induction bs rule: sextets.induct)
  case (3 a b)
  have "b div 16 < 16" using 3 by (simp add: less_mult_imp_div_less)
  then show ?case by (simp add: div_mult_mod_eq)
next
  case (4 a b c r)
  have "b div 16 < 16" "c div 64 < 4" using 4 by (simp_all add: less_mult_imp_div_less)
  then show ?case using 4 by (simp add: div_mult_mod_eq)
qed auto

lemma sextet_bounds:
  "(a :: nat) < 256 \<Longrightarrow> a div 4 < 64" "(b :: nat) < 256 \<Longrightarrow> (a :: nat) mod 4 * 16 + b div 16 < 64"
  "(c :: nat) < 256 \<Longrightarrow> (b :: nat) mod 16 * 4 + c div 64 < 64"
proof -
  show "a div 4 < 64" if "a < 256" using that by (simp add: less_mult_imp_div_less)
  have "a mod 4 < 4" by simp
  moreover have "b div 16 < 16" if "b < 256" using that by (simp add: less_mult_imp_div_less)
  ultimately show "a mod 4 * 16 + b div 16 < 64" if "b < 256" using that by fastforce
  have "b mod 16 < 16" by simp
  moreover have "c div 64 < 4" if "c < 256" using that by (simp add: less_mult_imp_div_less)
  ultimately show "b mod 16 * 4 + c div 64 < 64" if "c < 256" using that by fastforce
qed

lemma sextets_small: "list_all (\<lambda>n. n < 256) bs \<Longrightarrow> list_all (\<lambda>n. n < 64) (sextets bs)"
  by (induction bs rule: sextets.induct) (simp_all add: sextet_bounds)

lemma IndexByte_nth: "distinct xs \<Longrightarrow> n < length xs \<Longrightarrow> IndexByte xs (xs ! n) = Some n"
proof (induction xs arbitrary: n)
  case (Cons x xs)
  then show ?case by (cases n) auto
qed simp

definition alphabet_ok :: "bytes \<Rightarrow> bool" where
  "alphabet_ok alph \<longleftrightarrow> distinct alph \<and> length alph = 64 \<and>
     list_all (\<lambda>c. c \<notin> {CHR 0x0A, CHR 0x0D, CHR ''=''}) alph"

lemma alphabets_ok: "alphabet_ok alphabet_std" "alphabet_ok alphabet_url"
  by (simp_all add: alphabet_ok_def alphabet_std_def alphabet_url_def)

lemma decode_chars_encoded:
  assumes "alphabet_ok alph" and "list_all (\<lambda>n. n < 64) xs"
  shows "decode_chars alph (map (nth alph) xs) = Some xs"
  using assms(2,1) by (induction xs) (simp_all add: alphabet_ok_def IndexByte_nth)

lemma encoded_chars:
  assumes "alphabet_ok alph" and "list_all (\<lambda>n. n < 64) xs"
  shows "set (map (nth alph) xs) \<inter> {CHR 0x0A, CHR 0x0D, CHR ''=''} = {}"
  using assms by (fastforce simp: alphabet_ok_def list_all_iff)

lemma length_sextets: "length (sextets bs) = (4 * length bs + 2) div 3"
  by (induction bs rule: sextets.induct) simp_all

lemma unpad_padded:
  assumes "CHR ''='' \<notin> set s" and "length s = (4 * n + 2) div 3"
  shows "unpad (s @ padding n) = Some s"
proof -
  define k where "k = n div 3"
  have e: "\<not> suffix ''='' s" "\<not> suffix ''=='' s" "\<not> suffix ''=='' (s @ ''='')"
    using assms(1) by (auto simp: suffix_def append_eq_append_conv2 Cons_eq_append_conv)
  consider "n = 3 * k" | "n = 3 * k + 1" | "n = 3 * k + 2"
    by (metis k_def add.right_neutral div_mod_decomp mult.commute mod_less_divisor less_Suc_eq numeral_3_eq_3
        One_nat_def less_one Suc_1 zero_less_Suc)
  then show ?thesis
  proof cases
    case 1
    then have "length s = 4 * k" using assms(2) by simp
    then have "length s mod 4 = 0" by simp
    then show ?thesis using 1 e by (simp add: padding_def unpad_def)
  next
    case 2
    then have l: "length s = 4 * k + 2" using assms(2) by simp
    have "padding n = ''==''" using 2 by (simp add: padding_def numeral_2_eq_2)
    moreover have "suffix ''=='' (s @ ''=='')" by (simp add: suffix_def)
    ultimately show ?thesis using l by (simp add: unpad_def)
  next
    case 3
    then have l: "length s = 4 * k + 3" using assms(2) by simp
    have "n mod 3 = 2" using 3 by presburger
    then have "padding n = ''=''" by (simp add: padding_def)
    then show ?thesis using l e by (simp add: unpad_def)
  qed
qed

lemma filter_id: "set s \<inter> {CHR 0x0A, CHR 0x0D} = {} \<Longrightarrow> filter (\<lambda>c. c \<noteq> CHR 0x0A \<and> c \<noteq> CHR 0x0D) s = s"
  by (auto simp: filter_id_conv)

lemma DecodeString_EncodeToString:
  assumes "alphabet_ok (b64_alphabet e)"
  shows "DecodeString e (EncodeToString e b) = Some b"
proof -
  define xs where "xs = sextets (map byte_val b)"
  define s where "s = map (nth (b64_alphabet e)) xs"
  have n: "list_all (\<lambda>n. n < 256) (map byte_val b)" by (simp add: list_all_iff)
  have c: "set s \<inter> {CHR 0x0A, CHR 0x0D, CHR ''=''} = {}"
    using encoded_chars [OF assms sextets_small [OF n]] by (simp add: s_def xs_def)
  have l: "length s = (4 * length b + 2) div 3" by (simp add: s_def xs_def length_sextets)
  have u: "unpad (s @ padding (length b)) = Some s" using unpad_padded [OF _ l] c by blast
  have "set (padding (length b)) \<subseteq> {CHR ''=''}" by (auto simp: padding_def)
  then have f: "filter (\<lambda>c. c \<noteq> CHR 0x0A \<and> c \<noteq> CHR 0x0D) (s @ p) = s @ p" if "p = padding (length b) \<or> p = []" for p
    using that c by (intro filter_id) auto
  have "decode_chars (b64_alphabet e) s = Some xs"
    using decode_chars_encoded [OF assms sextets_small [OF n]] by (simp add: s_def xs_def)
  then show ?thesis
    using u f octets_sextets [OF n]
    by (simp add: DecodeString_def EncodeToString_def Let_def s_def [symmetric] xs_def [symmetric] comp_def
        del: filter_append)
qed

lemma EncodeToString_inject: "alphabet_ok (b64_alphabet e) \<Longrightarrow> EncodeToString e a = EncodeToString e b \<longleftrightarrow> a = b"
  using DecodeString_EncodeToString by (metis option.inject)

lemma length_EncodeToString: "\<not> b64_padded e \<Longrightarrow> length (EncodeToString e b) = (4 * length b + 2) div 3"
  by (simp add: EncodeToString_def length_sextets)

lemma EncodeToString_chars:
  assumes "alphabet_ok (b64_alphabet e)" and "\<not> b64_padded e"
  shows "set (EncodeToString e b) \<subseteq> set (b64_alphabet e)"
proof -
  have "list_all (\<lambda>n. n < 256) (map byte_val b)" by (simp add: list_all_iff)
  then have "list_all (\<lambda>n. n < 64) (sextets (map byte_val b))" by (rule sextets_small)
  moreover have "length (b64_alphabet e) = 64" using assms(1) by (simp add: alphabet_ok_def)
  ultimately have "\<forall>n \<in> set (sextets (map byte_val b)). b64_alphabet e ! n \<in> set (b64_alphabet e)"
    by (metis list_all_iff nth_mem)
  then show ?thesis using assms(2) by (simp add: EncodeToString_def image_subset_iff del: image_image)
qed

text \<open>The encoding tokens are written in.\<close>

lemma RawURL_simps [simp]:
  "b64_alphabet RawURLEncoding = alphabet_url" "\<not> b64_padded RawURLEncoding" "alphabet_ok (b64_alphabet RawURLEncoding)"
  by (simp_all add: RawURLEncoding_def alphabets_ok)

lemmas RawURL_roundtrip = DecodeString_EncodeToString [of RawURLEncoding, OF RawURL_simps(3)]
lemmas RawURL_inject = EncodeToString_inject [of RawURLEncoding, OF RawURL_simps(3)]
lemmas RawURL_length = length_EncodeToString [of RawURLEncoding, OF RawURL_simps(2)]

end
