(* ===== verification/Go_Http.thy ===== *)
theory Go_Http
  imports Prelude
begin

text \<open>
  What the repository uses of Go's packages \<^verbatim>\<open>net/http\<close>, \<^verbatim>\<open>net/textproto\<close>, \<^verbatim>\<open>net/url\<close> and
  the case and space functions of \<^verbatim>\<open>strings\<close>.  A header map is an association list
  with distinct keys, in the order in which a \<^verbatim>\<open>range\<close> loop visits it; a nil map
  is the empty list.
\<close>

type_synonym http_header = "(bytes \<times> bytes list) list"

section \<open>Case\<close>

definition is_upper :: "char \<Rightarrow> bool" where
  "is_upper c \<longleftrightarrow> 65 \<le> byte_val c \<and> byte_val c \<le> 90"

definition is_lower :: "char \<Rightarrow> bool" where
  "is_lower c \<longleftrightarrow> 97 \<le> byte_val c \<and> byte_val c \<le> 122"

definition lower :: "char \<Rightarrow> char" where
  "lower c = (if is_upper c then byte_of (byte_val c + 32) else c)"

definition upper :: "char \<Rightarrow> char" where
  "upper c = (if is_lower c then byte_of (byte_val c - 32) else c)"

text \<open>
  \<^verbatim>\<open>strings.EqualFold(s, t)\<close> for an ASCII \<open>t\<close>.  Under Unicode simple folding only two other
  characters match an ASCII letter: U+017F matches s, U+212A matches k.
\<close>

definition long_s :: bytes where "long_s = [byte_of 0xC5, byte_of 0xBF]"
definition kelvin :: bytes where "kelvin = [byte_of 0xE2, byte_of 0x84, byte_of 0xAA]"

fun EqualFold :: "bytes \<Rightarrow> bytes \<Rightarrow> bool" where
  "EqualFold s [] = (s = [])"
| "EqualFold s (c # t) =
    ((s \<noteq> [] \<and> lower (hd s) = lower c \<and> EqualFold (tl s) t) \<or>
     (lower c = CHR ''s'' \<and> prefix long_s s \<and> EqualFold (drop 2 s) t) \<or>
     (lower c = CHR ''k'' \<and> prefix kelvin s \<and> EqualFold (drop 3 s) t))"

text \<open>
  \<^verbatim>\<open>strings.HasSuffix(strings.ToLower(k), "-bin")\<close>.  The only character outside ASCII with one of
  these letters as its lower case is U+0130, for i.
\<close>

definition has_bin_suffix :: "bytes \<Rightarrow> bool" where
  "has_bin_suffix k \<longleftrightarrow>
    (\<exists>b\<in>{''b'', ''B''}. \<exists>i\<in>{''i'', ''I'', [byte_of 0xC4, byte_of 0xB0]}. \<exists>n\<in>{''n'', ''N''}.
       suffix (''-'' @ b @ i @ n) k)"

section \<open>Spaces\<close>

text \<open>The encodings of the characters for which \<^verbatim>\<open>unicode.IsSpace\<close> holds.\<close>

definition spaces :: "bytes list" where
  "spaces =
    map (\<lambda>n. [byte_of n]) [9, 10, 11, 12, 13, 32] @
    [[byte_of 0xC2, byte_of 0x85], [byte_of 0xC2, byte_of 0xA0], [byte_of 0xE1, byte_of 0x9A, byte_of 0x80]] @
    map (\<lambda>n. [byte_of 0xE2, byte_of 0x80, byte_of n]) ([0x80..<0x8B] @ [0xA8, 0xA9, 0xAF]) @
    [[byte_of 0xE2, byte_of 0x81, byte_of 0x9F], [byte_of 0xE3, byte_of 0x80, byte_of 0x80]]"

lemma spaces_not_Nil [simp]: "w \<in> set spaces \<Longrightarrow> w \<noteq> []"
  by (auto simp: spaces_def)

function TrimLeft :: "bytes \<Rightarrow> bytes" where
  "TrimLeft s =
    (case find (\<lambda>w. prefix w s) spaces of None \<Rightarrow> s | Some w \<Rightarrow> TrimLeft (drop (length w) s))"
  by pat_completeness auto
termination
proof (relation "measure length")
  fix s w assume "find (\<lambda>w. prefix w s) spaces = Some w"
  then have "w \<in> set spaces \<and> prefix w s" by (auto simp: find_Some_iff)
  then show "(drop (length w) s, s) \<in> measure length" by (auto simp: prefix_def)
qed simp

function TrimRight :: "bytes \<Rightarrow> bytes" where
  "TrimRight s =
    (case find (\<lambda>w. suffix w s) spaces of None \<Rightarrow> s | Some w \<Rightarrow> TrimRight (take (length s - length w) s))"
  by pat_completeness auto
termination
proof (relation "measure length")
  fix s w assume "find (\<lambda>w. suffix w s) spaces = Some w"
  then have "w \<in> set spaces \<and> suffix w s" by (auto simp: find_Some_iff)
  then show "(take (length s - length w) s, s) \<in> measure length" by (auto simp: suffix_def)
qed simp

declare TrimLeft.simps [simp del] TrimRight.simps [simp del]

definition TrimSpace :: "bytes \<Rightarrow> bytes" where
  "TrimSpace s = TrimRight (TrimLeft s)"

definition space_byte :: "char \<Rightarrow> bool" where
  "space_byte c \<longleftrightarrow> byte_val c \<le> 32 \<or> byte_val c \<ge> 128"

lemma spaces_bytes: "w \<in> set spaces \<Longrightarrow> list_all space_byte w"
  by (auto simp: spaces_def space_byte_def)

text \<open>Text whose bytes are all printable ASCII is left alone.\<close>

lemma TrimSpace_printable:
  assumes "list_all (\<lambda>c. \<not> space_byte c) s"
  shows "TrimSpace s = s"
proof -
  have n: "w \<in> set spaces \<Longrightarrow> \<not> prefix w s \<and> \<not> suffix w s" for w
  proof -
    assume w: "w \<in> set spaces"
    obtain c cs where c: "w = c # cs" using spaces_not_Nil [OF w] by (auto simp: neq_Nil_conv)
    then have "c \<notin> set s" using assms spaces_bytes [OF w] by (auto simp: list_all_iff)
    then show ?thesis using c by (auto simp: prefix_def suffix_def)
  qed
  then have "find (\<lambda>w. prefix w s) spaces = None" "find (\<lambda>w. suffix w s) spaces = None"
    by (auto simp: find_None_iff)
  then show ?thesis by (simp add: TrimSpace_def TrimLeft.simps [of s] TrimRight.simps [of s])
qed

section \<open>Headers\<close>

definition validHeaderFieldByte :: "char \<Rightarrow> bool" where
  "validHeaderFieldByte c \<longleftrightarrow>
    is_digit c \<or> is_upper c \<or> is_lower c \<or> c \<in> set ''!#$%&*+-.^_|~`'' \<or> byte_val c = 39"

fun canonical_loop :: "bool \<Rightarrow> bytes \<Rightarrow> bytes" where
  "canonical_loop up [] = []"
| "canonical_loop up (c # cs) =
    (let c = (if up then upper c else lower c) in c # canonical_loop (c = CHR ''-'') cs)"

definition CanonicalMIMEHeaderKey :: "bytes \<Rightarrow> bytes" where
  "CanonicalMIMEHeaderKey s = (if list_all validHeaderFieldByte s then canonical_loop True s else s)"

definition Header_Get :: "http_header \<Rightarrow> bytes \<Rightarrow> bytes" where
  "Header_Get h key = (case map_of h (CanonicalMIMEHeaderKey key) of Some (v # vs) \<Rightarrow> v | _ \<Rightarrow> [])"

section \<open>Query unescaping\<close>

definition hex_val :: "char \<Rightarrow> nat option" where
  "hex_val c =
    (let n = byte_val c in
     if is_digit c then Some (n - 48)
     else if 97 \<le> n \<and> n \<le> 102 then Some (n - 87)
     else if 65 \<le> n \<and> n \<le> 70 then Some (n - 55)
     else None)"

fun QueryUnescape :: "bytes \<Rightarrow> bytes option" where
  "QueryUnescape [] = Some []"
| "QueryUnescape (c # cs) =
    (if c = CHR ''%'' then
       (case cs of
          a # b # cs \<Rightarrow>
            (case (hex_val a, hex_val b) of
               (Some x, Some y) \<Rightarrow> map_option (Cons (byte_of (x * 16 + y))) (QueryUnescape cs)
             | _ \<Rightarrow> None)
        | _ \<Rightarrow> None)
     else map_option (Cons (if c = CHR ''+'' then CHR '' '' else c)) (QueryUnescape cs))"

text \<open>Percent-encoding as the gRPC protocol defines it: everything outside printable ASCII, and the percent sign.\<close>

definition hex_digit :: "nat \<Rightarrow> char" where
  "hex_digit d = (if d < 10 then byte_of (48 + d) else byte_of (55 + d))"

definition percent_encode :: "bytes \<Rightarrow> bytes" where
  "percent_encode s =
    concat (map (\<lambda>c. if byte_val c < 32 \<or> byte_val c > 126 \<or> c = CHR ''%''
                     then [CHR ''%'', hex_digit (byte_val c div 16), hex_digit (byte_val c mod 16)] else [c]) s)"

lemma hex_val_digit: "d < 16 \<Longrightarrow> hex_val (hex_digit d) = Some d"
  by (auto simp: hex_val_def hex_digit_def is_digit_def Let_def)

lemma QueryUnescape_percent_encode:
  "CHR ''+'' \<notin> set s \<Longrightarrow> QueryUnescape (percent_encode s) = Some s"
proof (induction s)
  case Nil
  then show ?case by (simp add: percent_encode_def)
next
  case (Cons c s)
  have "byte_val c div 16 < 16" "byte_val c div 16 * 16 + byte_val c mod 16 = byte_val c"
    using byte_val_less [of c] by (linarith, simp)
  with Cons show ?case by (auto simp: percent_encode_def hex_val_digit)
qed

end
