(* ===== verification/GRPC_Frame.thy ===== *)
theory GRPC_Frame
  imports Go_Binary Go_Strconv Go_Base64 Go_Http
begin

text \<open>
  Package \<^verbatim>\<open>grpc\<close>, files \<^verbatim>\<open>src/grpc/frame.go\<close>, \<^verbatim>\<open>status.go\<close>, \<^verbatim>\<open>errors.go\<close>, \<^verbatim>\<open>metadata.go\<close> and the
  header functions of \<^verbatim>\<open>client.go\<close>.  Protocol Buffers, gzip and the frame reader are
  libraries outside the repository: they are the record \<open>wire\<close>, and what the code
  relies on is \<open>wire_laws\<close>.  The names of the header fields come from such a library
  too, as the record \<open>names\<close>.
\<close>

section \<open>status.go\<close>

fun StatusCode_String :: "nat \<Rightarrow> bytes" where
  "StatusCode_String c =
    (if c = 0 then ''OK''
     else if c = 1 then ''CANCELLED''
     else if c = 2 then ''UNKNOWN''
     else if c = 3 then ''INVALID_ARGUMENT''
     else if c = 4 then ''DEADLINE_EXCEEDED''
     else if c = 5 then ''NOT_FOUND''
     else if c = 6 then ''ALREADY_EXISTS''
     else if c = 7 then ''PERMISSION_DENIED''
     else if c = 8 then ''RESOURCE_EXHAUSTED''
     else if c = 9 then ''FAILED_PRECONDITION''
     else if c = 10 then ''ABORTED''
     else if c = 11 then ''OUT_OF_RANGE''
     else if c = 12 then ''UNIMPLEMENTED''
     else if c = 13 then ''INTERNAL''
     else if c = 14 then ''UNAVAILABLE''
     else if c = 15 then ''DATA_LOSS''
     else if c = 16 then ''UNAUTHENTICATED''
     else ''CODE_'' @ format_nat c)"

abbreviation (input) StatusUnknown :: nat where "StatusUnknown \<equiv> 2"

record StatusError =
  se_Code :: nat
  se_Message :: bytes
  se_RawDetails :: bytes
  se_Header :: http_header
  se_Trailer :: http_header

definition StatusError_Error :: "StatusError option \<Rightarrow> bytes" where
  "StatusError_Error err =
    (case err of
       None \<Rightarrow> ''<nil>''
     | Some e \<Rightarrow>
         ''aoni/grpc: status='' @ StatusCode_String (se_Code e) @ '' ('' @ format_nat (se_Code e) @ '') msg='' @
         se_Message e @
         (if length (se_RawDetails e) > 0 then '' details_len='' @ format_nat (length (se_RawDetails e)) else []))"

datatype grpc_error =
    GEOF
  | GUnexpectedEOF
  | ErrInvalidGRPCFrame nat
  | ErrInvalidContentType bytes
  | ErrMissingGRPCStatus
  | GStatus StatusError
  | GMarshal
  | GGzip
  | GDecompress
  | GReadDecompressed
  | GUnmarshal
  | GNotMessage
  | GRequest nat
  | GDrain
  | GClosed
  | GSendClosed
  | GClosedPipe
  | GPipe nat
  | GCloseBody nat
  | GJson
  | GNilDescriptor

section \<open>Headers\<close>

definition getHeaderCaseInsensitive :: "http_header \<Rightarrow> bytes \<Rightarrow> bytes" where
  "getHeaderCaseInsensitive h key =
    (let val = Header_Get h key in
     if val \<noteq> [] then val
     else case find (\<lambda>(k, v). EqualFold k key \<and> length v > 0) h of
            Some (k, v) \<Rightarrow> hd v
          | None \<Rightarrow> [])"

definition EncodeBinaryHeader :: "bytes \<Rightarrow> bytes" where
  "EncodeBinaryHeader val = EncodeToString RawStdEncoding val"

definition DecodeBinaryHeader :: "bytes \<Rightarrow> bytes option" where
  "DecodeBinaryHeader val =
    (let val = TrimSpace val in
     case DecodeString RawStdEncoding val of
       Some b \<Rightarrow> Some b
     | None \<Rightarrow> DecodeString StdEncoding val)"

definition parseGRPCStatus :: "http_header \<Rightarrow> StatusError" where
  "parseGRPCStatus trailers =
    (let codeStr = getHeaderCaseInsensitive trailers ''grpc-status'';
         msgStr = getHeaderCaseInsensitive trailers ''grpc-message'';
         code = (case ParseUint codeStr 32 of Inr c \<Rightarrow> c | Inl err \<Rightarrow> StatusUnknown);
         decodedMsg =
           (if CHR ''%'' \<in> set msgStr \<or> CHR ''+'' \<in> set msgStr
            then (case QueryUnescape msgStr of Some unescaped \<Rightarrow> unescaped | None \<Rightarrow> msgStr) else msgStr);
         detailsBin = getHeaderCaseInsensitive trailers ''grpc-status-details-bin'';
         rawDetails =
           (if detailsBin \<noteq> [] then (case DecodeBinaryHeader detailsBin of Some d \<Rightarrow> d | None \<Rightarrow> []) else [])
     in \<lparr>se_Code = code, se_Message = decodedMsg, se_RawDetails = rawDetails, se_Header = [], se_Trailer = trailers\<rparr>)"

record names =
  ContentType :: bytes
  GRPCStatus :: bytes
  GRPCTimeout :: bytes
  GRPCAcceptEncoding :: bytes
  Accept :: bytes
  TE :: bytes
  UserAgent :: bytes
  MIMEApplicationGRPC :: bytes
  MIMEApplicationProtobuf :: bytes
  MIMEApplicationGRPCWebProto :: bytes
  ValueTrailers :: bytes
  ValueGzip :: bytes
  ValueIdentity :: bytes

text \<open>A response: the code and text of the status, the headers, the trailers (complete once the body has been
  read), the bytes of the body, and whether reading the rest of the body fails.\<close>

record response =
  StatusCode :: int
  Status :: bytes
  r_Header :: http_header
  r_Trailer :: http_header
  Body :: bytes
  DrainError :: bool

definition validateInitialHeaders :: "names \<Rightarrow> response \<Rightarrow> grpc_error option" where
  "validateInitialHeaders N resp =
    (if StatusCode resp \<noteq> 200 then
       Some (GStatus \<lparr>se_Code = StatusUnknown, se_Message = ''non-200 HTTP status: '' @ Status resp,
                      se_RawDetails = [], se_Header = [], se_Trailer = []\<rparr>)
     else
      (let ct = Header_Get (r_Header resp) (ContentType N) in
       if ct \<noteq> [] \<and> \<not> prefix (MIMEApplicationGRPC N) ct then Some (ErrInvalidContentType ct)
       else
        (let statusCode = Header_Get (r_Header resp) (GRPCStatus N) in
         if statusCode \<noteq> [] \<and> statusCode \<noteq> ''0'' then Some (GStatus (parseGRPCStatus (r_Header resp)))
         else None)))"

definition validateResponseTrailers :: "names \<Rightarrow> response \<Rightarrow> grpc_error option" where
  "validateResponseTrailers N resp =
    (let trailers = r_Trailer resp;
         statusCode = getHeaderCaseInsensitive trailers (GRPCStatus N);
         (trailers, statusCode) =
           (if statusCode = [] then (r_Header resp, getHeaderCaseInsensitive (r_Header resp) (GRPCStatus N))
            else (trailers, statusCode))
     in if statusCode = [] then Some ErrMissingGRPCStatus
        else if statusCode \<noteq> ''0'' then Some (GStatus (parseGRPCStatus trailers))
        else None)"

section \<open>frame.go\<close>

datatype frame_error = FEOF | FUnexpectedEOF | FOther nat

record 'm wire =
  Marshal :: "'m \<Rightarrow> bytes option"
  Size :: "'m \<Rightarrow> nat"
  Unmarshal :: "bytes \<Rightarrow> 'm option"
  gzipped :: "bytes \<Rightarrow> bytes option"
  gzip_opens :: "bytes \<Rightarrow> bool"
  gunzipped :: "bytes \<Rightarrow> bytes option"
  readFrame :: "bytes \<Rightarrow> (frame_error + (nat \<times> bytes)) \<times> bytes"
  maxFrame :: nat
  is_message :: bool

definition MarshalFrame :: "'m wire \<Rightarrow> 'm option \<Rightarrow> bool \<Rightarrow> grpc_error + bytes" where
  "MarshalFrame W msg compressed =
    (case msg of
       None \<Rightarrow> Inr (replicate 5 (byte_of 0))
     | Some m \<Rightarrow>
         if \<not> compressed then
           (let size = Size W m; frame = byte_of 0 # PutUint32 BigEndian (word_of_nat size)
            in case Marshal W m of None \<Rightarrow> Inl GMarshal | Some out \<Rightarrow> Inr (frame @ out))
         else
           (case Marshal W m of
              None \<Rightarrow> Inl GMarshal
            | Some rawBytes \<Rightarrow>
                (case gzipped W rawBytes of
                   None \<Rightarrow> Inl GGzip
                 | Some gzPayload \<Rightarrow>
                     Inr (byte_of 1 # PutUint32 BigEndian (word_of_nat (length gzPayload)) @ gzPayload))))"

definition UnmarshalFrame :: "'m wire \<Rightarrow> bytes \<Rightarrow> (bool \<times> (grpc_error + 'm)) \<times> bytes" where
  "UnmarshalFrame W r =
    (case readFrame W r of
       (Inl FEOF, r) \<Rightarrow> ((False, Inl GEOF), r)
     | (Inl FUnexpectedEOF, r) \<Rightarrow> ((False, Inl GUnexpectedEOF), r)
     | (Inl (FOther e), r) \<Rightarrow> ((False, Inl (ErrInvalidGRPCFrame e)), r)
     | (Inr (flags, payload), r) \<Rightarrow>
         (let compressed = odd flags;
              decoded =
                (if compressed then
                   (if \<not> gzip_opens W payload then Inl GDecompress
                    else case gunzipped W payload of
                           None \<Rightarrow> Inl GReadDecompressed
                         | Some decompressed \<Rightarrow> Inr decompressed)
                 else Inr payload)
          in case decoded of
               Inl err \<Rightarrow> ((True, Inl err), r)
             | Inr payload \<Rightarrow>
                 (case Unmarshal W payload of
                    None \<Rightarrow> ((compressed, Inl GUnmarshal), r)
                  | Some m \<Rightarrow> ((compressed, Inr m), r))))"

section \<open>metadata.go\<close>

text \<open>A request modifier, as far as the package builds them; \<open>Given u\<close> is one the caller passed.\<close>

datatype 'u modifier =
    WithContentType bytes
  | WithHeader bytes bytes
  | WithBody bytes
  | WithBodyPipe
  | WithDecoder nat
  | SetHeaders "(bytes \<times> bytes) list"
  | Given 'u

definition WithMetadata :: "(bytes \<times> bytes) list \<Rightarrow> 'u modifier" where
  "WithMetadata md = SetHeaders (map (\<lambda>(k, v). (k, if has_bin_suffix k then EncodeBinaryHeader v else v)) md)"

definition WithBinaryHeader :: "bytes \<Rightarrow> bytes \<Rightarrow> 'u modifier" where
  "WithBinaryHeader key val =
    WithHeader (if \<not> has_bin_suffix key then key @ ''-bin'' else key) (EncodeBinaryHeader val)"

section \<open>What the libraries promise\<close>

definition frame_bytes :: "nat \<Rightarrow> bytes \<Rightarrow> bytes" where
  "frame_bytes flags p = byte_of flags # PutUint32 BigEndian (word_of_nat (length p)) @ p"

definition wire_laws :: "'m wire \<Rightarrow> bool" where
  "wire_laws W \<longleftrightarrow>
    (\<forall>m b. Marshal W m = Some b \<longrightarrow> Size W m = length b \<and> Unmarshal W b = Some m) \<and>
    (\<forall>b z. gzipped W b = Some z \<longrightarrow> gzip_opens W z \<and> gunzipped W z = Some b) \<and>
    maxFrame W < 2 ^ 32 \<and>
    (\<forall>flags p r. flags < 256 \<longrightarrow> length p \<le> maxFrame W \<longrightarrow>
        readFrame W (frame_bytes flags p @ r) = (Inr (flags, p), r)) \<and>
    readFrame W [] = (Inl FEOF, [])"

lemma wire_lawsD:
  assumes "wire_laws W"
  shows "Marshal W m = Some b \<Longrightarrow> Size W m = length b"
    and "Marshal W m = Some b \<Longrightarrow> Unmarshal W b = Some m"
    and "gzipped W b = Some z \<Longrightarrow> gzip_opens W z"
    and "gzipped W b = Some z \<Longrightarrow> gunzipped W z = Some b"
    and "flags < 256 \<Longrightarrow> length p \<le> maxFrame W \<Longrightarrow> readFrame W (frame_bytes flags p @ r) = (Inr (flags, p), r)"
    and "readFrame W [] = (Inl FEOF, [])"
  using assms unfolding wire_laws_def by (simp_all only: simp_thms)

text \<open>Libraries that satisfy the laws: a message is its bytes, and compression adds a mark.\<close>

definition plain_wire :: "bytes wire" where
  "plain_wire =
    \<lparr>Marshal = Some, Size = length, Unmarshal = Some, gzipped = (\<lambda>b. Some (CHR ''z'' # b)), gzip_opens = (\<lambda>z. z \<noteq> []),
     gunzipped = (\<lambda>z. Some (tl z)),
     readFrame = (\<lambda>r.
       if r = [] then (Inl FEOF, [])
       else if length r < 5 then (Inl FUnexpectedEOF, [])
       else (let n = unat (Uint32 BigEndian (take 4 (tl r))) in
             if length r < 5 + n then (Inl FUnexpectedEOF, [])
             else (Inr (byte_val (hd r), take n (drop 5 r)), drop n (drop 5 r)))),
     maxFrame = 2 ^ 24, is_message = True\<rparr>"

lemma unat_word_of_length: "n < 2 ^ 32 \<Longrightarrow> unat (word_of_nat n :: 32 word) = n"
  by (simp add: unat_of_nat)

lemma plain_wire_laws: "wire_laws plain_wire"
proof -
  have "readFrame plain_wire (frame_bytes flags p @ r) = (Inr (flags, p), r)"
    if "flags < 256" "length p \<le> 2 ^ 24" for flags p r
  proof -
    have "unat (word_of_nat (length p) :: 32 word) = length p" using that by (intro unat_word_of_length) simp
    then show ?thesis using that by (simp add: plain_wire_def frame_bytes_def Let_def)
  qed
  then show ?thesis by (simp add: wire_laws_def plain_wire_def)
qed


section \<open>Frames\<close>

definition frame_of :: "'m wire \<Rightarrow> bool \<times> 'm \<Rightarrow> bytes" where
  "frame_of W cm = (case MarshalFrame W (Some (snd cm)) (fst cm) of Inr b \<Rightarrow> b | Inl err \<Rightarrow> [])"

definition msg_ok :: "'m wire \<Rightarrow> bool \<times> 'm \<Rightarrow> bool" where
  "msg_ok W cm \<longleftrightarrow> wire_laws W \<and>
    (case Marshal W (snd cm) of
       None \<Rightarrow> False
     | Some b \<Rightarrow> if fst cm then (case gzipped W b of None \<Rightarrow> False | Some z \<Rightarrow> length z \<le> maxFrame W)
                else length b \<le> maxFrame W)"

definition read_msg :: "'m wire \<Rightarrow> bytes \<Rightarrow> grpc_error + ((bool \<times> 'm) \<times> bytes)" where
  "read_msg W r =
    (case UnmarshalFrame W r of ((c, Inl err), r) \<Rightarrow> Inl err | ((c, Inr m), r) \<Rightarrow> Inr ((c, m), r))"

lemma marshalled_frame:
  assumes "msg_ok W cm"
  obtains p where "MarshalFrame W (Some (snd cm)) (fst cm) = Inr (frame_bytes (if fst cm then 1 else 0) p)"
    and "length p \<le> maxFrame W" and "if fst cm then gzip_opens W p \<and> (\<exists>b. gunzipped W p = Some b \<and> Unmarshal W b = Some (snd cm))
      else Unmarshal W p = Some (snd cm)"
proof -
  have W: "wire_laws W" using assms by (simp add: msg_ok_def)
  obtain b where b: "Marshal W (snd cm) = Some b" using assms by (auto simp: msg_ok_def split: option.splits)
  note l = wire_lawsD [OF W]
  show ?thesis
  proof (cases "fst cm")
    case True
    then obtain z where "gzipped W b = Some z" "length z \<le> maxFrame W"
      using assms b by (auto simp: msg_ok_def split: option.splits)
    then show ?thesis
      using that [of z] True b l(2) [OF b] l(3,4) [of b z] by (simp add: MarshalFrame_def frame_bytes_def)
  next
    case False
    then show ?thesis
      using that [of b] assms b l(1,2) [OF b] by (simp add: msg_ok_def MarshalFrame_def frame_bytes_def Let_def)
  qed
qed

lemma UnmarshalFrame_written:
  assumes "msg_ok W cm"
  shows "UnmarshalFrame W (frame_of W cm @ r) = ((fst cm, Inr (snd cm)), r)"
proof -
  have W: "wire_laws W" using assms by (simp add: msg_ok_def)
  from assms obtain p where p: "MarshalFrame W (Some (snd cm)) (fst cm) = Inr (frame_bytes (if fst cm then 1 else 0) p)"
    "length p \<le> maxFrame W" "if fst cm then gzip_opens W p \<and> (\<exists>b. gunzipped W p = Some b \<and> Unmarshal W b = Some (snd cm))
      else Unmarshal W p = Some (snd cm)" by (rule marshalled_frame)
  have "readFrame W (frame_bytes (if fst cm then 1 else 0) p @ r) = (Inr (if fst cm then 1 else 0, p), r)"
    using p(2) by (intro wire_lawsD(5) [OF W]) simp_all
  then show ?thesis using p by (auto simp: UnmarshalFrame_def frame_of_def split: if_splits)
qed

interpretation grpc_frames: stream_codec "msg_ok W" "frame_of W" "read_msg W" for W
  by unfold_locales (simp add: read_msg_def UnmarshalFrame_written)

lemma UnmarshalFrame_end: "wire_laws W \<Longrightarrow> UnmarshalFrame W [] = ((False, Inl GEOF), [])"
  by (simp add: UnmarshalFrame_def wire_lawsD(6))

section \<open>Binary headers\<close>

lemma alphabet_printable: "list_all (\<lambda>c. \<not> space_byte c) alphabet_std"
  by (simp add: alphabet_std_def space_byte_def byte_eval)

lemma encoded_printable:
  assumes "b64_alphabet e = alphabet_std"
  shows "list_all (\<lambda>c. \<not> space_byte c) (EncodeToString e b)"
proof -
  have "list_all (\<lambda>n. n < 64) (sextets (map byte_val b))" by (rule sextets_small) (simp add: list_all_iff)
  moreover have "length alphabet_std = 64" using alphabets_ok by (simp add: alphabet_ok_def)
  ultimately have "list_all (\<lambda>c. \<not> space_byte c) (map (nth alphabet_std) (sextets (map byte_val b)))"
    using alphabet_printable by (auto simp: list_all_iff)
  moreover have "list_all (\<lambda>c. \<not> space_byte c) (padding n)" for n
    by (simp add: padding_def list_all_iff space_byte_def byte_eval)
  ultimately show ?thesis by (simp add: EncodeToString_def assms)
qed

lemma decode_chars_None: "c \<in> set s \<Longrightarrow> c \<notin> set alph \<Longrightarrow> decode_chars alph s = None"
  by (induction s) (auto simp: search_simps split: option.splits)

lemma raw_decode_padded:
  "DecodeString RawStdEncoding (EncodeToString StdEncoding b) = Some b \<or>
   DecodeString RawStdEncoding (EncodeToString StdEncoding b) = None"
proof (cases "padding (length b) = []")
  case True
  then have "EncodeToString StdEncoding b = EncodeToString RawStdEncoding b"
    by (simp add: EncodeToString_def StdEncoding_def RawStdEncoding_def)
  then show ?thesis
    using DecodeString_EncodeToString [of RawStdEncoding b] alphabets_ok by (simp add: RawStdEncoding_def)
next
  case False
  then have "CHR ''='' \<in> set (EncodeToString StdEncoding b)"
    by (auto simp: EncodeToString_def StdEncoding_def padding_def)
  moreover have "CHR ''='' \<notin> set alphabet_std" using alphabets_ok by (auto simp: alphabet_ok_def list_all_iff)
  ultimately have "decode_chars alphabet_std
      (filter (\<lambda>c. c \<noteq> CHR 0x0A \<and> c \<noteq> CHR 0x0D) (EncodeToString StdEncoding b)) = None"
    by (intro decode_chars_None [of "CHR ''=''"]) auto
  then show ?thesis by (simp add: DecodeString_def RawStdEncoding_def)
qed

lemma DecodeBinaryHeader_EncodeBinaryHeader: "DecodeBinaryHeader (EncodeBinaryHeader b) = Some b"
  using DecodeString_EncodeToString [of RawStdEncoding b] alphabets_ok
    TrimSpace_printable [OF encoded_printable [of RawStdEncoding b]]
  by (simp add: DecodeBinaryHeader_def EncodeBinaryHeader_def RawStdEncoding_def)

lemma EncodeBinaryHeader_Nil: "EncodeBinaryHeader b = [] \<longleftrightarrow> b = []"
proof -
  have "EncodeBinaryHeader [] = []" by (simp add: EncodeBinaryHeader_def EncodeToString_def RawStdEncoding_def)
  then show ?thesis using DecodeBinaryHeader_EncodeBinaryHeader by (metis option.inject)
qed

section \<open>Status\<close>

lemma percent_encode_plain: "CHR ''%'' \<notin> set (percent_encode s) \<Longrightarrow> percent_encode s = s"
  by (induction s) (auto simp: percent_encode_def split: if_splits)

lemma hex_digit_not_plus: "d < 16 \<Longrightarrow> hex_digit d \<noteq> CHR ''+''"
proof
  assume "d < 16" "hex_digit d = CHR ''+''"
  then have "byte_val (hex_digit d) = 43" by (simp add: byte_eval)
  then show False using \<open>d < 16\<close> by (simp add: hex_digit_def split: if_splits)
qed

lemma percent_encode_plus: "CHR ''+'' \<in> set (percent_encode s) \<Longrightarrow> CHR ''+'' \<in> set s"
proof (induction s)
  case Nil
  then show ?case by (simp add: percent_encode_def)
next
  case (Cons c s)
  have "byte_val c div 16 < 16" using byte_val_less [of c] by linarith
  then have "hex_digit (byte_val c div 16) \<noteq> CHR ''+''" "hex_digit (byte_val c mod 16) \<noteq> CHR ''+''"
    by (simp_all add: hex_digit_not_plus)
  with Cons show ?case by (auto simp: percent_encode_def split: if_splits)
qed

text \<open>The protocol's percent-encoding leaves a plus sign alone, but the message is unescaped as a query string.\<close>

lemma plus_sign_lost:
  assumes "getHeaderCaseInsensitive h ''grpc-message'' = percent_encode ''a+b''"
  shows "se_Message (parseGRPCStatus h) = ''a b''"
  using assms by (simp add: parseGRPCStatus_def Let_def percent_encode_def byte_eval)

lemma trailers_accepted_iff:
  "validateResponseTrailers N resp = None \<longleftrightarrow>
    getHeaderCaseInsensitive (r_Trailer resp) (GRPCStatus N) = ''0'' \<or>
    getHeaderCaseInsensitive (r_Trailer resp) (GRPCStatus N) = [] \<and>
      getHeaderCaseInsensitive (r_Header resp) (GRPCStatus N) = ''0''"
  by (auto simp: validateResponseTrailers_def Let_def)

lemma headers_accepted_iff:
  "validateInitialHeaders N resp = None \<longleftrightarrow>
    StatusCode resp = 200 \<and>
    Header_Get (r_Header resp) (ContentType N) \<in> {[]} \<union> {ct. prefix (MIMEApplicationGRPC N) ct} \<and>
    Header_Get (r_Header resp) (GRPCStatus N) \<in> {[], ''0''}"
  by (auto simp: validateInitialHeaders_def Let_def)

section \<open>Properties\<close>

text \<open>C25: gRPC messages survive the wire.  Any sequence of messages, each compressed or not, framed one after
  the other, is read back message by message with the compression flag each had, and nothing is
  consumed beyond them.\<close>
theorem grpc_frames_roundtrip:
  assumes "list_all (msg_ok W) ms"
  shows "(\<forall>cm\<in>set ms. \<exists>b. MarshalFrame W (Some (snd cm)) (fst cm) = Inr b) \<and>
    read_many (read_msg W) (length ms) (concat (map (frame_of W) ms) @ rest) = Inr (ms, rest)"
proof -
  have "\<exists>b. MarshalFrame W (Some (snd cm)) (fst cm) = Inr b" if "cm \<in> set ms" for cm
  proof -
    have "msg_ok W cm" using assms that by (simp add: list_all_iff)
    then show ?thesis by (rule marshalled_frame) blast
  qed
  then show ?thesis using grpc_frames.read_many_written [OF assms] by blast
qed

theorem grpc_frames_roundtrip_witness:
  "read_many (read_msg plain_wire) (Suc (Suc 0)) (concat (map (frame_of plain_wire) [(False, ''hi''), (True, ''x'')]) @ ''r'') =
    Inr ([(False, ''hi''), (True, ''x'')], ''r'')"
proof -
  have "list_all (msg_ok plain_wire) [(False, ''hi''), (True, ''x'')]"
    using plain_wire_laws by (simp add: msg_ok_def plain_wire_def)
  from grpc_frames_roundtrip [OF this, of "''r''"] show ?thesis by simp
qed

text \<open>Binary metadata.  Whatever bytes a header with the suffix \<^verbatim>\<open>-bin\<close> carries, decoding returns them,
  from the unpadded form the package writes as well as from the padded form other
  implementations write.\<close>
theorem binary_header_roundtrip:
  "DecodeBinaryHeader (EncodeBinaryHeader b) = Some b \<and> DecodeBinaryHeader (EncodeToString StdEncoding b) = Some b"
proof -
  have "TrimSpace (EncodeToString StdEncoding b) = EncodeToString StdEncoding b"
    by (rule TrimSpace_printable [OF encoded_printable]) (simp add: StdEncoding_def)
  moreover have "DecodeString StdEncoding (EncodeToString StdEncoding b) = Some b"
    using DecodeString_EncodeToString [of StdEncoding b] alphabets_ok by (simp add: StdEncoding_def)
  ultimately have "DecodeBinaryHeader (EncodeToString StdEncoding b) = Some b"
    using raw_decode_padded [of b] by (auto simp: DecodeBinaryHeader_def)
  then show ?thesis using DecodeBinaryHeader_EncodeBinaryHeader by simp
qed

text \<open>The status a server sends is the status the caller sees: any 32-bit code, any message without a
  plus sign in the protocol's percent-encoding, and any binary details.\<close>
theorem status_roundtrip:
  assumes "getHeaderCaseInsensitive h ''grpc-status'' = format_nat code" and "code < 2 ^ 32"
    and "getHeaderCaseInsensitive h ''grpc-message'' = percent_encode msg" and "CHR ''+'' \<notin> set msg"
    and "getHeaderCaseInsensitive h ''grpc-status-details-bin'' = EncodeBinaryHeader details"
  shows "parseGRPCStatus h =
    \<lparr>se_Code = code, se_Message = msg, se_RawDetails = details, se_Header = [], se_Trailer = h\<rparr>"
  using assms percent_encode_plain [of msg] percent_encode_plus [of msg] QueryUnescape_percent_encode [of msg]
  by (auto simp: parseGRPCStatus_def Let_def ParseUint_format DecodeBinaryHeader_EncodeBinaryHeader EncodeBinaryHeader_Nil)

theorem status_roundtrip_witness:
  "parseGRPCStatus [(''Grpc-Status'', [format_nat 5]), (''Grpc-Message'', [percent_encode ''50%''])] =
    \<lparr>se_Code = 5, se_Message = ''50%'', se_RawDetails = [], se_Header = [],
     se_Trailer = [(''Grpc-Status'', [format_nat 5]), (''Grpc-Message'', [percent_encode ''50%''])]\<rparr>"
proof -
  let ?h = "[(''Grpc-Status'', [format_nat 5]), (''Grpc-Message'', [percent_encode ''50%''])]"
  have c: "CanonicalMIMEHeaderKey ''grpc-status'' = ''Grpc-Status''" "CanonicalMIMEHeaderKey ''grpc-message'' = ''Grpc-Message''"
    "CanonicalMIMEHeaderKey ''grpc-status-details-bin'' = ''Grpc-Status-Details-Bin''"
    by code_simp+
  have "getHeaderCaseInsensitive ?h ''grpc-status'' = format_nat 5"
    "getHeaderCaseInsensitive ?h ''grpc-message'' = percent_encode ''50%''"
    by (simp_all add: getHeaderCaseInsensitive_def Header_Get_def c percent_encode_def Let_def
        del: EqualFold.simps)
  moreover have "\<not> EqualFold ''Grpc-Status'' ''grpc-status-details-bin''" "\<not> EqualFold ''Grpc-Message'' ''grpc-status-details-bin''"
    by code_simp+
  then have "getHeaderCaseInsensitive ?h ''grpc-status-details-bin'' = EncodeBinaryHeader []"
    by (simp add: getHeaderCaseInsensitive_def Header_Get_def c EncodeBinaryHeader_Nil [THEN iffD2]
        del: EqualFold.simps)
  ultimately show ?thesis using status_roundtrip [of ?h 5 "''50%''" "[]"] by simp
qed

end
