(* ===== verification/Go_Time.thy ===== *)
theory Go_Time
  imports Complex_Main Prelude
begin

text \<open>
  Go's \<^verbatim>\<open>time.Duration\<close>, for durations that are not negative: the conversions to whole
  micro- and milliseconds, and those to \<^verbatim>\<open>float64\<close> seconds, minutes and hours.  A
  \<^verbatim>\<open>float64\<close> operation is the exact rational result rounded to 53 significant bits, ties
  to even; in the range used here there is neither overflow nor a subnormal.
\<close>

section \<open>Rounding to float64\<close>

function up_exponent :: "rat \<Rightarrow> nat" where
  "up_exponent x = (if x \<ge> 2 then Suc (up_exponent (x / 2)) else 0)"
  by pat_completeness auto
termination
proof (relation "measure (\<lambda>x. nat \<lfloor>x\<rfloor>)")
  fix x :: rat assume x: "x \<ge> 2"
  have "\<lfloor>x / 2\<rfloor> < \<lfloor>x\<rfloor>"
  proof -
    have "x / 2 < of_int \<lfloor>x\<rfloor>" using x by linarith
    then show ?thesis by (simp add: floor_less_iff)
  qed
  then show "(x / 2, x) \<in> measure (\<lambda>x. nat \<lfloor>x\<rfloor>)" using x by simp
qed simp

declare up_exponent.simps [simp del]

fun down_exponent :: "nat \<Rightarrow> rat \<Rightarrow> nat" where
  "down_exponent 0 x = 0"
| "down_exponent (Suc n) x = (if x < 1 then Suc (down_exponent n (2 * x)) else 0)"

definition round_even :: "rat \<Rightarrow> int" where
  "round_even x =
    (let f = \<lfloor>x\<rfloor>; d = x - of_int f
     in if d < 1 / 2 then f else if d > 1 / 2 then f + 1 else if even f then f else f + 1)"

text \<open>The scale that brings a positive \<open>x < 2^53\<close> into the range of 53-bit integers.\<close>

definition scale :: "rat \<Rightarrow> nat" where
  "scale x = (if x < 1 then 52 + down_exponent 1022 x else 52 - up_exponent x)"

definition f64 :: "rat \<Rightarrow> rat" where
  "f64 x = of_int (round_even (x * 2 ^ scale x)) / 2 ^ scale x"

lemma round_even_lower: "of_int n \<le> x \<Longrightarrow> n \<le> round_even x"
proof -
  assume "of_int n \<le> x"
  then have "n \<le> \<lfloor>x\<rfloor>" by (simp add: le_floor_iff)
  then show ?thesis by (auto simp: round_even_def Let_def)
qed

lemma round_even_upper: "x \<le> of_int n \<Longrightarrow> round_even x \<le> n"
proof -
  assume x: "x \<le> of_int n"
  show ?thesis
  proof (cases "x = of_int n")
    case True
    then show ?thesis by (simp add: round_even_def)
  next
    case False
    then have "\<lfloor>x\<rfloor> < n" using x by (simp add: floor_less_iff)
    then show ?thesis by (simp add: round_even_def Let_def)
  qed
qed

lemma round_even_near: "\<bar>of_int (round_even x) - x\<bar> \<le> 1 / 2"
proof -
  define f where "f = \<lfloor>x\<rfloor>"
  have "of_int f \<le> x" "x < of_int f + 1" unfolding f_def by linarith+
  then show ?thesis by (auto simp: round_even_def Let_def f_def [symmetric] abs_if)
qed

text \<open>Whole numbers are representable, so rounding does not cross them.\<close>

lemma f64_lower: "of_nat n \<le> x \<Longrightarrow> of_nat n \<le> f64 x"
proof -
  assume "of_nat n \<le> x"
  then have "of_int (int n * 2 ^ scale x) \<le> x * 2 ^ scale x" by (simp add: mult_right_mono)
  from round_even_lower [OF this] have "(of_int (int n * 2 ^ scale x) :: rat) \<le> of_int (round_even (x * 2 ^ scale x))"
    by (simp only: of_int_le_iff)
  then show ?thesis by (simp add: f64_def pos_le_divide_eq)
qed

lemma f64_upper: "x \<le> of_nat n \<Longrightarrow> f64 x \<le> of_nat n"
proof -
  assume "x \<le> of_nat n"
  then have "x * 2 ^ scale x \<le> of_int (int n * 2 ^ scale x)" by (simp add: mult_right_mono)
  from round_even_upper [OF this] have "of_int (round_even (x * 2 ^ scale x)) \<le> (of_int (int n * 2 ^ scale x) :: rat)"
    by (simp only: of_int_le_iff)
  then show ?thesis by (simp add: f64_def pos_divide_le_eq)
qed

lemma f64_near: "\<bar>f64 x - x\<bar> \<le> 1 / 2 ^ Suc (scale x)"
proof -
  let ?s = "(2 :: rat) ^ scale x"
  have "f64 x - x = (of_int (round_even (x * ?s)) - x * ?s) / ?s" by (simp add: f64_def field_simps)
  then have "\<bar>f64 x - x\<bar> = \<bar>of_int (round_even (x * ?s)) - x * ?s\<bar> / ?s" by simp
  also have "\<dots> \<le> 1 / 2 / ?s" using round_even_near by (intro divide_right_mono) simp_all
  finally show ?thesis by (simp add: field_simps)
qed

lemma up_exponent_small: "x < 2 ^ Suc k \<Longrightarrow> up_exponent x \<le> k"
proof (induction k arbitrary: x)
  case 0
  then show ?case by (simp add: up_exponent.simps [of x])
next
  case (Suc k)
  then show ?case by (cases "x \<ge> 2") (simp_all add: up_exponent.simps [of x])
qed

lemma scale_large: "x < 2 ^ Suc k \<Longrightarrow> k \<le> 52 \<Longrightarrow> 52 - k \<le> scale x"
  using up_exponent_small [of x k] by (auto simp: scale_def intro: diff_le_mono2)

lemma f64_close: "x < 2 ^ Suc k \<Longrightarrow> k \<le> 52 \<Longrightarrow> \<bar>f64 x - x\<bar> \<le> 1 / 2 ^ (53 - k)"
proof -
  assume k: "x < 2 ^ Suc k" "k \<le> 52"
  then have "53 - k \<le> Suc (scale x)" using scale_large [OF k] by simp
  then have "(2 :: rat) ^ (53 - k) \<le> 2 ^ Suc (scale x)" by (rule power_increasing) simp
  then have "1 / (2 :: rat) ^ Suc (scale x) \<le> 1 / 2 ^ (53 - k)" by (intro divide_left_mono) simp_all
  then show ?thesis using f64_near [of x] by linarith
qed

section \<open>Durations\<close>

text \<open>Nanoseconds per unit, and \<^verbatim>\<open>int64(d.Seconds())\<close>, \<^verbatim>\<open>int64(d.Minutes())\<close>, \<^verbatim>\<open>int64(d.Hours())\<close>.\<close>

abbreviation Microsecond :: nat where "Microsecond \<equiv> 10 ^ 3"
abbreviation Millisecond :: nat where "Millisecond \<equiv> 10 ^ 6"
abbreviation Second :: nat where "Second \<equiv> 10 ^ 9"
abbreviation Minute :: nat where "Minute \<equiv> 60 * 10 ^ 9"
abbreviation Hour :: nat where "Hour \<equiv> 3600 * 10 ^ 9"

definition in_units :: "nat \<Rightarrow> nat \<Rightarrow> rat" where
  "in_units u d = f64 (of_nat (d div u) + f64 (of_nat (d mod u) / of_nat u))"

definition whole_units :: "nat \<Rightarrow> nat \<Rightarrow> nat" where
  "whole_units u d = nat \<lfloor>in_units u d\<rfloor>"

lemma fraction_bounds:
  assumes "u > 0"
  shows "0 \<le> f64 (of_nat (d mod u) / of_nat u)" and "f64 (of_nat (d mod u) / of_nat u) \<le> 1"
proof -
  have "(of_nat (d mod u) :: rat) \<le> of_nat u" using assms by (simp add: less_imp_le)
  then have "of_nat (d mod u) / of_nat u \<le> (of_nat 1 :: rat)" using assms by (simp add: divide_le_eq)
  then show "f64 (of_nat (d mod u) / of_nat u) \<le> 1" using f64_upper by fastforce
  have "of_nat 0 \<le> (of_nat (d mod u) / of_nat u :: rat)" by simp
  from f64_lower [OF this] show "0 \<le> f64 (of_nat (d mod u) / of_nat u)" by simp
qed

lemma whole_units_within:
  assumes "u > 0"
  shows "d div u \<le> whole_units u d \<and> whole_units u d \<le> d div u + 1"
proof -
  note b = fraction_bounds [OF assms, of d]
  have "of_nat (d div u) \<le> in_units u d" unfolding in_units_def by (rule f64_lower) (use b in simp)
  moreover have "in_units u d \<le> of_nat (d div u + 1)" unfolding in_units_def by (rule f64_upper) (use b in simp)
  ultimately have "int (d div u) \<le> \<lfloor>in_units u d\<rfloor>" "\<lfloor>in_units u d\<rfloor> \<le> int (d div u + 1)"
    by (simp_all add: le_floor_iff floor_le_iff)
  then show ?thesis by (simp add: whole_units_def nat_le_iff le_nat_iff)
qed

text \<open>Below 64 units the rounding is finer than a nanosecond.\<close>

lemma whole_units_exact:
  assumes "0 < u" and "u \<le> Minute" and "d div u < 63"
  shows "whole_units u d = d div u"
proof -
  define q where "q = (of_nat (d mod u) / of_nat u :: rat)"
  have "(of_nat u :: rat) \<le> of_nat (60 * 10 ^ 9)" using assms(2) by (simp only: of_nat_le_iff)
  then have u: "(0 :: rat) < of_nat u" "(of_nat u :: rat) \<le> 60 * 10 ^ 9" using assms(1) by simp_all
  have "d mod u + 1 \<le> u" using assms(1) by (simp add: Suc_leI)
  then have "(of_nat (d mod u) :: rat) + 1 \<le> of_nat u" by (metis of_nat_1 of_nat_add of_nat_le_iff)
  then have "q \<le> 1 - 1 / of_nat u" using u(1) by (simp add: q_def field_simps)
  moreover have "1 / (60 * 10 ^ 9) \<le> (1 / of_nat u :: rat)" using u by (intro divide_left_mono) simp_all
  ultimately have q: "q \<le> 1 - 1 / (60 * 10 ^ 9)" by linarith
  have "q < 2 ^ Suc 0" using q by simp
  from f64_close [OF this] have "\<bar>f64 q - q\<bar> \<le> 1 / 2 ^ 53" by simp
  then have f: "f64 q \<le> q + 1 / 2 ^ 53" by linarith
  define x where "x = of_nat (d div u) + f64 q"
  have d: "(of_nat (d div u) :: rat) \<le> 62" using assms(3) by simp
  have "x < 2 ^ Suc 5" using d f q by (simp add: x_def)
  from f64_close [OF this] have "\<bar>f64 x - x\<bar> \<le> 1 / 2 ^ 48" by simp
  then have "f64 x \<le> x + 1 / 2 ^ 48" by linarith
  then have "f64 x < of_nat (d div u) + 1" using f q by (simp add: x_def)
  then have "\<lfloor>f64 x\<rfloor> < int (d div u + 1)" by (simp add: floor_less_iff)
  then have "whole_units u d < d div u + 1" by (simp add: whole_units_def in_units_def x_def q_def)
  then show ?thesis using whole_units_within [OF assms(1), of d] by simp
qed

text \<open>Above 4096 hours a duration just below a whole hour is rounded up to it.\<close>

lemma hours_round_up: "whole_units Hour (5000 * Hour - 1) = 5000"
proof -
  have q: "f64 (3599999999999 / 3600000000000) = 9007199254738490 / 9007199254740992"
  proof -
    have n: "(1022 :: nat) = Suc (Suc 1020)" by simp
    have "down_exponent 1022 (3599999999999 / 3600000000000) = 1" unfolding n down_exponent.simps by simp
    then have "scale (3599999999999 / 3600000000000) = 53" by (simp add: scale_def)
    moreover have "\<lfloor>3958241859992500488372224 / 439453125 :: rat\<rfloor> = 9007199254738490" by (simp add: floor_eq_iff)
    ultimately show ?thesis by (simp add: f64_def round_even_def Let_def)
  qed
  have "up_exponent (4999 + 9007199254738490 / 9007199254740992) = 12"
    by (simp add: up_exponent.simps)
  moreover have "\<lfloor>22517998136852478749 / 4096 :: rat\<rfloor> = 5497558138879999" by (simp add: floor_eq_iff)
  ultimately have "f64 (4999 + 9007199254738490 / 9007199254740992) = 5000"
    by (simp add: f64_def scale_def round_even_def Let_def)
  then show ?thesis by (simp add: whole_units_def in_units_def q)
qed

end
