(* ===== verification/GRPC_Client.thy ===== *)
theory GRPC_Client
  imports GRPC_Frame Go_Time
begin

text \<open>
  Package \<^verbatim>\<open>grpc\<close>, files \<^verbatim>\<open>src/grpc/client.go\<close>, \<^verbatim>\<open>proto.go\<close>, \<^verbatim>\<open>timeout.go\<close> and \<^verbatim>\<open>dynamic.go\<close>: unary
  calls, server streams and bidirectional streams, the modifiers of a request and
  the timeout header.  The HTTP client is the argument \<open>doer\<close>: method, path and
  modifiers give an error or a response.  \<open>Wq\<close> are the libraries for the request
  type, \<open>W\<close> for the response type.  The pipe of a bidirectional stream is Go's
  \<^verbatim>\<open>io.Pipe\<close>: a write returns when the reader has taken the bytes or has closed.
\<close>

type_synonym 'u doer = "bytes \<Rightarrow> bytes \<Rightarrow> 'u modifier list \<Rightarrow> nat + response"

section \<open>proto.go: timeouts\<close>

definition formatGRPCTimeout :: "int \<Rightarrow> bytes" where
  "formatGRPCTimeout d =
    (if d \<le> 0 then ''0m''
     else
      (let n = nat d in
       if n < Microsecond then FormatInt (int n) @ ''n''
       else if n < Millisecond then FormatInt (int (n div Microsecond)) @ ''u''
       else if n < Second then FormatInt (int (n div Millisecond)) @ ''m''
       else if n < Minute then FormatInt (int (whole_units Second n)) @ ''S''
       else if n < Hour then FormatInt (int (whole_units Minute n)) @ ''M''
       else FormatInt (int (whole_units Hour n)) @ ''H''))"

definition formatTimeout :: "int \<Rightarrow> bytes" where
  "formatTimeout d = formatGRPCTimeout d"

definition WithTimeout :: "names \<Rightarrow> int \<Rightarrow> 'u modifier" where
  "WithTimeout N d = WithHeader (GRPCTimeout N) (formatTimeout d)"

definition WithGRPCWebTimeout :: "names \<Rightarrow> int \<Rightarrow> 'u modifier" where
  "WithGRPCWebTimeout N d = WithHeader (GRPCTimeout N) (formatGRPCTimeout d)"

section \<open>proto.go: plain and gRPC-Web requests\<close>

abbreviation (input) stackModCapacity :: nat where "stackModCapacity \<equiv> 16"
abbreviation (input) ProtoDecoder :: nat where "ProtoDecoder \<equiv> 0"
abbreviation (input) GRPCWebDecoder :: nat where "GRPCWebDecoder \<equiv> 1"

text \<open>\<^verbatim>\<open>copy(dst[off:], xs)\<close> on an array.\<close>

definition copy_into :: "'a list \<Rightarrow> nat \<Rightarrow> 'a list \<Rightarrow> 'a list" where
  "copy_into dst off xs = take off dst @ take (length dst - off) xs @ drop (off + length xs) dst"

definition withProtoGetMods :: "names \<Rightarrow> 'u modifier list \<Rightarrow> 'u modifier list \<Rightarrow> 'u modifier list" where
  "withProtoGetMods N stackBuf mods =
    (let total = 2 + length mods;
         m0 = WithHeader (Accept N) (MIMEApplicationProtobuf N); m1 = WithDecoder ProtoDecoder
     in if total \<le> stackModCapacity then take total (copy_into (stackBuf[0 := m0, 1 := m1]) 2 mods)
        else [m0, m1] @ mods)"

definition withProtoPostMods ::
  "names \<Rightarrow> 'q wire \<Rightarrow> 'u modifier list \<Rightarrow> 'q \<Rightarrow> 'u modifier list \<Rightarrow> 'u modifier list" where
  "withProtoPostMods N Wq stackBuf msg mods =
    (let bodyBytes = (case Marshal Wq msg of Some b \<Rightarrow> b | None \<Rightarrow> []); total = 3 + length mods;
         m0 = WithBody bodyBytes; m1 = WithHeader (ContentType N) (MIMEApplicationProtobuf N);
         m2 = WithDecoder ProtoDecoder
     in if total \<le> stackModCapacity then take total (copy_into (stackBuf[0 := m0, 1 := m1, 2 := m2]) 3 mods)
        else [m0, m1, m2] @ mods)"

definition withWebPostMods ::
  "names \<Rightarrow> 'q wire \<Rightarrow> 'u modifier list \<Rightarrow> 'q option \<Rightarrow> 'u modifier list \<Rightarrow> 'u modifier list" where
  "withWebPostMods N Wq stackBuf msg mods =
    (let frameBytes = (case MarshalFrame Wq msg False of Inr b \<Rightarrow> b | Inl err \<Rightarrow> []); total = 3 + length mods;
         m0 = WithBody frameBytes; m1 = WithHeader (ContentType N) (MIMEApplicationGRPCWebProto N);
         m2 = WithDecoder GRPCWebDecoder
     in if total \<le> stackModCapacity then take total (copy_into (stackBuf[0 := m0, 1 := m1, 2 := m2]) 3 mods)
        else [m0, m1, m2] @ mods)"

text \<open>\<open>decoder d b\<close> is the library's decoder number \<open>d\<close> on a body.\<close>

definition ProtoGetTo ::
  "names \<Rightarrow> (nat \<Rightarrow> bytes \<Rightarrow> 'm option) \<Rightarrow> 'u doer \<Rightarrow> 'u modifier list \<Rightarrow> bytes \<Rightarrow> 'u modifier list \<Rightarrow> grpc_error + 'm" where
  "ProtoGetTo N decoder doer stackBuf path mods =
    (case doer ''GET'' path (withProtoGetMods N stackBuf mods) of
       Inl err \<Rightarrow> Inl (GRequest err)
     | Inr resp \<Rightarrow>
         (case decoder ProtoDecoder (Body resp) of None \<Rightarrow> Inl GUnmarshal | Some m \<Rightarrow> Inr m))"

definition ProtoPostTo ::
  "names \<Rightarrow> 'q wire \<Rightarrow> (nat \<Rightarrow> bytes \<Rightarrow> 'm option) \<Rightarrow> 'u doer \<Rightarrow> 'u modifier list \<Rightarrow> bytes \<Rightarrow> 'q \<Rightarrow> 'u modifier list \<Rightarrow>
   grpc_error + 'm" where
  "ProtoPostTo N Wq decoder doer stackBuf path msg mods =
    (case doer ''POST'' path (withProtoPostMods N Wq stackBuf msg mods) of
       Inl err \<Rightarrow> Inl (GRequest err)
     | Inr resp \<Rightarrow>
         (case decoder ProtoDecoder (Body resp) of None \<Rightarrow> Inl GUnmarshal | Some m \<Rightarrow> Inr m))"

definition WebPostTo ::
  "names \<Rightarrow> 'q wire \<Rightarrow> (nat \<Rightarrow> bytes \<Rightarrow> 'm option) \<Rightarrow> 'u doer \<Rightarrow> 'u modifier list \<Rightarrow> bytes \<Rightarrow> 'q option \<Rightarrow>
   'u modifier list \<Rightarrow> grpc_error + 'm" where
  "WebPostTo N Wq decoder doer stackBuf path msg mods =
    (case doer ''POST'' path (withWebPostMods N Wq stackBuf msg mods) of
       Inl err \<Rightarrow> Inl (GRequest err)
     | Inr resp \<Rightarrow>
         (case decoder GRPCWebDecoder (Body resp) of None \<Rightarrow> Inl GUnmarshal | Some m \<Rightarrow> Inr m))"

text \<open>The variants that decode into a value given by the caller; the decoder may leave it changed when it fails.\<close>

definition ProtoGetInto ::
  "names \<Rightarrow> (nat \<Rightarrow> bytes \<Rightarrow> 'm \<Rightarrow> grpc_error option \<times> 'm) \<Rightarrow> 'u doer \<Rightarrow> 'u modifier list \<Rightarrow> bytes \<Rightarrow> 'm \<Rightarrow> 'u modifier list \<Rightarrow>
   grpc_error option \<times> 'm" where
  "ProtoGetInto N into doer stackBuf path target mods =
    (case doer ''GET'' path (withProtoGetMods N stackBuf mods) of
       Inl err \<Rightarrow> (Some (GRequest err), target)
     | Inr resp \<Rightarrow> into ProtoDecoder (Body resp) target)"

definition ProtoPostInto ::
  "names \<Rightarrow> 'q wire \<Rightarrow> (nat \<Rightarrow> bytes \<Rightarrow> 'm \<Rightarrow> grpc_error option \<times> 'm) \<Rightarrow> 'u doer \<Rightarrow> 'u modifier list \<Rightarrow> bytes \<Rightarrow> 'q \<Rightarrow> 'm \<Rightarrow>
   'u modifier list \<Rightarrow> grpc_error option \<times> 'm" where
  "ProtoPostInto N Wq into doer stackBuf path msg target mods =
    (case doer ''POST'' path (withProtoPostMods N Wq stackBuf msg mods) of
       Inl err \<Rightarrow> (Some (GRequest err), target)
     | Inr resp \<Rightarrow> into ProtoDecoder (Body resp) target)"

definition WebPostInto ::
  "names \<Rightarrow> 'q wire \<Rightarrow> (nat \<Rightarrow> bytes \<Rightarrow> 'm \<Rightarrow> grpc_error option \<times> 'm) \<Rightarrow> 'u doer \<Rightarrow> 'u modifier list \<Rightarrow> bytes \<Rightarrow> 'q option \<Rightarrow> 'm \<Rightarrow>
   'u modifier list \<Rightarrow> grpc_error option \<times> 'm" where
  "WebPostInto N Wq into doer stackBuf path msg target mods =
    (case doer ''POST'' path (withWebPostMods N Wq stackBuf msg mods) of
       Inl err \<Rightarrow> (Some (GRequest err), target)
     | Inr resp \<Rightarrow> into GRPCWebDecoder (Body resp) target)"

section \<open>client.go: requests\<close>

text \<open>\<open>isURL\<close> is the path library's test for an absolute URL.\<close>

definition normalizeMethodPath :: "(bytes \<Rightarrow> bool) \<Rightarrow> bytes \<Rightarrow> bytes" where
  "normalizeMethodPath isURL fullMethod =
    (if \<not> prefix ''/'' fullMethod \<and> \<not> isURL fullMethod then ''/'' @ fullMethod else fullMethod)"

text \<open>
  Metadata travels in a context, a chain of bindings whose newest binding of a key is the
  one found; \<open>'c\<close> stands for the bindings of other packages.  In the calls below
  \<open>deadline\<close> is the time left on the context and \<open>md\<close> the metadata found in it.
\<close>

datatype 'c ctx_binding = MetadataKey "(bytes \<times> bytes) list" | OtherKey 'c

definition NewContext :: "'c ctx_binding list \<Rightarrow> (bytes \<times> bytes) list \<Rightarrow> 'c ctx_binding list" where
  "NewContext ctx md = MetadataKey md # ctx"

fun FromContext :: "'c ctx_binding list \<Rightarrow> (bytes \<times> bytes) list option" where
  "FromContext (MetadataKey md # ctx) = Some md"
| "FromContext (OtherKey c # ctx) = FromContext ctx"
| "FromContext [] = None"

definition context_mods :: "names \<Rightarrow> int option \<Rightarrow> (bytes \<times> bytes) list option \<Rightarrow> 'u modifier list" where
  "context_mods N deadline md =
    (case deadline of Some d \<Rightarrow> [WithHeader (GRPCTimeout N) (formatTimeout d)] | None \<Rightarrow> []) @
    (case md of Some (kv # kvs) \<Rightarrow> [WithMetadata (kv # kvs)] | _ \<Rightarrow> [])"

definition prepareGRPCModifiers ::
  "names \<Rightarrow> int option \<Rightarrow> (bytes \<times> bytes) list option \<Rightarrow> bytes \<Rightarrow> bool \<Rightarrow> 'u modifier list \<Rightarrow> 'u modifier list" where
  "prepareGRPCModifiers N deadline md frameBytes isStreaming mods =
    [WithContentType (MIMEApplicationGRPC N), WithHeader (TE N) (ValueTrailers N),
     WithHeader (UserAgent N) ''grpc-aoni/1.0'', WithBody frameBytes] @
    (if isStreaming then [WithHeader (GRPCAcceptEncoding N) (ValueGzip N @ '', '' @ ValueIdentity N)] else []) @
    context_mods N deadline md @ mods"

definition prepareGRPCStreamModifiers ::
  "names \<Rightarrow> int option \<Rightarrow> (bytes \<times> bytes) list option \<Rightarrow> 'u modifier list \<Rightarrow> 'u modifier list" where
  "prepareGRPCStreamModifiers N deadline md mods =
    [WithContentType (MIMEApplicationGRPC N), WithHeader (TE N) (ValueTrailers N),
     WithHeader (UserAgent N) ''grpc-aoni/1.0'',
     WithHeader (GRPCAcceptEncoding N) (ValueGzip N @ '', '' @ ValueIdentity N), WithBodyPipe] @
    context_mods N deadline md @ mods"

text \<open>What the calls share: the frame of the request, the request, the check of the initial headers.\<close>

definition request ::
  "names \<Rightarrow> 'q wire \<Rightarrow> (bytes \<Rightarrow> bool) \<Rightarrow> 'u doer \<Rightarrow> int option \<Rightarrow> (bytes \<times> bytes) list option \<Rightarrow> bool \<Rightarrow> bytes \<Rightarrow>
   'q option \<Rightarrow> 'u modifier list \<Rightarrow> grpc_error + response" where
  "request N Wq isURL doer deadline md isStreaming fullMethod reqMsg mods =
    (case MarshalFrame Wq reqMsg False of
       Inl err \<Rightarrow> Inl err
     | Inr frameBytes \<Rightarrow>
         (case doer ''POST'' (normalizeMethodPath isURL fullMethod)
                 (prepareGRPCModifiers N deadline md frameBytes isStreaming mods) of
            Inl err \<Rightarrow> Inl (GRequest err)
          | Inr resp \<Rightarrow>
              (case validateInitialHeaders N resp of Some err \<Rightarrow> Inl err | None \<Rightarrow> Inr resp)))"

definition Invoke ::
  "names \<Rightarrow> 'q wire \<Rightarrow> 'm wire \<Rightarrow> (bytes \<Rightarrow> bool) \<Rightarrow> 'u doer \<Rightarrow> int option \<Rightarrow> (bytes \<times> bytes) list option \<Rightarrow> bytes \<Rightarrow>
   'q option \<Rightarrow> 'u modifier list \<Rightarrow> grpc_error + 'm" where
  "Invoke N Wq W isURL doer deadline md fullMethod reqMsg mods =
    (case request N Wq isURL doer deadline md False fullMethod reqMsg mods of
       Inl err \<Rightarrow> Inl err
     | Inr resp \<Rightarrow>
         if \<not> is_message W then Inl GNotMessage
         else (case UnmarshalFrame W (Body resp) of
                 ((compressed, Inl err), rest) \<Rightarrow> Inl err
               | ((compressed, Inr result), rest) \<Rightarrow>
                   if DrainError resp then Inl GDrain
                   else (case validateResponseTrailers N resp of Some err \<Rightarrow> Inl err | None \<Rightarrow> Inr result)))"

text \<open>\<^verbatim>\<open>InvokeInto\<close>: the error, and what the target holds if anything was decoded.\<close>

definition InvokeInto ::
  "names \<Rightarrow> 'q wire \<Rightarrow> 'm wire \<Rightarrow> (bytes \<Rightarrow> bool) \<Rightarrow> 'u doer \<Rightarrow> int option \<Rightarrow> (bytes \<times> bytes) list option \<Rightarrow> bytes \<Rightarrow>
   'q option \<Rightarrow> 'u modifier list \<Rightarrow> grpc_error option \<times> 'm option" where
  "InvokeInto N Wq W isURL doer deadline md fullMethod reqMsg mods =
    (case request N Wq isURL doer deadline md False fullMethod reqMsg mods of
       Inl err \<Rightarrow> (Some err, None)
     | Inr resp \<Rightarrow>
         (case UnmarshalFrame W (Body resp) of
            ((compressed, Inl err), rest) \<Rightarrow> (Some err, None)
          | ((compressed, Inr target), rest) \<Rightarrow>
              if DrainError resp then (Some GDrain, Some target)
              else (validateResponseTrailers N resp, Some target)))"

section \<open>client.go: server streams\<close>

record StreamResponse =
  sr_stream :: bytes
  sr_resp :: response
  sr_bodyClosed :: bool

definition ServerStream ::
  "names \<Rightarrow> 'q wire \<Rightarrow> (bytes \<Rightarrow> bool) \<Rightarrow> 'u doer \<Rightarrow> int option \<Rightarrow> (bytes \<times> bytes) list option \<Rightarrow> bytes \<Rightarrow>
   'q option \<Rightarrow> 'u modifier list \<Rightarrow> grpc_error + StreamResponse" where
  "ServerStream N Wq isURL doer deadline md fullMethod reqMsg mods =
    (case request N Wq isURL doer deadline md True fullMethod reqMsg mods of
       Inl err \<Rightarrow> Inl err
     | Inr resp \<Rightarrow> Inr \<lparr>sr_stream = Body resp, sr_resp = resp, sr_bodyClosed = False\<rparr>)"

definition trailer_of :: "response \<Rightarrow> http_header" where
  "trailer_of resp = (if length (r_Trailer resp) > 0 then r_Trailer resp else r_Header resp)"

definition recv_frame :: "names \<Rightarrow> 'm wire \<Rightarrow> response \<Rightarrow> bytes \<Rightarrow> (grpc_error + 'm) \<times> bytes" where
  "recv_frame N W resp stream =
    (if \<not> is_message W then (Inl GNotMessage, stream)
     else case UnmarshalFrame W stream of
            ((compressed, Inr result), stream) \<Rightarrow> (Inr result, stream)
          | ((compressed, Inl err), stream) \<Rightarrow>
              (if err = GEOF \<or> err = GUnexpectedEOF
               then (case validateResponseTrailers N resp of Some e \<Rightarrow> Inl e | None \<Rightarrow> Inl GEOF) else Inl err, stream))"

definition Recv_stream :: "names \<Rightarrow> 'm wire \<Rightarrow> StreamResponse \<Rightarrow> (grpc_error + 'm) \<times> StreamResponse" where
  "Recv_stream N W s = (case recv_frame N W (sr_resp s) (sr_stream s) of (r, rest) \<Rightarrow> (r, s\<lparr>sr_stream := rest\<rparr>))"

text \<open>A stream that \<^verbatim>\<open>ServerStream\<close> returns has a response and a body; \<open>body\<close> is what closing the body returns.\<close>

definition Header_stream :: "StreamResponse \<Rightarrow> http_header" where
  "Header_stream s = r_Header (sr_resp s)"

definition Close_server_stream :: "grpc_error option \<Rightarrow> StreamResponse \<Rightarrow> grpc_error option \<times> StreamResponse" where
  "Close_server_stream body s = (body, s\<lparr>sr_bodyClosed := True\<rparr>)"

section \<open>client.go: bidirectional streams\<close>

datatype pipe_state = PipeOpen | WriterClosed | ReaderClosed grpc_error

record Bidi =
  b_pipe :: pipe_state
  b_sent :: bytes
  b_connected :: "grpc_error option option"
  b_resp :: "response option"
  b_stream :: "bytes option"
  b_closedSend :: bool
  b_closed :: bool
  b_cancelled :: bool

definition newBidi :: Bidi where
  "newBidi =
    \<lparr>b_pipe = PipeOpen, b_sent = [], b_connected = None, b_resp = None, b_stream = None, b_closedSend = False,
     b_closed = False, b_cancelled = False\<rparr>"

text \<open>
  Starting a stream: the request the goroutine makes, with the reading end of the pipe as
  its body, and the client.  The answer to the request arrives through the channel later.
\<close>

definition BidiStream ::
  "names \<Rightarrow> (bytes \<Rightarrow> bool) \<Rightarrow> int option \<Rightarrow> (bytes \<times> bytes) list option \<Rightarrow> bytes \<Rightarrow> 'u modifier list \<Rightarrow>
   (bytes \<times> bytes \<times> 'u modifier list) \<times> Bidi" where
  "BidiStream N isURL deadline md fullMethod mods =
    ((''POST'', normalizeMethodPath isURL fullMethod, prepareGRPCStreamModifiers N deadline md mods), newBidi)"

text \<open>\<open>res\<close> is what the connection channel delivers; \<^verbatim>\<open>sync.Once\<close> makes the first outcome final.\<close>

definition ensureConnected :: "names \<Rightarrow> nat + response \<Rightarrow> Bidi \<Rightarrow> grpc_error option \<times> Bidi" where
  "ensureConnected N res s =
    (case b_connected s of
       Some connectErr \<Rightarrow> (connectErr, s)
     | None \<Rightarrow>
         (case res of
            Inl err \<Rightarrow> (Some (GRequest err), s\<lparr>b_connected := Some (Some (GRequest err))\<rparr>)
          | Inr resp \<Rightarrow>
              (case validateInitialHeaders N resp of
                 Some err \<Rightarrow> (Some err, s\<lparr>b_connected := Some (Some err)\<rparr>)
               | None \<Rightarrow> (None, s\<lparr>b_connected := Some None, b_resp := Some resp, b_stream := Some (Body resp)\<rparr>))))"

text \<open>A write to the pipe; \<open>taken = Some (k, e)\<close>: the reader takes \<open>k\<close> bytes and closes with error \<open>e\<close>.\<close>

definition pipe_write :: "(nat \<times> grpc_error) option \<Rightarrow> bytes \<Rightarrow> Bidi \<Rightarrow> grpc_error option \<times> Bidi" where
  "pipe_write taken p s =
    (case b_pipe s of
       WriterClosed \<Rightarrow> (Some GClosedPipe, s)
     | ReaderClosed e \<Rightarrow> (Some e, s)
     | PipeOpen \<Rightarrow>
         (case taken of
            None \<Rightarrow> (None, s\<lparr>b_sent := b_sent s @ p\<rparr>)
          | Some (k, e) \<Rightarrow> (Some e, s\<lparr>b_pipe := ReaderClosed e, b_sent := b_sent s @ take k p\<rparr>)))"

definition Send_bidi ::
  "names \<Rightarrow> 'q wire \<Rightarrow> (nat \<times> grpc_error) option \<Rightarrow> nat + response \<Rightarrow> 'q option \<Rightarrow> Bidi \<Rightarrow> grpc_error option \<times> Bidi" where
  "Send_bidi N Wq taken res msg s =
    (if b_closed s then (Some GClosed, s)
     else if b_closedSend s then (Some GSendClosed, s)
     else case MarshalFrame Wq msg False of
            Inl err \<Rightarrow> (Some err, s)
          | Inr frameBytes \<Rightarrow>
              (case pipe_write taken frameBytes s of
                 (None, s) \<Rightarrow> (None, s)
               | (Some err, s) \<Rightarrow>
                   if err = GClosedPipe
                   then (case ensureConnected N res s of
                           (Some connErr, s) \<Rightarrow> (Some connErr, s)
                         | (None, s) \<Rightarrow> (Some err, s))
                   else (Some err, s)))"

definition CloseSend :: "Bidi \<Rightarrow> Bidi" where
  "CloseSend s = (if b_closedSend s then s else s\<lparr>b_closedSend := True, b_pipe := WriterClosed\<rparr>)"

text \<open>Once connected, the response and its stream are set (\<open>bidi_inv\<close> below).\<close>

definition Recv_bidi ::
  "names \<Rightarrow> 'm wire \<Rightarrow> nat + response \<Rightarrow> Bidi \<Rightarrow> (grpc_error + 'm) \<times> Bidi" where
  "Recv_bidi N W res s =
    (if b_closed s then (Inl GClosed, s)
     else case ensureConnected N res s of
            (Some err, s) \<Rightarrow> (Inl err, s)
          | (None, s) \<Rightarrow>
              (case (b_resp s, b_stream s) of
                 (Some resp, Some stream) \<Rightarrow>
                   (case recv_frame N W resp stream of (r, rest) \<Rightarrow> (r, s\<lparr>b_stream := Some rest\<rparr>))
               | _ \<Rightarrow> (Inl GClosed, s)))"

text \<open>\<open>body\<close> is what closing the response body returns.\<close>

definition Close_bidi :: "grpc_error option \<Rightarrow> Bidi \<Rightarrow> grpc_error option \<times> Bidi" where
  "Close_bidi body s =
    (if b_closed s then (None, s)
     else (if b_stream s = None then None else body,
           s\<lparr>b_closed := True, b_closedSend := True, b_pipe := WriterClosed, b_cancelled := True\<rparr>))"

definition CloseAndRecv ::
  "names \<Rightarrow> 'm wire \<Rightarrow> nat + response \<Rightarrow> grpc_error option \<Rightarrow> Bidi \<Rightarrow> (grpc_error + 'm) \<times> Bidi" where
  "CloseAndRecv N W res body s =
    (case Recv_bidi N W res (CloseSend s) of (r, s) \<Rightarrow> (r, snd (Close_bidi body s)))"

text \<open>The headers wait for the connection; \<open>None\<close> would be the panic on a nil response.\<close>

definition Header_bidi :: "names \<Rightarrow> nat + response \<Rightarrow> Bidi \<Rightarrow> (grpc_error + http_header) option \<times> Bidi" where
  "Header_bidi N res s =
    (case ensureConnected N res s of
       (Some err, s) \<Rightarrow> (Some (Inl err), s)
     | (None, s) \<Rightarrow> (map_option (\<lambda>resp. Inr (r_Header resp)) (b_resp s), s))"

text \<open>A client stream is a bidirectional one with fewer operations; \<open>None\<close> is a nil stream.\<close>

definition ClientStream ::
  "names \<Rightarrow> (bytes \<Rightarrow> bool) \<Rightarrow> int option \<Rightarrow> (bytes \<times> bytes) list option \<Rightarrow> bytes \<Rightarrow> 'u modifier list \<Rightarrow>
   (bytes \<times> bytes \<times> 'u modifier list) \<times> Bidi option" where
  "ClientStream N isURL deadline md fullMethod mods =
    (case BidiStream N isURL deadline md fullMethod mods of (req, bidi) \<Rightarrow> (req, Some bidi))"

definition Send_client ::
  "names \<Rightarrow> 'q wire \<Rightarrow> (nat \<times> grpc_error) option \<Rightarrow> nat + response \<Rightarrow> 'q option \<Rightarrow> Bidi \<Rightarrow> grpc_error option \<times> Bidi" where
  "Send_client N Wq taken res msg bidi = Send_bidi N Wq taken res msg bidi"

definition Close_client :: "grpc_error option \<Rightarrow> Bidi option \<Rightarrow> grpc_error option \<times> Bidi option" where
  "Close_client body s =
    (case s of None \<Rightarrow> (None, None) | Some bidi \<Rightarrow> (case Close_bidi body bidi of (err, bidi) \<Rightarrow> (err, Some bidi)))"

definition Trailer_bidi :: "Bidi \<Rightarrow> http_header option" where
  "Trailer_bidi s = (case b_resp s of Some resp \<Rightarrow> Some (trailer_of resp) | None \<Rightarrow> None)"

section \<open>dynamic.go\<close>

record MarshalOptions =
  EmitUnpopulated :: bool
  UseProtoNames :: bool

record DynamicInvoker =
  jsonMarshal :: MarshalOptions
  DiscardUnknown :: bool

definition NewDynamic :: DynamicInvoker where
  "NewDynamic = \<lparr>jsonMarshal = \<lparr>EmitUnpopulated = False, UseProtoNames = True\<rparr>, DiscardUnknown = True\<rparr>"

text \<open>
  \<open>parse\<close> and \<open>print\<close> are the JSON library's, given the options of the invoker; \<open>fresh\<close> is a
  new request message.
\<close>

definition InvokeJSON ::
  "DynamicInvoker \<Rightarrow> 'q wire \<Rightarrow> 'm wire \<Rightarrow> (bool \<Rightarrow> bytes \<Rightarrow> 'q option) \<Rightarrow> 'q \<Rightarrow> (MarshalOptions \<Rightarrow> 'm \<Rightarrow> bytes option) \<Rightarrow> 'u doer \<Rightarrow> (int \<Rightarrow> 'u modifier) \<Rightarrow>
   int option \<Rightarrow> bool \<Rightarrow> bytes \<Rightarrow> bytes \<Rightarrow> 'u modifier list \<Rightarrow> grpc_error + bytes" where
  "InvokeJSON d Wq W parse fresh print doer webTimeout deadline descriptors fullMethod reqJSON mods =
    (if \<not> descriptors then Inl GNilDescriptor
     else case (if TrimSpace reqJSON \<noteq> [] then parse (DiscardUnknown d) reqJSON else Some fresh) of
            None \<Rightarrow> Inl GJson
          | Some reqMsg \<Rightarrow>
              (case MarshalFrame Wq (Some reqMsg) False of
                 Inl err \<Rightarrow> Inl err
               | Inr frameBytes \<Rightarrow>
                   (let path = (if \<not> prefix ''/'' fullMethod \<and> \<not> prefix ''http://'' fullMethod \<and>
                                   \<not> prefix ''https://'' fullMethod then ''/'' @ fullMethod else fullMethod);
                        grpcMods = [WithContentType ''application/grpc'', WithHeader ''te'' ''trailers'',
                                    WithHeader ''user-agent'' ''grpc-aoni/1.0'', WithBody frameBytes] @
                                   (case deadline of Some left \<Rightarrow> [webTimeout left] | None \<Rightarrow> []) @ mods
                    in case doer ''POST'' path grpcMods of
                         Inl err \<Rightarrow> Inl (GRequest err)
                       | Inr resp \<Rightarrow>
                           (case UnmarshalFrame W (Body resp) of
                              ((compressed, Inl err), rest) \<Rightarrow> Inl err
                            | ((compressed, Inr respMsg), rest) \<Rightarrow>
                                (case print (jsonMarshal d) respMsg of None \<Rightarrow> Inl GJson | Some jsonBytes \<Rightarrow> Inr jsonBytes)))))"


section \<open>Modifiers\<close>

lemma stack_mods:
  assumes "length stack = 16" and "length pre + length mods \<le> 16"
  shows "take (length pre + length mods) (copy_into (pre @ drop (length pre) stack) (length pre) mods) = pre @ mods"
  using assms by (simp add: copy_into_def)

lemma modifiers_prepended:
  assumes "length stack = 16"
  shows "withProtoGetMods N stack mods =
      [WithHeader (Accept N) (MIMEApplicationProtobuf N), WithDecoder 0] @ mods"
    and "withProtoPostMods N Wq stack msg mods =
      [WithBody (case Marshal Wq msg of Some b \<Rightarrow> b | None \<Rightarrow> []), WithHeader (ContentType N) (MIMEApplicationProtobuf N),
       WithDecoder 0] @ mods"
    and "withWebPostMods N Wq stack rmsg mods =
      [WithBody (case MarshalFrame Wq rmsg False of Inr b \<Rightarrow> b | Inl err \<Rightarrow> []),
       WithHeader (ContentType N) (MIMEApplicationGRPCWebProto N), WithDecoder 1] @ mods"
proof -
  have u: "stack[0 := a, 1 := b] = [a, b] @ drop 2 stack" "stack[0 := a, 1 := b, 2 := c] = [a, b, c] @ drop 3 stack" for a b c
    using assms by (auto simp: list_eq_iff_nth_eq nth_list_update nth_append nth_Cons numeral_eq_Suc split: nat.splits)
  show "withProtoGetMods N stack mods = [WithHeader (Accept N) (MIMEApplicationProtobuf N), WithDecoder 0] @ mods"
    using stack_mods [OF assms, of "[WithHeader (Accept N) (MIMEApplicationProtobuf N), WithDecoder 0]" mods]
    unfolding withProtoGetMods_def Let_def u(1) by (simp add: numeral_2_eq_2)
  show "withProtoPostMods N Wq stack msg mods =
      [WithBody (case Marshal Wq msg of Some b \<Rightarrow> b | None \<Rightarrow> []), WithHeader (ContentType N) (MIMEApplicationProtobuf N),
       WithDecoder 0] @ mods"
    using stack_mods [OF assms, of "[WithBody (case Marshal Wq msg of Some b \<Rightarrow> b | None \<Rightarrow> []),
      WithHeader (ContentType N) (MIMEApplicationProtobuf N), WithDecoder 0]" mods]
    unfolding withProtoPostMods_def Let_def u(2) by (simp add: numeral_3_eq_3)
  show "withWebPostMods N Wq stack rmsg mods =
      [WithBody (case MarshalFrame Wq rmsg False of Inr b \<Rightarrow> b | Inl err \<Rightarrow> []),
       WithHeader (ContentType N) (MIMEApplicationGRPCWebProto N), WithDecoder 1] @ mods"
    using stack_mods [OF assms, of "[WithBody (case MarshalFrame Wq rmsg False of Inr b \<Rightarrow> b | Inl err \<Rightarrow> []),
      WithHeader (ContentType N) (MIMEApplicationGRPCWebProto N), WithDecoder 1]" mods]
    unfolding withWebPostMods_def Let_def u(2) by (simp add: numeral_3_eq_3)
qed

section \<open>Streams of messages\<close>

definition stream_end :: "names \<Rightarrow> response \<Rightarrow> grpc_error" where
  "stream_end N resp = (case validateResponseTrailers N resp of Some e \<Rightarrow> e | None \<Rightarrow> GEOF)"

lemma recv_frame_next:
  "msg_ok W cm \<Longrightarrow> is_message W \<Longrightarrow> recv_frame N W resp (frame_of W cm @ rest) = (Inr (snd cm), rest)"
  by (simp add: recv_frame_def UnmarshalFrame_written)

lemma recv_frame_end:
  "wire_laws W \<Longrightarrow> is_message W \<Longrightarrow> recv_frame N W resp [] = (Inl (stream_end N resp), [])"
  by (simp add: recv_frame_def UnmarshalFrame_end stream_end_def split: option.split)

fun recv_stream_many :: "names \<Rightarrow> 'm wire \<Rightarrow> nat \<Rightarrow> StreamResponse \<Rightarrow> (grpc_error + 'm) list \<times> StreamResponse" where
  "recv_stream_many N W 0 s = ([], s)"
| "recv_stream_many N W (Suc n) s =
    (case Recv_stream N W s of (r, s) \<Rightarrow> (case recv_stream_many N W n s of (rs, s) \<Rightarrow> (r # rs, s)))"

lemma recv_stream_at_end:
  assumes "wire_laws W" and "is_message W" and "sr_stream s = []"
  shows "recv_stream_many N W k s = (replicate k (Inl (stream_end N (sr_resp s))), s)"
proof (induction k)
  case (Suc k)
  have "Recv_stream N W s = (Inl (stream_end N (sr_resp s)), s)"
    using assms by (simp add: Recv_stream_def recv_frame_end)
  then show ?case by (simp add: Suc)
qed simp

lemma recv_stream_messages:
  assumes "list_all (msg_ok W) ms" and "wire_laws W" and "is_message W"
    and "sr_stream s = concat (map (frame_of W) ms)"
  shows "fst (recv_stream_many N W (length ms + k) s) =
    map (\<lambda>cm. Inr (snd cm)) ms @ replicate k (Inl (stream_end N (sr_resp s)))"
  using assms(1,4)
proof (induction ms arbitrary: s)
  case Nil
  then show ?case by (simp add: recv_stream_at_end [OF assms(2,3)])
next
  case (Cons cm ms)
  have "Recv_stream N W s = (Inr (snd cm), s\<lparr>sr_stream := concat (map (frame_of W) ms)\<rparr>)"
    using Cons.prems assms(3) by (simp add: Recv_stream_def recv_frame_next)
  moreover have "fst (recv_stream_many N W (length ms + k) (s\<lparr>sr_stream := concat (map (frame_of W) ms)\<rparr>)) =
      map (\<lambda>cm. Inr (snd cm)) ms @ replicate k (Inl (stream_end N (sr_resp s)))"
    using Cons.IH [of "s\<lparr>sr_stream := concat (map (frame_of W) ms)\<rparr>"] Cons.prems(1) by simp
  ultimately show ?case by (simp add: case_prod_unfold)
qed

section \<open>Bidirectional streams\<close>

datatype 'q bidi_op =
    OpSend "(nat \<times> grpc_error) option" "nat + response" "'q option"
  | OpCloseSend
  | OpRecv "nat + response"
  | OpHeader "nat + response"
  | OpClose "grpc_error option"

datatype 'm bidi_reply = ReplySend "grpc_error option" | ReplyNone | ReplyRecv "grpc_error + 'm" | ReplyClose "grpc_error option" |
  ReplyHeader "(grpc_error + http_header) option"

fun exec_bidi :: "names \<Rightarrow> 'q wire \<Rightarrow> 'm wire \<Rightarrow> 'q bidi_op \<Rightarrow> Bidi \<Rightarrow> 'm bidi_reply \<times> Bidi" where
  "exec_bidi N Wq W (OpSend taken res msg) s = (case Send_bidi N Wq taken res msg s of (e, s) \<Rightarrow> (ReplySend e, s))"
| "exec_bidi N Wq W OpCloseSend s = (ReplyNone, CloseSend s)"
| "exec_bidi N Wq W (OpRecv res) s = (case Recv_bidi N W res s of (r, s) \<Rightarrow> (ReplyRecv r, s))"
| "exec_bidi N Wq W (OpHeader res) s = (case Header_bidi N res s of (r, s) \<Rightarrow> (ReplyHeader r, s))"
| "exec_bidi N Wq W (OpClose body) s = (case Close_bidi body s of (e, s) \<Rightarrow> (ReplyClose e, s))"

fun bidi_run :: "names \<Rightarrow> 'q wire \<Rightarrow> 'm wire \<Rightarrow> 'q bidi_op list \<Rightarrow> Bidi \<Rightarrow> 'm bidi_reply list \<times> Bidi" where
  "bidi_run N Wq W [] s = ([], s)"
| "bidi_run N Wq W (x # xs) s =
    (case exec_bidi N Wq W x s of (r, s) \<Rightarrow> (case bidi_run N Wq W xs s of (rs, s) \<Rightarrow> (r # rs, s)))"

definition bidi_step :: "names \<Rightarrow> 'q wire \<Rightarrow> 'm wire \<Rightarrow> Bidi \<Rightarrow> Bidi \<Rightarrow> bool" where
  "bidi_step N Wq W s t \<longleftrightarrow> (\<exists>x. t = snd (exec_bidi N Wq W x s))"

definition bidi_inv :: "Bidi \<Rightarrow> bool" where
  "bidi_inv s \<longleftrightarrow>
    (b_closed s \<longrightarrow> b_closedSend s \<and> b_cancelled s) \<and> (b_closedSend s \<longrightarrow> b_pipe s = WriterClosed) \<and>
    (b_connected s = Some None \<longleftrightarrow> b_resp s \<noteq> None) \<and> (b_resp s = None \<longleftrightarrow> b_stream s = None)"

lemma ensureConnected_inv:
  "bidi_inv s \<Longrightarrow> ensureConnected N res s = (e, t) \<Longrightarrow>
    bidi_inv t \<and> b_connected t \<noteq> None \<and> (b_connected s \<noteq> None \<longrightarrow> t = s) \<and> (e = None \<longleftrightarrow> b_resp t \<noteq> None) \<and>
    b_sent t = b_sent s \<and> b_closed t = b_closed s \<and> b_closedSend t = b_closedSend s \<and> b_pipe t = b_pipe s"
  by (auto simp: ensureConnected_def bidi_inv_def split: option.splits sum.splits)

lemma pipe_write_inv:
  "bidi_inv s \<Longrightarrow> \<not> b_closedSend s \<Longrightarrow> pipe_write taken p s = (e, t) \<Longrightarrow> bidi_inv t \<and> b_connected t = b_connected s"
  by (auto simp: pipe_write_def bidi_inv_def split: pipe_state.splits option.splits)

lemma Send_bidi_inv:
  assumes "bidi_inv s" and "Send_bidi N Wq taken res msg s = (e, t)"
  shows "bidi_inv t \<and> (b_connected s \<noteq> None \<longrightarrow> b_connected t = b_connected s) \<and> (b_closedSend s \<longrightarrow> t = s)"
proof (cases "b_closed s \<or> b_closedSend s \<or> (\<exists>err. MarshalFrame Wq msg False = Inl err)")
  case True
  then show ?thesis using assms by (auto simp: Send_bidi_def split: if_splits)
next
  case False
  then obtain p where p: "MarshalFrame Wq msg False = Inr p" by (cases "MarshalFrame Wq msg False") auto
  obtain e1 s1 where w: "pipe_write taken p s = (e1, s1)" by fastforce
  obtain c s2 where c: "ensureConnected N res s1 = (c, s2)" by fastforce
  have s1: "bidi_inv s1" "b_connected s1 = b_connected s" using pipe_write_inv [OF assms(1) _ w] False by auto
  have s2: "bidi_inv s2" "b_connected s1 \<noteq> None \<longrightarrow> s2 = s1" using ensureConnected_inv [OF s1(1) c] by auto
  have "t = s1 \<or> t = s2"
    using assms(2) False p w c by (auto simp: Send_bidi_def split: option.splits if_splits)
  then show ?thesis using s1 s2 False by auto
qed

lemma Recv_bidi_inv:
  assumes "bidi_inv s" and "Recv_bidi N W res s = (r, t)"
  shows "bidi_inv t \<and> (b_connected s \<noteq> None \<longrightarrow> b_connected t = b_connected s) \<and> b_sent t = b_sent s \<and>
    b_closed t = b_closed s \<and> b_closedSend t = b_closedSend s"
proof -
  obtain c s1 where c: "ensureConnected N res s = (c, s1)" by fastforce
  note s1 = ensureConnected_inv [OF assms(1) c]
  consider "t = s" | "t = s1" | rest where "t = s1\<lparr>b_stream := Some rest\<rparr>" "b_stream s1 \<noteq> None"
    using assms(2) c by (auto simp: Recv_bidi_def split: if_splits option.splits prod.splits)
  then show ?thesis
  proof cases
    case 1
    then show ?thesis using assms(1) by simp
  next
    case 2
    then show ?thesis using s1 by auto
  next
    case 3
    then show ?thesis using s1 by (simp add: bidi_inv_def) (metis not_None_eq)
  qed
qed

lemma Header_bidi_inv:
  assumes "bidi_inv s" and "Header_bidi N res s = (r, t)"
  shows "bidi_inv t" and "b_connected s \<noteq> None \<longrightarrow> t = s" and "r \<noteq> None" and "b_sent t = b_sent s"
    and "b_closedSend t = b_closedSend s" and "b_pipe t = b_pipe s"
proof -
  obtain c s1 where c: "ensureConnected N res s = (c, s1)" by fastforce
  note s1 = ensureConnected_inv [OF assms(1) c]
  have "t = s1" "r \<noteq> None"
    using assms(2) c s1 by (auto simp: Header_bidi_def split: option.splits)
  then show "bidi_inv t" "b_connected s \<noteq> None \<longrightarrow> t = s" "r \<noteq> None" "b_sent t = b_sent s"
    "b_closedSend t = b_closedSend s" "b_pipe t = b_pipe s" using s1 by auto
qed

lemma exec_bidi_inv:
  assumes "bidi_inv s" and "exec_bidi N Wq W x s = (r, t)"
  shows "bidi_inv t \<and> (b_connected s \<noteq> None \<longrightarrow> b_connected t = b_connected s) \<and>
    (b_closedSend s \<longrightarrow> b_closedSend t \<and> b_sent t = b_sent s)"
proof (cases x)
  case (OpSend taken res msg)
  then obtain e where "Send_bidi N Wq taken res msg s = (e, t)" using assms(2) by (auto split: prod.splits)
  from Send_bidi_inv [OF assms(1) this] show ?thesis by auto
next
  case OpCloseSend
  then show ?thesis using assms by (auto simp: CloseSend_def bidi_inv_def split: if_splits)
next
  case (OpRecv res)
  then obtain e where "Recv_bidi N W res s = (e, t)" using assms(2) by (auto split: prod.splits)
  from Recv_bidi_inv [OF assms(1) this] show ?thesis by auto
next
  case (OpHeader res)
  then obtain e where "Header_bidi N res s = (e, t)" using assms(2) by (auto split: prod.splits)
  from Header_bidi_inv [OF assms(1) this] show ?thesis by auto
next
  case (OpClose body)
  then show ?thesis using assms by (auto simp: Close_bidi_def bidi_inv_def split: if_splits)
qed

interpretation bidi_system: invariant_system "\<lambda>s. s = newBidi" "bidi_step N Wq W" bidi_inv for N Wq W
proof
  show "bidi_inv s" if "s = newBidi" for s using that by (simp add: newBidi_def bidi_inv_def)
  show "bidi_inv t" if "bidi_inv s" and "bidi_step N Wq W s t" for s t
    using that exec_bidi_inv [of s N Wq W] by (auto simp: bidi_step_def) (metis prod.collapse)
qed


text \<open>With a reader that takes everything, what is sent is decided by the operations alone: the messages of the
  sends before the first closing operation.\<close>

fun closing :: "'q bidi_op \<Rightarrow> bool" where
  "closing (OpSend taken res msg) = False"
| "closing OpCloseSend = True"
| "closing (OpRecv res) = False"
| "closing (OpHeader res) = False"
| "closing (OpClose body) = True"

fun sends :: "'q bidi_op list \<Rightarrow> 'q list" where
  "sends [] = []"
| "sends (OpSend taken res (Some m) # xs) = m # sends xs"
| "sends (x # xs) = sends xs"

fun sends_fine :: "'q wire \<Rightarrow> 'q bidi_op \<Rightarrow> bool" where
  "sends_fine Wq (OpSend taken res msg) = (taken = None \<and> (case msg of Some m \<Rightarrow> msg_ok Wq (False, m) | None \<Rightarrow> False))"
| "sends_fine Wq x = True"

lemma run_after_close:
  "bidi_inv s \<Longrightarrow> b_closedSend s \<Longrightarrow> b_sent (snd (bidi_run N Wq W xs s)) = b_sent s"
proof (induction xs arbitrary: s)
  case (Cons x xs)
  obtain r t where "exec_bidi N Wq W x s = (r, t)" by fastforce
  with Cons exec_bidi_inv [of s N Wq W x r t] show ?case by (simp add: case_prod_unfold)
qed simp

lemma open_send:
  assumes "bidi_inv s" and "\<not> b_closedSend s" and "b_pipe s = PipeOpen" and "msg_ok Wq (False, m)"
  shows "Send_bidi N Wq None res (Some m) s = (None, s\<lparr>b_sent := b_sent s @ frame_of Wq (False, m)\<rparr>)"
proof -
  obtain p where "MarshalFrame Wq (Some m) False = Inr p" using assms(4) by (rule marshalled_frame) simp
  moreover have "\<not> b_closed s" using assms(1,2) by (auto simp: bidi_inv_def)
  ultimately show ?thesis using assms(2,3) by (simp add: Send_bidi_def pipe_write_def frame_of_def)
qed

lemma run_sent:
  assumes "bidi_inv s" and "\<not> b_closedSend s" and "b_pipe s = PipeOpen" and "list_all (sends_fine Wq) xs"
  shows "b_sent (snd (bidi_run N Wq W xs s)) =
    b_sent s @ concat (map (\<lambda>m. frame_of Wq (False, m)) (sends (takeWhile (\<lambda>x. \<not> closing x) xs)))"
  using assms
proof (induction xs arbitrary: s)
  case (Cons x xs)
  obtain r t where rt: "exec_bidi N Wq W x s = (r, t)" by fastforce
  have t: "bidi_inv t" using exec_bidi_inv [OF Cons.prems(1) rt] by simp
  have run: "snd (bidi_run N Wq W (x # xs) s) = snd (bidi_run N Wq W xs t)" using rt by (simp add: case_prod_unfold)
  show ?case
  proof (cases x)
    case (OpSend taken res msg)
    then obtain m where m: "x = OpSend None res (Some m)" "msg_ok Wq (False, m)"
      using Cons.prems(4) by (auto split: option.splits)
    then have "t = s\<lparr>b_sent := b_sent s @ frame_of Wq (False, m)\<rparr>"
      using rt open_send [OF Cons.prems(1-3) m(2)] by simp
    then show ?thesis unfolding run using Cons.IH [OF t] Cons.prems m(1) by simp
  next
    case OpCloseSend
    then have "b_closedSend t" "b_sent t = b_sent s" using rt by (auto simp: CloseSend_def)
    then show ?thesis unfolding run using run_after_close [OF t] OpCloseSend by simp
  next
    case (OpRecv res)
    then obtain e where "Recv_bidi N W res s = (e, t)" using rt by (auto split: prod.splits)
    note k = Recv_bidi_inv [OF Cons.prems(1) this]
    have "b_pipe t = PipeOpen"
      using \<open>Recv_bidi N W res s = (e, t)\<close> Cons.prems(1,3) ensureConnected_inv [OF Cons.prems(1)]
      by (auto simp: Recv_bidi_def split: if_splits prod.splits option.splits)
    then show ?thesis unfolding run using Cons.IH [OF t] Cons.prems k OpRecv by simp
  next
    case (OpHeader res)
    then obtain e where "Header_bidi N res s = (e, t)" using rt by (auto split: prod.splits)
    note k = Header_bidi_inv [OF Cons.prems(1) this]
    show ?thesis unfolding run using Cons.IH [OF t] Cons.prems k OpHeader by simp
  next
    case (OpClose body)
    then have "b_closedSend t" "b_sent t = b_sent s"
      using rt Cons.prems(1,2) by (auto simp: Close_bidi_def bidi_inv_def split: if_splits)
    then show ?thesis unfolding run using run_after_close [OF t] OpClose by simp
  qed
qed simp

text \<open>Asking for the headers never dereferences a nil response, in whatever order a stream is used.\<close>

lemma header_never_panics:
  assumes "reach (\<lambda>s. s = newBidi) (bidi_step N Wq W) s"
  shows "fst (Header_bidi N res s) \<noteq> None"
  using Header_bidi_inv(3) [OF bidi_system.reach_inv [OF assms] prod.collapse [symmetric]] .

text \<open>Metadata put into a context is found there, whatever is bound on top of it by other packages.\<close>

lemma metadata_found: "FromContext (map OtherKey cs @ NewContext ctx md) = Some md"
  by (induction cs) (simp_all add: NewContext_def)

section \<open>Shortcomings\<close>

text \<open>A server that answers with an error status and no message: the caller of a unary call gets the end of
  file instead of the status.\<close>

lemma invoke_hides_status:
  assumes "request N Wq isURL doer deadline md False fullMethod reqMsg mods = Inr resp"
    and "wire_laws W" and "is_message W" and "Body resp = []"
  shows "Invoke N Wq W isURL doer deadline md fullMethod reqMsg mods = Inl GEOF"
  using assms by (simp add: Invoke_def UnmarshalFrame_end)

text \<open>A frame cut short by the end of the stream is reported as a regular end.\<close>

lemma truncated_frame_is_end:
  assumes "readFrame W stream = (Inl FUnexpectedEOF, rest)" and "is_message W"
    and "validateResponseTrailers N resp = None"
  shows "recv_frame N W resp stream = (Inl GEOF, rest)"
  using assms by (simp add: recv_frame_def UnmarshalFrame_def)

text \<open>The dynamic invoker looks at neither the HTTP status nor the gRPC status.\<close>

lemma dynamic_ignores_status:
  assumes "\<And>path ms. doer ''POST'' path ms = Inr resp" and "Body resp = frame_of W cm" and "msg_ok W cm"
    and "print (jsonMarshal d) (snd cm) = Some js" and "MarshalFrame Wq (Some fresh) False = Inr p"
  shows "InvokeJSON d Wq W parse fresh print doer webTimeout deadline True fullMethod [] mods = Inr js"
  using assms UnmarshalFrame_written [OF assms(3), of "[]"]
  by (simp add: InvokeJSON_def TrimSpace_printable Let_def)

text \<open>A message that cannot be marshalled is sent as an empty body.\<close>

lemma marshal_error_ignored:
  assumes "length stack = 16" and "Marshal Wq msg = None"
  shows "WithBody [] \<in> set (withProtoPostMods N Wq stack msg mods)"
  using assms by (simp add: modifiers_prepended)

section \<open>Properties\<close>

text \<open>C26: a unary call returns a message exactly when the request could be framed and was answered with HTTP
  status 200, an acceptable content type and no error status in the headers, the body starts with
  a frame of that message and can be read to its end, and the trailers, or else the headers,
  carry the status zero.  Decoding into a given target agrees.\<close>
theorem unary_call_accepted_iff:
  "(Invoke N Wq W isURL doer deadline md fullMethod reqMsg mods = Inr m \<longleftrightarrow>
    (\<exists>frame resp c rest. is_message W \<and> MarshalFrame Wq reqMsg False = Inr frame \<and>
      doer ''POST'' (normalizeMethodPath isURL fullMethod) (prepareGRPCModifiers N deadline md frame False mods) = Inr resp \<and>
      StatusCode resp = 200 \<and>
      Header_Get (r_Header resp) (ContentType N) \<in> {[]} \<union> {ct. prefix (MIMEApplicationGRPC N) ct} \<and>
      Header_Get (r_Header resp) (GRPCStatus N) \<in> {[], ''0''} \<and>
      UnmarshalFrame W (Body resp) = ((c, Inr m), rest) \<and> \<not> DrainError resp \<and>
      (getHeaderCaseInsensitive (r_Trailer resp) (GRPCStatus N) = ''0'' \<or>
       getHeaderCaseInsensitive (r_Trailer resp) (GRPCStatus N) = [] \<and>
       getHeaderCaseInsensitive (r_Header resp) (GRPCStatus N) = ''0''))) \<and>
   (Invoke N Wq W isURL doer deadline md fullMethod reqMsg mods = Inr m \<longleftrightarrow>
    is_message W \<and> InvokeInto N Wq W isURL doer deadline md fullMethod reqMsg mods = (None, Some m))"
proof -
  have r: "request N Wq isURL doer deadline md False fullMethod reqMsg mods = Inr resp \<longleftrightarrow>
      (\<exists>frame. MarshalFrame Wq reqMsg False = Inr frame \<and>
        doer ''POST'' (normalizeMethodPath isURL fullMethod) (prepareGRPCModifiers N deadline md frame False mods) = Inr resp \<and>
        validateInitialHeaders N resp = None)" for resp
    by (auto simp: request_def split: sum.splits option.splits)
  have i: "Invoke N Wq W isURL doer deadline md fullMethod reqMsg mods = Inr m \<longleftrightarrow>
      (\<exists>resp c rest. request N Wq isURL doer deadline md False fullMethod reqMsg mods = Inr resp \<and> is_message W \<and>
        UnmarshalFrame W (Body resp) = ((c, Inr m), rest) \<and> \<not> DrainError resp \<and> validateResponseTrailers N resp = None)"
    by (auto simp: Invoke_def split: sum.splits prod.splits option.splits)
  have j: "InvokeInto N Wq W isURL doer deadline md fullMethod reqMsg mods = (None, Some m) \<longleftrightarrow>
      (\<exists>resp c rest. request N Wq isURL doer deadline md False fullMethod reqMsg mods = Inr resp \<and>
        UnmarshalFrame W (Body resp) = ((c, Inr m), rest) \<and> \<not> DrainError resp \<and> validateResponseTrailers N resp = None)"
    by (auto simp: InvokeInto_def split: sum.splits prod.splits)
  show ?thesis unfolding i j r headers_accepted_iff trailers_accepted_iff by blast
qed

text \<open>A server stream hands the messages to the caller in the order the server framed them, and then, on
  every further call, how the stream ended: the end of file exactly when the status is zero,
  otherwise the error.\<close>
theorem server_stream_messages:
  assumes "ServerStream N Wq isURL doer deadline md fullMethod reqMsg mods = Inr s"
    and "list_all (msg_ok W) ms" and "wire_laws W" and "is_message W"
    and "Body (sr_resp s) = concat (map (frame_of W) ms)"
  shows "fst (recv_stream_many N W (length ms + k) s) =
      map (\<lambda>cm. Inr (snd cm)) ms @ replicate k (Inl (stream_end N (sr_resp s))) \<and>
    (validateResponseTrailers N (sr_resp s) = None \<longrightarrow> stream_end N (sr_resp s) = GEOF) \<and>
    (\<forall>e. validateResponseTrailers N (sr_resp s) = Some e \<longrightarrow> stream_end N (sr_resp s) = e)"
proof -
  have "sr_stream s = Body (sr_resp s)" using assms(1) by (auto simp: ServerStream_def split: sum.splits)
  with assms(5) have "sr_stream s = concat (map (frame_of W) ms)" by simp
  from recv_stream_messages [OF assms(2-4) this] show ?thesis by (simp add: stream_end_def)
qed

definition sample_names :: names where
  "sample_names =
    \<lparr>ContentType = ''Content-Type'', GRPCStatus = ''Grpc-Status'', GRPCTimeout = ''grpc-timeout'',
     GRPCAcceptEncoding = ''grpc-accept-encoding'', Accept = ''Accept'', TE = ''te'', UserAgent = ''user-agent'',
     MIMEApplicationGRPC = ''application/grpc'', MIMEApplicationProtobuf = ''application/protobuf'',
     MIMEApplicationGRPCWebProto = ''application/grpc-web+proto'', ValueTrailers = ''trailers'', ValueGzip = ''gzip'',
     ValueIdentity = ''identity''\<rparr>"

definition sample_response :: "bytes \<Rightarrow> response" where
  "sample_response body =
    \<lparr>StatusCode = 200, Status = ''200 OK'', r_Header = [], r_Trailer = [(''Grpc-Status'', [''0''])], Body = body,
     DrainError = False\<rparr>"

lemma sample_trailers: "validateResponseTrailers sample_names (sample_response body) = None"
proof -
  have "CanonicalMIMEHeaderKey ''Grpc-Status'' = ''Grpc-Status''" by code_simp
  then show ?thesis
    by (simp add: trailers_accepted_iff sample_response_def sample_names_def getHeaderCaseInsensitive_def Header_Get_def
        del: EqualFold.simps)
qed

lemma sample_headers: "validateInitialHeaders sample_names (sample_response body) = None"
  by (simp add: headers_accepted_iff sample_response_def Header_Get_def)

theorem server_stream_messages_witness:
  "fst (recv_stream_many sample_names plain_wire (Suc (Suc (Suc 0)))
     \<lparr>sr_stream = concat (map (frame_of plain_wire) [(False, ''a''), (True, ''b'')]),
      sr_resp = sample_response (concat (map (frame_of plain_wire) [(False, ''a''), (True, ''b'')])), sr_bodyClosed = False\<rparr>) =
   [Inr ''a'', Inr ''b'', Inl GEOF]"
proof -
  let ?body = "concat (map (frame_of plain_wire) [(False, ''a''), (True, ''b'')])"
  let ?s = "\<lparr>sr_stream = ?body, sr_resp = sample_response ?body, sr_bodyClosed = False\<rparr>"
  let ?doer = "\<lambda>m p ms. Inr (sample_response ?body) :: nat + response"
  have "ServerStream sample_names plain_wire (\<lambda>p. False) (?doer :: unit doer) None None ''/s/m'' None [] = Inr ?s"
    by (simp add: ServerStream_def request_def MarshalFrame_def sample_headers) (simp add: sample_response_def)
  moreover have "list_all (msg_ok plain_wire) [(False, ''a''), (True, ''b'')]"
    using plain_wire_laws by (simp add: msg_ok_def plain_wire_def)
  moreover have "is_message plain_wire" by (simp add: plain_wire_def)
  moreover have "Body (sr_resp ?s) = ?body" by (simp add: sample_response_def)
  ultimately show ?thesis
    using server_stream_messages [of sample_names plain_wire "\<lambda>p. False" "?doer :: unit doer" None None "''/s/m''" None "[]"
        ?s plain_wire "[(False, ''a''), (True, ''b'')]" "Suc 0"] plain_wire_laws sample_trailers [of ?body]
    by simp
qed

text \<open>C27: a bidirectional stream.  For every sequence of sends, receives and closing operations the peer reads
  back exactly the messages of the sends before the first closing operation, in order, and
  nothing after.\<close>
theorem bidi_sends_arrive:
  assumes "list_all (sends_fine Wq) xs" and "bidi_run N Wq W xs newBidi = (rs, s)"
    and "ms = sends (takeWhile (\<lambda>x. \<not> closing x) xs)" and "list_all (\<lambda>m. msg_ok Wq (False, m)) ms"
  shows "read_many (read_msg Wq) (length ms) (b_sent s) = Inr (map (Pair False) ms, [])"
proof -
  have "bidi_inv newBidi" "\<not> b_closedSend newBidi" "b_pipe newBidi = PipeOpen" "b_sent newBidi = []"
    by (simp_all add: newBidi_def bidi_inv_def)
  from run_sent [OF this(1-3) assms(1), of N W]
  have "b_sent s = concat (map (frame_of Wq) (map (Pair False) ms))"
    using assms(2,3) \<open>b_sent newBidi = []\<close> by (simp add: comp_def)
  moreover have "list_all (msg_ok Wq) (map (Pair False) ms)" using assms(4) by (simp add: list_all_iff)
  ultimately show ?thesis
    using grpc_frames.read_many_written [of Wq "map (Pair False) ms" "[]"] by simp
qed

theorem bidi_sends_arrive_witness:
  "read_many (read_msg plain_wire) (Suc 0)
     (b_sent (snd (bidi_run sample_names plain_wire plain_wire
        [OpSend None (Inl 0) (Some ''a''), OpCloseSend, OpSend None (Inl 0) (Some ''b'')] newBidi))) =
   Inr ([(False, ''a'')], [])"
proof -
  let ?xs = "[OpSend None (Inl 0) (Some ''a''), OpCloseSend, OpSend None (Inl 0) (Some ''b'')]"
  have ok: "msg_ok plain_wire (False, ''a'')" "msg_ok plain_wire (False, ''b'')"
    using plain_wire_laws by (simp_all add: msg_ok_def plain_wire_def)
  then have "list_all (sends_fine plain_wire) ?xs" by simp
  from bidi_sends_arrive [OF this prod.collapse [symmetric], of "[''a'']" sample_names plain_wire] ok
  show ?thesis by simp
qed

text \<open>The timeout header.  A positive duration is written as a positive number of at most eight digits, as
  the protocol requires, and a unit; below an hour the number is the duration in that unit
  rounded down, from an hour on it is within one of it.\<close>
theorem timeout_header:
  assumes "0 < d" and "d < 2 ^ 63"
  shows "\<exists>v c u. formatGRPCTimeout d = format_nat v @ [c] \<and>
    (c, u) \<in> {(CHR ''n'', 1), (CHR ''u'', Microsecond), (CHR ''m'', Millisecond), (CHR ''S'', Second), (CHR ''M'', Minute),
              (CHR ''H'', Hour)} \<and>
    1 \<le> v \<and> v < 10 ^ 8 \<and> nat d div u \<le> v \<and> v \<le> nat d div u + 1 \<and> (nat d < Hour \<longrightarrow> v = nat d div u)"
proof -
  define n where "n = nat d"
  have n: "0 < n" "n < 2 ^ 63" using assms by (simp_all add: n_def nat_less_iff)
  have b: "k * u \<le> n \<Longrightarrow> 0 < u \<Longrightarrow> k \<le> n div u" "n < k * u \<Longrightarrow> 0 < u \<Longrightarrow> n div u < k" for k u
    by (simp_all add: less_eq_div_iff_mult_less_eq div_less_iff_less_mult)
  consider "n < Microsecond" | "Microsecond \<le> n" "n < Millisecond" | "Millisecond \<le> n" "n < Second"
    | "Second \<le> n" "n < Minute" | "Minute \<le> n" "n < Hour" | "Hour \<le> n" by linarith
  then show ?thesis
  proof cases
    case 1
    then show ?thesis using n assms(1)
      by (intro exI [of _ n] exI [of _ "CHR ''n''"] exI [of _ 1])
         (simp add: formatGRPCTimeout_def Let_def n_def [symmetric] FormatInt_def)
  next
    case 2
    then show ?thesis using n assms(1) b(1) [of 1 Microsecond] b(2) [of 1000 Microsecond]
      by (intro exI [of _ "n div Microsecond"] exI [of _ "CHR ''u''"] exI [of _ Microsecond])
         (simp add: formatGRPCTimeout_def Let_def n_def [symmetric] FormatInt_def)
  next
    case 3
    then show ?thesis using n assms(1) b(1) [of 1 Millisecond] b(2) [of 1000 Millisecond]
      by (intro exI [of _ "n div Millisecond"] exI [of _ "CHR ''m''"] exI [of _ Millisecond])
         (simp add: formatGRPCTimeout_def Let_def n_def [symmetric] FormatInt_def)
  next
    case 4
    then have "n div Second < 60" using b(2) [of 60 Second] by simp
    then show ?thesis using 4 n assms(1) b(1) [of 1 Second] whole_units_exact [of Second n]
      by (intro exI [of _ "n div Second"] exI [of _ "CHR ''S''"] exI [of _ Second])
         (simp add: formatGRPCTimeout_def Let_def n_def [symmetric] FormatInt_def)
  next
    case 5
    then have "n div Minute < 60" using b(2) [of 60 Minute] by simp
    then show ?thesis using 5 n assms(1) b(1) [of 1 Minute] whole_units_exact [of Minute n]
      by (intro exI [of _ "n div Minute"] exI [of _ "CHR ''M''"] exI [of _ Minute])
         (simp add: formatGRPCTimeout_def Let_def n_def [symmetric] FormatInt_def)
  next
    case 6
    have "n div Hour < 2562048" using n b(2) [of 2562048 Hour] by simp
    then show ?thesis using 6 n assms(1) b(1) [of 1 Hour] whole_units_within [of Hour n]
      by (intro exI [of _ "whole_units Hour n"] exI [of _ "CHR ''H''"] exI [of _ Hour])
         (simp add: formatGRPCTimeout_def Let_def n_def [symmetric] FormatInt_def)
  qed
qed

theorem timeout_header_witness:
  "\<exists>v c u. formatGRPCTimeout 1500000000 = format_nat v @ [c] \<and> 1 \<le> v \<and> v < 10 ^ 8 \<and> nat 1500000000 div u \<le> v"
  using timeout_header [of 1500000000] by auto

end
