(* ===== verification/Go_Big.thy ===== *)
theory Go_Big
  imports Prelude
begin

text \<open>
  What the repository uses of Go's packages \<^verbatim>\<open>crypto/elliptic\<close> (the names of the curves) and \<^verbatim>\<open>math/big\<close>:
  natural numbers as big-endian bytes, of a fixed length or without leading zeros.
\<close>

datatype curve = P256 | P384 | OtherCurve

text \<open>\<^verbatim>\<open>big.Int.FillBytes\<close> (a number that does not fit panics) and \<^verbatim>\<open>SetBytes\<close>.\<close>

fun big_bytes :: "nat \<Rightarrow> nat \<Rightarrow> bytes" where
  "big_bytes 0 v = []"
| "big_bytes (Suc k) v = byte_of (v div 256 ^ k) # big_bytes k v"

definition FillBytes :: "nat \<Rightarrow> nat \<Rightarrow> bytes option" where
  "FillBytes k v = (if v < 256 ^ k then Some (big_bytes k v) else None)"

definition SetBytes :: "bytes \<Rightarrow> nat" where
  "SetBytes b = foldl (\<lambda>a c. a * 256 + byte_val c) 0 b"

text \<open>\<^verbatim>\<open>big.Int.Bytes\<close>: the absolute value, without leading zero bytes.\<close>

fun Big_Bytes :: "nat \<Rightarrow> bytes" where
  "Big_Bytes n = (if n = 0 then [] else Big_Bytes (n div 256) @ [byte_of (n mod 256)])"

declare Big_Bytes.simps [simp del]

lemma length_big_bytes [simp]: "length (big_bytes k v) = k"
  by (induction k) simp_all

lemma foldl_big_bytes:
  "foldl (\<lambda>a c. a * 256 + byte_val c) a (big_bytes k v) = a * 256 ^ k + v mod 256 ^ k"
proof (induction k arbitrary: a)
  case (Suc k)
  have "v mod 256 ^ Suc k = v div 256 ^ k mod 256 * 256 ^ k + v mod 256 ^ k"
    using mod_mult2_eq [of v "256 ^ k" 256] by (simp add: mult.commute)
  with Suc show ?case by (simp add: algebra_simps)
qed simp

lemma SetBytes_FillBytes: "FillBytes k v = Some b \<Longrightarrow> SetBytes b = v \<and> length b = k"
  by (auto simp: FillBytes_def SetBytes_def foldl_big_bytes split: if_splits)

lemma SetBytes_append: "SetBytes (b @ [c]) = SetBytes b * 256 + byte_val c"
  by (simp add: SetBytes_def)

lemma SetBytes_Big_Bytes [simp]: "SetBytes (Big_Bytes n) = n"
proof (induction n rule: Big_Bytes.induct)
  case (1 n)
  show ?case
  proof (cases "n = 0")
    case True
    then show ?thesis by (simp add: Big_Bytes.simps [of 0] SetBytes_def)
  next
    case False
    then show ?thesis using 1 by (subst Big_Bytes.simps) (simp add: SetBytes_append)
  qed
qed

lemma Big_Bytes_not_Nil: "n > 0 \<Longrightarrow> Big_Bytes n \<noteq> []"
  by (subst Big_Bytes.simps) simp

lemma SetBytes_inject: "length a = length b \<Longrightarrow> SetBytes a = SetBytes b \<Longrightarrow> a = b"
proof (induction a arbitrary: b rule: rev_induct)
  case (snoc x a)
  then obtain c y where b: "b = c @ [y]" "length a = length c" by (cases b rule: rev_cases) auto
  with snoc have e: "SetBytes a * 256 + byte_val x = SetBytes c * 256 + byte_val y" by (simp add: SetBytes_append)
  have "byte_val x = byte_val y" using arg_cong [OF e, of "\<lambda>n. n mod 256"] by simp
  moreover from this e have "SetBytes a = SetBytes c" by simp
  ultimately show ?case using snoc.IH [OF b(2)] b(1) byte_val_inject by simp
qed simp

end
