(* ===== verification/HS_Alg.thy ===== *)
theory HS_Alg
  imports Go_Strconv Go_Big
begin

text \<open>
  Package \<^verbatim>\<open>httpsig\<close>, files \<^verbatim>\<open>src/auth/httpsig/algorithms.go\<close> and the types of \<^verbatim>\<open>types.go\<close>: the six
  signature algorithms behind the interfaces \<^verbatim>\<open>Signer\<close> and \<^verbatim>\<open>Verifier\<close>.  The primitives of
  Go's \<^verbatim>\<open>crypto\<close> packages are the record \<open>crypto\<close>; the randomness of a signature is an
  argument; \<open>crypto_laws\<close> says that what a primitive signs it also verifies.  A result
  of \<open>None\<close> is a panic.
\<close>

section \<open>types.go\<close>

datatype hs_error =
    ErrInvalidSignature
  | ErrSignatureExpired
  | ErrSignatureTooOld
  | ErrSignatureInFuture
  | ErrMissingComponent
  | ErrUnsupportedAlgorithm
  | ErrMissingSignature
  | ErrLabelMismatch
  | ErrKeyMismatch
  | ErrDuplicateComponent
  | ErrInvalidStructuredField
  | ErrDigestMismatch
  | ErrEmptyDigest
  | ErrEmptySecret
  | ErrNilContext
  | ErrNilSigner
  | ErrNilVerifier
  | ErrNilMessage
  | ErrSignFailed

type_synonym Algorithm = bytes

abbreviation AlgRSAPSSSHA512 :: Algorithm where "AlgRSAPSSSHA512 \<equiv> ''rsa-pss-sha512''"
abbreviation AlgRSAPKCS1v15SHA256 :: Algorithm where "AlgRSAPKCS1v15SHA256 \<equiv> ''rsa-v1_5-sha256''"
abbreviation AlgHMACSHA256 :: Algorithm where "AlgHMACSHA256 \<equiv> ''hmac-sha256''"
abbreviation AlgECDSAP256SHA256 :: Algorithm where "AlgECDSAP256SHA256 \<equiv> ''ecdsa-p256-sha256''"
abbreviation AlgECDSAP384SHA384 :: Algorithm where "AlgECDSAP384SHA384 \<equiv> ''ecdsa-p384-sha384''"
abbreviation AlgEd25519 :: Algorithm where "AlgEd25519 \<equiv> ''ed25519''"

section \<open>The primitives\<close>

text \<open>Elliptic-curve and RSA keys are numbers; \<open>ed_pub\<close>, \<open>ec_pub\<close> and \<open>rsa_pub\<close> give the public key of a private one.\<close>

record crypto =
  hmac256 :: "bytes \<Rightarrow> bytes \<Rightarrow> bytes"
  sha256 :: "bytes \<Rightarrow> bytes"
  sha384 :: "bytes \<Rightarrow> bytes"
  sha512 :: "bytes \<Rightarrow> bytes"
  ed_pub :: "bytes \<Rightarrow> bytes"
  ed_sign :: "bytes \<Rightarrow> bytes \<Rightarrow> bytes"
  ed_verify :: "bytes \<Rightarrow> bytes \<Rightarrow> bytes \<Rightarrow> bool"
  ec_pub :: "nat \<Rightarrow> nat"
  ec_sign :: "nat \<Rightarrow> nat \<Rightarrow> bytes \<Rightarrow> (nat \<times> nat) option"
  ec_verify :: "nat \<Rightarrow> bytes \<Rightarrow> nat \<Rightarrow> nat \<Rightarrow> bool"
  rsa_pub :: "nat \<Rightarrow> nat"
  pss_sign :: "nat \<Rightarrow> nat \<Rightarrow> bytes \<Rightarrow> bytes option"
  pss_verify :: "nat \<Rightarrow> bytes \<Rightarrow> bytes \<Rightarrow> bool"
  pkcs_sign :: "nat \<Rightarrow> nat \<Rightarrow> bytes \<Rightarrow> bytes option"
  pkcs_verify :: "nat \<Rightarrow> bytes \<Rightarrow> bytes \<Rightarrow> bool"

section \<open>Signers\<close>

datatype signer =
    HmacSigner bytes bytes
  | Ed25519Signer bytes bytes
  | EcdsaSigner bytes Algorithm nat
  | RsaSigner bytes Algorithm nat

fun Signer_Algorithm :: "signer \<Rightarrow> Algorithm" where
  "Signer_Algorithm (HmacSigner keyID secret) = AlgHMACSHA256"
| "Signer_Algorithm (Ed25519Signer keyID priv) = AlgEd25519"
| "Signer_Algorithm (EcdsaSigner keyID alg priv) = alg"
| "Signer_Algorithm (RsaSigner keyID alg priv) = alg"

fun Signer_KeyID :: "signer \<Rightarrow> bytes" where
  "Signer_KeyID (HmacSigner keyID secret) = keyID"
| "Signer_KeyID (Ed25519Signer keyID priv) = keyID"
| "Signer_KeyID (EcdsaSigner keyID alg priv) = keyID"
| "Signer_KeyID (RsaSigner keyID alg priv) = keyID"

definition ecdsa_digest :: "crypto \<Rightarrow> Algorithm \<Rightarrow> bytes \<Rightarrow> bytes \<times> nat" where
  "ecdsa_digest C alg base =
    (if alg = AlgECDSAP256SHA256 then (sha256 C base, 32)
     else if alg = AlgECDSAP384SHA384 then (sha384 C base, 48)
     else ([], 0))"

definition ecdsa_Sign :: "crypto \<Rightarrow> nat \<Rightarrow> Algorithm \<Rightarrow> nat \<Rightarrow> bytes \<Rightarrow> (hs_error + bytes) option" where
  "ecdsa_Sign C rnd alg priv base =
    (let (digest, octetLen) = ecdsa_digest C alg base
     in case ec_sign C rnd priv digest of
          None \<Rightarrow> Some (Inl ErrSignFailed)
        | Some (r, s) \<Rightarrow>
            (case (FillBytes octetLen r, FillBytes octetLen s) of
               (Some rb, Some sb) \<Rightarrow> Some (Inr (rb @ sb))
             | _ \<Rightarrow> None))"

definition rsa_Sign :: "crypto \<Rightarrow> nat \<Rightarrow> Algorithm \<Rightarrow> nat \<Rightarrow> bytes \<Rightarrow> (hs_error + bytes) option" where
  "rsa_Sign C rnd alg priv base =
    Some (if alg = AlgRSAPSSSHA512 then
            (case pss_sign C rnd priv (sha512 C base) of None \<Rightarrow> Inl ErrSignFailed | Some sig \<Rightarrow> Inr sig)
          else if alg = AlgRSAPKCS1v15SHA256 then
            (case pkcs_sign C rnd priv (sha256 C base) of None \<Rightarrow> Inl ErrSignFailed | Some sig \<Rightarrow> Inr sig)
          else Inl ErrUnsupportedAlgorithm)"

fun Signer_Sign :: "crypto \<Rightarrow> nat \<Rightarrow> signer \<Rightarrow> bytes \<Rightarrow> (hs_error + bytes) option" where
  "Signer_Sign C rnd (HmacSigner keyID secret) base = Some (Inr (hmac256 C secret base))"
| "Signer_Sign C rnd (Ed25519Signer keyID priv) base = Some (Inr (ed_sign C priv base))"
| "Signer_Sign C rnd (EcdsaSigner keyID alg priv) base = ecdsa_Sign C rnd alg priv base"
| "Signer_Sign C rnd (RsaSigner keyID alg priv) base = rsa_Sign C rnd alg priv base"

section \<open>Verifiers\<close>

datatype verifier =
    HmacVerifier bytes bytes
  | Ed25519Verifier bytes bytes
  | EcdsaVerifier bytes Algorithm nat
  | RsaVerifier bytes Algorithm nat

fun Verifier_Algorithm :: "verifier \<Rightarrow> Algorithm" where
  "Verifier_Algorithm (HmacVerifier keyID secret) = AlgHMACSHA256"
| "Verifier_Algorithm (Ed25519Verifier keyID pub) = AlgEd25519"
| "Verifier_Algorithm (EcdsaVerifier keyID alg pub) = alg"
| "Verifier_Algorithm (RsaVerifier keyID alg pub) = alg"

fun Verifier_KeyID :: "verifier \<Rightarrow> bytes" where
  "Verifier_KeyID (HmacVerifier keyID secret) = keyID"
| "Verifier_KeyID (Ed25519Verifier keyID pub) = keyID"
| "Verifier_KeyID (EcdsaVerifier keyID alg pub) = keyID"
| "Verifier_KeyID (RsaVerifier keyID alg pub) = keyID"

definition hmac_Verify :: "crypto \<Rightarrow> bytes \<Rightarrow> bytes \<Rightarrow> bytes \<Rightarrow> hs_error option" where
  "hmac_Verify C secret base sig = (if hmac256 C secret base \<noteq> sig then Some ErrInvalidSignature else None)"

definition ed25519_Verify :: "crypto \<Rightarrow> bytes \<Rightarrow> bytes \<Rightarrow> bytes \<Rightarrow> hs_error option" where
  "ed25519_Verify C pub base sig =
    (if length sig \<noteq> 64 then Some ErrInvalidSignature
     else if \<not> ed_verify C pub base sig then Some ErrInvalidSignature
     else None)"

definition ecdsa_Verify :: "crypto \<Rightarrow> Algorithm \<Rightarrow> nat \<Rightarrow> bytes \<Rightarrow> bytes \<Rightarrow> hs_error option" where
  "ecdsa_Verify C alg pub base sig =
    (let (digest, octetLen) = ecdsa_digest C alg base
     in if octetLen \<noteq> 0 \<and> length sig \<noteq> octetLen * 2 then Some ErrInvalidSignature
        else if \<not> ec_verify C pub digest (SetBytes (take octetLen sig)) (SetBytes (drop octetLen sig))
        then Some ErrInvalidSignature
        else None)"

definition rsa_Verify :: "crypto \<Rightarrow> Algorithm \<Rightarrow> nat \<Rightarrow> bytes \<Rightarrow> bytes \<Rightarrow> hs_error option" where
  "rsa_Verify C alg pub base sig =
    (if alg = AlgRSAPSSSHA512 then
       (if \<not> pss_verify C pub (sha512 C base) sig then Some ErrInvalidSignature else None)
     else if alg = AlgRSAPKCS1v15SHA256 then
       (if \<not> pkcs_verify C pub (sha256 C base) sig then Some ErrInvalidSignature else None)
     else Some ErrUnsupportedAlgorithm)"

fun Verifier_Verify :: "crypto \<Rightarrow> verifier \<Rightarrow> bytes \<Rightarrow> bytes \<Rightarrow> hs_error option" where
  "Verifier_Verify C (HmacVerifier keyID secret) base sig = hmac_Verify C secret base sig"
| "Verifier_Verify C (Ed25519Verifier keyID pub) base sig = ed25519_Verify C pub base sig"
| "Verifier_Verify C (EcdsaVerifier keyID alg pub) base sig = ecdsa_Verify C alg pub base sig"
| "Verifier_Verify C (RsaVerifier keyID alg pub) base sig = rsa_Verify C alg pub base sig"

section \<open>Constructors\<close>

definition NewHMACSigner :: "bytes \<Rightarrow> bytes \<Rightarrow> hs_error + signer" where
  "NewHMACSigner keyID secret = (if length secret = 0 then Inl ErrEmptySecret else Inr (HmacSigner keyID secret))"

definition NewHMACVerifier :: "bytes \<Rightarrow> bytes \<Rightarrow> hs_error + verifier" where
  "NewHMACVerifier keyID secret = (if length secret = 0 then Inl ErrEmptySecret else Inr (HmacVerifier keyID secret))"

definition NewEd25519Signer :: "bytes \<Rightarrow> bytes \<Rightarrow> hs_error + signer" where
  "NewEd25519Signer keyID priv = (if length priv \<noteq> 64 then Inl ErrKeyMismatch else Inr (Ed25519Signer keyID priv))"

definition NewEd25519Verifier :: "bytes \<Rightarrow> bytes \<Rightarrow> hs_error + verifier" where
  "NewEd25519Verifier keyID pub = (if length pub \<noteq> 32 then Inl ErrKeyMismatch else Inr (Ed25519Verifier keyID pub))"

definition NewECDSASigner :: "bytes \<Rightarrow> Algorithm \<Rightarrow> (curve \<times> nat) option \<Rightarrow> hs_error + signer" where
  "NewECDSASigner keyID alg priv =
    (case priv of
       None \<Rightarrow> Inl ErrKeyMismatch
     | Some (crv, k) \<Rightarrow>
         if alg = AlgECDSAP256SHA256 then (if crv \<noteq> P256 then Inl ErrKeyMismatch else Inr (EcdsaSigner keyID alg k))
         else if alg = AlgECDSAP384SHA384 then (if crv \<noteq> P384 then Inl ErrKeyMismatch else Inr (EcdsaSigner keyID alg k))
         else Inl ErrUnsupportedAlgorithm)"

definition NewECDSAVerifier :: "bytes \<Rightarrow> Algorithm \<Rightarrow> (curve \<times> nat) option \<Rightarrow> hs_error + verifier" where
  "NewECDSAVerifier keyID alg pub =
    (case pub of
       None \<Rightarrow> Inl ErrKeyMismatch
     | Some (crv, k) \<Rightarrow>
         if alg = AlgECDSAP256SHA256 then (if crv \<noteq> P256 then Inl ErrKeyMismatch else Inr (EcdsaVerifier keyID alg k))
         else if alg = AlgECDSAP384SHA384 then (if crv \<noteq> P384 then Inl ErrKeyMismatch else Inr (EcdsaVerifier keyID alg k))
         else Inl ErrUnsupportedAlgorithm)"

definition NewRSASigner :: "bytes \<Rightarrow> Algorithm \<Rightarrow> nat option \<Rightarrow> hs_error + signer" where
  "NewRSASigner keyID alg priv =
    (case priv of
       None \<Rightarrow> Inl ErrKeyMismatch
     | Some k \<Rightarrow>
         if alg \<noteq> AlgRSAPSSSHA512 \<and> alg \<noteq> AlgRSAPKCS1v15SHA256 then Inl ErrUnsupportedAlgorithm
         else Inr (RsaSigner keyID alg k))"

definition NewRSAVerifier :: "bytes \<Rightarrow> Algorithm \<Rightarrow> nat option \<Rightarrow> hs_error + verifier" where
  "NewRSAVerifier keyID alg pub =
    (case pub of
       None \<Rightarrow> Inl ErrKeyMismatch
     | Some k \<Rightarrow>
         if alg \<noteq> AlgRSAPSSSHA512 \<and> alg \<noteq> AlgRSAPKCS1v15SHA256 then Inl ErrUnsupportedAlgorithm
         else Inr (RsaVerifier keyID alg k))"

text \<open>
  The keys the factories accept, private or public; an ECDSA or RSA key is a pointer,
  which may be nil.  Reading the curve through a nil pointer panics.
\<close>

datatype key =
    NilKey
  | Ed25519Key bytes
  | EcdsaKey "(curve \<times> nat) option"
  | RsaKey "nat option"
  | SecretBytes bytes
  | SecretString bytes
  | OtherKey

definition chosen_alg :: "Algorithm list \<Rightarrow> Algorithm" where
  "chosen_alg alg = (if length alg > 0 \<and> alg ! 0 \<noteq> [] then alg ! 0 else [])"

definition curve_alg :: "Algorithm \<Rightarrow> (curve \<times> nat) option \<Rightarrow> (hs_error + Algorithm) option" where
  "curve_alg chosen k =
    (if chosen \<noteq> [] then Some (Inr chosen)
     else case k of
            None \<Rightarrow> None
          | Some (P256, n) \<Rightarrow> Some (Inr AlgECDSAP256SHA256)
          | Some (P384, n) \<Rightarrow> Some (Inr AlgECDSAP384SHA384)
          | Some (OtherCurve, n) \<Rightarrow> Some (Inl ErrUnsupportedAlgorithm))"

definition NewSignerFromKey :: "bytes \<Rightarrow> key \<Rightarrow> Algorithm list \<Rightarrow> (hs_error + signer) option" where
  "NewSignerFromKey keyID k alg =
    (case k of
       NilKey \<Rightarrow> Some (Inl ErrKeyMismatch)
     | Ed25519Key priv \<Rightarrow> Some (NewEd25519Signer keyID priv)
     | EcdsaKey p \<Rightarrow>
         map_option (\<lambda>r. case r of Inl err \<Rightarrow> Inl err | Inr a \<Rightarrow> NewECDSASigner keyID a p) (curve_alg (chosen_alg alg) p)
     | RsaKey p \<Rightarrow>
         Some (NewRSASigner keyID (if chosen_alg alg = [] then AlgRSAPSSSHA512 else chosen_alg alg) p)
     | SecretBytes b \<Rightarrow> Some (NewHMACSigner keyID b)
     | SecretString b \<Rightarrow> Some (NewHMACSigner keyID b)
     | OtherKey \<Rightarrow> Some (Inl ErrKeyMismatch))"

definition NewVerifierFromKey :: "bytes \<Rightarrow> key \<Rightarrow> Algorithm list \<Rightarrow> (hs_error + verifier) option" where
  "NewVerifierFromKey keyID k alg =
    (case k of
       NilKey \<Rightarrow> Some (Inl ErrKeyMismatch)
     | Ed25519Key pub \<Rightarrow> Some (NewEd25519Verifier keyID pub)
     | EcdsaKey p \<Rightarrow>
         map_option (\<lambda>r. case r of Inl err \<Rightarrow> Inl err | Inr a \<Rightarrow> NewECDSAVerifier keyID a p) (curve_alg (chosen_alg alg) p)
     | RsaKey p \<Rightarrow>
         Some (NewRSAVerifier keyID (if chosen_alg alg = [] then AlgRSAPSSSHA512 else chosen_alg alg) p)
     | SecretBytes b \<Rightarrow> Some (NewHMACVerifier keyID b)
     | SecretString b \<Rightarrow> Some (NewHMACVerifier keyID b)
     | OtherKey \<Rightarrow> Some (Inl ErrKeyMismatch))"

section \<open>What the primitives promise\<close>

definition crypto_laws :: "crypto \<Rightarrow> bool" where
  "crypto_laws C \<longleftrightarrow>
    (\<forall>k m. length (ed_sign C k m) = 64 \<and> ed_verify C (ed_pub C k) m (ed_sign C k m)) \<and>
    (\<forall>rnd k m r s. ec_sign C rnd k m = Some (r, s) \<longrightarrow> ec_verify C (ec_pub C k) m r s) \<and>
    (\<forall>rnd k m sig. pss_sign C rnd k m = Some sig \<longrightarrow> pss_verify C (rsa_pub C k) m sig) \<and>
    (\<forall>rnd k m sig. pkcs_sign C rnd k m = Some sig \<longrightarrow> pkcs_verify C (rsa_pub C k) m sig)"

lemma crypto_lawsD:
  assumes "crypto_laws C"
  shows "length (ed_sign C e m) = 64" and "ed_verify C (ed_pub C e) m (ed_sign C e m)"
    and "ec_sign C rnd k m = Some (r, s) \<Longrightarrow> ec_verify C (ec_pub C k) m r s"
    and "pss_sign C rnd k m = Some sig \<Longrightarrow> pss_verify C (rsa_pub C k) m sig"
    and "pkcs_sign C rnd k m = Some sig \<Longrightarrow> pkcs_verify C (rsa_pub C k) m sig"
  using assms unfolding crypto_laws_def by (simp_all only: simp_thms)

text \<open>The interface of the two sides: what is signed is accepted.\<close>

locale signature_scheme =
  fixes ok :: bool and sign :: "nat \<Rightarrow> bytes \<Rightarrow> (hs_error + bytes) option"
    and verify :: "bytes \<Rightarrow> bytes \<Rightarrow> hs_error option"
  assumes signed_verifies: "ok \<Longrightarrow> sign rnd base = Some (Inr sig) \<Longrightarrow> verify base sig = None"
begin

lemma rejected_not_signed: "ok \<Longrightarrow> verify base sig = Some e \<Longrightarrow> sign rnd base \<noteq> Some (Inr sig)"
  using signed_verifies by fastforce

end

interpretation hmac_scheme: signature_scheme True "\<lambda>rnd. Signer_Sign C rnd (HmacSigner i s)"
  "Verifier_Verify C (HmacVerifier j s)" for C i j s
  by unfold_locales (auto simp: hmac_Verify_def)

interpretation ed25519_scheme: signature_scheme "crypto_laws C" "\<lambda>rnd. Signer_Sign C rnd (Ed25519Signer i k)"
  "Verifier_Verify C (Ed25519Verifier j (ed_pub C k))" for C i j k
  by unfold_locales (auto simp: ed25519_Verify_def crypto_lawsD)

interpretation ecdsa_scheme: signature_scheme "crypto_laws C" "\<lambda>rnd. Signer_Sign C rnd (EcdsaSigner i a k)"
  "Verifier_Verify C (EcdsaVerifier j a (ec_pub C k))" for C i j a k
proof
  fix rnd base sig
  assume C: "crypto_laws C" and s: "Signer_Sign C rnd (EcdsaSigner i a k) base = Some (Inr sig)"
  obtain digest n where d: "ecdsa_digest C a base = (digest, n)" by fastforce
  obtain r s' rb sb where "ec_sign C rnd k digest = Some (r, s')" "FillBytes n r = Some rb" "FillBytes n s' = Some sb"
    "sig = rb @ sb"
    using s d by (auto simp: ecdsa_Sign_def split: option.splits)
  then show "Verifier_Verify C (EcdsaVerifier j a (ec_pub C k)) base sig = None"
    using d crypto_lawsD(3) [OF C] SetBytes_FillBytes [of n r rb] SetBytes_FillBytes [of n s' sb]
    by (simp add: ecdsa_Verify_def)
qed

interpretation rsa_scheme: signature_scheme "crypto_laws C" "\<lambda>rnd. Signer_Sign C rnd (RsaSigner i a k)"
  "Verifier_Verify C (RsaVerifier j a (rsa_pub C k))" for C i j a k
  by unfold_locales
     (auto simp: rsa_Sign_def rsa_Verify_def crypto_lawsD split: if_splits option.splits)

text \<open>Which verifier belongs to which signer.\<close>

fun counterpart :: "crypto \<Rightarrow> signer \<Rightarrow> bytes \<Rightarrow> verifier" where
  "counterpart C (HmacSigner i s) j = HmacVerifier j s"
| "counterpart C (Ed25519Signer i k) j = Ed25519Verifier j (ed_pub C k)"
| "counterpart C (EcdsaSigner i a k) j = EcdsaVerifier j a (ec_pub C k)"
| "counterpart C (RsaSigner i a k) j = RsaVerifier j a (rsa_pub C k)"

interpretation any_scheme: signature_scheme "crypto_laws C" "\<lambda>rnd. Signer_Sign C rnd sg"
  "Verifier_Verify C (counterpart C sg j)" for C sg j
proof
  fix rnd base sig
  assume a: "crypto_laws C" and b: "Signer_Sign C rnd sg base = Some (Inr sig)"
  show "Verifier_Verify C (counterpart C sg j) base sig = None"
  proof (cases sg)
    case (HmacSigner i s)
    then show ?thesis using b hmac_scheme.signed_verifies [of C rnd i s base sig j] by simp
  next
    case (Ed25519Signer i k)
    then show ?thesis using b ed25519_scheme.signed_verifies [OF a, of rnd i k base sig j] by simp
  next
    case (EcdsaSigner i al k)
    then show ?thesis using b ecdsa_scheme.signed_verifies [OF a, of rnd i al k base sig j] by simp
  next
    case (RsaSigner i al k)
    then show ?thesis using b rsa_scheme.signed_verifies [OF a, of rnd i al k base sig j] by simp
  qed
qed

lemma counterpart_ids [simp]:
  "Verifier_Algorithm (counterpart C sg j) = Signer_Algorithm sg" "Verifier_KeyID (counterpart C sg j) = j"
  by (cases sg; simp)+

fun public_key :: "crypto \<Rightarrow> key \<Rightarrow> key" where
  "public_key C (Ed25519Key k) = Ed25519Key (ed_pub C k)"
| "public_key C (EcdsaKey p) = EcdsaKey (map_option (map_prod (\<lambda>c. c) (ec_pub C)) p)"
| "public_key C (RsaKey p) = RsaKey (map_option (rsa_pub C) p)"
| "public_key C k = k"

lemma ECDSA_counterpart:
  "NewECDSASigner i a p = Inr sg \<Longrightarrow>
    NewECDSAVerifier j a (map_option (map_prod (\<lambda>c. c) (ec_pub C)) p) = Inr (counterpart C sg j) \<and> Signer_KeyID sg = i"
  by (auto simp: NewECDSASigner_def NewECDSAVerifier_def split: option.splits if_splits)

lemma RSA_counterpart:
  "NewRSASigner i a p = Inr sg \<Longrightarrow>
    NewRSAVerifier j a (map_option (rsa_pub C) p) = Inr (counterpart C sg j) \<and> Signer_KeyID sg = i"
  by (auto simp: NewRSASigner_def NewRSAVerifier_def split: option.splits if_splits)

lemma curve_alg_public: "curve_alg a (map_option (map_prod (\<lambda>c. c) f) p) = curve_alg a p"
  by (auto simp: curve_alg_def split: option.splits curve.splits)

text \<open>A nil ECDSA key with no algorithm given is dereferenced before it is checked.\<close>

lemma nil_ecdsa_key_panics: "NewSignerFromKey i (EcdsaKey None) [] = None" "NewVerifierFromKey i (EcdsaKey None) [] = None"
  by (simp_all add: NewSignerFromKey_def NewVerifierFromKey_def curve_alg_def chosen_alg_def)

section \<open>Properties\<close>

text \<open>Matching keys work together.  For every kind of key and every choice of algorithm, if a signer can be
  made from the private key then a verifier can be made from the public key, for the same
  algorithm, and it accepts every signature of the signer; the fixed-width form of an ECDSA
  signature loses nothing.\<close>
theorem factories_interoperate:
  assumes "crypto_laws C" and "NewSignerFromKey i k alg = Some (Inr sg)" and "\<forall>b. length (ed_pub C b) = 32"
  shows "\<exists>vf. NewVerifierFromKey j (public_key C k) alg = Some (Inr vf) \<and>
    Verifier_Algorithm vf = Signer_Algorithm sg \<and> Signer_KeyID sg = i \<and> Verifier_KeyID vf = j \<and>
    (\<forall>rnd base sig. Signer_Sign C rnd sg base = Some (Inr sig) \<longrightarrow> Verifier_Verify C vf base sig = None)"
proof -
  have "NewVerifierFromKey j (public_key C k) alg = Some (Inr (counterpart C sg j)) \<and> Signer_KeyID sg = i"
  proof (cases k)
    case (EcdsaKey p)
    then obtain r where r: "curve_alg (chosen_alg alg) p = Some r"
      using assms(2) by (auto simp: NewSignerFromKey_def)
    then obtain a where "r = Inr a" "NewECDSASigner i a p = Inr sg"
      using assms(2) EcdsaKey by (cases r) (simp_all add: NewSignerFromKey_def)
    with r show ?thesis
      using EcdsaKey ECDSA_counterpart by (simp add: NewVerifierFromKey_def curve_alg_public)
  next
    case (RsaKey p)
    then show ?thesis
      using assms(2) RSA_counterpart [of i _ p sg j C] by (auto simp: NewSignerFromKey_def NewVerifierFromKey_def)
  qed (use assms(2,3) in \<open>auto simp: NewSignerFromKey_def NewVerifierFromKey_def NewEd25519Signer_def
      NewEd25519Verifier_def NewHMACSigner_def NewHMACVerifier_def split: if_splits\<close>)
  then show ?thesis using any_scheme.signed_verifies [OF assms(1)] by auto
qed

definition toy_crypto :: crypto where
  "toy_crypto =
    \<lparr>hmac256 = (\<lambda>k m. k @ m), sha256 = (\<lambda>m. m), sha384 = (\<lambda>m. m), sha512 = (\<lambda>m. m),
     ed_pub = (\<lambda>k. take 32 (k @ replicate 32 (byte_of 0))), ed_sign = (\<lambda>k m. replicate 64 (byte_of 0)),
     ed_verify = (\<lambda>p m s. length s = 64), ec_pub = Suc, ec_sign = (\<lambda>rnd k m. Some (k, length m)),
     ec_verify = (\<lambda>p m r s. Suc r = p \<and> s = length m), rsa_pub = Suc, pss_sign = (\<lambda>rnd k m. Some m),
     pss_verify = (\<lambda>p m s. s = m), pkcs_sign = (\<lambda>rnd k m. Some m), pkcs_verify = (\<lambda>p m s. s = m)\<rparr>"

lemma toy_crypto_laws: "crypto_laws toy_crypto"
  by (simp add: crypto_laws_def toy_crypto_def)

theorem factories_interoperate_witness:
  "\<exists>vf. NewVerifierFromKey ''k'' (EcdsaKey (Some (P256, Suc 7))) [] = Some (Inr vf) \<and>
    (\<forall>rnd base sig. Signer_Sign toy_crypto rnd (EcdsaSigner ''k'' AlgECDSAP256SHA256 7) base = Some (Inr sig) \<longrightarrow>
       Verifier_Verify toy_crypto vf base sig = None)"
proof -
  have s: "NewSignerFromKey ''k'' (EcdsaKey (Some (P256, 7))) [] = Some (Inr (EcdsaSigner ''k'' AlgECDSAP256SHA256 7))"
    by (simp add: NewSignerFromKey_def NewECDSASigner_def curve_alg_def chosen_alg_def)
  have p: "public_key toy_crypto (EcdsaKey (Some (P256, 7))) = EcdsaKey (Some (P256, Suc 7))"
    by (simp add: toy_crypto_def)
  have "\<forall>b. length (ed_pub toy_crypto b) = 32" by (simp add: toy_crypto_def min_def)
  from factories_interoperate [OF toy_crypto_laws s this, of "''k''"] show ?thesis unfolding p by blast
qed

end
