(* ===== verification/Go_Text.thy ===== *)
theory Go_Text
  imports Go_Http
begin

text \<open>
  More of Go's packages \<^verbatim>\<open>strings\<close>, \<^verbatim>\<open>net/url\<close> and \<^verbatim>\<open>net/http\<close>: splitting and joining, lower
  case, replacing, query strings, host and port, and setting header fields.  The
  lower and upper case and the case folding of text outside ASCII are the record \<open>unicode\<close>; what
  is proved holds for any such functions.
\<close>

section \<open>Splitting, joining, replacing\<close>

fun Split :: "char \<Rightarrow> bytes \<Rightarrow> bytes list" where
  "Split sep [] = [[]]"
| "Split sep (c # cs) =
    (if c = sep then [] # Split sep cs
     else case Split sep cs of p # ps \<Rightarrow> (c # p) # ps | [] \<Rightarrow> [[c]])"

fun Join :: "bytes \<Rightarrow> bytes list \<Rightarrow> bytes" where
  "Join sep [] = []"
| "Join sep [p] = p"
| "Join sep (p # q # ps) = p @ sep @ Join sep (q # ps)"

function ReplaceAll :: "bytes \<Rightarrow> bytes \<Rightarrow> bytes \<Rightarrow> bytes" where
  "ReplaceAll old new [] = []"
| "ReplaceAll old new (c # cs) =
    (if old \<noteq> [] \<and> prefix old (c # cs) then new @ ReplaceAll old new (drop (length old) (c # cs))
     else c # ReplaceAll old new cs)"
  by pat_completeness auto
termination
  by (relation "measure (\<lambda>(old, new, s). length s)") auto

section \<open>Case\<close>

record unicode =
  uni_lower :: "bytes \<Rightarrow> bytes"
  uni_upper :: "bytes \<Rightarrow> bytes"
  uni_fold :: "bytes \<Rightarrow> bytes \<Rightarrow> bool"

definition is_ascii :: "char \<Rightarrow> bool" where
  "is_ascii c \<longleftrightarrow> byte_val c < 128"

definition ToLower :: "unicode \<Rightarrow> bytes \<Rightarrow> bytes" where
  "ToLower U s = (if list_all is_ascii s then map lower s else uni_lower U s)"

definition ToUpper :: "unicode \<Rightarrow> bytes \<Rightarrow> bytes" where
  "ToUpper U s = (if list_all is_ascii s then map upper s else uni_upper U s)"

definition EqualFoldU :: "unicode \<Rightarrow> bytes \<Rightarrow> bytes \<Rightarrow> bool" where
  "EqualFoldU U s t = (if list_all is_ascii t then EqualFold s t else uni_fold U s t)"

section \<open>Query strings\<close>

text \<open>\<^verbatim>\<open>url.ParseQuery\<close>: the pairs in order, and whether there was an error.\<close>

definition query_pair :: "bytes \<Rightarrow> (bytes \<times> bytes) option \<times> bool" where
  "query_pair key =
    (if CHR '';'' \<in> set key then (None, True)
     else if key = [] then (None, False)
     else case Cut key ''='' of (k, v, found) \<Rightarrow>
       (case (QueryUnescape k, QueryUnescape v) of
          (Some k, Some v) \<Rightarrow> (Some (k, v), False)
        | _ \<Rightarrow> (None, True)))"

definition ParseQuery :: "bytes \<Rightarrow> (bytes \<times> bytes) list \<times> bool" where
  "ParseQuery q =
    (let rs = map query_pair (Split CHR ''&'' q)
     in (concat (map (\<lambda>r. case fst r of Some kv \<Rightarrow> [kv] | None \<Rightarrow> []) rs), list_ex snd rs))"

definition query_unreserved :: "char \<Rightarrow> bool" where
  "query_unreserved c \<longleftrightarrow> is_digit c \<or> is_upper c \<or> is_lower c \<or> c \<in> set ''-_.~''"

definition QueryEscape :: "bytes \<Rightarrow> bytes" where
  "QueryEscape s =
    concat (map (\<lambda>c. if query_unreserved c then [c] else if c = CHR '' '' then ''+''
                     else [CHR ''%'', hex_digit (byte_val c div 16), hex_digit (byte_val c mod 16)]) s)"

section \<open>URLs\<close>

text \<open>The fields of a \<^verbatim>\<open>url.URL\<close> the code uses; \<open>u_String\<close> is what its \<^verbatim>\<open>String\<close> method returns.  The record is extended where a
  function also depends on the other fields.\<close>

record url =
  u_Scheme :: bytes
  u_Host :: bytes
  u_Path :: bytes
  u_RawQuery :: bytes
  u_Fragment :: bytes
  u_String :: bytes

definition validOptionalPort :: "bytes \<Rightarrow> bool" where
  "validOptionalPort port = (port = [] \<or> hd port = CHR '':'' \<and> list_all is_digit (tl port))"

definition splitHostPort :: "bytes \<Rightarrow> bytes \<times> bytes" where
  "splitHostPort hostPort =
    (let (host, port) =
       (case LastIndexByte hostPort CHR '':'' of
          None \<Rightarrow> (hostPort, [])
        | Some colon \<Rightarrow>
            if validOptionalPort (drop colon hostPort) then (take colon hostPort, drop (colon + 1) hostPort)
            else (hostPort, []))
     in (if prefix ''['' host \<and> suffix '']'' host then take (length host - 2) (drop 1 host) else host, port))"

definition Hostname :: "'z url_scheme \<Rightarrow> bytes" where
  "Hostname u = fst (splitHostPort (u_Host u))"

definition Port :: "'z url_scheme \<Rightarrow> bytes" where
  "Port u = snd (splitHostPort (u_Host u))"

definition JoinHostPort :: "bytes \<Rightarrow> bytes \<Rightarrow> bytes" where
  "JoinHostPort host p =
    (if CHR '':'' \<in> set host \<or> CHR ''%'' \<in> set host then ''['' @ host @ '']:'' @ p else host @ '':'' @ p)"

section \<open>Quoting\<close>

text \<open>\<^verbatim>\<open>strconv.Quote\<close>, also the verb \<^verbatim>\<open>%q\<close> of \<^verbatim>\<open>fmt\<close>; \<open>Q\<close> does it for text outside ASCII.\<close>

definition nibble_char :: "nat \<Rightarrow> char" where
  "nibble_char n = byte_of (if n < 10 then n + 48 else n + 87)"

definition quote_char :: "char \<Rightarrow> bytes" where
  "quote_char c =
    (if c = CHR 0x22 \<or> c = CHR 0x5C then [CHR 0x5C, c]
     else if 32 \<le> byte_val c \<and> byte_val c < 127 then [c]
     else if byte_val c = 7 then [CHR 0x5C, CHR ''a'']
     else if byte_val c = 8 then [CHR 0x5C, CHR ''b'']
     else if byte_val c = 12 then [CHR 0x5C, CHR ''f'']
     else if byte_val c = 10 then [CHR 0x5C, CHR ''n'']
     else if byte_val c = 13 then [CHR 0x5C, CHR ''r'']
     else if byte_val c = 9 then [CHR 0x5C, CHR ''t'']
     else if byte_val c = 11 then [CHR 0x5C, CHR ''v'']
     else [CHR 0x5C, CHR ''x'', nibble_char (byte_val c div 16), nibble_char (byte_val c mod 16)])"

definition Quote :: "(bytes \<Rightarrow> bytes) \<Rightarrow> bytes \<Rightarrow> bytes" where
  "Quote Q s = (if list_all is_ascii s then [CHR 0x22] @ concat (map quote_char s) @ [CHR 0x22] else Q s)"

section \<open>Setting header fields\<close>

definition Header_Set :: "http_header \<Rightarrow> bytes \<Rightarrow> bytes \<Rightarrow> http_header" where
  "Header_Set h key v =
    (let k = CanonicalMIMEHeaderKey key
     in if k \<in> fst ` set h then map (\<lambda>kv. if fst kv = k then (k, [v]) else kv) h else h @ [(k, [v])])"

section \<open>Lemmas\<close>

lemma Split_not_Nil [simp]: "Split sep s \<noteq> []"
  by (induction s) (auto split: list.splits)

lemma Split_plain: "sep \<notin> set s \<Longrightarrow> Split sep s = [s]"
  by (induction s) auto

lemma Split_append: "sep \<notin> set s \<Longrightarrow> Split sep (s @ sep # t) = s # Split sep t"
  by (induction s) auto

lemma Join_Split: "Join [sep] (Split sep s) = s"
proof (induction s)
  case (Cons c s)
  obtain p ps where "Split sep s = p # ps" by (cases "Split sep s") auto
  then show ?case using Cons by (cases ps) auto
qed simp

lemma ToLower_lower: "list_all (\<lambda>c. is_ascii c \<and> \<not> is_upper c) s \<Longrightarrow> ToLower U s = s"
proof -
  assume a: "list_all (\<lambda>c. is_ascii c \<and> \<not> is_upper c) s"
  then have "map lower s = map (\<lambda>c. c) s" by (intro map_cong) (auto simp: list_all_iff lower_def)
  then show ?thesis using a by (auto simp: ToLower_def list_all_iff)
qed

text \<open>\<^verbatim>\<open>TrimSpace\<close> leaves text alone whose first and last bytes are printable ASCII.\<close>

lemma TrimSpace_edges:
  assumes "s \<noteq> []" and "\<not> space_byte (hd s)" and "\<not> space_byte (last s)"
  shows "TrimSpace s = s"
proof -
  have "\<not> prefix w s \<and> \<not> suffix w s" if w: "w \<in> set spaces" for w
  proof -
    have "w \<noteq> []" "list_all space_byte w" using spaces_not_Nil [OF w] spaces_bytes [OF w] by simp_all
    then have "space_byte (hd w)" "space_byte (last w)" by (auto simp: list_all_iff)
    moreover have "prefix w s \<Longrightarrow> hd s = hd w" "suffix w s \<Longrightarrow> last s = last w"
      using \<open>w \<noteq> []\<close> by (auto simp: prefix_def suffix_def)
    ultimately show ?thesis using assms(2,3) by auto
  qed
  then have "find (\<lambda>w. prefix w s) spaces = None" "find (\<lambda>w. suffix w s) spaces = None"
    by (auto simp: find_None_iff)
  then show ?thesis by (simp add: TrimSpace_def TrimLeft.simps [of s] TrimRight.simps [of s])
qed

lemma TrimSpace_Nil [simp]: "TrimSpace [] = []"
  using TrimSpace_printable [of "[]"] by simp

lemma TrimSpace_space: "s \<noteq> [] \<Longrightarrow> \<not> space_byte (hd s) \<Longrightarrow> \<not> space_byte (last s) \<Longrightarrow> TrimSpace (CHR '' '' # s) = s"
proof -
  assume a: "s \<noteq> []" "\<not> space_byte (hd s)" "\<not> space_byte (last s)"
  have "find (\<lambda>w. prefix w (CHR '' '' # s)) spaces = Some '' ''"
    by (simp add: spaces_def byte_eval)
  then have "TrimLeft (CHR '' '' # s) = TrimLeft s" by (simp add: TrimLeft.simps [of "CHR '' '' # s"])
  then show ?thesis using TrimSpace_edges [OF a] by (simp add: TrimSpace_def)
qed

lemma Join_Cons: "ps \<noteq> [] \<Longrightarrow> Join sep (p # ps) = p @ sep @ Join sep ps"
  by (cases ps) auto

lemma Header_Get_Set: "Header_Get (Header_Set h k v) k = v"
proof -
  let ?k = "CanonicalMIMEHeaderKey k"
  have "?k \<in> fst ` set h \<Longrightarrow> map_of (map (\<lambda>kv. if fst kv = ?k then (?k, [v]) else kv) h) ?k = Some [v]"
    by (induction h) auto
  moreover have "?k \<notin> fst ` set h \<Longrightarrow> map_of (h @ [(?k, [v])]) ?k = Some [v]"
    by (simp add: map_of_eq_None_iff [symmetric] map_add_def)
  ultimately show ?thesis by (simp add: Header_Get_def Header_Set_def Let_def)
qed

lemma Header_Get_Set_other:
  assumes "CanonicalMIMEHeaderKey k \<noteq> CanonicalMIMEHeaderKey k'"
  shows "Header_Get (Header_Set h k' v) k = Header_Get h k"
proof -
  let ?k = "CanonicalMIMEHeaderKey k" and ?k' = "CanonicalMIMEHeaderKey k'"
  have "map_of (map (\<lambda>kv. if fst kv = ?k' then (?k', [v]) else kv) h) ?k = map_of h ?k"
    using assms by (induction h) auto
  moreover have "map_of (h @ [(?k', [v])]) ?k = map_of h ?k"
    using assms by (simp add: map_add_def split: option.splits)
  ultimately show ?thesis by (simp add: Header_Get_def Header_Set_def Let_def)
qed

end
