(* ===== verification/HS_Base.thy ===== *)
theory HS_Base
  imports HS_Alg Go_Text Go_Base64
begin

text \<open>
  Package \<^verbatim>\<open>httpsig\<close>, file \<^verbatim>\<open>src/auth/httpsig/base.go\<close>: component identifiers, the values of
  components, the signature base of RFC 9421 and the signature parameters.  The
  pooled string builder is the text it holds.
\<close>

abbreviation dq :: char where "dq \<equiv> CHR 0x22"

section \<open>Component identifiers\<close>

record ParsedComponent =
  pc_Raw :: bytes
  pc_Name :: bytes
  pc_Key :: bytes
  pc_NameParam :: bytes
  pc_SF :: bool
  pc_BS :: bool
  pc_Req :: bool
  pc_TR :: bool
  pc_Serialized :: bytes

definition strip_quotes :: "bytes \<Rightarrow> bytes" where
  "strip_quotes v =
    (if length v \<ge> 2 \<and> prefix [dq] v \<and> suffix [dq] v then take (length v - 2) (drop 1 v) else v)"

definition component_flag :: "bytes \<Rightarrow> ParsedComponent \<Rightarrow> ParsedComponent" where
  "component_flag paramName c =
    (let c = (if paramName = ''sf'' then c\<lparr>pc_SF := True\<rparr>
              else if paramName = ''bs'' then c\<lparr>pc_BS := True\<rparr>
              else if paramName = ''req'' then c\<lparr>pc_Req := True\<rparr>
              else if paramName = ''tr'' then c\<lparr>pc_TR := True\<rparr>
              else c)
     in c\<lparr>pc_Serialized := pc_Serialized c @ '';'' @ paramName\<rparr>)"

definition component_value :: "bytes \<Rightarrow> bytes \<Rightarrow> ParsedComponent \<Rightarrow> ParsedComponent" where
  "component_value paramName paramVal c =
    (let c = (if paramName = ''key'' then c\<lparr>pc_Key := paramVal\<rparr>
              else if paramName = ''name'' then c\<lparr>pc_NameParam := paramVal\<rparr>
              else c)
     in c\<lparr>pc_Serialized := pc_Serialized c @ '';'' @ paramName @ ''='' @ [dq] @ paramVal @ [dq]\<rparr>)"

definition component_param :: "unicode \<Rightarrow> bytes \<Rightarrow> ParsedComponent \<Rightarrow> ParsedComponent" where
  "component_param U p c =
    (let p = TrimSpace p in
     if p = [] then c
     else case IndexByte p CHR ''='' of
            None \<Rightarrow> component_flag (ToLower U (TrimSpace p)) c
          | Some eqIdx \<Rightarrow>
              component_value (ToLower U (TrimSpace (take eqIdx p)))
                (strip_quotes (TrimSpace (drop (eqIdx + 1) p))) c)"

definition split_name :: "bytes \<Rightarrow> hs_error + (bytes \<times> bytes)" where
  "split_name s =
    (if prefix [dq] s then
       (case IndexByte (drop 1 s) dq of
          None \<Rightarrow> Inl ErrInvalidStructuredField
        | Some endIdx \<Rightarrow> Inr (take endIdx (drop 1 s), TrimSpace (drop (endIdx + 2) s)))
     else
       (case IndexByte s CHR '';'' of
          Some semicolon \<Rightarrow> Inr (TrimSpace (take semicolon s), TrimSpace (drop semicolon s))
        | None \<Rightarrow> Inr (s, [])))"

definition ParseComponentIdentifier :: "unicode \<Rightarrow> bytes \<Rightarrow> hs_error + ParsedComponent" where
  "ParseComponentIdentifier U raw =
    (let s = TrimSpace raw in
     if s = [] then Inl ErrMissingComponent
     else case split_name s of
            Inl err \<Rightarrow> Inl err
          | Inr (namePart, remainder) \<Rightarrow>
              (let name = ToLower U namePart;
                   c = \<lparr>pc_Raw = raw, pc_Name = name, pc_Key = [], pc_NameParam = [], pc_SF = False, pc_BS = False, pc_Req = False,
                        pc_TR = False, pc_Serialized = [dq] @ name @ [dq]\<rparr>;
                   c = (if remainder \<noteq> [] then fold (component_param U) (Split CHR '';'' remainder) c else c)
               in if pc_BS c \<and> (pc_SF c \<or> pc_Key c \<noteq> []) then Inl ErrInvalidStructuredField else Inr c))"

section \<open>Component values\<close>

record message =
  m_Method :: bytes
  m_URL :: "url option"
  m_Header :: http_header
  m_StatusCode :: int
  m_Trailers :: http_header
  m_IsResponse :: bool

record RequestContext =
  rc_msg :: message
  rc_ReqContext :: "message option"

definition normalizeAuthority :: "unicode \<Rightarrow> url \<Rightarrow> bytes" where
  "normalizeAuthority U u =
    (let host = ToLower U (Hostname u); port = Port u
     in if port = [] then host
        else if EqualFold (u_Scheme u) ''http'' \<and> port = ''80'' \<or> EqualFold (u_Scheme u) ''https'' \<and> port = ''443''
        then host
        else host @ '':'' @ port)"

definition deriveQueryParam :: "bytes \<Rightarrow> bytes \<Rightarrow> hs_error + bytes" where
  "deriveQueryParam rawQuery paramName =
    (if rawQuery = [] then Inl ErrMissingComponent
     else case ParseQuery rawQuery of
            (values, True) \<Rightarrow> Inl ErrMissingComponent
          | (values, False) \<Rightarrow>
              (case filter (\<lambda>kv. fst kv = paramName) values of
                 [kv] \<Rightarrow> Inr (QueryEscape (snd kv))
               | _ \<Rightarrow> Inl ErrMissingComponent))"

definition deriveDerivedComponent :: "unicode \<Rightarrow> message \<Rightarrow> ParsedComponent \<Rightarrow> hs_error + bytes" where
  "deriveDerivedComponent U ctx pc =
    (if pc_Name pc = ''@method'' then (if m_Method ctx = [] then Inl ErrMissingComponent else Inr (m_Method ctx))
     else if pc_Name pc = ''@target-uri'' then
       (case m_URL ctx of None \<Rightarrow> Inl ErrMissingComponent | Some u \<Rightarrow> Inr (u_String u))
     else if pc_Name pc = ''@authority'' then
       (case m_URL ctx of
          None \<Rightarrow> Inl ErrMissingComponent
        | Some u \<Rightarrow> if u_Host u = [] then Inl ErrMissingComponent else Inr (normalizeAuthority U u))
     else if pc_Name pc = ''@scheme'' then
       (case m_URL ctx of
          None \<Rightarrow> Inl ErrMissingComponent
        | Some u \<Rightarrow> if u_Scheme u = [] then Inl ErrMissingComponent else Inr (ToLower U (u_Scheme u)))
     else if pc_Name pc = ''@request-target'' then
       (case m_URL ctx of
          None \<Rightarrow> Inl ErrMissingComponent
        | Some u \<Rightarrow>
            (let path = (if u_Path u = [] then ''/'' else u_Path u)
             in Inr (if u_RawQuery u \<noteq> [] then path @ ''?'' @ u_RawQuery u else path)))
     else if pc_Name pc = ''@path'' then
       (case m_URL ctx of
          None \<Rightarrow> Inl ErrMissingComponent
        | Some u \<Rightarrow> Inr (if u_Path u = [] then ''/'' else u_Path u))
     else if pc_Name pc = ''@query'' then
       (case m_URL ctx of
          None \<Rightarrow> Inl ErrMissingComponent
        | Some u \<Rightarrow> Inr (if u_RawQuery u \<noteq> [] then ''?'' @ u_RawQuery u else ''?''))
     else if pc_Name pc = ''@query-param'' then
       (case m_URL ctx of
          None \<Rightarrow> Inl ErrMissingComponent
        | Some u \<Rightarrow>
            if pc_NameParam pc = [] then Inl ErrMissingComponent
            else deriveQueryParam (u_RawQuery u) (pc_NameParam pc))
     else if pc_Name pc = ''@status'' then
       (if \<not> m_IsResponse ctx then Inl ErrMissingComponent
        else if m_StatusCode ctx = 0 then Inl ErrMissingComponent
        else Inr (Itoa (m_StatusCode ctx)))
     else Inl ErrMissingComponent)"

definition cleanHeaderValue :: "bytes \<Rightarrow> bytes" where
  "cleanHeaderValue v =
    (let v = TrimSpace v;
         v = ReplaceAll [CHR 0x0D, CHR 0x0A] '' '' v;
         v = ReplaceAll [CHR 0x0A] '' '' v
     in ReplaceAll [CHR 0x0D] '' '' v)"

fun dictionary_item :: "unicode \<Rightarrow> bytes \<Rightarrow> bytes list \<Rightarrow> hs_error + bytes" where
  "dictionary_item U key [] = Inl ErrMissingComponent"
| "dictionary_item U key (item # items) =
    (let item = TrimSpace item in
     if item = [] then dictionary_item U key items
     else case IndexByte item CHR ''='' of
            None \<Rightarrow> if EqualFoldU U item key then Inr ''?1'' else dictionary_item U key items
          | Some eqIdx \<Rightarrow>
              if EqualFoldU U (TrimSpace (take eqIdx item)) key then Inr (TrimSpace (drop (eqIdx + 1) item))
              else dictionary_item U key items)"

definition extractDictionaryKey :: "unicode \<Rightarrow> bytes \<Rightarrow> bytes \<Rightarrow> hs_error + bytes" where
  "extractDictionaryKey U dictHeader key = dictionary_item U key (Split CHR '','' dictHeader)"

definition deriveHTTPField :: "unicode \<Rightarrow> message \<Rightarrow> ParsedComponent \<Rightarrow> hs_error + bytes" where
  "deriveHTTPField U ctx pc =
    (let headers = (if pc_TR pc then m_Trailers ctx else m_Header ctx);
         matchValues = concat (map snd (filter (\<lambda>kv. EqualFoldU U (fst kv) (pc_Name pc)) headers))
     in if matchValues = [] then Inl ErrMissingComponent
        else if pc_BS pc then
          Inr (Join '', '' (map (\<lambda>v. '':'' @ EncodeToString StdEncoding (cleanHeaderValue v) @ '':'') matchValues))
        else if pc_Key pc \<noteq> [] then extractDictionaryKey U (Join '', '' matchValues) (pc_Key pc)
        else Inr (Join '', '' (map cleanHeaderValue matchValues)))"

definition deriveComponentValue :: "unicode \<Rightarrow> message \<Rightarrow> ParsedComponent \<Rightarrow> hs_error + bytes" where
  "deriveComponentValue U ctx pc =
    (if prefix ''@'' (pc_Name pc) then deriveDerivedComponent U ctx pc else deriveHTTPField U ctx pc)"

section \<open>Signature parameters\<close>

record SignatureParams =
  sp_Label :: bytes
  sp_Components :: "bytes list"
  sp_Created :: int
  sp_Expires :: int
  sp_Nonce :: bytes
  sp_Alg :: Algorithm
  sp_KeyID :: bytes
  sp_Tag :: bytes

fun serialize_components :: "unicode \<Rightarrow> bytes list \<Rightarrow> hs_error + bytes list" where
  "serialize_components U [] = Inr []"
| "serialize_components U (compRaw # cs) =
    (case ParseComponentIdentifier U compRaw of
       Inl err \<Rightarrow> Inl err
     | Inr parsed \<Rightarrow>
         (case serialize_components U cs of Inl err \<Rightarrow> Inl err | Inr ss \<Rightarrow> Inr (pc_Serialized parsed # ss)))"

definition quoted_param :: "bytes \<Rightarrow> bytes \<Rightarrow> bytes" where
  "quoted_param name v = (if v \<noteq> [] then '';'' @ name @ ''='' @ [dq] @ v @ [dq] else [])"

definition int_param :: "bytes \<Rightarrow> int \<Rightarrow> bytes" where
  "int_param name n = (if n > 0 then '';'' @ name @ ''='' @ FormatInt n else [])"

definition SerializeSignatureParams :: "unicode \<Rightarrow> SignatureParams \<Rightarrow> hs_error + bytes" where
  "SerializeSignatureParams U params =
    (case serialize_components U (sp_Components params) of
       Inl err \<Rightarrow> Inl err
     | Inr ss \<Rightarrow>
         Inr (''('' @ Join '' '' ss @ '')'' @ int_param ''created'' (sp_Created params) @
              int_param ''expires'' (sp_Expires params) @ quoted_param ''keyid'' (sp_KeyID params) @
              quoted_param ''alg'' (sp_Alg params) @ quoted_param ''nonce'' (sp_Nonce params) @
              quoted_param ''tag'' (sp_Tag params)))"

text \<open>\<^verbatim>\<open>splitInnerList\<close>: the state is the current item and whether a quote is open.\<close>

fun inner_loop :: "bytes \<Rightarrow> bool \<Rightarrow> bytes \<Rightarrow> bytes list" where
  "inner_loop current inQuote [] = (if current \<noteq> [] then [current] else [])"
| "inner_loop current inQuote (ch # cs) =
    (if ch = dq then inner_loop (current @ [ch]) (\<not> inQuote) cs
     else if ch = CHR '' '' \<and> \<not> inQuote then
       (if current \<noteq> [] then current # inner_loop [] inQuote cs else inner_loop current inQuote cs)
     else inner_loop (current @ [ch]) inQuote cs)"

definition splitInnerList :: "bytes \<Rightarrow> bytes list" where
  "splitInnerList inner = inner_loop [] False inner"

definition signature_param :: "unicode \<Rightarrow> bytes \<Rightarrow> SignatureParams \<Rightarrow> SignatureParams" where
  "signature_param U p params =
    (let p = TrimSpace p in
     if p = [] then params
     else case IndexByte p CHR ''='' of
            None \<Rightarrow> params
          | Some eqIdx \<Rightarrow>
              (let k = ToLower U (TrimSpace (take eqIdx p)); v = strip_quotes (TrimSpace (drop (eqIdx + 1) p))
               in if k = ''created'' then
                    (case ParseInt64 v of (c, None) \<Rightarrow> params\<lparr>sp_Created := c\<rparr> | _ \<Rightarrow> params)
                  else if k = ''expires'' then
                    (case ParseInt64 v of (e, None) \<Rightarrow> params\<lparr>sp_Expires := e\<rparr> | _ \<Rightarrow> params)
                  else if k = ''keyid'' then params\<lparr>sp_KeyID := v\<rparr>
                  else if k = ''alg'' then params\<lparr>sp_Alg := v\<rparr>
                  else if k = ''nonce'' then params\<lparr>sp_Nonce := v\<rparr>
                  else if k = ''tag'' then params\<lparr>sp_Tag := v\<rparr>
                  else params))"

definition no_params :: SignatureParams where
  "no_params =
    \<lparr>sp_Label = [], sp_Components = [], sp_Created = 0, sp_Expires = 0, sp_Nonce = [], sp_Alg = [], sp_KeyID = [],
     sp_Tag = []\<rparr>"

definition ParseSignatureParams :: "unicode \<Rightarrow> bytes \<Rightarrow> hs_error + SignatureParams" where
  "ParseSignatureParams U input =
    (let input = TrimSpace input in
     if \<not> prefix ''('' input then Inl ErrInvalidStructuredField
     else case IndexByte input CHR '')'' of
            None \<Rightarrow> Inl ErrInvalidStructuredField
          | Some closeParen \<Rightarrow>
              (let innerList = TrimSpace (take (closeParen - 1) (drop 1 input));
                   paramsPart = TrimSpace (drop (closeParen + 1) input);
                   params = no_params\<lparr>sp_Components := (if innerList \<noteq> [] then splitInnerList innerList else [])\<rparr>
               in Inr (if paramsPart \<noteq> [] then fold (signature_param U) (Split CHR '';'' paramsPart) params else params)))"

section \<open>The signature base\<close>

definition covered_value :: "unicode \<Rightarrow> RequestContext \<Rightarrow> ParsedComponent \<Rightarrow> hs_error + bytes" where
  "covered_value U ctx parsed =
    (if pc_Req parsed then
       (if \<not> m_IsResponse (rc_msg ctx) then Inl ErrMissingComponent
        else case rc_ReqContext ctx of
               None \<Rightarrow> Inl ErrMissingComponent
             | Some targetCtx \<Rightarrow> deriveComponentValue U targetCtx parsed)
     else deriveComponentValue U (rc_msg ctx) parsed)"

fun base_lines :: "unicode \<Rightarrow> RequestContext \<Rightarrow> bytes list \<Rightarrow> bytes list \<Rightarrow> hs_error + bytes" where
  "base_lines U ctx seen [] = Inr []"
| "base_lines U ctx seen (compRaw # cs) =
    (case ParseComponentIdentifier U compRaw of
       Inl err \<Rightarrow> Inl err
     | Inr parsed \<Rightarrow>
         if pc_Serialized parsed \<in> set seen then Inl ErrDuplicateComponent
         else
          (case covered_value U ctx parsed of
             Inl err \<Rightarrow> Inl err
           | Inr val \<Rightarrow>
               (case base_lines U ctx (pc_Serialized parsed # seen) cs of
                  Inl err \<Rightarrow> Inl err
                | Inr rest \<Rightarrow> Inr (pc_Serialized parsed @ '': '' @ val @ [CHR 0x0A] @ rest))))"

definition BuildSignatureBase :: "unicode \<Rightarrow> RequestContext \<Rightarrow> SignatureParams option \<Rightarrow> hs_error + bytes" where
  "BuildSignatureBase U ctx params =
    (case params of
       None \<Rightarrow> Inl ErrMissingComponent
     | Some params \<Rightarrow>
         (case base_lines U ctx [] (sp_Components params) of
            Inl err \<Rightarrow> Inl err
          | Inr lns \<Rightarrow>
              (case SerializeSignatureParams U params of
                 Inl err \<Rightarrow> Inl err
               | Inr sigParamsVal \<Rightarrow>
                   (let baseStr = lns @ [dq] @ ''@signature-params'' @ [dq] @ '': '' @ sigParamsVal
                    in if \<not> list_all is_ascii baseStr then Inl ErrInvalidStructuredField else Inr baseStr))))"

end
