(* ===== verification/Go_Clock.thy ===== *)
theory Go_Clock
  imports Prelude "HOL-Library.Signed_Division"
begin

text \<open>
  Go's \<^verbatim>\<open>time.Time\<close> without its monotonic part: seconds since the first of January of
  year 1 in an \<^verbatim>\<open>int64\<close>, and nanoseconds within the second.  A \<^verbatim>\<open>time.Duration\<close> is a
  number of nanoseconds in an \<^verbatim>\<open>int64\<close>.  Adding saturates, the difference of two times
  is clipped, and a conversion from Unix seconds wraps around.
\<close>

record gotime =
  t_sec :: int
  t_nsec :: int

abbreviation unixToInternal :: int where "unixToInternal \<equiv> 62135596800"
abbreviation Second :: int where "Second \<equiv> 1000000000"
abbreviation Minute :: int where "Minute \<equiv> 60000000000"

definition time_Unix :: "int \<Rightarrow> gotime" where
  "time_Unix sec = \<lparr>t_sec = wrap64 (sec + unixToInternal), t_nsec = 0\<rparr>"

definition Time_Unix :: "gotime \<Rightarrow> int" where
  "Time_Unix t = wrap64 (t_sec t - unixToInternal)"

definition Time_IsZero :: "gotime \<Rightarrow> bool" where
  "Time_IsZero t \<longleftrightarrow> t_sec t = 0 \<and> t_nsec t = 0"

definition Time_After :: "gotime \<Rightarrow> gotime \<Rightarrow> bool" where
  "Time_After t u \<longleftrightarrow> t_sec t > t_sec u \<or> t_sec t = t_sec u \<and> t_nsec t > t_nsec u"

definition addSec :: "int \<Rightarrow> int \<Rightarrow> int" where
  "addSec ext d =
    (let sum = wrap64 (ext + d)
     in if (sum > ext) = (d > 0) then sum else if d > 0 then 2 ^ 63 - 1 else - (2 ^ 63 - 1))"

definition Time_Add :: "gotime \<Rightarrow> int \<Rightarrow> gotime" where
  "Time_Add t d =
    (let dsec = d sdiv Second;
         nsec = t_nsec t + d smod Second;
         (dsec, nsec) = (if nsec \<ge> Second then (dsec + 1, nsec - Second)
                         else if nsec < 0 then (dsec - 1, nsec + Second) else (dsec, nsec))
     in \<lparr>t_sec = addSec (t_sec t) dsec, t_nsec = nsec\<rparr>)"

definition Time_Sub :: "gotime \<Rightarrow> gotime \<Rightarrow> int" where
  "Time_Sub t u =
    (let d = wrap64 (wrap64 (t_sec t - t_sec u) * Second + (t_nsec t - t_nsec u))
     in if Time_Add u d = t then d else if Time_After u t then - (2 ^ 63) else 2 ^ 63 - 1)"

definition UnixNano :: "gotime \<Rightarrow> int" where
  "UnixNano t = wrap64 ((t_sec t - unixToInternal) * Second + t_nsec t)"

section \<open>In the ordinary range\<close>

text \<open>A time whose seconds are far from the ends of the \<^verbatim>\<open>int64\<close> range; there the operations are those of whole
  nanoseconds.\<close>

definition t_ns :: "gotime \<Rightarrow> int" where
  "t_ns t = t_sec t * Second + t_nsec t"

definition time_ok :: "gotime \<Rightarrow> bool" where
  "time_ok t \<longleftrightarrow> \<bar>t_sec t\<bar> \<le> 2 ^ 61 \<and> 0 \<le> t_nsec t \<and> t_nsec t < Second"

lemma addSec_exact: "\<bar>s\<bar> \<le> 2 ^ 62 \<Longrightarrow> \<bar>d\<bar> < 2 ^ 62 \<Longrightarrow> addSec s d = s + d"
  by (auto simp: addSec_def wrap64_id Let_def)

lemma sdiv_smod_int: "d sdiv Second * Second + d smod Second = (d :: int)"
  using mult_sdiv_smod_eq [of Second d] by (simp add: mult.commute)

lemma smod_bounds: "\<bar>(d :: int) smod Second\<bar> < Second"
  using smod_int_range [of Second d] by (auto simp: abs_less_iff)

lemma sdiv_bounds: "\<bar>d :: int\<bar> \<le> 2 ^ 63 \<Longrightarrow> \<bar>d sdiv Second\<bar> \<le> 9223372037"
  using sdiv_smod_int [of d] smod_bounds [of d] by simp

lemma Time_Add_ns:
  assumes "time_ok t" and "\<bar>d\<bar> \<le> 2 ^ 63"
  shows "t_ns (Time_Add t d) = t_ns t + d" and "0 \<le> t_nsec (Time_Add t d)" and "t_nsec (Time_Add t d) < Second"
proof -
  have "\<bar>d sdiv Second\<bar> \<le> 9223372037" using sdiv_bounds [OF assms(2)] .
  then have "addSec (t_sec t) (d sdiv Second + k) = t_sec t + d sdiv Second + k" if "k \<in> {-1, 0, 1}" for k
    using assms(1) that by (subst addSec_exact) (auto simp: time_ok_def)
  from this [of 0] this [of 1] this [of "-1"]
  have "addSec (t_sec t) (d sdiv Second) = t_sec t + d sdiv Second"
    "addSec (t_sec t) (d sdiv Second + 1) = t_sec t + d sdiv Second + 1"
    "addSec (t_sec t) (d sdiv Second - 1) = t_sec t + d sdiv Second - 1" by simp_all
  then show "t_ns (Time_Add t d) = t_ns t + d" and "0 \<le> t_nsec (Time_Add t d)" and "t_nsec (Time_Add t d) < Second"
    using sdiv_smod_int [of d] smod_bounds [of d] assms(1)
    by (auto simp: Time_Add_def t_ns_def time_ok_def Let_def algebra_simps)
qed

lemma Time_After_ns:
  assumes "0 \<le> t_nsec t" "t_nsec t < Second" "0 \<le> t_nsec u" "t_nsec u < Second"
  shows "Time_After t u \<longleftrightarrow> t_ns t > t_ns u"
proof -
  have "t_ns t > t_ns u" if "t_sec t > t_sec u" "0 \<le> t_nsec t" "t_nsec u < Second" for t u :: gotime
  proof -
    have "(t_sec u + 1) * Second \<le> t_sec t * Second" using that by simp
    then show ?thesis using that unfolding t_ns_def by linarith
  qed
  from this [of u t] this [of t u] show ?thesis using assms
    by (cases "t_sec t" "t_sec u" rule: linorder_cases) (auto simp: Time_After_def t_ns_def)
qed

lemma t_ns_inject:
  assumes "0 \<le> t_nsec t" "t_nsec t < Second" "0 \<le> t_nsec u" "t_nsec u < Second" and "t_ns t = t_ns u"
  shows "t = u"
proof -
  have "\<not> Time_After t u" "\<not> Time_After u t" using assms Time_After_ns [of t u] Time_After_ns [of u t] by simp_all
  then show ?thesis by (auto simp: Time_After_def intro!: gotime.equality)
qed

lemma Time_Sub_ns:
  assumes t: "time_ok t" and u: "time_ok u" and d: "\<bar>t_ns t - t_ns u\<bar> < 2 ^ 63"
  shows "Time_Sub t u = t_ns t - t_ns u"
proof -
  have "wrap64 (t_sec t - t_sec u) = t_sec t - t_sec u" using t u by (intro wrap64_id) (auto simp: time_ok_def)
  then have "wrap64 (wrap64 (t_sec t - t_sec u) * Second + (t_nsec t - t_nsec u)) = t_ns t - t_ns u"
    using d by (subst wrap64_id) (auto simp: t_ns_def algebra_simps)
  moreover have "Time_Add u (t_ns t - t_ns u) = t"
    using Time_Add_ns [OF u, of "t_ns t - t_ns u"] d t by (intro t_ns_inject) (auto simp: time_ok_def)
  ultimately show ?thesis by (simp add: Time_Sub_def)
qed

lemma time_Unix_ok: "\<bar>s\<bar> \<le> 2 ^ 60 \<Longrightarrow> time_ok (time_Unix s) \<and> t_ns (time_Unix s) = (s + unixToInternal) * Second"
  by (auto simp: time_Unix_def time_ok_def t_ns_def wrap64_id)

definition unix_ns :: "int \<Rightarrow> int" where
  "unix_ns s = (s + unixToInternal) * Second"

definition usual_time :: "gotime \<Rightarrow> bool" where
  "usual_time t \<longleftrightarrow> unixToInternal \<le> t_sec t \<and> t_sec t \<le> unixToInternal + 2 ^ 33 \<and> 0 \<le> t_nsec t \<and> t_nsec t < Second"

lemma usual_time_ok: "usual_time t \<Longrightarrow> time_ok t"
  by (auto simp: usual_time_def time_ok_def)

section \<open>At the ends of the range\<close>

lemma Time_Sub_clip:
  assumes t: "time_ok t" and u: "time_ok u"
  shows "Time_Sub t u = max (- (2 ^ 63)) (min (2 ^ 63 - 1) (t_ns t - t_ns u))"
proof (cases "\<bar>t_ns t - t_ns u\<bar> < 2 ^ 63")
  case True
  then show ?thesis using Time_Sub_ns [OF t u] by auto
next
  case False
  define d where "d = wrap64 (wrap64 (t_sec t - t_sec u) * Second + (t_nsec t - t_nsec u))"
  have d: "\<bar>d\<bar> \<le> 2 ^ 63" "d < 2 ^ 63" using wrap64_range [of "wrap64 (t_sec t - t_sec u) * Second + (t_nsec t - t_nsec u)"] by (auto simp: d_def)
  have n: "Time_After u t \<longleftrightarrow> t_ns u > t_ns t" using t u by (intro Time_After_ns) (auto simp: time_ok_def)
  show ?thesis
  proof (cases "Time_Add u d = t")
    case True
    then have "t_ns t - t_ns u = d" using Time_Add_ns(1) [OF u d(1)] by simp
    then show ?thesis using False d True by (auto simp: Time_Sub_def d_def [symmetric])
  next
    case ne: False
    then show ?thesis using False n by (auto simp: Time_Sub_def d_def [symmetric])
  qed
qed

text \<open>A time in the far past, where the subtraction of the seconds may wrap around.\<close>

lemma addSec_negative: "- (2 ^ 63) \<le> s \<Longrightarrow> s \<le> - (2 ^ 61) \<Longrightarrow> \<bar>d\<bar> \<le> 2 ^ 34 \<Longrightarrow> addSec s d < 0"
  using wrap64_id [of "s + d"] wrap64_once(2) [of "s + d"] by (cases "s + d < - (2 ^ 63)") (auto simp: addSec_def Let_def)

lemma Time_Sub_far:
  assumes "0 < t_sec t" and "- (2 ^ 63) \<le> t_sec u" "t_sec u \<le> - (2 ^ 61)"
  shows "Time_Sub t u = 2 ^ 63 - 1"
proof -
  define d where "d = wrap64 (wrap64 (t_sec t - t_sec u) * Second + (t_nsec t - t_nsec u))"
  have "\<bar>d\<bar> \<le> 2 ^ 63" using wrap64_range [of "wrap64 (t_sec t - t_sec u) * Second + (t_nsec t - t_nsec u)"] by (auto simp: d_def)
  then have "\<bar>d sdiv Second\<bar> \<le> 9223372037" by (rule sdiv_bounds)
  then have "addSec (t_sec u) (d sdiv Second + k) < 0" if "k \<in> {-1, 0, 1}" for k
    using that assms(2,3) by (intro addSec_negative) auto
  from this [of 0] this [of 1] this [of "-1"] have "t_sec (Time_Add u d) < 0" by (simp add: Time_Add_def Let_def split: prod.split)
  then have "Time_Add u d \<noteq> t" using assms(1) by auto
  moreover have "\<not> Time_After u t" using assms by (auto simp: Time_After_def)
  ultimately show ?thesis by (simp add: Time_Sub_def d_def [symmetric])
qed

text \<open>A timestamp is neither in the future nor too old: for every \<^verbatim>\<open>int64\<close>.\<close>

lemma recent_iff:
  assumes now: "usual_time now" and iat: "- (2 ^ 63) \<le> s" "s < 2 ^ 63"
    and k: "0 \<le> skew" "0 \<le> age" "age + skew < 2 ^ 63 - 1"
  shows "\<not> Time_After (time_Unix s) (Time_Add now skew) \<and> \<not> Time_Sub now (time_Unix s) > age + skew \<longleftrightarrow>
    unix_ns s \<le> t_ns now + skew \<and> t_ns now - unix_ns s \<le> age + skew"
proof -
  have nb: "0 < t_sec now" "t_ns now < 2 ^ 67" "0 \<le> t_ns now" and ok: "time_ok now"
    using now by (auto simp: usual_time_def t_ns_def time_ok_def)
  have ad: "t_ns (Time_Add now skew) = t_ns now + skew" "0 \<le> t_nsec (Time_Add now skew)" "t_nsec (Time_Add now skew) < Second"
    using Time_Add_ns [OF ok, of skew] k by auto
  have af: "Time_After (time_Unix s) (Time_Add now skew) \<longleftrightarrow> t_ns (time_Unix s) > t_ns now + skew"
    using Time_After_ns [OF _ _ ad(2,3), of "time_Unix s"] ad(1) by (simp add: time_Unix_def)
  consider (far) "s < - (2 ^ 61) - unixToInternal" | (mid) "- (2 ^ 61) - unixToInternal \<le> s" "s \<le> 2 ^ 60"
    | (late) "2 ^ 60 < s" "s + unixToInternal < 2 ^ 63" | (wrap) "2 ^ 63 \<le> s + unixToInternal" by linarith
  then show ?thesis
  proof cases
    case far
    have "t_sec (time_Unix s) = s + unixToInternal" using far iat by (simp add: time_Unix_def wrap64_id)
    then have "Time_Sub now (time_Unix s) = 2 ^ 63 - 1" using far iat nb(1) by (intro Time_Sub_far) auto
    moreover have "t_ns now - unix_ns s > age + skew" using far nb k by (simp add: unix_ns_def)
    ultimately show ?thesis using k by auto
  next
    case mid
    have u: "time_ok (time_Unix s)" "t_ns (time_Unix s) = unix_ns s"
      using mid by (auto simp: time_Unix_def time_ok_def t_ns_def unix_ns_def wrap64_id)
    then show ?thesis using af Time_Sub_clip [OF ok u(1)] k by auto
  next
    case late
    have "t_ns (time_Unix s) = unix_ns s" using late by (auto simp: time_Unix_def t_ns_def unix_ns_def wrap64_id)
    moreover have "unix_ns s > t_ns now + skew" using late nb k by (simp add: unix_ns_def)
    ultimately show ?thesis using af by auto
  next
    case wrap
    have w: "t_sec (time_Unix s) = s + unixToInternal - 2 ^ 64" using wrap iat wrap64_once(1) by (simp add: time_Unix_def)
    then have "Time_Sub now (time_Unix s) = 2 ^ 63 - 1" using wrap iat nb(1) by (intro Time_Sub_far) auto
    moreover have "unix_ns s > t_ns now + skew" using wrap nb k by (simp add: unix_ns_def)
    ultimately show ?thesis using k by auto
  qed
qed

end
