(* ===== verification/HS_Sign.thy ===== *)
theory HS_Sign
  imports HS_Base Go_Clock
begin

text \<open>
  Package \<^verbatim>\<open>httpsig\<close>, files \<^verbatim>\<open>src/auth/httpsig/sign.go\<close>, \<^verbatim>\<open>verify.go\<close> and \<^verbatim>\<open>digest.go\<close>: signing a
  message, verifying it, and content digests.  The result of \<^verbatim>\<open>time.Now\<close> and the
  randomness of the signer are arguments; a result of \<open>None\<close> is a panic.
\<close>

section \<open>sign.go\<close>

record SignConfig =
  sc_Label :: bytes
  sc_Signer :: "signer option"
  sc_Components :: "bytes list"
  sc_Created :: gotime
  sc_Expires :: gotime
  sc_Nonce :: bytes
  sc_Tag :: bytes

definition sign_label :: "SignConfig \<Rightarrow> bytes" where
  "sign_label cfg = (if sc_Label cfg = [] then ''sig1'' else sc_Label cfg)"

definition sign_components :: "RequestContext \<Rightarrow> SignConfig \<Rightarrow> bytes list" where
  "sign_components ctx cfg =
    (if sc_Components cfg = [] then
       (if m_IsResponse (rc_msg ctx) then [''@status''] else [''@method'', ''@authority'', ''@path''])
     else sc_Components cfg)"

definition sign_params :: "gotime \<Rightarrow> RequestContext \<Rightarrow> SignConfig \<Rightarrow> signer \<Rightarrow> SignatureParams" where
  "sign_params now ctx cfg sg =
    \<lparr>sp_Label = sign_label cfg, sp_Components = sign_components ctx cfg,
     sp_Created = Time_Unix (if Time_IsZero (sc_Created cfg) then now else sc_Created cfg),
     sp_Expires = (if Time_IsZero (sc_Expires cfg) then 0 else Time_Unix (sc_Expires cfg)),
     sp_Nonce = sc_Nonce cfg, sp_Alg = Signer_Algorithm sg, sp_KeyID = Signer_KeyID sg, sp_Tag = sc_Tag cfg\<rparr>"

definition Sign ::
  "unicode \<Rightarrow> crypto \<Rightarrow> nat \<Rightarrow> gotime \<Rightarrow> RequestContext option \<Rightarrow> SignConfig \<Rightarrow> (hs_error + (bytes \<times> bytes)) option" where
  "Sign U C rnd now ctx cfg =
    (case ctx of
       None \<Rightarrow> Some (Inl ErrNilContext)
     | Some ctx \<Rightarrow>
         (case sc_Signer cfg of
            None \<Rightarrow> Some (Inl ErrNilSigner)
          | Some sg \<Rightarrow>
              (let params = sign_params now ctx cfg sg
               in case BuildSignatureBase U ctx (Some params) of
                    Inl err \<Rightarrow> Some (Inl err)
                  | Inr baseBytes \<Rightarrow>
                      (case Signer_Sign C rnd sg baseBytes of
                         None \<Rightarrow> None
                       | Some (Inl err) \<Rightarrow> Some (Inl err)
                       | Some (Inr sigBytes) \<Rightarrow>
                           (case SerializeSignatureParams U params of
                              Inl err \<Rightarrow> Some (Inl err)
                            | Inr serializedParams \<Rightarrow>
                                Some (Inr (sign_label cfg @ ''='' @ serializedParams,
                                           sign_label cfg @ ''=:'' @ EncodeToString StdEncoding sigBytes @ '':'')))))))"

abbreviation HeaderSignature :: bytes where "HeaderSignature \<equiv> ''Signature''"
abbreviation HeaderSignatureInput :: bytes where "HeaderSignatureInput \<equiv> ''Signature-Input''"

definition appendHeader :: "http_header \<Rightarrow> bytes \<Rightarrow> bytes \<Rightarrow> http_header" where
  "appendHeader header key member =
    (let existing = Header_Get header key
     in if existing = [] then Header_Set header key member
        else Header_Set header key (existing @ '', '' @ member))"

text \<open>The fields of \<^verbatim>\<open>http.Request\<close> and \<^verbatim>\<open>http.Response\<close> that are read; a header map may be nil, and
  writing to it panics then.\<close>

record request =
  rq_Method :: bytes
  rq_URL :: "url option"
  rq_Header :: "http_header option"

record response =
  rp_StatusCode :: int
  rp_Header :: "http_header option"
  rp_Trailer :: "http_header option"

abbreviation hdr :: "http_header option \<Rightarrow> http_header" where
  "hdr h \<equiv> (case h of None \<Rightarrow> [] | Some h \<Rightarrow> h)"

definition request_message :: "request \<Rightarrow> message" where
  "request_message req =
    \<lparr>m_Method = rq_Method req, m_URL = rq_URL req, m_Header = hdr (rq_Header req), m_StatusCode = 0, m_Trailers = [],
     m_IsResponse = False\<rparr>"

definition request_context :: "request \<Rightarrow> RequestContext" where
  "request_context req = \<lparr>rc_msg = request_message req, rc_ReqContext = None\<rparr>"

definition response_context :: "response \<Rightarrow> request option \<Rightarrow> RequestContext" where
  "response_context resp origReq =
    \<lparr>rc_msg = \<lparr>m_Method = [], m_URL = None, m_Header = hdr (rp_Header resp), m_StatusCode = rp_StatusCode resp,
               m_Trailers = hdr (rp_Trailer resp), m_IsResponse = True\<rparr>,
     rc_ReqContext = map_option request_message origReq\<rparr>"

definition add_members :: "http_header option \<Rightarrow> bytes \<Rightarrow> bytes \<Rightarrow> http_header option" where
  "add_members h inputMember sigMember =
    map_option (\<lambda>h. appendHeader (appendHeader h HeaderSignatureInput inputMember) HeaderSignature sigMember) h"

definition SignRequest ::
  "unicode \<Rightarrow> crypto \<Rightarrow> nat \<Rightarrow> gotime \<Rightarrow> request option \<Rightarrow> SignConfig \<Rightarrow> (hs_error + request) option" where
  "SignRequest U C rnd now req cfg =
    (case req of
       None \<Rightarrow> Some (Inl ErrNilMessage)
     | Some req \<Rightarrow>
         (case Sign U C rnd now (Some (request_context req)) cfg of
            None \<Rightarrow> None
          | Some (Inl err) \<Rightarrow> Some (Inl err)
          | Some (Inr (inputMember, sigMember)) \<Rightarrow>
              map_option (\<lambda>h. Inr (req\<lparr>rq_Header := Some h\<rparr>)) (add_members (rq_Header req) inputMember sigMember)))"

definition SignResponse ::
  "unicode \<Rightarrow> crypto \<Rightarrow> nat \<Rightarrow> gotime \<Rightarrow> response option \<Rightarrow> request option \<Rightarrow> SignConfig \<Rightarrow> (hs_error + response) option"
  where
  "SignResponse U C rnd now resp origReq cfg =
    (case resp of
       None \<Rightarrow> Some (Inl ErrNilMessage)
     | Some resp \<Rightarrow>
         (case Sign U C rnd now (Some (response_context resp origReq)) cfg of
            None \<Rightarrow> None
          | Some (Inl err) \<Rightarrow> Some (Inl err)
          | Some (Inr (inputMember, sigMember)) \<Rightarrow>
              map_option (\<lambda>h. Inr (resp\<lparr>rp_Header := Some h\<rparr>)) (add_members (rp_Header resp) inputMember sigMember)))"

section \<open>verify.go\<close>

record VerifyConfig =
  vc_Label :: bytes
  vc_Verifier :: "verifier option"
  vc_RequiredComponents :: "bytes list"
  vc_MaxAge :: int
  vc_AllowedClockSkew :: int
  vc_RequiredTag :: bytes

text \<open>The loop of \<^verbatim>\<open>splitHeaderComma\<close>: the current part, whether a quote is open, how many parentheses and
  whether a byte sequence.\<close>

fun comma_loop :: "bytes \<Rightarrow> bool \<Rightarrow> int \<Rightarrow> bool \<Rightarrow> bytes \<Rightarrow> bytes list" where
  "comma_loop current inQuote inParen inColon [] = (if current \<noteq> [] then [current] else [])"
| "comma_loop current inQuote inParen inColon (ch # cs) =
    (if ch = dq \<and> \<not> inColon then comma_loop (current @ [ch]) (\<not> inQuote) inParen inColon cs
     else if ch = CHR ''('' \<and> \<not> inQuote then comma_loop (current @ [ch]) inQuote (inParen + 1) inColon cs
     else if ch = CHR '')'' \<and> \<not> inQuote \<and> inParen > 0 then comma_loop (current @ [ch]) inQuote (inParen - 1) inColon cs
     else if ch = CHR '':'' \<and> \<not> inQuote then comma_loop (current @ [ch]) inQuote inParen (\<not> inColon) cs
     else if ch = CHR '','' \<and> \<not> inQuote \<and> inParen = 0 \<and> \<not> inColon then
       (if current \<noteq> [] then current # comma_loop [] inQuote inParen inColon cs
        else comma_loop current inQuote inParen inColon cs)
     else comma_loop (current @ [ch]) inQuote inParen inColon cs)"

definition splitHeaderComma :: "bytes \<Rightarrow> bytes list" where
  "splitHeaderComma val = comma_loop [] False 0 False val"

fun dict_entries :: "bytes list \<Rightarrow> (bytes \<times> bytes) list" where
  "dict_entries [] = []"
| "dict_entries (item # items) =
    (let item = TrimSpace item in
     if item = [] then dict_entries items
     else case IndexByte item CHR ''='' of
            None \<Rightarrow> dict_entries items
          | Some eqIdx \<Rightarrow> (TrimSpace (take eqIdx item), TrimSpace (drop (eqIdx + 1) item)) # dict_entries items)"

definition parseDictionaryMembers :: "bytes \<Rightarrow> (bytes \<times> bytes) list" where
  "parseDictionaryMembers headerVal = dict_entries (splitHeaderComma headerVal)"

definition decodeByteSequence :: "bytes \<Rightarrow> bytes option" where
  "decodeByteSequence val =
    (let val = TrimSpace val;
         val = (if prefix '':'' val \<and> suffix '':'' val \<and> length val \<ge> 2 then take (length val - 2) (drop 1 val) else val)
     in DecodeString StdEncoding val)"

text \<open>The value of the first entry with the label, the empty string when there is none.\<close>

definition entry_value :: "bytes \<Rightarrow> (bytes \<times> bytes) list \<Rightarrow> bytes" where
  "entry_value label entries = (case map_of entries label of None \<Rightarrow> [] | Some v \<Rightarrow> v)"

definition clock_skew :: "VerifyConfig \<Rightarrow> int" where
  "clock_skew cfg = (if vc_AllowedClockSkew cfg \<le> 0 then Minute else vc_AllowedClockSkew cfg)"

definition check_identity :: "VerifyConfig \<Rightarrow> verifier \<Rightarrow> SignatureParams \<Rightarrow> hs_error option" where
  "check_identity cfg vf params =
    (if sp_Alg params \<noteq> [] \<and> sp_Alg params \<noteq> Verifier_Algorithm vf then Some ErrUnsupportedAlgorithm
     else if sp_KeyID params \<noteq> [] \<and> Verifier_KeyID vf \<noteq> [] \<and> sp_KeyID params \<noteq> Verifier_KeyID vf then Some ErrKeyMismatch
     else if vc_RequiredTag cfg \<noteq> [] \<and> sp_Tag params \<noteq> vc_RequiredTag cfg then Some ErrInvalidSignature
     else None)"

definition check_time :: "VerifyConfig \<Rightarrow> gotime \<Rightarrow> SignatureParams \<Rightarrow> hs_error option" where
  "check_time cfg now params =
    (let skew = clock_skew cfg in
     if sp_Expires params > 0 \<and> Time_After now (Time_Add (time_Unix (sp_Expires params)) skew) then Some ErrSignatureExpired
     else if sp_Created params > 0 then
       (let createdTime = time_Unix (sp_Created params) in
        if Time_After createdTime (Time_Add now skew) then Some ErrSignatureInFuture
        else if vc_MaxAge cfg > 0 \<and> Time_Sub now createdTime > wrap64 (vc_MaxAge cfg + skew) then Some ErrSignatureTooOld
        else None)
     else None)"

definition coveredSet :: "unicode \<Rightarrow> bytes list \<Rightarrow> bytes list" where
  "coveredSet U cs =
    concat (map (\<lambda>c. case ParseComponentIdentifier U c of Inl e \<Rightarrow> [] | Inr p \<Rightarrow> [pc_Serialized p, pc_Name p]) cs)"

fun check_required :: "unicode \<Rightarrow> bytes list \<Rightarrow> bytes list \<Rightarrow> hs_error option" where
  "check_required U covered [] = None"
| "check_required U covered (reqComp # rs) =
    (case ParseComponentIdentifier U reqComp of
       Inl err \<Rightarrow> Some err
     | Inr p \<Rightarrow>
         if pc_Serialized p \<notin> set covered \<and> pc_Name p \<notin> set covered then Some ErrMissingComponent
         else check_required U covered rs)"

definition check_policy :: "unicode \<Rightarrow> VerifyConfig \<Rightarrow> verifier \<Rightarrow> gotime \<Rightarrow> SignatureParams \<Rightarrow> hs_error option" where
  "check_policy U cfg vf now params =
    (case check_identity cfg vf params of
       Some err \<Rightarrow> Some err
     | None \<Rightarrow>
         (case check_time cfg now params of
            Some err \<Rightarrow> Some err
          | None \<Rightarrow> check_required U (coveredSet U (sp_Components params)) (vc_RequiredComponents cfg)))"

definition verify_entry ::
  "unicode \<Rightarrow> crypto \<Rightarrow> gotime \<Rightarrow> RequestContext \<Rightarrow> VerifyConfig \<Rightarrow> verifier \<Rightarrow> bytes \<Rightarrow> bytes \<Rightarrow> bytes \<Rightarrow>
     hs_error + SignatureParams" where
  "verify_entry U C now ctx cfg vf targetLabel rawParams rawSig =
    (case ParseSignatureParams U rawParams of
       Inl err \<Rightarrow> Inl err
     | Inr params \<Rightarrow>
         (let params = params\<lparr>sp_Label := targetLabel\<rparr>
          in case decodeByteSequence rawSig of
               None \<Rightarrow> Inl ErrInvalidStructuredField
             | Some sigBytes \<Rightarrow>
                 (case check_policy U cfg vf now params of
                    Some err \<Rightarrow> Inl err
                  | None \<Rightarrow>
                      (case BuildSignatureBase U ctx (Some params) of
                         Inl err \<Rightarrow> Inl err
                       | Inr baseBytes \<Rightarrow>
                           (case Verifier_Verify C vf baseBytes sigBytes of Some err \<Rightarrow> Inl err | None \<Rightarrow> Inr params)))))"

definition Verify ::
  "unicode \<Rightarrow> crypto \<Rightarrow> gotime \<Rightarrow> RequestContext option \<Rightarrow> VerifyConfig \<Rightarrow> hs_error + SignatureParams" where
  "Verify U C now ctx cfg =
    (case ctx of
       None \<Rightarrow> Inl ErrNilContext
     | Some ctx \<Rightarrow>
         (case vc_Verifier cfg of
            None \<Rightarrow> Inl ErrNilVerifier
          | Some vf \<Rightarrow>
              (let sigInputHeader = Header_Get (m_Header (rc_msg ctx)) HeaderSignatureInput;
                   sigHeader = Header_Get (m_Header (rc_msg ctx)) HeaderSignature
               in if sigInputHeader = [] \<or> sigHeader = [] then Inl ErrMissingSignature
                  else
                   (let inputEntries = parseDictionaryMembers sigInputHeader;
                        sigEntries = parseDictionaryMembers sigHeader
                    in if vc_Label cfg = [] \<and> inputEntries = [] then Inl ErrMissingSignature
                       else
                        (let targetLabel = (if vc_Label cfg = [] then fst (inputEntries ! 0) else vc_Label cfg);
                             rawParams = entry_value targetLabel inputEntries;
                             rawSig = entry_value targetLabel sigEntries
                         in if rawParams = [] then Inl ErrLabelMismatch
                            else if rawSig = [] then Inl ErrLabelMismatch
                            else verify_entry U C now ctx cfg vf targetLabel rawParams rawSig)))))"

definition VerifyRequest ::
  "unicode \<Rightarrow> crypto \<Rightarrow> gotime \<Rightarrow> request option \<Rightarrow> VerifyConfig \<Rightarrow> hs_error + SignatureParams" where
  "VerifyRequest U C now req cfg =
    (case req of None \<Rightarrow> Inl ErrNilMessage | Some req \<Rightarrow> Verify U C now (Some (request_context req)) cfg)"

definition VerifyResponse ::
  "unicode \<Rightarrow> crypto \<Rightarrow> gotime \<Rightarrow> response option \<Rightarrow> request option \<Rightarrow> VerifyConfig \<Rightarrow> hs_error + SignatureParams" where
  "VerifyResponse U C now resp origReq cfg =
    (case resp of None \<Rightarrow> Inl ErrNilMessage | Some resp \<Rightarrow> Verify U C now (Some (response_context resp origReq)) cfg)"

end
