(* ===== verification/HS_Ident.thy ===== *)
theory HS_Ident
  imports HS_Sign
begin

text \<open>
  Component identifiers and signature parameters written and read back: the texts
  \<open>ident_text\<close> in quoted and unquoted form, what \<open>ParseComponentIdentifier\<close> makes of them, and that
  the inner list and the parameters of \<^verbatim>\<open>Signature-Input\<close> survive the two splitters.
\<close>

section \<open>Tokens and values\<close>

definition tok :: "char \<Rightarrow> bool" where
  "tok c \<longleftrightarrow> 33 \<le> byte_val c \<and> byte_val c < 127 \<and> \<not> is_upper c \<and> c \<notin> set (dq # '';=,():'')"

definition token :: "bytes \<Rightarrow> bool" where
  "token s \<longleftrightarrow> s \<noteq> [] \<and> list_all tok s"

definition vchar :: "char \<Rightarrow> bool" where
  "vchar c \<longleftrightarrow> 32 \<le> byte_val c \<and> byte_val c < 127 \<and> c \<notin> set (dq # '';)'')"

abbreviation vtext :: "bytes \<Rightarrow> bool" where "vtext v \<equiv> list_all vchar v"

lemma tokD:
  "tok c \<Longrightarrow> c \<noteq> dq" "tok c \<Longrightarrow> c \<noteq> CHR '';''" "tok c \<Longrightarrow> c \<noteq> CHR ''=''" "tok c \<Longrightarrow> c \<noteq> CHR '',''"
  "tok c \<Longrightarrow> c \<noteq> CHR ''(''" "tok c \<Longrightarrow> c \<noteq> CHR '')''" "tok c \<Longrightarrow> c \<noteq> CHR '':''" "tok c \<Longrightarrow> c \<noteq> CHR '' ''"
  "tok c \<Longrightarrow> \<not> space_byte c" "tok c \<Longrightarrow> is_ascii c" "tok c \<Longrightarrow> \<not> is_upper c"
  by (auto simp: tok_def space_byte_def is_ascii_def byte_eval)

lemma vcharD: "vchar c \<Longrightarrow> c \<noteq> dq" "vchar c \<Longrightarrow> c \<noteq> CHR '';''" "vchar c \<Longrightarrow> c \<noteq> CHR '')''" "vchar c \<Longrightarrow> is_ascii c"
  by (auto simp: vchar_def is_ascii_def)

lemma dq_facts [simp]: "\<not> space_byte dq" "is_ascii dq" "\<not> space_byte CHR '';''" "\<not> space_byte CHR ''(''" "\<not> space_byte CHR '')''"
  "\<not> space_byte CHR '':''"
  by (simp_all add: space_byte_def is_ascii_def byte_eval)

lemma token_edges: "token s \<Longrightarrow> s \<noteq> [] \<and> \<not> space_byte (hd s) \<and> \<not> space_byte (last s)"
  by (auto simp: token_def list_all_iff tokD)

lemma TrimSpace_token: "token s \<Longrightarrow> TrimSpace s = s"
  using token_edges TrimSpace_edges by blast

lemma ToLower_token: "token s \<Longrightarrow> ToLower U s = s"
  by (rule ToLower_lower) (auto simp: token_def list_all_iff tokD)

lemma token_notin: "token s \<Longrightarrow> c \<in> set (dq # '';=,(): '') \<Longrightarrow> c \<notin> set s"
  by (auto simp: token_def list_all_iff dest: tokD)

definition quote :: "bytes \<Rightarrow> bytes" where
  "quote v = dq # v @ [dq]"

lemma TrimSpace_quote [simp]: "TrimSpace (quote v) = quote v"
  by (rule TrimSpace_edges) (simp_all add: quote_def)

lemma strip_quote [simp]: "strip_quotes (quote v) = v"
  by (simp add: strip_quotes_def quote_def suffix_def)

lemma IndexByte_eq: "token n \<Longrightarrow> IndexByte (n @ CHR ''='' # r) CHR ''='' = Some (length n)"
  by (rule IndexByte_append) (simp add: token_notin)

section \<open>Identifiers\<close>

datatype cparam = Flag bytes | Val bytes bytes

fun param_body :: "cparam \<Rightarrow> bytes" where
  "param_body (Flag f) = f"
| "param_body (Val n v) = n @ ''='' @ quote v"

fun param_ok :: "cparam \<Rightarrow> bool" where
  "param_ok (Flag f) \<longleftrightarrow> token f"
| "param_ok (Val n v) \<longleftrightarrow> token n \<and> vtext v"

definition params_text :: "cparam list \<Rightarrow> bytes" where
  "params_text ps = concat (map (\<lambda>p. CHR '';'' # param_body p) ps)"

type_synonym ident = "bytes \<times> cparam list"

definition ident_text :: "bool \<Rightarrow> ident \<Rightarrow> bytes" where
  "ident_text quoted i = (if quoted then quote (fst i) else fst i) @ params_text (snd i)"

fun apply_param :: "cparam \<Rightarrow> ParsedComponent \<Rightarrow> ParsedComponent" where
  "apply_param (Flag f) c = component_flag f c"
| "apply_param (Val n v) c = component_value n v c"

definition ident_parsed :: "bytes \<Rightarrow> ident \<Rightarrow> ParsedComponent" where
  "ident_parsed raw i =
    fold apply_param (snd i)
      \<lparr>pc_Raw = raw, pc_Name = fst i, pc_Key = [], pc_NameParam = [], pc_SF = False, pc_BS = False, pc_Req = False,
       pc_TR = False, pc_Serialized = quote (fst i)\<rparr>"

definition ident_ok :: "ident \<Rightarrow> bool" where
  "ident_ok i \<longleftrightarrow> token (fst i) \<and> list_all param_ok (snd i) \<and>
    (let c = ident_parsed [] i in \<not> (pc_BS c \<and> (pc_SF c \<or> pc_Key c \<noteq> [])))"

lemma param_edges: "param_ok p \<Longrightarrow> param_body p \<noteq> [] \<and> \<not> space_byte (hd (param_body p)) \<and> \<not> space_byte (last (param_body p))"
  by (cases p) (auto simp: quote_def token_edges hd_append)

lemma param_no_semicolon: "param_ok p \<Longrightarrow> CHR '';'' \<notin> set (param_body p)"
  by (cases p) (auto simp: quote_def token_notin list_all_iff dest: vcharD)

lemma component_param_body: "param_ok p \<Longrightarrow> component_param U (param_body p) = apply_param p"
proof
  fix c assume p: "param_ok p"
  then have [simp]: "TrimSpace (param_body p) = param_body p" "param_body p \<noteq> []"
    using param_edges TrimSpace_edges by blast+
  show "component_param U (param_body p) c = apply_param p c"
  proof (cases p)
    case (Flag f)
    then have "IndexByte f CHR ''='' = None" using p by (simp add: IndexByte_None_iff token_notin)
    then show ?thesis using Flag p \<open>param_body p \<noteq> []\<close>
      by (simp add: component_param_def TrimSpace_token ToLower_token)
  next
    case (Val n v)
    then show ?thesis using p \<open>param_body p \<noteq> []\<close> \<open>TrimSpace (param_body p) = param_body p\<close>
      by (simp add: component_param_def IndexByte_eq TrimSpace_token ToLower_token)
  qed
qed

lemma Split_texts:
  "list_all (\<lambda>b. CHR '';'' \<notin> set b) bs \<Longrightarrow> CHR '';'' \<notin> set a \<Longrightarrow>
    Split CHR '';'' (a @ concat (map (\<lambda>b. CHR '';'' # b) bs)) = a # bs"
proof (induction bs arbitrary: a)
  case Nil
  then show ?case by (simp add: Split_plain)
next
  case (Cons b bs)
  from Cons.IH [of b] Cons.prems show ?case
    by (simp add: Split_append [of "CHR '';''" a "b @ concat (map (\<lambda>b. CHR '';'' # b) bs)"])
qed

lemma fold_serialized: "pc_Serialized (fold apply_param ps c) = pc_Serialized c @ params_text ps"
proof (induction ps arbitrary: c)
  case (Cons p ps)
  then show ?case
    by (cases p) (simp_all add: params_text_def component_flag_def component_value_def quote_def Let_def)
qed (simp add: params_text_def)

lemma fold_raw: "fold apply_param ps (c\<lparr>pc_Raw := r\<rparr>) = (fold apply_param ps c)\<lparr>pc_Raw := r\<rparr>"
proof (induction ps arbitrary: c)
  case (Cons p ps)
  have "apply_param p (c\<lparr>pc_Raw := r\<rparr>) = (apply_param p c)\<lparr>pc_Raw := r\<rparr>"
    by (cases p) (simp_all add: component_flag_def component_value_def Let_def)
  then show ?case using Cons [of "apply_param p c"] by simp
qed simp


lemma ident_serialized [simp]: "pc_Serialized (ident_parsed raw i) = ident_text True i"
  by (simp add: ident_parsed_def fold_serialized ident_text_def)

lemma ident_name [simp]: "pc_Name (ident_parsed raw i) = fst i"
proof -
  have "pc_Name (fold apply_param ps c) = pc_Name c" for ps c
  proof (induction ps arbitrary: c)
    case (Cons p ps)
    then show ?case by (cases p) (simp_all add: component_flag_def component_value_def Let_def)
  qed simp
  then show ?thesis by (simp add: ident_parsed_def)
qed

lemma ident_raw: "ident_parsed raw i = (ident_parsed [] i)\<lparr>pc_Raw := raw\<rparr>"
  by (simp add: ident_parsed_def fold_raw [symmetric])

lemma params_text_edges:
  "list_all param_ok ps \<Longrightarrow> ps \<noteq> [] \<Longrightarrow>
    params_text ps \<noteq> [] \<and> hd (params_text ps) = CHR '';'' \<and> \<not> space_byte (last (params_text ps))"
proof (induction ps rule: rev_induct)
  case (snoc p ps)
  then have "param_body p \<noteq> [] \<and> \<not> space_byte (last (param_body p))" using param_edges by simp
  then show ?case by (cases ps) (auto simp: params_text_def)
qed simp

lemma ident_edges:
  assumes "ident_ok i"
  shows "ident_text q i \<noteq> []" and "\<not> space_byte (hd (ident_text q i))" and "\<not> space_byte (last (ident_text q i))"
  using assms token_edges [of "fst i"] params_text_edges [of "snd i"]
  by (cases "snd i = []"; auto simp: ident_ok_def ident_text_def quote_def params_text_def)+

lemma split_name_ident:
  assumes "ident_ok i"
  shows "split_name (ident_text q i) = Inr (fst i, params_text (snd i))"
proof -
  have t: "token (fst i)" "list_all param_ok (snd i)" using assms by (simp_all add: ident_ok_def)
  have "TrimSpace (params_text (snd i)) = params_text (snd i)"
    using params_text_edges [OF t(2)] by (cases "snd i = []") (auto simp: params_text_def intro!: TrimSpace_edges)
  moreover have "IndexByte (fst i @ dq # params_text (snd i)) dq = Some (length (fst i))"
    by (rule IndexByte_append) (simp add: token_notin [OF t(1)])
  moreover have "IndexByte (fst i @ params_text (snd i)) CHR '';'' =
      (if snd i = [] then None else Some (length (fst i)))"
    using token_notin [OF t(1)] by (cases "snd i") (auto simp: params_text_def IndexByte_None_iff intro!: IndexByte_append)
  moreover have "\<not> prefix [dq] (fst i @ params_text (snd i))"
    using t(1) token_notin [OF t(1), of dq] by (cases "fst i") (auto simp: token_def)
  ultimately show ?thesis
    using TrimSpace_token [OF t(1)] by (auto simp: split_name_def ident_text_def quote_def params_text_def)
qed

lemma parse_ident:
  assumes "ident_ok i"
  shows "ParseComponentIdentifier U (ident_text q i) = Inr (ident_parsed (ident_text q i) i)"
proof -
  let ?s = "ident_text q i"
  have t: "token (fst i)" "list_all param_ok (snd i)" using assms by (simp_all add: ident_ok_def)
  have tr: "TrimSpace ?s = ?s" "?s \<noteq> []" using ident_edges [OF assms] TrimSpace_edges by blast+
  have "fold (component_param U) (map param_body (snd i)) c = fold apply_param (snd i) c" for c
    using t(2) by (auto simp: fold_map list_all_iff component_param_body intro!: fold_cong)
  moreover have "Split CHR '';'' (params_text (snd i)) = [] # map param_body (snd i)"
    using Split_texts [of "map param_body (snd i)" "[]"] t(2) param_no_semicolon
    by (auto simp: params_text_def list_all_iff comp_def)
  moreover have "component_param U [] c = c" for c by (simp add: component_param_def)
  moreover have "params_text (snd i) = [] \<longleftrightarrow> snd i = []" by (simp add: params_text_def)
  ultimately have "ParseComponentIdentifier U ?s =
      (let c = ident_parsed ?s i in if pc_BS c \<and> (pc_SF c \<or> pc_Key c \<noteq> []) then Inl ErrInvalidStructuredField else Inr c)"
    using tr split_name_ident [OF assms, of q] ToLower_token [OF t(1), of U]
    by (cases "snd i = []") (simp_all add: ParseComponentIdentifier_def ident_parsed_def quote_def Let_def)
  then show ?thesis using assms by (simp add: ident_raw [of ?s] ident_ok_def Let_def)
qed


section \<open>The inner list\<close>

lemma inner_quoted: "dq \<notin> set s \<Longrightarrow> inner_loop cur True (s @ r) = inner_loop (cur @ s) True r"
  by (induction s arbitrary: cur) auto

lemma inner_plain: "dq \<notin> set s \<Longrightarrow> CHR '' '' \<notin> set s \<Longrightarrow> inner_loop cur False (s @ r) = inner_loop (cur @ s) False r"
  by (induction s arbitrary: cur) auto

lemma inner_quote: "dq \<notin> set v \<Longrightarrow> inner_loop cur False (quote v @ r) = inner_loop (cur @ quote v) False r"
  using inner_quoted [of v "cur @ [dq]" "dq # r"] by (simp add: quote_def)

lemma vtext_notin: "vtext v \<Longrightarrow> c \<in> {dq, CHR '';'', CHR '')''} \<Longrightarrow> c \<notin> set v"
  by (auto simp: list_all_iff dest: vcharD)

lemma inner_param: "param_ok p \<Longrightarrow> inner_loop cur False (CHR '';'' # param_body p @ r) = inner_loop (cur @ CHR '';'' # param_body p) False r"
proof (cases p)
  case (Flag f)
  assume "param_ok p"
  then show ?thesis using Flag inner_plain [of "CHR '';'' # f" cur r] by (simp add: token_notin)
next
  case (Val n v)
  assume "param_ok p"
  then show ?thesis
    using Val inner_plain [of "CHR '';'' # n @ ''=''" cur "quote v @ r"] inner_quote [of v "cur @ CHR '';'' # n @ ''=''" r]
    by (simp add: token_notin vtext_notin)
qed

lemma inner_params: "list_all param_ok ps \<Longrightarrow> inner_loop cur False (params_text ps @ r) = inner_loop (cur @ params_text ps) False r"
proof (induction ps arbitrary: cur)
  case (Cons p ps)
  then show ?case using inner_param [of p cur "params_text ps @ r"] by (simp add: params_text_def)
qed (simp add: params_text_def)

lemma inner_ident: "ident_ok i \<Longrightarrow> inner_loop cur False (ident_text True i @ r) = inner_loop (cur @ ident_text True i) False r"
  by (simp add: ident_text_def ident_ok_def inner_quote token_notin inner_params)

lemma splitInnerList_idents:
  "list_all ident_ok is \<Longrightarrow> splitInnerList (Join '' '' (map (ident_text True) is)) = map (ident_text True) is"
  unfolding splitInnerList_def
proof (induction "is")
  case (Cons i "is")
  have i: "ident_ok i" using Cons by simp
  show ?case
  proof (cases "is = []")
    case True
    then show ?thesis using inner_ident [OF i, of "[]" "[]"] ident_edges [OF i, of True] by simp
  next
    case False
    then have "Join '' '' (map (ident_text True) (i # is)) = ident_text True i @ CHR '' '' # Join '' '' (map (ident_text True) is)"
      by (simp add: Join_Cons)
    then show ?thesis
      using Cons inner_ident [OF i, of "[]" "CHR '' '' # Join '' '' (map (ident_text True) is)"] ident_edges [OF i, of True]
      by simp
  qed
qed simp

section \<open>The parameters\<close>

definition value_item :: "bytes \<Rightarrow> bytes \<Rightarrow> bytes list" where
  "value_item name v = (if v \<noteq> [] then [name @ ''='' @ quote v] else [])"

definition int_item :: "bytes \<Rightarrow> int \<Rightarrow> bytes list" where
  "int_item name n = (if n > 0 then [name @ ''='' @ FormatInt n] else [])"

definition sig_items :: "SignatureParams \<Rightarrow> bytes list" where
  "sig_items P = int_item ''created'' (sp_Created P) @ int_item ''expires'' (sp_Expires P) @
    value_item ''keyid'' (sp_KeyID P) @ value_item ''alg'' (sp_Alg P) @ value_item ''nonce'' (sp_Nonce P) @
    value_item ''tag'' (sp_Tag P)"

definition values_ok :: "SignatureParams \<Rightarrow> bool" where
  "values_ok P \<longleftrightarrow> vtext (sp_KeyID P) \<and> vtext (sp_Alg P) \<and> vtext (sp_Nonce P) \<and> vtext (sp_Tag P) \<and>
    sp_Created P \<le> MaxInt64 \<and> sp_Expires P \<le> MaxInt64"

definition inner_text :: "ident list \<Rightarrow> bytes" where
  "inner_text is = Join '' '' (map (ident_text True) is)"

definition sig_text :: "ident list \<Rightarrow> SignatureParams \<Rightarrow> bytes" where
  "sig_text is P = CHR ''('' # inner_text is @ CHR '')'' # concat (map (\<lambda>b. CHR '';'' # b) (sig_items P))"

abbreviation ids_ok :: "(bool \<times> ident) list \<Rightarrow> bool" where
  "ids_ok cs \<equiv> list_all (\<lambda>c. ident_ok (snd c)) cs"

definition ids_text :: "(bool \<times> ident) list \<Rightarrow> bytes list" where
  "ids_text cs = map (\<lambda>c. ident_text (fst c) (snd c)) cs"

lemma serialize_components_idents:
  "ids_ok cs \<Longrightarrow> serialize_components U (ids_text cs) = Inr (map (ident_text True) (map snd cs))"
  unfolding ids_text_def by (induction cs) (auto simp: parse_ident)

lemma Serialize_idents:
  assumes "sp_Components P = ids_text cs" and "ids_ok cs"
  shows "SerializeSignatureParams U P = Inr (sig_text (map snd cs) P)"
  using serialize_components_idents [OF assms(2), of U] assms(1)
  by (simp add: SerializeSignatureParams_def sig_text_def inner_text_def sig_items_def int_param_def quoted_param_def
      int_item_def value_item_def quote_def)

lemma token_names: "token ''created''" "token ''expires''" "token ''keyid''" "token ''alg''" "token ''nonce''" "token ''tag''"
  by (simp_all add: token_def tok_def byte_eval is_upper_def)

lemma FormatInt_text: "n > 0 \<Longrightarrow> FormatInt n \<noteq> [] \<and> list_all is_digit (FormatInt n)"
  using format_nat_digits [of "nat n"] by (auto simp: FormatInt_def list_all_iff)

lemma digit_facts: "is_digit c \<Longrightarrow> \<not> space_byte c \<and> vchar c \<and> is_ascii c"
  by (auto simp: is_digit_def space_byte_def vchar_def is_ascii_def byte_eval)

lemma FormatInt_plain:
  assumes "n > 0"
  shows "FormatInt n \<noteq> []" "vtext (FormatInt n)" "TrimSpace (FormatInt n) = FormatInt n"
    "strip_quotes (FormatInt n) = FormatInt n" "\<not> space_byte (last (FormatInt n))"
proof -
  have d: "FormatInt n \<noteq> []" "list_all is_digit (FormatInt n)" using FormatInt_text [OF assms] by simp_all
  then show "FormatInt n \<noteq> []" "vtext (FormatInt n)" "\<not> space_byte (last (FormatInt n))"
    using digit_facts by (auto simp: list_all_iff)
  show "TrimSpace (FormatInt n) = FormatInt n"
    using d(2) digit_facts by (intro TrimSpace_printable) (auto simp: list_all_iff)
  have "\<not> prefix [dq] (FormatInt n)" using d digit_facts [of dq] by (cases "FormatInt n") (auto simp: vchar_def)
  then show "strip_quotes (FormatInt n) = FormatInt n" by (simp add: strip_quotes_def)
qed

lemma item_trim:
  assumes "token name" and "v \<noteq> []" and "\<not> space_byte (last v)"
  shows "TrimSpace (name @ CHR ''='' # v) = name @ CHR ''='' # v"
  using assms token_edges [OF assms(1)] by (intro TrimSpace_edges) auto

text \<open>One parameter read: its name and its value without the quotes.\<close>

lemma signature_param_item:
  assumes "token name" and "v \<noteq> []" and "\<not> space_byte (last v)" and "TrimSpace v = v"
  shows "signature_param U (name @ CHR ''='' # v) P =
    (if name = ''created'' then (case ParseInt64 (strip_quotes v) of (c, None) \<Rightarrow> P\<lparr>sp_Created := c\<rparr> | _ \<Rightarrow> P)
     else if name = ''expires'' then (case ParseInt64 (strip_quotes v) of (e, None) \<Rightarrow> P\<lparr>sp_Expires := e\<rparr> | _ \<Rightarrow> P)
     else if name = ''keyid'' then P\<lparr>sp_KeyID := strip_quotes v\<rparr>
     else if name = ''alg'' then P\<lparr>sp_Alg := strip_quotes v\<rparr>
     else if name = ''nonce'' then P\<lparr>sp_Nonce := strip_quotes v\<rparr>
     else if name = ''tag'' then P\<lparr>sp_Tag := strip_quotes v\<rparr>
     else P)"
  using assms item_trim [OF assms(1-3)]
  by (simp add: signature_param_def IndexByte_eq TrimSpace_token ToLower_token)

lemma read_int_items:
  assumes "n \<le> MaxInt64"
  shows "fold (signature_param U) (int_item ''created'' n) P = (if n > 0 then P\<lparr>sp_Created := n\<rparr> else P)"
    and "fold (signature_param U) (int_item ''expires'' n) P = (if n > 0 then P\<lparr>sp_Expires := n\<rparr> else P)"
  using assms ParseInt64_FormatInt [of n]
    signature_param_item [OF token_names(1), of "FormatInt n" U P] signature_param_item [OF token_names(2), of "FormatInt n" U P]
  by (simp_all add: int_item_def FormatInt_plain)

lemma quote_last: "quote v \<noteq> []" "\<not> space_byte (last (quote v))"
  by (simp_all add: quote_def)

lemma read_value_items:
  "fold (signature_param U) (value_item ''keyid'' v) P = (if v \<noteq> [] then P\<lparr>sp_KeyID := v\<rparr> else P)"
  "fold (signature_param U) (value_item ''alg'' v) P = (if v \<noteq> [] then P\<lparr>sp_Alg := v\<rparr> else P)"
  "fold (signature_param U) (value_item ''nonce'' v) P = (if v \<noteq> [] then P\<lparr>sp_Nonce := v\<rparr> else P)"
  "fold (signature_param U) (value_item ''tag'' v) P = (if v \<noteq> [] then P\<lparr>sp_Tag := v\<rparr> else P)"
  using signature_param_item [OF token_names(3), of "quote v" U P] signature_param_item [OF token_names(4), of "quote v" U P]
    signature_param_item [OF token_names(5), of "quote v" U P] signature_param_item [OF token_names(6), of "quote v" U P]
  by (simp_all add: value_item_def quote_last)

definition read_back :: "ident list \<Rightarrow> SignatureParams \<Rightarrow> SignatureParams" where
  "read_back is P =
    P\<lparr>sp_Label := [], sp_Components := map (ident_text True) is, sp_Created := max 0 (sp_Created P),
      sp_Expires := max 0 (sp_Expires P)\<rparr>"

lemma read_items:
  assumes "values_ok P"
  shows "fold (signature_param U) (sig_items P) (no_params\<lparr>sp_Components := map (ident_text True) is\<rparr>) = read_back is P"
  using assms unfolding values_ok_def sig_items_def fold_append o_def
  by (simp add: read_int_items read_value_items read_back_def no_params_def)


lemma item_cases:
  assumes "values_ok P" and "b \<in> set (sig_items P)"
  obtains (int) name n where "token name" "n > 0" "b = name @ CHR ''='' # FormatInt n"
    | (val) name v where "token name" "vtext v" "b = name @ CHR ''='' # quote v"
  using assms token_names by (auto simp: sig_items_def int_item_def value_item_def values_ok_def split: if_splits)

lemma items_ok:
  assumes "values_ok P" and "b \<in> set (sig_items P)"
  shows "CHR '';'' \<notin> set b" and "\<exists>b' c. b = b' @ [c] \<and> \<not> space_byte c"
proof -
  have "CHR '';'' \<notin> set b \<and> b \<noteq> [] \<and> \<not> space_byte (last b)"
    using assms
  proof (cases rule: item_cases)
    case (int name n)
    then show ?thesis using FormatInt_plain [OF int(2)] by (auto simp: token_notin vtext_notin)
  next
    case (val name v)
    then show ?thesis by (auto simp: token_notin vtext_notin quote_def)
  qed
  then show "CHR '';'' \<notin> set b" "\<exists>b' c. b = b' @ [c] \<and> \<not> space_byte c"
    by (auto intro!: exI [of _ "butlast b"] exI [of _ "last b"])
qed

lemma items_text_trim:
  assumes "values_ok P"
  shows "TrimSpace (concat (map (\<lambda>b. CHR '';'' # b) (sig_items P))) = concat (map (\<lambda>b. CHR '';'' # b) (sig_items P))"
proof (cases "sig_items P" rule: rev_cases)
  case (snoc bs b)
  then obtain b' c where "b = b' @ [c]" "\<not> space_byte c" using items_ok(2) [OF assms, of b] by auto
  with snoc show ?thesis by (intro TrimSpace_edges) (cases bs; simp)+
qed simp

lemma ident_no_paren: "ident_ok i \<Longrightarrow> CHR '')'' \<notin> set (ident_text True i)"
proof -
  have "CHR '')'' \<notin> set (param_body p)" if "param_ok p" for p
    using that by (cases p) (auto simp: token_notin vtext_notin quote_def)
  then show "ident_ok i \<Longrightarrow> CHR '')'' \<notin> set (ident_text True i)"
    by (auto simp: ident_ok_def ident_text_def params_text_def quote_def token_notin list_all_iff)
qed

lemma inner_text_facts:
  assumes "list_all ident_ok is"
  shows "CHR '')'' \<notin> set (inner_text is)" and "TrimSpace (inner_text is) = inner_text is" and "inner_text is = [] \<longleftrightarrow> is = []"
proof -
  have "CHR '')'' \<notin> set (inner_text is) \<and> (is \<noteq> [] \<longrightarrow>
      inner_text is \<noteq> [] \<and> \<not> space_byte (hd (inner_text is)) \<and> \<not> space_byte (last (inner_text is)))"
    using assms
  proof (induction "is")
    case (Cons i "is")
    then show ?case using ident_edges [of i True] ident_no_paren [of i]
      by (cases "is") (auto simp: inner_text_def)
  qed (simp add: inner_text_def)
  then show "CHR '')'' \<notin> set (inner_text is)" "TrimSpace (inner_text is) = inner_text is" "inner_text is = [] \<longleftrightarrow> is = []"
    by (cases "is = []"; auto simp: inner_text_def intro: TrimSpace_edges)+
qed

lemma sig_text_not_Nil [simp]: "sig_text is P \<noteq> []"
  by (simp add: sig_text_def)

lemma sig_text_last: "values_ok P \<Longrightarrow> \<not> space_byte (last (sig_text is P))"
proof (cases "sig_items P" rule: rev_cases)
  case (snoc bs b)
  assume "values_ok P"
  then obtain b' c where "b = b' @ [c]" "\<not> space_byte c" using items_ok(2) [of P b] snoc by auto
  with snoc show ?thesis by (simp add: sig_text_def)
qed (simp add: sig_text_def)

lemma sig_text_trim: "values_ok P \<Longrightarrow> TrimSpace (sig_text is P) = sig_text is P"
  using sig_text_last by (intro TrimSpace_edges) (simp_all add: sig_text_def)

lemma Parse_sig_text:
  assumes "list_all ident_ok is" and "values_ok P"
  shows "ParseSignatureParams U (sig_text is P) = Inr (read_back is P)"
proof -
  let ?tail = "concat (map (\<lambda>b. CHR '';'' # b) (sig_items P))"
  note inner = inner_text_facts [OF assms(1)]
  have i: "IndexByte (sig_text is P) CHR '')'' = Some (length (inner_text is) + 1)"
    using IndexByte_append [of "CHR '')''" "CHR ''('' # inner_text is" ?tail] inner(1) by (simp add: sig_text_def)
  have c: "(if inner_text is \<noteq> [] then splitInnerList (inner_text is) else []) = map (ident_text True) is"
    using splitInnerList_idents [OF assms(1)] inner(3) by (simp add: inner_text_def)
  have "Split CHR '';'' ?tail = [] # sig_items P"
    using Split_texts [of "sig_items P" "[]"] items_ok(1) [OF assms(2)] by (simp add: list_all_iff)
  moreover have "signature_param U [] Q = Q" for Q by (simp add: signature_param_def)
  ultimately have f: "(if ?tail \<noteq> [] then fold (signature_param U) (Split CHR '';'' ?tail) Q else Q) =
      fold (signature_param U) (sig_items P) Q" for Q
    by (cases "sig_items P") auto
  have d: "take (length (inner_text is)) (drop 1 (sig_text is P)) = inner_text is"
    "drop (Suc (Suc (length (inner_text is)))) (sig_text is P) = ?tail" "prefix ''('' (sig_text is P)"
    by (simp_all add: sig_text_def)
  show ?thesis
    using i c f d inner(2) items_text_trim [OF assms(2)] sig_text_trim [OF assms(2), of "is"] read_items [OF assms(2), of U "is"]
    by (simp add: ParseSignatureParams_def)
qed

end
