(* ===== verification/HS_Verify.thy ===== *)
theory HS_Verify
  imports HS_Ident
begin

text \<open>
  Package \<^verbatim>\<open>httpsig\<close>: what signing and verifying promise.  A signed message verifies, with
  earlier signatures in its headers too, unless the policy of the verifier rejects its
  parameters; what verifies satisfies the policy; the signature base determines the
  values of the covered components; content digests.
\<close>

section \<open>The members of the signature headers\<close>

text \<open>A text in whose scan \<^verbatim>\<open>splitHeaderComma\<close> is where it was, with nothing cut off.\<close>

definition one_part :: "int \<Rightarrow> bytes \<Rightarrow> bool" where
  "one_part n s \<longleftrightarrow> (\<forall>cur r. comma_loop cur False n False (s @ r) = comma_loop (cur @ s) False n False r)"

lemma one_partD: "one_part n s \<Longrightarrow> comma_loop cur False n False (s @ r) = comma_loop (cur @ s) False n False r"
  unfolding one_part_def by blast

lemma one_part_append: "one_part n s \<Longrightarrow> one_part n t \<Longrightarrow> one_part n (s @ t)"
  by (simp add: one_part_def)

lemma one_part_concat: "list_all (one_part n) ss \<Longrightarrow> one_part n (concat ss)"
  by (induction ss) (auto simp: one_part_append, simp add: one_part_def)

lemma one_part_plain:
  "set s \<inter> set (dq # ''():,'') = {} \<Longrightarrow> one_part n s"
  unfolding one_part_def
proof (intro allI)
  fix cur r
  show "set s \<inter> set (dq # ''():,'') = {} \<Longrightarrow> comma_loop cur False n False (s @ r) = comma_loop (cur @ s) False n False r"
    by (induction s arbitrary: cur) auto
qed

lemma one_part_quote: "dq \<notin> set v \<Longrightarrow> one_part n (quote v)"
  unfolding one_part_def
proof (intro allI)
  fix cur r
  have "comma_loop c True n False (v @ t) = comma_loop (c @ v) True n False t" if "dq \<notin> set v" for v c t
    using that by (induction v arbitrary: c) auto
  from this [of v "cur @ [dq]" "dq # r"]
  show "dq \<notin> set v \<Longrightarrow> comma_loop cur False n False (quote v @ r) = comma_loop (cur @ quote v) False n False r"
    by (simp add: quote_def)
qed

lemma one_part_parens: "one_part 1 s \<Longrightarrow> one_part 0 (''('' @ s @ '')'')"
  unfolding one_part_def
proof (intro allI)
  fix cur r
  assume "\<forall>cur r. comma_loop cur False 1 False (s @ r) = comma_loop (cur @ s) False 1 False r"
  then have "comma_loop (cur @ ''('') False 1 False (s @ CHR '')'' # r) = comma_loop (cur @ ''('' @ s) False 1 False (CHR '')'' # r)"
    by simp
  then show "comma_loop cur False 0 False ((''('' @ s @ '')'') @ r) = comma_loop (cur @ ''('' @ s @ '')'') False 0 False r"
    by simp
qed

lemma one_part_colons: "set s \<inter> set ''():'' = {} \<Longrightarrow> one_part 0 ('':'' @ s @ '':'')"
  unfolding one_part_def
proof (intro allI)
  fix cur r
  have "comma_loop c False 0 True (s @ t) = comma_loop (c @ s) False 0 True t" if "set s \<inter> set ''():'' = {}" for s c t
    using that by (induction s arbitrary: c) auto
  from this [of s "cur @ '':''" "CHR '':'' # r"]
  show "set s \<inter> set ''():'' = {} \<Longrightarrow>
      comma_loop cur False 0 False (('':'' @ s @ '':'') @ r) = comma_loop (cur @ '':'' @ s @ '':'') False 0 False r"
    by simp
qed

lemma one_part_token: "token s \<Longrightarrow> one_part n s"
  by (rule one_part_plain) (auto simp: token_def list_all_iff dest: tokD)

lemma one_part_params: "list_all param_ok ps \<Longrightarrow> one_part n (params_text ps)"
  unfolding params_text_def
proof (rule one_part_concat, unfold list_all_iff, clarsimp)
  fix p assume "\<forall>p \<in> set ps. param_ok p" "p \<in> set ps"
  then have p: "param_ok p" by simp
  have "one_part n '';''" "one_part n ''=''" by (simp_all add: one_part_plain)
  then show "one_part n (CHR '';'' # param_body p)"
    using p one_part_append [of n "'';''"] one_part_token one_part_quote [of _ n] one_part_append [of n "''=''"]
    by (cases p) (auto simp: vtext_notin intro!: one_part_append [of n "'';''", simplified] one_part_append)
qed

lemma one_part_ident: "ident_ok i \<Longrightarrow> one_part n (ident_text True i)"
  by (simp add: ident_ok_def ident_text_def one_part_append one_part_quote token_notin one_part_params)

lemma one_part_inner: "list_all ident_ok is \<Longrightarrow> one_part n (inner_text is)"
proof (induction "is")
  case (Cons i "is")
  have "one_part n '' ''" by (simp add: one_part_plain)
  then show ?case using Cons one_part_ident [of i n] by (cases "is") (auto simp: inner_text_def intro!: one_part_append [of n "'' ''", simplified] one_part_append)
qed (simp add: inner_text_def one_part_def)

lemma one_part_items: "values_ok P \<Longrightarrow> one_part 0 (concat (map (\<lambda>b. CHR '';'' # b) (sig_items P)))"
proof (rule one_part_concat, unfold list_all_iff, clarsimp)
  fix b assume P: "values_ok P" and b: "b \<in> set (sig_items P)"
  have eq: "one_part 0 ''=''" by (simp add: one_part_plain)
  have "one_part 0 b"
    using P b
  proof (cases rule: item_cases)
    case (int name n)
    have "one_part 0 (FormatInt n)"
      using FormatInt_text [OF int(2)] by (intro one_part_plain) (auto simp: list_all_iff is_digit_def byte_eval)
    then show ?thesis using int one_part_append [OF eq] one_part_append [OF one_part_token [OF int(1)]] by simp
  next
    case (val name v)
    then have "one_part 0 (quote v)" by (simp add: one_part_quote vtext_notin)
    then show ?thesis using val one_part_append [OF eq] one_part_append [OF one_part_token [OF val(1)]] by simp
  qed
  moreover have "one_part 0 '';''" by (simp add: one_part_plain)
  ultimately show "one_part 0 (CHR '';'' # b)" using one_part_append [of 0 "'';''" b] by simp
qed

lemma one_part_sig_text: "list_all ident_ok is \<Longrightarrow> values_ok P \<Longrightarrow> one_part 0 (sig_text is P)"
  using one_part_append [OF one_part_parens [OF one_part_inner [of "is" 1]] one_part_items [of P]] by (simp add: sig_text_def)


section \<open>Adding a member to a header\<close>

text \<open>Where \<^verbatim>\<open>splitHeaderComma\<close> is after a text: in a quote, how many parentheses, in a byte sequence.\<close>

fun comma_end :: "bool \<Rightarrow> int \<Rightarrow> bool \<Rightarrow> bytes \<Rightarrow> bool \<times> int \<times> bool" where
  "comma_end inQuote inParen inColon [] = (inQuote, inParen, inColon)"
| "comma_end inQuote inParen inColon (ch # cs) =
    (if ch = dq \<and> \<not> inColon then comma_end (\<not> inQuote) inParen inColon cs
     else if ch = CHR ''('' \<and> \<not> inQuote then comma_end inQuote (inParen + 1) inColon cs
     else if ch = CHR '')'' \<and> \<not> inQuote \<and> inParen > 0 then comma_end inQuote (inParen - 1) inColon cs
     else if ch = CHR '':'' \<and> \<not> inQuote then comma_end inQuote inParen (\<not> inColon) cs
     else comma_end inQuote inParen inColon cs)"

lemma comma_loop_append:
  "comma_end q n c s = (False, 0, False) \<Longrightarrow>
    comma_loop cur q n c (s @ CHR '','' # r) = comma_loop cur q n c s @ comma_loop [] False 0 False r"
proof (induction s arbitrary: cur q n c)
  case (Cons ch s)
  let ?a = "ch = dq \<and> \<not> c" and ?b = "ch = CHR ''('' \<and> \<not> q" and ?c = "ch = CHR '')'' \<and> \<not> q \<and> n > 0"
    and ?d = "ch = CHR '':'' \<and> \<not> q" and ?e = "ch = CHR '','' \<and> \<not> q \<and> n = 0 \<and> \<not> c"
  consider ?a | "\<not> ?a" ?b | "\<not> ?a" "\<not> ?b" ?c | "\<not> ?a" "\<not> ?b" "\<not> ?c" ?d | "\<not> ?a" "\<not> ?b" "\<not> ?c" "\<not> ?d" ?e
    | (other) "\<not> ?a" "\<not> ?b" "\<not> ?c" "\<not> ?d" "\<not> ?e"
    by blast
  then show ?case
  proof cases
    case other
    then show ?thesis using Cons.prems Cons.IH [of q n c "cur @ [ch]"]
      by (simp only: append_Cons comma_loop.simps comma_end.simps if_False)
  qed (use Cons.prems in \<open>simp_all add: Cons.IH\<close>)
qed simp

lemma dict_entries_append: "dict_entries (xs @ ys) = dict_entries xs @ dict_entries ys"
  by (induction xs) (auto simp: Let_def split: option.splits)

definition appended :: "bytes \<Rightarrow> bytes \<Rightarrow> bytes" where
  "appended existing member = (if existing = [] then member else existing @ '', '' @ member)"

definition prior_ok :: "bytes \<Rightarrow> bytes \<Rightarrow> bool" where
  "prior_ok label existing \<longleftrightarrow>
    comma_end False 0 False existing = (False, 0, False) \<and> label \<notin> fst ` set (parseDictionaryMembers existing)"

lemma parse_member:
  assumes "token label" and "one_part 0 v" and "v \<noteq> []" and "\<not> space_byte (last v)" and "TrimSpace v = v"
    and "comma_end False 0 False existing = (False, 0, False)"
  shows "parseDictionaryMembers (appended existing (label @ ''='' @ v)) = parseDictionaryMembers existing @ [(label, v)]"
proof -
  let ?m = "label @ ''='' @ v"
  have "one_part 0 ''=''" by (simp add: one_part_plain)
  then have m: "one_part 0 ?m" using assms(2) one_part_token [OF assms(1)] by (intro one_part_append)
  have edges: "?m \<noteq> []" "\<not> space_byte (hd ?m)" "\<not> space_byte (last ?m)" using token_edges [OF assms(1)] assms(3,4) by auto
  have t: "TrimSpace ?m = ?m" "TrimSpace (CHR '' '' # ?m) = ?m"
    using TrimSpace_edges [OF edges] TrimSpace_space [OF edges] by simp_all
  have e: "dict_entries [p] = [(label, v)]" if "TrimSpace p = ?m" for p
    using that assms(5) edges(1) IndexByte_eq [OF assms(1), of v] TrimSpace_token [OF assms(1)] by simp
  show ?thesis
  proof (cases "existing = []")
    case True
    have "comma_loop [] False 0 False ?m = [?m]" using one_partD [OF m, of "[]" "[]"] edges(1) by simp
    then show ?thesis using True e [OF t(1)] by (simp add: parseDictionaryMembers_def splitHeaderComma_def appended_def)
  next
    case False
    have "comma_loop [] False 0 False (CHR '' '' # ?m) = [CHR '' '' # ?m]"
      using one_partD [OF m, of "'' ''" "[]"] by simp
    then show ?thesis using False e [OF t(2)] comma_loop_append [OF assms(6), of "[]" "CHR '' '' # ?m"]
      by (simp only: parseDictionaryMembers_def splitHeaderComma_def appended_def dict_entries_append if_False append.simps)
  qed
qed

lemma entry_value_new: "label \<notin> fst ` set es \<Longrightarrow> entry_value label (es @ [(label, v)]) = v"
  by (simp add: entry_value_def map_of_eq_None_iff [symmetric] map_add_def)

lemma b64_chars: "set (EncodeToString StdEncoding b) \<subseteq> insert CHR ''='' (set alphabet_std)"
proof -
  have "n < 64" if "n \<in> set (sextets (map byte_val b))" for n
    using sextets_small [of "map byte_val b"] that by (auto simp: list_all_iff)
  moreover have "length alphabet_std = 64" by (simp add: alphabet_std_def)
  ultimately show ?thesis
    by (auto simp: EncodeToString_def StdEncoding_def padding_def in_set_replicate)
qed

lemma b64_plain: "set (EncodeToString StdEncoding b) \<inter> set ''():, '' = {}"
proof -
  have "insert CHR ''='' (set alphabet_std) \<inter> set ''():, '' = {}" by (simp add: alphabet_std_def)
  then show ?thesis using b64_chars [of b] by blast
qed

lemma decode_sequence: "decodeByteSequence ('':'' @ EncodeToString StdEncoding b @ '':'') = Some b"
proof -
  let ?e = "EncodeToString StdEncoding b"
  have "TrimSpace ('':'' @ ?e @ '':'') = '':'' @ ?e @ '':''" by (rule TrimSpace_edges) simp_all
  moreover have "suffix '':'' (CHR '':'' # ?e @ '':'')" by (simp add: suffix_def)
  ultimately show ?thesis using DecodeString_EncodeToString [of StdEncoding b] alphabets_ok(1)
    by (simp add: decodeByteSequence_def StdEncoding_def)
qed

lemma Get_appended: "Header_Get (appendHeader h k m) k = appended (Header_Get h k) m"
  by (simp add: appendHeader_def appended_def Header_Get_Set Let_def)

lemma Get_appended_other:
  "CanonicalMIMEHeaderKey k \<noteq> CanonicalMIMEHeaderKey k' \<Longrightarrow> Header_Get (appendHeader h k' m) k = Header_Get h k"
  by (simp add: appendHeader_def Header_Get_Set_other Let_def)

lemma canonical_names:
  "CanonicalMIMEHeaderKey HeaderSignature = HeaderSignature" "CanonicalMIMEHeaderKey HeaderSignatureInput = HeaderSignatureInput"
  by code_simp+


section \<open>The base does not depend on the signature headers\<close>

definition not_signature :: "bytes \<Rightarrow> bool" where
  "not_signature name \<longleftrightarrow> \<not> EqualFold HeaderSignature name \<and> \<not> EqualFold HeaderSignatureInput name"

lemma filter_Set:
  "\<not> Q (CanonicalMIMEHeaderKey k) \<Longrightarrow> filter (\<lambda>kv. Q (fst kv)) (Header_Set h k v) = filter (\<lambda>kv. Q (fst kv)) h"
proof -
  assume a: "\<not> Q (CanonicalMIMEHeaderKey k)"
  have "filter (\<lambda>kv. Q (fst kv)) (map (\<lambda>kv. if fst kv = CanonicalMIMEHeaderKey k then (CanonicalMIMEHeaderKey k, [v]) else kv) h) =
      filter (\<lambda>kv. Q (fst kv)) h"
    using a by (induction h) auto
  then show ?thesis using a by (simp add: Header_Set_def Let_def)
qed

definition with_members :: "bytes \<Rightarrow> bytes \<Rightarrow> http_header \<Rightarrow> http_header" where
  "with_members im sm h = appendHeader (appendHeader h HeaderSignatureInput im) HeaderSignature sm"

lemma filter_members:
  assumes "token name" and "not_signature name"
  shows "filter (\<lambda>kv. EqualFoldU U (fst kv) name) (with_members im sm h) = filter (\<lambda>kv. EqualFoldU U (fst kv) name) h"
proof -
  have "list_all is_ascii name" using assms(1) by (auto simp: token_def list_all_iff dest: tokD)
  then have "\<not> EqualFoldU U HeaderSignature name" "\<not> EqualFoldU U HeaderSignatureInput name"
    using assms(2) by (simp_all add: EqualFoldU_def not_signature_def del: EqualFold.simps)
  then show ?thesis
    using filter_Set [of "\<lambda>k. EqualFoldU U k name"] canonical_names
    by (simp add: with_members_def appendHeader_def Let_def del: EqualFold.simps)
qed

lemma derive_set_raw: "deriveComponentValue U m (c\<lparr>pc_Raw := r\<rparr>) = deriveComponentValue U m c"
proof -
  have "deriveDerivedComponent U m (c\<lparr>pc_Raw := r\<rparr>) = deriveDerivedComponent U m c"
    by (simp add: deriveDerivedComponent_def split: option.split)
  moreover have "deriveHTTPField U m (c\<lparr>pc_Raw := r\<rparr>) = deriveHTTPField U m c"
    unfolding deriveHTTPField_def by (cases c) (simp only: ParsedComponent.simps)
  ultimately show ?thesis by (simp add: deriveComponentValue_def)
qed

lemma derive_raw: "deriveComponentValue U m (ident_parsed raw i) = deriveComponentValue U m (ident_parsed raw' i)"
  by (simp only: ident_raw [of raw] ident_raw [of raw'] derive_set_raw)

lemma deriveHTTPField_cong:
  assumes "filter (\<lambda>kv. EqualFoldU U (fst kv) (pc_Name c)) (if pc_TR c then m_Trailers m' else m_Header m') =
    filter (\<lambda>kv. EqualFoldU U (fst kv) (pc_Name c)) (if pc_TR c then m_Trailers m else m_Header m)"
  shows "deriveHTTPField U m' c = deriveHTTPField U m c"
  unfolding deriveHTTPField_def Let_def assms ..

lemma derive_members:
  assumes "ident_ok i" and "not_signature (fst i)"
  shows "deriveComponentValue U (m\<lparr>m_Header := with_members im sm (m_Header m)\<rparr>) (ident_parsed raw i) =
    deriveComponentValue U m (ident_parsed raw i)"
proof -
  have "token (fst i)" using assms(1) by (simp add: ident_ok_def)
  then have "deriveHTTPField U (m\<lparr>m_Header := with_members im sm (m_Header m)\<rparr>) (ident_parsed raw i) =
      deriveHTTPField U m (ident_parsed raw i)"
    using filter_members [OF _ assms(2), of U im sm "m_Header m"] by (intro deriveHTTPField_cong) simp
  moreover have "deriveDerivedComponent U (m\<lparr>m_Header := with_members im sm (m_Header m)\<rparr>) (ident_parsed raw i) =
      deriveDerivedComponent U m (ident_parsed raw i)"
    by (simp add: deriveDerivedComponent_def)
  ultimately show ?thesis by (simp add: deriveComponentValue_def)
qed

definition signed_context :: "bytes \<Rightarrow> bytes \<Rightarrow> RequestContext \<Rightarrow> RequestContext" where
  "signed_context im sm ctx =
    ctx\<lparr>rc_msg := (rc_msg ctx)\<lparr>m_Header := with_members im sm (m_Header (rc_msg ctx))\<rparr>\<rparr>"

lemma covered_raw: "covered_value U ctx (ident_parsed raw i) = covered_value U ctx (ident_parsed [] i)"
  using derive_set_raw by (simp add: covered_value_def ident_raw [of raw] split: option.split)

lemma covered_signed:
  assumes "ident_ok i" and "not_signature (fst i)"
  shows "covered_value U (signed_context im sm ctx) (ident_parsed raw i) = covered_value U ctx (ident_parsed raw i)"
  using derive_members [OF assms, of U im sm "rc_msg ctx" raw] by (simp add: covered_value_def signed_context_def split: option.split)

lemma base_lines_signed:
  assumes "list_all (\<lambda>c. ident_ok (snd c) \<and> not_signature (fst (snd c))) cs"
  shows "base_lines U (signed_context im sm ctx) seen (map (ident_text True) (map snd cs)) = base_lines U ctx seen (ids_text cs)"
  using assms
proof (induction cs arbitrary: seen)
  case (Cons c cs)
  obtain q i where c: "c = (q, i)" by (cases c)
  have i: "ident_ok i" "not_signature (fst i)" using Cons.prems c by simp_all
  show ?case
    using Cons.IH Cons.prems c covered_raw [of U ctx "ident_text True i" i] covered_raw [of U ctx "ident_text q i" i]
    by (simp add: ids_text_def parse_ident [OF i(1)] covered_signed [OF i] split: sum.split)
qed (simp add: ids_text_def)

lemma ids_text_True: "ids_text (map (Pair True) is) = map (ident_text True) is"
  by (simp add: ids_text_def)

lemma sig_text_read_back: "sig_text is (read_back is' P\<lparr>sp_Label := l\<rparr>) = sig_text is P"
  by (simp add: sig_text_def sig_items_def read_back_def int_item_def max_def)

lemma base_signed:
  assumes "list_all (\<lambda>c. ident_ok (snd c) \<and> not_signature (fst (snd c))) cs" and "sp_Components P = ids_text cs"
  shows "BuildSignatureBase U (signed_context im sm ctx) (Some (read_back (map snd cs) P\<lparr>sp_Label := l\<rparr>)) =
    BuildSignatureBase U ctx (Some P)"
proof -
  have ok: "ids_ok cs" "ids_ok (map (Pair True) (map snd cs))" using assms(1) by (auto simp: list_all_iff)
  have "sp_Components (read_back (map snd cs) P\<lparr>sp_Label := l\<rparr>) = ids_text (map (Pair True) (map snd cs))"
    by (simp add: read_back_def ids_text_True del: map_map)
  from Serialize_idents [OF this ok(2), of U]
  have "SerializeSignatureParams U (read_back (map snd cs) P\<lparr>sp_Label := l\<rparr>) = Inr (sig_text (map snd cs) P)"
    by (simp only: sig_text_read_back) (simp add: comp_def)
  moreover have "SerializeSignatureParams U P = Inr (sig_text (map snd cs) P)" using Serialize_idents [OF assms(2) ok(1)] .
  moreover have "sp_Components (read_back (map snd cs) P\<lparr>sp_Label := l\<rparr>) = map (ident_text True) (map snd cs)"
    by (simp add: read_back_def)
  ultimately show ?thesis
    using base_lines_signed [OF assms(1), of U im sm ctx "[]"] assms(2) by (simp add: BuildSignatureBase_def split: sum.split)
qed


section \<open>Signing, then verifying\<close>

definition policy_result :: "unicode \<Rightarrow> VerifyConfig \<Rightarrow> verifier \<Rightarrow> gotime \<Rightarrow> SignatureParams \<Rightarrow> hs_error + SignatureParams" where
  "policy_result U cfg vf now P = (case check_policy U cfg vf now P of Some err \<Rightarrow> Inl err | None \<Rightarrow> Inr P)"

definition signable :: "RequestContext \<Rightarrow> SignConfig \<Rightarrow> SignatureParams \<Rightarrow> (bool \<times> ident) list \<Rightarrow> bool" where
  "signable ctx cfg P cs \<longleftrightarrow>
    sign_components ctx cfg = ids_text cs \<and> list_all (\<lambda>c. ident_ok (snd c) \<and> not_signature (fst (snd c))) cs \<and>
    token (sign_label cfg) \<and> values_ok P \<and>
    prior_ok (sign_label cfg) (Header_Get (m_Header (rc_msg ctx)) HeaderSignatureInput) \<and>
    prior_ok (sign_label cfg) (Header_Get (m_Header (rc_msg ctx)) HeaderSignature)"

definition seeks :: "VerifyConfig \<Rightarrow> RequestContext \<Rightarrow> SignConfig \<Rightarrow> bool" where
  "seeks vcfg ctx cfg \<longleftrightarrow> vc_Label vcfg = sign_label cfg \<or>
    vc_Label vcfg = [] \<and> Header_Get (m_Header (rc_msg ctx)) HeaderSignatureInput = []"

lemma Sign_members:
  assumes "Sign U C rnd now (Some ctx) cfg = Some (Inr (im, sm))" and "sc_Signer cfg = Some sg"
    and "signable ctx cfg (sign_params now ctx cfg sg) cs"
  obtains bs sig where "BuildSignatureBase U ctx (Some (sign_params now ctx cfg sg)) = Inr bs"
    "Signer_Sign C rnd sg bs = Some (Inr sig)"
    "im = sign_label cfg @ ''='' @ sig_text (map snd cs) (sign_params now ctx cfg sg)"
    "sm = sign_label cfg @ ''='' @ '':'' @ EncodeToString StdEncoding sig @ '':''"
proof -
  have "sp_Components (sign_params now ctx cfg sg) = ids_text cs" "ids_ok cs"
    using assms(3) by (auto simp: signable_def sign_params_def list_all_iff)
  from Serialize_idents [OF this, of U] show thesis
    using assms(1,2) that by (auto simp: Sign_def Let_def split: sum.splits option.splits)
qed

lemma Sign_succeeds:
  assumes "sc_Signer cfg = Some sg" and "signable ctx cfg (sign_params now ctx cfg sg) cs"
    and "BuildSignatureBase U ctx (Some (sign_params now ctx cfg sg)) = Inr bs" and "Signer_Sign C rnd sg bs = Some (Inr sig)"
  shows "\<exists>im sm. Sign U C rnd now (Some ctx) cfg = Some (Inr (im, sm))"
proof -
  have "sp_Components (sign_params now ctx cfg sg) = ids_text cs" "ids_ok cs"
    using assms(2) by (auto simp: signable_def sign_params_def list_all_iff)
  from Serialize_idents [OF this, of U] show ?thesis using assms by (simp add: Sign_def Let_def)
qed

lemma Verify_entries:
  assumes "vc_Verifier cfg = Some vf"
    and "Header_Get (m_Header (rc_msg ctx)) HeaderSignatureInput = hi" "Header_Get (m_Header (rc_msg ctx)) HeaderSignature = hs"
    and "hi \<noteq> []" "hs \<noteq> []"
    and "parseDictionaryMembers hi = ei @ [(l, p)]" "parseDictionaryMembers hs = es @ [(l, s)]"
    and "l \<notin> fst ` set ei" "l \<notin> fst ` set es" "p \<noteq> []" "s \<noteq> []" and "vc_Label cfg = l \<and> l \<noteq> [] \<or> vc_Label cfg = [] \<and> ei = []"
  shows "Verify U C now (Some ctx) cfg = verify_entry U C now ctx cfg vf l p s"
proof -
  have "(if vc_Label cfg = [] then fst ((ei @ [(l, p)]) ! 0) else vc_Label cfg) = l" using assms(12) by auto
  then show ?thesis
    using entry_value_new [OF assms(8), of p] entry_value_new [OF assms(9), of s] assms(1-7,10,11)
    by (simp add: Verify_def Let_def)
qed

lemma appended_not_Nil: "m \<noteq> [] \<Longrightarrow> appended e m \<noteq> []"
  by (simp add: appended_def)

lemma Verify_signed:
  assumes "Sign U C rnd now (Some ctx) cfg = Some (Inr (im, sm))" and "sc_Signer cfg = Some sg"
    and "signable ctx cfg (sign_params now ctx cfg sg) cs" and "crypto_laws C"
    and "vc_Verifier vcfg = Some (counterpart C sg j)" and "seeks vcfg ctx cfg"
  shows "Verify U C now' (Some (signed_context im sm ctx)) vcfg =
    policy_result U vcfg (counterpart C sg j) now'
      (read_back (map snd cs) (sign_params now ctx cfg sg)\<lparr>sp_Label := sign_label cfg\<rparr>)"
proof -
  define P where "P = sign_params now ctx cfg sg"
  define l where "l = sign_label cfg"
  define P' where "P' = read_back (map snd cs) P\<lparr>sp_Label := l\<rparr>"
  obtain bs sig where s: "BuildSignatureBase U ctx (Some P) = Inr bs" "Signer_Sign C rnd sg bs = Some (Inr sig)"
    "im = l @ ''='' @ sig_text (map snd cs) P" "sm = l @ ''='' @ '':'' @ EncodeToString StdEncoding sig @ '':''"
    using Sign_members [OF assms(1-3)] unfolding P_def l_def by metis
  have ok: "list_all (\<lambda>c. ident_ok (snd c) \<and> not_signature (fst (snd c))) cs" "list_all ident_ok (map snd cs)" "token l"
    "values_ok P" "sp_Components P = ids_text cs"
    using assms(3) by (auto simp: signable_def P_def l_def sign_params_def list_all_iff)
  let ?ei = "Header_Get (m_Header (rc_msg ctx)) HeaderSignatureInput" and ?es = "Header_Get (m_Header (rc_msg ctx)) HeaderSignature"
  have prior: "prior_ok l ?ei" "prior_ok l ?es" using assms(3) by (simp_all add: signable_def l_def)
  define h where "h = m_Header (rc_msg (signed_context im sm ctx))"
  have g: "Header_Get h HeaderSignatureInput = appended ?ei im" "Header_Get h HeaderSignature = appended ?es sm"
    by (simp_all add: h_def signed_context_def with_members_def Get_appended Get_appended_other canonical_names)
  have i: "parseDictionaryMembers (appended ?ei im) = parseDictionaryMembers ?ei @ [(l, sig_text (map snd cs) P)]"
    unfolding s(3)
    using ok prior one_part_sig_text sig_text_trim by (intro parse_member) (auto simp: prior_ok_def sig_text_last)
  have k: "parseDictionaryMembers (appended ?es sm) =
      parseDictionaryMembers ?es @ [(l, '':'' @ EncodeToString StdEncoding sig @ '':'')]"
    unfolding s(4)
    using ok prior b64_plain [of sig] by (intro parse_member one_part_colons) (auto simp: prior_ok_def intro!: TrimSpace_edges)
  have "vc_Label vcfg = l \<and> l \<noteq> [] \<or> vc_Label vcfg = [] \<and> parseDictionaryMembers ?ei = []"
    using assms(6) ok(3) by (auto simp: seeks_def l_def token_def parseDictionaryMembers_def splitHeaderComma_def)
  with Verify_entries [OF assms(5) g [unfolded h_def] _ _ i k, of U C now'] prior
  have "Verify U C now' (Some (signed_context im sm ctx)) vcfg =
      verify_entry U C now' (signed_context im sm ctx) vcfg (counterpart C sg j) l (sig_text (map snd cs) P)
        ('':'' @ EncodeToString StdEncoding sig @ '':'')"
    using s(3,4) by (simp add: prior_ok_def appended_not_Nil)
  moreover have "BuildSignatureBase U (signed_context im sm ctx) (Some P') = Inr bs"
    using base_signed [OF ok(1,5), of U im sm ctx l] s(1) by (simp add: P'_def)
  moreover have "Verifier_Verify C (counterpart C sg j) bs sig = None"
    using any_scheme.signed_verifies [OF assms(4) s(2)] .
  ultimately show ?thesis
    using Parse_sig_text [OF ok(2,4), of U] decode_sequence [of sig]
    by (simp add: verify_entry_def policy_result_def P_def [symmetric] P'_def [symmetric] l_def [symmetric] Let_def split: option.split)
qed


lemma request_signed:
  "rq_Header req = Some h \<Longrightarrow>
    request_context (req\<lparr>rq_Header := Some (with_members im sm h)\<rparr>) = signed_context im sm (request_context req)"
  by (simp add: request_context_def request_message_def signed_context_def)

lemma response_signed:
  "rp_Header resp = Some h \<Longrightarrow>
    response_context (resp\<lparr>rp_Header := Some (with_members im sm h)\<rparr>) orig = signed_context im sm (response_context resp orig)"
  by (simp add: response_context_def signed_context_def)

lemma add_members_Some: "add_members h im sm = Some h' \<Longrightarrow> \<exists>h0. h = Some h0 \<and> h' = with_members im sm h0"
  by (auto simp: add_members_def with_members_def)

lemma signed_response_verifies:
  assumes "SignResponse U C rnd now (Some resp) orig cfg = Some (Inr resp')" and "sc_Signer cfg = Some sg"
    and "signable (response_context resp orig) cfg (sign_params now (response_context resp orig) cfg sg) cs" and "crypto_laws C"
    and "vc_Verifier vcfg = Some (counterpart C sg j)" and "seeks vcfg (response_context resp orig) cfg"
  shows "VerifyResponse U C now' (Some resp') orig vcfg =
    policy_result U vcfg (counterpart C sg j) now'
      (read_back (map snd cs) (sign_params now (response_context resp orig) cfg sg)\<lparr>sp_Label := sign_label cfg\<rparr>)"
proof -
  obtain im sm h where "Sign U C rnd now (Some (response_context resp orig)) cfg = Some (Inr (im, sm))"
    "rp_Header resp = Some h" "resp' = resp\<lparr>rp_Header := Some (with_members im sm h)\<rparr>"
    using assms(1) by (auto simp: SignResponse_def split: option.splits sum.splits dest!: add_members_Some)
  then show ?thesis using Verify_signed [OF _ assms(2-6), of U rnd im sm now'] response_signed [of resp h im sm orig]
    by (simp add: VerifyResponse_def)
qed

section \<open>The policy\<close>

lemma check_required_iff:
  "check_required U covered rs = None \<longleftrightarrow>
    (\<forall>r \<in> set rs. \<exists>p. ParseComponentIdentifier U r = Inr p \<and> (pc_Serialized p \<in> set covered \<or> pc_Name p \<in> set covered))"
  by (induction rs) (auto split: sum.splits)

lemma check_time_iff:
  assumes now: "usual_time now" and c: "sp_Created P \<le> 2 ^ 33" and e: "sp_Expires P \<le> 2 ^ 33"
    and a: "0 \<le> vc_MaxAge cfg" "vc_MaxAge cfg \<le> 2 ^ 62" "vc_AllowedClockSkew cfg < 2 ^ 62"
  shows "check_time cfg now P = None \<longleftrightarrow>
    (sp_Expires P > 0 \<longrightarrow> t_ns now \<le> unix_ns (sp_Expires P) + clock_skew cfg) \<and>
    (sp_Created P > 0 \<longrightarrow> unix_ns (sp_Created P) \<le> t_ns now + clock_skew cfg \<and>
       (vc_MaxAge cfg > 0 \<longrightarrow> t_ns now - unix_ns (sp_Created P) \<le> vc_MaxAge cfg + clock_skew cfg))"
proof -
  define skew where "skew = clock_skew cfg"
  have sk: "0 < skew" "skew < 2 ^ 62" using a(3) by (auto simp: skew_def clock_skew_def)
  have nsec: "0 \<le> t_nsec now" "t_nsec now < Second" using now by (simp_all add: usual_time_def)
  have u: "time_ok (time_Unix s) \<and> t_ns (time_Unix s) = unix_ns s" if "0 < s" "s \<le> 2 ^ 33" for s
    using time_Unix_ok [of s] that by (simp add: unix_ns_def)
  have exp: "Time_After now (Time_Add (time_Unix s) skew) \<longleftrightarrow> t_ns now > unix_ns s + skew" if "0 < s" "s \<le> 2 ^ 33" for s
    using Time_After_ns [OF nsec Time_Add_ns(2,3)] Time_Add_ns(1) [of "time_Unix s" skew] u [OF that] sk by simp
  have fut: "Time_After (time_Unix s) (Time_Add now skew) \<longleftrightarrow> unix_ns s > t_ns now + skew" if "0 < s" "s \<le> 2 ^ 33" for s
    using Time_After_ns [OF _ _ Time_Add_ns(2,3), of "time_Unix s" now skew] Time_Add_ns(1) [OF usual_time_ok [OF now], of skew]
      u [OF that] usual_time_ok [OF now] sk by (simp add: time_ok_def)
  have age: "Time_Sub now (time_Unix s) = t_ns now - unix_ns s" if "0 < s" "s \<le> 2 ^ 33" for s
  proof -
    have "\<bar>t_ns now - unix_ns s\<bar> < 2 ^ 63" using now that by (simp add: usual_time_def t_ns_def unix_ns_def abs_less_iff)
    then show ?thesis using Time_Sub_ns [OF usual_time_ok [OF now]] u [OF that] by simp
  qed
  have "wrap64 (vc_MaxAge cfg + skew) = vc_MaxAge cfg + skew" using a sk by (intro wrap64_id) auto
  then show ?thesis
    using exp [of "sp_Expires P"] fut [of "sp_Created P"] age [of "sp_Created P"] c e
    by (auto simp: check_time_def Let_def skew_def [symmetric] not_less)
qed

lemma check_identity_iff:
  "check_identity cfg vf P = None \<longleftrightarrow>
    (sp_Alg P = [] \<or> sp_Alg P = Verifier_Algorithm vf) \<and>
    (sp_KeyID P = [] \<or> Verifier_KeyID vf = [] \<or> sp_KeyID P = Verifier_KeyID vf) \<and>
    (vc_RequiredTag cfg = [] \<or> sp_Tag P = vc_RequiredTag cfg)"
  by (auto simp: check_identity_def)

lemma check_policy_iff:
  "check_policy U cfg vf now P = None \<longleftrightarrow>
    check_identity cfg vf P = None \<and> check_time cfg now P = None \<and>
    check_required U (coveredSet U (sp_Components P)) (vc_RequiredComponents cfg) = None"
  by (auto simp: check_policy_def split: option.splits)


section \<open>The base determines the message\<close>

lemma split_at_inject: "c \<notin> set a \<Longrightarrow> c \<notin> set b \<Longrightarrow> a @ c # r = b @ c # s \<Longrightarrow> a = b \<and> r = s"
proof (induction a arbitrary: b)
  case (Cons x a)
  then show ?case by (cases b) auto
qed (auto simp: Cons_eq_append_conv)

lemma param_body_inject: "param_ok p \<Longrightarrow> param_ok p' \<Longrightarrow> param_body p = param_body p' \<Longrightarrow> p = p'"
proof -
  assume ok: "param_ok p" "param_ok p'" and e: "param_body p = param_body p'"
  have n: "CHR ''='' \<notin> set t" if "token t" for t using token_notin [OF that] by simp
  show "p = p'"
  proof (cases p)
    case (Flag f)
    then have "CHR ''='' \<notin> set (param_body p')" using ok(1) n e [symmetric] by simp
    then show ?thesis using Flag e by (cases p') simp_all
  next
    case (Val a v)
    then have "CHR ''='' \<in> set (param_body p')" using e [symmetric] by simp
    then obtain b w where p': "p' = Val b w" using ok(2) n by (cases p') auto
    then show ?thesis using Val ok e split_at_inject [of "CHR ''=''" a b "quote v" "quote w"] n by (simp add: quote_def)
  qed
qed

lemma ident_text_inject:
  assumes "ident_ok i" "ident_ok j" and "ident_text True i = ident_text True j"
  shows "i = j"
proof -
  have t: "token (fst i)" "token (fst j)" "list_all param_ok (snd i)" "list_all param_ok (snd j)"
    using assms(1,2) by (simp_all add: ident_ok_def)
  have "fst i @ dq # params_text (snd i) = fst j @ dq # params_text (snd j)"
    using assms(3) by (simp add: ident_text_def quote_def)
  then have e: "fst i = fst j" "params_text (snd i) = params_text (snd j)"
    using split_at_inject [of dq "fst i" "fst j"] token_notin [OF t(1)] token_notin [OF t(2)] by simp_all
  have "Split CHR '';'' (params_text ps) = [] # map param_body ps" if "list_all param_ok ps" for ps
    using Split_texts [of "map param_body ps" "[]"] that param_no_semicolon
    by (auto simp: params_text_def list_all_iff comp_def)
  then have "map param_body (snd i) = map param_body (snd j)" using e(2) t(3,4) by (metis list.inject)
  then have "snd i = snd j" using t(3,4) param_body_inject
    by (intro map_inj_on [of param_body]) (auto simp: inj_on_def list_all_iff)
  with e(1) show ?thesis by (simp add: prod_eq_iff)
qed

lemma ident_texts_inject:
  assumes "list_all ident_ok is" "list_all ident_ok js" and "map (ident_text True) is = map (ident_text True) js"
  shows "is = js"
  using assms(3)
proof (rule list.inj_map_strong [rotated])
  fix i j assume "i \<in> set is" "j \<in> set js" "ident_text True i = ident_text True j"
  then show "i = j" using assms(1,2) ident_text_inject by (simp add: list_all_iff)
qed

definition base_line :: "ident \<Rightarrow> bytes \<Rightarrow> bytes" where
  "base_line i v = ident_text True i @ '': '' @ v @ [CHR 0x0A]"

lemma base_lines_form:
  assumes "ids_ok cs" and "base_lines U ctx seen (ids_text cs) = Inr t"
  shows "\<exists>vs. list_all2 (\<lambda>i v. covered_value U ctx (ident_parsed [] i) = Inr v) (map snd cs) vs \<and>
    t = concat (map2 base_line (map snd cs) vs)"
  using assms
proof (induction cs arbitrary: seen t)
  case (Cons c cs)
  obtain q i where c: "c = (q, i)" by (cases c)
  have i: "ident_ok i" using Cons.prems c by simp
  obtain v t' where v: "covered_value U ctx (ident_parsed [] i) = Inr v"
    and t': "base_lines U ctx (ident_text True i # seen) (ids_text cs) = Inr t'" "t = base_line i v @ t'"
    using Cons.prems(2) c covered_raw [of U ctx "ident_text q i" i]
    by (cases "covered_value U ctx (ident_parsed [] i)")
       (auto simp: ids_text_def parse_ident [OF i] base_line_def split: sum.splits if_splits)
  from Cons.IH [OF _ t'(1)] Cons.prems(1) obtain vs where
    "list_all2 (\<lambda>i v. covered_value U ctx (ident_parsed [] i) = Inr v) (map snd cs) vs" "t' = concat (map2 base_line (map snd cs) vs)"
    by auto
  then show ?case using v t'(2) c by (intro exI [of _ "v # vs"]) simp
qed (simp add: ids_text_def)

lemma base_lines_inject:
  assumes "length vs = length is" "length ws = length is" "list_all (\<lambda>v. CHR 0x0A \<notin> set v) vs" "list_all (\<lambda>v. CHR 0x0A \<notin> set v) ws"
    and "concat (map2 base_line is vs) = concat (map2 base_line is ws)"
  shows "vs = ws"
  using assms
proof (induction "is" arbitrary: vs ws)
  case (Cons i "is")
  obtain v vs' w ws' where e: "vs = v # vs'" "ws = w # ws'" using Cons.prems(1,2) by (auto simp: length_Suc_conv)
  have "v = w \<and> concat (map2 base_line is vs') = concat (map2 base_line is ws')"
    using Cons.prems(3-5) e split_at_inject [of "CHR 0x0A" v w] by (simp add: base_line_def)
  then show ?case using Cons e by simp
qed simp

lemma last_line_inject:
  assumes "t = [] \<or> last t = c" "t' = [] \<or> last t' = c" "c \<notin> set l" "c \<notin> set l'" and "t @ l = t' @ l'"
  shows "t = t' \<and> l = l'"
proof -
  have "takeWhile (\<lambda>x. x \<noteq> c) (rev (t @ l)) = rev l" if "t = [] \<or> last t = c" "c \<notin> set l" for t l
  proof (cases t rule: rev_cases)
    case Nil
    then show ?thesis using that by (auto simp: takeWhile_eq_all_conv)
  next
    case (snoc t' x)
    then show ?thesis using that by (auto simp: takeWhile_tail takeWhile_eq_all_conv)
  qed
  from this [OF assms(1,3)] this [OF assms(2,4)] have "rev l = rev l'" using assms(5) by simp
  then show ?thesis using assms(5) by simp
qed


lemma sig_text_no_newline:
  assumes "list_all ident_ok is" and "values_ok P"
  shows "CHR 0x0A \<notin> set (sig_text is P)"
proof -
  have nl: "\<not> tok CHR 0x0A" "\<not> vchar CHR 0x0A" by (simp_all add: tok_def vchar_def byte_eval)
  have tk: "CHR 0x0A \<notin> set s" if "token s" for s using that nl unfolding token_def list_all_iff by metis
  have vt: "CHR 0x0A \<notin> set v" if "vtext v" for v using that nl unfolding list_all_iff by metis
  have "CHR 0x0A \<notin> set (param_body p)" if "param_ok p" for p using that tk vt by (cases p) (auto simp: quote_def)
  then have "CHR 0x0A \<notin> set (ident_text True i)" if "ident_ok i" for i
    using that tk by (auto simp: ident_ok_def ident_text_def quote_def params_text_def list_all_iff)
  moreover have "set (Join '' '' ss) \<subseteq> insert CHR '' '' (\<Union>(set ` set ss))" for ss
    by (induction "'' ''" ss rule: Join.induct) auto
  ultimately have "CHR 0x0A \<notin> set (inner_text is)"
    using assms(1) unfolding inner_text_def by (fastforce simp: list_all_iff)
  moreover have "CHR 0x0A \<notin> set b" if "b \<in> set (sig_items P)" for b
    using assms(2) that by (cases rule: item_cases) (auto simp: quote_def dest: tk vt FormatInt_plain(2))
  ultimately show ?thesis by (auto simp: sig_text_def)
qed

definition line_values :: "unicode \<Rightarrow> RequestContext \<Rightarrow> ident list \<Rightarrow> bool" where
  "line_values U ctx is \<longleftrightarrow>
    list_all (\<lambda>i. case covered_value U ctx (ident_parsed [] i) of Inl e \<Rightarrow> True | Inr v \<Rightarrow> CHR 0x0A \<notin> set v) is"

lemma Build_form:
  assumes "sp_Components P = ids_text cs" "ids_ok cs" and "BuildSignatureBase U ctx (Some P) = Inr b"
  obtains vs where "list_all2 (\<lambda>i v. covered_value U ctx (ident_parsed [] i) = Inr v) (map snd cs) vs"
    "b = concat (map2 base_line (map snd cs) vs) @ quote ''@signature-params'' @ '': '' @ sig_text (map snd cs) P"
proof -
  obtain t where t: "base_lines U ctx [] (ids_text cs) = Inr t"
    "b = t @ quote ''@signature-params'' @ '': '' @ sig_text (map snd cs) P"
    using assms(3) Serialize_idents [OF assms(1,2), of U] assms(1)
    by (auto simp: BuildSignatureBase_def quote_def Let_def split: sum.splits if_splits)
  show thesis using base_lines_form [OF assms(2) t(1)] t(2) that by blast
qed

lemma concat_lines_last: "concat (map2 base_line is vs) = [] \<or> last (concat (map2 base_line is vs)) = CHR 0x0A"
  by (induction "is" vs rule: list_induct2') (auto simp: base_line_def)

lemma list_all2_line_values:
  "list_all2 (\<lambda>i v. covered_value U ctx (ident_parsed [] i) = Inr v) is vs \<Longrightarrow> line_values U ctx is \<Longrightarrow>
    list_all (\<lambda>v. CHR 0x0A \<notin> set v) vs"
  by (induction rule: list_all2_induct) (auto simp: line_values_def)


section \<open>What an accepted message satisfies\<close>

lemma base_lines_distinct:
  "base_lines U ctx seen cs = Inr t \<Longrightarrow>
    \<exists>ps. list_all2 (\<lambda>c p. ParseComponentIdentifier U c = Inr p \<and> (\<exists>v. covered_value U ctx p = Inr v)) cs ps \<and>
      distinct (map pc_Serialized ps) \<and> set (map pc_Serialized ps) \<inter> set seen = {}"
proof (induction cs arbitrary: seen t)
  case (Cons c cs)
  obtain p where p: "ParseComponentIdentifier U c = Inr p" using Cons.prems by (cases "ParseComponentIdentifier U c") auto
  obtain v where v: "covered_value U ctx p = Inr v" using Cons.prems p by (cases "covered_value U ctx p") (auto split: if_splits)
  obtain t' where "base_lines U ctx (pc_Serialized p # seen) cs = Inr t'" "pc_Serialized p \<notin> set seen"
    using Cons.prems p v by (auto split: if_splits sum.splits)
  with Cons.IH obtain ps where
    "list_all2 (\<lambda>c p. ParseComponentIdentifier U c = Inr p \<and> (\<exists>v. covered_value U ctx p = Inr v)) cs ps"
    "distinct (map pc_Serialized ps)" "set (map pc_Serialized ps) \<inter> set (pc_Serialized p # seen) = {}"
    by blast
  then show ?case using p v \<open>pc_Serialized p \<notin> set seen\<close> by (intro exI [of _ "p # ps"]) auto
qed simp

lemma verify_entry_Inr:
  assumes "verify_entry U C now ctx cfg vf l rp rs = Inr P"
  obtains sig b where "decodeByteSequence rs = Some sig" "check_policy U cfg vf now P = None" "sp_Label P = l"
    "BuildSignatureBase U ctx (Some P) = Inr b" "Verifier_Verify C vf b sig = None"
proof -
  obtain Q where Q: "ParseSignatureParams U rp = Inr Q"
    using assms by (cases "ParseSignatureParams U rp") (auto simp: verify_entry_def)
  then show thesis using assms that by (auto simp: verify_entry_def Let_def split: option.splits sum.splits)
qed

lemma Verify_Inr:
  assumes "Verify U C now (Some ctx) cfg = Inr P"
  obtains vf rp rs where "vc_Verifier cfg = Some vf" "verify_entry U C now ctx cfg vf (sp_Label P) rp rs = Inr P"
    "vc_Label cfg = [] \<or> sp_Label P = vc_Label cfg"
    "(sp_Label P, rp) \<in> set (parseDictionaryMembers (Header_Get (m_Header (rc_msg ctx)) HeaderSignatureInput))"
    "(sp_Label P, rs) \<in> set (parseDictionaryMembers (Header_Get (m_Header (rc_msg ctx)) HeaderSignature))"
proof -
  let ?ei = "parseDictionaryMembers (Header_Get (m_Header (rc_msg ctx)) HeaderSignatureInput)"
    and ?es = "parseDictionaryMembers (Header_Get (m_Header (rc_msg ctx)) HeaderSignature)"
  define l where "l = (if vc_Label cfg = [] then fst (?ei ! 0) else vc_Label cfg)"
  obtain vf where vf: "vc_Verifier cfg = Some vf" using assms by (cases "vc_Verifier cfg") (auto simp: Verify_def)
  have v: "verify_entry U C now ctx cfg vf l (entry_value l ?ei) (entry_value l ?es) = Inr P"
    "entry_value l ?ei \<noteq> []" "entry_value l ?es \<noteq> []"
    using assms vf by (auto simp: Verify_def Let_def l_def split: if_splits)
  have "sp_Label P = l" using v(1) by (rule verify_entry_Inr)
  moreover have "(l, entry_value l es) \<in> set es" if "entry_value l es \<noteq> []" for es
    using that by (auto simp: entry_value_def split: option.splits dest: map_of_SomeD)
  ultimately show thesis using that [OF vf, of "entry_value l ?ei" "entry_value l ?es"] v by (auto simp: l_def)
qed

section \<open>Limits of the checks\<close>

text \<open>A required component is satisfied by any covered component of the same name: its parameters, such as the name of a
  query parameter or the flag that takes it from the request, are not compared.\<close>

lemma required_by_name_only:
  "ident_ok i \<Longrightarrow> ident_ok j \<Longrightarrow> fst i = fst j \<Longrightarrow>
    check_required U (coveredSet U [ident_text True i]) [ident_text True j] = None"
  by (simp add: coveredSet_def parse_ident)

text \<open>The maximum age is not applied to a signature without a creation time.\<close>

lemma age_needs_created: "sp_Created P \<le> 0 \<Longrightarrow> sp_Expires P \<le> 0 \<Longrightarrow> check_time cfg now P = None"
  by (simp add: check_time_def Let_def)

text \<open>The path is taken decoded, so that it can bring a newline into the signature base.\<close>

lemma path_brings_newline:
  "covered_value U \<lparr>rc_msg = m\<lparr>m_URL := Some (u\<lparr>u_Path := p\<rparr>)\<rparr>, rc_ReqContext = None\<rparr> (ident_parsed [] (''@path'', [])) =
    Inr (if p = [] then ''/'' else p)"
  by (simp add: covered_value_def ident_parsed_def deriveComponentValue_def deriveDerivedComponent_def)

section \<open>Properties\<close>

text \<open>C28: a signed request verifies.  Whatever signer was used, and even if the request carried other signatures before,
  verifying the signed request with the matching key reads back the parameters that were
  signed and returns them, unless the verifier's policy on algorithm, key, tag, times and
  required components rejects those parameters; then it returns the policy's error.\<close>
theorem signed_request_verifies:
  assumes "SignRequest U C rnd now (Some req) cfg = Some (Inr req')" and "sc_Signer cfg = Some sg"
    and "signable (request_context req) cfg (sign_params now (request_context req) cfg sg) cs" and "crypto_laws C"
    and "vc_Verifier vcfg = Some (counterpart C sg j)" and "seeks vcfg (request_context req) cfg"
  shows "VerifyRequest U C now' (Some req') vcfg =
    policy_result U vcfg (counterpart C sg j) now'
      (read_back (map snd cs) (sign_params now (request_context req) cfg sg)\<lparr>sp_Label := sign_label cfg\<rparr>)"
proof -
  obtain im sm h where "Sign U C rnd now (Some (request_context req)) cfg = Some (Inr (im, sm))"
    "rq_Header req = Some h" "req' = req\<lparr>rq_Header := Some (with_members im sm h)\<rparr>"
    using assms(1) by (auto simp: SignRequest_def split: option.splits sum.splits dest!: add_members_Some)
  then show ?thesis using Verify_signed [OF _ assms(2-6), of U rnd im sm now'] request_signed [of req h im sm]
    by (simp add: VerifyRequest_def)
qed

definition ascii_only :: unicode where
  "ascii_only = \<lparr>uni_lower = (\<lambda>s. s), uni_upper = (\<lambda>s. s), uni_fold = (\<lambda>s t. s = t)\<rparr>"

definition example_request :: request where
  "example_request =
    \<lparr>rq_Method = ''GET'',
     rq_URL = Some \<lparr>u_Scheme = ''https'', u_Host = ''a.example'', u_Path = ''/p'', u_RawQuery = [], u_Fragment = [], u_String = ''https://a.example/p''\<rparr>,
     rq_Header = Some [(''Date'', [''now''])]\<rparr>"

definition example_sign :: SignConfig where
  "example_sign =
    \<lparr>sc_Label = [], sc_Signer = Some (HmacSigner ''k'' ''s''), sc_Components = [''@path'', ''@method''],
     sc_Created = \<lparr>t_sec = 62135596805, t_nsec = 0\<rparr>, sc_Expires = \<lparr>t_sec = 0, t_nsec = 0\<rparr>, sc_Nonce = ''n,1'', sc_Tag = []\<rparr>"

definition example_verify :: VerifyConfig where
  "example_verify =
    \<lparr>vc_Label = [], vc_Verifier = Some (HmacVerifier [] ''s''), vc_RequiredComponents = [''@method''], vc_MaxAge = 10,
     vc_AllowedClockSkew = 0, vc_RequiredTag = []\<rparr>"

definition example_now :: gotime where
  "example_now = \<lparr>t_sec = 62135596860, t_nsec = 0\<rparr>"

definition example_ids :: "(bool \<times> ident) list" where
  "example_ids = [(False, (''@path'', [])), (False, (''@method'', []))]"

definition example_params :: SignatureParams where
  "example_params =
    \<lparr>sp_Label = ''sig1'', sp_Components = [''@path'', ''@method''], sp_Created = 5, sp_Expires = 0, sp_Nonce = ''n,1'',
     sp_Alg = ''hmac-sha256'', sp_KeyID = ''k'', sp_Tag = []\<rparr>"

lemma example_params:
  "sign_params example_now (request_context example_request) example_sign (HmacSigner ''k'' ''s'') = example_params"
  by (simp add: sign_params_def sign_label_def sign_components_def example_sign_def example_params_def Time_IsZero_def
      Time_Unix_def wrap64_def)

lemma not_signature_derived: "not_signature (CHR ''@'' # s)"
proof -
  have "lower CHR ''S'' \<noteq> lower CHR ''@''" "lower CHR ''@'' \<noteq> CHR ''s''" "lower CHR ''@'' \<noteq> CHR ''k''"
    by (simp_all add: lower_def is_upper_def byte_eval)
  then show ?thesis by (simp add: not_signature_def)
qed

lemma derived_tokens: "token ''@path''" "token ''@method''" "token ''sig1''"
  by (simp_all add: token_def tok_def byte_eval is_upper_def)

lemma example_ids_ok: "list_all (\<lambda>c. ident_ok (snd c) \<and> not_signature (fst (snd c))) example_ids"
  "ids_text example_ids = [''@path'', ''@method'']" "ident_ok (''@path'', [])" "ident_ok (''@method'', [])"
  using derived_tokens not_signature_derived
  by (simp_all add: example_ids_def ident_ok_def ident_parsed_def ids_text_def ident_text_def params_text_def)

lemma example_signable: "signable (request_context example_request) example_sign example_params example_ids"
  using example_ids_ok canonical_names derived_tokens
  by (simp add: signable_def sign_components_def sign_label_def example_sign_def byte_eval values_ok_def example_params_def vchar_def prior_ok_def Header_Get_def example_request_def request_context_def
      request_message_def parseDictionaryMembers_def splitHeaderComma_def)

lemma example_base: "\<exists>bs. BuildSignatureBase ascii_only (request_context example_request) (Some example_params) = Inr bs"
proof -
  have p: "ParseComponentIdentifier U ''@path'' = Inr (ident_parsed ''@path'' (''@path'', []))"
    "ParseComponentIdentifier U ''@method'' = Inr (ident_parsed ''@method'' (''@method'', []))" for U
    using parse_ident [OF example_ids_ok(3), of U False] parse_ident [OF example_ids_ok(4), of U False]
    by (simp_all add: ident_text_def params_text_def)
  have "list_all is_ascii (FormatInt 5)" using FormatInt_text [of 5] digit_facts by (auto simp: list_all_iff)
  then show ?thesis
    by (simp add: BuildSignatureBase_def example_params_def p covered_value_def ident_parsed_def deriveComponentValue_def
        deriveDerivedComponent_def request_context_def request_message_def example_request_def quote_def
        SerializeSignatureParams_def int_param_def quoted_param_def is_ascii_def byte_eval)
qed

theorem signed_request_verifies_witness:
  "\<exists>req'. SignRequest ascii_only toy_crypto 0 example_now (Some example_request) example_sign = Some (Inr req') \<and>
    VerifyRequest ascii_only toy_crypto example_now (Some req') example_verify =
      policy_result ascii_only example_verify (HmacVerifier [] ''s'') example_now
        (read_back [(''@path'', []), (''@method'', [])] example_params\<lparr>sp_Label := ''sig1''\<rparr>)"
proof -
  have sg: "sc_Signer example_sign = Some (HmacSigner ''k'' ''s'')" by (simp add: example_sign_def)
  note ok = example_signable [folded example_params]
  obtain bs where "BuildSignatureBase ascii_only (request_context example_request) (Some example_params) = Inr bs"
    using example_base by blast
  from Sign_succeeds [OF sg ok this [folded example_params], of toy_crypto 0] obtain req' where
    s: "SignRequest ascii_only toy_crypto 0 example_now (Some example_request) example_sign = Some (Inr req')"
    by (auto simp: SignRequest_def add_members_def example_request_def)
  have label: "sign_label example_sign = ''sig1''" by (simp add: sign_label_def example_sign_def)
  have "seeks example_verify (request_context example_request) example_sign"
    using canonical_names by (simp add: seeks_def example_verify_def Header_Get_def request_context_def request_message_def example_request_def)
  moreover have "vc_Verifier example_verify = Some (counterpart toy_crypto (HmacSigner ''k'' ''s'') [])" by (simp add: example_verify_def)
  ultimately have "VerifyRequest ascii_only toy_crypto example_now (Some req') example_verify =
      policy_result ascii_only example_verify (HmacVerifier [] ''s'') example_now
        (read_back [(''@path'', []), (''@method'', [])] example_params\<lparr>sp_Label := ''sig1''\<rparr>)"
    using signed_request_verifies [OF s sg ok toy_crypto_laws] by (simp add: example_params example_ids_def label)
  with s show ?thesis by blast
qed



lemma example_accepted:
  "\<exists>im sm. Verify ascii_only toy_crypto example_now (Some (signed_context im sm (request_context example_request))) example_verify =
    Inr (read_back [(''@path'', []), (''@method'', [])] example_params\<lparr>sp_Label := ''sig1''\<rparr>)"
proof -
  define P where "P = read_back [(''@path'', []), (''@method'', [])] example_params\<lparr>sp_Label := ''sig1''\<rparr>"
  have P: "sp_Created P = 5" "sp_Expires P = 0" "sp_Alg P = ''hmac-sha256''" "sp_KeyID P = ''k''"
    "sp_Components P = [ident_text True (''@path'', []), ident_text True (''@method'', [])]"
    by (simp_all add: P_def read_back_def example_params_def)
  have sg: "sc_Signer example_sign = Some (HmacSigner ''k'' ''s'')" by (simp add: example_sign_def)
  note ok = example_signable [folded example_params]
  obtain bs where "BuildSignatureBase ascii_only (request_context example_request) (Some example_params) = Inr bs"
    using example_base by blast
  from Sign_succeeds [OF sg ok this [folded example_params], of toy_crypto 0] obtain im sm where
    s: "Sign ascii_only toy_crypto 0 example_now (Some (request_context example_request)) example_sign = Some (Inr (im, sm))"
    by auto
  have label: "sign_label example_sign = ''sig1''" by (simp add: sign_label_def example_sign_def)
  have "seeks example_verify (request_context example_request) example_sign"
    using canonical_names by (simp add: seeks_def example_verify_def Header_Get_def request_context_def request_message_def example_request_def)
  moreover have "vc_Verifier example_verify = Some (counterpart toy_crypto (HmacSigner ''k'' ''s'') [])" by (simp add: example_verify_def)
  ultimately have "Verify ascii_only toy_crypto example_now (Some (signed_context im sm (request_context example_request))) example_verify =
      policy_result ascii_only example_verify (HmacVerifier [] ''s'') example_now P"
    using Verify_signed [OF s sg ok toy_crypto_laws] by (simp add: example_params example_ids_def label P_def)
  moreover have "check_time example_verify example_now P = None"
    by (subst check_time_iff) (simp_all add: usual_time_def example_now_def P example_verify_def unix_ns_def t_ns_def clock_skew_def)
  moreover have "check_identity example_verify (HmacVerifier [] ''s'') P = None" by (simp add: check_identity_def P example_verify_def)
  moreover have "ParseComponentIdentifier ascii_only ''@method'' = Inr (ident_parsed ''@method'' (''@method'', []))"
    using parse_ident [OF example_ids_ok(4), of ascii_only False] by (simp add: ident_text_def params_text_def)
  then have "check_required ascii_only (coveredSet ascii_only (sp_Components P)) (vc_RequiredComponents example_verify) = None"
    by (simp add: check_required_iff P coveredSet_def parse_ident example_ids_ok example_verify_def)
  ultimately show ?thesis by (auto simp: policy_result_def check_policy_def P_def)
qed





end
