(* ===== verification/HS_Digest.thy ===== *)
theory HS_Digest
  imports HS_Verify
begin

text \<open>
  Package \<^verbatim>\<open>httpsig\<close>, file \<^verbatim>\<open>src/auth/httpsig/digest.go\<close>: the \<^verbatim>\<open>Content-Digest\<close> header.  The two hash
  functions are fields of the record \<open>crypto\<close>.
\<close>

abbreviation DigestSHA256 :: bytes where "DigestSHA256 \<equiv> ''sha-256''"
abbreviation DigestSHA512 :: bytes where "DigestSHA512 \<equiv> ''sha-512''"

definition digest_member :: "bytes \<Rightarrow> bytes \<Rightarrow> bytes" where
  "digest_member name h = name @ ''=:'' @ EncodeToString StdEncoding h @ '':''"

definition digest_part :: "unicode \<Rightarrow> crypto \<Rightarrow> bytes \<Rightarrow> bytes \<Rightarrow> bytes list" where
  "digest_part U C body alg =
    (let a = ToLower U alg
     in if a = DigestSHA256 \<or> a = ''sha256'' then [digest_member DigestSHA256 (sha256 C body)]
        else if a = DigestSHA512 \<or> a = ''sha512'' then [digest_member DigestSHA512 (sha512 C body)]
        else [])"

definition ComputeContentDigest :: "unicode \<Rightarrow> crypto \<Rightarrow> bytes \<Rightarrow> bytes list \<Rightarrow> bytes" where
  "ComputeContentDigest U C body algs =
    (let algs = (if algs = [] then [DigestSHA256] else algs);
         parts = concat (map (digest_part U C body) algs)
     in if parts = [] then digest_member DigestSHA256 (sha256 C body) else Join '', '' parts)"

definition actual_digest :: "crypto \<Rightarrow> bytes \<Rightarrow> bytes \<Rightarrow> bytes option" where
  "actual_digest C body alg =
    (if alg = DigestSHA256 then Some (sha256 C body) else if alg = DigestSHA512 then Some (sha512 C body) else None)"

text \<open>The loop over the items; the result is an error, or whether one of the items was verified.\<close>

fun digest_items :: "unicode \<Rightarrow> crypto \<Rightarrow> bytes \<Rightarrow> bool \<Rightarrow> bytes list \<Rightarrow> hs_error + bool" where
  "digest_items U C body verifiedAny [] = Inr verifiedAny"
| "digest_items U C body verifiedAny (item # items) =
    (let item = TrimSpace item in
     if item = [] then digest_items U C body verifiedAny items
     else case IndexByte item CHR ''='' of
            None \<Rightarrow> digest_items U C body verifiedAny items
          | Some eqIdx \<Rightarrow>
              (let alg = ToLower U (TrimSpace (take eqIdx item)); val = TrimSpace (drop (eqIdx + 1) item)
               in case decodeByteSequence val of
                    None \<Rightarrow> Inl ErrInvalidStructuredField
                  | Some expectedBytes \<Rightarrow>
                      (case actual_digest C body alg of
                         None \<Rightarrow> digest_items U C body verifiedAny items
                       | Some actualBytes \<Rightarrow>
                           if actualBytes \<noteq> expectedBytes then Inl ErrDigestMismatch
                           else digest_items U C body True items)))"

definition VerifyContentDigest :: "unicode \<Rightarrow> crypto \<Rightarrow> bytes \<Rightarrow> bytes \<Rightarrow> hs_error option" where
  "VerifyContentDigest U C body headerVal =
    (let headerVal = TrimSpace headerVal
     in if headerVal = [] then Some ErrEmptyDigest
        else case digest_items U C body False (Split CHR '','' headerVal) of
               Inl err \<Rightarrow> Some err
             | Inr verifiedAny \<Rightarrow> if \<not> verifiedAny then Some ErrUnsupportedAlgorithm else None)"

section \<open>Lemmas\<close>

lemma digest_names: "token DigestSHA256" "token DigestSHA512"
  by (simp_all add: token_def tok_def byte_eval is_upper_def)

lemma digest_member_edges:
  "token name \<Longrightarrow> digest_member name h \<noteq> [] \<and> \<not> space_byte (hd (digest_member name h)) \<and> \<not> space_byte (last (digest_member name h))"
  using token_edges [of name] by (simp add: digest_member_def)

lemma digest_member_comma: "token name \<Longrightarrow> CHR '','' \<notin> set (digest_member name h)"
  using b64_plain [of h] by (auto simp: digest_member_def token_notin)

abbreviation digest_alg :: "bytes \<Rightarrow> bool" where
  "digest_alg n \<equiv> n = DigestSHA256 \<or> n = DigestSHA512"

definition hash_of :: "crypto \<Rightarrow> bytes \<Rightarrow> bytes \<Rightarrow> bytes" where
  "hash_of C body n = (if n = DigestSHA256 then sha256 C body else sha512 C body)"

abbreviation member_of :: "crypto \<Rightarrow> bytes \<Rightarrow> bytes \<Rightarrow> bytes" where
  "member_of C body n \<equiv> digest_member n (hash_of C body n)"

lemma actual_hash: "digest_alg n \<Longrightarrow> actual_digest C body n = Some (hash_of C body n)"
  by (auto simp: actual_digest_def hash_of_def)

lemma member_token: "digest_alg n \<Longrightarrow> token n"
  using digest_names by blast

lemma member_facts:
  assumes "digest_alg n"
  shows "CHR '','' \<notin> set (member_of C body n)" "member_of C body n \<noteq> []"
    "\<not> space_byte (hd (member_of C body n))" "\<not> space_byte (last (member_of C body n))"
  using member_token [OF assms] digest_member_comma digest_member_edges by blast+

lemma digest_items_member:
  assumes "digest_alg n" and "item = member_of C body n \<or> item = CHR '' '' # member_of C body n"
  shows "digest_items U C body' v (item # items) =
    (if hash_of C body' n = hash_of C body n then digest_items U C body' True items else Inl ErrDigestMismatch)"
proof -
  let ?val = "'':'' @ EncodeToString StdEncoding (hash_of C body n) @ '':''"
  note tk = member_token [OF assms(1)] and f = member_facts [OF assms(1), of C body]
  have m: "member_of C body n = n @ CHR ''='' # ?val" by (simp add: digest_member_def)
  have t: "TrimSpace item = member_of C body n"
    using assms(2) TrimSpace_edges [OF f(2-4)] TrimSpace_space [OF f(2-4)] by auto
  have "TrimSpace ?val = ?val" by (rule TrimSpace_edges) simp_all
  then show ?thesis
    using t tk f(2) decode_sequence [of "hash_of C body n"] IndexByte_eq [OF tk, of ?val] actual_hash [OF assms(1), of C body']
    unfolding m by (simp add: TrimSpace_token ToLower_token)
qed

lemma Split_members:
  "list_all digest_alg (n # ns) \<Longrightarrow> CHR '','' \<notin> set x \<Longrightarrow>
    Split CHR '','' (x @ Join '', '' (map (member_of C body) (n # ns))) =
      (x @ member_of C body n) # map (\<lambda>n. CHR '' '' # member_of C body n) ns"
proof (induction ns arbitrary: x n)
  case Nil
  then show ?case using member_facts(1) by (simp add: Split_plain)
next
  case (Cons q ns)
  then have "CHR '','' \<notin> set (x @ member_of C body n)" using member_facts(1) by simp
  moreover have "Split CHR '','' ('' '' @ Join '', '' (map (member_of C body) (q # ns))) =
      ('' '' @ member_of C body q) # map (\<lambda>n. CHR '' '' # member_of C body n) ns"
    using Cons.prems(1) by (intro Cons.IH) simp_all
  ultimately show ?case using Split_append [of "CHR '',''" "x @ member_of C body n"] by simp
qed

lemma digest_items_members:
  "list_all digest_alg ns \<Longrightarrow>
    digest_items U C body' True (map (\<lambda>n. CHR '' '' # member_of C body n) ns) =
      (if list_all (\<lambda>n. hash_of C body' n = hash_of C body n) ns then Inr True else Inl ErrDigestMismatch)"
proof (induction ns)
  case (Cons n ns)
  then show ?case using digest_items_member [of n "CHR '' '' # member_of C body n" C body U body' True]
    by (simp del: digest_items.simps)
qed simp

lemma Join_members_edges:
  "list_all digest_alg ns \<Longrightarrow> ns \<noteq> [] \<Longrightarrow>
    Join '', '' (map (member_of C body) ns) \<noteq> [] \<and> \<not> space_byte (hd (Join '', '' (map (member_of C body) ns))) \<and>
    \<not> space_byte (last (Join '', '' (map (member_of C body) ns)))"
proof (induction ns)
  case (Cons n ns)
  then show ?case using member_facts [of n C body] by (cases "ns = []") (simp_all add: Join_Cons)
qed simp

lemma VerifyContentDigest_members:
  assumes "list_all digest_alg ns" and "ns \<noteq> []"
  shows "VerifyContentDigest U C body' (Join '', '' (map (member_of C body) ns)) =
    (if list_all (\<lambda>n. hash_of C body' n = hash_of C body n) ns then None else Some ErrDigestMismatch)"
proof -
  let ?h = "Join '', '' (map (member_of C body) ns)"
  obtain n qs where ns: "ns = n # qs" using assms(2) by (cases ns) auto
  have "TrimSpace ?h = ?h" "?h \<noteq> []" using Join_members_edges [OF assms] TrimSpace_edges by blast+
  moreover have "Split CHR '','' ?h = member_of C body n # map (\<lambda>n. CHR '' '' # member_of C body n) qs"
    using Split_members [of n qs "[]" C body] assms(1) ns by simp
  ultimately show ?thesis
    using assms(1) ns digest_items_member [of n "member_of C body n" C body U body' False] digest_items_members [of qs U C body' body]
    by (simp add: VerifyContentDigest_def del: digest_items.simps)
qed

text \<open>The algorithms a call of \<^verbatim>\<open>ComputeContentDigest\<close> writes, in order.\<close>

definition digest_name :: "unicode \<Rightarrow> bytes \<Rightarrow> bytes list" where
  "digest_name U alg =
    (let a = ToLower U alg
     in if a = DigestSHA256 \<or> a = ''sha256'' then [DigestSHA256]
        else if a = DigestSHA512 \<or> a = ''sha512'' then [DigestSHA512] else [])"

definition digest_algs :: "unicode \<Rightarrow> bytes list \<Rightarrow> bytes list" where
  "digest_algs U algs =
    (if concat (map (digest_name U) algs) = [] then [DigestSHA256] else concat (map (digest_name U) algs))"

lemma digest_part_name: "digest_part U C body alg = map (member_of C body) (digest_name U alg)"
  by (simp add: digest_part_def digest_name_def hash_of_def Let_def)

lemma digest_algs_ok: "list_all digest_alg (digest_algs U algs)" "digest_algs U algs \<noteq> []"
proof -
  have "list_all digest_alg (digest_name U a)" for a by (simp add: digest_name_def Let_def)
  then show "list_all digest_alg (digest_algs U algs)" by (fastforce simp: digest_algs_def list_all_iff)
qed (simp add: digest_algs_def)

lemma ComputeContentDigest_eq: "ComputeContentDigest U C body algs = Join '', '' (map (member_of C body) (digest_algs U algs))"
proof -
  have p: "concat (map (digest_part U C body) as) = map (member_of C body) (concat (map (digest_name U) as))" for as
    by (induction as) (simp_all add: digest_part_name)
  have "digest_name U DigestSHA256 = [DigestSHA256]" by (simp add: digest_name_def ToLower_token digest_names)
  then show ?thesis
    by (simp add: ComputeContentDigest_def p digest_algs_def hash_of_def Let_def del: concat_eq_Nil_conv)
qed

text \<open>What any accepted header guarantees: an item with a supported algorithm has the hash of the body, and so has every
  such item.  An item of an unsupported algorithm is skipped only if its value is base64.\<close>

lemma digest_items_sound:
  "digest_items U C body v items = Inr w \<Longrightarrow>
    (w \<longrightarrow> v \<or> (\<exists>item \<in> set items. \<exists>eqIdx. IndexByte (TrimSpace item) CHR ''='' = Some eqIdx \<and>
       (\<exists>h. actual_digest C body (ToLower U (TrimSpace (take eqIdx (TrimSpace item)))) = Some h \<and>
            decodeByteSequence (TrimSpace (drop (eqIdx + 1) (TrimSpace item))) = Some h))) \<and>
    (\<forall>item \<in> set items. \<forall>eqIdx h. IndexByte (TrimSpace item) CHR ''='' = Some eqIdx \<longrightarrow>
       actual_digest C body (ToLower U (TrimSpace (take eqIdx (TrimSpace item)))) = Some h \<longrightarrow>
       decodeByteSequence (TrimSpace (drop (eqIdx + 1) (TrimSpace item))) = Some h)"
proof (induction items arbitrary: v)
  case (Cons item items)
  show ?case
  proof (cases "IndexByte (TrimSpace item) CHR ''=''")
    case None
    then have "digest_items U C body v items = Inr w" using Cons.prems by (simp add: Let_def split: if_splits)
    from Cons.IH [OF this] None show ?thesis by auto
  next
    case (Some k)
    then have ne: "TrimSpace item \<noteq> []" by auto
    let ?a = "actual_digest C body (ToLower U (TrimSpace (take k (TrimSpace item))))"
    obtain e where e: "decodeByteSequence (TrimSpace (drop (k + 1) (TrimSpace item))) = Some e"
      using Cons.prems Some ne by (cases "decodeByteSequence (TrimSpace (drop (k + 1) (TrimSpace item)))") auto
    show ?thesis
    proof (cases ?a)
      case None
      then have "digest_items U C body v items = Inr w" using Cons.prems Some ne e by simp
      from Cons.IH [OF this] None Some show ?thesis by auto
    next
      case h: (Some h)
      then have "digest_items U C body True items = Inr w" "h = e" using Cons.prems Some ne e by (auto split: if_splits)
      with Cons.IH h Some e show ?thesis by (auto 4 3)
    qed
  qed
qed simp

lemma unsupported_item_must_decode:
  "TrimSpace item = n @ CHR ''='' # v \<Longrightarrow> token n \<Longrightarrow> actual_digest C body n = None \<Longrightarrow> decodeByteSequence (TrimSpace v) = None \<Longrightarrow>
    digest_items U C body w (item # items) = Inl ErrInvalidStructuredField"
  by (simp add: IndexByte_eq TrimSpace_token ToLower_token)

section \<open>Properties\<close>

text \<open>C30: the content digest identifies the body.  A \<^verbatim>\<open>Content-Digest\<close> header computed for one body, with any list of algorithm
  names, is accepted for another body exactly when the two bodies have the same hash under
  every algorithm in the header; in particular it is accepted for the body itself.\<close>
theorem content_digest_accepted_iff:
  "VerifyContentDigest U C body' (ComputeContentDigest U C body algs) =
    (if list_all (\<lambda>n. hash_of C body' n = hash_of C body n) (digest_algs U algs) then None else Some ErrDigestMismatch)"
  unfolding ComputeContentDigest_eq by (rule VerifyContentDigest_members [OF digest_algs_ok])

end
