(* ===== verification/OT_Context.thy ===== *)
theory OT_Context
  imports Go_Text "HOL-Library.Word"
begin

text \<open>
  Package \<^verbatim>\<open>otel\<close>, files \<^verbatim>\<open>src/otel/w3c.go\<close> and \<^verbatim>\<open>src/otel/carrier.go\<close>: identifiers, the W3C
  \<^verbatim>\<open>traceparent\<close> header and carrying a span context in headers.  The hexadecimal routines of the
  package \<^verbatim>\<open>hexkit\<close> are the record \<open>hexkit\<close>; \<open>hex_laws\<close> says what is used of them.  A Go array of bytes is
  a list whose length the predicate \<open>sc_typed\<close> fixes.
\<close>

unbundle bit_operations_syntax

section \<open>Identifiers\<close>

record hexkit =
  hk_Encode :: "8 word \<Rightarrow> bytes"
  hk_Encode16 :: "bytes \<Rightarrow> bytes"
  hk_Encode8 :: "bytes \<Rightarrow> bytes"
  hk_Decode32 :: "bytes \<Rightarrow> bytes option"
  hk_Decode16 :: "bytes \<Rightarrow> bytes option"
  hk_FromHexChar :: "char \<Rightarrow> 8 word option"

definition hexchar :: "char \<Rightarrow> bool" where
  "hexchar c \<longleftrightarrow> is_digit c \<or> c \<in> set ''abcdef''"

definition hex_laws :: "hexkit \<Rightarrow> bool" where
  "hex_laws H \<longleftrightarrow>
    (\<forall>b. length b = 16 \<longrightarrow> length (hk_Encode16 H b) = 32 \<and> list_all hexchar (hk_Encode16 H b) \<and>
       hk_Decode32 H (hk_Encode16 H b) = Some b) \<and>
    (\<forall>b. length b = 8 \<longrightarrow> length (hk_Encode8 H b) = 16 \<and> list_all hexchar (hk_Encode8 H b) \<and>
       hk_Decode16 H (hk_Encode8 H b) = Some b) \<and>
    (\<forall>s b. hk_Decode32 H s = Some b \<longrightarrow> length b = 16) \<and> (\<forall>s b. hk_Decode16 H s = Some b \<longrightarrow> length b = 8) \<and>
    (\<forall>f. \<exists>c d. hk_Encode H f = [c, d] \<and> hexchar c \<and> hexchar d \<and>
       hk_FromHexChar H c = Some (drop_bit 4 f) \<and> hk_FromHexChar H d = Some (take_bit 4 f))"

datatype otel_error =
    ErrInvalidTraceParent
  | ErrInvalidTraceID
  | ErrInvalidSpanID
  | ErrZeroTraceID
  | ErrZeroSpanID

type_synonym TraceFlags = "8 word"

abbreviation FlagSampled :: TraceFlags where "FlagSampled \<equiv> 1"

definition Flags_IsSampled :: "TraceFlags \<Rightarrow> bool" where
  "Flags_IsSampled f \<longleftrightarrow> f AND FlagSampled = FlagSampled"

definition Flags_String :: "hexkit \<Rightarrow> TraceFlags \<Rightarrow> bytes" where
  "Flags_String H f = hk_Encode H f"

definition NilTraceID :: bytes where "NilTraceID = replicate 16 (byte_of 0)"
definition NilSpanID :: bytes where "NilSpanID = replicate 8 (byte_of 0)"

definition TraceID_IsValid :: "bytes \<Rightarrow> bool" where "TraceID_IsValid t \<longleftrightarrow> t \<noteq> NilTraceID"
definition SpanID_IsValid :: "bytes \<Rightarrow> bool" where "SpanID_IsValid s \<longleftrightarrow> s \<noteq> NilSpanID"

text \<open>The random generators read until the identifier is valid; \<open>draws\<close> is what the reads return, \<open>None\<close> for a failed
  read.  The result is \<open>None\<close> when the draws run out.\<close>

fun NewTraceID :: "bytes option list \<Rightarrow> (bytes \<times> bytes option list) option" where
  "NewTraceID [] = None"
| "NewTraceID (d # draws) =
    (case d of Some t \<Rightarrow> if TraceID_IsValid t then Some (t, draws) else NewTraceID draws | None \<Rightarrow> NewTraceID draws)"

fun NewSpanID :: "bytes option list \<Rightarrow> (bytes \<times> bytes option list) option" where
  "NewSpanID [] = None"
| "NewSpanID (d # draws) =
    (case d of Some s \<Rightarrow> if SpanID_IsValid s then Some (s, draws) else NewSpanID draws | None \<Rightarrow> NewSpanID draws)"

definition ParseTraceID :: "hexkit \<Rightarrow> bytes \<Rightarrow> otel_error + bytes" where
  "ParseTraceID H s =
    (if length s \<noteq> 32 then Inl ErrInvalidTraceID
     else case hk_Decode32 H s of
            None \<Rightarrow> Inl ErrInvalidTraceID
          | Some t \<Rightarrow> if \<not> TraceID_IsValid t then Inl ErrZeroTraceID else Inr t)"

definition ParseSpanID :: "hexkit \<Rightarrow> bytes \<Rightarrow> otel_error + bytes" where
  "ParseSpanID H s =
    (if length s \<noteq> 16 then Inl ErrInvalidSpanID
     else case hk_Decode16 H s of
            None \<Rightarrow> Inl ErrInvalidSpanID
          | Some i \<Rightarrow> if \<not> SpanID_IsValid i then Inl ErrZeroSpanID else Inr i)"

definition TraceID_String :: "hexkit \<Rightarrow> bytes \<Rightarrow> bytes" where "TraceID_String H t = hk_Encode16 H t"
definition SpanID_String :: "hexkit \<Rightarrow> bytes \<Rightarrow> bytes" where "SpanID_String H s = hk_Encode8 H s"

section \<open>Span contexts\<close>

record SpanContext =
  sc_traceID :: bytes
  sc_spanID :: bytes
  sc_traceFlags :: TraceFlags
  sc_traceState :: bytes
  sc_remote :: bool

definition NewSpanContext :: "bytes \<Rightarrow> bytes \<Rightarrow> TraceFlags \<Rightarrow> bytes \<Rightarrow> bool \<Rightarrow> SpanContext" where
  "NewSpanContext traceID spanID flags traceState remote =
    \<lparr>sc_traceID = traceID, sc_spanID = spanID, sc_traceFlags = flags, sc_traceState = traceState, sc_remote = remote\<rparr>"

definition zero_context :: SpanContext where
  "zero_context = NewSpanContext NilTraceID NilSpanID 0 [] False"

definition sc_IsValid :: "SpanContext \<Rightarrow> bool" where
  "sc_IsValid sc \<longleftrightarrow> TraceID_IsValid (sc_traceID sc) \<and> SpanID_IsValid (sc_spanID sc)"

definition sc_IsSampled :: "SpanContext \<Rightarrow> bool" where
  "sc_IsSampled sc = Flags_IsSampled (sc_traceFlags sc)"

definition TraceParent :: "hexkit \<Rightarrow> SpanContext \<Rightarrow> bytes" where
  "TraceParent H sc =
    (if \<not> sc_IsValid sc then []
     else ''00-'' @ hk_Encode16 H (sc_traceID sc) @ ''-'' @ hk_Encode8 H (sc_spanID sc) @ ''-'' @
          hk_Encode H (sc_traceFlags sc))"

definition ParseTraceParent :: "hexkit \<Rightarrow> bytes \<Rightarrow> otel_error + SpanContext" where
  "ParseTraceParent H header =
    (let header = TrimSpace header in
     if length header < 55 then Inl ErrInvalidTraceParent
     else if header ! 2 \<noteq> CHR ''-'' \<or> header ! 35 \<noteq> CHR ''-'' \<or> header ! 52 \<noteq> CHR ''-'' then Inl ErrInvalidTraceParent
     else if take 2 header = ''ff'' then Inl ErrInvalidTraceParent
     else if take 2 header = ''00'' \<and> length header \<noteq> 55 then Inl ErrInvalidTraceParent
     else
      (case hk_Decode32 H (take 32 (drop 3 header)) of
         None \<Rightarrow> Inl ErrInvalidTraceParent
       | Some traceID \<Rightarrow>
           if \<not> TraceID_IsValid traceID then Inl ErrInvalidTraceParent
           else
            (case hk_Decode16 H (take 16 (drop 36 header)) of
               None \<Rightarrow> Inl ErrInvalidTraceParent
             | Some spanID \<Rightarrow>
                 if \<not> SpanID_IsValid spanID then Inl ErrInvalidTraceParent
                 else
                  (case (hk_FromHexChar H (header ! 53), hk_FromHexChar H (header ! 54)) of
                     (Some f1, Some f2) \<Rightarrow>
                       Inr \<lparr>sc_traceID = traceID, sc_spanID = spanID, sc_traceFlags = push_bit 4 f1 OR f2,
                            sc_traceState = [], sc_remote = True\<rparr>
                   | _ \<Rightarrow> Inl ErrInvalidTraceParent))))"

definition sc_typed :: "SpanContext \<Rightarrow> bool" where
  "sc_typed sc \<longleftrightarrow> length (sc_traceID sc) = 16 \<and> length (sc_spanID sc) = 8"

section \<open>Carriers\<close>

abbreviation HeaderTraceParent :: bytes where "HeaderTraceParent \<equiv> ''traceparent''"
abbreviation HeaderTraceState :: bytes where "HeaderTraceState \<equiv> ''tracestate''"

text \<open>The header operations of an \<^verbatim>\<open>aoni.Request\<close>, a type of another module; a request may be nil.\<close>

record 'r aoni_headers =
  ah_Header :: "'r \<Rightarrow> bytes \<Rightarrow> bytes"
  ah_SetHeader :: "'r \<Rightarrow> bytes \<Rightarrow> bytes \<Rightarrow> 'r"
  ah_Headers :: "'r \<Rightarrow> bytes list"

definition RequestCarrier_Get :: "('r, 'z) aoni_headers_scheme \<Rightarrow> 'r option \<Rightarrow> bytes \<Rightarrow> bytes" where
  "RequestCarrier_Get A c key = (case c of None \<Rightarrow> [] | Some req \<Rightarrow> ah_Header A req key)"

definition RequestCarrier_Set :: "('r, 'z) aoni_headers_scheme \<Rightarrow> 'r option \<Rightarrow> bytes \<Rightarrow> bytes \<Rightarrow> 'r option" where
  "RequestCarrier_Set A c key v = (case c of None \<Rightarrow> None | Some req \<Rightarrow> Some (ah_SetHeader A req key v))"

definition RequestCarrier_Keys :: "('r, 'z) aoni_headers_scheme \<Rightarrow> 'r option \<Rightarrow> bytes list" where
  "RequestCarrier_Keys A c = (case c of None \<Rightarrow> [] | Some req \<Rightarrow> ah_Headers A req)"

definition HTTPHeaderCarrier_Get :: "http_header \<Rightarrow> bytes \<Rightarrow> bytes" where
  "HTTPHeaderCarrier_Get c key = Header_Get c key"

definition HTTPHeaderCarrier_Set :: "http_header \<Rightarrow> bytes \<Rightarrow> bytes \<Rightarrow> http_header" where
  "HTTPHeaderCarrier_Set c key v = Header_Set c key v"

definition HTTPHeaderCarrier_Keys :: "http_header \<Rightarrow> bytes list" where
  "HTTPHeaderCarrier_Keys c = map fst c"

text \<open>\<^verbatim>\<open>Inject\<close> from the span context on, and \<^verbatim>\<open>Extract\<close>, through the interface \<^verbatim>\<open>TextMapCarrier\<close>.\<close>

definition inject_context :: "hexkit \<Rightarrow> ('c \<Rightarrow> bytes \<Rightarrow> bytes \<Rightarrow> 'c) \<Rightarrow> SpanContext \<Rightarrow> 'c \<Rightarrow> 'c" where
  "inject_context H st sc carrier =
    (if \<not> sc_IsValid sc then carrier
     else (let carrier = st carrier HeaderTraceParent (TraceParent H sc)
           in if sc_traceState sc \<noteq> [] then st carrier HeaderTraceState (sc_traceState sc) else carrier))"

definition Extract_carrier :: "hexkit \<Rightarrow> ('c \<Rightarrow> bytes \<Rightarrow> bytes) \<Rightarrow> 'c option \<Rightarrow> SpanContext option" where
  "Extract_carrier H get carrier =
    (case carrier of
       None \<Rightarrow> None
     | Some carrier \<Rightarrow>
         (let parentHeader = get carrier HeaderTraceParent in
          if parentHeader = [] then None
          else case ParseTraceParent H parentHeader of
                 Inl err \<Rightarrow> None
               | Inr sc \<Rightarrow>
                   (let stateHeader = get carrier HeaderTraceState
                    in Some (if stateHeader \<noteq> [] then sc\<lparr>sc_traceState := stateHeader\<rparr> else sc))))"


section \<open>Lemmas\<close>

lemma hex_lawsD:
  assumes "hex_laws H"
  shows "length b = 16 \<Longrightarrow> length (hk_Encode16 H b) = 32 \<and> list_all hexchar (hk_Encode16 H b) \<and> hk_Decode32 H (hk_Encode16 H b) = Some b"
    and "length i = 8 \<Longrightarrow> length (hk_Encode8 H i) = 16 \<and> list_all hexchar (hk_Encode8 H i) \<and> hk_Decode16 H (hk_Encode8 H i) = Some i"
    and "hk_Decode32 H s = Some b \<Longrightarrow> length b = 16" and "hk_Decode16 H s = Some i \<Longrightarrow> length i = 8"
    and "\<exists>c d. hk_Encode H f = [c, d] \<and> hexchar c \<and> hexchar d \<and>
      hk_FromHexChar H c = Some (drop_bit 4 f) \<and> hk_FromHexChar H d = Some (take_bit 4 f)"
  using assms unfolding hex_laws_def by blast+

lemma hexchar_not_space: "hexchar c \<Longrightarrow> \<not> space_byte c"
  by (auto simp: hexchar_def is_digit_def space_byte_def byte_eval)

lemma flag_halves: "push_bit 4 (drop_bit 4 f) OR take_bit 4 f = (f :: 8 word)"
  by (rule bit_eqI) (auto simp: bit_simps)

lemma Parse_TraceParent:
  assumes "hex_laws H" and "sc_typed sc" and "sc_IsValid sc"
  shows "ParseTraceParent H (TraceParent H sc) = Inr (sc\<lparr>sc_traceState := [], sc_remote := True\<rparr>)"
proof -
  let ?t = "hk_Encode16 H (sc_traceID sc)" and ?s = "hk_Encode8 H (sc_spanID sc)"
  note t = hex_lawsD(1) [OF assms(1), of "sc_traceID sc"] and s = hex_lawsD(2) [OF assms(1), of "sc_spanID sc"]
  obtain c d where f: "hk_Encode H (sc_traceFlags sc) = [c, d]" "hexchar c" "hexchar d"
    "hk_FromHexChar H c = Some (drop_bit 4 (sc_traceFlags sc))" "hk_FromHexChar H d = Some (take_bit 4 (sc_traceFlags sc))"
    using hex_lawsD(5) [OF assms(1)] by blast
  define h where "h = TraceParent H sc"
  have h: "h = ''00-'' @ ?t @ ''-'' @ ?s @ ''-'' @ [c, d]" using assms(3) f(1) by (simp add: h_def TraceParent_def)
  have l: "length ?t = 32" "length ?s = 16" using t s assms(2) by (simp_all add: sc_typed_def)
  have "list_all (\<lambda>c. \<not> space_byte c) ?t" "list_all (\<lambda>c. \<not> space_byte c) ?s"
    using t s assms(2) hexchar_not_space by (auto simp: sc_typed_def list_all_iff)
  moreover have "\<not> space_byte CHR ''0''" "\<not> space_byte CHR ''-''" by (simp_all add: space_byte_def byte_eval)
  ultimately have "list_all (\<lambda>c. \<not> space_byte c) h" using f(2,3) hexchar_not_space by (simp add: h)
  then have tr: "TrimSpace h = h" by (rule TrimSpace_printable)
  have p: "length h = 55" "h ! 2 = CHR ''-''" "h ! 35 = CHR ''-''" "h ! 52 = CHR ''-''" "take 2 h = ''00''"
    "take 32 (drop 3 h) = ?t" "take 16 (drop 36 h) = ?s" "h ! 53 = c" "h ! 54 = d"
    using l by (simp_all add: h nth_append)
  show ?thesis
    using tr p t s assms(2,3) f(4,5)
    by (simp add: ParseTraceParent_def h_def [symmetric] sc_typed_def sc_IsValid_def flag_halves)
qed

lemma Parse_typed:
  assumes "hex_laws H" and "ParseTraceParent H header = Inr sc"
  shows "sc_typed sc \<and> sc_IsValid sc \<and> sc_remote sc \<and> sc_traceState sc = []"
  using assms(2) hex_lawsD(3,4) [OF assms(1)]
  by (auto simp: ParseTraceParent_def Let_def sc_typed_def sc_IsValid_def split: if_splits option.splits prod.splits)

text \<open>The interface \<^verbatim>\<open>TextMapCarrier\<close>: what is stored under a trace header is read back and the other header is not
  touched.\<close>

locale text_map_carrier =
  fixes get :: "'c \<Rightarrow> bytes \<Rightarrow> bytes" and st :: "'c \<Rightarrow> bytes \<Rightarrow> bytes \<Rightarrow> 'c"
  assumes get_st: "get (st c k v) k = v"
    and state_keeps_parent: "get (st c HeaderTraceState v) HeaderTraceParent = get c HeaderTraceParent"
    and parent_keeps_state: "get (st c HeaderTraceParent v) HeaderTraceState = get c HeaderTraceState"
begin

lemma extract_injected:
  assumes "hex_laws H" and "sc_typed sc" and "sc_IsValid sc"
  shows "Extract_carrier H get (Some (inject_context H st sc c)) =
    Some (sc\<lparr>sc_remote := True,
             sc_traceState := if sc_traceState sc \<noteq> [] then sc_traceState sc else get c HeaderTraceState\<rparr>)"
  using Parse_TraceParent [OF assms] assms(3)
  by (simp add: Extract_carrier_def inject_context_def Let_def get_st state_keeps_parent parent_keeps_state TraceParent_def)

lemma invalid_not_injected: "\<not> sc_IsValid sc \<Longrightarrow> inject_context H st sc c = c"
  by (simp add: inject_context_def)

end

lemma trace_header_keys: "CanonicalMIMEHeaderKey HeaderTraceParent \<noteq> CanonicalMIMEHeaderKey HeaderTraceState"
  by code_simp

interpretation http_carrier: text_map_carrier HTTPHeaderCarrier_Get HTTPHeaderCarrier_Set
  using trace_header_keys
  by unfold_locales
     (simp_all add: HTTPHeaderCarrier_Get_def HTTPHeaderCarrier_Set_def Header_Get_Set Header_Get_Set_other)

text \<open>A request carrier is one too, if setting a header of an \<^verbatim>\<open>aoni.Request\<close> does what it says.\<close>

definition aoni_laws :: "('r, 'z) aoni_headers_scheme \<Rightarrow> bool" where
  "aoni_laws A \<longleftrightarrow> (\<forall>r k v. ah_Header A (ah_SetHeader A r k v) k = v) \<and>
    (\<forall>r v. ah_Header A (ah_SetHeader A r HeaderTraceState v) HeaderTraceParent = ah_Header A r HeaderTraceParent) \<and>
    (\<forall>r v. ah_Header A (ah_SetHeader A r HeaderTraceParent v) HeaderTraceState = ah_Header A r HeaderTraceState)"

lemma request_carrier:
  "aoni_laws A \<Longrightarrow> text_map_carrier (\<lambda>r. RequestCarrier_Get A (Some r)) (\<lambda>r k v. the (RequestCarrier_Set A (Some r) k v))"
  by unfold_locales (simp_all add: aoni_laws_def RequestCarrier_Get_def RequestCarrier_Set_def)

section \<open>Properties\<close>

text \<open>A span context survives its journey in the headers.  After \<^verbatim>\<open>Inject\<close> has written a valid context into HTTP headers,
  \<^verbatim>\<open>Extract\<close> reads the same trace, span and flags, marked as remote; the trace state is the one
  written, or whatever the headers already had when the context has none.\<close>
theorem trace_context_roundtrip:
  assumes "hex_laws H" and "sc_typed sc" and "sc_IsValid sc"
  shows "Extract_carrier H HTTPHeaderCarrier_Get (Some (inject_context H HTTPHeaderCarrier_Set sc h)) =
    Some (sc\<lparr>sc_remote := True,
             sc_traceState := if sc_traceState sc \<noteq> [] then sc_traceState sc else HTTPHeaderCarrier_Get h HeaderTraceState\<rparr>)"
  using http_carrier.extract_injected [OF assms] .

definition hex_text :: "bytes \<Rightarrow> bytes" where
  "hex_text b = concat (map (\<lambda>c. [nibble_char (byte_val c div 16), nibble_char (byte_val c mod 16)]) b)"

definition nibble_val :: "char \<Rightarrow> nat option" where
  "nibble_val c = (if 48 \<le> byte_val c \<and> byte_val c < 58 then Some (byte_val c - 48)
    else if 97 \<le> byte_val c \<and> byte_val c < 103 then Some (byte_val c - 87) else None)"

fun unhex :: "bytes \<Rightarrow> bytes option" where
  "unhex [] = Some []"
| "unhex (c # d # s) =
    (case (nibble_val c, nibble_val d, unhex s) of
       (Some x, Some y, Some r) \<Rightarrow> Some (byte_of (x * 16 + y) # r)
     | _ \<Rightarrow> None)"
| "unhex [c] = None"

definition plain_hex :: hexkit where
  "plain_hex =
    \<lparr>hk_Encode = (\<lambda>f. [nibble_char (unat f div 16), nibble_char (unat f mod 16)]), hk_Encode16 = hex_text, hk_Encode8 = hex_text,
     hk_Decode32 = (\<lambda>s. if length s = 32 then unhex s else None), hk_Decode16 = (\<lambda>s. if length s = 16 then unhex s else None),
     hk_FromHexChar = (\<lambda>c. map_option of_nat (nibble_val c))\<rparr>"

lemma nibble_val_char: "n < 16 \<Longrightarrow> nibble_val (nibble_char n) = Some n"
  by (auto simp: nibble_val_def nibble_char_def)

lemma nibble_hexchar: "n < 16 \<Longrightarrow> hexchar (nibble_char n)"
proof -
  have "list_all (\<lambda>n. hexchar (nibble_char n)) [0..<16]"
    by (simp add: upt_rec hexchar_def nibble_char_def is_digit_def byte_eval)
  then show "n < 16 \<Longrightarrow> hexchar (nibble_char n)" by (simp add: list_all_iff)
qed

lemma div16: "byte_val c div 16 < 16"
  using byte_val_less [of c] by (simp add: div_less_iff_less_mult)

lemma unhex_text: "unhex (hex_text b) = Some b"
proof (induction b)
  case (Cons c b)
  have "byte_val c div 16 * 16 + byte_val c mod 16 = byte_val c" by simp
  then show ?case using Cons div16 [of c] by (simp add: hex_text_def nibble_val_char)
qed (simp add: hex_text_def)

lemma hex_text_facts: "length (hex_text b) = 2 * length b" "list_all hexchar (hex_text b)"
  using div16 by (induction b) (auto simp: hex_text_def nibble_hexchar)

lemma unhex_length: "unhex s = Some b \<Longrightarrow> length s = 2 * length b"
  by (induction s arbitrary: b rule: unhex.induct) (auto split: option.splits)

lemma plain_hex_laws: "hex_laws plain_hex"
proof -
  have "unat f < 2 ^ LENGTH(8)" for f :: "8 word" by (rule unsigned_less)
  then have "unat f div 16 < 16" for f :: "8 word" by (simp add: div_less_iff_less_mult)
  moreover have "word_of_nat (unat f div 16) = drop_bit 4 f" "word_of_nat (unat f mod 16) = take_bit 4 f" for f :: "8 word"
    by (simp_all add: drop_bit_eq_div take_bit_eq_mod word_arith_nat_div word_arith_nat_mod)
  ultimately show ?thesis
    using unhex_length by (fastforce simp: hex_laws_def plain_hex_def hex_text_facts unhex_text nibble_hexchar nibble_val_char)
qed


theorem trace_context_roundtrip_witness:
  "Extract_carrier plain_hex HTTPHeaderCarrier_Get
     (Some (inject_context plain_hex HTTPHeaderCarrier_Set (NewSpanContext (replicate 16 CHR ''a'') (replicate 8 CHR ''b'') 1 ''k=v'' False) [])) =
   Some (NewSpanContext (replicate 16 CHR ''a'') (replicate 8 CHR ''b'') 1 ''k=v'' True)"
proof -
  let ?sc = "NewSpanContext (replicate 16 CHR ''a'') (replicate 8 CHR ''b'') 1 ''k=v'' False"
  have "sc_typed ?sc" "sc_IsValid ?sc"
    by (simp_all add: sc_typed_def sc_IsValid_def NewSpanContext_def TraceID_IsValid_def SpanID_IsValid_def NilTraceID_def NilSpanID_def
        replicate_eq_replicate byte_eval)
  from trace_context_roundtrip [OF plain_hex_laws this] show ?thesis by (simp add: NewSpanContext_def)
qed

end
