(* ===== verification/OT_Trace.thy ===== *)
theory OT_Trace
  imports Complex_Main OT_Context Go_Clock
begin

text \<open>
  Package \<^verbatim>\<open>otel\<close>, files \<^verbatim>\<open>src/otel/span.go\<close>, \<^verbatim>\<open>src/otel/tracer.go\<close> and the exporters' interface: spans as objects
  on a heap that a pool reuses, tracers, samplers and the delivery of ended spans.  A
  pointer to a span is its index; the operations are the critical sections of the code.
  The pool of the package \<^verbatim>\<open>silicon/pool\<close> hands out a fresh object or one that was put back; which
  one, and whether it keeps what is put back, are arguments.
\<close>

section \<open>Spans\<close>

text \<open>The values of an attribute by their Go type; a floating-point value is the text \<^verbatim>\<open>FormatFloat\<close> gives, an error or a
  \<^verbatim>\<open>Stringer\<close> the text of its method.\<close>

datatype attr_value =
    AString bytes
  | AInt int
  | AInt32 int
  | AInt64 int
  | AUint nat
  | AUint32 nat
  | AUint64 nat
  | AFloat64 bytes
  | AFloat32 bytes
  | ABool bool
  | AError bytes
  | ABytes bytes
  | AStringer bytes
  | AOther

record Attribute =
  a_Key :: bytes
  a_Value :: attr_value

datatype StatusCode = StatusUnset | StatusOk | StatusError

fun SpanStatus_String :: "StatusCode \<Rightarrow> bytes" where
  "SpanStatus_String StatusOk = ''OK''"
| "SpanStatus_String StatusError = ''ERROR''"
| "SpanStatus_String StatusUnset = ''UNSET''"

datatype SpanKind =
    SpanKindUnspecified
  | SpanKindInternal
  | SpanKindServer
  | SpanKindClient
  | SpanKindProducer
  | SpanKindConsumer

record Event =
  ev_Name :: bytes
  ev_Timestamp :: gotime
  ev_Attributes :: "Attribute list"

type_synonym addr = nat

record Span =
  s_tracer :: "nat option"
  s_name :: bytes
  s_spanContext :: SpanContext
  s_parentSpanContext :: SpanContext
  s_kind :: SpanKind
  s_startTime :: gotime
  s_endTime :: gotime
  s_status :: StatusCode
  s_statusDesc :: bytes
  s_attributes :: "Attribute list"
  s_events :: "Event list"
  s_ended :: bool

record SpanSnapshot =
  sn_Name :: bytes
  sn_SpanContext :: SpanContext
  sn_ParentSpanContext :: SpanContext
  sn_Kind :: SpanKind
  sn_StartTime :: gotime
  sn_EndTime :: gotime
  sn_Duration :: int
  sn_Status :: StatusCode
  sn_StatusDescription :: bytes
  sn_Attributes :: "Attribute list"
  sn_Events :: "Event list"

section \<open>Samplers\<close>

datatype sampler =
    AlwaysSampleSampler
  | NeverSampleSampler
  | RatioSampler nat
  | OtherSampler "SpanContext \<Rightarrow> bytes \<Rightarrow> bytes \<Rightarrow> SpanKind \<Rightarrow> bool"

text \<open>The ratio is a finite \<^verbatim>\<open>float64\<close>; its product with \<open>2 ^ 64\<close>, to which \<^verbatim>\<open>float64(^uint64(0))\<close> is rounded, is exact.\<close>

definition NewRatioSampler :: "rat \<Rightarrow> sampler" where
  "NewRatioSampler ratio =
    (if ratio \<ge> 1 then RatioSampler (2 ^ 64 - 1)
     else if ratio \<le> 0 then RatioSampler 0
     else RatioSampler (nat \<lfloor>ratio * 2 ^ 64\<rfloor>))"

definition low_bytes :: "bytes \<Rightarrow> nat" where
  "low_bytes traceID = foldl (\<lambda>v i. v * 256 + byte_val (traceID ! i)) 0 [8..<16]"

fun ShouldSample :: "sampler \<Rightarrow> SpanContext \<Rightarrow> bytes \<Rightarrow> bytes \<Rightarrow> SpanKind \<Rightarrow> bool" where
  "ShouldSample AlwaysSampleSampler parentSc traceID name kind = True"
| "ShouldSample NeverSampleSampler parentSc traceID name kind = False"
| "ShouldSample (RatioSampler threshold) parentSc traceID name kind =
    (if sc_IsValid parentSc then sc_IsSampled parentSc else low_bytes traceID \<le> threshold)"
| "ShouldSample (OtherSampler f) parentSc traceID name kind = f parentSc traceID name kind"

section \<open>Tracers, exporters and the world\<close>

record Tracer =
  tr_name :: bytes
  tr_serviceName :: bytes
  tr_sampler :: sampler
  tr_exporter :: "nat option"
  tr_closed :: bool

text \<open>The queue and the batch of the OTLP exporter belong to its worker; \<open>ox_sent\<close> are the batches it has posted.\<close>

record otlp =
  ox_endpoint :: bytes
  ox_queue :: "SpanSnapshot list"
  ox_done :: bool
  ox_batchSize :: int
  ox_batch :: "SpanSnapshot list"
  ox_sent :: "SpanSnapshot list list"
  ox_stopped :: bool

datatype exporter = MemoryExporter "SpanSnapshot list" | OTLPHTTPExporter otlp

record world =
  w_spans :: "Span list"
  w_pool :: "addr list"
  w_tracers :: "Tracer list"
  w_exporters :: "exporter list"

abbreviation span_at :: "world \<Rightarrow> addr \<Rightarrow> Span" where
  "span_at w a \<equiv> w_spans w ! a"

definition on_span :: "addr \<Rightarrow> (Span \<Rightarrow> Span) \<Rightarrow> world \<Rightarrow> world" where
  "on_span a f w = w\<lparr>w_spans := (w_spans w)[a := f (span_at w a)]\<rparr>"

section \<open>The pool\<close>

definition new_span :: Span where
  "new_span =
    \<lparr>s_tracer = None, s_name = [], s_spanContext = zero_context, s_parentSpanContext = zero_context,
     s_kind = SpanKindUnspecified, s_startTime = \<lparr>t_sec = 0, t_nsec = 0\<rparr>, s_endTime = \<lparr>t_sec = 0, t_nsec = 0\<rparr>,
     s_status = StatusUnset, s_statusDesc = [], s_attributes = [], s_events = [], s_ended = False\<rparr>"

text \<open>\<^verbatim>\<open>spanStorage.Get\<close>: \<open>pick\<close> is the position in the pool of the object that is reused, if one is.\<close>

definition storage_Get :: "nat option \<Rightarrow> world \<Rightarrow> addr \<times> world" where
  "storage_Get pick w =
    (case pick of
       Some i \<Rightarrow>
         if i < length (w_pool w) then (w_pool w ! i, w\<lparr>w_pool := take i (w_pool w) @ drop (Suc i) (w_pool w)\<rparr>)
         else (length (w_spans w), w\<lparr>w_spans := w_spans w @ [new_span]\<rparr>)
     | None \<Rightarrow> (length (w_spans w), w\<lparr>w_spans := w_spans w @ [new_span]\<rparr>))"

definition fill_span :: "gotime \<Rightarrow> nat \<Rightarrow> bytes \<Rightarrow> SpanContext \<Rightarrow> SpanContext \<Rightarrow> SpanKind \<Rightarrow> gotime \<Rightarrow> Span \<Rightarrow> Span" where
  "fill_span coarse tracer name sc parentSc kind startTime s =
    s\<lparr>s_tracer := Some tracer, s_name := name, s_spanContext := sc, s_parentSpanContext := parentSc, s_kind := kind,
      s_startTime := (if Time_IsZero startTime then coarse else startTime), s_endTime := \<lparr>t_sec = 0, t_nsec = 0\<rparr>,
      s_status := StatusUnset, s_statusDesc := [], s_ended := False, s_attributes := [], s_events := []\<rparr>"

definition acquireSpan ::
  "nat option \<Rightarrow> gotime \<Rightarrow> nat \<Rightarrow> bytes \<Rightarrow> SpanContext \<Rightarrow> SpanContext \<Rightarrow> SpanKind \<Rightarrow> gotime \<Rightarrow> world \<Rightarrow> addr \<times> world" where
  "acquireSpan pick coarse tracer name sc parentSc kind startTime w =
    (let (a, w) = storage_Get pick w in (a, on_span a (fill_span coarse tracer name sc parentSc kind startTime) w))"

definition clear_span :: "Span \<Rightarrow> Span" where
  "clear_span s =
    s\<lparr>s_tracer := None, s_name := [], s_spanContext := zero_context, s_parentSpanContext := zero_context,
      s_statusDesc := [], s_attributes := [], s_events := []\<rparr>"

definition releaseSpan :: "bool \<Rightarrow> addr \<Rightarrow> world \<Rightarrow> world" where
  "releaseSpan keep a w =
    (let w = on_span a clear_span w in if keep then w\<lparr>w_pool := w_pool w @ [a]\<rparr> else w)"

section \<open>Operations on a span\<close>

definition SetName :: "bytes \<Rightarrow> Span \<Rightarrow> Span" where
  "SetName name s = s\<lparr>s_name := name\<rparr>"

definition SetStatus :: "StatusCode \<Rightarrow> bytes \<Rightarrow> Span \<Rightarrow> Span" where
  "SetStatus code desc s = (if s_ended s then s else s\<lparr>s_status := code, s_statusDesc := desc\<rparr>)"

fun set_attr :: "bytes \<Rightarrow> attr_value \<Rightarrow> Attribute list \<Rightarrow> Attribute list" where
  "set_attr key v [] = [\<lparr>a_Key = key, a_Value = v\<rparr>]"
| "set_attr key v (a # as) = (if a_Key a = key then a\<lparr>a_Value := v\<rparr> # as else a # set_attr key v as)"

definition SetAttribute :: "bytes \<Rightarrow> attr_value \<Rightarrow> Span \<Rightarrow> Span" where
  "SetAttribute key v s = (if s_ended s then s else s\<lparr>s_attributes := set_attr key v (s_attributes s)\<rparr>)"

definition SetAttributes :: "Attribute list \<Rightarrow> Span \<Rightarrow> Span" where
  "SetAttributes attrs s =
    (if attrs = [] then s else if s_ended s then s else s\<lparr>s_attributes := s_attributes s @ attrs\<rparr>)"

definition AddEventWithTime :: "bytes \<Rightarrow> gotime \<Rightarrow> Attribute list \<Rightarrow> Span \<Rightarrow> Span" where
  "AddEventWithTime name timestamp attrs s =
    (if s_ended s then s
     else s\<lparr>s_events := s_events s @ [\<lparr>ev_Name = name, ev_Timestamp = timestamp, ev_Attributes = attrs\<rparr>]\<rparr>)"

definition AddEvent :: "gotime \<Rightarrow> bytes \<Rightarrow> Attribute list \<Rightarrow> Span \<Rightarrow> Span" where
  "AddEvent now name attrs s = AddEventWithTime name now attrs s"

definition ExceptionAttributes :: "(bytes \<times> bytes) option \<Rightarrow> Attribute list" where
  "ExceptionAttributes err =
    (case err of
       None \<Rightarrow> []
     | Some (typ, msg) \<Rightarrow>
         [\<lparr>a_Key = ''exception.type'', a_Value = AString typ\<rparr>, \<lparr>a_Key = ''exception.message'', a_Value = AString msg\<rparr>])"

text \<open>An error is its type's name and its text.\<close>

definition RecordError :: "gotime \<Rightarrow> (bytes \<times> bytes) option \<Rightarrow> Span \<Rightarrow> Span" where
  "RecordError now err s =
    (case err of
       None \<Rightarrow> s
     | Some (typ, msg) \<Rightarrow> SetStatus StatusError msg (AddEvent now ''exception'' (ExceptionAttributes err) s))"

definition Duration :: "gotime \<Rightarrow> Span \<Rightarrow> int" where
  "Duration now s =
    (if Time_IsZero (s_endTime s) then Time_Sub now (s_startTime s) else Time_Sub (s_endTime s) (s_startTime s))"

text \<open>The accessors; those of the attributes and the events return copies, which later edits of the span do not reach.\<close>

definition Span_Name :: "Span \<Rightarrow> bytes" where [simp]: "Span_Name s = s_name s"
definition Span_SpanContext :: "Span \<Rightarrow> SpanContext" where [simp]: "Span_SpanContext s = s_spanContext s"
definition Span_ParentSpanContext :: "Span \<Rightarrow> SpanContext" where [simp]: "Span_ParentSpanContext s = s_parentSpanContext s"
definition Span_Kind :: "Span \<Rightarrow> SpanKind" where [simp]: "Span_Kind s = s_kind s"
definition Span_StartTime :: "Span \<Rightarrow> gotime" where [simp]: "Span_StartTime s = s_startTime s"
definition Span_EndTime :: "Span \<Rightarrow> gotime" where [simp]: "Span_EndTime s = s_endTime s"
definition Span_Status :: "Span \<Rightarrow> StatusCode \<times> bytes" where [simp]: "Span_Status s = (s_status s, s_statusDesc s)"
definition Span_Attributes :: "Span \<Rightarrow> Attribute list" where [simp]: "Span_Attributes s = s_attributes s"
definition Span_Events :: "Span \<Rightarrow> Event list" where [simp]: "Span_Events s = s_events s"

definition snapshot :: "gotime \<Rightarrow> Span \<Rightarrow> SpanSnapshot" where
  "snapshot now s =
    \<lparr>sn_Name = Span_Name s, sn_SpanContext = Span_SpanContext s, sn_ParentSpanContext = Span_ParentSpanContext s, sn_Kind = Span_Kind s,
     sn_StartTime = Span_StartTime s, sn_EndTime = Span_EndTime s, sn_Duration = Duration now s, sn_Status = fst (Span_Status s),
     sn_StatusDescription = snd (Span_Status s), sn_Attributes = Span_Attributes s, sn_Events = Span_Events s\<rparr>"

section \<open>Exporting and ending\<close>

text \<open>Both exporters take a snapshot and recycle the span; the OTLP exporter drops the snapshot when its queue of 2048 is
  full.\<close>

fun deliver :: "SpanSnapshot \<Rightarrow> exporter \<Rightarrow> exporter" where
  "deliver snap (MemoryExporter spans) = MemoryExporter (spans @ [snap])"
| "deliver snap (OTLPHTTPExporter e) =
    OTLPHTTPExporter (if length (ox_queue e) < 2048 then e\<lparr>ox_queue := ox_queue e @ [snap]\<rparr> else e)"

definition export_one :: "gotime \<Rightarrow> bool \<Rightarrow> nat \<Rightarrow> addr \<Rightarrow> world \<Rightarrow> world" where
  "export_one now keep x a w =
    releaseSpan keep a (w\<lparr>w_exporters := (w_exporters w)[x := deliver (snapshot now (span_at w a)) (w_exporters w ! x)]\<rparr>)"

definition Export :: "gotime \<Rightarrow> bool \<Rightarrow> nat \<Rightarrow> addr option list \<Rightarrow> world \<Rightarrow> world" where
  "Export now keep x spans w =
    fold (\<lambda>s w. case s of None \<Rightarrow> w | Some a \<Rightarrow> export_one now keep x a w) spans w"

definition processSpan :: "gotime \<Rightarrow> bool \<Rightarrow> nat \<Rightarrow> addr \<Rightarrow> world \<Rightarrow> world" where
  "processSpan now keep t a w =
    (let tr = w_tracers w ! t in
     case tr_exporter tr of
       None \<Rightarrow> releaseSpan keep a w
     | Some x \<Rightarrow>
         if tr_closed tr \<or> \<not> sc_IsSampled (s_spanContext (span_at w a)) then releaseSpan keep a w
         else Export now keep x [Some a] w)"

definition EndWithTime :: "gotime \<Rightarrow> bool \<Rightarrow> gotime \<Rightarrow> addr \<Rightarrow> world \<Rightarrow> world" where
  "EndWithTime now keep endTime a w =
    (if s_ended (span_at w a) then w
     else (let tracer = s_tracer (span_at w a); w = on_span a (\<lambda>s. s\<lparr>s_ended := True, s_endTime := endTime\<rparr>) w
           in case tracer of None \<Rightarrow> w | Some t \<Rightarrow> processSpan now keep t a w))"

definition End_span :: "gotime \<Rightarrow> bool \<Rightarrow> addr \<Rightarrow> world \<Rightarrow> world" where
  "End_span now keep a w = EndWithTime now keep now a w"

section \<open>Contexts\<close>

record gctx =
  cx_span :: "addr option"
  cx_remote :: "SpanContext option"

definition Background :: gctx where "Background = \<lparr>cx_span = None, cx_remote = None\<rparr>"

abbreviation ctx_or_background :: "gctx option \<Rightarrow> gctx" where
  "ctx_or_background ctx \<equiv> (case ctx of None \<Rightarrow> Background | Some c \<Rightarrow> c)"

definition ContextWithSpan :: "gctx option \<Rightarrow> addr option \<Rightarrow> gctx" where
  "ContextWithSpan ctx sp = (ctx_or_background ctx)\<lparr>cx_span := sp\<rparr>"

definition ContextWithRemoteSpanContext :: "gctx option \<Rightarrow> SpanContext \<Rightarrow> gctx" where
  "ContextWithRemoteSpanContext ctx sc = (ctx_or_background ctx)\<lparr>cx_remote := Some sc\<rparr>"

definition ContextWithSpanContext :: "gctx option \<Rightarrow> SpanContext \<Rightarrow> gctx" where
  "ContextWithSpanContext ctx sc = ContextWithRemoteSpanContext ctx sc"

definition SpanFromContext :: "gctx option \<Rightarrow> addr option" where
  "SpanFromContext ctx = (case ctx of None \<Rightarrow> None | Some c \<Rightarrow> cx_span c)"

definition RemoteSpanContextFromContext :: "gctx option \<Rightarrow> SpanContext" where
  "RemoteSpanContextFromContext ctx =
    (case ctx of None \<Rightarrow> zero_context | Some c \<Rightarrow> (case cx_remote c of Some sc \<Rightarrow> sc | None \<Rightarrow> zero_context))"

definition TraceIDFromContext :: "hexkit \<Rightarrow> world \<Rightarrow> gctx option \<Rightarrow> bytes" where
  "TraceIDFromContext H w ctx =
    (case SpanFromContext ctx of
       Some a \<Rightarrow> TraceID_String H (sc_traceID (s_spanContext (span_at w a)))
     | None \<Rightarrow>
         (let sc = RemoteSpanContextFromContext ctx in if sc_IsValid sc then TraceID_String H (sc_traceID sc) else []))"

definition Inject :: "hexkit \<Rightarrow> ('c \<Rightarrow> bytes \<Rightarrow> bytes \<Rightarrow> 'c) \<Rightarrow> world \<Rightarrow> gctx option \<Rightarrow> 'c option \<Rightarrow> 'c option" where
  "Inject H st w ctx carrier =
    (case carrier of
       None \<Rightarrow> None
     | Some c \<Rightarrow>
         (case SpanFromContext ctx of
            None \<Rightarrow> Some c
          | Some a \<Rightarrow> Some (inject_context H st (s_spanContext (span_at w a)) c)))"

section \<open>Starting a span\<close>

record StartConfig =
  st_Kind :: SpanKind
  st_Attributes :: "Attribute list"
  st_StartTime :: gotime

type_synonym StartOption = "StartConfig \<Rightarrow> StartConfig"

definition WithSpanKind :: "SpanKind \<Rightarrow> StartOption" where "WithSpanKind kind c = c\<lparr>st_Kind := kind\<rparr>"
definition WithAttributes :: "Attribute list \<Rightarrow> StartOption" where
  "WithAttributes attrs c = c\<lparr>st_Attributes := st_Attributes c @ attrs\<rparr>"
definition WithStartTime :: "gotime \<Rightarrow> StartOption" where "WithStartTime t c = c\<lparr>st_StartTime := t\<rparr>"

definition start_config :: "gotime \<Rightarrow> StartOption list \<Rightarrow> StartConfig" where
  "start_config now opts = fold (\<lambda>f c. f c) opts \<lparr>st_Kind = SpanKindInternal, st_Attributes = [], st_StartTime = now\<rparr>"

definition parent_context :: "world \<Rightarrow> gctx option \<Rightarrow> SpanContext" where
  "parent_context w ctx =
    (case SpanFromContext ctx of Some a \<Rightarrow> s_spanContext (span_at w a) | None \<Rightarrow> RemoteSpanContextFromContext ctx)"

text \<open>The identifiers; \<open>None\<close> when the random reads given do not suffice.\<close>

definition start_ids :: "SpanContext \<Rightarrow> bytes option list \<Rightarrow> bytes option list \<Rightarrow> (bytes \<times> bytes) option" where
  "start_ids parentSc draws16 draws8 =
    (case (if sc_IsValid parentSc then Some (sc_traceID parentSc, draws16) else NewTraceID draws16) of
       None \<Rightarrow> None
     | Some (traceID, _) \<Rightarrow> (case NewSpanID draws8 of None \<Rightarrow> None | Some (spanID, _) \<Rightarrow> Some (traceID, spanID)))"

definition start_context :: "sampler \<Rightarrow> SpanContext \<Rightarrow> bytes \<Rightarrow> bytes \<Rightarrow> bytes \<Rightarrow> SpanKind \<Rightarrow> SpanContext" where
  "start_context smp parentSc traceID spanID name kind =
    NewSpanContext traceID spanID (if ShouldSample smp parentSc traceID name kind then 0 OR FlagSampled else 0)
      (sc_traceState parentSc) False"

definition Start ::
  "nat option \<Rightarrow> gotime \<Rightarrow> gotime \<Rightarrow> bytes option list \<Rightarrow> bytes option list \<Rightarrow> nat \<Rightarrow> gctx option \<Rightarrow> bytes \<Rightarrow> StartOption list \<Rightarrow>
     world \<Rightarrow> (gctx \<times> addr \<times> world) option" where
  "Start pick coarse now draws16 draws8 t ctx spanName opts w =
    (let cfg = start_config now opts; parentSc = parent_context w ctx in
     case start_ids parentSc draws16 draws8 of
       None \<Rightarrow> None
     | Some (traceID, spanID) \<Rightarrow>
         (let sc = start_context (tr_sampler (w_tracers w ! t)) parentSc traceID spanID spanName (st_Kind cfg);
              (a, w) = acquireSpan pick coarse t spanName sc parentSc (st_Kind cfg) (st_StartTime cfg) w;
              w = (if length (st_Attributes cfg) > 0 then on_span a (SetAttributes (st_Attributes cfg)) w else w)
          in Some (ContextWithSpan ctx (Some a), a, w)))"


section \<open>Programs that use spans\<close>

text \<open>What a client does with the spans it started, named by the number of the \<^verbatim>\<open>Start\<close> call.\<close>

datatype edit =
    ESetName bytes
  | ESetStatus StatusCode bytes
  | ESetAttribute bytes attr_value
  | ESetAttributes "Attribute list"
  | EAddEvent bytes gotime "Attribute list"
  | ERecordError gotime "(bytes \<times> bytes) option"

fun apply_edit :: "edit \<Rightarrow> Span \<Rightarrow> Span" where
  "apply_edit (ESetName n) s = SetName n s"
| "apply_edit (ESetStatus c d) s = SetStatus c d s"
| "apply_edit (ESetAttribute k v) s = SetAttribute k v s"
| "apply_edit (ESetAttributes attrs) s = SetAttributes attrs s"
| "apply_edit (EAddEvent n t attrs) s = AddEventWithTime n t attrs s"
| "apply_edit (ERecordError now err) s = RecordError now err s"

record start_call =
  c_pick :: "nat option"
  c_coarse :: gotime
  c_now :: gotime
  c_draws16 :: "bytes option list"
  c_draws8 :: "bytes option list"
  c_tracer :: nat
  c_parent :: "nat option"
  c_remote :: "SpanContext option"
  c_name :: bytes
  c_opts :: "StartOption list"

datatype op = OStart start_call | OEdit nat edit | OEnd nat gotime bool gotime

fun cstep :: "op \<Rightarrow> world \<times> addr list \<Rightarrow> (world \<times> addr list) option" where
  "cstep (OStart c) (w, hs) =
    (case Start (c_pick c) (c_coarse c) (c_now c) (c_draws16 c) (c_draws8 c) (c_tracer c)
            (Some \<lparr>cx_span = map_option (\<lambda>i. hs ! i) (c_parent c), cx_remote = c_remote c\<rparr>) (c_name c) (c_opts c) w of
       None \<Rightarrow> None
     | Some (ctx, a, w) \<Rightarrow> Some (w, hs @ [a]))"
| "cstep (OEdit i e) (w, hs) = Some (on_span (hs ! i) (apply_edit e) w, hs)"
| "cstep (OEnd i now keep t) (w, hs) = Some (EndWithTime now keep t (hs ! i) w, hs)"

fun crun :: "op list \<Rightarrow> world \<times> addr list \<Rightarrow> (world \<times> addr list) option" where
  "crun [] c = Some c"
| "crun (p # ps) c = (case cstep p c of None \<Rightarrow> None | Some c \<Rightarrow> crun ps c)"

text \<open>The specification: every span is a value of its own, nothing is reused.\<close>

record amach =
  am_spans :: "Span list"
  am_tracers :: "Tracer list"
  am_exporters :: "exporter list"

definition a_parent :: "start_call \<Rightarrow> amach \<Rightarrow> SpanContext" where
  "a_parent c m =
    (case c_parent c of
       Some i \<Rightarrow> s_spanContext (am_spans m ! i)
     | None \<Rightarrow> (case c_remote c of Some sc \<Rightarrow> sc | None \<Rightarrow> zero_context))"

definition a_started :: "start_call \<Rightarrow> amach \<Rightarrow> bytes \<Rightarrow> bytes \<Rightarrow> Span" where
  "a_started c m traceID spanID =
    (let cfg = start_config (c_now c) (c_opts c)
     in SetAttributes (st_Attributes cfg)
          (fill_span (c_coarse c) (c_tracer c) (c_name c)
            (start_context (tr_sampler (am_tracers m ! c_tracer c)) (a_parent c m) traceID spanID (c_name c) (st_Kind cfg))
            (a_parent c m) (st_Kind cfg) (st_StartTime cfg) new_span))"

definition exported_to :: "Span \<Rightarrow> amach \<Rightarrow> nat option" where
  "exported_to s m =
    (case s_tracer s of
       None \<Rightarrow> None
     | Some t \<Rightarrow> if tr_closed (am_tracers m ! t) \<or> \<not> sc_IsSampled (s_spanContext s) then None else tr_exporter (am_tracers m ! t))"

fun astep :: "op \<Rightarrow> amach \<Rightarrow> amach option" where
  "astep (OStart c) m =
    map_option (\<lambda>(traceID, spanID). m\<lparr>am_spans := am_spans m @ [a_started c m traceID spanID]\<rparr>)
      (start_ids (a_parent c m) (c_draws16 c) (c_draws8 c))"
| "astep (OEdit i e) m = Some (m\<lparr>am_spans := (am_spans m)[i := apply_edit e (am_spans m ! i)]\<rparr>)"
| "astep (OEnd i now keep t) m =
    (let s = (am_spans m ! i)\<lparr>s_ended := True, s_endTime := t\<rparr>; m = m\<lparr>am_spans := (am_spans m)[i := s]\<rparr>
     in Some (case exported_to s m of
                None \<Rightarrow> m
              | Some x \<Rightarrow> m\<lparr>am_exporters := (am_exporters m)[x := deliver (snapshot now s) (am_exporters m ! x)]\<rparr>))"

fun arun :: "op list \<Rightarrow> amach \<Rightarrow> amach option" where
  "arun [] m = Some m"
| "arun (p # ps) m = (case astep p m of None \<Rightarrow> None | Some m \<Rightarrow> arun ps m)"

text \<open>A client keeps to the rules when it uses a span only between its start and its end.\<close>

definition live :: "amach \<Rightarrow> nat \<Rightarrow> bool" where
  "live m i \<longleftrightarrow> i < length (am_spans m) \<and> \<not> s_ended (am_spans m ! i)"

fun op_ok :: "op \<Rightarrow> amach \<Rightarrow> bool" where
  "op_ok (OStart c) m = (case c_parent c of None \<Rightarrow> True | Some i \<Rightarrow> live m i)"
| "op_ok (OEdit i e) m = live m i"
| "op_ok (OEnd i now keep t) m = live m i"

fun run_ok :: "op list \<Rightarrow> amach \<Rightarrow> bool" where
  "run_ok [] m = True"
| "run_ok (p # ps) m = (op_ok p m \<and> (case astep p m of None \<Rightarrow> True | Some m \<Rightarrow> run_ok ps m))"

section \<open>The pool is invisible to such clients\<close>

definition refines :: "world \<times> addr list \<Rightarrow> amach \<Rightarrow> bool" where
  "refines c m \<longleftrightarrow> (case c of (w, hs) \<Rightarrow>
    length hs = length (am_spans m) \<and> w_tracers w = am_tracers m \<and> w_exporters w = am_exporters m \<and>
    (\<forall>i. live m i \<longrightarrow> hs ! i < length (w_spans w) \<and> span_at w (hs ! i) = am_spans m ! i \<and> hs ! i \<notin> set (w_pool w)) \<and>
    (\<forall>i j. live m i \<longrightarrow> live m j \<longrightarrow> i \<noteq> j \<longrightarrow> hs ! i \<noteq> hs ! j) \<and>
    distinct (w_pool w) \<and> (\<forall>a \<in> set (w_pool w). a < length (w_spans w)))"

lemma refinesD:
  assumes "refines (w, hs) m"
  shows "length hs = length (am_spans m)" "w_tracers w = am_tracers m" "w_exporters w = am_exporters m"
    "distinct (w_pool w)" "a \<in> set (w_pool w) \<Longrightarrow> a < length (w_spans w)"
    "live m i \<Longrightarrow> hs ! i < length (w_spans w) \<and> span_at w (hs ! i) = am_spans m ! i \<and> hs ! i \<notin> set (w_pool w)"
    "live m i \<Longrightarrow> live m j \<Longrightarrow> i \<noteq> j \<Longrightarrow> hs ! i \<noteq> hs ! j"
  using assms by (auto simp: refines_def)

lemma on_span_simps [simp]:
  "w_pool (on_span a f w) = w_pool w" "w_tracers (on_span a f w) = w_tracers w" "w_exporters (on_span a f w) = w_exporters w"
  "length (w_spans (on_span a f w)) = length (w_spans w)"
  "a < length (w_spans w) \<Longrightarrow> span_at (on_span a f w) b = (if b = a then f (span_at w a) else span_at w b)"
  by (simp_all add: on_span_def)

lemma edit_ended [simp]: "s_ended (apply_edit e s) = s_ended s"
  by (cases e) (auto simp: SetName_def SetStatus_def SetAttribute_def SetAttributes_def AddEventWithTime_def RecordError_def
      AddEvent_def split: option.splits)

lemma fill_any: "fill_span co t n sc p k st s = fill_span co t n sc p k st new_span"
  by (simp add: fill_span_def)

text \<open>Taking a span out of the pool gives an address no live span has.\<close>

lemma storage_Get_fresh:
  assumes "refines (w, hs) m" and "storage_Get pick w = (a, w')"
  shows "a < length (w_spans w')" "a \<notin> set (w_pool w')" "distinct (w_pool w')" "set (w_pool w') \<subseteq> set (w_pool w)"
    "length (w_spans w) \<le> length (w_spans w')" "b < length (w_spans w) \<Longrightarrow> span_at w' b = span_at w b"
    "w_tracers w' = w_tracers w" "w_exporters w' = w_exporters w" "live m i \<Longrightarrow> hs ! i \<noteq> a"
proof -
  note d = refinesD [OF assms(1)]
  have "a < length (w_spans w') \<and> a \<notin> set (w_pool w') \<and> distinct (w_pool w') \<and> set (w_pool w') \<subseteq> set (w_pool w) \<and>
    length (w_spans w) \<le> length (w_spans w') \<and> (b < length (w_spans w) \<longrightarrow> span_at w' b = span_at w b) \<and>
    w_tracers w' = w_tracers w \<and> w_exporters w' = w_exporters w \<and> (a \<in> set (w_pool w) \<or> a = length (w_spans w))"
  proof (cases "\<exists>i. pick = Some i \<and> i < length (w_pool w)")
    case True
    then obtain i where i: "pick = Some i" "i < length (w_pool w)" by blast
    have p: "w_pool w = take i (w_pool w) @ w_pool w ! i # drop (Suc i) (w_pool w)" using i(2) by (rule id_take_nth_drop)
    have "distinct (take i (w_pool w) @ w_pool w ! i # drop (Suc i) (w_pool w))" using d(4) p by simp
    then show ?thesis using assms(2) i d(5) [of "w_pool w ! i"] by (auto simp: storage_Get_def dest: in_set_takeD in_set_dropD)
  next
    case False
    then have "storage_Get pick w = (length (w_spans w), w\<lparr>w_spans := w_spans w @ [new_span]\<rparr>)"
      by (auto simp: storage_Get_def split: option.splits)
    then show ?thesis using assms(2) d(4) d(5) by (auto simp: nth_append)
  qed
  then show "a < length (w_spans w')" "a \<notin> set (w_pool w')" "distinct (w_pool w')" "set (w_pool w') \<subseteq> set (w_pool w)"
    "length (w_spans w) \<le> length (w_spans w')" "b < length (w_spans w) \<Longrightarrow> span_at w' b = span_at w b"
    "w_tracers w' = w_tracers w" "w_exporters w' = w_exporters w" "live m i \<Longrightarrow> hs ! i \<noteq> a"
    using d(6) [of i] by auto
qed


lemma live_snoc: "live (m\<lparr>am_spans := am_spans m @ [s]\<rparr>) i \<longleftrightarrow> live m i \<or> i = length (am_spans m) \<and> \<not> s_ended s"
  by (auto simp: live_def nth_append)

lemma refines_new:
  assumes r: "refines (w, hs) m" and g: "storage_Get pick w = (a, w')" and f: "\<not> s_ended (f (span_at w' a))"
  shows "refines (on_span a f w', hs @ [a]) (m\<lparr>am_spans := am_spans m @ [f (span_at w' a)]\<rparr>)"
proof -
  note d = refinesD [OF r] and n = storage_Get_fresh [OF r g]
  have b: "hs ! i < length (w_spans w')" if "live m i" for i using d(6) [OF that] n(5) by simp
  have s: "span_at w' (hs ! i) = am_spans m ! i" if "live m i" for i using d(6) [OF that] n(6) by simp
  have p: "hs ! i \<notin> set (w_pool w')" if "live m i" for i using d(6) [OF that] n(4) by auto
  have i: "(hs @ [a]) ! i = hs ! i" "(am_spans m @ xs) ! i = am_spans m ! i" if "live m i" for i xs
    using that d(1) by (simp_all add: live_def nth_append)
  have ne: "a \<noteq> hs ! i" if "live m i" for i using n(9) [OF that] by simp
  have e: "(hs @ [a]) ! length (am_spans m) = a" using d(1) by (simp add: nth_append)
  have pool: "x < length (w_spans w')" if "x \<in> set (w_pool w')" for x using that n(4,5) d(5) [of x] by auto
  show ?thesis
    unfolding refines_def prod.case live_snoc
  proof (intro conjI allI impI ballI)
    fix k assume "live m k \<or> k = length (am_spans m) \<and> \<not> s_ended (f (span_at w' a))"
    then show "(hs @ [a]) ! k < length (w_spans (on_span a f w'))"
      "span_at (on_span a f w') ((hs @ [a]) ! k) = am_spans (m\<lparr>am_spans := am_spans m @ [f (span_at w' a)]\<rparr>) ! k"
      "(hs @ [a]) ! k \<notin> set (w_pool (on_span a f w'))"
      using n(1,2) by (elim disjE; simp add: b s p i e ne [symmetric])+
  next
    fix k l assume "live m k \<or> k = length (am_spans m) \<and> \<not> s_ended (f (span_at w' a))"
      "live m l \<or> l = length (am_spans m) \<and> \<not> s_ended (f (span_at w' a))" "k \<noteq> l"
    then show "(hs @ [a]) ! k \<noteq> (hs @ [a]) ! l" using i e n(9) d(7) by metis
  qed (use d n pool in simp_all)
qed

lemma on_span_twice: "a < length (w_spans w) \<Longrightarrow> on_span a g (on_span a f w) = on_span a (\<lambda>s. g (f s)) w"
  by (simp add: on_span_def)

lemma parent_refines:
  assumes "refines (w, hs) m" and "op_ok (OStart c) m"
  shows "parent_context w (Some \<lparr>cx_span = map_option (\<lambda>i. hs ! i) (c_parent c), cx_remote = c_remote c\<rparr>) = a_parent c m"
  using assms(2) refinesD(6) [OF assms(1)]
  by (auto simp: parent_context_def a_parent_def SpanFromContext_def RemoteSpanContextFromContext_def split: option.splits)

lemma refines_start:
  assumes r: "refines (w, hs) m" and ok: "op_ok (OStart c) m"
  shows "rel_option refines (cstep (OStart c) (w, hs)) (astep (OStart c) m)"
proof (cases "start_ids (a_parent c m) (c_draws16 c) (c_draws8 c)")
  case None
  then show ?thesis using parent_refines [OF assms] by (simp add: Start_def Let_def)
next
  case (Some ids)
  obtain t i where ids: "ids = (t, i)" by fastforce
  obtain a w' where g: "storage_Get (c_pick c) w = (a, w')" by fastforce
  let ?cfg = "start_config (c_now c) (c_opts c)"
  let ?fill = "fill_span (c_coarse c) (c_tracer c) (c_name c)
      (start_context (tr_sampler (am_tracers m ! c_tracer c)) (a_parent c m) t i (c_name c) (st_Kind ?cfg))
      (a_parent c m) (st_Kind ?cfg) (st_StartTime ?cfg)"
  let ?f = "\<lambda>s. SetAttributes (st_Attributes ?cfg) (?fill s)"
  have a: "a < length (w_spans w')" using storage_Get_fresh(1) [OF r g] .
  have w: "(if length (st_Attributes ?cfg) > 0 then on_span a (SetAttributes (st_Attributes ?cfg)) (on_span a ?fill w') else on_span a ?fill w') =
      on_span a ?f w'"
  proof (cases "st_Attributes ?cfg = []")
    case True
    then have "?f = ?fill" by (simp add: SetAttributes_def)
    then show ?thesis using True by simp
  qed (simp add: on_span_twice a)
  have "?f (span_at w' a) = a_started c m t i" 
    unfolding a_started_def Let_def by (subst fill_any) simp
  moreover have "\<not> s_ended (?f (span_at w' a))" by (simp add: SetAttributes_def fill_span_def)
  ultimately have "refines (on_span a ?f w', hs @ [a]) (m\<lparr>am_spans := am_spans m @ [a_started c m t i]\<rparr>)"
    using refines_new [OF r g, of ?f] by simp
  moreover have "cstep (OStart c) (w, hs) = Some (on_span a ?f w', hs @ [a])"
    using parent_refines [OF assms] Some ids g w refinesD(2) [OF r] by (simp add: Start_def acquireSpan_def Let_def)
  moreover have "astep (OStart c) m = Some (m\<lparr>am_spans := am_spans m @ [a_started c m t i]\<rparr>)" using Some ids by simp
  ultimately show ?thesis by (simp only: option.rel_inject)
qed


text \<open>Changing a live span in place.\<close>

lemma live_update: "live (m\<lparr>am_spans := (am_spans m)[i := s]\<rparr>) j \<longleftrightarrow> (if j = i then i < length (am_spans m) \<and> \<not> s_ended s else live m j)"
  by (auto simp: live_def)

lemma refines_update:
  assumes r: "refines (w, hs) m" and i: "live m i"
  shows "refines (on_span (hs ! i) f w, hs) (m\<lparr>am_spans := (am_spans m)[i := f (am_spans m ! i)]\<rparr>)"
proof -
  note d = refinesD [OF r]
  have l: "live m j" if "live (m\<lparr>am_spans := (am_spans m)[i := f (am_spans m ! i)]\<rparr>) j" for j
    using that i by (auto simp: live_update split: if_splits)
  have ib: "i < length (am_spans m)" using i by (simp add: live_def)
  show ?thesis
    unfolding refines_def prod.case
  proof (intro conjI allI impI ballI)
    fix j assume "live (m\<lparr>am_spans := (am_spans m)[i := f (am_spans m ! i)]\<rparr>) j"
    then have j: "live m j" by (rule l)
    then show "hs ! j < length (w_spans (on_span (hs ! i) f w))"
      "span_at (on_span (hs ! i) f w) (hs ! j) = am_spans (m\<lparr>am_spans := (am_spans m)[i := f (am_spans m ! i)]\<rparr>) ! j"
      "hs ! j \<notin> set (w_pool (on_span (hs ! i) f w))"
      using d(6) [OF j] d(6) [OF i] d(7) [OF j i] ib by (cases "j = i"; simp)+
  next
    fix j k assume "live (m\<lparr>am_spans := (am_spans m)[i := f (am_spans m ! i)]\<rparr>) j"
      "live (m\<lparr>am_spans := (am_spans m)[i := f (am_spans m ! i)]\<rparr>) k" "j \<noteq> k"
    then show "hs ! j \<noteq> hs ! k" using l d(7) by blast
  qed (use d in simp_all)
qed

text \<open>A span that is no longer live may be cleared and put into the pool.\<close>

lemma refines_release:
  assumes r: "refines (w, hs) m" and i: "\<not> live m i" "hs ! i < length (w_spans w)" "hs ! i \<notin> set (w_pool w)"
    and o: "\<And>j. live m j \<Longrightarrow> hs ! j \<noteq> hs ! i"
  shows "refines (releaseSpan keep (hs ! i) w, hs) m"
proof -
  note d = refinesD [OF r]
  have "refines (on_span (hs ! i) clear_span w, hs) m"
    unfolding refines_def prod.case
  proof (intro conjI allI impI ballI)
    fix j assume j: "live m j"
    then show "hs ! j < length (w_spans (on_span (hs ! i) clear_span w))" "span_at (on_span (hs ! i) clear_span w) (hs ! j) = am_spans m ! j"
      "hs ! j \<notin> set (w_pool (on_span (hs ! i) clear_span w))"
      using d(6) [OF j] i(2) o [OF j] by simp_all
  qed (use d in simp_all)
  then show ?thesis using i(2,3) o by (auto simp: releaseSpan_def refines_def Let_def)
qed

lemma refines_deliver:
  "refines (w, hs) m \<Longrightarrow>
    refines (w\<lparr>w_exporters := (w_exporters w)[x := e]\<rparr>, hs) (m\<lparr>am_exporters := (am_exporters m)[x := e]\<rparr>)"
  by (auto simp: refines_def live_def)

lemma refines_end:
  assumes r: "refines (w, hs) m" and i: "live m i"
  shows "rel_option refines (cstep (OEnd i now keep t) (w, hs)) (astep (OEnd i now keep t) m)"
proof -
  note d = refinesD [OF r]
  define s where "s = (am_spans m ! i)\<lparr>s_ended := True, s_endTime := t\<rparr>"
  define m' where "m' = m\<lparr>am_spans := (am_spans m)[i := s]\<rparr>"
  define w' where "w' = on_span (hs ! i) (\<lambda>s. s\<lparr>s_ended := True, s_endTime := t\<rparr>) w"
  have r': "refines (w', hs) m'" using refines_update [OF r i, of "\<lambda>s. s\<lparr>s_ended := True, s_endTime := t\<rparr>"] by (simp add: w'_def m'_def s_def)
  have a: "hs ! i < length (w_spans w')" "hs ! i \<notin> set (w_pool w')" "span_at w' (hs ! i) = s"
    using d(6) [OF i] by (simp_all add: w'_def s_def)
  have dead: "\<not> live m' i" by (simp add: m'_def live_update s_def)
  have ne: "hs ! j \<noteq> hs ! i" if "live m' j" for j
  proof -
    have "live m j" "j \<noteq> i" using that dead i by (auto simp: m'_def live_update split: if_splits)
    then show ?thesis using d(7) i by blast
  qed
  have rel: "refines (releaseSpan keep (hs ! i) w', hs) m'" using refines_release [OF r' dead a(1,2) ne] .
  have ex: "refines (export_one now keep x (hs ! i) w', hs) (m'\<lparr>am_exporters := (am_exporters m')[x := deliver (snapshot now s) (am_exporters m' ! x)]\<rparr>)" for x
  proof -
    have "live (m'\<lparr>am_exporters := e\<rparr>) j = live m' j" for e j by (simp add: live_def)
    then show ?thesis
      unfolding export_one_def a(3)
      using refines_release [OF refines_deliver [OF r'], of x "deliver (snapshot now s) (w_exporters w' ! x)" i keep] dead a(1,2) ne
        refinesD(3) [OF r'] by simp
  qed
  have tr: "s_tracer (span_at w (hs ! i)) = s_tracer s" "\<not> s_ended (span_at w (hs ! i))"
    using d(6) [OF i] i by (simp_all add: s_def live_def)
  have c: "EndWithTime now keep t (hs ! i) w = (case s_tracer s of None \<Rightarrow> w' | Some u \<Rightarrow> processSpan now keep u (hs ! i) w')"
    using tr by (simp add: EndWithTime_def Let_def w'_def split: option.split)
  have tm: "am_tracers m' = w_tracers w'" using refinesD(2) [OF r'] by simp
  show ?thesis
  proof (cases "s_tracer s")
    case None
    then show ?thesis using r' by (simp add: c exported_to_def s_def [symmetric] m'_def [symmetric] Let_def)
  next
    case (Some u)
    then show ?thesis using rel ex
      by (auto simp: c exported_to_def s_def [symmetric] m'_def [symmetric] Let_def processSpan_def tm a(3) Export_def split: option.splits)
  qed
qed


lemma refines_run:
  "refines c m \<Longrightarrow> run_ok ps m \<Longrightarrow> rel_option refines (crun ps c) (arun ps m)"
proof (induction ps arbitrary: c m)
  case (Cons p ps)
  obtain w hs where c: "c = (w, hs)" by fastforce
  have "rel_option refines (cstep p c) (astep p m)"
  proof (cases p)
    case (OStart cl)
    then show ?thesis using refines_start [of w hs m cl] Cons.prems c by (simp only: run_ok.simps)
  next
    case (OEdit i e)
    then show ?thesis using refines_update [of w hs m i "apply_edit e"] Cons.prems c by simp
  next
    case (OEnd i now keep t)
    then show ?thesis using refines_end [of w hs m i now keep t] Cons.prems c by (simp only: run_ok.simps op_ok.simps)
  qed
  then show ?case using Cons.IH Cons.prems(2)
    by (cases "cstep p c"; cases "astep p m") (simp_all del: cstep.simps astep.simps)
qed simp

section \<open>Types\<close>

definition span_typed :: "Span \<Rightarrow> bool" where
  "span_typed s \<longleftrightarrow> sc_typed (s_spanContext s) \<and> sc_typed (s_parentSpanContext s)"

definition snap_typed :: "SpanSnapshot \<Rightarrow> bool" where
  "snap_typed n \<longleftrightarrow> sc_typed (sn_SpanContext n) \<and> sc_typed (sn_ParentSpanContext n)"

fun exporter_typed :: "exporter \<Rightarrow> bool" where
  "exporter_typed (MemoryExporter ns) = list_all snap_typed ns"
| "exporter_typed (OTLPHTTPExporter e) = list_all snap_typed (ox_queue e)"

definition world_typed :: "world \<times> addr list \<Rightarrow> bool" where
  "world_typed c \<longleftrightarrow> (case c of (w, hs) \<Rightarrow>
    list_all span_typed (w_spans w) \<and> list_all (\<lambda>a. a < length (w_spans w)) hs \<and>
    list_all (\<lambda>a. a < length (w_spans w)) (w_pool w) \<and> list_all exporter_typed (w_exporters w))"

fun op_typed :: "op \<Rightarrow> addr list \<Rightarrow> bool" where
  "op_typed (OStart c) hs =
    (list_all (\<lambda>d. case d of None \<Rightarrow> True | Some b \<Rightarrow> length b = 16) (c_draws16 c) \<and>
     list_all (\<lambda>d. case d of None \<Rightarrow> True | Some b \<Rightarrow> length b = 8) (c_draws8 c) \<and>
     (case c_parent c of None \<Rightarrow> True | Some i \<Rightarrow> i < length hs) \<and>
     (case c_remote c of None \<Rightarrow> True | Some sc \<Rightarrow> sc_typed sc))"
| "op_typed (OEdit i e) hs = (i < length hs)"
| "op_typed (OEnd i now keep t) hs = (i < length hs)"

fun run_typed :: "op list \<Rightarrow> world \<times> addr list \<Rightarrow> bool" where
  "run_typed [] c = True"
| "run_typed (p # ps) c = (op_typed p (snd c) \<and> (case cstep p c of None \<Rightarrow> True | Some c \<Rightarrow> run_typed ps c))"

lemma zero_typed [simp]: "sc_typed zero_context"
  by (simp add: zero_context_def NewSpanContext_def sc_typed_def NilTraceID_def NilSpanID_def)

lemma edit_contexts [simp]:
  "s_spanContext (apply_edit e s) = s_spanContext s" "s_parentSpanContext (apply_edit e s) = s_parentSpanContext s"
  by (cases e; auto simp: SetName_def SetStatus_def SetAttribute_def SetAttributes_def AddEventWithTime_def RecordError_def
      AddEvent_def split: option.splits)+

lemma typed_on_span:
  assumes "world_typed (w, hs)" and "a < length (w_spans w)" and "span_typed (f (span_at w a))"
  shows "world_typed (on_span a f w, hs)"
proof -
  have "list_all span_typed ((w_spans w)[a := f (span_at w a)])"
    using assms by (auto simp: world_typed_def list_all_iff dest!: set_update_subset_insert [THEN subsetD])
  then show ?thesis using assms(1) by (simp add: world_typed_def on_span_def)
qed

lemma typed_at: "world_typed (w, hs) \<Longrightarrow> a < length (w_spans w) \<Longrightarrow> span_typed (span_at w a)"
  by (auto simp: world_typed_def list_all_length)

lemma typed_release: "world_typed (w, hs) \<Longrightarrow> a < length (w_spans w) \<Longrightarrow> world_typed (releaseSpan keep a w, hs)"
proof -
  assume a: "world_typed (w, hs)" "a < length (w_spans w)"
  have "span_typed (clear_span (span_at w a))" by (simp add: clear_span_def span_typed_def)
  with typed_on_span [OF a, of clear_span] a(2) show ?thesis by (auto simp: releaseSpan_def Let_def world_typed_def)
qed

lemma typed_deliver: "snap_typed n \<Longrightarrow> exporter_typed e \<Longrightarrow> exporter_typed (deliver n e)"
  by (cases e) auto

lemma typed_export:
  assumes "world_typed (w, hs)" and "a < length (w_spans w)"
  shows "world_typed (export_one now keep x a w, hs)"
proof -
  have "snap_typed (snapshot now (span_at w a))" using typed_at [OF assms] by (simp add: snap_typed_def snapshot_def span_typed_def)
  then have "world_typed (w\<lparr>w_exporters := (w_exporters w)[x := deliver (snapshot now (span_at w a)) (w_exporters w ! x)]\<rparr>, hs)"
    using assms(1) typed_deliver
    by (cases "x < length (w_exporters w)")
       (auto simp: world_typed_def list_all_iff list_update_beyond dest!: set_update_subset_insert [THEN subsetD])
  then show ?thesis using assms(2) by (simp add: export_one_def typed_release)
qed

lemma typed_End:
  assumes "world_typed (w, hs)" and "a < length (w_spans w)"
  shows "world_typed (EndWithTime now keep t a w, hs)"
proof -
  let ?w = "on_span a (\<lambda>s. s\<lparr>s_ended := True, s_endTime := t\<rparr>) w"
  have "world_typed (?w, hs)" using typed_on_span [OF assms] typed_at [OF assms] by (simp add: span_typed_def)
  then show ?thesis using assms typed_release [of ?w hs a keep] typed_export [of ?w hs a]
    by (auto simp: EndWithTime_def processSpan_def Export_def Let_def split: option.splits)
qed

lemma new_trace_id_typed:
  "list_all (\<lambda>d. case d of None \<Rightarrow> True | Some b \<Rightarrow> length b = 16) ds \<Longrightarrow> NewTraceID ds = Some (t, r) \<Longrightarrow> length t = 16 \<and> TraceID_IsValid t"
  by (induction ds) (auto split: option.splits if_splits)

lemma new_span_id_typed:
  "list_all (\<lambda>d. case d of None \<Rightarrow> True | Some b \<Rightarrow> length b = 8) ds \<Longrightarrow> NewSpanID ds = Some (i, r) \<Longrightarrow> length i = 8 \<and> SpanID_IsValid i"
  by (induction ds) (auto split: option.splits if_splits)

lemma typed_Get:
  assumes "world_typed (w, hs)" and "storage_Get pick w = (a, w')"
  shows "world_typed (w', hs)" and "a < length (w_spans w')"
proof -
  have "world_typed (w', hs) \<and> a < length (w_spans w')"
  proof (cases "\<exists>i. pick = Some i \<and> i < length (w_pool w)")
    case True
    then obtain i where i: "pick = Some i" "i < length (w_pool w)" by blast
    then have "w_pool w ! i \<in> set (w_pool w)" by simp
    moreover have "set (take i (w_pool w) @ drop (Suc i) (w_pool w)) \<subseteq> set (w_pool w)"
      using set_take_subset set_drop_subset by fastforce
    ultimately show ?thesis using assms i by (auto simp: storage_Get_def world_typed_def list_all_iff simp del: set_append)
  next
    case False
    then have "storage_Get pick w = (length (w_spans w), w\<lparr>w_spans := w_spans w @ [new_span]\<rparr>)"
      by (auto simp: storage_Get_def split: option.splits)
    then show ?thesis using assms by (auto simp: world_typed_def list_all_iff new_span_def span_typed_def)
  qed
  then show "world_typed (w', hs)" and "a < length (w_spans w')" by simp_all
qed

lemma start_ids_typed:
  assumes "start_ids p ds es = Some (t, i)" and "sc_typed p"
    and "list_all (\<lambda>d. case d of None \<Rightarrow> True | Some b \<Rightarrow> length b = 16) ds" "list_all (\<lambda>d. case d of None \<Rightarrow> True | Some b \<Rightarrow> length b = 8) es"
  shows "length t = 16 \<and> TraceID_IsValid t" and "length i = 8 \<and> SpanID_IsValid i"
proof -
  obtain r where r: "NewSpanID es = Some (i, r)" "sc_IsValid p \<and> t = sc_traceID p \<or> (\<exists>q. NewTraceID ds = Some (t, q))"
    using assms(1) by (auto simp: start_ids_def split: option.splits if_splits)
  show "length i = 8 \<and> SpanID_IsValid i" using new_span_id_typed [OF assms(4) r(1)] .
  show "length t = 16 \<and> TraceID_IsValid t"
    using r(2) new_trace_id_typed [OF assms(3)] assms(2) by (auto simp: sc_typed_def sc_IsValid_def)
qed

lemma typed_start:
  assumes "world_typed (w, hs)" and "op_typed (OStart c) hs" and "cstep (OStart c) (w, hs) = Some d"
  shows "world_typed d"
proof -
  let ?ctx = "Some \<lparr>cx_span = map_option (\<lambda>i. hs ! i) (c_parent c), cx_remote = c_remote c\<rparr>"
  let ?p = "parent_context w ?ctx" and ?cfg = "start_config (c_now c) (c_opts c)"
  have hs: "hs ! i < length (w_spans w)" if "i < length hs" for i using assms(1) that by (auto simp: world_typed_def list_all_length)
  have p: "sc_typed ?p"
    using assms(2) typed_at [OF assms(1)] hs
    by (auto simp: parent_context_def SpanFromContext_def RemoteSpanContextFromContext_def span_typed_def split: option.splits)
  obtain t i where ids: "start_ids ?p (c_draws16 c) (c_draws8 c) = Some (t, i)"
    using assms(3) by (cases "start_ids ?p (c_draws16 c) (c_draws8 c)") (auto simp: Start_def Let_def)
  have ti: "length t = 16" "length i = 8"
    using start_ids_typed [OF ids p] assms(2) by simp_all
  obtain a w' where g: "storage_Get (c_pick c) w = (a, w')" by fastforce
  let ?fill = "fill_span (c_coarse c) (c_tracer c) (c_name c)
      (start_context (tr_sampler (w_tracers w ! c_tracer c)) ?p t i (c_name c) (st_Kind ?cfg)) ?p (st_Kind ?cfg) (st_StartTime ?cfg)"
  have f: "world_typed (on_span a ?fill w', hs)"
    using ti p by (intro typed_on_span typed_Get [OF assms(1) g]) (simp add: span_typed_def fill_span_def start_context_def NewSpanContext_def sc_typed_def)
  have f2: "world_typed (on_span a (SetAttributes as) (on_span a ?fill w'), hs)" for as
    using typed_at [OF f, of a] typed_Get [OF assms(1) g] by (intro typed_on_span [OF f]) (auto simp: span_typed_def SetAttributes_def)
  have "d = ((if length (st_Attributes ?cfg) > 0 then on_span a (SetAttributes (st_Attributes ?cfg)) (on_span a ?fill w') else on_span a ?fill w'), hs @ [a])"
    using assms(3) ids g by (simp add: Start_def acquireSpan_def Let_def)
  then show ?thesis using f f2 typed_Get(2) [OF assms(1) g] by (auto simp: world_typed_def)
qed

lemma typed_run: "world_typed c \<Longrightarrow> run_typed ps c \<Longrightarrow> crun ps c = Some d \<Longrightarrow> world_typed d"
proof (induction ps arbitrary: c)
  case (Cons p ps)
  obtain w hs where c: "c = (w, hs)" by fastforce
  obtain e where e: "cstep p c = Some e" using Cons.prems(3) by (cases "cstep p c") (auto simp del: cstep.simps)
  have hs: "hs ! i < length (w_spans w)" if "i < length hs" for i using Cons.prems(1) c that by (auto simp: world_typed_def list_all_length)
  have "world_typed e"
  proof (cases p)
    case (OStart cl)
    then show ?thesis using typed_start [of w hs cl e] Cons.prems(1,2) c e by (simp del: cstep.simps)
  next
    case (OEdit i x)
    then show ?thesis using typed_on_span [of w hs "hs ! i" "apply_edit x"] typed_at [of w hs "hs ! i"] Cons.prems(1,2) c e hs
      by (auto simp: span_typed_def)
  next
    case (OEnd i now keep t)
    then show ?thesis using typed_End [of w hs "hs ! i"] Cons.prems(1,2) c e hs by auto
  qed
  then show ?case using Cons.IH Cons.prems(2,3) e by (simp del: cstep.simps)
qed simp


section \<open>Using a span after its end\<close>

definition example_tracer :: Tracer where
  "example_tracer =
    \<lparr>tr_name = ''t'', tr_serviceName = ''t'', tr_sampler = AlwaysSampleSampler, tr_exporter = Some 0, tr_closed = False\<rparr>"

definition example_world :: world where
  "example_world = \<lparr>w_spans = [], w_pool = [], w_tracers = [example_tracer], w_exporters = [MemoryExporter []]\<rparr>"

definition example_start :: "nat option \<Rightarrow> nat option \<Rightarrow> bytes \<Rightarrow> start_call" where
  "example_start pick parent name =
    \<lparr>c_pick = pick, c_coarse = \<lparr>t_sec = 1, t_nsec = 0\<rparr>, c_now = \<lparr>t_sec = 2, t_nsec = 0\<rparr>, c_draws16 = [Some (replicate 16 CHR ''a'')],
     c_draws8 = [None, Some (replicate 8 CHR ''b'')], c_tracer = 0, c_parent = parent, c_remote = None, c_name = name, c_opts = []\<rparr>"

lemma example_ids:
  "TraceID_IsValid (replicate 16 CHR ''a'')" "SpanID_IsValid (replicate 8 CHR ''b'')" "\<not> sc_IsValid zero_context"
  "sc_IsValid \<lparr>sc_traceID = replicate 16 CHR ''a'', sc_spanID = replicate 8 CHR ''b'', sc_traceFlags = f, sc_traceState = x, sc_remote = r\<rparr>"
  by (simp_all add: TraceID_IsValid_def SpanID_IsValid_def NilTraceID_def NilSpanID_def replicate_eq_replicate byte_eval
      sc_IsValid_def zero_context_def NewSpanContext_def)

lemmas example_eval = example_world_def example_tracer_def example_start_def Start_def acquireSpan_def storage_Get_def start_config_def
  parent_context_def SpanFromContext_def RemoteSpanContextFromContext_def start_ids_def start_context_def on_span_def fill_span_def
  NewSpanContext_def Time_IsZero_def new_span_def EndWithTime_def processSpan_def Export_def export_one_def releaseSpan_def clear_span_def
  sc_IsSampled_def Flags_IsSampled_def SetAttributes_def Let_def

text \<open>An ended span goes back to the pool and may become another span; whoever still holds the old pointer then changes
  that one.\<close>

lemma stale_span_edits_another:
  "\<exists>w hs. crun [OStart (example_start None None ''first''), OEnd 0 \<lparr>t_sec = 3, t_nsec = 0\<rparr> True \<lparr>t_sec = 3, t_nsec = 0\<rparr>,
      OStart (example_start (Some 0) None ''second''), OEdit 0 (ESetStatus StatusError ''late'')] (example_world, []) = Some (w, hs) \<and>
    hs ! 1 = hs ! 0 \<and> s_name (span_at w (hs ! 1)) = ''second'' \<and> s_statusDesc (span_at w (hs ! 1)) = ''late''"
  by (simp add: example_eval example_ids SetStatus_def split del: if_split cong: option.case_cong)

section \<open>Properties\<close>

text \<open>C14: the span pool cannot be observed.  For every program that uses its spans only between their start and their end,
  and every behaviour of the pool, the exporters receive exactly what they would receive if
  every span were an object of its own: each ended sampled span once, in order, with the
  name, status, attributes and events that were set on it.\<close>
theorem pool_is_invisible:
  assumes "run_ok ps \<lparr>am_spans = [], am_tracers = ts, am_exporters = xs\<rparr>"
  shows "map_option (\<lambda>c. w_exporters (fst c)) (crun ps (\<lparr>w_spans = [], w_pool = [], w_tracers = ts, w_exporters = xs\<rparr>, [])) =
    map_option am_exporters (arun ps \<lparr>am_spans = [], am_tracers = ts, am_exporters = xs\<rparr>)"
proof -
  let ?c = "(\<lparr>w_spans = [], w_pool = [], w_tracers = ts, w_exporters = xs\<rparr>, [])" and ?m = "\<lparr>am_spans = [], am_tracers = ts, am_exporters = xs\<rparr>"
  have "refines ?c ?m" by (simp add: refines_def live_def)
  from refines_run [OF this assms] show ?thesis
    by (cases "crun ps ?c"; cases "arun ps ?m") (auto dest: refinesD(3))
qed

definition example_ops :: "op list" where
  "example_ops = [OStart (example_start None None ''a''), OStart (example_start None (Some 0) ''b''), OEdit 1 (ESetName ''c''),
     OEnd 1 \<lparr>t_sec = 9, t_nsec = 0\<rparr> True \<lparr>t_sec = 9, t_nsec = 0\<rparr>, OStart (example_start (Some 0) (Some 0) ''d'')]"

theorem pool_is_invisible_witness:
  "map_option (\<lambda>c. w_exporters (fst c)) (crun example_ops (example_world, [])) =
    map_option am_exporters (arun example_ops \<lparr>am_spans = [], am_tracers = [example_tracer], am_exporters = [MemoryExporter []]\<rparr>)"
proof -
  have "run_ok example_ops \<lparr>am_spans = [], am_tracers = [example_tracer], am_exporters = [MemoryExporter []]\<rparr>"
    by (simp add: example_ops_def live_def example_eval a_parent_def a_started_def example_ids exported_to_def SetName_def
        split: option.split)
  from pool_is_invisible [OF this] show ?thesis by (simp add: example_world_def)
qed



end
