(* ===== verification/OT_Export.thy ===== *)
theory OT_Export
  imports OT_Trace Go_Strconv
begin

text \<open>
  Package \<^verbatim>\<open>otel\<close>, file \<^verbatim>\<open>src/otel/exporter.go\<close> and the life cycle of a tracer: the memory exporter, the OTLP exporter with
  its queue and worker, and the JSON text it posts.  \<^verbatim>\<open>strconv.Quote\<close> is written out for ASCII text; on
  other text it is the parameter \<open>Q\<close>.
\<close>

section \<open>Tracers\<close>

type_synonym TracerOption = "Tracer \<Rightarrow> Tracer"

definition WithTracerServiceName :: "bytes \<Rightarrow> TracerOption" where
  "WithTracerServiceName name t = t\<lparr>tr_serviceName := name\<rparr>"

definition WithSampler :: "sampler option \<Rightarrow> TracerOption" where
  "WithSampler smp t = (case smp of None \<Rightarrow> t | Some s \<Rightarrow> t\<lparr>tr_sampler := s\<rparr>)"

definition WithExporter :: "nat option \<Rightarrow> TracerOption" where
  "WithExporter x t = t\<lparr>tr_exporter := x\<rparr>"

definition NewTracer :: "bytes \<Rightarrow> TracerOption list \<Rightarrow> Tracer" where
  "NewTracer name opts =
    fold (\<lambda>f t. f t) opts
      \<lparr>tr_name = name, tr_serviceName = name, tr_sampler = AlwaysSampleSampler, tr_exporter = None, tr_closed = False\<rparr>"

section \<open>Exporters\<close>

definition NewMemoryExporter :: exporter where
  "NewMemoryExporter = MemoryExporter []"

fun Spans :: "exporter \<Rightarrow> SpanSnapshot list" where
  "Spans (MemoryExporter spans) = spans"
| "Spans (OTLPHTTPExporter e) = []"

fun Reset :: "exporter \<Rightarrow> exporter" where
  "Reset (MemoryExporter spans) = MemoryExporter []"
| "Reset (OTLPHTTPExporter e) = OTLPHTTPExporter e"

definition WithBatchSize :: "int \<Rightarrow> otlp \<Rightarrow> otlp" where
  "WithBatchSize n e = (if n > 0 then e\<lparr>ox_batchSize := n\<rparr> else e)"

definition otlp_endpoint :: "bytes \<Rightarrow> bytes" where
  "otlp_endpoint endpoint =
    (let endpoint = (if endpoint = [] then ''http://localhost:4318'' else endpoint);
         endpoint = (if length endpoint > 0 \<and> endpoint ! (length endpoint - 1) = CHR ''/''
                     then take (length endpoint - 1) endpoint else endpoint)
     in if length endpoint < 10 \<or> drop (length endpoint - 10) endpoint \<noteq> ''/v1/traces''
        then endpoint @ ''/v1/traces'' else endpoint)"

definition NewOTLPHTTPExporter :: "bytes \<Rightarrow> (otlp \<Rightarrow> otlp) list \<Rightarrow> otlp" where
  "NewOTLPHTTPExporter endpoint opts =
    fold (\<lambda>f e. f e) opts
      \<lparr>ox_endpoint = otlp_endpoint endpoint, ox_queue = [], ox_done = False, ox_batchSize = 128, ox_batch = [], ox_sent = [],
       ox_stopped = False\<rparr>"

definition NewExporter :: "bytes \<Rightarrow> (otlp \<Rightarrow> otlp) list \<Rightarrow> otlp" where
  "NewExporter endpoint opts = NewOTLPHTTPExporter endpoint opts"

definition NewHTTPExporter :: "bytes \<Rightarrow> (otlp \<Rightarrow> otlp) list \<Rightarrow> otlp" where
  "NewHTTPExporter endpoint opts = NewOTLPHTTPExporter endpoint opts"

text \<open>\<^verbatim>\<open>Shutdown\<close> signals the worker; that it waits for the worker to return is a step of \<open>exporter_step\<close> below.\<close>

fun Shutdown_exporter :: "exporter \<Rightarrow> exporter" where
  "Shutdown_exporter (MemoryExporter spans) = Reset (MemoryExporter spans)"
| "Shutdown_exporter (OTLPHTTPExporter e) = OTLPHTTPExporter (if ox_done e then e else e\<lparr>ox_done := True\<rparr>)"

definition Shutdown_tracer :: "nat \<Rightarrow> world \<Rightarrow> world" where
  "Shutdown_tracer t w =
    (let w = w\<lparr>w_tracers := (w_tracers w)[t := (w_tracers w ! t)\<lparr>tr_closed := True\<rparr>]\<rparr>
     in case tr_exporter (w_tracers w ! t) of
          None \<Rightarrow> w
        | Some x \<Rightarrow> w\<lparr>w_exporters := (w_exporters w)[x := Shutdown_exporter (w_exporters w ! x)]\<rparr>)"

section \<open>The worker of the OTLP exporter\<close>

definition flush :: "otlp \<Rightarrow> otlp" where
  "flush e = (if ox_batch e = [] then e else e\<lparr>ox_sent := ox_sent e @ [ox_batch e], ox_batch := []\<rparr>)"

definition take_one :: "SpanSnapshot \<Rightarrow> otlp \<Rightarrow> otlp" where
  "take_one snap e =
    (let e = e\<lparr>ox_batch := ox_batch e @ [snap]\<rparr> in if int (length (ox_batch e)) \<ge> ox_batchSize e then flush e else e)"

definition drain :: "otlp \<Rightarrow> otlp" where
  "drain e = (flush (fold take_one (ox_queue e) (e\<lparr>ox_queue := []\<rparr>)))\<lparr>ox_stopped := True\<rparr>"

text \<open>The worker's loop and the calls of other goroutines; the list of the snapshots taken into the queue is a history that
  the code does not have.\<close>

inductive exporter_step :: "otlp \<times> SpanSnapshot list \<Rightarrow> otlp \<times> SpanSnapshot list \<Rightarrow> bool" where
  step_receive: "\<not> ox_stopped e \<Longrightarrow> ox_queue e = snap # q \<Longrightarrow> exporter_step (e, h) (take_one snap (e\<lparr>ox_queue := q\<rparr>), h)"
| step_tick: "\<not> ox_stopped e \<Longrightarrow> exporter_step (e, h) (flush e, h)"
| step_done: "\<not> ox_stopped e \<Longrightarrow> ox_done e \<Longrightarrow> exporter_step (e, h) (drain e, h)"
| step_export: "length (ox_queue e) < 2048 \<Longrightarrow> exporter_step (e, h) (e\<lparr>ox_queue := ox_queue e @ [snap]\<rparr>, h @ [snap])"
| step_drop: "length (ox_queue e) \<ge> 2048 \<Longrightarrow> exporter_step (e, h) (e, h)"
| step_shutdown: "exporter_step (e, h) (e\<lparr>ox_done := True\<rparr>, h)"

section \<open>JSON\<close>

definition writeJSONString :: "(bytes \<Rightarrow> bytes) \<Rightarrow> bytes \<Rightarrow> bytes" where
  "writeJSONString Q s = Quote Q s"

definition lit :: "bytes \<Rightarrow> bytes" where
  "lit s = [CHR 0x22] @ s @ [CHR 0x22]"

fun otlp_value :: "(bytes \<Rightarrow> bytes) \<Rightarrow> attr_value \<Rightarrow> bytes" where
  "otlp_value Q (AString v) = lit ''stringValue'' @ '':'' @ writeJSONString Q v"
| "otlp_value Q (AInt v) = lit ''intValue'' @ '':'' @ lit (Itoa v)"
| "otlp_value Q (AInt32 v) = lit ''intValue'' @ '':'' @ lit (FormatInt v)"
| "otlp_value Q (AInt64 v) = lit ''intValue'' @ '':'' @ lit (FormatInt v)"
| "otlp_value Q (AUint v) = lit ''intValue'' @ '':'' @ lit (format_nat v)"
| "otlp_value Q (AUint32 v) = lit ''intValue'' @ '':'' @ lit (format_nat v)"
| "otlp_value Q (AUint64 v) = lit ''intValue'' @ '':'' @ lit (format_nat v)"
| "otlp_value Q (AFloat64 v) = lit ''doubleValue'' @ '':'' @ v"
| "otlp_value Q (AFloat32 v) = lit ''doubleValue'' @ '':'' @ v"
| "otlp_value Q (ABool v) = (if v then lit ''boolValue'' @ '':true'' else lit ''boolValue'' @ '':false'')"
| "otlp_value Q (AError v) = lit ''stringValue'' @ '':'' @ writeJSONString Q v"
| "otlp_value Q (ABytes v) = lit ''stringValue'' @ '':'' @ writeJSONString Q v"
| "otlp_value Q (AStringer v) = lit ''stringValue'' @ '':'' @ writeJSONString Q v"
| "otlp_value Q AOther = lit ''stringValue'' @ '':'' @ writeJSONString Q ''<value>''"

definition writeOTLPAttribute :: "(bytes \<Rightarrow> bytes) \<Rightarrow> Attribute \<Rightarrow> bytes" where
  "writeOTLPAttribute Q a =
    ''{'' @ lit ''key'' @ '':'' @ writeJSONString Q (a_Key a) @ '','' @ lit ''value'' @ '':{'' @ otlp_value Q (a_Value a) @ ''}}''"

definition attributes_text :: "(bytes \<Rightarrow> bytes) \<Rightarrow> Attribute list \<Rightarrow> bytes" where
  "attributes_text Q as =
    (if length as > 0 then '','' @ lit ''attributes'' @ '':['' @ Join '','' (map (writeOTLPAttribute Q) as) @ '']'' else [])"

definition event_text :: "(bytes \<Rightarrow> bytes) \<Rightarrow> Event \<Rightarrow> bytes" where
  "event_text Q ev =
    ''{'' @ lit ''timeUnixNano'' @ '':'' @ lit (FormatInt (UnixNano (ev_Timestamp ev))) @ '','' @ lit ''name'' @ '':'' @
    writeJSONString Q (ev_Name ev) @ attributes_text Q (ev_Attributes ev) @ ''}''"

fun kind_number :: "SpanKind \<Rightarrow> int" where
  "kind_number SpanKindUnspecified = 0"
| "kind_number SpanKindInternal = 1"
| "kind_number SpanKindServer = 2"
| "kind_number SpanKindClient = 3"
| "kind_number SpanKindProducer = 4"
| "kind_number SpanKindConsumer = 5"

fun status_number :: "StatusCode \<Rightarrow> int" where
  "status_number StatusUnset = 0"
| "status_number StatusOk = 1"
| "status_number StatusError = 2"

definition span_text :: "hexkit \<Rightarrow> (bytes \<Rightarrow> bytes) \<Rightarrow> SpanSnapshot \<Rightarrow> bytes" where
  "span_text H Q s =
    ''{'' @ lit ''traceId'' @ '':'' @ lit (TraceID_String H (sc_traceID (sn_SpanContext s))) @
    '','' @ lit ''spanId'' @ '':'' @ lit (SpanID_String H (sc_spanID (sn_SpanContext s))) @
    (if sc_IsValid (sn_ParentSpanContext s)
     then '','' @ lit ''parentSpanId'' @ '':'' @ lit (SpanID_String H (sc_spanID (sn_ParentSpanContext s))) else []) @
    '','' @ lit ''name'' @ '':'' @ writeJSONString Q (sn_Name s) @
    '','' @ lit ''kind'' @ '':'' @ Itoa (kind_number (sn_Kind s)) @
    '','' @ lit ''startTimeUnixNano'' @ '':'' @ lit (FormatInt (UnixNano (sn_StartTime s))) @
    '','' @ lit ''endTimeUnixNano'' @ '':'' @ lit (FormatInt (UnixNano (sn_EndTime s))) @
    '','' @ lit ''status'' @ '':{'' @ lit ''code'' @ '':'' @ Itoa (status_number (sn_Status s)) @
    (if sn_StatusDescription s \<noteq> [] then '','' @ lit ''message'' @ '':'' @ writeJSONString Q (sn_StatusDescription s) else []) @ ''}'' @
    attributes_text Q (sn_Attributes s) @
    (if length (sn_Events s) > 0 then '','' @ lit ''events'' @ '':['' @ Join '','' (map (event_text Q) (sn_Events s)) @ '']'' else []) @ ''}''"

fun spans_text :: "hexkit \<Rightarrow> (bytes \<Rightarrow> bytes) \<Rightarrow> nat \<Rightarrow> SpanSnapshot option list \<Rightarrow> bytes" where
  "spans_text H Q i [] = []"
| "spans_text H Q i (s # batch) =
    (case s of
       None \<Rightarrow> spans_text H Q (i + 1) batch
     | Some s \<Rightarrow> (if i > 0 then '','' else []) @ span_text H Q s @ spans_text H Q (i + 1) batch)"

definition buildOTLPJSON :: "hexkit \<Rightarrow> (bytes \<Rightarrow> bytes) \<Rightarrow> SpanSnapshot option list \<Rightarrow> bytes" where
  "buildOTLPJSON H Q batch =
    ''{'' @ lit ''resourceSpans'' @ '':[{'' @ lit ''scopeSpans'' @ '':[{'' @ lit ''scope'' @ '':{'' @ lit ''name'' @ '':'' @
    lit ''github.com/lemon4ksan/aoni-contrib/otel'' @ '','' @ lit ''version'' @ '':'' @ lit ''1.0.0'' @ ''},'' @ lit ''spans'' @ '':['' @
    spans_text H Q 0 batch @ '']}]}]}''"

text \<open>What \<^verbatim>\<open>sendBatch\<close> posts; the answer is not looked at.\<close>

definition sendBatch :: "hexkit \<Rightarrow> (bytes \<Rightarrow> bytes) \<Rightarrow> otlp \<Rightarrow> SpanSnapshot list \<Rightarrow> (bytes \<times> bytes) list" where
  "sendBatch H Q e batch = (if batch = [] then [] else [(ox_endpoint e, buildOTLPJSON H Q (map Some batch))])"

section \<open>Nothing taken into the queue is lost\<close>

definition batch_ok :: "otlp \<Rightarrow> bool" where
  "batch_ok e \<longleftrightarrow> ox_batchSize e > 0 \<and> int (length (ox_batch e)) < ox_batchSize e \<and>
    list_all (\<lambda>b. b \<noteq> [] \<and> int (length b) \<le> ox_batchSize e) (ox_sent e)"

lemma flush_facts:
  "batch_ok e \<Longrightarrow> batch_ok (flush e)" "concat (ox_sent (flush e)) @ ox_batch (flush e) = concat (ox_sent e) @ ox_batch e"
  "ox_queue (flush e) = ox_queue e" "ox_stopped (flush e) = ox_stopped e" "ox_done (flush e) = ox_done e" "ox_batch (flush e) = []"
  by (auto simp: flush_def batch_ok_def)

lemma take_one_facts:
  "batch_ok e \<Longrightarrow> batch_ok (take_one snap e)" "concat (ox_sent (take_one snap e)) @ ox_batch (take_one snap e) = concat (ox_sent e) @ ox_batch e @ [snap]"
  "ox_queue (take_one snap e) = ox_queue e" "ox_stopped (take_one snap e) = ox_stopped e" "ox_done (take_one snap e) = ox_done e"
  by (auto simp: take_one_def flush_def batch_ok_def Let_def)

lemma take_many:
  "batch_ok e \<Longrightarrow> batch_ok (fold take_one q e)"
  "concat (ox_sent (fold take_one q e)) @ ox_batch (fold take_one q e) = concat (ox_sent e) @ ox_batch e @ q"
  "ox_queue (fold take_one q e) = ox_queue e"
  by (induction q arbitrary: e) (simp_all add: take_one_facts)

definition exporter_inv :: "otlp \<times> SpanSnapshot list \<Rightarrow> bool" where
  "exporter_inv c \<longleftrightarrow> (case c of (e, h) \<Rightarrow>
    batch_ok e \<and> length (ox_queue e) \<le> 2048 \<and> h = concat (ox_sent e) @ ox_batch e @ ox_queue e \<and>
    (ox_stopped e \<longrightarrow> ox_done e \<and> ox_batch e = []))"

lemma batch_ok_queue [simp]: "batch_ok (e\<lparr>ox_queue := q\<rparr>) = batch_ok e" "batch_ok (e\<lparr>ox_done := d\<rparr>) = batch_ok e"
  "batch_ok (e\<lparr>ox_stopped := d\<rparr>) = batch_ok e"
  by (simp_all add: batch_ok_def)

lemma drain_facts:
  assumes "batch_ok e"
  shows "batch_ok (drain e)" "concat (ox_sent (drain e)) = concat (ox_sent e) @ ox_batch e @ ox_queue e" "ox_batch (drain e) = []"
    "ox_queue (drain e) = []" "ox_done (drain e) = ox_done e"
proof -
  let ?e = "fold take_one (ox_queue e) (e\<lparr>ox_queue := []\<rparr>)"
  have "ox_done (fold take_one q e') = ox_done e'" for q e' by (induction q arbitrary: e') (simp_all add: take_one_facts)
  then show "ox_done (drain e) = ox_done e" by (simp add: drain_def flush_facts)
  show "batch_ok (drain e)" "ox_batch (drain e) = []" "ox_queue (drain e) = []"
    using assms take_many(1) [of "e\<lparr>ox_queue := []\<rparr>"] take_many(3) [of "ox_queue e"] by (simp_all add: drain_def flush_facts)
  show "concat (ox_sent (drain e)) = concat (ox_sent e) @ ox_batch e @ ox_queue e"
    using flush_facts(2) [of ?e] flush_facts(6) [of ?e] take_many(2) [of "ox_queue e" "e\<lparr>ox_queue := []\<rparr>"] by (simp add: drain_def)
qed

definition exporter_init :: "otlp \<times> SpanSnapshot list \<Rightarrow> bool" where
  "exporter_init c \<longleftrightarrow> (\<exists>endpoint n. c = (NewOTLPHTTPExporter endpoint [WithBatchSize n], []))"

interpretation otlp_inv: invariant_system exporter_init exporter_step exporter_inv
proof
  fix c assume "exporter_init c"
  then show "exporter_inv c"
    by (auto simp: exporter_init_def exporter_inv_def NewOTLPHTTPExporter_def WithBatchSize_def batch_ok_def split: if_splits)
next
  fix c d assume c: "exporter_inv c" and "exporter_step c d"
  from this(2) show "exporter_inv d"
  proof cases
    case (step_receive e snap q h)
    then show ?thesis using c take_one_facts(1) [of "e\<lparr>ox_queue := q\<rparr>" snap] take_one_facts(2-5) [of snap "e\<lparr>ox_queue := q\<rparr>"]
      by (auto simp: exporter_inv_def)
  next
    case (step_tick e h)
    then show ?thesis using c flush_facts [of e] by (auto simp: exporter_inv_def)
  next
    case (step_done e h)
    then show ?thesis using c drain_facts [of e] by (auto simp: exporter_inv_def)
  qed (use c in \<open>auto simp: exporter_inv_def\<close>)
qed


section \<open>JSON texts\<close>

text \<open>The grammar of JSON without white space.  The body of a string is a sequence of plain characters and escapes.\<close>

inductive json_chars :: "bytes \<Rightarrow> bool" where
  chars_Nil: "json_chars []"
| chars_plain: "32 \<le> byte_val c \<Longrightarrow> c \<noteq> CHR 0x22 \<Longrightarrow> c \<noteq> CHR 0x5C \<Longrightarrow> json_chars s \<Longrightarrow> json_chars (c # s)"
| chars_escape: "c \<in> set ([CHR 0x22, CHR 0x5C] @ ''/bfnrt'') \<Longrightarrow> json_chars s \<Longrightarrow> json_chars (CHR 0x5C # c # s)"

definition json_digits :: "bytes \<Rightarrow> bool" where
  "json_digits s \<longleftrightarrow> s \<noteq> [] \<and> list_all is_digit s"

definition json_whole :: "bytes \<Rightarrow> bool" where
  "json_whole s \<longleftrightarrow> json_digits s \<and> (hd s = CHR ''0'' \<longrightarrow> length s = 1)"

definition json_number :: "bytes \<Rightarrow> bool" where
  "json_number s \<longleftrightarrow> (\<exists>sign w f. s = sign @ w @ f \<and> (sign = [] \<or> sign = ''-'') \<and> json_whole w \<and>
    (f = [] \<or> (\<exists>d. f = ''.'' @ d \<and> json_digits d)))"

inductive json :: "bytes \<Rightarrow> bool" where
  json_string: "json_chars s \<Longrightarrow> json (lit s)"
| json_num: "json_number s \<Longrightarrow> json s"
| json_bool: "s = ''true'' \<or> s = ''false'' \<Longrightarrow> json s"
| json_array: "\<forall>v \<in> set vs. json v \<Longrightarrow> json (''['' @ Join '','' vs @ '']'')"
| json_object: "\<forall>m \<in> set ms. json_chars (fst m) \<and> json (snd m) \<Longrightarrow>
    json (''{'' @ Join '','' (map (\<lambda>m. lit (fst m) @ '':'' @ snd m) ms) @ ''}'')"

lemma json_chars_append: "json_chars s \<Longrightarrow> json_chars t \<Longrightarrow> json_chars (s @ t)"
  by (induction rule: json_chars.induct) (auto intro: json_chars.intros)

text \<open>Text that \<^verbatim>\<open>strconv.Quote\<close> turns into JSON: ASCII without the control characters JSON has no short escape for.\<close>

definition quotable :: "char \<Rightarrow> bool" where
  "quotable c \<longleftrightarrow> 32 \<le> byte_val c \<and> byte_val c < 127 \<or> byte_val c \<in> {8, 9, 10, 12, 13}"

lemma quote_char_json: "quotable c \<Longrightarrow> json_chars (quote_char c)"
  by (auto simp: quotable_def quote_char_def intro!: json_chars.intros)

lemma writeJSONString_json:
  assumes "list_all quotable s"
  shows "\<exists>b. writeJSONString Q s = lit b \<and> json_chars b"
proof -
  have "list_all is_ascii s" using assms by (auto simp: list_all_iff quotable_def is_ascii_def)
  moreover have "json_chars (concat (map quote_char s))"
    using assms by (induction s) (auto intro: json_chars.intros json_chars_append quote_char_json)
  ultimately show ?thesis by (auto simp: writeJSONString_def Quote_def lit_def)
qed

lemma json_writeJSONString: "list_all quotable s \<Longrightarrow> json (writeJSONString Q s)"
  using writeJSONString_json [of s Q] json_string by auto

text \<open>A list of members, written as the code writes them, one after the other.\<close>

definition members :: "(bytes \<times> bytes) list \<Rightarrow> bytes" where
  "members ms = Join '','' (map (\<lambda>m. lit (fst m) @ '':'' @ snd m) ms)"

lemma members_Cons: "members (m # ms) = lit (fst m) @ '':'' @ snd m @ (if ms = [] then [] else '','' @ members ms)"
  by (cases ms) (simp_all add: members_def)

lemma members_Nil: "members [] = []"
  by (simp add: members_def)

lemma json_members: "\<forall>m \<in> set ms. json_chars (fst m) \<and> json (snd m) \<Longrightarrow> json (''{'' @ members ms @ ''}'')"
  unfolding members_def by (rule json_object)

lemma json_plain: "list_all (\<lambda>c. 32 \<le> byte_val c \<and> c \<noteq> CHR 0x22 \<and> c \<noteq> CHR 0x5C) s \<Longrightarrow> json_chars s"
  by (induction s) (auto intro: json_chars.intros)

lemma digit_plain: "is_digit c \<Longrightarrow> 32 \<le> byte_val c \<and> c \<noteq> CHR 0x22 \<and> c \<noteq> CHR 0x5C"
  by (auto simp: is_digit_def byte_eval)

lemma hex_plain: "hexchar c \<Longrightarrow> 32 \<le> byte_val c \<and> c \<noteq> CHR 0x22 \<and> c \<noteq> CHR 0x5C"
  by (auto simp: hexchar_def is_digit_def byte_eval)

lemma format_nat_plain: "json_chars (format_nat n)"
  using format_nat_digits [of n] digit_plain by (intro json_plain) (auto simp: list_all_iff)

lemma FormatInt_chars: "json_chars (FormatInt i)"
  using format_nat_plain chars_plain [of "CHR ''-''"] by (simp add: FormatInt_def byte_eval)

lemma format_nat_lead: "n > 0 \<Longrightarrow> hd (format_nat n) \<noteq> CHR ''0''"
proof (induction n rule: format_nat.induct)
  case (1 n)
  show ?case
  proof (cases "n < 10")
    case True
    have "byte_val (digit_char n) = 48 + n" using True by (simp add: digit_char_def)
    then have "digit_char n \<noteq> CHR ''0''" using 1(2) by (auto simp: byte_eval)
    then show ?thesis using True by (simp add: format_nat.simps [of n])
  next
    case False
    then show ?thesis using 1 by (simp add: format_nat.simps [of n])
  qed
qed

lemma json_nat: "json (format_nat n)"
proof -
  have "hd (format_nat n) = CHR ''0'' \<longrightarrow> length (format_nat n) = 1"
    using format_nat_lead [of n] by (cases "n = 0") (auto simp: format_nat.simps [of 0])
  then have "json_whole (format_nat n)" using format_nat_digits [of n] by (auto simp: json_whole_def json_digits_def list_all_iff)
  then have "json_number (format_nat n)" unfolding json_number_def
    by (intro exI [of _ "[]"] exI [of _ "format_nat n"]) simp
  then show ?thesis by (rule json_num)
qed


fun value_quotable :: "attr_value \<Rightarrow> bool" where
  "value_quotable (AString v) = list_all quotable v"
| "value_quotable (AError v) = list_all quotable v"
| "value_quotable (ABytes v) = list_all quotable v"
| "value_quotable (AStringer v) = list_all quotable v"
| "value_quotable (AFloat64 v) = json_number v"
| "value_quotable (AFloat32 v) = json_number v"
| "value_quotable v = True"

definition attrs_quotable :: "Attribute list \<Rightarrow> bool" where
  "attrs_quotable as \<longleftrightarrow> list_all (\<lambda>a. list_all quotable (a_Key a) \<and> value_quotable (a_Value a)) as"

definition snapshot_quotable :: "SpanSnapshot \<Rightarrow> bool" where
  "snapshot_quotable s \<longleftrightarrow> list_all quotable (sn_Name s) \<and> list_all quotable (sn_StatusDescription s) \<and>
    attrs_quotable (sn_Attributes s) \<and> list_all (\<lambda>ev. list_all quotable (ev_Name ev) \<and> attrs_quotable (ev_Attributes ev)) (sn_Events s)"

lemma literal_chars:
  "json_chars ''stringValue''" "json_chars ''intValue''" "json_chars ''doubleValue''" "json_chars ''boolValue''" "json_chars ''key''"
  "json_chars ''value''" "json_chars ''traceId''" "json_chars ''spanId''" "json_chars ''parentSpanId''" "json_chars ''name''"
  "json_chars ''kind''" "json_chars ''startTimeUnixNano''" "json_chars ''endTimeUnixNano''" "json_chars ''status''" "json_chars ''code''"
  "json_chars ''message''" "json_chars ''attributes''" "json_chars ''events''" "json_chars ''timeUnixNano''" "json_chars ''resourceSpans''"
  "json_chars ''scopeSpans''" "json_chars ''scope''" "json_chars ''version''" "json_chars ''spans''" "json_chars ''1.0.0''"
  "json_chars ''github.com/lemon4ksan/aoni-contrib/otel''"
  by (rule json_plain, simp add: byte_eval)+

fun value_member :: "(bytes \<Rightarrow> bytes) \<Rightarrow> attr_value \<Rightarrow> bytes \<times> bytes" where
  "value_member Q (AString v) = (''stringValue'', writeJSONString Q v)"
| "value_member Q (AInt v) = (''intValue'', lit (Itoa v))"
| "value_member Q (AInt32 v) = (''intValue'', lit (FormatInt v))"
| "value_member Q (AInt64 v) = (''intValue'', lit (FormatInt v))"
| "value_member Q (AUint v) = (''intValue'', lit (format_nat v))"
| "value_member Q (AUint32 v) = (''intValue'', lit (format_nat v))"
| "value_member Q (AUint64 v) = (''intValue'', lit (format_nat v))"
| "value_member Q (AFloat64 v) = (''doubleValue'', v)"
| "value_member Q (AFloat32 v) = (''doubleValue'', v)"
| "value_member Q (ABool v) = (''boolValue'', if v then ''true'' else ''false'')"
| "value_member Q (AError v) = (''stringValue'', writeJSONString Q v)"
| "value_member Q (ABytes v) = (''stringValue'', writeJSONString Q v)"
| "value_member Q (AStringer v) = (''stringValue'', writeJSONString Q v)"
| "value_member Q AOther = (''stringValue'', writeJSONString Q ''<value>'')"

lemma otlp_value_member: "otlp_value Q v = members [value_member Q v]"
  by (cases v) (simp_all add: members_Cons members_Nil)

lemma json_value_member: "value_quotable v \<Longrightarrow> json_chars (fst (value_member Q v)) \<and> json (snd (value_member Q v))"
proof -
  have "list_all quotable ''<value>''" by (simp add: quotable_def byte_eval)
  then have "json (writeJSONString Q ''<value>'')" by (rule json_writeJSONString)
  then show "value_quotable v \<Longrightarrow> json_chars (fst (value_member Q v)) \<and> json (snd (value_member Q v))"
    using literal_chars(1-4)
    by (cases v) (simp_all add: json_writeJSONString json_string FormatInt_chars format_nat_plain json_num json_bool Itoa_def)
qed

lemma json_otlp_value: "value_quotable v \<Longrightarrow> json (''{'' @ otlp_value Q v @ ''}'')"
  unfolding otlp_value_member using json_value_member [of v Q] by (intro json_members) simp

lemma json_attribute:
  "list_all quotable (a_Key a) \<Longrightarrow> value_quotable (a_Value a) \<Longrightarrow> json (writeOTLPAttribute Q a)"
  using json_members [of "[(''key'', writeJSONString Q (a_Key a)), (''value'', ''{'' @ otlp_value Q (a_Value a) @ ''}'')]"]
    json_otlp_value [of "a_Value a" Q] json_writeJSONString [of "a_Key a" Q] literal_chars(5,6)
  by (simp add: writeOTLPAttribute_def members_Cons members_Nil)

definition attributes_member :: "(bytes \<Rightarrow> bytes) \<Rightarrow> Attribute list \<Rightarrow> (bytes \<times> bytes) list" where
  "attributes_member Q as =
    (if length as > 0 then [(''attributes'', ''['' @ Join '','' (map (writeOTLPAttribute Q) as) @ '']'')] else [])"

lemma attributes_text_member: "attributes_text Q as = concat (map (\<lambda>m. '','' @ lit (fst m) @ '':'' @ snd m) (attributes_member Q as))"
  by (simp add: attributes_text_def attributes_member_def)

lemma json_attributes: "attrs_quotable as \<Longrightarrow> m \<in> set (attributes_member Q as) \<Longrightarrow> json_chars (fst m) \<and> json (snd m)"
  using json_attribute literal_chars(17) json_array [of "map (writeOTLPAttribute Q) as"]
  by (auto simp: attributes_member_def attrs_quotable_def list_all_iff split: if_splits)

lemma members_tail: "ms \<noteq> [] \<Longrightarrow> members ms @ concat (map (\<lambda>m. '','' @ lit (fst m) @ '':'' @ snd m) ns) = members (ms @ ns)"
proof (induction ms)
  case (Cons m ms)
  show ?case
  proof (cases "ms = []")
    case True
    have "concat (map (\<lambda>m. '','' @ lit (fst m) @ '':'' @ snd m) ns) = (if ns = [] then [] else '','' @ members ns)"
      by (induction ns) (simp_all add: members_Cons)
    then show ?thesis using True by (simp add: members_Cons members_Nil)
  next
    case False
    then show ?thesis using Cons by (simp add: members_Cons)
  qed
qed simp

lemma json_event:
  assumes "list_all quotable (ev_Name ev)" and "attrs_quotable (ev_Attributes ev)"
  shows "json (event_text Q ev)"
proof -
  let ?ms = "[(''timeUnixNano'', lit (FormatInt (UnixNano (ev_Timestamp ev)))), (''name'', writeJSONString Q (ev_Name ev))]"
  have "event_text Q ev = ''{'' @ members (?ms @ attributes_member Q (ev_Attributes ev)) @ ''}''"
    using members_tail [of ?ms "attributes_member Q (ev_Attributes ev)"]
    by (simp add: event_text_def attributes_text_member members_Cons members_Nil)
  moreover have "\<forall>m \<in> set (?ms @ attributes_member Q (ev_Attributes ev)). json_chars (fst m) \<and> json (snd m)"
    using assms json_attributes literal_chars(10,19) by (auto intro: json_string FormatInt_chars json_writeJSONString)
  ultimately show ?thesis using json_members by simp
qed


definition status_members :: "(bytes \<Rightarrow> bytes) \<Rightarrow> SpanSnapshot \<Rightarrow> (bytes \<times> bytes) list" where
  "status_members Q s = (''code'', Itoa (status_number (sn_Status s))) #
    (if sn_StatusDescription s \<noteq> [] then [(''message'', writeJSONString Q (sn_StatusDescription s))] else [])"

definition span_members :: "hexkit \<Rightarrow> (bytes \<Rightarrow> bytes) \<Rightarrow> SpanSnapshot \<Rightarrow> (bytes \<times> bytes) list" where
  "span_members H Q s =
    [(''traceId'', lit (TraceID_String H (sc_traceID (sn_SpanContext s)))), (''spanId'', lit (SpanID_String H (sc_spanID (sn_SpanContext s))))] @
    (if sc_IsValid (sn_ParentSpanContext s) then [(''parentSpanId'', lit (SpanID_String H (sc_spanID (sn_ParentSpanContext s))))] else []) @
    [(''name'', writeJSONString Q (sn_Name s)), (''kind'', Itoa (kind_number (sn_Kind s))),
     (''startTimeUnixNano'', lit (FormatInt (UnixNano (sn_StartTime s)))), (''endTimeUnixNano'', lit (FormatInt (UnixNano (sn_EndTime s)))),
     (''status'', ''{'' @ members (status_members Q s) @ ''}'')] @
    attributes_member Q (sn_Attributes s) @
    (if length (sn_Events s) > 0 then [(''events'', ''['' @ Join '','' (map (event_text Q) (sn_Events s)) @ '']'')] else [])"

abbreviation more_members :: "(bytes \<times> bytes) list \<Rightarrow> bytes" where
  "more_members ms \<equiv> concat (map (\<lambda>m. '','' @ lit (fst m) @ '':'' @ snd m) ms)"

lemma members_hd: "members (m # ms) = lit (fst m) @ '':'' @ snd m @ more_members ms"
  using members_tail [of "[m]" ms] by (simp add: members_Cons members_Nil)

lemma span_text_members: "span_text H Q s = ''{'' @ members (span_members H Q s) @ ''}''"
  by (simp add: span_text_def span_members_def members_hd attributes_text_member status_members_def)

lemma json_hex:
  assumes "hex_laws H" and "sc_typed sc"
  shows "json (lit (TraceID_String H (sc_traceID sc)))" "json (lit (SpanID_String H (sc_spanID sc)))"
proof -
  have "json_chars (hk_Encode16 H (sc_traceID sc))" "json_chars (hk_Encode8 H (sc_spanID sc))"
    using hex_lawsD(1) [OF assms(1), of "sc_traceID sc"] hex_lawsD(2) [OF assms(1), of "sc_spanID sc"] assms(2) hex_plain
    by (auto simp: sc_typed_def list_all_iff intro!: json_plain)
  then show "json (lit (TraceID_String H (sc_traceID sc)))" "json (lit (SpanID_String H (sc_spanID sc)))"
    by (simp_all add: TraceID_String_def SpanID_String_def json_string)
qed

lemma json_small: "json (Itoa (status_number st))" "json (Itoa (kind_number k))"
  using json_nat [of "nat (status_number st)"] json_nat [of "nat (kind_number k)"]
  by (cases st; cases k; simp add: Itoa_def FormatInt_def)+

lemma json_span:
  assumes "hex_laws H" and "snap_typed s" and "snapshot_quotable s"
  shows "json (span_text H Q s)"
proof -
  have st: "\<forall>m \<in> set (status_members Q s). json_chars (fst m) \<and> json (snd m)"
    using assms(3) literal_chars(15,16) json_small(1) by (auto simp: status_members_def snapshot_quotable_def json_writeJSONString)
  have ev: "json (''['' @ Join '','' (map (event_text Q) (sn_Events s)) @ '']'')"
    using assms(3) json_event by (intro json_array) (auto simp: snapshot_quotable_def list_all_iff)
  have "\<forall>m \<in> set (span_members H Q s). json_chars (fst m) \<and> json (snd m)"
    using assms(2,3) json_hex [OF assms(1)] json_members [OF st] ev literal_chars json_small(2)
    by (auto simp: span_members_def snap_typed_def snapshot_quotable_def dest: json_attributes
        intro: json_string FormatInt_chars json_writeJSONString)
  then show ?thesis using json_members by (simp add: span_text_members)
qed

lemma spans_text_Join:
  "spans_text H Q i (map Some batch) = (if i > 0 \<and> batch \<noteq> [] then '','' else []) @ Join '','' (map (span_text H Q) batch)"
proof (induction batch arbitrary: i)
  case (Cons s batch)
  show ?case using Cons [of "i + 1"] by (cases batch) simp_all
qed simp

section \<open>Limits of the exporter\<close>

text \<open>The escapes of \<^verbatim>\<open>strconv.Quote\<close> for other control characters are not JSON.\<close>

inductive_cases json_chars_escapeE: "json_chars (CHR 0x5C # c # s)"

lemma bell_is_not_json: "quote_char (byte_of 7) = [CHR 0x5C, CHR ''a'']" "\<not> json_chars [CHR 0x5C, CHR ''a'']"
proof -
  have "byte_of 7 \<noteq> CHR 0x22" "byte_of 7 \<noteq> CHR 0x5C" by (simp_all add: byte_eval)
  then show "quote_char (byte_of 7) = [CHR 0x5C, CHR ''a'']" by (simp add: quote_char_def)
  show "\<not> json_chars [CHR 0x5C, CHR ''a'']" by (auto elim: json_chars_escapeE)
qed

text \<open>A nil entry at the front of a batch leaves a comma behind.\<close>

lemma nil_leaves_comma: "spans_text H Q 0 [None, Some s] = '','' @ span_text H Q s"
  by simp

text \<open>Once the worker has stopped nothing is posted any more, although exporting still fills the queue.\<close>

lemma stopped_sends_nothing: "exporter_step (e, h) (e', h') \<Longrightarrow> ox_stopped e \<Longrightarrow> ox_sent e' = ox_sent e \<and> ox_stopped e'"
  by (auto elim: exporter_step.cases)

text \<open>The ratio 0 still samples a trace whose last eight bytes are zero.\<close>

lemma ratio_zero_samples: "\<not> sc_IsValid p \<Longrightarrow> low_bytes t = 0 \<Longrightarrow> ShouldSample (NewRatioSampler 0) p t n k"
  by (simp add: NewRatioSampler_def)

section \<open>Properties\<close>



text \<open>The payload is JSON.  For every batch of snapshots whose texts are ASCII without exotic control characters and whose
  floating-point values are finite, the text posted to the collector is a JSON document.\<close>
theorem payload_is_json:
  assumes "hex_laws H" and "list_all (\<lambda>s. snap_typed s \<and> snapshot_quotable s) batch"
  shows "json (buildOTLPJSON H Q (map Some batch))"
proof -
  let ?spans = "''['' @ Join '','' (map (span_text H Q) batch) @ '']''"
  let ?scope = "''{'' @ members [(''name'', lit ''github.com/lemon4ksan/aoni-contrib/otel''), (''version'', lit ''1.0.0'')] @ ''}''"
  let ?inner = "''{'' @ members [(''scope'', ?scope), (''spans'', ?spans)] @ ''}''"
  let ?outer = "''{'' @ members [(''scopeSpans'', ''['' @ Join '','' [?inner] @ '']'')] @ ''}''"
  have "json ?spans" using assms json_span by (intro json_array) (auto simp: list_all_iff)
  moreover have "json ?scope" using literal_chars by (intro json_members) (auto intro: json_string)
  ultimately have "json ?inner" using literal_chars by (intro json_members) auto
  then have "json (''['' @ Join '','' [?inner] @ '']'')" by (intro json_array) simp
  then have "json ?outer" using literal_chars by (intro json_members) auto
  then have "json (''['' @ Join '','' [?outer] @ '']'')" by (intro json_array) simp
  then have "json (''{'' @ members [(''resourceSpans'', ''['' @ Join '','' [?outer] @ '']'')] @ ''}'')"
    using literal_chars by (intro json_members) auto
  moreover have "buildOTLPJSON H Q (map Some batch) = ''{'' @ members [(''resourceSpans'', ''['' @ Join '','' [?outer] @ '']'')] @ ''}''"
    by (simp add: buildOTLPJSON_def spans_text_Join members_Cons members_Nil)
  ultimately show ?thesis by simp
qed

theorem payload_is_json_witness:
  "json (buildOTLPJSON plain_hex (\<lambda>s. s) (map Some [snapshot \<lparr>t_sec = 1, t_nsec = 0\<rparr> (RecordError \<lparr>t_sec = 1, t_nsec = 0\<rparr> (Some (''E'', ''m'')) new_span)]))"
proof -
  let ?s = "snapshot \<lparr>t_sec = 1, t_nsec = 0\<rparr> (RecordError \<lparr>t_sec = 1, t_nsec = 0\<rparr> (Some (''E'', ''m'')) new_span)"
  have "snap_typed ?s" "snapshot_quotable ?s"
    by (simp_all add: snap_typed_def snapshot_def RecordError_def SetStatus_def AddEvent_def AddEventWithTime_def new_span_def snapshot_quotable_def
        attrs_quotable_def ExceptionAttributes_def quotable_def byte_eval)
  then show ?thesis using payload_is_json [OF plain_hex_laws, of "[?s]"] by simp
qed

end
