(* ===== verification/OT_Middleware.thy ===== *)
theory OT_Middleware
  imports OT_Export
begin

text \<open>
  Package \<^verbatim>\<open>otel\<close>, files \<^verbatim>\<open>src/otel/semconv.go\<close>, \<^verbatim>\<open>options.go\<close> and \<^verbatim>\<open>middleware.go\<close>: the attributes of a request and a response, and the
  middleware that makes a span for every request.  Requests and responses of the module
  \<^verbatim>\<open>aoni\<close> are the types \<open>'r\<close> and \<open>'p\<close> with their operations; \<^verbatim>\<open>url.Parse\<close> is a parameter.
\<close>

record 'r aoni_request = "'r aoni_headers" +
  ar_Method :: "'r \<Rightarrow> bytes"
  ar_URL :: "'r \<Rightarrow> bytes"
  ar_Path :: "'r \<Rightarrow> bytes"
  ar_BodyBytes :: "'r \<Rightarrow> bytes"
  ar_Context :: "'r \<Rightarrow> gctx option"
  ar_SetContext :: "'r \<Rightarrow> gctx \<Rightarrow> 'r"

record 'p aoni_response =
  ap_StatusCode :: "'p \<Rightarrow> int"
  ap_Status :: "'p \<Rightarrow> bytes"
  ap_Header :: "'p \<Rightarrow> bytes \<Rightarrow> bytes"
  ap_Trailers :: "'p \<Rightarrow> (bytes \<times> bytes list) list"
  ap_Proto :: "'p \<Rightarrow> bytes option"
  ap_BodyBytes :: "'p \<Rightarrow> bytes"

section \<open>Attributes\<close>

definition StringAttr :: "bytes \<Rightarrow> bytes \<Rightarrow> Attribute" where "StringAttr k v = \<lparr>a_Key = k, a_Value = AString v\<rparr>"
definition IntAttr :: "bytes \<Rightarrow> int \<Rightarrow> Attribute" where "IntAttr k v = \<lparr>a_Key = k, a_Value = AInt v\<rparr>"
definition Int64Attr :: "bytes \<Rightarrow> int \<Rightarrow> Attribute" where "Int64Attr k v = \<lparr>a_Key = k, a_Value = AInt64 v\<rparr>"
definition BoolAttr :: "bytes \<Rightarrow> bool \<Rightarrow> Attribute" where "BoolAttr k v = \<lparr>a_Key = k, a_Value = ABool v\<rparr>"
definition Float64Attr :: "bytes \<Rightarrow> bytes \<Rightarrow> Attribute" where "Float64Attr k v = \<lparr>a_Key = k, a_Value = AFloat64 v\<rparr>"

abbreviation string_attr_if :: "bytes \<Rightarrow> bytes \<Rightarrow> Attribute list" where
  "string_attr_if k v \<equiv> (if v \<noteq> [] then [StringAttr k v] else [])"

definition port_attributes :: "url \<Rightarrow> Attribute list" where
  "port_attributes u =
    (if Port u \<noteq> [] then (case Atoi (Port u) of Some p \<Rightarrow> [IntAttr ''server.port'' p] | None \<Rightarrow> [])
     else if EqualFold (u_Scheme u) ''https'' then [IntAttr ''server.port'' 443]
     else if EqualFold (u_Scheme u) ''http'' then [IntAttr ''server.port'' 80]
     else [])"

definition url_attributes :: "(bytes \<Rightarrow> url option) \<Rightarrow> bytes \<Rightarrow> Attribute list" where
  "url_attributes parse rawURL =
    (if rawURL = [] then []
     else StringAttr ''url.full'' rawURL #
       (case parse rawURL of
          None \<Rightarrow> []
        | Some u \<Rightarrow>
            string_attr_if ''url.scheme'' (u_Scheme u) @ string_attr_if ''url.path'' (u_Path u) @
            string_attr_if ''url.query'' (u_RawQuery u) @ string_attr_if ''server.address'' (Hostname u) @ port_attributes u))"

definition HTTPClientRequestAttributes :: "'r aoni_request \<Rightarrow> (bytes \<Rightarrow> url option) \<Rightarrow> 'r option \<Rightarrow> Attribute list" where
  "HTTPClientRequestAttributes A parse req =
    (case req of
       None \<Rightarrow> []
     | Some req \<Rightarrow>
         [StringAttr ''http.request.method'' (if ar_Method A req = [] then ''GET'' else ar_Method A req)] @
         url_attributes parse (ar_URL A req) @ string_attr_if ''user_agent.original'' (ah_Header A req ''User-Agent''))"

definition HTTPClientResponseAttributes :: "'p aoni_response \<Rightarrow> 'p option \<Rightarrow> Attribute list" where
  "HTTPClientResponseAttributes B resp =
    (case resp of
       None \<Rightarrow> []
     | Some resp \<Rightarrow>
         (if ap_StatusCode B resp > 0 then [IntAttr ''http.response.status_code'' (ap_StatusCode B resp)] else []) @
         (case ap_Proto B resp of None \<Rightarrow> [] | Some proto \<Rightarrow> string_attr_if ''network.protocol.version'' proto))"

definition IsGRPCRequest :: "'r aoni_request \<Rightarrow> 'r option \<Rightarrow> bool" where
  "IsGRPCRequest A req =
    (case req of
       None \<Rightarrow> False
     | Some req \<Rightarrow>
         (let ct = ah_Header A req ''Content-Type''; ct = (if ct = [] then ah_Header A req ''content-type'' else ct)
          in prefix ''application/grpc'' ct))"

definition request_path :: "'r aoni_request \<Rightarrow> (bytes \<Rightarrow> url option) \<Rightarrow> 'r \<Rightarrow> bytes" where
  "request_path A parse req =
    (if ar_Path A req = [] then (case parse (ar_URL A req) of Some u \<Rightarrow> u_Path u | None \<Rightarrow> []) else ar_Path A req)"

definition trim_slash :: "bytes \<Rightarrow> bytes" where
  "trim_slash p = (if prefix ''/'' p then drop 1 p else p)"

definition GRPCClientRequestAttributes :: "'r aoni_request \<Rightarrow> (bytes \<Rightarrow> url option) \<Rightarrow> 'r option \<Rightarrow> Attribute list" where
  "GRPCClientRequestAttributes A parse req =
    (case req of
       None \<Rightarrow> []
     | Some req \<Rightarrow>
         StringAttr ''rpc.system'' ''grpc'' #
         (let path = trim_slash (request_path A parse req)
          in case IndexByte path CHR ''/'' of
               None \<Rightarrow> []
             | Some idx \<Rightarrow>
                 if idx > 0 then [StringAttr ''rpc.service'' (take idx path), StringAttr ''rpc.method'' (drop (idx + 1) path)] else []))"

definition GRPCClientResponseAttributes :: "'p aoni_response \<Rightarrow> 'p option \<Rightarrow> Attribute list" where
  "GRPCClientResponseAttributes B resp =
    (case resp of
       None \<Rightarrow> []
     | Some resp \<Rightarrow>
         (let statusStr = ap_Header B resp ''grpc-status'';
              statusStr = (if statusStr = [] then
                             (case map_of (ap_Trailers B resp) ''grpc-status'' of Some (v # vs) \<Rightarrow> v | _ \<Rightarrow> [])
                           else statusStr)
          in if statusStr = [] then []
             else case Atoi statusStr of Some code \<Rightarrow> [IntAttr ''rpc.grpc.status_code'' code] | None \<Rightarrow> []))"

section \<open>Configuration\<close>

record 'r Config =
  mc_Tracer :: "nat option"
  mc_Filter :: "('r \<Rightarrow> bool) option"
  mc_SpanNameFormatter :: "('r \<Rightarrow> bytes) option"
  mc_CustomAttributes :: "('r \<Rightarrow> Attribute list) option"
  mc_TraceEvents :: bool
  mc_PropagateContext :: bool

definition default_name :: "'r aoni_request \<Rightarrow> (bytes \<Rightarrow> url option) \<Rightarrow> 'r \<Rightarrow> bytes" where
  "default_name A parse req =
    (let path = request_path A parse req
     in if IsGRPCRequest A (Some req) \<and> path \<noteq> [] then trim_slash path
        else (let method = (if ar_Method A req = [] then ''GET'' else ar_Method A req)
              in if path \<noteq> [] then method @ '' '' @ path else method))"

definition DefaultConfig :: "'r aoni_request \<Rightarrow> (bytes \<Rightarrow> url option) \<Rightarrow> 'r Config" where
  "DefaultConfig A parse =
    \<lparr>mc_Tracer = None, mc_Filter = None, mc_SpanNameFormatter = Some (default_name A parse), mc_CustomAttributes = None,
     mc_TraceEvents = True, mc_PropagateContext = True\<rparr>"

text \<open>An option changes the configuration; the tracers it makes or changes are objects of the world.\<close>

type_synonym 'r Option = "'r Config \<times> world \<Rightarrow> 'r Config \<times> world"

definition WithTracer :: "nat option \<Rightarrow> 'r Option" where
  "WithTracer tracer = (\<lambda>(c, w). (c\<lparr>mc_Tracer := tracer\<rparr>, w))"

definition WithFilter :: "('r \<Rightarrow> bool) option \<Rightarrow> 'r Option" where
  "WithFilter f = (\<lambda>(c, w). (c\<lparr>mc_Filter := f\<rparr>, w))"

definition WithSpanNameFormatter :: "('r \<Rightarrow> bytes) option \<Rightarrow> 'r Option" where
  "WithSpanNameFormatter formatter =
    (\<lambda>(c, w). (case formatter of None \<Rightarrow> c | Some f \<Rightarrow> c\<lparr>mc_SpanNameFormatter := Some f\<rparr>, w))"

definition WithCustomAttributes :: "('r \<Rightarrow> Attribute list) option \<Rightarrow> 'r Option" where
  "WithCustomAttributes fn = (\<lambda>(c, w). (c\<lparr>mc_CustomAttributes := fn\<rparr>, w))"

definition WithTraceEvents :: "bool \<Rightarrow> 'r Option" where
  "WithTraceEvents enable = (\<lambda>(c, w). (c\<lparr>mc_TraceEvents := enable\<rparr>, w))"

definition WithPropagateContext :: "bool \<Rightarrow> 'r Option" where
  "WithPropagateContext propagate = (\<lambda>(c, w). (c\<lparr>mc_PropagateContext := propagate\<rparr>, w))"

definition add_tracer :: "Tracer \<Rightarrow> 'r Option" where
  "add_tracer tr = (\<lambda>(c, w). (c\<lparr>mc_Tracer := Some (length (w_tracers w))\<rparr>, w\<lparr>w_tracers := w_tracers w @ [tr]\<rparr>))"

definition WithServiceName :: "bytes \<Rightarrow> 'r Option" where
  "WithServiceName name =
    (\<lambda>(c, w). case mc_Tracer c of
       None \<Rightarrow> add_tracer (NewTracer name [WithTracerServiceName name]) (c, w)
     | Some t \<Rightarrow> (c, w\<lparr>w_tracers := (w_tracers w)[t := (w_tracers w ! t)\<lparr>tr_serviceName := name\<rparr>]\<rparr>))"

text \<open>The part of \<^verbatim>\<open>NewMiddleware\<close> that runs once.\<close>

definition NewMiddleware :: "'r aoni_request \<Rightarrow> (bytes \<Rightarrow> url option) \<Rightarrow> 'r Option list \<Rightarrow> world \<Rightarrow> 'r Config \<times> world" where
  "NewMiddleware A parse opts w =
    (let (cfg, w) = fold (\<lambda>f x. f x) opts (DefaultConfig A parse, w)
     in if mc_Tracer cfg = None then add_tracer (NewTracer ''aoni-client'' []) (cfg, w) else (cfg, w))"

section \<open>The middleware\<close>

text \<open>What the run-time supplies to one request: the pool's choices, the clock readings and the random reads.\<close>

record mw_env =
  en_pick :: "nat option"
  en_keep :: bool
  en_coarse :: gotime
  en_now :: gotime
  en_error :: gotime
  en_end :: gotime
  en_draws16 :: "bytes option list"
  en_draws8 :: "bytes option list"

type_synonym error_value = "bytes \<times> bytes"

definition outcome_edits ::
  "'r aoni_request \<Rightarrow> 'p aoni_response \<Rightarrow> gotime \<Rightarrow> 'r \<Rightarrow> 'p option \<Rightarrow> error_value option \<Rightarrow> Span \<Rightarrow> Span" where
  "outcome_edits A B now req resp err s =
    (case err of
       Some (typ, msg) \<Rightarrow> SetStatus StatusError msg (SetAttribute ''error.type'' (AString ''NetworkError'') (RecordError now err s))
     | None \<Rightarrow>
         (case resp of
            None \<Rightarrow> s
          | Some p \<Rightarrow>
              (let s = SetAttributes (HTTPClientResponseAttributes B resp) s;
                   s = (if IsGRPCRequest A (Some req) then SetAttributes (GRPCClientResponseAttributes B resp) s else s);
                   s = (if ap_BodyBytes B p \<noteq> []
                        then SetAttribute ''http.response.body.size'' (AInt (int (length (ap_BodyBytes B p)))) s else s);
                   grpcStatus = ap_Header B p ''grpc-status''
               in if grpcStatus \<noteq> [] \<and> grpcStatus \<noteq> ''0'' then SetStatus StatusError (''gRPC status: '' @ grpcStatus) s
                  else if ap_StatusCode B p \<ge> 400 then SetStatus StatusError (ap_Status B p) s
                  else SetStatus StatusOk [] s)))"

definition request_edits :: "'r aoni_request \<Rightarrow> 'r Config \<Rightarrow> 'r \<Rightarrow> Span \<Rightarrow> Span" where
  "request_edits A cfg req s =
    (let s = (case mc_CustomAttributes cfg of None \<Rightarrow> s | Some f \<Rightarrow> if f req \<noteq> [] then SetAttributes (f req) s else s)
     in if ar_BodyBytes A req \<noteq> [] then SetAttribute ''http.request.body.size'' (AInt (int (length (ar_BodyBytes A req)))) s else s)"

definition start_options :: "'r aoni_request \<Rightarrow> (bytes \<Rightarrow> url option) \<Rightarrow> gotime \<Rightarrow> 'r \<Rightarrow> StartOption list" where
  "start_options A parse now req =
    [WithSpanKind SpanKindClient, WithStartTime now,
     WithAttributes (HTTPClientRequestAttributes A parse (Some req) @
       (if IsGRPCRequest A (Some req) then GRPCClientRequestAttributes A parse (Some req) else []))]"

definition span_name :: "'r Config \<Rightarrow> 'r \<Rightarrow> bytes" where
  "span_name cfg req = (case mc_SpanNameFormatter cfg of None \<Rightarrow> ''HTTP'' | Some f \<Rightarrow> f req)"

definition outgoing :: "hexkit \<Rightarrow> 'r aoni_request \<Rightarrow> 'r Config \<Rightarrow> gctx \<Rightarrow> world \<Rightarrow> 'r \<Rightarrow> 'r" where
  "outgoing H A cfg ctx w req =
    (let req = ar_SetContext A req ctx
     in if mc_PropagateContext cfg
        then (case Inject H (RequestCarrier_Set A) w (Some ctx) (Some (Some req)) of Some (Some r) \<Rightarrow> r | _ \<Rightarrow> req)
        else req)"

text \<open>The function a configured middleware makes of the next one; \<open>None\<close> when the random reads given do not suffice for the
  identifiers.\<close>

definition middleware ::
  "hexkit \<Rightarrow> 'r aoni_request \<Rightarrow> 'p aoni_response \<Rightarrow> (bytes \<Rightarrow> url option) \<Rightarrow> 'r Config \<Rightarrow> mw_env \<Rightarrow>
     ('r \<Rightarrow> world \<Rightarrow> 'p option \<times> error_value option \<times> 'r \<times> world) \<Rightarrow> 'r \<Rightarrow> world \<Rightarrow>
     ('p option \<times> error_value option \<times> 'r \<times> world) option" where
  "middleware H A B parse cfg en nxt req w =
    (if (case mc_Filter cfg of None \<Rightarrow> False | Some f \<Rightarrow> \<not> f req) then Some (nxt req w)
     else
      (case Start (en_pick en) (en_coarse en) (en_now en) (en_draws16 en) (en_draws8 en) (the (mc_Tracer cfg))
              (Some (ctx_or_background (ar_Context A req))) (span_name cfg req) (start_options A parse (en_now en) req) w of
         None \<Rightarrow> None
       | Some (ctx, a, w) \<Rightarrow>
           (let w = on_span a (request_edits A cfg req) w;
                (resp, err, req, w) = nxt (outgoing H A cfg ctx w req) w;
                w = on_span a (outcome_edits A B (en_error en) req resp err) w
            in Some (resp, err, req, End_span (en_end en) (en_keep en) a w))))"

section \<open>Lemmas\<close>

text \<open>What an edit cannot change, and the status the outcome of a request gives.\<close>

definition identity :: "Span \<Rightarrow> nat option \<times> bytes \<times> SpanContext \<times> SpanContext \<times> SpanKind \<times> gotime \<times> bool" where
  "identity s = (s_tracer s, s_name s, s_spanContext s, s_parentSpanContext s, s_kind s, s_startTime s, s_ended s)"

definition outcome_status :: "'p aoni_response \<Rightarrow> 'p option \<Rightarrow> error_value option \<Rightarrow> StatusCode \<times> bytes" where
  "outcome_status B resp err =
    (case (err, resp) of
       (Some e, _) \<Rightarrow> (StatusError, snd e)
     | (None, None) \<Rightarrow> (StatusUnset, [])
     | (None, Some p) \<Rightarrow>
         if ap_Header B p ''grpc-status'' \<notin> {[], ''0''} then (StatusError, ''gRPC status: '' @ ap_Header B p ''grpc-status'')
         else if ap_StatusCode B p \<ge> 400 then (StatusError, ap_Status B p)
         else (StatusOk, []))"

lemma edit_identity [simp]:
  "identity (SetStatus c d s) = identity s" "identity (SetAttribute k v s) = identity s"
  "identity (SetAttributes as s) = identity s" "identity (AddEventWithTime n t as s) = identity s"
  "identity (RecordError t e s) = identity s"
  by (auto simp: identity_def SetStatus_def SetAttribute_def SetAttributes_def AddEventWithTime_def AddEvent_def RecordError_def split: option.split)

lemma request_edits_identity [simp]: "identity (request_edits A cfg req s) = identity s"
  by (simp add: request_edits_def Let_def split: option.split)

lemma outcome_edits_identity [simp]: "identity (outcome_edits A B now req resp err s) = identity s"
  by (simp add: outcome_edits_def Let_def split: option.split)

lemma attribute_status [simp]:
  "s_status (SetAttribute k v s) = s_status s" "s_statusDesc (SetAttribute k v s) = s_statusDesc s"
  "s_status (SetAttributes as s) = s_status s" "s_statusDesc (SetAttributes as s) = s_statusDesc s"
  by (simp_all add: SetAttribute_def SetAttributes_def)

lemma request_edits_status [simp]:
  "s_status (request_edits A cfg req s) = s_status s" "s_statusDesc (request_edits A cfg req s) = s_statusDesc s"
  by (simp_all add: request_edits_def Let_def split: option.split)

lemma ended_identity: "identity s = identity s' \<Longrightarrow> s_ended s = s_ended s'"
  by (simp add: identity_def)

lemma outcome_edits_status:
  assumes "\<not> s_ended s" and "s_status s = StatusUnset" and "s_statusDesc s = []"
  shows "(s_status (outcome_edits A B now req resp err s), s_statusDesc (outcome_edits A B now req resp err s)) = outcome_status B resp err"
proof -
  have set: "(s_status (SetStatus c d u), s_statusDesc (SetStatus c d u)) = (c, d)" if "identity u = identity s" for c d u
    using assms(1) ended_identity [OF that] by (simp add: SetStatus_def)
  show ?thesis
    using assms(2,3) set by (auto simp: outcome_edits_def outcome_status_def Let_def split: option.split prod.split)
qed

lemma Start_facts:
  assumes "Start pick coarse now ds es t ctx name opts w = Some (ctx', a, w')" and "\<forall>b \<in> set (w_pool w). b < length (w_spans w)"
    and "start_ids (parent_context w ctx) ds es = Some (traceID, spanID)"
  shows "a < length (w_spans w')" and "w_tracers w' = w_tracers w" and "w_exporters w' = w_exporters w"
    and "cx_span ctx' = Some a" and "s_status (span_at w' a) = StatusUnset" and "s_statusDesc (span_at w' a) = []"
    and "identity (span_at w' a) =
      (let cfg = start_config now opts; sc = start_context (tr_sampler (w_tracers w ! t)) (parent_context w ctx) traceID spanID name (st_Kind cfg)
       in (Some t, name, sc, parent_context w ctx, st_Kind cfg, if Time_IsZero (st_StartTime cfg) then coarse else st_StartTime cfg, False))"
proof -
  obtain b v where g: "storage_Get pick w = (b, v)" by fastforce
  have b: "b < length (w_spans v)" "w_tracers v = w_tracers w" "w_exporters v = w_exporters w"
    using g assms(2) by (auto simp: storage_Get_def split: option.splits if_splits)
  let ?cfg = "start_config now opts"
  let ?s = "fill_span coarse t name (start_context (tr_sampler (w_tracers w ! t)) (parent_context w ctx) traceID spanID name (st_Kind ?cfg))
    (parent_context w ctx) (st_Kind ?cfg) (st_StartTime ?cfg) (span_at v b)"
  have r: "a = b" "cx_span ctx' = Some b" and w': "w' = (let u = on_span b (\<lambda>_. ?s) v in if length (st_Attributes ?cfg) > 0 then on_span b (SetAttributes (st_Attributes ?cfg)) u else u)"
    using assms(1,3) g by (auto simp: Start_def acquireSpan_def Let_def ContextWithSpan_def on_span_def)
  have s: "span_at w' a = (if length (st_Attributes ?cfg) > 0 then SetAttributes (st_Attributes ?cfg) ?s else ?s)"
    using b(1) by (simp add: w' r(1) Let_def)
  show "a < length (w_spans w')" "w_tracers w' = w_tracers w" "w_exporters w' = w_exporters w" "cx_span ctx' = Some a"
    using b r by (simp_all add: w' Let_def)
  show "s_status (span_at w' a) = StatusUnset" "s_statusDesc (span_at w' a) = []" unfolding s by (simp_all add: fill_span_def)
  have "identity ?s = (let cfg = ?cfg; sc = start_context (tr_sampler (w_tracers w ! t)) (parent_context w ctx) traceID spanID name (st_Kind cfg)
       in (Some t, name, sc, parent_context w ctx, st_Kind cfg, if Time_IsZero (st_StartTime cfg) then coarse else st_StartTime cfg, False))"
    by (simp add: identity_def fill_span_def Let_def)
  then show "identity (span_at w' a) = (let cfg = ?cfg; sc = start_context (tr_sampler (w_tracers w ! t)) (parent_context w ctx) traceID spanID name (st_Kind cfg)
       in (Some t, name, sc, parent_context w ctx, st_Kind cfg, if Time_IsZero (st_StartTime cfg) then coarse else st_StartTime cfg, False))"
    unfolding s by simp
qed

lemma Start_defined:
  "start_ids (parent_context w ctx) ds es = Some i \<Longrightarrow> \<exists>ctx' a w'. Start pick coarse now ds es t ctx name opts w = Some (ctx', a, w')"
  by (cases i) (auto simp: Start_def Let_def split: prod.split)

lemma End_span_exports:
  assumes "a < length (w_spans w)" and "\<not> s_ended (span_at w a)" and "s_tracer (span_at w a) = Some t"
    and "tr_exporter (w_tracers w ! t) = Some x" and "\<not> tr_closed (w_tracers w ! t)" and "sc_IsSampled (s_spanContext (span_at w a))"
  shows "w_exporters (End_span now keep a w) =
    (w_exporters w)[x := deliver (snapshot now ((span_at w a)\<lparr>s_ended := True, s_endTime := now\<rparr>)) (w_exporters w ! x)]"
  using assms by (simp add: End_span_def EndWithTime_def processSpan_def Export_def export_one_def releaseSpan_def Let_def)

text \<open>A carrier around a request that is there is the request.\<close>

lemma inject_request:
  "inject_context H (RequestCarrier_Set A) sc (Some r) = Some (inject_context H (\<lambda>r k v. the (RequestCarrier_Set A (Some r) k v)) sc r)"
  by (simp add: inject_context_def RequestCarrier_Set_def Let_def)

lemma extract_request:
  "Extract_carrier H (RequestCarrier_Get A) (Some (Some r)) = Extract_carrier H (\<lambda>r. RequestCarrier_Get A (Some r)) (Some r)"
  by (simp add: Extract_carrier_def RequestCarrier_Get_def)

lemma outgoing_carries:
  assumes "hex_laws H" and "aoni_laws A" and "mc_PropagateContext cfg" and "cx_span ctx = Some a"
    and "sc_typed (s_spanContext (span_at w a))" and "sc_IsValid (s_spanContext (span_at w a))"
  shows "\<exists>st. Extract_carrier H (RequestCarrier_Get A) (Some (Some (outgoing H A cfg ctx w req))) =
    Some ((s_spanContext (span_at w a))\<lparr>sc_remote := True, sc_traceState := st\<rparr>)"
proof -
  have "outgoing H A cfg ctx w req =
      inject_context H (\<lambda>r k v. the (RequestCarrier_Set A (Some r) k v)) (s_spanContext (span_at w a)) (ar_SetContext A req ctx)"
    using assms(3,4) by (simp add: outgoing_def Let_def Inject_def SpanFromContext_def inject_request)
  then show ?thesis
    unfolding extract_request using text_map_carrier.extract_injected [OF request_carrier [OF assms(2)] assms(1,5,6)] by (metis (no_types))
qed

definition env_typed :: "mw_env \<Rightarrow> bool" where
  "env_typed en \<longleftrightarrow> list_all (\<lambda>d. case d of None \<Rightarrow> True | Some b \<Rightarrow> length b = 16) (en_draws16 en) \<and>
    list_all (\<lambda>d. case d of None \<Rightarrow> True | Some b \<Rightarrow> length b = 8) (en_draws8 en)"

definition ctx_typed :: "world \<Rightarrow> gctx \<Rightarrow> bool" where
  "ctx_typed w ctx \<longleftrightarrow> (case cx_span ctx of None \<Rightarrow> True | Some a \<Rightarrow> a < length (w_spans w)) \<and>
    (case cx_remote ctx of None \<Rightarrow> True | Some sc \<Rightarrow> sc_typed sc)"

lemma parent_typed: "world_typed (w, hs) \<Longrightarrow> ctx_typed w ctx \<Longrightarrow> sc_typed (parent_context w (Some ctx))"
  using typed_at [of w hs]
  by (auto simp: parent_context_def SpanFromContext_def RemoteSpanContextFromContext_def ctx_typed_def span_typed_def split: option.splits)

lemma start_options_config:
  "st_Kind (start_config now (start_options A parse now req)) = SpanKindClient"
  by (simp add: start_config_def start_options_def WithSpanKind_def WithStartTime_def WithAttributes_def)

section \<open>Properties\<close>


text \<open>A request as a pair of its headers and its context, a response as its status code.\<close>

definition plain_request :: "(http_header \<times> gctx option) aoni_request" where
  "plain_request =
    \<lparr>ah_Header = (\<lambda>r. Header_Get (fst r)), ah_SetHeader = (\<lambda>r k v. (Header_Set (fst r) k v, snd r)), ah_Headers = (\<lambda>r. map fst (fst r)),
     ar_Method = (\<lambda>r. ''GET''), ar_URL = (\<lambda>r. ''http://h/p''), ar_Path = (\<lambda>r. ''/p''), ar_BodyBytes = (\<lambda>r. []),
     ar_Context = snd, ar_SetContext = (\<lambda>r c. (fst r, Some c))\<rparr>"

definition plain_response :: "int aoni_response" where
  "plain_response =
    \<lparr>ap_StatusCode = (\<lambda>c. c), ap_Status = (\<lambda>c. ''Not Found''), ap_Header = (\<lambda>c k. []), ap_Trailers = (\<lambda>c. []), ap_Proto = (\<lambda>c. None),
     ap_BodyBytes = (\<lambda>c. [])\<rparr>"

definition example_config :: "(http_header \<times> gctx option) Config" where
  "example_config = fst (NewMiddleware plain_request (\<lambda>s. None) [WithTracer (Some 0)] example_world)"

definition example_env :: mw_env where
  "example_env =
    \<lparr>en_pick = None, en_keep = True, en_coarse = \<lparr>t_sec = 1, t_nsec = 0\<rparr>, en_now = \<lparr>t_sec = 2, t_nsec = 0\<rparr>, en_error = \<lparr>t_sec = 3, t_nsec = 0\<rparr>,
     en_end = \<lparr>t_sec = 4, t_nsec = 0\<rparr>, en_draws16 = [Some (replicate 16 CHR ''a'')], en_draws8 = [Some (replicate 8 CHR ''b'')]\<rparr>"

lemma plain_request_laws: "aoni_laws plain_request"
  using trace_header_keys by (simp add: aoni_laws_def plain_request_def Header_Get_Set Header_Get_Set_other)


end
