(* ===== verification/Auth_PKCE.thy ===== *)
theory Auth_PKCE
  imports Go_Base64 Go_Text
begin

text \<open>
  Package \<^verbatim>\<open>pkce\<close>, file \<^verbatim>\<open>src/auth/pkce/pkce.go\<close>: code verifiers, challenges and redirect URIs.  The
  random source is the list of bytes a read of the given length returns, \<open>None\<close> when it fails; the hash
  function and \<^verbatim>\<open>url.Parse\<close> are parameters.
\<close>

datatype pkce_error = ErrVerifierLength | ErrInvalidMethod | ErrRandom

abbreviation MethodS256 :: bytes where "MethodS256 \<equiv> ''S256''"
abbreviation MethodPlain :: bytes where "MethodPlain \<equiv> ''plain''"

record ChallengePair =
  cp_Verifier :: bytes
  cp_Challenge :: bytes
  cp_Method :: bytes

definition raw_length :: "int \<Rightarrow> int" where
  "raw_length n = (let rawLen = n * 3 div 4 in if n * 3 mod 4 \<noteq> 0 then rawLen + 1 else rawLen)"

definition GenerateVerifier :: "(nat \<Rightarrow> bytes option) \<Rightarrow> int \<Rightarrow> pkce_error + bytes" where
  "GenerateVerifier rd len =
    (let len = (if len \<le> 0 then 64 else len)
     in if len < 43 \<or> len > 128 then Inl ErrVerifierLength
        else case rd (nat (raw_length len)) of
               None \<Rightarrow> Inl ErrRandom
             | Some buf \<Rightarrow>
                 (let encoded = EncodeToString RawURLEncoding buf
                  in Inr (if int (length encoded) > len then take (nat len) encoded else encoded)))"

text \<open>\<^verbatim>\<open>MustGenerateVerifier\<close> panics on an error, which is \<open>None\<close>.\<close>

definition MustGenerateVerifier :: "(nat \<Rightarrow> bytes option) \<Rightarrow> int \<Rightarrow> bytes option" where
  "MustGenerateVerifier rd len = (case GenerateVerifier rd len of Inl err \<Rightarrow> None | Inr v \<Rightarrow> Some v)"

abbreviation chosen_method :: "bytes list \<Rightarrow> bytes" where
  "chosen_method ms \<equiv> (if length ms > 0 \<and> ms ! 0 \<noteq> [] then ms ! 0 else MethodS256)"

definition ComputeChallenge :: "(bytes \<Rightarrow> bytes) \<Rightarrow> bytes \<Rightarrow> bytes list \<Rightarrow> pkce_error + bytes" where
  "ComputeChallenge sha verifier ms =
    (if length verifier < 43 \<or> length verifier > 128 then Inl ErrVerifierLength
     else (let m = chosen_method ms
           in if m = MethodS256 then Inr (EncodeToString RawURLEncoding (sha verifier))
              else if m = MethodPlain then Inr verifier
              else Inl ErrInvalidMethod))"

definition Validate :: "(bytes \<Rightarrow> bytes) \<Rightarrow> bytes \<Rightarrow> bytes \<Rightarrow> bytes list \<Rightarrow> bool" where
  "Validate sha verifier challenge ms =
    (case ComputeChallenge sha verifier [chosen_method ms] of
       Inl err \<Rightarrow> False
     | Inr computed \<Rightarrow> if length computed \<noteq> length challenge then False else computed = challenge)"

definition New_pair :: "(bytes \<Rightarrow> bytes) \<Rightarrow> (nat \<Rightarrow> bytes option) \<Rightarrow> int list \<Rightarrow> pkce_error + ChallengePair" where
  "New_pair sha rd len =
    (let l = (if length len > 0 \<and> len ! 0 > 0 then len ! 0 else 64)
     in case GenerateVerifier rd l of
          Inl err \<Rightarrow> Inl err
        | Inr verifier \<Rightarrow>
            (case ComputeChallenge sha verifier [MethodS256] of
               Inl err \<Rightarrow> Inl err
             | Inr challenge \<Rightarrow> Inr \<lparr>cp_Verifier = verifier, cp_Challenge = challenge, cp_Method = MethodS256\<rparr>))"

definition isLoopbackHost :: "unicode \<Rightarrow> bytes \<Rightarrow> bool" where
  "isLoopbackHost U host =
    (let host = ToLower U (TrimSpace host)
     in host = ''localhost'' \<or> host = ''127.0.0.1'' \<or> host = ''::1'' \<or> host = ''[::1]'')"

definition MatchRedirectURI :: "unicode \<Rightarrow> (bytes \<Rightarrow> 'z url_scheme option) \<Rightarrow> bytes \<Rightarrow> bytes \<Rightarrow> bool" where
  "MatchRedirectURI U parse registeredURI requestURI =
    (if registeredURI = [] \<or> requestURI = [] then False
     else if registeredURI = requestURI then True
     else case (parse registeredURI, parse requestURI) of
            (Some regURL, Some reqURL) \<Rightarrow>
              isLoopbackHost U (Hostname regURL) \<and> isLoopbackHost U (Hostname reqURL) \<and>
              EqualFoldU U (u_Scheme regURL) (u_Scheme reqURL) \<and> u_Path regURL = u_Path reqURL \<and>
              u_RawQuery regURL = u_RawQuery reqURL \<and> u_Fragment regURL = u_Fragment reqURL
          | _ \<Rightarrow> False)"

section \<open>Lemmas\<close>

text \<open>The characters RFC 7636 allows in a verifier.\<close>

definition unreserved :: "char \<Rightarrow> bool" where
  "unreserved c \<longleftrightarrow> is_upper c \<or> is_lower c \<or> is_digit c \<or> c \<in> set ''-._~''"

lemma url_alphabet_unreserved: "c \<in> set alphabet_url \<Longrightarrow> unreserved c"
proof -
  have "list_all unreserved alphabet_url"
    by (simp add: alphabet_url_def unreserved_def is_upper_def is_lower_def is_digit_def byte_eval)
  then show "c \<in> set alphabet_url \<Longrightarrow> unreserved c" by (simp add: list_all_iff)
qed

lemma raw_length_enough:
  assumes "0 < n"
  shows "n \<le> int ((4 * nat (raw_length n) + 2) div 3)"
proof -
  have "4 * raw_length n \<ge> 3 * n" "raw_length n \<ge> 0" using assms by (auto simp: raw_length_def Let_def)
  then show ?thesis by (simp add: zdiv_int)
qed

text \<open>The encoded random bytes are never too few: a verifier has exactly the length asked for.\<close>

lemma GenerateVerifier_ok:
  assumes "\<And>n b. rd n = Some b \<Longrightarrow> length b = n" and "GenerateVerifier rd len = Inr v"
  shows "int (length v) = (if len \<le> 0 then 64 else len)" and "list_all unreserved v" and "43 \<le> length v" and "length v \<le> 128"
proof -
  let ?n = "if len \<le> 0 then 64 else len"
  have n: "43 \<le> ?n" "?n \<le> 128" using assms(2) by (auto simp: GenerateVerifier_def Let_def split: if_splits)
  then obtain buf where b: "rd (nat (raw_length ?n)) = Some buf"
    and v: "v = (let e = EncodeToString RawURLEncoding buf in if int (length e) > ?n then take (nat ?n) e else e)"
    using assms(2) by (cases "rd (nat (raw_length ?n))") (auto simp: GenerateVerifier_def Let_def)
  have "?n \<le> int (length (EncodeToString RawURLEncoding buf))"
    using raw_length_enough [of ?n] n assms(1) [OF b] by (simp add: RawURL_length)
  then show l: "int (length v) = ?n" using n unfolding v Let_def by (cases "int (length (EncodeToString RawURLEncoding buf)) > ?n") simp_all
  show "43 \<le> length v" "length v \<le> 128" using l n by linarith+
  have "set v \<subseteq> set alphabet_url"
    using EncodeToString_chars [OF RawURL_simps(3,2), of buf] set_take_subset [of "nat ?n" "EncodeToString RawURLEncoding buf"]
    unfolding v Let_def RawURL_simps(1) by (cases "int (length (EncodeToString RawURLEncoding buf)) > ?n") (simp_all only: if_True if_False subset_trans)
  then show "list_all unreserved v" using url_alphabet_unreserved by (auto simp: list_all_iff)
qed

lemma GenerateVerifier_total:
  assumes "\<And>n. rd n \<noteq> None" and "len \<le> 0 \<or> 43 \<le> len \<and> len \<le> 128"
  shows "\<exists>v. GenerateVerifier rd len = Inr v"
proof -
  let ?n = "if len \<le> 0 then 64 else len"
  obtain b where "rd (nat (raw_length ?n)) = Some b" using assms(1) by fast
  then show ?thesis using assms(2) by (auto simp: GenerateVerifier_def Let_def)
qed

lemma Validate_iff:
  "Validate sha v (EncodeToString RawURLEncoding h) [] \<longleftrightarrow> 43 \<le> length v \<and> length v \<le> 128 \<and> sha v = h"
  by (auto simp: Validate_def ComputeChallenge_def RawURL_inject Let_def)

text \<open>Two different loopback hosts match although only the port is said to vary.\<close>

lemma loopback_host_varies:
  assumes "parse r = Some u" and "parse q = Some (u\<lparr>u_Host := ''127.0.0.1:9''\<rparr>)" and "u_Host u = ''localhost''"
    and "u_Scheme u = ''http''" and "r \<noteq> []" "q \<noteq> []"
  shows "MatchRedirectURI U parse r q"
proof -
  have h: "Hostname u = ''localhost''" "Hostname (u\<lparr>u_Host := ''127.0.0.1:9''\<rparr>) = ''127.0.0.1''"
    using assms(3) by (simp_all add: Hostname_def splitHostPort_def LastIndexByte_def validOptionalPort_def is_digit_def byte_eval)
  have "TrimSpace ''localhost'' = ''localhost''" "TrimSpace ''127.0.0.1'' = ''127.0.0.1''"
    by (simp_all add: TrimSpace_printable space_byte_def byte_eval)
  then have "isLoopbackHost U ''localhost''" "isLoopbackHost U ''127.0.0.1''"
    by (simp_all add: isLoopbackHost_def ToLower_lower is_ascii_def is_upper_def byte_eval)
  moreover have "EqualFoldU U ''http'' ''http''" by (simp add: EqualFoldU_def is_ascii_def byte_eval)
  ultimately show ?thesis using assms h by (simp add: MatchRedirectURI_def)
qed

section \<open>Properties\<close>

text \<open>C35: a PKCE exchange.  Whatever the random source returns, a generated pair has a verifier of exactly the length asked for
  (64 by default), made of unreserved characters, and the server's check of a verifier against its challenge succeeds
  exactly for verifiers of legal length with the same hash, so for the generated one; a length outside 43 to 128 is
  refused.\<close>
theorem pkce_exchange:
  assumes "\<forall>n. \<exists>b. rd n = Some b \<and> length b = n" and "l = (if len \<noteq> [] \<and> len ! 0 > 0 then len ! 0 else 64)"
  shows "if 43 \<le> l \<and> l \<le> 128 then
      \<exists>p. New_pair sha rd len = Inr p \<and> int (length (cp_Verifier p)) = l \<and> list_all unreserved (cp_Verifier p) \<and>
        Validate sha (cp_Verifier p) (cp_Challenge p) [cp_Method p] \<and>
        (\<forall>v. Validate sha v (cp_Challenge p) [] \<longleftrightarrow> 43 \<le> length v \<and> length v \<le> 128 \<and> sha v = sha (cp_Verifier p))
    else New_pair sha rd len = Inl ErrVerifierLength"
proof (cases "43 \<le> l \<and> l \<le> 128")
  case True
  have rd: "length b = n" if "rd n = Some b" for n b using assms(1) [rule_format, of n] that by auto
  have rd2: "rd n \<noteq> None" for n using assms(1) [rule_format, of n] by auto
  obtain v where v: "GenerateVerifier rd l = Inr v" using GenerateVerifier_total [of rd l] rd2 True by blast
  note f = GenerateVerifier_ok [of rd, OF rd v]
  have "New_pair sha rd len = Inr \<lparr>cp_Verifier = v, cp_Challenge = EncodeToString RawURLEncoding (sha v), cp_Method = MethodS256\<rparr>"
    using v f(3,4) by (simp add: New_pair_def assms(2) [symmetric] ComputeChallenge_def Let_def)
  moreover have "Validate sha v (EncodeToString RawURLEncoding (sha v)) [MethodS256]"
    using f(3,4) by (simp add: Validate_def ComputeChallenge_def Let_def)
  ultimately show ?thesis using True f(1-4) by (simp add: Validate_iff)
next
  case False
  have "l > 0" using assms(2) by (auto split: if_splits)
  then have "New_pair sha rd len = Inl ErrVerifierLength"
    using False by (auto simp: New_pair_def assms(2) [symmetric] GenerateVerifier_def Let_def)
  then show ?thesis using False by simp
qed

theorem pkce_exchange_witness:
  "\<exists>p. New_pair (\<lambda>v. take 32 v) (\<lambda>n. Some (replicate n CHR ''a'')) [43] = Inr p \<and> length (cp_Verifier p) = 43"
  using pkce_exchange [of "\<lambda>n. Some (replicate n CHR ''a'')" 43 "[43]" "\<lambda>v. take 32 v"] by auto

end
