(* ===== verification/DPoP_Jwk.thy ===== *)
theory DPoP_Jwk
  imports Go_Base64 Go_Big
begin

text \<open>
  Package \<^verbatim>\<open>dpop\<close>, files \<^verbatim>\<open>src/auth/dpop/jwk.go\<close> and the types of \<^verbatim>\<open>types.go\<close>: public keys as JSON Web Keys and
  their thumbprints.  The pointers to elliptic-curve and RSA keys may be nil; a result of \<open>None\<close> is a panic.
  The hash function is a parameter.
\<close>

datatype dpop_error =
    ErrInvalidDPoPProof
  | ErrInvalidHeader
  | ErrInvalidClaims
  | ErrInvalidSignature
  | ErrProofExpired
  | ErrProofInFuture
  | ErrMethodMismatch
  | ErrURIMismatch
  | ErrAccessTokenMismatch
  | ErrNonceMismatch
  | ErrUnsupportedKey
  | ErrMarshal
  | ErrSign
  | ErrNilRequest

abbreviation AlgES256 :: bytes where "AlgES256 \<equiv> ''ES256''"
abbreviation AlgES384 :: bytes where "AlgES384 \<equiv> ''ES384''"
abbreviation AlgEdDSA :: bytes where "AlgEdDSA \<equiv> ''EdDSA''"
abbreviation AlgRS256 :: bytes where "AlgRS256 \<equiv> ''RS256''"
abbreviation AlgPS256 :: bytes where "AlgPS256 \<equiv> ''PS256''"

record JWK =
  jwk_Kty :: bytes
  jwk_Crv :: bytes
  jwk_X :: bytes
  jwk_Y :: bytes
  jwk_N :: bytes
  jwk_E :: bytes
  jwk_Alg :: bytes
  jwk_Kid :: bytes

definition zero_jwk :: JWK where
  "zero_jwk =
    \<lparr>jwk_Kty = [], jwk_Crv = [], jwk_X = [], jwk_Y = [], jwk_N = [], jwk_E = [], jwk_Alg = [], jwk_Kid = []\<rparr>"

datatype pub_key =
    NilPub
  | EcdsaPub "(curve \<times> nat \<times> nat) option"
  | Ed25519Pub bytes
  | RsaPub "(nat \<times> int) option"
  | OtherPub

abbreviation b64url :: "bytes \<Rightarrow> bytes" where "b64url \<equiv> EncodeToString RawURLEncoding"

definition ec_jwk :: "bytes \<Rightarrow> nat \<Rightarrow> nat \<Rightarrow> nat \<Rightarrow> JWK option" where
  "ec_jwk crv byteLen x y =
    (case (FillBytes byteLen x, FillBytes byteLen y) of
       (Some xBuf, Some yBuf) \<Rightarrow> Some (zero_jwk\<lparr>jwk_Kty := ''EC'', jwk_Crv := crv, jwk_X := b64url xBuf, jwk_Y := b64url yBuf\<rparr>)
     | _ \<Rightarrow> None)"

fun PublicKeyToJWK :: "pub_key \<Rightarrow> (dpop_error + JWK \<times> bytes) option" where
  "PublicKeyToJWK (EcdsaPub None) = None"
| "PublicKeyToJWK (EcdsaPub (Some (crv, x, y))) =
    (case crv of
       P256 \<Rightarrow> map_option (\<lambda>j. Inr (j, AlgES256)) (ec_jwk ''P-256'' 32 x y)
     | P384 \<Rightarrow> map_option (\<lambda>j. Inr (j, AlgES384)) (ec_jwk ''P-384'' 48 x y)
     | OtherCurve \<Rightarrow> Some (Inl ErrUnsupportedKey))"
| "PublicKeyToJWK (Ed25519Pub k) =
    Some (if length k \<noteq> 32 then Inl ErrUnsupportedKey
          else Inr (zero_jwk\<lparr>jwk_Kty := ''OKP'', jwk_Crv := ''Ed25519'', jwk_X := b64url k\<rparr>, AlgEdDSA))"
| "PublicKeyToJWK (RsaPub None) = None"
| "PublicKeyToJWK (RsaPub (Some (n, e))) =
    Some (Inr (zero_jwk\<lparr>jwk_Kty := ''RSA'', jwk_N := b64url (Big_Bytes n), jwk_E := b64url (Big_Bytes (nat \<bar>e\<bar>))\<rparr>, AlgRS256))"
| "PublicKeyToJWK NilPub = Some (Inl ErrUnsupportedKey)"
| "PublicKeyToJWK OtherPub = Some (Inl ErrUnsupportedKey)"

definition curve_params :: "bytes \<Rightarrow> (curve \<times> nat) option" where
  "curve_params crv = (if crv = ''P-256'' then Some (P256, 32) else if crv = ''P-384'' then Some (P384, 48) else None)"

definition ec_key :: "JWK \<Rightarrow> dpop_error + pub_key" where
  "ec_key jwk =
    (case curve_params (jwk_Crv jwk) of
       None \<Rightarrow> Inl ErrUnsupportedKey
     | Some (crv, expectedLen) \<Rightarrow>
         (case DecodeString RawURLEncoding (jwk_X jwk) of
            None \<Rightarrow> Inl ErrInvalidHeader
          | Some xBytes \<Rightarrow>
              if length xBytes \<noteq> expectedLen then Inl ErrInvalidHeader
              else
               (case DecodeString RawURLEncoding (jwk_Y jwk) of
                  None \<Rightarrow> Inl ErrInvalidHeader
                | Some yBytes \<Rightarrow>
                    if length yBytes \<noteq> expectedLen then Inl ErrInvalidHeader
                    else Inr (EcdsaPub (Some (crv, SetBytes xBytes, SetBytes yBytes))))))"

definition okp_key :: "JWK \<Rightarrow> dpop_error + pub_key" where
  "okp_key jwk =
    (if jwk_Crv jwk \<noteq> ''Ed25519'' then Inl ErrUnsupportedKey
     else case DecodeString RawURLEncoding (jwk_X jwk) of
            None \<Rightarrow> Inl ErrInvalidHeader
          | Some pubBytes \<Rightarrow> if length pubBytes \<noteq> 32 then Inl ErrInvalidHeader else Inr (Ed25519Pub pubBytes))"

definition rsa_key :: "JWK \<Rightarrow> dpop_error + pub_key" where
  "rsa_key jwk =
    (case DecodeString RawURLEncoding (jwk_N jwk) of
       None \<Rightarrow> Inl ErrInvalidHeader
     | Some nBytes \<Rightarrow>
         if length nBytes = 0 then Inl ErrInvalidHeader
         else
          (case DecodeString RawURLEncoding (jwk_E jwk) of
             None \<Rightarrow> Inl ErrInvalidHeader
           | Some eBytes \<Rightarrow>
               if length eBytes = 0 then Inl ErrInvalidHeader
               else Inr (RsaPub (Some (SetBytes nBytes, wrap64 (int (SetBytes eBytes)))))))"

definition JWKToPublicKey :: "JWK option \<Rightarrow> dpop_error + pub_key" where
  "JWKToPublicKey jwk =
    (case jwk of
       None \<Rightarrow> Inl ErrInvalidHeader
     | Some j \<Rightarrow>
         if jwk_Kty j = ''EC'' then ec_key j
         else if jwk_Kty j = ''OKP'' then okp_key j
         else if jwk_Kty j = ''RSA'' then rsa_key j
         else Inl ErrUnsupportedKey)"

abbreviation dq :: bytes where "dq \<equiv> [CHR 0x22]"

definition json_member :: "bytes \<Rightarrow> bytes \<Rightarrow> bytes" where
  "json_member k v = dq @ k @ dq @ '':'' @ dq @ v @ dq"

definition canonicalJSON :: "JWK \<Rightarrow> bytes option" where
  "canonicalJSON j =
    (if jwk_Kty j = ''EC'' then
       Some (''{'' @ json_member ''crv'' (jwk_Crv j) @ '','' @ json_member ''kty'' ''EC'' @ '','' @ json_member ''x'' (jwk_X j) @ '','' @
             json_member ''y'' (jwk_Y j) @ ''}'')
     else if jwk_Kty j = ''OKP'' then
       Some (''{'' @ json_member ''crv'' (jwk_Crv j) @ '','' @ json_member ''kty'' ''OKP'' @ '','' @ json_member ''x'' (jwk_X j) @ ''}'')
     else if jwk_Kty j = ''RSA'' then
       Some (''{'' @ json_member ''e'' (jwk_E j) @ '','' @ json_member ''kty'' ''RSA'' @ '','' @ json_member ''n'' (jwk_N j) @ ''}'')
     else None)"

definition ComputeThumbprint :: "(bytes \<Rightarrow> bytes) \<Rightarrow> JWK option \<Rightarrow> dpop_error + bytes" where
  "ComputeThumbprint sha jwk =
    (case jwk of
       None \<Rightarrow> Inl ErrInvalidHeader
     | Some j \<Rightarrow> (case canonicalJSON j of None \<Rightarrow> Inl ErrUnsupportedKey | Some t \<Rightarrow> Inr (b64url (sha t))))"

section \<open>Lemmas\<close>

text \<open>The keys that occur: coordinates that fit are checked by the conversion itself.\<close>

fun proper_key :: "pub_key \<Rightarrow> bool" where
  "proper_key (RsaPub (Some (n, e))) = (0 < n \<and> 0 < e \<and> e < 2 ^ 63)"
| "proper_key k = True"

lemma ec_jwk_facts:
  assumes "ec_jwk crv n x y = Some j"
  shows "\<exists>xb yb. FillBytes n x = Some xb \<and> FillBytes n y = Some yb \<and>
    j = zero_jwk\<lparr>jwk_Kty := ''EC'', jwk_Crv := crv, jwk_X := b64url xb, jwk_Y := b64url yb\<rparr>"
  using assms by (auto simp: ec_jwk_def split: option.splits)

lemma ec_key_roundtrip:
  assumes "ec_jwk crv n x y = Some j" and "curve_params crv = Some (c, n)"
  shows "JWKToPublicKey (Some j) = Inr (EcdsaPub (Some (c, x, y)))"
proof -
  obtain xb yb where f: "FillBytes n x = Some xb" "FillBytes n y = Some yb"
    and j: "j = zero_jwk\<lparr>jwk_Kty := ''EC'', jwk_Crv := crv, jwk_X := b64url xb, jwk_Y := b64url yb\<rparr>"
    using ec_jwk_facts [OF assms(1)] by blast
  show ?thesis
    using SetBytes_FillBytes [OF f(1)] SetBytes_FillBytes [OF f(2)] assms(2) by (simp add: j JWKToPublicKey_def ec_key_def RawURL_roundtrip)
qed

lemma jwk_back:
  assumes "PublicKeyToJWK k = Some (Inr (j, alg))" and "proper_key k"
  shows "JWKToPublicKey (Some j) = Inr k"
  using assms
proof (cases k rule: PublicKeyToJWK.cases)
  case (2 crv x y)
  then show ?thesis using assms(1) ec_key_roundtrip [of "''P-256''" 32 x y j P256] ec_key_roundtrip [of "''P-384''" 48 x y j P384]
    by (cases crv) (auto simp: curve_params_def)
next
  case (3 b)
  then show ?thesis using assms(1) by (auto simp: JWKToPublicKey_def okp_key_def RawURL_roundtrip split: if_splits)
next
  case (5 n e)
  then have "Big_Bytes n \<noteq> []" "Big_Bytes (nat e) \<noteq> []" "wrap64 e = e" using assms(2) by (simp_all add: Big_Bytes_not_Nil wrap64_id)
  then show ?thesis using 5 assms by (auto simp: JWKToPublicKey_def rsa_key_def RawURL_roundtrip)
qed auto

lemma split_at_char: "c \<notin> set a \<Longrightarrow> c \<notin> set b \<Longrightarrow> a @ c # s = b @ c # t \<longleftrightarrow> a = b \<and> s = t"
proof (induction a arbitrary: b)
  case Nil
  then show ?case by (cases b) auto
next
  case (Cons x a)
  then show ?case by (cases b) auto
qed

lemma b64url_plain: "CHR 0x22 \<notin> set (b64url b)"
proof -
  have "CHR 0x22 \<notin> set alphabet_url" by (simp add: alphabet_url_def)
  then show ?thesis using EncodeToString_chars [OF RawURL_simps(3,2), of b] by auto
qed

text \<open>A field that ends at its closing quote can be read off the text.\<close>

lemma member_inject:
  "CHR 0x22 \<notin> set v \<Longrightarrow> CHR 0x22 \<notin> set w \<Longrightarrow> json_member k v @ s = json_member k w @ t \<longleftrightarrow> v = w \<and> s = t"
  using split_at_char [of "CHR 0x22" v w s t] by (simp add: json_member_def)

lemma member_eq: "json_member k v = json_member k w \<longleftrightarrow> v = w"
  by (simp add: json_member_def)

lemma jwk_fields:
  assumes "PublicKeyToJWK k = Some (Inr (j, alg))"
  shows "jwk_Kty j \<in> {''EC'', ''OKP'', ''RSA''}" and "list_all (\<lambda>f. CHR 0x22 \<notin> set f) [jwk_Crv j, jwk_X j, jwk_Y j, jwk_N j, jwk_E j]"
    and "jwk_Alg j = [] \<and> jwk_Kid j = []" and "jwk_Kty j = ''RSA'' \<Longrightarrow> jwk_Crv j = [] \<and> jwk_X j = [] \<and> jwk_Y j = []"
    and "jwk_Kty j = ''OKP'' \<Longrightarrow> jwk_Y j = [] \<and> jwk_N j = [] \<and> jwk_E j = []" and "jwk_Kty j = ''EC'' \<Longrightarrow> jwk_N j = [] \<and> jwk_E j = []"
  using assms by (cases k rule: PublicKeyToJWK.cases; force simp: zero_jwk_def b64url_plain split: curve.splits if_splits dest!: ec_jwk_facts)+

lemma canonical_inject:
  assumes j: "PublicKeyToJWK k = Some (Inr (j, alg))" and j': "PublicKeyToJWK k' = Some (Inr (j', alg'))"
    and "canonicalJSON j = canonicalJSON j'"
  shows "j = j'"
proof -
  note f = jwk_fields [OF j] and f' = jwk_fields [OF j']
  have ne: "json_member ''crv'' a @ s \<noteq> json_member ''e'' b @ t" for a b s t by (simp add: json_member_def)
  have eq: "jwk_Kty j = jwk_Kty j' \<and> jwk_Crv j = jwk_Crv j' \<and> jwk_X j = jwk_X j' \<and> jwk_Y j = jwk_Y j' \<and> jwk_N j = jwk_N j' \<and> jwk_E j = jwk_E j'"
    using f f' assms(3) ne ne [symmetric] by (auto simp: canonicalJSON_def member_inject member_eq)
  then show ?thesis using f(3) f'(3) by simp
qed

section \<open>Properties\<close>

text \<open>A public key survives its JSON Web Key.  Whenever a proper key is converted, converting the result back gives the same
  key; and two keys have the same thumbprint only if they are the same key or the hash function collides on their
  canonical texts.\<close>
theorem jwk_identifies_key:
  assumes "PublicKeyToJWK k = Some (Inr (j, alg))" and "proper_key k"
    and "PublicKeyToJWK k' = Some (Inr (j', alg'))" and "proper_key k'"
  shows "JWKToPublicKey (Some j) = Inr k \<and> (\<exists>t. ComputeThumbprint sha (Some j) = Inr t) \<and>
    (ComputeThumbprint sha (Some j) = ComputeThumbprint sha (Some j') \<longrightarrow>
      k = k' \<or> (\<exists>s s'. canonicalJSON j = Some s \<and> canonicalJSON j' = Some s' \<and> s \<noteq> s' \<and> sha s = sha s'))"
proof -
  obtain s s' where s: "canonicalJSON j = Some s" "canonicalJSON j' = Some s'"
    using jwk_fields(1) [OF assms(1)] jwk_fields(1) [OF assms(3)] by (auto simp: canonicalJSON_def)
  have "k = k'" if "s = s'"
    using canonical_inject [OF assms(1,3)] s that jwk_back [OF assms(1,2)] jwk_back [OF assms(3,4)] by simp
  then show ?thesis using s jwk_back [OF assms(1,2)] by (auto simp: ComputeThumbprint_def RawURL_inject)
qed

theorem jwk_identifies_key_witness:
  "\<exists>j. PublicKeyToJWK (EcdsaPub (Some (P256, 5, 7))) = Some (Inr (j, AlgES256)) \<and> JWKToPublicKey (Some j) = Inr (EcdsaPub (Some (P256, 5, 7)))"
proof -
  let ?k = "EcdsaPub (Some (P256, 5, 7))"
  obtain j where j: "PublicKeyToJWK ?k = Some (Inr (j, AlgES256))" by (auto simp: ec_jwk_def FillBytes_def)
  have "proper_key ?k" by simp
  from jwk_identifies_key [OF j this j this] j show ?thesis by blast
qed

end
