(* ===== verification/DPoP_Proof.thy ===== *)
theory DPoP_Proof
  imports DPoP_Jwk Go_Clock Go_Strconv Go_Text Go_Utf8
begin

text \<open>
  Package \<^verbatim>\<open>dpop\<close>, files \<^verbatim>\<open>src/auth/dpop/proof.go\<close> and \<^verbatim>\<open>verify.go\<close>: making and checking proofs of possession.  The
  signature primitives are the record \<open>jws\<close>, the JSON texts of the two structures the record \<open>jose_json\<close>, the
  parser and printer of URLs the record \<open>net_url\<close>; clock and randomness are arguments.  A result of \<open>None\<close> is a panic.
\<close>

section \<open>types.go\<close>

abbreviation TypeDPoPJWT :: bytes where "TypeDPoPJWT \<equiv> ''dpop+jwt''"
abbreviation SchemeDPoP :: bytes where "SchemeDPoP \<equiv> ''DPoP''"

record ProofHeader =
  ph_Typ :: bytes
  ph_Alg :: bytes
  ph_JWK :: "JWK option"

record ProofClaims =
  cl_JTI :: bytes
  cl_HTM :: bytes
  cl_HTU :: bytes
  cl_IAT :: int
  cl_Nonce :: bytes
  cl_ATH :: bytes

record ProofOptions =
  po_Nonce :: bytes
  po_AccessToken :: bytes
  po_CustomJTI :: bytes
  po_IAT :: gotime

record VerifierConfig =
  vc_ExpectedMethod :: bytes
  vc_ExpectedURI :: bytes
  vc_AccessToken :: bytes
  vc_ExpectedNonce :: bytes
  vc_MaxAge :: int
  vc_AllowedClockSkew :: int

section \<open>Parameters\<close>

record jws =
  jc_sha256 :: "bytes \<Rightarrow> bytes"
  jc_sha384 :: "bytes \<Rightarrow> bytes"
  jc_ec_sign :: "nat \<Rightarrow> curve \<times> nat \<times> nat \<times> nat \<Rightarrow> bytes \<Rightarrow> (nat \<times> nat) option"
  jc_ec_verify :: "curve \<times> nat \<times> nat \<Rightarrow> bytes \<Rightarrow> nat \<Rightarrow> nat \<Rightarrow> bool"
  jc_ed_sign :: "bytes \<Rightarrow> bytes \<Rightarrow> bytes"
  jc_ed_verify :: "bytes \<Rightarrow> bytes \<Rightarrow> bytes \<Rightarrow> bool"
  jc_pkcs_sign :: "nat \<Rightarrow> nat \<times> int \<times> nat \<Rightarrow> bytes \<Rightarrow> bytes option"
  jc_pkcs_verify :: "nat \<times> int \<Rightarrow> bytes \<Rightarrow> bytes \<Rightarrow> bool"
  jc_pss_sign :: "nat \<Rightarrow> nat \<times> int \<times> nat \<Rightarrow> bytes \<Rightarrow> bytes option"
  jc_pss_verify :: "nat \<times> int \<Rightarrow> bytes \<Rightarrow> bytes \<Rightarrow> bool"

record jose_json =
  js_header :: "ProofHeader \<Rightarrow> bytes option"
  js_read_header :: "bytes \<Rightarrow> ProofHeader option"
  js_claims :: "ProofClaims \<Rightarrow> bytes option"
  js_read_claims :: "bytes \<Rightarrow> ProofClaims option"

text \<open>A URL is the record \<open>url\<close> with some further fields.\<close>

record 'z net_url =
  nu_Parse :: "bytes \<Rightarrow> 'z url_scheme option"
  nu_String :: "'z url_scheme \<Rightarrow> bytes"
  nu_RequestURI :: "'z url_scheme \<Rightarrow> bytes"

datatype priv_key =
    NilPriv
  | EcdsaPriv "(curve \<times> nat \<times> nat \<times> nat) option"
  | Ed25519Priv bytes
  | RsaPriv "(nat \<times> int \<times> nat) option"
  | OtherSigner pub_key
  | OtherPriv

section \<open>proof.go\<close>

definition ComputeAccessTokenHash :: "jws \<Rightarrow> bytes \<Rightarrow> bytes" where
  "ComputeAccessTokenHash C accessToken = b64url (jc_sha256 C accessToken)"

definition NormalizeTargetURI :: "unicode \<Rightarrow> 'z net_url \<Rightarrow> bytes \<Rightarrow> dpop_error + bytes" where
  "NormalizeTargetURI U N rawURI =
    (if rawURI = [] then Inl ErrInvalidClaims
     else case nu_Parse N rawURI of
            None \<Rightarrow> Inl ErrInvalidClaims
          | Some u \<Rightarrow>
              (let u = u\<lparr>u_RawQuery := [], u_Fragment := [], u_Scheme := ToLower U (u_Scheme u)\<rparr>;
                   u = (if u_Path u = [] then u\<lparr>u_Path := ''/''\<rparr> else u)
               in Inr (nu_String N u)))"

text \<open>\<open>rd\<close> is what the read of 18 random bytes returns.\<close>

definition GenerateJTI :: "bytes option \<Rightarrow> gotime \<Rightarrow> bytes" where
  "GenerateJTI rd now = (case rd of None \<Rightarrow> ''jti-'' @ FormatInt (UnixNano now) | Some b \<Rightarrow> b64url b)"

text \<open>\<^verbatim>\<open>ed25519.PrivateKey.Public\<close> copies the second half of the key.\<close>

definition ed_public :: "bytes \<Rightarrow> bytes option" where
  "ed_public k = (if length k < 32 then None else Some (let p = take 32 (drop 32 k) in p @ replicate (32 - length p) (byte_of 0)))"

fun extractPublicKey :: "priv_key \<Rightarrow> pub_key option" where
  "extractPublicKey (EcdsaPriv None) = None"
| "extractPublicKey (EcdsaPriv (Some (crv, x, y, d))) = Some (EcdsaPub (Some (crv, x, y)))"
| "extractPublicKey (Ed25519Priv k) = map_option Ed25519Pub (ed_public k)"
| "extractPublicKey (RsaPriv None) = None"
| "extractPublicKey (RsaPriv (Some (n, e, d))) = Some (RsaPub (Some (n, e)))"
| "extractPublicKey (OtherSigner p) = Some p"
| "extractPublicKey OtherPriv = Some NilPub"
| "extractPublicKey NilPriv = Some NilPub"

definition ec_signature :: "jws \<Rightarrow> nat \<Rightarrow> curve \<times> nat \<times> nat \<times> nat \<Rightarrow> bytes \<Rightarrow> nat \<Rightarrow> (dpop_error + bytes) option" where
  "ec_signature C rnd k h n =
    (case jc_ec_sign C rnd k h of
       None \<Rightarrow> Some (Inl ErrSign)
     | Some (r, s) \<Rightarrow> (case (FillBytes n r, FillBytes n s) of (Some rb, Some sb) \<Rightarrow> Some (Inr (rb @ sb)) | _ \<Rightarrow> None))"

abbreviation sign_result :: "bytes option \<Rightarrow> (dpop_error + bytes) option" where
  "sign_result r \<equiv> Some (case r of None \<Rightarrow> Inl ErrSign | Some sig \<Rightarrow> Inr sig)"

fun signJWS :: "jws \<Rightarrow> nat \<Rightarrow> priv_key \<Rightarrow> bytes \<Rightarrow> bytes \<Rightarrow> (dpop_error + bytes) option" where
  "signJWS C rnd (EcdsaPriv k) alg input =
    (if alg = AlgES256 then (case k of None \<Rightarrow> None | Some k \<Rightarrow> ec_signature C rnd k (jc_sha256 C input) 32)
     else if alg = AlgES384 then (case k of None \<Rightarrow> None | Some k \<Rightarrow> ec_signature C rnd k (jc_sha384 C input) 48)
     else Some (Inl ErrUnsupportedKey))"
| "signJWS C rnd (Ed25519Priv k) alg input = (if length k \<noteq> 64 then None else Some (Inr (jc_ed_sign C k input)))"
| "signJWS C rnd (RsaPriv k) alg input =
    (if alg = AlgRS256 then (case k of None \<Rightarrow> None | Some k \<Rightarrow> sign_result (jc_pkcs_sign C rnd k (jc_sha256 C input)))
     else if alg = AlgPS256 then (case k of None \<Rightarrow> None | Some k \<Rightarrow> sign_result (jc_pss_sign C rnd k (jc_sha256 C input)))
     else Some (Inl ErrUnsupportedKey))"
| "signJWS C rnd k alg input = Some (Inl ErrUnsupportedKey)"

definition proof_claims :: "jws \<Rightarrow> unicode \<Rightarrow> bytes option \<Rightarrow> gotime \<Rightarrow> bytes \<Rightarrow> bytes \<Rightarrow> ProofOptions \<Rightarrow> ProofClaims" where
  "proof_claims C U rd now method normURI opt =
    \<lparr>cl_JTI = (if po_CustomJTI opt = [] then GenerateJTI rd now else po_CustomJTI opt),
     cl_HTM = ToUpper U (TrimSpace method), cl_HTU = normURI,
     cl_IAT = Time_Unix (if Time_IsZero (po_IAT opt) then now else po_IAT opt), cl_Nonce = po_Nonce opt,
     cl_ATH = (if po_AccessToken opt \<noteq> [] then ComputeAccessTokenHash C (po_AccessToken opt) else [])\<rparr>"

definition zero_options :: ProofOptions where
  "zero_options = \<lparr>po_Nonce = [], po_AccessToken = [], po_CustomJTI = [], po_IAT = \<lparr>t_sec = 0, t_nsec = 0\<rparr>\<rparr>"

definition sign_proof ::
  "jws \<Rightarrow> jose_json \<Rightarrow> nat \<Rightarrow> priv_key \<Rightarrow> bytes \<Rightarrow> ProofClaims \<Rightarrow> bytes \<Rightarrow> (dpop_error + bytes) option" where
  "sign_proof C J rnd privKey alg claims headerJSON =
    (case js_claims J claims of
       None \<Rightarrow> Some (Inl ErrMarshal)
     | Some claimsJSON \<Rightarrow>
         (let signingInput = b64url headerJSON @ ''.'' @ b64url claimsJSON
          in case signJWS C rnd privKey alg signingInput of
               None \<Rightarrow> None
             | Some (Inl err) \<Rightarrow> Some (Inl err)
             | Some (Inr sigBytes) \<Rightarrow> Some (Inr (signingInput @ ''.'' @ b64url sigBytes))))"

definition CreateProof ::
  "jws \<Rightarrow> jose_json \<Rightarrow> unicode \<Rightarrow> 'z net_url \<Rightarrow> nat \<Rightarrow> bytes option \<Rightarrow> gotime \<Rightarrow> priv_key \<Rightarrow> bytes \<Rightarrow> bytes \<Rightarrow> ProofOptions list \<Rightarrow>
     (dpop_error + bytes) option" where
  "CreateProof C J U N rnd rd now privKey method targetURI opts =
    (if privKey = NilPriv then Some (Inl ErrUnsupportedKey)
     else
      (let opt = (if length opts > 0 then opts ! 0 else zero_options) in
       case extractPublicKey privKey of
         None \<Rightarrow> None
       | Some pubKey \<Rightarrow>
           if pubKey = NilPub then Some (Inl ErrUnsupportedKey)
           else
            (case PublicKeyToJWK pubKey of
               None \<Rightarrow> None
             | Some (Inl err) \<Rightarrow> Some (Inl err)
             | Some (Inr (jwk, defaultAlg)) \<Rightarrow>
                 (case js_header J \<lparr>ph_Typ = TypeDPoPJWT, ph_Alg = defaultAlg, ph_JWK = Some jwk\<rparr> of
                    None \<Rightarrow> Some (Inl ErrMarshal)
                  | Some headerJSON \<Rightarrow>
                      (case NormalizeTargetURI U N targetURI of
                         Inl err \<Rightarrow> Some (Inl err)
                       | Inr normURI \<Rightarrow>
                           sign_proof C J rnd privKey defaultAlg (proof_claims C U rd now method normURI opt) headerJSON)))))"

record 'z dpop_request =
  dr_Method :: bytes
  dr_URL :: "'z url_scheme option"
  dr_Host :: bytes
  dr_TLS :: bool
  dr_Header :: http_header

definition request_target :: "'z net_url \<Rightarrow> bytes \<Rightarrow> bool \<Rightarrow> 'z url_scheme \<Rightarrow> bytes" where
  "request_target N host tls u =
    (if u_Scheme u \<noteq> [] then nu_String N u
     else if host \<noteq> [] then (if tls then ''https'' else ''http'') @ ''://'' @ host @ nu_RequestURI N u
     else nu_String N u)"

definition CreateProofForRequest ::
  "jws \<Rightarrow> jose_json \<Rightarrow> unicode \<Rightarrow> 'z net_url \<Rightarrow> nat \<Rightarrow> bytes option \<Rightarrow> gotime \<Rightarrow> 'z dpop_request option \<Rightarrow> priv_key \<Rightarrow>
     ProofOptions list \<Rightarrow> (dpop_error + bytes) option" where
  "CreateProofForRequest C J U N rnd rd now req privKey opts =
    (case req of
       None \<Rightarrow> Some (Inl ErrNilRequest)
     | Some req \<Rightarrow>
         (let targetURL = (case dr_URL req of None \<Rightarrow> [] | Some u \<Rightarrow> request_target N (dr_Host req) (dr_TLS req) u)
          in CreateProof C J U N rnd rd now privKey (dr_Method req) targetURL opts))"

section \<open>verify.go\<close>

definition ec_check :: "jws \<Rightarrow> (curve \<times> nat \<times> nat) option \<Rightarrow> bytes \<Rightarrow> bytes \<Rightarrow> nat \<Rightarrow> dpop_error option option" where
  "ec_check C k h sig n =
    (if length sig \<noteq> 2 * n then Some (Some ErrInvalidSignature)
     else case k of
            None \<Rightarrow> None
          | Some k \<Rightarrow>
              Some (if jc_ec_verify C k h (SetBytes (take n sig)) (SetBytes (drop n sig)) then None else Some ErrInvalidSignature))"

definition rsa_check :: "(nat \<times> int \<Rightarrow> bytes \<Rightarrow> bytes \<Rightarrow> bool) \<Rightarrow> (nat \<times> int) option \<Rightarrow> bytes \<Rightarrow> bytes \<Rightarrow> dpop_error option option" where
  "rsa_check vf k h sig = (case k of None \<Rightarrow> None | Some k \<Rightarrow> Some (if vf k h sig then None else Some ErrInvalidSignature))"

text \<open>The result is \<open>Some None\<close> when the signature is accepted.\<close>

fun verifyJWSSignature :: "jws \<Rightarrow> pub_key \<Rightarrow> bytes \<Rightarrow> bytes \<Rightarrow> bytes \<Rightarrow> dpop_error option option" where
  "verifyJWSSignature C (EcdsaPub k) alg input sig =
    (if alg = AlgES256 then ec_check C k (jc_sha256 C input) sig 32
     else if alg = AlgES384 then ec_check C k (jc_sha384 C input) sig 48
     else Some (Some ErrUnsupportedKey))"
| "verifyJWSSignature C (Ed25519Pub k) alg input sig =
    Some (if length sig \<noteq> 64 then Some ErrInvalidSignature
          else if \<not> jc_ed_verify C k input sig then Some ErrInvalidSignature else None)"
| "verifyJWSSignature C (RsaPub k) alg input sig =
    (if alg = AlgRS256 then rsa_check (jc_pkcs_verify C) k (jc_sha256 C input) sig
     else if alg = AlgPS256 then rsa_check (jc_pss_verify C) k (jc_sha256 C input) sig
     else Some (Some ErrUnsupportedKey))"
| "verifyJWSSignature C k alg input sig = Some (Some ErrUnsupportedKey)"

definition read_header :: "jose_json \<Rightarrow> unicode \<Rightarrow> bytes \<Rightarrow> dpop_error + (ProofHeader \<times> JWK)" where
  "read_header J U headerB64 =
    (case DecodeString RawURLEncoding headerB64 of
       None \<Rightarrow> Inl ErrInvalidHeader
     | Some headerBytes \<Rightarrow>
         (case js_read_header J headerBytes of
            None \<Rightarrow> Inl ErrInvalidHeader
          | Some header \<Rightarrow>
              if \<not> EqualFold (ph_Typ header) TypeDPoPJWT then Inl ErrInvalidHeader
              else
               (case ph_JWK header of
                  None \<Rightarrow> Inl ErrInvalidHeader
                | Some jwk \<Rightarrow>
                    if EqualFold (ph_Alg header) ''none'' \<or> prefix ''HS'' (ToUpper U (ph_Alg header)) then Inl ErrUnsupportedKey
                    else Inr (header, jwk))))"

definition check_uri :: "unicode \<Rightarrow> 'z net_url \<Rightarrow> VerifierConfig \<Rightarrow> ProofClaims \<Rightarrow> dpop_error option" where
  "check_uri U N cfg claims =
    (if vc_ExpectedURI cfg = [] then None
     else case NormalizeTargetURI U N (vc_ExpectedURI cfg) of
            Inl err \<Rightarrow> Some err
          | Inr expectedNorm \<Rightarrow> if cl_HTU claims \<noteq> expectedNorm then Some ErrURIMismatch else None)"

definition dp_skew :: "VerifierConfig \<Rightarrow> int" where
  "dp_skew cfg = (if vc_AllowedClockSkew cfg \<le> 0 then Minute else vc_AllowedClockSkew cfg)"

definition dp_maxAge :: "VerifierConfig \<Rightarrow> int" where
  "dp_maxAge cfg = (if vc_MaxAge cfg \<le> 0 then 5 * Minute else vc_MaxAge cfg)"

definition check_iat :: "gotime \<Rightarrow> VerifierConfig \<Rightarrow> ProofClaims \<Rightarrow> dpop_error option" where
  "check_iat now cfg claims =
    (let iatTime = time_Unix (cl_IAT claims) in
     if Time_After iatTime (Time_Add now (dp_skew cfg)) then Some ErrProofInFuture
     else if Time_Sub now iatTime > wrap64 (dp_maxAge cfg + dp_skew cfg) then Some ErrProofExpired
     else None)"

definition check_claims :: "jws \<Rightarrow> unicode \<Rightarrow> 'z net_url \<Rightarrow> gotime \<Rightarrow> VerifierConfig \<Rightarrow> ProofClaims \<Rightarrow> dpop_error option" where
  "check_claims C U N now cfg claims =
    (if cl_JTI claims = [] then Some ErrInvalidClaims
     else if vc_ExpectedMethod cfg \<noteq> [] \<and> \<not> EqualFoldU U (cl_HTM claims) (vc_ExpectedMethod cfg) then Some ErrMethodMismatch
     else
      (case check_uri U N cfg claims of
         Some err \<Rightarrow> Some err
       | None \<Rightarrow>
           (case check_iat now cfg claims of
              Some err \<Rightarrow> Some err
            | None \<Rightarrow>
                if vc_AccessToken cfg \<noteq> [] \<and> cl_ATH claims \<noteq> ComputeAccessTokenHash C (vc_AccessToken cfg) then Some ErrAccessTokenMismatch
                else if vc_ExpectedNonce cfg \<noteq> [] \<and> cl_Nonce claims \<noteq> vc_ExpectedNonce cfg then Some ErrNonceMismatch
                else None)))"

definition read_claims :: "jose_json \<Rightarrow> bytes \<Rightarrow> dpop_error + ProofClaims" where
  "read_claims J claimsB64 =
    (case DecodeString RawURLEncoding claimsB64 of
       None \<Rightarrow> Inl ErrInvalidClaims
     | Some claimsBytes \<Rightarrow> (case js_read_claims J claimsBytes of None \<Rightarrow> Inl ErrInvalidClaims | Some claims \<Rightarrow> Inr claims))"

definition verify_parts ::
  "jws \<Rightarrow> jose_json \<Rightarrow> unicode \<Rightarrow> 'z net_url \<Rightarrow> gotime \<Rightarrow> VerifierConfig \<Rightarrow> bytes \<Rightarrow> bytes \<Rightarrow> bytes \<Rightarrow> (dpop_error + ProofClaims \<times> JWK) option" where
  "verify_parts C J U N now cfg headerB64 claimsB64 sigB64 =
    (case read_header J U headerB64 of
       Inl err \<Rightarrow> Some (Inl err)
     | Inr (header, jwk) \<Rightarrow>
         (case JWKToPublicKey (Some jwk) of
            Inl err \<Rightarrow> Some (Inl err)
          | Inr pubKey \<Rightarrow>
              (case DecodeString RawURLEncoding sigB64 of
                 None \<Rightarrow> Some (Inl ErrInvalidSignature)
               | Some sigBytes \<Rightarrow>
                   (case verifyJWSSignature C pubKey (ph_Alg header) (headerB64 @ ''.'' @ claimsB64) sigBytes of
                      None \<Rightarrow> None
                    | Some (Some err) \<Rightarrow> Some (Inl err)
                    | Some None \<Rightarrow>
                        (case read_claims J claimsB64 of
                           Inl err \<Rightarrow> Some (Inl err)
                         | Inr claims \<Rightarrow>
                             (case check_claims C U N now cfg claims of
                                Some err \<Rightarrow> Some (Inl err)
                              | None \<Rightarrow> Some (Inr (claims, jwk))))))))"

definition VerifyProof ::
  "jws \<Rightarrow> jose_json \<Rightarrow> unicode \<Rightarrow> 'z net_url \<Rightarrow> gotime \<Rightarrow> bytes \<Rightarrow> VerifierConfig \<Rightarrow> (dpop_error + ProofClaims \<times> JWK) option" where
  "VerifyProof C J U N now proofJWT cfg =
    (let proofJWT = TrimSpace proofJWT in
     if proofJWT = [] then Some (Inl ErrInvalidDPoPProof)
     else case Split CHR ''.'' proofJWT of
            [headerB64, claimsB64, sigB64] \<Rightarrow> verify_parts C J U N now cfg headerB64 claimsB64 sigB64
          | _ \<Rightarrow> Some (Inl ErrInvalidDPoPProof))"

definition request_config :: "'z net_url \<Rightarrow> 'z dpop_request \<Rightarrow> VerifierConfig \<Rightarrow> VerifierConfig" where
  "request_config N req cfg =
    (let cfg = (if vc_ExpectedMethod cfg = [] then cfg\<lparr>vc_ExpectedMethod := dr_Method req\<rparr> else cfg);
         cfg = (case dr_URL req of
                  Some u \<Rightarrow> if vc_ExpectedURI cfg = [] then cfg\<lparr>vc_ExpectedURI := request_target N (dr_Host req) (dr_TLS req) u\<rparr> else cfg
                | None \<Rightarrow> cfg);
         authVal = Header_Get (dr_Header req) ''Authorization''
     in if vc_AccessToken cfg = [] \<and> prefix (SchemeDPoP @ '' '') authVal
        then cfg\<lparr>vc_AccessToken := TrimSpace (drop (length SchemeDPoP + 1) authVal)\<rparr> else cfg)"

definition VerifyProofForRequest ::
  "jws \<Rightarrow> jose_json \<Rightarrow> unicode \<Rightarrow> 'z net_url \<Rightarrow> gotime \<Rightarrow> 'z dpop_request option \<Rightarrow> VerifierConfig \<Rightarrow>
     (dpop_error + ProofClaims \<times> JWK) option" where
  "VerifyProofForRequest C J U N now req cfg =
    (case req of
       None \<Rightarrow> Some (Inl ErrNilRequest)
     | Some req \<Rightarrow>
         (let proofHeader = Header_Get (dr_Header req) ''DPoP'' in
          if proofHeader = [] then Some (Inl ErrInvalidDPoPProof)
          else VerifyProof C J U N now proofHeader (request_config N req cfg)))"

section \<open>What acceptance means\<close>

text \<open>The timestamp of parsed claims is an \<^verbatim>\<open>int64\<close>.\<close>

definition claims_typed :: "jose_json \<Rightarrow> bool" where
  "claims_typed J \<longleftrightarrow> (\<forall>b c. js_read_claims J b = Some c \<longrightarrow> - (2 ^ 63) \<le> cl_IAT c \<and> cl_IAT c < 2 ^ 63)"

lemma decoded_key: "JWKToPublicKey (Some j) = Inr k \<Longrightarrow> \<exists>e b r. k \<in> {EcdsaPub (Some e), Ed25519Pub b, RsaPub (Some r)}"
  by (auto simp: JWKToPublicKey_def ec_key_def okp_key_def rsa_key_def split: if_splits option.splits)

lemma verify_defined: "JWKToPublicKey (Some j) = Inr k \<Longrightarrow> verifyJWSSignature C k alg inp sig \<noteq> None"
  using decoded_key [of j k] by (auto simp: ec_check_def rsa_check_def)

lemma verify_parts_defined: "\<exists>r. verify_parts C J U N now cfg h c s = Some r"
proof -
  have "verify_parts C J U N now cfg h c s \<noteq> None"
    by (auto simp: verify_parts_def dest: verify_defined split: sum.splits option.splits)
  then show ?thesis by simp
qed

text \<open>Checking a proof never panics.\<close>

lemma VerifyProof_total: "\<exists>r. VerifyProof C J U N now p cfg = Some r"
  using verify_parts_defined [of C J U N now cfg] by (auto simp: VerifyProof_def Let_def split: list.split)

lemma check_iat_iff:
  assumes "usual_time now" and "- (2 ^ 63) \<le> cl_IAT cl" "cl_IAT cl < 2 ^ 63"
    and "vc_MaxAge cfg < 2 ^ 62 - 1" "vc_AllowedClockSkew cfg < 2 ^ 62"
  shows "check_iat now cfg cl = None \<longleftrightarrow>
    unix_ns (cl_IAT cl) \<le> t_ns now + dp_skew cfg \<and> t_ns now - unix_ns (cl_IAT cl) \<le> dp_maxAge cfg + dp_skew cfg"
proof -
  have k: "0 \<le> dp_skew cfg" "0 \<le> dp_maxAge cfg" "dp_maxAge cfg + dp_skew cfg < 2 ^ 63 - 1"
    using assms(4,5) by (auto simp: dp_skew_def dp_maxAge_def)
  then have "wrap64 (dp_maxAge cfg + dp_skew cfg) = dp_maxAge cfg + dp_skew cfg" by (intro wrap64_id) auto
  then show ?thesis unfolding recent_iff [OF assms(1-3) k, symmetric] by (simp add: check_iat_def Let_def)
qed

lemma check_claims_iff:
  "check_claims C U N now cfg cl = None \<longleftrightarrow>
    cl_JTI cl \<noteq> [] \<and> (vc_ExpectedMethod cfg \<noteq> [] \<longrightarrow> EqualFoldU U (cl_HTM cl) (vc_ExpectedMethod cfg)) \<and>
    (vc_ExpectedURI cfg \<noteq> [] \<longrightarrow> NormalizeTargetURI U N (vc_ExpectedURI cfg) = Inr (cl_HTU cl)) \<and> check_iat now cfg cl = None \<and>
    (vc_AccessToken cfg \<noteq> [] \<longrightarrow> cl_ATH cl = ComputeAccessTokenHash C (vc_AccessToken cfg)) \<and>
    (vc_ExpectedNonce cfg \<noteq> [] \<longrightarrow> cl_Nonce cl = vc_ExpectedNonce cfg)"
  by (auto simp: check_claims_def check_uri_def split: option.split sum.split)

text \<open>The shape of an accepted token.\<close>

definition accepted_token :: "jws \<Rightarrow> jose_json \<Rightarrow> unicode \<Rightarrow> bytes \<Rightarrow> ProofClaims \<Rightarrow> JWK \<Rightarrow> bool" where
  "accepted_token C J U token cl jwk \<longleftrightarrow>
    (\<exists>h c s header key sig. token = h @ ''.'' @ c @ ''.'' @ s \<and> read_header J U h = Inr (header, jwk) \<and> JWKToPublicKey (Some jwk) = Inr key \<and>
       DecodeString RawURLEncoding s = Some sig \<and> verifyJWSSignature C key (ph_Alg header) (h @ ''.'' @ c) sig = Some None \<and>
       read_claims J c = Inr cl)"

lemma verify_parts_iff:
  "verify_parts C J U N now cfg h c s = Some (Inr (cl, jwk)) \<longleftrightarrow>
    (\<exists>header key sig. read_header J U h = Inr (header, jwk) \<and> JWKToPublicKey (Some jwk) = Inr key \<and>
       DecodeString RawURLEncoding s = Some sig \<and> verifyJWSSignature C key (ph_Alg header) (h @ ''.'' @ c) sig = Some None \<and>
       read_claims J c = Inr cl) \<and> check_claims C U N now cfg cl = None"
  by (auto simp: verify_parts_def split: sum.splits option.splits)

lemma VerifyProof_accepts:
  assumes "VerifyProof C J U N now p cfg = Some (Inr (cl, jwk))"
  shows "accepted_token C J U (TrimSpace p) cl jwk" and "check_claims C U N now cfg cl = None"
proof -
  obtain h c s where sp: "Split CHR ''.'' (TrimSpace p) = [h, c, s]" and v: "verify_parts C J U N now cfg h c s = Some (Inr (cl, jwk))"
    using assms by (auto simp: VerifyProof_def Let_def split: if_splits list.splits)
  have "TrimSpace p = h @ ''.'' @ c @ ''.'' @ s" using Join_Split [of "CHR ''.''" "TrimSpace p"] by (simp add: sp)
  then show "accepted_token C J U (TrimSpace p) cl jwk" "check_claims C U N now cfg cl = None"
    using v unfolding verify_parts_iff accepted_token_def by blast+
qed

lemma accepted_typed: "claims_typed J \<Longrightarrow> accepted_token C J U t cl jwk \<Longrightarrow> - (2 ^ 63) \<le> cl_IAT cl \<and> cl_IAT cl < 2 ^ 63"
  by (auto simp: accepted_token_def read_claims_def claims_typed_def split: option.splits)

lemma request_config_fields:
  "vc_MaxAge (request_config N req cfg) = vc_MaxAge cfg" "vc_AllowedClockSkew (request_config N req cfg) = vc_AllowedClockSkew cfg"
  "vc_ExpectedNonce (request_config N req cfg) = vc_ExpectedNonce cfg"
  "vc_ExpectedMethod cfg = [] \<Longrightarrow> vc_ExpectedMethod (request_config N req cfg) = dr_Method req"
  "vc_ExpectedURI cfg = [] \<Longrightarrow> dr_URL req = Some u \<Longrightarrow> vc_ExpectedURI (request_config N req cfg) = request_target N (dr_Host req) (dr_TLS req) u"
  "vc_AccessToken cfg = [] \<Longrightarrow> Header_Get (dr_Header req) ''Authorization'' = SchemeDPoP @ '' '' @ tok \<Longrightarrow>
     vc_AccessToken (request_config N req cfg) = TrimSpace tok"
  by (auto simp: request_config_def Let_def split: option.split)

lemma request_config_window: "dp_skew (request_config N req cfg) = dp_skew cfg" "dp_maxAge (request_config N req cfg) = dp_maxAge cfg"
  by (simp_all add: dp_skew_def dp_maxAge_def request_config_fields)

section \<open>A made proof is accepted\<close>

definition header_text :: "ProofHeader \<Rightarrow> bool" where
  "header_text h \<longleftrightarrow> Valid (ph_Typ h) \<and> Valid (ph_Alg h) \<and>
    (case ph_JWK h of
       None \<Rightarrow> True
     | Some j \<Rightarrow> list_all Valid [jwk_Kty j, jwk_Crv j, jwk_X j, jwk_Y j, jwk_N j, jwk_E j, jwk_Alg j, jwk_Kid j])"

definition claims_text :: "ProofClaims \<Rightarrow> bool" where
  "claims_text c \<longleftrightarrow> list_all Valid [cl_JTI c, cl_HTM c, cl_HTU c, cl_Nonce c, cl_ATH c] \<and> - (2 ^ 63) \<le> cl_IAT c \<and> cl_IAT c < 2 ^ 63"

text \<open>Reading the JSON text of a structure with valid UTF-8 gives it back.\<close>

definition json_laws :: "jose_json \<Rightarrow> bool" where
  "json_laws J \<longleftrightarrow> (\<forall>h. header_text h \<longrightarrow> (\<exists>b. js_header J h = Some b \<and> js_read_header J b = Some h)) \<and>
    (\<forall>c. claims_text c \<longrightarrow> (\<exists>b. js_claims J c = Some b \<and> js_read_claims J b = Some c))"

text \<open>What a private key signs, its public part verifies.\<close>

fun signs_for :: "jws \<Rightarrow> priv_key \<Rightarrow> bool" where
  "signs_for C (EcdsaPriv (Some (c, x, y, d))) \<longleftrightarrow>
    (\<forall>rnd m r s. jc_ec_sign C rnd (c, x, y, d) m = Some (r, s) \<longrightarrow> jc_ec_verify C (c, x, y) m r s)"
| "signs_for C (Ed25519Priv k) \<longleftrightarrow>
    (\<forall>m. length (jc_ed_sign C k m) = 64 \<and> (\<forall>p. ed_public k = Some p \<longrightarrow> jc_ed_verify C p m (jc_ed_sign C k m)))"
| "signs_for C (RsaPriv (Some (n, e, d))) \<longleftrightarrow>
    (\<forall>rnd m sig. jc_pkcs_sign C rnd (n, e, d) m = Some sig \<longrightarrow> jc_pkcs_verify C (n, e) m sig)"
| "signs_for C k \<longleftrightarrow> True"

lemma Valid_ascii: "list_all is_ascii s \<Longrightarrow> Valid s"
  by (induction s) (simp_all add: Valid.simps is_ascii_def)

lemma url_alphabet_printable: "c \<in> set alphabet_url \<Longrightarrow> is_ascii c \<and> \<not> space_byte c \<and> c \<noteq> CHR ''.''"
proof -
  have "list_all (\<lambda>c. is_ascii c \<and> \<not> space_byte c \<and> c \<noteq> CHR ''.'') alphabet_url"
    by (simp add: alphabet_url_def is_ascii_def space_byte_def byte_eval)
  then show "c \<in> set alphabet_url \<Longrightarrow> is_ascii c \<and> \<not> space_byte c \<and> c \<noteq> CHR ''.''" by (simp add: list_all_iff)
qed

lemma b64url_facts: "list_all (\<lambda>c. \<not> space_byte c) (b64url b)" "CHR ''.'' \<notin> set (b64url b)" "Valid (b64url b)" "b \<noteq> [] \<Longrightarrow> b64url b \<noteq> []"
proof -
  have c: "set (b64url b) \<subseteq> set alphabet_url" using EncodeToString_chars [OF RawURL_simps(3,2), of b] by simp
  show "list_all (\<lambda>c. \<not> space_byte c) (b64url b)" "CHR ''.'' \<notin> set (b64url b)"
    using c url_alphabet_printable by (auto simp: list_all_iff)
  show "Valid (b64url b)" using c url_alphabet_printable by (intro Valid_ascii) (auto simp: list_all_iff)
  show "b \<noteq> [] \<Longrightarrow> b64url b \<noteq> []" using RawURL_roundtrip [of b] RawURL_roundtrip [of "[]"] by (auto simp: DecodeString_def)
qed

lemma ec_check_signed:
  assumes "ec_signature C rnd k h n = Some (Inr sig)" and "\<And>r s. jc_ec_sign C rnd k h = Some (r, s) \<Longrightarrow> jc_ec_verify C p h r s"
  shows "ec_check C (Some p) h sig n = Some None"
proof -
  obtain r s rb sb where "jc_ec_sign C rnd k h = Some (r, s)" "FillBytes n r = Some rb" "FillBytes n s = Some sb" "sig = rb @ sb"
    using assms(1) by (auto simp: ec_signature_def split: option.splits)
  then show ?thesis using assms(2) SetBytes_FillBytes [of n r rb] SetBytes_FillBytes [of n s sb] by (simp add: ec_check_def)
qed

lemma sign_verifies:
  assumes "signs_for C priv" and "signJWS C rnd priv alg inp = Some (Inr sig)"
    and "extractPublicKey priv = Some pub" and "PublicKeyToJWK pub = Some (Inr (jwk, alg))"
  shows "verifyJWSSignature C pub alg inp sig = Some None"
proof (cases priv rule: extractPublicKey.cases)
  case (2 crv x y d)
  then show ?thesis using assms ec_check_signed [of C rnd "(crv, x, y, d)" _ _ sig "(crv, x, y)"]
    by (cases crv) auto
next
  case (5 n e d)
  then show ?thesis using assms by (auto simp: rsa_check_def split: option.splits)
qed (use assms in \<open>auto split: if_splits\<close>)

lemma CreateProof_parts:
  assumes "CreateProof C J U N rnd rd now priv m uri opts = Some (Inr tok)"
  shows "\<exists>pub jwk alg hj norm cj sig. extractPublicKey priv = Some pub \<and> PublicKeyToJWK pub = Some (Inr (jwk, alg)) \<and>
    js_header J \<lparr>ph_Typ = TypeDPoPJWT, ph_Alg = alg, ph_JWK = Some jwk\<rparr> = Some hj \<and> NormalizeTargetURI U N uri = Inr norm \<and>
    js_claims J (proof_claims C U rd now m norm (if length opts > 0 then opts ! 0 else zero_options)) = Some cj \<and>
    signJWS C rnd priv alg (b64url hj @ ''.'' @ b64url cj) = Some (Inr sig) \<and>
    tok = b64url hj @ ''.'' @ b64url cj @ ''.'' @ b64url sig"
  using assms by (auto simp: CreateProof_def sign_proof_def Let_def split: if_splits option.splits sum.splits)

lemma jwk_alg_text:
  assumes "PublicKeyToJWK k = Some (Inr (j, alg))"
  shows "header_text \<lparr>ph_Typ = TypeDPoPJWT, ph_Alg = alg, ph_JWK = Some j\<rparr>" and "\<not> EqualFold alg ''none''" and "\<not> prefix ''HS'' (ToUpper U alg)"
proof -
  have v: "Valid ''dpop+jwt''" "Valid ''ES256''" "Valid ''ES384''" "Valid ''EdDSA''" "Valid ''RS256''" "Valid ''EC''" "Valid ''OKP''" "Valid ''RSA''"
    "Valid ''P-256''" "Valid ''P-384''" "Valid ''Ed25519''"
    by (rule Valid_ascii, simp add: is_ascii_def byte_eval)+
  show "header_text \<lparr>ph_Typ = TypeDPoPJWT, ph_Alg = alg, ph_JWK = Some j\<rparr>"
    using assms v by (cases k rule: PublicKeyToJWK.cases)
      (auto simp: header_text_def zero_jwk_def b64url_facts split: curve.splits if_splits dest!: ec_jwk_facts)
  have a: "alg \<in> {''ES256'', ''ES384'', ''EdDSA'', ''RS256''}"
    using assms by (cases k rule: PublicKeyToJWK.cases) (auto split: curve.splits if_splits)
  then show "\<not> EqualFold alg ''none''" by (auto simp: lower_def is_upper_def byte_eval)
  have "map upper ''ES256'' = ''ES256''" "map upper ''ES384'' = ''ES384''" "map upper ''EdDSA'' = ''EDDSA''" "map upper ''RS256'' = ''RS256''"
    by (simp_all add: upper_def is_lower_def byte_eval)
  then show "\<not> prefix ''HS'' (ToUpper U alg)" using a by (auto simp: ToUpper_def is_ascii_def byte_eval)
qed

lemma lower_upper: "lower (upper c) = lower c"
  by (auto simp: lower_def upper_def is_upper_def is_lower_def)

lemma EqualFold_upper: "EqualFold (map upper t) t"
  by (induction t) (simp_all add: lower_upper)

lemma GenerateJTI_facts: "rd = None \<or> length (the rd) = 18 \<Longrightarrow> GenerateJTI rd now \<noteq> [] \<and> Valid (GenerateJTI rd now)"
proof -
  assume a: "rd = None \<or> length (the rd) = 18"
  have "is_ascii c" if "is_digit c" for c using that by (simp add: is_ascii_def is_digit_def)
  then have "list_all is_ascii (FormatInt i)" for i
    using format_nat_digits by (auto simp: FormatInt_def list_all_iff is_ascii_def byte_eval)
  then have "Valid (''jti-'' @ FormatInt i)" for i by (intro Valid_ascii) (simp add: is_ascii_def byte_eval)
  moreover have "b64url b \<noteq> []" if "length b = 18" for b using that b64url_facts(4) [of b] by (cases b) simp_all
  ultimately show ?thesis using a by (cases rd) (simp_all add: GenerateJTI_def b64url_facts(3))
qed

lemma token_parts:
  assumes "tok = b64url a @ ''.'' @ b64url b @ ''.'' @ b64url c"
  shows "TrimSpace tok = tok" and "tok \<noteq> []" and "Split CHR ''.'' tok = [b64url a, b64url b, b64url c]"
proof -
  have "\<not> space_byte CHR ''.''" by (simp add: space_byte_def byte_eval)
  then show "TrimSpace tok = tok" using b64url_facts(1) by (intro TrimSpace_printable) (simp add: assms)
  show "tok \<noteq> []" "Split CHR ''.'' tok = [b64url a, b64url b, b64url c]"
    using b64url_facts(2) by (simp_all add: assms Split_append Split_plain)
qed

text \<open>The policy of a server that expects what the client was asked for, or nothing.\<close>

definition expects :: "bytes \<Rightarrow> bytes \<Rightarrow> ProofOptions \<Rightarrow> VerifierConfig \<Rightarrow> bool" where
  "expects m uri opt cfg \<longleftrightarrow> vc_ExpectedMethod cfg \<in> {[], m} \<and> vc_ExpectedURI cfg \<in> {[], uri} \<and>
    vc_AccessToken cfg \<in> {[], po_AccessToken opt} \<and> vc_ExpectedNonce cfg \<in> {[], po_Nonce opt} \<and>
    vc_MaxAge cfg < 2 ^ 62 - 1 \<and> vc_AllowedClockSkew cfg < 2 ^ 62"

definition issued :: "gotime \<Rightarrow> ProofOptions \<Rightarrow> gotime" where
  "issued now opt = (if Time_IsZero (po_IAT opt) then now else po_IAT opt)"

definition in_window :: "gotime \<Rightarrow> gotime \<Rightarrow> VerifierConfig \<Rightarrow> bool" where
  "in_window t now cfg \<longleftrightarrow> usual_time t \<and> usual_time now \<and> t_ns t \<le> t_ns now + dp_skew cfg \<and>
    t_ns now - t_ns t + Second \<le> dp_maxAge cfg + dp_skew cfg"

lemma Unix_usual:
  assumes "usual_time t"
  shows "Time_Unix t = t_sec t - unixToInternal" and "unix_ns (Time_Unix t) = t_sec t * Second"
    and "0 \<le> Time_Unix t" "Time_Unix t < 2 ^ 63"
proof -
  show e: "Time_Unix t = t_sec t - unixToInternal" using assms by (simp add: Time_Unix_def usual_time_def wrap64_id)
  show "unix_ns (Time_Unix t) = t_sec t * Second" "0 \<le> Time_Unix t" "Time_Unix t < 2 ^ 63"
    using assms by (simp_all add: e unix_ns_def usual_time_def)
qed

lemma proof_claims_accepted:
  assumes "expects m uri opt cfg" and "in_window (issued now opt) now' cfg" and "list_all (\<lambda>c. \<not> space_byte c) m"
    and "NormalizeTargetURI U N uri = Inr norm" and "rd = None \<or> length (the rd) = 18"
  shows "check_claims C U N now' cfg (proof_claims C U rd now m norm opt) = None"
proof -
  let ?cl = "proof_claims C U rd now m norm opt"
  have m: "list_all is_ascii m" using assms(3) by (auto simp: list_all_iff is_ascii_def space_byte_def)
  have htm: "EqualFoldU U (cl_HTM ?cl) m"
    using m TrimSpace_printable [OF assms(3)] EqualFold_upper by (simp add: proof_claims_def ToUpper_def EqualFoldU_def)
  have t: "usual_time (issued now opt)" "usual_time now'" using assms(2) by (simp_all add: in_window_def)
  have iat: "cl_IAT ?cl = Time_Unix (issued now opt)" by (simp add: proof_claims_def issued_def)
  have "t_sec (issued now opt) * Second \<le> t_ns (issued now opt)" "t_ns (issued now opt) < t_sec (issued now opt) * Second + Second"
    using t(1) by (simp_all add: t_ns_def usual_time_def)
  then have "check_iat now' cfg ?cl = None"
    using check_iat_iff [OF t(2), of ?cl cfg] Unix_usual [OF t(1)] assms(1,2) by (simp add: iat expects_def in_window_def)
  moreover have "cl_JTI ?cl \<noteq> []" using GenerateJTI_facts [OF assms(5)] by (simp add: proof_claims_def)
  ultimately show ?thesis using assms(1,4) htm by (auto simp: check_claims_iff expects_def proof_claims_def)
qed

lemma proof_claims_text:
  assumes "usual_time (issued now opt)" and "list_all (\<lambda>c. \<not> space_byte c) m" and "Valid norm" "Valid (po_Nonce opt)" "Valid (po_CustomJTI opt)"
    and "rd = None \<or> length (the rd) = 18"
  shows "claims_text (proof_claims C U rd now m norm opt)"
proof -
  have "list_all is_ascii m" using assms(2) by (auto simp: list_all_iff is_ascii_def space_byte_def)
  moreover have "is_ascii (upper c)" if "is_ascii c" for c using that by (auto simp: is_ascii_def upper_def)
  ultimately have "Valid (ToUpper U (TrimSpace m))"
    using TrimSpace_printable [OF assms(2)] by (intro Valid_ascii) (auto simp: ToUpper_def list_all_iff)
  then show ?thesis using assms GenerateJTI_facts [OF assms(6)] Unix_usual [OF assms(1)] b64url_facts(3)
    by (simp add: claims_text_def proof_claims_def issued_def ComputeAccessTokenHash_def)
qed

lemma token_accepted:
  assumes "json_laws J" and "signs_for C priv" and "CreateProof C J U N rnd rd now priv m uri [opt] = Some (Inr tok)"
    and "extractPublicKey priv = Some pub" and "proper_key pub" and "rd = None \<or> length (the rd) = 18"
    and "NormalizeTargetURI U N uri = Inr norm" and "Valid norm" "Valid (po_Nonce opt)" "Valid (po_CustomJTI opt)"
    and "list_all (\<lambda>c. \<not> space_byte c) m" and "expects m uri opt cfg" and "in_window (issued now opt) now' cfg"
  shows "\<exists>jwk. VerifyProof C J U N now' tok cfg = Some (Inr (proof_claims C U rd now m norm opt, jwk)) \<and> JWKToPublicKey (Some jwk) = Inr pub"
proof -
  let ?cl = "proof_claims C U rd now m norm opt"
  obtain jwk alg hj cj sig where p: "PublicKeyToJWK pub = Some (Inr (jwk, alg))"
    and h: "js_header J \<lparr>ph_Typ = TypeDPoPJWT, ph_Alg = alg, ph_JWK = Some jwk\<rparr> = Some hj" and c: "js_claims J ?cl = Some cj"
    and s: "signJWS C rnd priv alg (b64url hj @ ''.'' @ b64url cj) = Some (Inr sig)"
    and tok: "tok = b64url hj @ ''.'' @ b64url cj @ ''.'' @ b64url sig"
    using CreateProof_parts [OF assms(3)] assms(4,7) by auto
  have key: "JWKToPublicKey (Some jwk) = Inr pub" by (rule jwk_back [OF p assms(5)])
  have "js_read_header J hj = Some \<lparr>ph_Typ = TypeDPoPJWT, ph_Alg = alg, ph_JWK = Some jwk\<rparr>"
    using assms(1) jwk_alg_text(1) [OF p] h unfolding json_laws_def by fastforce
  moreover have "EqualFold TypeDPoPJWT TypeDPoPJWT" by simp
  ultimately have rh: "read_header J U (b64url hj) = Inr (\<lparr>ph_Typ = TypeDPoPJWT, ph_Alg = alg, ph_JWK = Some jwk\<rparr>, jwk)"
    using jwk_alg_text(2,3) [OF p] by (simp add: read_header_def RawURL_roundtrip del: EqualFold.simps)
  have "claims_text ?cl" using assms(13) by (intro proof_claims_text assms) (simp add: in_window_def)
  then have rc: "read_claims J (b64url cj) = Inr ?cl" using assms(1) c unfolding json_laws_def by (fastforce simp: read_claims_def RawURL_roundtrip)
  have "verifyJWSSignature C pub alg (b64url hj @ ''.'' @ b64url cj) sig = Some None"
    by (rule sign_verifies [OF assms(2) s assms(4) p])
  then have "verify_parts C J U N now' cfg (b64url hj) (b64url cj) (b64url sig) = Some (Inr (?cl, jwk))"
    using rh rc key proof_claims_accepted [OF assms(12,13,11,7,6)] by (simp add: verify_parts_iff RawURL_roundtrip)
  then show ?thesis using token_parts [OF tok] key by (simp add: VerifyProof_def Let_def)
qed

section \<open>Defects\<close>

text \<open>The scheme of the Authorization header is compared with its case: a token sent under \<^verbatim>\<open>dpop\<close> is not bound.\<close>

lemma other_case_skips_token:
  "Header_Get (dr_Header req) ''Authorization'' = ''dpop '' @ tok \<Longrightarrow> vc_AccessToken (request_config N req cfg) = vc_AccessToken cfg"
  by (auto simp: request_config_def Let_def split: option.split)

text \<open>The algorithm named in the header is not compared with an Ed25519 key.\<close>

lemma ed25519_any_alg: "verifyJWSSignature C (Ed25519Pub k) alg inp sig = verifyJWSSignature C (Ed25519Pub k) alg' inp sig"
  by simp

text \<open>The host keeps its case.\<close>

lemma host_keeps_case:
  assumes "nu_Parse N raw = Some u" and "raw \<noteq> []"
  shows "\<exists>v. NormalizeTargetURI U N raw = Inr (nu_String N v) \<and> u_Host v = u_Host u"
proof -
  let ?v = "u\<lparr>u_RawQuery := [], u_Fragment := [], u_Scheme := ToLower U (u_Scheme u)\<rparr>"
  have "NormalizeTargetURI U N raw = Inr (nu_String N (if u_Path u = [] then ?v\<lparr>u_Path := ''/''\<rparr> else ?v))"
    using assms by (simp add: NormalizeTargetURI_def Let_def)
  moreover have "u_Host (if u_Path u = [] then ?v\<lparr>u_Path := ''/''\<rparr> else ?v) = u_Host u" by simp
  ultimately show ?thesis by blast
qed

section \<open>Properties\<close>

text \<open>C34: a proof made by the client is accepted by the server.  For a working key pair, a proof made for a method and a URI is
  accepted by every verifier that expects this method, this URI, the same access token and nonce (or does not look at
  them) and checks it within the time window; the verifier obtains the claims and the public key of the client.\<close>
theorem made_proof_accepted:
  assumes "json_laws J" and "signs_for C priv" and "CreateProof C J U N rnd rd now priv m uri [opt] = Some (Inr tok)"
    and "extractPublicKey priv = Some pub" and "proper_key pub" and "rd = None \<or> length (the rd) = 18"
    and "NormalizeTargetURI U N uri = Inr norm" and "Valid norm" "Valid (po_Nonce opt)" "Valid (po_CustomJTI opt)"
    and "list_all (\<lambda>c. \<not> space_byte c) m" and "expects m uri opt cfg" and "in_window (issued now opt) now' cfg"
  shows "\<exists>jwk. VerifyProof C J U N now' tok cfg = Some (Inr (proof_claims C U rd now m norm opt, jwk)) \<and> JWKToPublicKey (Some jwk) = Inr pub"
  using token_accepted [OF assms] .

text \<open>Instances of the parameters: fields in base64 separated by dots, URLs that are all alike, a signature that is always the
  same.\<close>

definition join_fields :: "bytes list \<Rightarrow> bytes" where
  "join_fields fs = Join ''.'' (map b64url fs)"

definition split_fields :: "bytes \<Rightarrow> bytes option list" where
  "split_fields b = map (DecodeString RawURLEncoding) (Split CHR ''.'' b)"

lemma split_join_fields: "fs \<noteq> [] \<Longrightarrow> split_fields (join_fields fs) = map Some fs"
proof (induction fs)
  case (Cons f fs)
  then show ?case
    by (cases fs) (simp_all add: split_fields_def join_fields_def Split_plain Split_append b64url_facts(2) RawURL_roundtrip)
qed simp

definition plain_json :: jose_json where
  "plain_json =
    \<lparr>js_header = (\<lambda>h. Some (join_fields ([ph_Typ h, ph_Alg h] @ (case ph_JWK h of None \<Rightarrow> [] | Some j \<Rightarrow>
       [jwk_Kty j, jwk_Crv j, jwk_X j, jwk_Y j, jwk_N j, jwk_E j, jwk_Alg j, jwk_Kid j])))),
     js_read_header = (\<lambda>b. case split_fields b of
        [Some t, Some a] \<Rightarrow> Some \<lparr>ph_Typ = t, ph_Alg = a, ph_JWK = None\<rparr>
      | [Some t, Some a, Some kty, Some crv, Some x, Some y, Some n, Some e, Some alg, Some kid] \<Rightarrow>
          Some \<lparr>ph_Typ = t, ph_Alg = a, ph_JWK = Some \<lparr>jwk_Kty = kty, jwk_Crv = crv, jwk_X = x, jwk_Y = y, jwk_N = n, jwk_E = e, jwk_Alg = alg, jwk_Kid = kid\<rparr>\<rparr>
      | _ \<Rightarrow> None),
     js_claims = (\<lambda>c. Some (join_fields [cl_JTI c, cl_HTM c, cl_HTU c, FormatInt (cl_IAT c), cl_Nonce c, cl_ATH c])),
     js_read_claims = (\<lambda>b. case split_fields b of
        [Some j, Some m, Some u, Some i, Some n, Some a] \<Rightarrow>
          Some \<lparr>cl_JTI = j, cl_HTM = m, cl_HTU = u, cl_IAT = fst (ParseInt64 i), cl_Nonce = n, cl_ATH = a\<rparr>
      | _ \<Rightarrow> None)\<rparr>"

lemma plain_json_laws: "json_laws plain_json"
  unfolding json_laws_def plain_json_def
  by (auto simp: split_join_fields claims_text_def ParseInt64_FormatInt_signed split: option.split)

lemma plain_json_typed: "claims_typed plain_json"
proof -
  have "- (2 ^ 63) \<le> fst (ParseInt64 i) \<and> fst (ParseInt64 i) < 2 ^ 63" for i using ParseInt64_range [of i] by simp
  then show ?thesis unfolding claims_typed_def plain_json_def by (auto split: list.splits option.splits)
qed

definition plain_url :: "unit net_url" where
  "plain_url =
    \<lparr>nu_Parse = (\<lambda>s. Some \<lparr>u_Scheme = ''https'', u_Host = ''a'', u_Path = ''/'', u_RawQuery = [], u_Fragment = [], u_String = s\<rparr>),
     nu_String = u_String, nu_RequestURI = u_Path\<rparr>"

definition plain_jws :: jws where
  "plain_jws =
    \<lparr>jc_sha256 = (\<lambda>m. m), jc_sha384 = (\<lambda>m. m), jc_ec_sign = (\<lambda>rnd k m. None), jc_ec_verify = (\<lambda>k m r s. False),
     jc_ed_sign = (\<lambda>k m. replicate 64 CHR ''s''), jc_ed_verify = (\<lambda>k m s. s = replicate 64 CHR ''s''),
     jc_pkcs_sign = (\<lambda>rnd k m. None), jc_pkcs_verify = (\<lambda>k m s. False), jc_pss_sign = (\<lambda>rnd k m. None), jc_pss_verify = (\<lambda>k m s. False)\<rparr>"

definition plain_unicode :: unicode where
  "plain_unicode = \<lparr>uni_lower = (\<lambda>s. s), uni_upper = (\<lambda>s. s), uni_fold = (\<lambda>s t. s = t)\<rparr>"

definition example_key :: priv_key where "example_key = Ed25519Priv (replicate 64 CHR ''k'')"
definition example_now :: gotime where "example_now = \<lparr>t_sec = unixToInternal + 1000, t_nsec = 0\<rparr>"

definition example_config :: VerifierConfig where
  "example_config =
    \<lparr>vc_ExpectedMethod = [], vc_ExpectedURI = [], vc_AccessToken = [], vc_ExpectedNonce = [], vc_MaxAge = 0, vc_AllowedClockSkew = 0\<rparr>"

lemma example_facts:
  "signs_for plain_jws example_key" "extractPublicKey example_key = Some (Ed25519Pub (replicate 32 CHR ''k''))"
  "NormalizeTargetURI U plain_url ''https://a/'' = Inr ''https://a/''" "Valid ''https://a/''" "list_all (\<lambda>c. \<not> space_byte c) ''GET''"
  "in_window (issued example_now zero_options) example_now example_config"
proof -
  show "signs_for plain_jws example_key" "extractPublicKey example_key = Some (Ed25519Pub (replicate 32 CHR ''k''))"
    by (simp_all add: example_key_def plain_jws_def ed_public_def Let_def min_def)
  show "NormalizeTargetURI U plain_url ''https://a/'' = Inr ''https://a/''" by (simp add: NormalizeTargetURI_def plain_url_def Let_def)
  show "Valid ''https://a/''" by (rule Valid_ascii) (simp add: is_ascii_def byte_eval)
  show "list_all (\<lambda>c. \<not> space_byte c) ''GET''" by (simp add: space_byte_def byte_eval)
  show "in_window (issued example_now zero_options) example_now example_config"
    by (simp add: in_window_def issued_def zero_options_def Time_IsZero_def example_now_def usual_time_def t_ns_def dp_skew_def dp_maxAge_def
        example_config_def)
qed

lemma example_proof: "\<exists>tok. CreateProof plain_jws plain_json U plain_url 0 None example_now example_key ''GET'' ''https://a/'' [zero_options] = Some (Inr tok)"
  using example_facts(2,3)
  by (simp add: CreateProof_def sign_proof_def plain_json_def example_key_def)

theorem made_proof_accepted_witness:
  "\<exists>tok cl jwk. CreateProof plain_jws plain_json plain_unicode plain_url 0 None example_now example_key ''GET'' ''https://a/'' [zero_options] = Some (Inr tok) \<and>
    VerifyProof plain_jws plain_json plain_unicode plain_url example_now tok example_config = Some (Inr (cl, jwk))"
proof -
  obtain tok where t: "CreateProof plain_jws plain_json plain_unicode plain_url 0 None example_now example_key ''GET'' ''https://a/'' [zero_options] = Some (Inr tok)"
    using example_proof by blast
  have e: "expects ''GET'' ''https://a/'' zero_options example_config" by (simp add: expects_def example_config_def)
  have v: "Valid (po_Nonce zero_options)" "Valid (po_CustomJTI zero_options)" by (simp_all add: zero_options_def)
  from made_proof_accepted [OF plain_json_laws example_facts(1) t example_facts(2) _ _ example_facts(3,4) v example_facts(5) e example_facts(6)] t
  show ?thesis by auto
qed

text \<open>C13: what an accepted request is bound to.  When a verifier without further expectations accepts a request, its DPoP header is a
  token of three parts, signed by the key it carries with an asymmetric algorithm; the token names the method and the
  normalized target of this very request, the hash of the access token in its Authorization header and the expected
  nonce; and it was issued, to the nanosecond, within the allowed age and clock skew, whatever 64-bit timestamp it has.\<close>
theorem accepted_request_is_bound:
  assumes "claims_typed J" and "usual_time now" and "vc_MaxAge cfg < 2 ^ 62 - 1" "vc_AllowedClockSkew cfg < 2 ^ 62"
    and "vc_ExpectedMethod cfg = []" "vc_ExpectedURI cfg = []" "vc_AccessToken cfg = []"
    and "dr_URL req = Some u" and "dr_Method req \<noteq> []" and "request_target N (dr_Host req) (dr_TLS req) u \<noteq> []"
    and "VerifyProofForRequest C J U N now (Some req) cfg = Some (Inr (cl, jwk))"
  shows "accepted_token C J U (TrimSpace (Header_Get (dr_Header req) ''DPoP'')) cl jwk \<and> cl_JTI cl \<noteq> [] \<and>
    EqualFoldU U (cl_HTM cl) (dr_Method req) \<and>
    NormalizeTargetURI U N (request_target N (dr_Host req) (dr_TLS req) u) = Inr (cl_HTU cl) \<and>
    (\<forall>tok. Header_Get (dr_Header req) ''Authorization'' = SchemeDPoP @ '' '' @ tok \<and> TrimSpace tok \<noteq> [] \<longrightarrow>
       cl_ATH cl = ComputeAccessTokenHash C (TrimSpace tok)) \<and>
    (vc_ExpectedNonce cfg \<noteq> [] \<longrightarrow> cl_Nonce cl = vc_ExpectedNonce cfg) \<and>
    unix_ns (cl_IAT cl) \<le> t_ns now + dp_skew cfg \<and> t_ns now - unix_ns (cl_IAT cl) \<le> dp_maxAge cfg + dp_skew cfg"
proof -
  let ?cfg = "request_config N req cfg"
  have v: "VerifyProof C J U N now (Header_Get (dr_Header req) ''DPoP'') ?cfg = Some (Inr (cl, jwk))"
    using assms(11) by (simp add: VerifyProofForRequest_def Let_def split: if_splits)
  note acc = VerifyProof_accepts [OF v]
  note f = request_config_fields and same = request_config_window
  have iat: "- (2 ^ 63) \<le> cl_IAT cl" "cl_IAT cl < 2 ^ 63" using accepted_typed [OF assms(1) acc(1)] by simp_all
  have ci: "check_iat now ?cfg cl = None" using acc(2) by (simp add: check_claims_iff)
  have win: "unix_ns (cl_IAT cl) \<le> t_ns now + dp_skew cfg" "t_ns now - unix_ns (cl_IAT cl) \<le> dp_maxAge cfg + dp_skew cfg"
    using check_iat_iff [OF assms(2) iat, of ?cfg] assms(3,4) ci by (simp_all add: f(1,2) same)
  have "cl_ATH cl = ComputeAccessTokenHash C (TrimSpace tok)"
    if "Header_Get (dr_Header req) ''Authorization'' = SchemeDPoP @ '' '' @ tok" "TrimSpace tok \<noteq> []" for tok
    using acc(2) f(6) [OF assms(7) that(1)] that(2) by (simp add: check_claims_iff)
  then show ?thesis
    using acc win assms(9,10) by (simp add: check_claims_iff f(3) f(4) [OF assms(5)] f(5) [OF assms(6,8)])
qed

definition example_request :: "bytes \<Rightarrow> unit dpop_request" where
  "example_request tok =
    \<lparr>dr_Method = ''GET'', dr_URL = nu_Parse plain_url ''https://a/'', dr_Host = ''a'', dr_TLS = True, dr_Header = [(''Dpop'', [tok])]\<rparr>"

theorem accepted_request_is_bound_witness:
  "\<exists>tok cl jwk. VerifyProofForRequest plain_jws plain_json plain_unicode plain_url example_now (Some (example_request tok)) example_config = Some (Inr (cl, jwk)) \<and>
    EqualFoldU plain_unicode (cl_HTM cl) ''GET''"
proof -
  obtain tok where t: "CreateProof plain_jws plain_json plain_unicode plain_url 0 None example_now example_key ''GET'' ''https://a/'' [zero_options] = Some (Inr tok)"
    using example_proof by blast
  let ?req = "example_request tok"
  have k: "CanonicalMIMEHeaderKey ''DPoP'' = ''Dpop''" "CanonicalMIMEHeaderKey ''Authorization'' \<noteq> ''Dpop''" by code_simp+
  have g: "Header_Get (dr_Header ?req) ''DPoP'' = tok" "Header_Get (dr_Header ?req) ''Authorization'' = []"
    using k by (simp_all add: Header_Get_def example_request_def)
  have e: "expects ''GET'' ''https://a/'' zero_options (request_config plain_url ?req example_config)"
    using g(2) by (simp add: expects_def request_config_def Let_def example_config_def example_request_def plain_url_def request_target_def)
  have w: "in_window (issued example_now zero_options) example_now (request_config plain_url ?req example_config)"
    using example_facts(6) by (simp only: in_window_def request_config_window)
  obtain h c s where "tok = b64url h @ ''.'' @ b64url c @ ''.'' @ b64url s" using CreateProof_parts [OF t] by blast
  then have "tok \<noteq> []" by simp
  have v: "Valid (po_Nonce zero_options)" "Valid (po_CustomJTI zero_options)" by (simp_all add: zero_options_def)
  have "\<exists>cl jwk. VerifyProof plain_jws plain_json plain_unicode plain_url example_now tok (request_config plain_url ?req example_config) = Some (Inr (cl, jwk))"
    using token_accepted [OF plain_json_laws example_facts(1) t example_facts(2) _ _ example_facts(3,4) v example_facts(5) e w] by auto
  then obtain cl jwk where a: "VerifyProofForRequest plain_jws plain_json plain_unicode plain_url example_now (Some ?req) example_config = Some (Inr (cl, jwk))"
    using \<open>tok \<noteq> []\<close> g(1) by (auto simp: VerifyProofForRequest_def Let_def)
  have "usual_time example_now" by (simp add: example_now_def usual_time_def)
  from accepted_request_is_bound [OF plain_json_typed this _ _ _ _ _ _ _ _ a] a show ?thesis
    by (fastforce simp: example_config_def example_request_def plain_url_def request_target_def)
qed

end
