(* ===== verification/WP_Encrypt.thy ===== *)
theory WP_Encrypt
  imports Go_Base64 Go_Binary Go_Text
begin

text \<open>
  Package \<^verbatim>\<open>webpush\<close>, file \<^verbatim>\<open>src/webpush/encrypt.go\<close>: encrypting and decrypting push messages.  The primitives
  (points and key agreement on P-256, HMAC-SHA256, AES-GCM) are the record \<open>push_crypto\<close>; a public key is its
  encoding, the keys and the salt the sender draws are arguments.
\<close>

section \<open>Primitives\<close>

record push_crypto =
  wc_point :: "bytes \<Rightarrow> bool"
  wc_pub :: "nat \<Rightarrow> bytes"
  wc_ecdh :: "nat \<Rightarrow> bytes \<Rightarrow> bytes option"
  wc_hmac :: "bytes \<Rightarrow> bytes \<Rightarrow> bytes"
  wc_seal :: "bytes \<Rightarrow> bytes \<Rightarrow> bytes \<Rightarrow> bytes"
  wc_open :: "bytes \<Rightarrow> bytes \<Rightarrow> bytes \<Rightarrow> bytes option"

datatype push_error =
    ErrInvalidSubscription
  | ErrInvalidP256DHKey
  | ErrInvalidAuthSecret
  | ErrInvalidVAPIDKeys
  | ErrPayloadTooLarge
  | ErrDecryptionFailed
  | ErrPushRejected
  | ErrUserAgentKey
  | ErrRandom
  | ErrECDH
  | ErrCipher
  | ErrSign
  | ErrMarshal
  | ErrTransport

record Keys =
  k_P256DH :: bytes
  k_Auth :: bytes

record Subscription =
  su_Endpoint :: bytes
  su_Keys :: Keys

record EncryptConfig =
  ec_Salt :: bytes
  ec_SenderPriv :: "nat option"
  ec_RecordSize :: "32 word"

abbreviation MaxPayloadSize :: nat where "MaxPayloadSize \<equiv> 3993"
abbreviation DefaultRecordSize :: "32 word" where "DefaultRecordSize \<equiv> 4096"
abbreviation HeaderLength :: nat where "HeaderLength \<equiv> 86"

definition decodeBase64URL :: "bytes \<Rightarrow> bytes option" where
  "decodeBase64URL s =
    (let s = TrimSpace s; m = length s mod 4; s = (if m \<noteq> 0 then s @ replicate (4 - m) CHR ''='' else s)
     in DecodeString URLEncoding s)"

section \<open>Key schedule\<close>

definition hmacSHA256 :: "push_crypto \<Rightarrow> bytes \<Rightarrow> bytes \<Rightarrow> bytes" where
  "hmacSHA256 W key d = wc_hmac W key d"

text \<open>The content key and the nonce, from the shared secret and the two public keys.\<close>

definition push_keys :: "push_crypto \<Rightarrow> bytes \<Rightarrow> bytes \<Rightarrow> bytes \<Rightarrow> bytes \<Rightarrow> bytes \<Rightarrow> bytes \<times> bytes" where
  "push_keys W authSecret ecdhSecret uaPubBytes asPubBytes salt =
    (let prkKey = hmacSHA256 W authSecret ecdhSecret;
         keyInfo = ''WebPush: info'' @ [byte_of 0] @ uaPubBytes @ asPubBytes @ [byte_of 1];
         ikm = hmacSHA256 W prkKey keyInfo;
         prk = hmacSHA256 W salt ikm;
         cek = take 16 (hmacSHA256 W prk (''Content-Encoding: aes128gcm'' @ [byte_of 0, byte_of 1]));
         nonce = take 12 (hmacSHA256 W prk (''Content-Encoding: nonce'' @ [byte_of 0, byte_of 1]))
     in (cek, nonce))"

definition aes_key_ok :: "bytes \<Rightarrow> bool" where
  "aes_key_ok cek \<longleftrightarrow> length cek = 16 \<or> length cek = 24 \<or> length cek = 32"

section \<open>Encrypting\<close>

text \<open>\<open>gen\<close> is the key the generator gives and \<open>rd\<close> the sixteen bytes a read of the random source gives.\<close>

definition sender_key :: "EncryptConfig option \<Rightarrow> nat option \<Rightarrow> nat option" where
  "sender_key cfg gen = (case cfg of Some c \<Rightarrow> (case ec_SenderPriv c of Some k \<Rightarrow> Some k | None \<Rightarrow> gen) | None \<Rightarrow> gen)"

definition sender_salt :: "EncryptConfig option \<Rightarrow> bytes option \<Rightarrow> bytes option" where
  "sender_salt cfg rd = (case cfg of Some c \<Rightarrow> if length (ec_Salt c) = 16 then Some (ec_Salt c) else rd | None \<Rightarrow> rd)"

definition record_size :: "EncryptConfig option \<Rightarrow> 32 word" where
  "record_size cfg = (case cfg of Some c \<Rightarrow> if ec_RecordSize c > 0 then ec_RecordSize c else DefaultRecordSize | None \<Rightarrow> DefaultRecordSize)"

text \<open>The header: a buffer of 86 bytes into which the salt, the record size, the length of the key and the key are copied.\<close>

definition copy_to :: "bytes \<Rightarrow> nat \<Rightarrow> nat \<Rightarrow> bytes \<Rightarrow> bytes" where
  "copy_to buf i j src = (let n = min (j - i) (length src) in take i buf @ take n src @ drop (i + n) buf)"

definition ece_header :: "bytes \<Rightarrow> 32 word \<Rightarrow> bytes \<Rightarrow> bytes" where
  "ece_header salt rs asPubBytes =
    (let header = replicate HeaderLength (byte_of 0);
         header = copy_to header 0 16 salt;
         header = copy_to header 16 20 (PutUint32 BigEndian rs);
         header = header[20 := byte_of (length asPubBytes)]
     in copy_to header 21 86 asPubBytes)"

definition encryptWithKeys ::
  "push_crypto \<Rightarrow> nat option \<Rightarrow> bytes option \<Rightarrow> bytes \<Rightarrow> bytes \<Rightarrow> bytes \<Rightarrow> EncryptConfig option \<Rightarrow> push_error + bytes" where
  "encryptWithKeys W gen rd plaintext uaPub authSecret cfg =
    (case sender_key cfg gen of
       None \<Rightarrow> Inl ErrRandom
     | Some asPriv \<Rightarrow>
         (case sender_salt cfg rd of
            None \<Rightarrow> Inl ErrRandom
          | Some salt \<Rightarrow>
              (case wc_ecdh W asPriv uaPub of
                 None \<Rightarrow> Inl ErrECDH
               | Some ecdhSecret \<Rightarrow>
                   (let asPubBytes = wc_pub W asPriv;
                        (cek, nonce) = push_keys W authSecret ecdhSecret uaPub asPubBytes salt;
                        header = ece_header salt (record_size cfg) asPubBytes;
                        padded = plaintext @ [byte_of 2]
                    in if \<not> aes_key_ok cek then Inl ErrCipher else Inr (header @ wc_seal W cek nonce padded)))))"

definition Encrypt ::
  "push_crypto \<Rightarrow> nat option \<Rightarrow> bytes option \<Rightarrow> bytes \<Rightarrow> Subscription option \<Rightarrow> EncryptConfig option \<Rightarrow> push_error + bytes" where
  "Encrypt W gen rd plaintext sub cfg =
    (case sub of
       None \<Rightarrow> Inl ErrInvalidSubscription
     | Some s \<Rightarrow>
         if k_P256DH (su_Keys s) = [] \<or> k_Auth (su_Keys s) = [] then Inl ErrInvalidSubscription
         else if length plaintext > MaxPayloadSize then Inl ErrPayloadTooLarge
         else
          (case decodeBase64URL (k_P256DH (su_Keys s)) of
             None \<Rightarrow> Inl ErrInvalidP256DHKey
           | Some uaPubBytes \<Rightarrow>
               if length uaPubBytes \<noteq> 65 \<or> uaPubBytes ! 0 \<noteq> byte_of 4 then Inl ErrInvalidP256DHKey
               else
                (case decodeBase64URL (k_Auth (su_Keys s)) of
                   None \<Rightarrow> Inl ErrInvalidAuthSecret
                 | Some authSecret \<Rightarrow>
                     if length authSecret \<noteq> 16 then Inl ErrInvalidAuthSecret
                     else if \<not> wc_point W uaPubBytes then Inl ErrUserAgentKey
                     else encryptWithKeys W gen rd plaintext uaPubBytes authSecret cfg)))"

section \<open>Decrypting\<close>

text \<open>The loop that skips the padding: the index of the last byte that is not zero below \<open>i\<close>.\<close>

fun last_nonzero :: "bytes \<Rightarrow> nat \<Rightarrow> nat option" where
  "last_nonzero p 0 = None"
| "last_nonzero p (Suc i) = (if p ! i = byte_of 0 then last_nonzero p i else Some i)"

definition strip_padding :: "bytes \<Rightarrow> push_error + bytes" where
  "strip_padding p =
    (case last_nonzero p (length p) of
       None \<Rightarrow> Inl ErrDecryptionFailed
     | Some lastIdx \<Rightarrow> if p ! lastIdx \<noteq> byte_of 2 then Inl ErrDecryptionFailed else Inr (take lastIdx p))"

definition Decrypt :: "push_crypto \<Rightarrow> bytes \<Rightarrow> nat option \<Rightarrow> bytes \<Rightarrow> push_error + bytes" where
  "Decrypt W payload uaPriv authSecret =
    (if length payload < HeaderLength + 16 then Inl ErrDecryptionFailed
     else
      (case uaPriv of
         None \<Rightarrow> Inl ErrInvalidSubscription
       | Some uaPriv \<Rightarrow>
           if length authSecret \<noteq> 16 then Inl ErrInvalidSubscription
           else
            (let salt = take 16 payload; idLen = byte_val (payload ! 20) in
             if idLen \<noteq> 65 \<or> length payload < 21 + idLen then Inl ErrDecryptionFailed
             else
              (let asPubBytes = take idLen (drop 21 payload); ciphertext = drop HeaderLength payload in
               if \<not> wc_point W asPubBytes then Inl ErrDecryptionFailed
               else
                (case wc_ecdh W uaPriv asPubBytes of
                   None \<Rightarrow> Inl ErrDecryptionFailed
                 | Some ecdhSecret \<Rightarrow>
                     (let (cek, nonce) = push_keys W authSecret ecdhSecret (wc_pub W uaPriv) asPubBytes salt in
                      if \<not> aes_key_ok cek then Inl ErrCipher
                      else
                       (case wc_open W cek nonce ciphertext of
                          None \<Rightarrow> Inl ErrDecryptionFailed
                        | Some plaintextPadded \<Rightarrow> strip_padding plaintextPadded)))))))"

section \<open>Lemmas\<close>

text \<open>What is used of the primitives: public keys are points of 65 bytes, key agreement is symmetric, the hash has 32 bytes, and
  opening undoes sealing.\<close>

definition push_laws :: "push_crypto \<Rightarrow> bool" where
  "push_laws W \<longleftrightarrow>
    (\<forall>k. length (wc_pub W k) = 65 \<and> wc_pub W k ! 0 = byte_of 4 \<and> wc_point W (wc_pub W k)) \<and>
    (\<forall>a b. \<exists>s. wc_ecdh W a (wc_pub W b) = Some s \<and> wc_ecdh W b (wc_pub W a) = Some s) \<and>
    (\<forall>k d. length (wc_hmac W k d) = 32) \<and>
    (\<forall>k n p. wc_open W k n (wc_seal W k n p) = Some p \<and> length (wc_seal W k n p) = length p + 16)"

lemma push_lawsD:
  assumes "push_laws W"
  shows "length (wc_pub W k) = 65" "wc_pub W k ! 0 = byte_of 4" "wc_point W (wc_pub W k)"
    "\<exists>s. wc_ecdh W a (wc_pub W b) = Some s \<and> wc_ecdh W b (wc_pub W a) = Some s" "length (wc_hmac W c d) = 32"
    "wc_open W c n (wc_seal W c n p) = Some p" "length (wc_seal W c n p) = length p + 16"
  using assms by (simp_all add: push_laws_def)

text \<open>Adding the padding to an unpadded text gives the padded encoding.\<close>

lemma decodeBase64URL_b64url: "decodeBase64URL (EncodeToString RawURLEncoding b) = Some b"
proof -
  let ?e = "EncodeToString RawURLEncoding b"
  have "set ?e \<subseteq> set alphabet_url" using EncodeToString_chars [OF RawURL_simps(3,2), of b] by simp
  moreover have "list_all (\<lambda>c. \<not> space_byte c) alphabet_url" by (simp add: alphabet_url_def space_byte_def byte_eval)
  ultimately have t: "TrimSpace ?e = ?e" by (intro TrimSpace_printable) (auto simp: list_all_iff)
  have "length b = 3 * (length b div 3) + length b mod 3" by simp
  moreover have "length b mod 3 < 3" by simp
  ultimately consider "length b = 3 * (length b div 3)" | "length b = 3 * (length b div 3) + 1" | "length b = 3 * (length b div 3) + 2" by linarith
  then have "(if length ?e mod 4 \<noteq> 0 then ?e @ replicate (4 - length ?e mod 4) CHR ''='' else ?e) = ?e @ padding (length b)"
  proof cases
    case 1
    then have "length ?e = 4 * (length b div 3)" by (simp add: RawURL_length)
    moreover have "length b mod 3 = 0" using 1 by presburger
    ultimately show ?thesis by (simp add: padding_def)
  next
    case 2
    then have "length ?e = 4 * (length b div 3) + 2" by (simp add: RawURL_length)
    then have "length ?e mod 4 = 2" by presburger
    moreover have "length b mod 3 = 1" using 2 by presburger
    ultimately show ?thesis by (simp add: padding_def)
  next
    case 3
    then have "length ?e = 4 * (length b div 3) + 3" by (simp add: RawURL_length)
    moreover have "length b mod 3 = 2" using 3 by presburger
    ultimately show ?thesis by (simp add: padding_def)
  qed
  moreover have "?e @ padding (length b) = EncodeToString URLEncoding b" by (simp add: EncodeToString_def RawURLEncoding_def URLEncoding_def)
  moreover have "alphabet_ok (b64_alphabet URLEncoding)" by (simp add: URLEncoding_def alphabets_ok)
  ultimately show ?thesis by (simp add: decodeBase64URL_def t Let_def DecodeString_EncodeToString)
qed

lemma header_layout:
  assumes "length salt = 16" and "length key = 65"
  shows "ece_header salt rs key = salt @ PutUint32 BigEndian rs @ [byte_of 65] @ key"
proof -
  let ?z = "byte_of 0"
  have r: "replicate 86 ?z = replicate 16 ?z @ replicate 4 ?z @ [?z] @ replicate 65 ?z" by (simp add: replicate_add [symmetric] flip: replicate_Suc)
  have a: "copy_to (replicate 86 ?z) 0 16 salt = salt @ replicate 4 ?z @ [?z] @ replicate 65 ?z"
    using assms(1) by (simp add: copy_to_def Let_def r)
  have b: "copy_to (salt @ replicate 4 ?z @ [?z] @ replicate 65 ?z) 16 20 (PutUint32 BigEndian rs) = salt @ PutUint32 BigEndian rs @ [?z] @ replicate 65 ?z"
    using assms(1) by (simp add: copy_to_def Let_def)
  have c: "(salt @ PutUint32 BigEndian rs @ [?z] @ replicate 65 ?z)[20 := byte_of 65] = salt @ PutUint32 BigEndian rs @ [byte_of 65] @ replicate 65 ?z"
    using assms(1) by (simp add: list_update_append)
  have d: "copy_to (salt @ PutUint32 BigEndian rs @ [byte_of 65] @ replicate 65 ?z) 21 86 key = salt @ PutUint32 BigEndian rs @ [byte_of 65] @ key"
    using assms by (simp add: copy_to_def Let_def)
  show ?thesis by (simp only: ece_header_def Let_def a b c d assms(2))
qed

lemma last_nonzero_zeros: "p ! i \<noteq> byte_of 0 \<Longrightarrow> (\<forall>j < k. p ! (Suc i + j) = byte_of 0) \<Longrightarrow> last_nonzero p (Suc i + k) = Some i"
proof (induction k)
  case (Suc k)
  then have "p ! (Suc i + k) = byte_of 0" by simp
  then show ?case using Suc by simp
qed simp

text \<open>The delimiter and any number of zeros after it are removed.\<close>

lemma strip_padding_padded: "strip_padding (m @ [byte_of 2] @ replicate k (byte_of 0)) = Inr m"
proof -
  let ?p = "m @ [byte_of 2] @ replicate k (byte_of 0)"
  have "byte_of 2 \<noteq> byte_of 0" by (simp add: byte_eval)
  then have "last_nonzero ?p (Suc (length m) + k) = Some (length m)" by (intro last_nonzero_zeros) (auto simp: nth_append)
  then show ?thesis by (simp add: strip_padding_def)
qed

lemma push_keys_ok: "push_laws W \<Longrightarrow> aes_key_ok (fst (push_keys W a s u k t))"
  using push_lawsD(5) [of W] by (simp add: push_keys_def Let_def hmacSHA256_def aes_key_ok_def)

text \<open>A message of any sender that follows the format, with padding, is decrypted.\<close>

lemma Decrypt_sealed:
  assumes "push_laws W" and "length salt = 16" and "length auth = 16" and "wc_ecdh W ua (wc_pub W sender) = Some secret"
    and "push_keys W auth secret (wc_pub W ua) (wc_pub W sender) salt = (cek, nonce)"
  shows "Decrypt W (salt @ PutUint32 BigEndian rs @ [byte_of 65] @ wc_pub W sender @
      wc_seal W cek nonce (m @ [byte_of 2] @ replicate k (byte_of 0))) (Some ua) auth = Inr m"
proof -
  let ?c = "wc_seal W cek nonce (m @ [byte_of 2] @ replicate k (byte_of 0))"
  let ?p = "salt @ PutUint32 BigEndian rs @ [byte_of 65] @ wc_pub W sender @ ?c"
  note law = push_lawsD [OF assms(1)]
  have l: "\<not> length ?p < 86 + 16" "take 16 ?p = salt" "?p ! 20 = byte_of 65" "take 65 (drop 21 ?p) = wc_pub W sender" "drop 86 ?p = ?c"
    "\<not> length ?p < 21 + 65"
    using assms(2) law(1) [of sender] law(7) by (simp_all add: nth_append)
  have id: "byte_val (byte_of 65) = 65" by simp
  have cek: "aes_key_ok cek" using push_keys_ok [OF assms(1), of auth secret "wc_pub W ua" "wc_pub W sender" salt] by (simp add: assms(5))
  have "Decrypt W ?p (Some ua) auth = strip_padding (m @ [byte_of 2] @ replicate k (byte_of 0))"
    unfolding Decrypt_def Let_def l(2-5) id using l(1,6) law(3) [of sender] law(6) assms(3-5) cek by simp
  then show ?thesis using strip_padding_padded by simp
qed

text \<open>What the server encrypts the browser decrypts: for every subscription of a browser key and sixteen-byte secret, every
  message of at most 3993 bytes, every configuration and every key and salt the sender draws.\<close>

lemma Encrypt_decrypts:
  assumes "push_laws W" and "length auth = 16" and "length m \<le> MaxPayloadSize" and "length salt = 16"
    and "sub = \<lparr>su_Endpoint = ep, su_Keys = \<lparr>k_P256DH = EncodeToString RawURLEncoding (wc_pub W ua), k_Auth = EncodeToString RawURLEncoding auth\<rparr>\<rparr>"
  shows "\<exists>payload. Encrypt W (Some eph) (Some salt) m (Some sub) cfg = Inr payload \<and> length payload \<le> unat DefaultRecordSize \<and>
    Decrypt W payload (Some ua) auth = Inr m"
proof -
  note law = push_lawsD [OF assms(1)]
  obtain sender salt' where s: "sender_key cfg (Some eph) = Some sender" "sender_salt cfg (Some salt) = Some salt'" "length salt' = 16"
    using assms(4) that by (cases cfg; cases "ec_SenderPriv (the cfg)"; cases "length (ec_Salt (the cfg)) = 16")
      (auto simp: sender_key_def sender_salt_def)
  obtain secret where e: "wc_ecdh W sender (wc_pub W ua) = Some secret" "wc_ecdh W ua (wc_pub W sender) = Some secret"
    using law(4) [of sender ua] by blast
  obtain cek nonce where k: "push_keys W auth secret (wc_pub W ua) (wc_pub W sender) salt' = (cek, nonce)" by fastforce
  let ?c = "wc_seal W cek nonce (m @ [byte_of 2])"
  let ?payload = "salt' @ PutUint32 BigEndian (record_size cfg) @ [byte_of 65] @ wc_pub W sender @ ?c"
  have "aes_key_ok cek" using push_keys_ok [OF assms(1), of auth secret "wc_pub W ua" "wc_pub W sender" salt'] by (simp add: k)
  then have "encryptWithKeys W (Some eph) (Some salt) m (wc_pub W ua) auth cfg = Inr ?payload"
    using s e(1) k header_layout [OF s(3) law(1)] by (simp add: encryptWithKeys_def)
  moreover have "EncodeToString RawURLEncoding b \<noteq> []" if "b \<noteq> []" for b
    using that RawURL_inject [of b "[]"] by (simp add: EncodeToString_def)
  moreover have "wc_pub W ua \<noteq> []" "auth \<noteq> []" using law(1) [of ua] assms(2) by auto
  ultimately have "Encrypt W (Some eph) (Some salt) m (Some sub) cfg = Inr ?payload"
    using assms(2,3) law(1-3) [of ua] by (simp add: Encrypt_def assms(5) decodeBase64URL_b64url)
  moreover have "length ?payload \<le> unat DefaultRecordSize" using assms(3) s(3) law(1) [of sender] law(7) by simp
  moreover have "Decrypt W ?payload (Some ua) auth = Inr m"
    using Decrypt_sealed [OF assms(1) s(3) assms(2) e(2) k, of "record_size cfg" m 0] by simp
  ultimately show ?thesis by blast
qed

definition plain_push :: push_crypto where
  "plain_push =
    \<lparr>wc_point = (\<lambda>b. length b = 65), wc_pub = (\<lambda>k. byte_of 4 # replicate 64 (byte_of k)), wc_ecdh = (\<lambda>a b. Some []),
     wc_hmac = (\<lambda>k d. replicate 32 (byte_of 0)), wc_seal = (\<lambda>k n p. p @ replicate 16 (byte_of 0)),
     wc_open = (\<lambda>k n c. if length c < 16 then None else Some (take (length c - 16) c))\<rparr>"

lemma plain_push_laws: "push_laws plain_push"
  by (simp add: push_laws_def plain_push_def)

end
