(* ===== verification/WP_Client.thy ===== *)
theory WP_Client
  imports WP_Encrypt Go_Big Go_Clock Go_Time Go_Strconv
begin

text \<open>
  Package \<^verbatim>\<open>webpush\<close>, files \<^verbatim>\<open>src/webpush/vapid.go\<close> and \<^verbatim>\<open>client.go\<close>: the keys and tokens of an application server and the
  client that sends push messages.  The primitives on P-256 are the record \<open>vapid_crypto\<close>; \<open>Q\<close> is the JSON text
  of a string, \<open>parse\<close> is \<^verbatim>\<open>url.Parse\<close> and \<open>http\<close> the HTTP client; clock and randomness are arguments.
  A result of \<open>None\<close> is a panic.
\<close>

section \<open>vapid.go\<close>

record vapid_crypto =
  vp_base_mult :: "bytes \<Rightarrow> (nat \<times> nat) option"
  vp_on_curve :: "nat \<times> nat \<Rightarrow> bool"
  vp_sha256 :: "bytes \<Rightarrow> bytes"
  vp_sign :: "nat \<Rightarrow> nat \<times> nat \<times> nat option \<Rightarrow> bytes \<Rightarrow> (nat \<times> nat) option"
  vp_verify :: "nat \<times> nat \<Rightarrow> bytes \<Rightarrow> nat \<Rightarrow> nat \<Rightarrow> bool"

text \<open>A private key is its public point and the scalar.\<close>

record VAPIDKeys =
  vk_PrivateKey :: "(nat \<times> nat \<times> nat option) option"
  vk_PublicKey :: "(nat \<times> nat) option"

definition keys_of :: "nat \<times> nat \<times> nat option \<Rightarrow> VAPIDKeys" where
  "keys_of priv = \<lparr>vk_PrivateKey = Some priv, vk_PublicKey = Some (fst priv, fst (snd priv))\<rparr>"

definition GenerateVAPIDKeys :: "(nat \<times> nat \<times> nat option) option \<Rightarrow> push_error + VAPIDKeys" where
  "GenerateVAPIDKeys gen = (case gen of None \<Rightarrow> Inl ErrRandom | Some priv \<Rightarrow> Inr (keys_of priv))"

definition NewVAPIDKeysFromRaw :: "vapid_crypto \<Rightarrow> bytes \<Rightarrow> push_error + VAPIDKeys" where
  "NewVAPIDKeysFromRaw V privBytes =
    (if length privBytes \<noteq> 32 then Inl ErrInvalidVAPIDKeys
     else case vp_base_mult V privBytes of
            None \<Rightarrow> Inl ErrInvalidVAPIDKeys
          | Some (x, y) \<Rightarrow> Inr (keys_of (x, y, Some (SetBytes privBytes))))"

definition NewVAPIDKeys :: "vapid_crypto \<Rightarrow> bytes \<Rightarrow> bytes \<Rightarrow> push_error + VAPIDKeys" where
  "NewVAPIDKeys V privateKeyBase64 publicKeyBase64 =
    (case decodeBase64URL privateKeyBase64 of
       None \<Rightarrow> Inl ErrInvalidVAPIDKeys
     | Some privBytes \<Rightarrow> NewVAPIDKeysFromRaw V privBytes)"

text \<open>\<^verbatim>\<open>elliptic.Marshal\<close> panics for a point that is not on the curve.\<close>

definition elliptic_Marshal :: "vapid_crypto \<Rightarrow> nat \<times> nat \<Rightarrow> bytes option" where
  "elliptic_Marshal V p =
    (if \<not> vp_on_curve V p then None
     else case (FillBytes 32 (fst p), FillBytes 32 (snd p)) of (Some x, Some y) \<Rightarrow> Some (byte_of 4 # x @ y) | _ \<Rightarrow> None)"

definition PublicKeyBase64 :: "vapid_crypto \<Rightarrow> VAPIDKeys option \<Rightarrow> bytes option" where
  "PublicKeyBase64 V k =
    (case k of
       None \<Rightarrow> Some []
     | Some k \<Rightarrow>
         (case vk_PublicKey k of
            None \<Rightarrow> Some []
          | Some p \<Rightarrow> map_option (EncodeToString RawURLEncoding) (elliptic_Marshal V p)))"

definition PrivateKeyBase64 :: "VAPIDKeys option \<Rightarrow> bytes option" where
  "PrivateKeyBase64 k =
    (case k of
       None \<Rightarrow> Some []
     | Some k \<Rightarrow>
         (case vk_PrivateKey k of
            Some (x, y, Some d) \<Rightarrow> map_option (EncodeToString RawURLEncoding) (FillBytes 32 d)
          | _ \<Rightarrow> Some []))"

abbreviation hour :: int where "hour \<equiv> 3600 * 10 ^ 9"

definition token_ttl :: "int \<Rightarrow> int" where
  "token_ttl ttl = (if ttl \<le> 0 \<or> ttl > 24 * hour then 12 * hour else ttl)"

abbreviation q :: bytes where "q \<equiv> [CHR 0x22]"

definition jwt_header :: bytes where
  "jwt_header = ''{'' @ q @ ''typ'' @ q @ '':'' @ q @ ''JWT'' @ q @ '','' @ q @ ''alg'' @ q @ '':'' @ q @ ''ES256'' @ q @ ''}''"

definition jwt_claims :: "(bytes \<Rightarrow> bytes) \<Rightarrow> bytes \<Rightarrow> int \<Rightarrow> bytes \<Rightarrow> bytes" where
  "jwt_claims Q aud ex sub =
    ''{'' @ q @ ''aud'' @ q @ '':'' @ Q aud @ '','' @ q @ ''exp'' @ q @ '':'' @ FormatInt ex @
    (if sub = [] then [] else '','' @ q @ ''sub'' @ q @ '':'' @ Q sub) @ ''}''"

definition SignJWT ::
  "vapid_crypto \<Rightarrow> (bytes \<Rightarrow> bytes) \<Rightarrow> (bytes \<Rightarrow> 'z url_scheme option) \<Rightarrow> nat \<Rightarrow> gotime \<Rightarrow> VAPIDKeys option \<Rightarrow> bytes \<Rightarrow> bytes \<Rightarrow> int \<Rightarrow>
     (push_error + bytes) option" where
  "SignJWT V Q parse rnd now k endpoint subject ttl =
    (case k of
       None \<Rightarrow> Some (Inl ErrInvalidVAPIDKeys)
     | Some k \<Rightarrow>
         (case vk_PrivateKey k of
            None \<Rightarrow> Some (Inl ErrInvalidVAPIDKeys)
          | Some priv \<Rightarrow>
              (case parse endpoint of
                 None \<Rightarrow> Some (Inl ErrInvalidSubscription)
               | Some u \<Rightarrow>
                   if u_Scheme u = [] \<or> u_Host u = [] then Some (Inl ErrInvalidSubscription)
                   else
                    (let aud = u_Scheme u @ ''://'' @ u_Host u;
                         ex = Time_Unix (Time_Add now (token_ttl ttl));
                         signingInput = EncodeToString RawURLEncoding jwt_header @ ''.'' @
                           EncodeToString RawURLEncoding (jwt_claims Q aud ex subject)
                     in case vp_sign V rnd priv (vp_sha256 V signingInput) of
                          None \<Rightarrow> Some (Inl ErrSign)
                        | Some (r, s) \<Rightarrow>
                            (case (FillBytes 32 r, FillBytes 32 s) of
                               (Some rb, Some sb) \<Rightarrow> Some (Inr (signingInput @ ''.'' @ EncodeToString RawURLEncoding (rb @ sb)))
                             | _ \<Rightarrow> None)))))"

definition AuthorizationHeader ::
  "vapid_crypto \<Rightarrow> (bytes \<Rightarrow> bytes) \<Rightarrow> (bytes \<Rightarrow> 'z url_scheme option) \<Rightarrow> nat \<Rightarrow> gotime \<Rightarrow> VAPIDKeys option \<Rightarrow> bytes \<Rightarrow> bytes \<Rightarrow> int \<Rightarrow>
     (push_error + bytes) option" where
  "AuthorizationHeader V Q parse rnd now k endpoint subject ttl =
    (case SignJWT V Q parse rnd now k endpoint subject ttl of
       None \<Rightarrow> None
     | Some (Inl err) \<Rightarrow> Some (Inl err)
     | Some (Inr jwtToken) \<Rightarrow>
         map_option (\<lambda>pubKeyB64. Inr (''vapid t='' @ jwtToken @ '', k='' @ pubKeyB64)) (PublicKeyBase64 V k))"

section \<open>client.go\<close>

record VAPIDConfig =
  vg_Keys :: "VAPIDKeys option"
  vg_Subject :: bytes
  vg_TTL :: int

record Message =
  msg_Payload :: bytes
  msg_TTL :: int
  msg_Urgency :: bytes
  msg_Topic :: bytes
  msg_VAPID :: "VAPIDConfig option"

type_synonym MessageOption = "Message \<Rightarrow> Message"

definition zero_message :: Message where
  "zero_message = \<lparr>msg_Payload = [], msg_TTL = 0, msg_Urgency = [], msg_Topic = [], msg_VAPID = None\<rparr>"

definition WithTTL :: "int \<Rightarrow> MessageOption" where "WithTTL ttl m = m\<lparr>msg_TTL := ttl\<rparr>"
definition WithUrgency :: "bytes \<Rightarrow> MessageOption" where "WithUrgency u m = m\<lparr>msg_Urgency := u\<rparr>"
definition WithTopic :: "bytes \<Rightarrow> MessageOption" where "WithTopic t m = m\<lparr>msg_Topic := t\<rparr>"
definition WithVAPID :: "VAPIDConfig option \<Rightarrow> MessageOption" where "WithVAPID v m = m\<lparr>msg_VAPID := v\<rparr>"

datatype push_modifier = WithHeader bytes bytes | WithBodyBytes bytes

text \<open>What the HTTP client is asked to post, and the status and body it answers with.\<close>

type_synonym push_request = "bytes \<times> push_modifier list"
type_synonym push_response = "int \<times> bytes"

text \<open>The randomness of one call: the key and the salt of the encryption and that of the signature.\<close>

record push_env =
  pe_gen :: "nat option"
  pe_salt :: "bytes option"
  pe_sign :: nat
  pe_now :: gotime

definition ttl_seconds :: "int \<Rightarrow> int" where
  "ttl_seconds ttl = max (int (whole_units (10 ^ 9) (nat (if ttl \<le> 0 then 24 * hour else ttl)))) 0"

definition base_mods :: "Message \<Rightarrow> bytes \<Rightarrow> push_modifier list" where
  "base_mods msg ciphertext =
    [WithHeader ''TTL'' (FormatInt (ttl_seconds (msg_TTL msg))),
     WithHeader ''Urgency'' (if msg_Urgency msg = [] then ''normal'' else msg_Urgency msg)] @
    (if msg_Topic msg \<noteq> [] then [WithHeader ''Topic'' (msg_Topic msg)] else []) @
    (if length ciphertext > 0 then [WithHeader ''Content-Encoding'' ''aes128gcm'', WithBodyBytes ciphertext] else [])"

definition auth_mods ::
  "vapid_crypto \<Rightarrow> (bytes \<Rightarrow> bytes) \<Rightarrow> (bytes \<Rightarrow> 'z url_scheme option) \<Rightarrow> push_env \<Rightarrow> bytes \<Rightarrow> VAPIDConfig option \<Rightarrow>
     (push_error + push_modifier list) option" where
  "auth_mods V Q parse en endpoint vapidCfg =
    (case vapidCfg of
       None \<Rightarrow> Some (Inr [])
     | Some c \<Rightarrow>
         (case vg_Keys c of
            None \<Rightarrow> Some (Inr [])
          | Some k \<Rightarrow>
              (case AuthorizationHeader V Q parse (pe_sign en) (pe_now en) (Some k) endpoint (vg_Subject c) (vg_TTL c) of
                 None \<Rightarrow> None
               | Some (Inl err) \<Rightarrow> Some (Inl err)
               | Some (Inr authVal) \<Rightarrow> Some (Inr [WithHeader ''Authorization'' authVal]))))"

definition answer :: "push_error + push_response \<Rightarrow> push_response option \<times> push_error option" where
  "answer r =
    (case r of
       Inl err \<Rightarrow> (None, Some err)
     | Inr resp \<Rightarrow> if fst resp \<in> {201, 202, 200} then (Some resp, None) else (Some resp, Some ErrPushRejected))"

text \<open>The request, before it is sent.\<close>

definition push_mods ::
  "push_crypto \<Rightarrow> vapid_crypto \<Rightarrow> (bytes \<Rightarrow> bytes) \<Rightarrow> (bytes \<Rightarrow> 'z url_scheme option) \<Rightarrow> push_env \<Rightarrow> VAPIDConfig option \<Rightarrow>
     Subscription \<Rightarrow> Message \<Rightarrow> (push_error + push_modifier list) option" where
  "push_mods W V Q parse en vapid sub msg =
    (case (if length (msg_Payload msg) > 0 then Encrypt W (pe_gen en) (pe_salt en) (msg_Payload msg) (Some sub) None else Inr []) of
       Inl err \<Rightarrow> Some (Inl err)
     | Inr ciphertext \<Rightarrow>
         (case auth_mods V Q parse en (su_Endpoint sub) (case msg_VAPID msg of Some c \<Rightarrow> Some c | None \<Rightarrow> vapid) of
            None \<Rightarrow> None
          | Some (Inl err) \<Rightarrow> Some (Inl err)
          | Some (Inr ms) \<Rightarrow> Some (Inr (base_mods msg ciphertext @ ms))))"

definition Send_push ::
  "push_crypto \<Rightarrow> vapid_crypto \<Rightarrow> (bytes \<Rightarrow> bytes) \<Rightarrow> (bytes \<Rightarrow> 'z url_scheme option) \<Rightarrow> (push_request \<Rightarrow> push_error + push_response) \<Rightarrow>
     push_env \<Rightarrow> VAPIDConfig option \<Rightarrow> Subscription option \<Rightarrow> Message option \<Rightarrow> (push_response option \<times> push_error option) option" where
  "Send_push W V Q parse http en vapid sub msg =
    (case sub of
       None \<Rightarrow> Some (None, Some ErrInvalidSubscription)
     | Some s \<Rightarrow>
         if su_Endpoint s = [] then Some (None, Some ErrInvalidSubscription)
         else
          (case push_mods W V Q parse en vapid s (case msg of None \<Rightarrow> zero_message | Some m \<Rightarrow> m) of
             None \<Rightarrow> None
           | Some (Inl err) \<Rightarrow> Some (None, Some err)
           | Some (Inr mods) \<Rightarrow> Some (answer (http (su_Endpoint s, mods)))))"

definition SendJSON ::
  "push_crypto \<Rightarrow> vapid_crypto \<Rightarrow> (bytes \<Rightarrow> bytes) \<Rightarrow> (bytes \<Rightarrow> 'z url_scheme option) \<Rightarrow> (push_request \<Rightarrow> push_error + push_response) \<Rightarrow>
     push_env \<Rightarrow> VAPIDConfig option \<Rightarrow> Subscription option \<Rightarrow> bytes option \<Rightarrow> MessageOption list \<Rightarrow> (push_response option \<times> push_error option) option" where
  "SendJSON W V Q parse http en vapid sub payload opts =
    (case payload of
       None \<Rightarrow> Some (None, Some ErrMarshal)
     | Some d \<Rightarrow> Send_push W V Q parse http en vapid sub (Some (fold (\<lambda>f m. f m) opts (zero_message\<lparr>msg_Payload := d\<rparr>))))"

section \<open>Lemmas\<close>

definition signs_with :: "vapid_crypto \<Rightarrow> nat \<times> nat \<times> nat option \<Rightarrow> bool" where
  "signs_with V k \<longleftrightarrow> (\<forall>rnd h r s. vp_sign V rnd k h = Some (r, s) \<longrightarrow> vp_verify V (fst k, fst (snd k)) h r s)"

text \<open>The keys written out and read again.\<close>

lemma private_key_roundtrip:
  assumes "NewVAPIDKeysFromRaw V b = Inr k" and "PrivateKeyBase64 (Some k) = Some t"
  shows "NewVAPIDKeys V t p = Inr k"
proof -
  obtain x y where k: "k = keys_of (x, y, Some (SetBytes b))" "length b = 32" "vp_base_mult V b = Some (x, y)"
    using assms(1) by (auto simp: NewVAPIDKeysFromRaw_def split: if_splits option.splits)
  obtain d where d: "FillBytes 32 (SetBytes b) = Some d" "t = EncodeToString RawURLEncoding d"
    using assms(2) by (auto simp: PrivateKeyBase64_def k(1) keys_of_def)
  have "SetBytes d = SetBytes b" "length d = 32" using SetBytes_FillBytes [OF d(1)] by simp_all
  then have "d = b" using SetBytes_inject k(2) by metis
  then show ?thesis using assms(1) by (simp add: NewVAPIDKeys_def d(2) decodeBase64URL_b64url)
qed

lemma SignJWT_parts:
  assumes "SignJWT V Q parse rnd now (Some (keys_of k)) ep sub ttl = Some (Inr tok)" and "signs_with V k"
  shows "\<exists>u inp rb sb. parse ep = Some u \<and>
    inp = EncodeToString RawURLEncoding jwt_header @ ''.'' @
      EncodeToString RawURLEncoding (jwt_claims Q (u_Scheme u @ ''://'' @ u_Host u) (Time_Unix (Time_Add now (token_ttl ttl))) sub) \<and>
    length rb = 32 \<and> length sb = 32 \<and> tok = inp @ ''.'' @ EncodeToString RawURLEncoding (rb @ sb) \<and>
    vp_verify V (fst k, fst (snd k)) (vp_sha256 V inp) (SetBytes rb) (SetBytes sb)"
proof -
  obtain u r s rb sb where f: "parse ep = Some u" "FillBytes 32 r = Some rb" "FillBytes 32 s = Some sb"
    "vp_sign V rnd k (vp_sha256 V (EncodeToString RawURLEncoding jwt_header @ ''.'' @
      EncodeToString RawURLEncoding (jwt_claims Q (u_Scheme u @ ''://'' @ u_Host u) (Time_Unix (Time_Add now (token_ttl ttl))) sub))) = Some (r, s)"
    "tok = (EncodeToString RawURLEncoding jwt_header @ ''.'' @
      EncodeToString RawURLEncoding (jwt_claims Q (u_Scheme u @ ''://'' @ u_Host u) (Time_Unix (Time_Add now (token_ttl ttl))) sub)) @ ''.'' @
      EncodeToString RawURLEncoding (rb @ sb)"
    using assms(1) by (auto simp: SignJWT_def keys_of_def Let_def split: option.splits if_splits prod.splits)
  have n: "SetBytes rb = r" "SetBytes sb = s" "length rb = 32" "length sb = 32"
    using SetBytes_FillBytes [OF f(2)] SetBytes_FillBytes [OF f(3)] by simp_all
  show ?thesis using f(1,4,5) n assms(2) unfolding signs_with_def by blast
qed

lemma token_ttl_bounds: "0 < token_ttl ttl" "token_ttl ttl \<le> 24 * hour"
  by (auto simp: token_ttl_def)

text \<open>The expiry is the end of the lifetime, rounded down to a second.\<close>

lemma expiry_window:
  assumes "usual_time now" and "0 < d" and "d \<le> 24 * hour"
  shows "unix_ns (Time_Unix (Time_Add now d)) \<le> t_ns now + d" and "t_ns now + d < unix_ns (Time_Unix (Time_Add now d)) + Go_Clock.Second"
proof -
  let ?t = "Time_Add now d"
  have ok: "time_ok now" by (rule usual_time_ok [OF assms(1)])
  have a: "t_ns ?t = t_ns now + d" "0 \<le> t_nsec ?t" "t_nsec ?t < Go_Clock.Second" using Time_Add_ns [OF ok, of d] assms(2,3) by auto
  have nb: "unixToInternal * Go_Clock.Second \<le> t_ns now" "t_ns now < (unixToInternal + 2 ^ 33 + 1) * Go_Clock.Second"
    using assms(1) by (auto simp: usual_time_def t_ns_def)
  have "t_sec ?t * Go_Clock.Second \<le> t_ns now + d" "t_ns now + d < t_sec ?t * Go_Clock.Second + Go_Clock.Second" using a by (simp_all add: t_ns_def)
  moreover have "wrap64 (t_sec ?t - unixToInternal) = t_sec ?t - unixToInternal"
    using calculation nb assms(2,3) by (intro wrap64_id) auto
  ultimately show "unix_ns (Time_Unix ?t) \<le> t_ns now + d" "t_ns now + d < unix_ns (Time_Unix ?t) + Go_Clock.Second"
    by (simp_all add: unix_ns_def Time_Unix_def)
qed

text \<open>The scalar zero is accepted as a private key; its public key is the point at infinity, which no encoding accepts, so that
  writing the public key panics.\<close>

lemma zero_key_panics:
  assumes "vp_base_mult V (replicate 32 (byte_of 0)) = Some (0, 0)" and "\<not> vp_on_curve V (0, 0)"
  shows "\<exists>k. NewVAPIDKeysFromRaw V (replicate 32 (byte_of 0)) = Inr k \<and> PublicKeyBase64 V (Some k) = None"
  using assms by (simp add: NewVAPIDKeysFromRaw_def keys_of_def PublicKeyBase64_def elliptic_Marshal_def)

text \<open>The public key given beside the private one is not read.\<close>

lemma public_key_ignored: "NewVAPIDKeys V priv p = NewVAPIDKeys V priv p'"
  by (simp add: NewVAPIDKeys_def)

text \<open>A key that can sign and be written: its point is on the curve, and the numbers fit 32 bytes.\<close>

definition usable_key :: "vapid_crypto \<Rightarrow> nat \<times> nat \<times> nat option \<Rightarrow> bool" where
  "usable_key V k \<longleftrightarrow> vp_on_curve V (fst k, fst (snd k)) \<and> fst k < 256 ^ 32 \<and> fst (snd k) < 256 ^ 32 \<and>
    (\<forall>rnd h. \<exists>r s. vp_sign V rnd k h = Some (r, s) \<and> r < 256 ^ 32 \<and> s < 256 ^ 32)"

lemma SignJWT_total:
  assumes "usable_key V k" and "parse ep = Some u" and "u_Scheme u \<noteq> []" and "u_Host u \<noteq> []"
  shows "\<exists>tok. SignJWT V Q parse rnd now (Some (keys_of k)) ep sub ttl = Some (Inr tok)"
proof -
  let ?inp = "EncodeToString RawURLEncoding jwt_header @ ''.'' @
      EncodeToString RawURLEncoding (jwt_claims Q (u_Scheme u @ ''://'' @ u_Host u) (Time_Unix (Time_Add now (token_ttl ttl))) sub)"
  obtain r s where "vp_sign V rnd k (vp_sha256 V ?inp) = Some (r, s)" "r < 256 ^ 32" "s < 256 ^ 32"
    using assms(1) unfolding usable_key_def by meson
  then show ?thesis using assms(2-4) by (simp add: SignJWT_def keys_of_def Let_def FillBytes_def)
qed

lemma PublicKey_written:
  assumes "usable_key V k"
  shows "\<exists>x y. PublicKeyBase64 V (Some (keys_of k)) = Some (EncodeToString RawURLEncoding (byte_of 4 # x @ y)) \<and>
    length x = 32 \<and> length y = 32 \<and> SetBytes x = fst k \<and> SetBytes y = fst (snd k)"
proof -
  obtain x y where f: "FillBytes 32 (fst k) = Some x" "FillBytes 32 (fst (snd k)) = Some y"
    using assms by (simp add: usable_key_def FillBytes_def)
  then have "PublicKeyBase64 V (Some (keys_of k)) = Some (EncodeToString RawURLEncoding (byte_of 4 # x @ y))"
    using assms by (simp add: PublicKeyBase64_def keys_of_def elliptic_Marshal_def usable_key_def)
  then show ?thesis using SetBytes_FillBytes [OF f(1)] SetBytes_FillBytes [OF f(2)] by blast
qed

lemma auth_mods_header: "auth_mods V Q parse en ep c = Some (Inr ms) \<Longrightarrow> WithBodyBytes b \<notin> set ms"
  by (auto simp: auth_mods_def split: option.splits sum.splits)

section \<open>Properties\<close>

text \<open>The authorization a push service checks.  With a usable key and an endpoint that has a scheme and a host, the header
  is always produced; it is the word vapid, a token and a key; the key decodes to the uncompressed point of the signing
  key, the signature in the token verifies under that point over the token's first two parts, whose claims name the origin of
  the endpoint and the subject, and the expiry lies after the clock's second and at most 24 hours ahead.\<close>
theorem vapid_header:
  assumes "usable_key V k" and "signs_with V k" and "usual_time now" and "parse ep = Some u" and "u_Scheme u \<noteq> []" and "u_Host u \<noteq> []"
  shows "\<exists>inp sig pub e.
    AuthorizationHeader V Q parse rnd now (Some (keys_of k)) ep sub ttl =
      Some (Inr (''vapid t='' @ inp @ ''.'' @ EncodeToString RawURLEncoding sig @ '', k='' @ pub)) \<and>
    inp = EncodeToString RawURLEncoding jwt_header @ ''.'' @
      EncodeToString RawURLEncoding (jwt_claims Q (u_Scheme u @ ''://'' @ u_Host u) e sub) \<and>
    (\<exists>raw. decodeBase64URL pub = Some raw \<and> length raw = 65 \<and> raw ! 0 = byte_of 4 \<and>
      vp_verify V (SetBytes (take 32 (drop 1 raw)), SetBytes (drop 33 raw)) (vp_sha256 V inp) (SetBytes (take 32 sig)) (SetBytes (drop 32 sig))) \<and>
    length sig = 64 \<and> t_ns now - Go_Clock.Second < unix_ns e \<and> unix_ns e \<le> t_ns now + 24 * hour"
proof -
  obtain tok where t: "SignJWT V Q parse rnd now (Some (keys_of k)) ep sub ttl = Some (Inr tok)"
    using SignJWT_total [where parse = parse, OF assms(1,4,5,6)] by blast
  let ?e = "Time_Unix (Time_Add now (token_ttl ttl))"
  obtain inp rb sb where p: "inp = EncodeToString RawURLEncoding jwt_header @ ''.'' @
      EncodeToString RawURLEncoding (jwt_claims Q (u_Scheme u @ ''://'' @ u_Host u) ?e sub)"
    "length rb = 32" "length sb = 32" "tok = inp @ ''.'' @ EncodeToString RawURLEncoding (rb @ sb)"
    "vp_verify V (fst k, fst (snd k)) (vp_sha256 V inp) (SetBytes rb) (SetBytes sb)"
    using SignJWT_parts [OF t assms(2)] assms(4) by auto
  obtain x y where k: "PublicKeyBase64 V (Some (keys_of k)) = Some (EncodeToString RawURLEncoding (byte_of 4 # x @ y))"
    "length x = 32" "length y = 32" "SetBytes x = fst k" "SetBytes y = fst (snd k)"
    using PublicKey_written [OF assms(1)] by blast
  let ?pub = "EncodeToString RawURLEncoding (byte_of 4 # x @ y)"
  have h: "AuthorizationHeader V Q parse rnd now (Some (keys_of k)) ep sub ttl =
      Some (Inr (''vapid t='' @ inp @ ''.'' @ EncodeToString RawURLEncoding (rb @ sb) @ '', k='' @ ?pub))"
    using t k(1) p(4) by (simp add: AuthorizationHeader_def)
  have e: "t_ns now - Go_Clock.Second < unix_ns ?e" "unix_ns ?e \<le> t_ns now + 24 * hour"
    using expiry_window [OF assms(3) token_ttl_bounds, of ttl] token_ttl_bounds [of ttl] by linarith+
  have raw: "decodeBase64URL ?pub = Some (byte_of 4 # x @ y)" by (rule decodeBase64URL_b64url)
  show ?thesis
    by (rule exI [of _ inp], rule exI [of _ "rb @ sb"], rule exI [of _ ?pub], rule exI [of _ ?e])
      (use h p k(2-5) e raw in simp)
qed

definition plain_vapid :: vapid_crypto where
  "plain_vapid =
    \<lparr>vp_base_mult = (\<lambda>b. Some (byte_val (last b), 1)), vp_on_curve = (\<lambda>p. snd p = 1), vp_sha256 = (\<lambda>b. b),
     vp_sign = (\<lambda>rnd k h. Some (length h mod 256, fst k)), vp_verify = (\<lambda>p h r s. r = length h mod 256 \<and> s = fst p)\<rparr>"

definition push_site :: "bytes \<Rightarrow> url option" where
  "push_site e = Some \<lparr>u_Scheme = ''https'', u_Host = ''p'', u_Path = [], u_RawQuery = [], u_Fragment = [], u_String = e\<rparr>"

lemma plain_vapid_ok: "usable_key plain_vapid (7, 1, Some 5)" "signs_with plain_vapid (7, 1, Some 5)"
proof -
  have "n mod 256 < 256 ^ 32" for n :: nat by (rule less_le_trans [of _ 256]) simp_all
  then show "usable_key plain_vapid (7, 1, Some 5)" by (simp add: usable_key_def plain_vapid_def)
qed (simp add: signs_with_def plain_vapid_def)

theorem vapid_header_witness:
  "\<exists>inp sig pub.
    AuthorizationHeader plain_vapid (\<lambda>s. s) push_site 0 \<lparr>t_sec = unixToInternal + 1000, t_nsec = 0\<rparr> (Some (keys_of (7, 1, Some 5))) ''https://p'' [] 0 =
      Some (Inr (''vapid t='' @ inp @ ''.'' @ EncodeToString RawURLEncoding sig @ '', k='' @ pub))"
  using vapid_header [of plain_vapid "(7, 1, Some 5)" "\<lparr>t_sec = unixToInternal + 1000, t_nsec = 0\<rparr>" push_site "''https://p''" _ "\<lambda>s. s" 0 "[]" 0,
      OF plain_vapid_ok]
  by (auto simp: usual_time_def push_site_def)



end
