(* ===== verification/WT_Dial.thy ===== *)
theory WT_Dial
  imports WT_Session Go_Text
begin

text \<open>
  Package \<^verbatim>\<open>webtransport\<close>, file \<^verbatim>\<open>src/webtransport/dial.go\<close>: opening a session over HTTP/3 and the dispatcher of a connection.  The QUIC connection, the
  encoders of SETTINGS and of header blocks and \<^verbatim>\<open>url.Parse\<close> are arguments; what is written on the two streams is part of the result.
\<close>

section \<open>Options\<close>

record tls_config =
  tls_ServerName :: bytes
  tls_NextProtos :: "bytes list"
  tls_MinVersion :: nat

record quic_config =
  qc_EnableDatagrams :: bool
  qc_MaxIdleTimeout :: int

record DialConfig =
  dc_TLSConfig :: "tls_config option"
  dc_QUICConfig :: "quic_config option"
  dc_Headers :: "(bytes \<rightharpoonup> bytes) option"
  dc_AvailableProtocols :: "bytes list"

type_synonym DialOption = "DialConfig \<Rightarrow> DialConfig"

definition WithTLSConfig :: "tls_config option \<Rightarrow> DialOption" where
  "WithTLSConfig cfg c = c\<lparr>dc_TLSConfig := cfg\<rparr>"

definition WithHeader :: "bytes \<Rightarrow> bytes \<Rightarrow> DialOption" where
  "WithHeader key val c = c\<lparr>dc_Headers := Some ((case dc_Headers c of None \<Rightarrow> Map.empty | Some h \<Rightarrow> h)(key \<mapsto> val))\<rparr>"

definition WithAvailableProtocols :: "bytes list \<Rightarrow> DialOption" where
  "WithAvailableProtocols protocols c = c\<lparr>dc_AvailableProtocols := dc_AvailableProtocols c @ protocols\<rparr>"

definition zero_config :: DialConfig where
  "zero_config = \<lparr>dc_TLSConfig = None, dc_QUICConfig = None, dc_Headers = None, dc_AvailableProtocols = []\<rparr>"

section \<open>The handshake\<close>

text \<open>What the libraries do: parsing and printing of URLs, the order in which the headers of a map are visited, text that is not ASCII,
  the encoders and the decoder of header blocks, the version number of TLS 1.3.\<close>

record wt_lib =
  wl_parse :: "bytes \<Rightarrow> url option"
  wl_RequestURI :: "url \<Rightarrow> bytes"
  wl_order :: "(bytes \<rightharpoonup> bytes) \<Rightarrow> bytes list"
  wl_unicode :: unicode
  wl_quote :: "bytes \<Rightarrow> bytes"
  wl_settings :: bytes
  wl_encode :: "nat \<Rightarrow> (bytes \<times> bytes) list \<Rightarrow> bytes"
  wl_decode :: "bytes \<Rightarrow> (bytes \<times> bytes) list option"
  wl_tls13 :: nat

text \<open>What the connection does: opening the two streams, taking the two writes on each, and what the peer answers to the request.\<close>

record wt_conn =
  wn_control :: bool
  wn_control_writes :: "bool \<times> bool"
  wn_stream :: "nat option"
  wn_stream_writes :: "bool \<times> bool"
  wn_response :: "bytes \<Rightarrow> bytes"

text \<open>What a handshake leads to: the result, and for both streams the bytes written and whether they were closed.\<close>

record wt_outcome =
  wo_result :: "wt_error + Session"
  wo_control :: bytes
  wo_control_closed :: bool
  wo_stream :: bytes
  wo_stream_closed :: bool

abbreviation (input) FrameTypeSettings :: nat where "FrameTypeSettings \<equiv> 4"

text \<open>The header is put together in an array of 64 bytes.\<close>

definition control_header :: "varint \<Rightarrow> bytes \<Rightarrow> bytes" where
  "control_header V payload =
    (let buf = replicate 64 (byte_of 0);
         n = vAppend V FrameTypeSettings;
         buf = (case append_at buf 1 n of Some b \<Rightarrow> b | None \<Rightarrow> buf);
         buf = (case append_at buf (1 + length n) (vAppend V (length payload)) of Some b \<Rightarrow> b | None \<Rightarrow> buf);
         headerLen = 1 + length n + vLen V (length payload)
     in take headerLen buf)"

definition request_headers :: "wt_lib \<Rightarrow> url \<Rightarrow> DialConfig \<Rightarrow> (bytes \<times> bytes) list" where
  "request_headers L u cfg =
    [('':method'', ''CONNECT''), ('':protocol'', ''webtransport''), ('':scheme'', ''https''),
     ('':authority'', if u_Host u = [] then JoinHostPort (Hostname u) ''443'' else u_Host u),
     ('':path'', if wl_RequestURI L u = [] then ''/'' else wl_RequestURI L u)] @
    (if length (dc_AvailableProtocols cfg) > 0
     then [(''wt-available-protocols'', Join '', '' (map (Quote (wl_quote L)) (dc_AvailableProtocols cfg)))] else []) @
    (case dc_Headers cfg of None \<Rightarrow> [] | Some h \<Rightarrow> map (\<lambda>k. (ToLower (wl_unicode L) k, the (h k))) (wl_order L h))"

definition DialWithConn :: "varint \<Rightarrow> wt_lib \<Rightarrow> wt_conn option \<Rightarrow> bytes \<Rightarrow> DialOption list \<Rightarrow> wt_outcome" where
  "DialWithConn V L qConn targetURL opts =
    (let fails = (\<lambda>err c cc st sc. \<lparr>wo_result = Inl err, wo_control = c, wo_control_closed = cc, wo_stream = st, wo_stream_closed = sc\<rparr>) in
     case qConn of
       None \<Rightarrow> fails WtTransport [] False [] False
     | Some q \<Rightarrow>
         (case wl_parse L targetURL of
            None \<Rightarrow> fails WtTransport [] False [] False
          | Some parsed \<Rightarrow>
              if \<not> wn_control q then fails WtTransport [] False [] False
              else
               (let payload = wl_settings L; hdr = control_header V payload in
                if \<not> fst (wn_control_writes q) then fails WtTransport [] True [] False
                else if \<not> snd (wn_control_writes q) then fails WtTransport hdr True [] False
                else case wn_stream q of
                       None \<Rightarrow> fails WtTransport (hdr @ payload) False [] False
                     | Some sid \<Rightarrow>
                         (let cfg = fold (\<lambda>opt c. opt c) opts zero_config;
                              encodedHeaders = wl_encode L sid (request_headers L parsed cfg);
                              b = vAppend V FrameTypeHeaders @ vAppend V (length encodedHeaders)
                          in if \<not> fst (wn_stream_writes q) then fails WtTransport (hdr @ payload) False [] True
                             else if \<not> snd (wn_stream_writes q) then fails WtTransport (hdr @ payload) False b True
                             else case finish_handshake V (wl_decode L) sid (wn_response q (b @ encodedHeaders)) of
                                    Inl err \<Rightarrow> fails err (hdr @ payload) False (b @ encodedHeaders) True
                                  | Inr (session, _) \<Rightarrow>
                                      \<lparr>wo_result = Inr session, wo_control = hdr @ payload, wo_control_closed = False,
                                       wo_stream = b @ encodedHeaders, wo_stream_closed = False\<rparr>))))"

text \<open>Dialling: the address, the two configurations and the connection for them.  The second component is the connection made.\<close>

definition dial_configs :: "wt_lib \<Rightarrow> bytes \<Rightarrow> DialConfig \<Rightarrow> tls_config \<times> quic_config" where
  "dial_configs L host cfg =
    (case dc_TLSConfig cfg of
       None \<Rightarrow> \<lparr>tls_ServerName = host, tls_NextProtos = [''h3''], tls_MinVersion = wl_tls13 L\<rparr>
     | Some t \<Rightarrow> if length (tls_NextProtos t) = 0 then t\<lparr>tls_NextProtos := [''h3'']\<rparr> else t,
     case dc_QUICConfig cfg of
       None \<Rightarrow> \<lparr>qc_EnableDatagrams = True, qc_MaxIdleTimeout = 30 * 10 ^ 9\<rparr>
     | Some q \<Rightarrow> q\<lparr>qc_EnableDatagrams := True\<rparr>)"

definition Dial_wt ::
  "varint \<Rightarrow> wt_lib \<Rightarrow> (bytes \<Rightarrow> tls_config \<Rightarrow> quic_config \<Rightarrow> wt_conn option) \<Rightarrow> bytes \<Rightarrow> DialOption list \<Rightarrow> (wt_error + Session) \<times> wt_conn option" where
  "Dial_wt V L dial targetURL opts =
    (case wl_parse L targetURL of
       None \<Rightarrow> (Inl WtTransport, None)
     | Some parsed \<Rightarrow>
         (let host = Hostname parsed;
              portStr = (if Port parsed = [] then ''443'' else Port parsed);
              cfg = fold (\<lambda>opt c. opt c) opts (zero_config\<lparr>dc_Headers := Some Map.empty\<rparr>);
              (tls, quic) = dial_configs L host cfg
          in case dial (JoinHostPort host portStr) tls quic of
               None \<Rightarrow> (Inl WtTransport, None)
             | Some qConn \<Rightarrow> (wo_result (DialWithConn V L (Some qConn) targetURL opts), Some qConn)))"

section \<open>The dispatcher\<close>

text \<open>The three loops of a connection.  An event is what one of them is given next: a stream with its bytes, a datagram or an error, which
  ends that loop and closes the session the first time.\<close>

datatype conn_event = BidiStream bool nat bytes | BidiError | UniStream bool nat bytes | UniError | Dgram bytes | DgramError

record dispatcher =
  cd_bidi :: bool
  cd_uni :: bool
  cd_dgram :: bool
  cd_cleaned :: bool
  cd_session :: Session

definition cd_cleanup :: "varint \<Rightarrow> dispatcher \<Rightarrow> dispatcher" where
  "cd_cleanup V d = (if cd_cleaned d then d else d\<lparr>cd_cleaned := True, cd_session := dispatcher_cleanup V (cd_session d)\<rparr>)"

definition connection_event :: "varint \<Rightarrow> conn_event \<Rightarrow> dispatcher \<Rightarrow> dispatcher" where
  "connection_event V e d =
    (case e of
       BidiStream ctxFirst sid r \<Rightarrow>
         if cd_bidi d then d\<lparr>cd_session := snd (handleIncomingBidi V ctxFirst sid r (cd_session d))\<rparr> else d
     | BidiError \<Rightarrow> if cd_bidi d then cd_cleanup V (d\<lparr>cd_bidi := False\<rparr>) else d
     | UniStream ctxFirst sid r \<Rightarrow>
         if cd_uni d then d\<lparr>cd_session := snd (handleIncomingUni V ctxFirst sid r (cd_session d))\<rparr> else d
     | UniError \<Rightarrow> if cd_uni d then cd_cleanup V (d\<lparr>cd_uni := False\<rparr>) else d
     | Dgram b \<Rightarrow> if cd_dgram d then d\<lparr>cd_session := dispatch_datagram V b (cd_session d)\<rparr> else d
     | DgramError \<Rightarrow> if cd_dgram d then cd_cleanup V (d\<lparr>cd_dgram := False\<rparr>) else d)"

definition StartConnectionDispatcher :: "varint \<Rightarrow> conn_event list \<Rightarrow> Session \<Rightarrow> dispatcher" where
  "StartConnectionDispatcher V es session =
    fold (connection_event V) es \<lparr>cd_bidi = True, cd_uni = True, cd_dgram = True, cd_cleaned = False, cd_session = session\<rparr>"

section \<open>Opening streams\<close>

text \<open>The blocking variants wait for the transport, whose answer is an argument.\<close>

definition OpenStreamSync :: "nat option \<Rightarrow> Session \<Rightarrow> wt_error + Stream" where
  "OpenStreamSync raw s =
    (if ses_closed s then Inl ErrSessionClosed
     else if ses_draining s then Inl ErrSessionDraining
     else case raw of None \<Rightarrow> Inl WtTransport | Some sid \<Rightarrow> Inr (newOutgoingStream (sessionID s) sid))"

definition OpenUniStreamSync :: "nat option \<Rightarrow> Session \<Rightarrow> wt_error + SendStream" where
  "OpenUniStreamSync raw s =
    (if ses_closed s then Inl ErrSessionClosed
     else if ses_draining s then Inl ErrSessionDraining
     else case raw of None \<Rightarrow> Inl WtTransport | Some sid \<Rightarrow> Inr (newSendStream (sessionID s) sid))"

section \<open>Lemmas\<close>

lemma varint_length:
  assumes "varint_laws V" and "v < 2 ^ 62"
  shows "length (vAppend V v) \<le> 8"
proof -
  have "byte_val (hd (vAppend V v)) div 64 \<le> 3" using div_le_mono [OF byte_val_le [of "hd (vAppend V v)"], of 64] by simp
  then have "(2::nat) ^ (byte_val (hd (vAppend V v)) div 64) \<le> 2 ^ 3" by (rule power_increasing) simp
  then show ?thesis using varint_lawsD(2) [OF assms] by simp
qed

lemma append_at_prefix: "length a + length bs \<le> length (a @ r) \<Longrightarrow> append_at (a @ r) (length a) bs = Some ((a @ bs) @ drop (length bs) r)"
  by (simp add: append_at_def overwrite_def)

lemma control_header_bytes:
  assumes "varint_laws V" and "length payload < 2 ^ 62"
  shows "control_header V payload = byte_of 0 # vAppend V FrameTypeSettings @ vAppend V (length payload)"
proof -
  let ?n = "vAppend V FrameTypeSettings" and ?l = "vAppend V (length payload)"
  have n: "length ?n \<le> 8" and l: "length ?l \<le> 8" using varint_length assms by auto
  have r: "replicate 64 (byte_of 0) = [byte_of 0] @ replicate 63 (byte_of 0)" by (simp add: numeral_eq_Suc)
  have 1: "append_at (replicate 64 (byte_of 0)) 1 ?n = Some (([byte_of 0] @ ?n) @ replicate (63 - length ?n) (byte_of 0))"
    unfolding r using append_at_prefix [of "[byte_of 0]" ?n "replicate 63 (byte_of 0)"] n by simp
  have 2: "append_at (([byte_of 0] @ ?n) @ replicate (63 - length ?n) (byte_of 0)) (1 + length ?n) ?l =
      Some ((([byte_of 0] @ ?n) @ ?l) @ replicate (63 - length ?n - length ?l) (byte_of 0))"
    using append_at_prefix [of "[byte_of 0] @ ?n" ?l "replicate (63 - length ?n) (byte_of 0)"] n l by simp
  show ?thesis using varint_lawsD(4) [OF assms] unfolding control_header_def Let_def 1 option.case 2 by simp
qed

lemma frame_header_read:
  assumes "varint_laws V" and "t < 2 ^ 62" and "length p < 2 ^ 62"
  shows "readH3FrameHeader V ((vAppend V t @ vAppend V (length p)) @ p) = Inr (t, length p, p)"
  using readVarint_written [OF assms(1,2)] readVarint_written [OF assms(1,3)] by (simp add: readH3FrameHeader_def)


section \<open>Properties\<close>

text \<open>What is written in the course of a successful handshake.\<close>

lemma DialWithConn_success:
  assumes "wo_result (DialWithConn V L (Some q) targetURL opts) = Inr s"
  obtains parsed sid enc r where "wl_parse L targetURL = Some parsed" and "wn_stream q = Some sid"
    and "enc = wl_encode L sid (request_headers L parsed (fold (\<lambda>opt c. opt c) opts zero_config))"
    and "wo_control (DialWithConn V L (Some q) targetURL opts) = control_header V (wl_settings L) @ wl_settings L"
    and "wo_stream (DialWithConn V L (Some q) targetURL opts) = (vAppend V FrameTypeHeaders @ vAppend V (length enc)) @ enc"
    and "finish_handshake V (wl_decode L) sid (wn_response q ((vAppend V FrameTypeHeaders @ vAppend V (length enc)) @ enc)) = Inr (s, r)"
  using assms by (auto simp: DialWithConn_def Let_def split: option.splits if_splits sum.splits prod.splits)


definition example_lib :: wt_lib where
  "example_lib = \<lparr>wl_parse = (\<lambda>_. Some \<lparr>u_Scheme = ''https'', u_Host = ''h'', u_Path = ''/'', u_RawQuery = [], u_Fragment = [], u_String = []\<rparr>),
     wl_RequestURI = u_Path, wl_order = (\<lambda>_. []), wl_unicode = \<lparr>uni_lower = id, uni_upper = id, uni_fold = (=)\<rparr>, wl_quote = id, wl_settings = ''s'',
     wl_encode = (\<lambda>_ _. ''req''), wl_decode = (\<lambda>_. Some [('':status'', ''200'')]), wl_tls13 = 772\<rparr>"

definition example_conn :: wt_conn where
  "example_conn = \<lparr>wn_control = True, wn_control_writes = (True, True), wn_stream = Some 4, wn_stream_writes = (True, True),
     wn_response = (\<lambda>_. [byte_of 1, byte_of 1, CHR ''x''])\<rparr>"


text \<open>When the handshake over a connection that \<^verbatim>\<open>Dial\<close> made fails, nobody closes the connection.\<close>

lemma failed_handshake_keeps_conn:
  "\<exists>q. Dial_wt rfc_varint example_lib (\<lambda>_ _ _. Some (example_conn\<lparr>wn_stream := None\<rparr>)) ''u'' [] = (Inl WtTransport, Some q)"
  by (simp add: Dial_wt_def DialWithConn_def example_lib_def example_conn_def dial_configs_def zero_config_def Let_def)

text \<open>However the three loops fail, the session is closed once, and afterwards nothing is delivered to it.\<close>

lemma dispatcher_closes:
  "cd_cleaned (fold (connection_event V) es d) \<longleftrightarrow> cd_cleaned d \<or>
     (\<exists>e \<in> set es. e = BidiError \<and> cd_bidi d \<or> e = UniError \<and> cd_uni d \<or> e = DgramError \<and> cd_dgram d)"
proof (induction es arbitrary: d)
  case (Cons e es)
  show ?case unfolding fold_simps(2) o_apply Cons.IH
    by (cases e) (auto simp: connection_event_def cd_cleanup_def)
qed simp

end
