(* ===== verification/Socket_Cipher.thy ===== *)
theory Socket_Cipher
  imports Socket_Connector
begin

text \<open>
  Package \<^verbatim>\<open>socket/connector\<close>: the cipher of a connector and the frames of its read loop.  \<^verbatim>\<open>Connect\<close> reads the cipher before it dials and stores the
  connection after it, \<^verbatim>\<open>SetCipher\<close> stores the cipher under the lock and hands it to the connection after it, so the two are steps that
  interleave.  A cipher is a number, none is \<open>None\<close>.
\<close>

section \<open>The cipher\<close>

record cipher_state =
  ck_cipher :: "nat option"
  ck_conn :: "(nat \<times> nat option) option"
  ck_dial :: "nat option option"
  ck_forward :: "(nat \<times> nat option) list"
  ck_next :: nat

definition cipher_start :: "nat option \<Rightarrow> cipher_state" where
  "cipher_start c = \<lparr>ck_cipher = c, ck_conn = None, ck_dial = None, ck_forward = [], ck_next = 0\<rparr>"

text \<open>The two parts of \<^verbatim>\<open>SetCipher\<close>: under the lock, and the call on the connection seen there.\<close>

definition set_locked :: "nat option \<Rightarrow> cipher_state \<Rightarrow> cipher_state" where
  "set_locked c s = s\<lparr>ck_cipher := c, ck_forward := (case ck_conn s of None \<Rightarrow> ck_forward s | Some (n, _) \<Rightarrow> ck_forward s @ [(n, c)])\<rparr>"

definition set_forward :: "nat \<Rightarrow> nat option \<Rightarrow> cipher_state \<Rightarrow> cipher_state" where
  "set_forward n c s = (case ck_conn s of Some (m, x) \<Rightarrow> if m = n then s\<lparr>ck_conn := Some (m, c)\<rparr> else s | None \<Rightarrow> s)"

definition SetCipher_connector :: "nat option \<Rightarrow> cipher_state \<Rightarrow> cipher_state" where
  "SetCipher_connector c s = (case ck_conn s of None \<Rightarrow> s\<lparr>ck_cipher := c\<rparr> | Some (n, _) \<Rightarrow> set_forward n c (s\<lparr>ck_cipher := c\<rparr>))"

text \<open>Reading the cipher before the dial and storing the connection after it.\<close>

definition dial_begin :: "cipher_state \<Rightarrow> cipher_state" where
  "dial_begin s = s\<lparr>ck_dial := Some (ck_cipher s)\<rparr>"

definition dial_commit :: "nat option \<Rightarrow> cipher_state \<Rightarrow> cipher_state" where
  "dial_commit x s = s\<lparr>ck_conn := Some (ck_next s, x), ck_next := Suc (ck_next s), ck_dial := None\<rparr>"

inductive cipher_step :: "cipher_state \<Rightarrow> cipher_state \<Rightarrow> bool" where
  cs_begin: "ck_dial s = None \<Longrightarrow> cipher_step s (dial_begin s)"
| cs_commit: "ck_dial s = Some x \<Longrightarrow> cipher_step s (dial_commit x s)"
| cs_fail: "ck_dial s = Some x \<Longrightarrow> cipher_step s (s\<lparr>ck_dial := None\<rparr>)"
| cs_drop: "cipher_step s (s\<lparr>ck_conn := None\<rparr>)"
| cs_set: "cipher_step s (set_locked c s)"
| cs_forward: "ck_forward s = as @ (n, c) # bs \<Longrightarrow> cipher_step s (set_forward n c (s\<lparr>ck_forward := as @ bs\<rparr>))"

text \<open>The same with \<^verbatim>\<open>SetCipher\<close> as one step, taken only when no dial is under way.\<close>

inductive calm_step :: "cipher_state \<Rightarrow> cipher_state \<Rightarrow> bool" where
  ks_begin: "ck_dial s = None \<Longrightarrow> calm_step s (dial_begin s)"
| ks_commit: "ck_dial s = Some x \<Longrightarrow> calm_step s (dial_commit x s)"
| ks_fail: "ck_dial s = Some x \<Longrightarrow> calm_step s (s\<lparr>ck_dial := None\<rparr>)"
| ks_drop: "calm_step s (s\<lparr>ck_conn := None\<rparr>)"
| ks_set: "ck_dial s = None \<Longrightarrow> calm_step s (SetCipher_connector c s)"

definition agree :: "cipher_state \<Rightarrow> bool" where
  "agree s \<longleftrightarrow> (\<forall>n x. ck_conn s = Some (n, x) \<longrightarrow> x = ck_cipher s) \<and> (\<forall>x. ck_dial s = Some x \<longrightarrow> x = ck_cipher s)"

interpretation calm: invariant_system "\<lambda>s. s = cipher_start c" calm_step agree for c
proof
  fix s t assume inv: "agree s" and "calm_step s t"
  from this(2) show "agree t"
    by cases (use inv in \<open>auto simp: agree_def dial_begin_def dial_commit_def SetCipher_connector_def set_forward_def split: option.splits prod.splits\<close>)
qed (simp add: agree_def cipher_start_def)

text \<open>As long as the cipher is set only when nobody dials, the connection always uses the cipher of the connector.\<close>

lemma connection_has_cipher: "reach (\<lambda>s. s = cipher_start c) calm_step s \<Longrightarrow> ck_conn s = Some (n, x) \<Longrightarrow> x = ck_cipher s"
  using calm.reach_inv [of c s] by (simp add: agree_def)

text \<open>A cipher set during a dial is not used by the connection that is being made.\<close>

lemma cipher_lost_during_dial:
  "\<exists>s. reach (\<lambda>s. s = cipher_start None) cipher_step s \<and> ck_dial s = None \<and> ck_forward s = [] \<and> ck_cipher s = Some 1 \<and> ck_conn s = Some (0, None)"
proof -
  let ?s1 = "dial_begin (cipher_start None)" let ?s2 = "set_locked (Some 1) ?s1" let ?s3 = "dial_commit None ?s2"
  have "reach (\<lambda>s. s = cipher_start None) cipher_step (cipher_start None)" by (rule reach_init) simp
  moreover have "cipher_step (cipher_start None) ?s1" by (rule cs_begin) (simp add: cipher_start_def)
  moreover have "cipher_step ?s1 ?s2" by (rule cs_set)
  moreover have "cipher_step ?s2 ?s3" by (rule cs_commit) (simp add: cipher_start_def dial_begin_def set_locked_def)
  ultimately have "reach (\<lambda>s. s = cipher_start None) cipher_step ?s3" by (metis reach_step)
  then show ?thesis by (intro exI [of _ ?s3]) (simp add: cipher_start_def dial_begin_def set_locked_def dial_commit_def)
qed

text \<open>Two callers that set different ciphers can hand them over in the other order.\<close>

lemma ciphers_cross:
  "\<exists>t. cipher_step\<^sup>*\<^sup>* ((cipher_start None)\<lparr>ck_conn := Some (0, None)\<rparr>) t \<and> ck_forward t = [] \<and> ck_cipher t = Some 2 \<and> ck_conn t = Some (0, Some 1)"
proof -
  let ?s0 = "(cipher_start None)\<lparr>ck_conn := Some (0, None)\<rparr>"
  let ?s1 = "set_locked (Some 1) ?s0" let ?s2 = "set_locked (Some 2) ?s1"
  let ?s3 = "set_forward 0 (Some 2) (?s2\<lparr>ck_forward := [(0, Some 1)]\<rparr>)" let ?s4 = "set_forward 0 (Some 1) (?s3\<lparr>ck_forward := []\<rparr>)"
  have f: "ck_forward ?s2 = [(0, Some 1)] @ (0, Some 2) # []" by (simp add: cipher_start_def set_locked_def)
  have g: "ck_forward ?s3 = [] @ (0, Some 1) # []" by (simp add: cipher_start_def set_locked_def set_forward_def)
  have "cipher_step ?s0 ?s1" "cipher_step ?s1 ?s2" by (rule cs_set)+
  moreover have "cipher_step ?s2 ?s3" using cs_forward [OF f] by simp
  moreover have "cipher_step ?s3 ?s4" using cs_forward [OF g] by simp
  ultimately have "cipher_step\<^sup>*\<^sup>* ?s0 ?s4" by (meson rtranclp.rtrancl_into_rtrancl rtranclp.rtrancl_refl)
  then show ?thesis by (intro exI [of _ ?s4]) (simp add: cipher_start_def set_locked_def set_forward_def)
qed

section \<open>The read loop\<close>

text \<open>One turn: whether the context is done before it, the frame received or an error, and whether the frame is taken by the channel rather
  than the end of the context.  The result: the frames put on the channel, those given back to the pool, and whether the loop returned.\<close>

record receive_turn =
  rt_done :: bool
  rt_frame :: "FrameBuffer option"
  rt_sent :: bool

fun readLoop_frames :: "receive_turn list \<Rightarrow> FrameBuffer list \<times> FrameBuffer list \<times> bool" where
  "readLoop_frames [] = ([], [], False)"
| "readLoop_frames (t # ts) =
    (if rt_done t then ([], [], True)
     else case rt_frame t of
            None \<Rightarrow> ([], [], True)
          | Some fb \<Rightarrow>
              if rt_sent t then (case readLoop_frames ts of (sent, released, r) \<Rightarrow> (fb # sent, released, r))
              else ([], [fb], True))"

text \<open>Every frame received before the loop returns goes to exactly one place, in order, and at most the last one back to the pool.\<close>

fun received :: "receive_turn list \<Rightarrow> FrameBuffer list" where
  "received [] = []"
| "received (t # ts) =
    (if rt_done t then [] else case rt_frame t of None \<Rightarrow> [] | Some fb \<Rightarrow> if rt_sent t then fb # received ts else [fb])"

lemma readLoop_conserves:
  "readLoop_frames ts = (sent, released, r) \<Longrightarrow> sent @ released = received ts \<and> length released \<le> 1"
  by (induction ts arbitrary: sent) (auto split: if_splits option.splits prod.splits)

end
