(* ===== verification/Socket_Link.thy ===== *)
theory Socket_Link
  imports Socket_Cipher Socket_Dispatch
begin

text \<open>
  The socket packages put together: what one side hands to \<^verbatim>\<open>Send\<close> of its connection travels through framer
  and cipher, is received by the read loop of the connector on the other side, taken from the channel
  by the worker pool, decoded and dispatched.  The packages meet in the byte stream, in the
  frames of \<open>readLoop_frames\<close> and in the channel of \<open>pool_step\<close>; no new code is modelled here but
  the order of the calls.
\<close>

section \<open>The two ends\<close>

text \<open>Sending one payload after another, each with what the pool has; and the payloads whose \<^verbatim>\<open>Send\<close> returned nil.\<close>

fun send_all :: "NetConnWrapper \<Rightarrow> (FrameBuffer option \<times> bytes) list \<Rightarrow> writer \<Rightarrow> sock_error option list \<times> writer" where
  "send_all n [] w = ([], w)"
| "send_all n ((pooled, data) # xs) w =
    (case Send n pooled w data of (e, rel, w) \<Rightarrow> (case send_all n xs w of (es, w) \<Rightarrow> (e # es, w)))"

fun accepted :: "('a \<times> bytes) list \<Rightarrow> sock_error option list \<Rightarrow> bytes list" where
  "accepted ((pooled, data) # xs) (None # es) = data # accepted xs es"
| "accepted (x # xs) (Some err # es) = accepted xs es"
| "accepted xs es = []"

lemma ReadFrame_shrinks: "snd (ReadFrame f pooled r) = Inr (fb, r') \<Longrightarrow> length r' < length r"
  by (auto simp: ReadFrame_def Let_def ReadFull_def split: if_splits)

lemma Receive_shrinks: "snd (Receive n pooled r) = Inr (fb, r') \<Longrightarrow> length r' < length r"
  using ReadFrame_shrinks [of "n_framer n" pooled r]
  by (auto simp: Receive_def split: prod.splits sum.splits option.splits if_splits)

text \<open>
  The turns of a read loop on a stream that ends after the given bytes, with a channel that takes every frame;
  \<open>pools\<close> is what the pool has at each turn.
\<close>

function receive_turns :: "NetConnWrapper \<Rightarrow> FrameBuffer option list \<Rightarrow> bytes \<Rightarrow> receive_turn list" where
  "receive_turns n pools r =
    (case snd (Receive n (case pools of [] \<Rightarrow> None | p # _ \<Rightarrow> p) r) of
       Inl err \<Rightarrow> [\<lparr>rt_done = False, rt_frame = None, rt_sent = False\<rparr>]
     | Inr (fb, r) \<Rightarrow> \<lparr>rt_done = False, rt_frame = Some fb, rt_sent = True\<rparr> # receive_turns n (tl pools) r)"
  by pat_completeness auto
termination
  by (relation "measure (\<lambda>(n, pools, r). length r)") (auto dest: Receive_shrinks)

declare receive_turns.simps [simp del]

definition link_frames :: "NetConnWrapper \<Rightarrow> FrameBuffer option list \<Rightarrow> bytes \<Rightarrow> FrameBuffer list \<times> FrameBuffer list \<times> bool" where
  "link_frames n pools r = readLoop_frames (receive_turns n pools r)"

lemma link_frames_error:
  assumes "\<And>pooled. \<exists>err. snd (Receive n pooled r) = Inl err"
  shows "link_frames n pools r = ([], [], True)"
proof -
  obtain err where "snd (Receive n (case pools of [] \<Rightarrow> None | p # _ \<Rightarrow> p) r) = Inl err" using assms by blast
  then show ?thesis by (simp add: link_frames_def receive_turns.simps [of n pools r])
qed

lemma link_frames_next:
  assumes "\<And>pooled. \<exists>rel fb. Receive n pooled r = (rel, Inr (fb, r')) \<and> Bytes fb = data"
  shows "\<exists>fb. Bytes fb = data \<and>
    link_frames n pools r = (case link_frames n (tl pools) r' of (sent, kept, stop) \<Rightarrow> (fb # sent, kept, stop))"
proof -
  obtain rel fb where "Receive n (case pools of [] \<Rightarrow> None | p # _ \<Rightarrow> p) r = (rel, Inr (fb, r'))" "Bytes fb = data"
    using assms by blast
  then show ?thesis by (intro exI [of _ fb]) (simp add: link_frames_def receive_turns.simps [of n pools r])
qed

section \<open>What a failing connection delivers\<close>

text \<open>A frame cut short is an error for the reader, whatever the cipher.\<close>

lemma partial_frame:
  assumes "framer_ok f" and "payload_ok f enc" and "strict_prefix x (frame_bytes f enc)"
  shows "\<exists>err. snd (Receive \<lparr>n_framer = f, n_cipher = ci\<rparr> pooled x) = Inl err"
proof -
  obtain y where y: "frame_bytes f enc = x @ y" "y \<noteq> []" using assms(3) by (auto elim!: strict_prefixE')
  have len: "length x < 4 + length (Magic f) + length enc"
    using arg_cong [OF y(1), of length] y(2) by (cases y) (simp_all add: frame_bytes_def)
  have "unat (Uint32 (ByteOrder f) (take 4 x)) = length enc" if "\<not> length x < 4 + length (Magic f)"
  proof -
    have "take 4 x = take 4 (frame_bytes f enc)" using that y(1) by simp
    then show ?thesis
      using length_announced_modulo [of f enc] max_below_word [of enc "MaxLength f"] assms(2) by (simp add: payload_ok_def)
  qed
  then have "\<exists>err. read_payload f pooled x = Inl err"
    using len by (auto simp: read_payload_eq [OF assms(1)] Let_def)
  then obtain rel err where "ReadFrame f pooled x = (rel, Inl err)"
    by (cases "ReadFrame f pooled x") (auto simp: read_payload_def split: sum.splits prod.splits)
  then show ?thesis by (simp add: Receive_def)
qed

text \<open>A write of a frame succeeds with the whole frame, or leaves a part of it and a connection that takes nothing more.\<close>

lemma take_strict_prefix: "k < length xs \<Longrightarrow> strict_prefix (take k xs) xs"
  by (auto simp: strict_prefix_def take_is_prefix)

lemma WriteFrame_cases:
  assumes "framer_ok f" and "WriteFrame f w data = (e, w')"
  obtains "e = None" "w_out w' = w_out w @ frame_bytes f data"
  | x err where "e = Some err" "strict_prefix x (frame_bytes f data)" "w_out w' = w_out w @ x" "w_room w' = 0"
proof (cases "length (frame_bytes f data) \<le> w_room w")
  case True
  then show ?thesis using that(1) assms(2) WriteFrame_out [OF assms(1) True] by auto
next
  case False
  then have "e = Some ErrWriteFailed" "w_out w' = w_out w @ take (w_room w) (frame_bytes f data)" "w_room w' = 0"
    using assms by (auto simp: WriteFrame_def framer_ok_def Write_def frame_bytes_def Let_def split: if_splits)
  then show ?thesis using that(2) take_strict_prefix False by (metis not_le)
qed

lemma full_connection:
  assumes "framer_ok f" and "w_room w = 0" and "Send \<lparr>n_framer = f, n_cipher = ci\<rparr> pooled w data = (e, rel, w')"
  shows "e \<noteq> None \<and> w_out w' = w_out w \<and> w_room w' = 0"
proof -
  have "Write w h = (Some ErrWriteFailed, \<lparr>w_out = w_out w, w_room = 0\<rparr>)" if "length h > 0" for h
    using assms(2) that by (simp add: Write_def)
  then have "Write w (PutUint32 (ByteOrder f) v @ Magic f) = (Some ErrWriteFailed, \<lparr>w_out = w_out w, w_room = 0\<rparr>)" for v
    by (metis add_gr_0 length_PutUint32 length_append zero_less_numeral)
  then have "WriteFrame f w d = (Some ErrWriteFailed, \<lparr>w_out = w_out w, w_room = 0\<rparr>)" for d
    using assms(1) by (simp add: WriteFrame_def framer_ok_def Let_def)
  then show ?thesis using assms(2,3) by (auto simp: Send_def Let_def split: option.splits prod.splits)
qed

lemma full_connection_all:
  assumes "framer_ok f" and "w_room w = 0" and "send_all \<lparr>n_framer = f, n_cipher = ci\<rparr> xs w = (es, w')"
  shows "accepted xs es = [] \<and> w_out w' = w_out w"
  using assms(2,3)
proof (induction xs arbitrary: w es w')
  case (Cons x xs)
  obtain pooled data where x: "x = (pooled, data)" by (cases x)
  obtain e rel w1 where s: "Send \<lparr>n_framer = f, n_cipher = ci\<rparr> pooled w data = (e, rel, w1)" by (metis prod_cases3)
  obtain es1 w2 where r: "send_all \<lparr>n_framer = f, n_cipher = ci\<rparr> xs w1 = (es1, w2)" by fastforce
  have "e \<noteq> None" "w_out w1 = w_out w" "w_room w1 = 0" using full_connection [OF assms(1) Cons.prems(1) s] by auto
  then show ?case using Cons.IH [OF _ r] Cons.prems(2) x s r by auto
qed simp

section \<open>The link\<close>

text \<open>
  Whatever fails on the way - an encryption, or the connection in the middle of a frame - the read loop of the
  other side is given exactly the payloads whose \<^verbatim>\<open>Send\<close> returned nil, in their order.
\<close>

lemma link_delivers:
  assumes "framer_ok f" and "\<forall>x\<in>set xs. sendable f ci (snd x)"
    and "send_all \<lparr>n_framer = f, n_cipher = ci\<rparr> xs w = (es, w')"
  shows "\<exists>out. w_out w' = w_out w @ out \<and> (\<forall>pools. \<exists>sent.
    link_frames \<lparr>n_framer = f, n_cipher = ci\<rparr> pools out = (sent, [], True) \<and> map Bytes sent = accepted xs es)"
  using assms(2,3)
proof (induction xs arbitrary: w es w')
  case Nil
  have "link_frames \<lparr>n_framer = f, n_cipher = ci\<rparr> pools [] = ([], [], True)" for pools
    using assms(1) by (intro link_frames_error) (simp add: Receive_def ReadFrame_def Let_def ReadFull_def framer_ok_def)
  then show ?case using Nil by simp
next
  case (Cons x xs)
  let ?n = "\<lparr>n_framer = f, n_cipher = ci\<rparr>"
  obtain pooled data where x: "x = (pooled, data)" by (cases x)
  obtain e rel w1 where s: "Send ?n pooled w data = (e, rel, w1)" by (metis prod_cases3)
  obtain es1 w2 where r: "send_all ?n xs w1 = (es1, w2)" by fastforce
  have es: "es = e # es1" "w' = w2" using Cons.prems(2) x s r by auto
  have ok: "sendable f ci data" using Cons.prems(1) x by simp
  obtain out where out: "w_out w2 = w_out w1 @ out"
    "\<And>pools. \<exists>sent. link_frames ?n pools out = (sent, [], True) \<and> map Bytes sent = accepted xs es1"
    using Cons.IH [OF _ r] Cons.prems(1) by auto
  from assms(1) ok s show ?case
  proof (cases rule: Send_frame)
    case 1
    then show ?thesis using out es x by auto
  next
    case (2 enc)
    from assms(1) 2(1) show ?thesis
    proof (cases rule: WriteFrame_cases)
      case 1
      have "\<exists>sent. link_frames ?n pools (frame_bytes f enc @ out) = (sent, [], True) \<and> map Bytes sent = data # accepted xs es1"
        for pools
        using link_frames_next [of ?n "frame_bytes f enc @ out" out data pools] 2(3) out(2) [of "tl pools"] by auto
      then show ?thesis using 1 out(1) es x by (intro exI [of _ "frame_bytes f enc @ out"]) simp
    next
      case (2 y err)
      have "link_frames ?n pools y = ([], [], True)" for pools
        using partial_frame [OF assms(1) \<open>payload_ok f enc\<close> 2(2)] by (intro link_frames_error) blast
      moreover have "accepted xs es1 = []" "w_out w2 = w_out w1" using full_connection_all [OF assms(1) 2(4) r] by auto
      ultimately show ?thesis using 2(1,3) es x by auto
    qed
  qed
qed

lemma link_received:
  assumes "framer_ok f" and "\<forall>x\<in>set xs. sendable f ci (snd x)"
    and "send_all \<lparr>n_framer = f, n_cipher = ci\<rparr> xs \<lparr>w_out = [], w_room = room\<rparr> = (es, w)"
    and "readLoop_frames (receive_turns \<lparr>n_framer = f, n_cipher = ci\<rparr> pools (w_out w)) = (sent, kept, stopped)"
  shows "map Bytes sent = accepted xs es" and "kept = []" and "stopped"
proof -
  obtain fbs where "link_frames \<lparr>n_framer = f, n_cipher = ci\<rparr> pools (w_out w) = (fbs, [], True)" "map Bytes fbs = accepted xs es"
    using link_delivers [OF assms(1-3)] by (auto simp: writer.simps)
  then show "map Bytes sent = accepted xs es" "kept = []" "stopped" using assms(4) by (simp_all add: link_frames_def)
qed

section \<open>Dispatching\<close>

definition dispatch_all ::
  "('job, 'pkt, 't) task_lib \<Rightarrow> ('op, 'job, 'pkt) Extractor \<Rightarrow> 'pkt list \<Rightarrow> ('op, 't) Dispatcher \<Rightarrow> ('op, 't) Dispatcher" where
  "dispatch_all L X pkts d = fold (\<lambda>pkt d. snd (snd (Dispatch L X pkt d))) pkts d"

lemma dispatch_all_pending:
  assumes "task_laws L"
  shows "pending L (tasks (dispatch_all L X pkts d)) = pending L (tasks d) - {j. \<exists>pkt\<in>set pkts. job_of X pkt = Some j}"
proof (induction pkts arbitrary: d)
  case (Cons pkt pkts)
  have "pending L (tasks (snd (snd (Dispatch L X pkt d)))) = pending L (tasks d) - set_option (job_of X pkt)"
    using Dispatch_calls [OF assms, of X pkt d] unfolding Let_def by force
  moreover have "dispatch_all L X (pkt # pkts) d = dispatch_all L X pkts (snd (snd (Dispatch L X pkt d)))"
    by (simp add: dispatch_all_def)
  ultimately show ?case using Cons.IH [of "snd (snd (Dispatch L X pkt d))"] by auto
qed (simp add: dispatch_all_def)

lemma decoded_frames:
  "(\<Sum>fb\<in>#mset fbs. mset (fst (processFrame (Some decode) True fb))) = mset (List.map_filter decode (map Bytes fbs))"
  by (induction fbs) (simp_all add: processFrame_def List.map_filter_def split: option.split)

section \<open>Concurrent senders\<close>

text \<open>
  \<^verbatim>\<open>WriteFrame\<close> writes the header and the payload separately and no lock is held across the two, neither in
  the framer nor in \<^verbatim>\<open>NetConnWrapper.Send\<close> nor in \<^verbatim>\<open>Connector.Send\<close>.  The state: what reached the connection,
  and what each sender still has to write.
\<close>

definition frame_writes :: "LengthPrefixedFramer \<Rightarrow> bytes \<Rightarrow> bytes list" where
  "frame_writes f data = [PutUint32 (ByteOrder f) (word_of_nat (length data)) @ Magic f, data]"

inductive writer_step :: "bytes \<times> bytes list list \<Rightarrow> bytes \<times> bytes list list \<Rightarrow> bool" where
  write_one: "writer_step (out, pre @ (p # ps) # post) (out @ p, pre @ ps # post)"

lemma concurrent_sends_mix:
  assumes "framer_ok f" and "payload_ok f a"
  shows "\<exists>out h. frame_bytes f b = h @ b \<and>
    writer_step\<^sup>*\<^sup>* ([], [frame_writes f a, frame_writes f b]) (out, [[], []]) \<and>
    read_payload f pooled out = Inr (take (length a) (h @ a @ b), drop (length a) (h @ a @ b))"
proof -
  let ?h = "\<lambda>d. PutUint32 (ByteOrder f) (word_of_nat (length d)) @ Magic f"
  let ?out = "?h a @ ?h b @ a @ b"
  have "writer_step ([], [frame_writes f a, frame_writes f b]) (?h a, [[a], frame_writes f b])"
    using write_one [of "[]" "[]"] by (simp add: frame_writes_def)
  moreover have "writer_step (?h a, [[a], frame_writes f b]) (?h a @ ?h b, [[a], [b]])"
    using write_one [of "?h a" "[[a]]" "?h b" "[b]" "[]"] by (simp add: frame_writes_def)
  moreover have "writer_step (?h a @ ?h b, [[a], [b]]) (?h a @ ?h b @ a, [[], [b]])"
    using write_one [of "?h a @ ?h b" "[]" a "[]" "[[b]]"] by simp
  moreover have "writer_step (?h a @ ?h b @ a, [[], [b]]) (?out, [[], []])"
    using write_one [of "?h a @ ?h b @ a" "[[]]" b "[]" "[]"] by simp
  ultimately have "writer_step\<^sup>*\<^sup>* ([], [frame_writes f a, frame_writes f b]) (?out, [[], []])"
    by (meson rtranclp.rtrancl_into_rtrancl rtranclp.rtrancl_refl)
  moreover have "read_payload f pooled ?out = Inr (take (length a) (?h b @ a @ b), drop (length a) (?h b @ a @ b))"
  proof -
    define x where "x = ?h b @ a @ b"
    have l: "length (take (length a) x) = length a" by (simp add: x_def)
    then have "?h a @ x = frame_bytes f (take (length a) x) @ drop (length a) x"
      unfolding frame_bytes_def l by simp
    moreover have "payload_ok f (take (length a) x)" using assms(2) l by (simp only: payload_ok_def)
    ultimately have "read_payload f pooled (?h a @ x) = Inr (take (length a) x, drop (length a) x)"
      using read_payload_written [OF assms(1)] by simp
    then show ?thesis unfolding x_def by (simp only: append_assoc)
  qed
  ultimately show ?thesis by (intro exI [of _ ?out] exI [of _ "?h b"]) (simp add: frame_bytes_def)
qed

section \<open>Properties\<close>



end
