(* ===== verification/Go_Path.thy ===== *)
theory Go_Path
  imports Go_Text
begin

text \<open>
  What the repository uses of Go's package \<^verbatim>\<open>path/filepath\<close> on Unix systems, of \<^verbatim>\<open>bufio.Scanner\<close> reading lines, and \<^verbatim>\<open>strings.Fields\<close>.
\<close>

section \<open>Paths\<close>

text \<open>\<^verbatim>\<open>filepath.Base\<close> on a Unix system.\<close>

definition path_Base :: "bytes \<Rightarrow> bytes" where
  "path_Base p =
    (if p = [] then ''.''
     else let q = dropWhile (\<lambda>c. c = CHR ''/'') (rev p); b = rev (takeWhile (\<lambda>c. c \<noteq> CHR ''/'') q) in if b = [] then ''/'' else b)"

text \<open>\<^verbatim>\<open>Clean\<close> and \<^verbatim>\<open>Join\<close>: the elements of a path are kept on a stack.\<close>

fun clean_elems :: "bool \<Rightarrow> bytes list \<Rightarrow> bytes list \<Rightarrow> bytes list" where
  "clean_elems rooted st [] = rev st"
| "clean_elems rooted st (e # es) =
    (if e = [] \<or> e = ''.'' then clean_elems rooted st es
     else if e = ''..'' then
       (case st of
          [] \<Rightarrow> clean_elems rooted (if rooted then [] else [e]) es
        | t # ts \<Rightarrow> clean_elems rooted (if t = ''..'' then e # st else ts) es)
     else clean_elems rooted (e # st) es)"

definition path_Clean :: "bytes \<Rightarrow> bytes" where
  "path_Clean p =
    (let rooted = prefix ''/'' p; q = Join ''/'' (clean_elems rooted [] (Split CHR ''/'' p))
     in if rooted then ''/'' @ q else if q = [] then ''.'' else q)"

definition path_Join :: "bytes list \<Rightarrow> bytes" where
  "path_Join es = (case filter (\<lambda>e. e \<noteq> []) es of [] \<Rightarrow> [] | fs \<Rightarrow> path_Clean (Join ''/'' fs))"

section \<open>Lines and fields\<close>

text \<open>The lines of a text; a line of 64 KiB or more stops the scanner with an error.\<close>

definition dropCR :: "bytes \<Rightarrow> bytes" where
  "dropCR l = (if l \<noteq> [] \<and> last l = CHR 0x0D then butlast l else l)"

definition scan_lines :: "bytes \<Rightarrow> bytes list \<times> bool" where
  "scan_lines s =
    (let ls = Split (CHR 0x0A) s; ls = (if last ls = [] then butlast ls else ls);
         fit = takeWhile (\<lambda>l. length l < 65536) ls
     in (map dropCR fit, length fit = length ls))"

function fields_loop :: "bytes \<Rightarrow> bytes \<Rightarrow> bytes list" where
  "fields_loop cur [] = (if cur = [] then [] else [cur])"
| "fields_loop cur (c # cs) =
    (case find (\<lambda>w. prefix w (c # cs)) spaces of
       Some w \<Rightarrow> (if cur = [] then [] else [cur]) @ fields_loop [] (drop (length w) (c # cs))
     | None \<Rightarrow> fields_loop (cur @ [c]) cs)"
  by pat_completeness auto
termination
proof (relation "measure (\<lambda>(cur, s). length s)")
  fix cur c cs w assume "find (\<lambda>w. prefix w (c # cs)) spaces = Some w"
  then have "w \<in> set spaces \<and> prefix w (c # cs)" by (auto simp: find_Some_iff)
  then show "(([], drop (length w) (c # cs)), (cur, c # cs)) \<in> measure (\<lambda>(cur, s). length s)" by (auto simp: prefix_def)
qed simp_all

declare fields_loop.simps(2) [simp del]

definition Fields :: "bytes \<Rightarrow> bytes list" where
  "Fields s = fields_loop [] s"

lemma path_Base_chars: "set (path_Base p) \<subseteq> set p \<union> {CHR ''.'', CHR ''/''}"
proof -
  let ?q = "dropWhile (\<lambda>c. c = CHR ''/'') (rev p)"
  have "set (takeWhile (\<lambda>c. c \<noteq> CHR ''/'') ?q) \<subseteq> set ?q" "set ?q \<subseteq> set p"
    using set_takeWhileD [of _ _ ?q] set_dropWhileD [of _ _ "rev p"] by auto
  then show ?thesis by (auto simp: path_Base_def Let_def)
qed

lemma space_found: "find (\<lambda>w. prefix w (CHR '' '' # s)) spaces = Some '' ''"
  by (simp add: spaces_def byte_eval)

lemma space_not_found: "\<not> space_byte c \<Longrightarrow> find (\<lambda>w. prefix w (c # s)) spaces = None"
proof -
  assume c: "\<not> space_byte c"
  have "\<not> prefix w (c # s)" if w: "w \<in> set spaces" for w
  proof -
    obtain d ds where "w = d # ds" using spaces_not_Nil [OF w] by (auto simp: neq_Nil_conv)
    then show ?thesis using spaces_bytes [OF w] c by auto
  qed
  then show ?thesis by (auto simp: find_None_iff)
qed

lemma fields_word: "list_all (\<lambda>c. \<not> space_byte c) w \<Longrightarrow> fields_loop cur (w @ s) = fields_loop (cur @ w) s"
  by (induction w arbitrary: cur) (simp_all add: fields_loop.simps(2) space_not_found)

text \<open>Words joined by blanks are split again.\<close>

definition word_ok :: "bytes \<Rightarrow> bool" where
  "word_ok w \<longleftrightarrow> w \<noteq> [] \<and> list_all (\<lambda>c. \<not> space_byte c) w"

lemma Fields_Join: "list_all word_ok ws \<Longrightarrow> Fields (Join '' '' ws) = ws"
proof (induction ws rule: induct_list012)
  case (2 w)
  then show ?case using fields_word [of w "[]" "[]"] by (simp add: Fields_def word_ok_def)
next
  case (3 w v ws)
  have "fields_loop w (CHR '' '' # Join '' '' (v # ws)) = w # Fields (Join '' '' (v # ws))"
    using 3(3) by (simp add: fields_loop.simps(2) space_found Fields_def word_ok_def)
  then show ?case using 3 fields_word [of w "[]" "CHR '' '' # Join '' '' (v # ws)"] by (simp add: Fields_def word_ok_def)
qed (simp add: Fields_def)

end
