(* ===== verification/SSH_Hosts.thy ===== *)
theory SSH_Hosts
  imports Go_Path
begin

text \<open>
  Package \<^verbatim>\<open>ssh\<close>, files \<^verbatim>\<open>src/ssh/utils.go\<close> and \<^verbatim>\<open>errors.go\<close>: private keys and certificates, and the cache of \<^verbatim>\<open>known_hosts\<close> files.  What the
  third-party SSH library does is an argument: parsing keys and files, checking a key against a parsed file (\<open>chk\<close>), and the line
  that records a key.  Times are nanoseconds; the file system is a part of the state, with the time each file was last
  modified.
\<close>

section \<open>Errors and keys\<close>

datatype ssh_error =
    ErrSSHDialFailed
  | ErrSSHClosed
  | ErrInvalidPrivateKey
  | ErrInvalidCertificate
  | ErrHostKeyMismatch
  | ErrHostNotFound
  | ErrCommandInitFailed
  | ErrProxyAndJumpConflict
  | ErrFingerprintMismatch
  | ErrPtyRequestFailed
  | ErrFile
  | ErrHome
  | ErrKnownHosts
  | ErrOther nat

record 's key_lib =
  kl_parse :: "bytes \<Rightarrow> 's option"
  kl_parse_with :: "bytes \<Rightarrow> bytes \<Rightarrow> 's option"
  kl_cert :: "bytes \<Rightarrow> bool option"
  kl_cert_signer :: "bytes \<Rightarrow> 's \<Rightarrow> 's option"

definition ParseKey :: "'s key_lib \<Rightarrow> bytes \<Rightarrow> bytes \<Rightarrow> ssh_error + 's" where
  "ParseKey L privateKey passphrase =
    (if passphrase \<noteq> [] then
       (case kl_parse_with L privateKey passphrase of None \<Rightarrow> Inl ErrInvalidPrivateKey | Some signer \<Rightarrow> Inr signer)
     else case kl_parse L privateKey of None \<Rightarrow> Inl ErrInvalidPrivateKey | Some signer \<Rightarrow> Inr signer)"

definition ParseKeyFile :: "'s key_lib \<Rightarrow> (bytes \<rightharpoonup> bytes) \<Rightarrow> bytes \<Rightarrow> bytes \<Rightarrow> ssh_error + 's" where
  "ParseKeyFile L files prvFile passphrase =
    (case files prvFile of None \<Rightarrow> Inl ErrFile | Some privateKey \<Rightarrow> ParseKey L privateKey passphrase)"

text \<open>\<open>kl_cert\<close> parses a public key and tells whether it is a certificate.\<close>

definition ParseCertKey :: "'s key_lib \<Rightarrow> bytes \<Rightarrow> bytes \<Rightarrow> bytes \<Rightarrow> ssh_error + 's" where
  "ParseCertKey L certBytes keyBytes passphrase =
    (case ParseKey L keyBytes passphrase of
       Inl err \<Rightarrow> Inl err
     | Inr signer \<Rightarrow>
         (case kl_cert L certBytes of
            None \<Rightarrow> Inl ErrInvalidCertificate
          | Some isCert \<Rightarrow>
              if \<not> isCert then Inl ErrInvalidCertificate
              else case kl_cert_signer L certBytes signer of None \<Rightarrow> Inl ErrInvalidCertificate | Some s \<Rightarrow> Inr s))"

definition ParseCertKeyFile :: "'s key_lib \<Rightarrow> (bytes \<rightharpoonup> bytes) \<Rightarrow> bytes \<Rightarrow> bytes \<Rightarrow> bytes \<Rightarrow> ssh_error + 's" where
  "ParseCertKeyFile L files certFile keyFile passphrase =
    (case files certFile of
       None \<Rightarrow> Inl ErrFile
     | Some certBytes \<Rightarrow> (case files keyFile of None \<Rightarrow> Inl ErrFile | Some keyBytes \<Rightarrow> ParseCertKey L certBytes keyBytes passphrase))"

section \<open>The cache of known hosts\<close>

record 'cb knownHostsCacheEntry =
  lastStat :: int
  modTime :: int
  callback :: 'cb

abbreviation knownHostsStatInterval :: int where "knownHostsStatInterval \<equiv> 10 ^ 9"

record 'cb hosts =
  h_cache :: "bytes \<rightharpoonup> 'cb knownHostsCacheEntry"
  h_files :: "bytes \<rightharpoonup> bytes"
  h_mtime :: "bytes \<Rightarrow> int"
  h_now :: int

definition KnownHosts :: "(bytes \<Rightarrow> 'cb option) \<Rightarrow> bytes \<Rightarrow> 'cb hosts \<Rightarrow> (ssh_error + 'cb) \<times> 'cb hosts" where
  "KnownHosts parse f s =
    (let reload = (\<lambda>c. case parse c of
           None \<Rightarrow> (Inl ErrKnownHosts, s)
         | Some cb \<Rightarrow> (Inr cb, s\<lparr>h_cache := (h_cache s)(f \<mapsto> \<lparr>lastStat = h_now s, modTime = h_mtime s f, callback = cb\<rparr>)\<rparr>))
     in case h_cache s f of
          None \<Rightarrow> (case h_files s f of None \<Rightarrow> (Inl ErrFile, s) | Some c \<Rightarrow> reload c)
        | Some e \<Rightarrow>
            if h_now s - lastStat e < knownHostsStatInterval then (Inr (callback e), s)
            else (case h_files s f of
                    None \<Rightarrow> (Inr (callback e), s)
                  | Some c \<Rightarrow>
                      if \<not> h_mtime s f > modTime e then
                        (Inr (callback e), s\<lparr>h_cache := (h_cache s)(f \<mapsto> e\<lparr>lastStat := h_now s\<rparr>)\<rparr>)
                      else reload c))"

text \<open>A write gives the file the time \<open>m\<close>; creating the file may fail.\<close>

definition write_file :: "bytes \<Rightarrow> bytes \<Rightarrow> int \<Rightarrow> 'cb hosts \<Rightarrow> 'cb hosts" where
  "write_file f c m s = s\<lparr>h_files := (h_files s)(f \<mapsto> c), h_mtime := (h_mtime s)(f := m)\<rparr>"

definition EnsureKnownHosts :: "(bytes \<Rightarrow> 'cb option) \<Rightarrow> bool \<Rightarrow> int \<Rightarrow> bytes \<Rightarrow> 'cb hosts \<Rightarrow> (ssh_error + 'cb) \<times> 'cb hosts" where
  "EnsureKnownHosts parse creatable m f s =
    (if h_files s f = None then
       (if \<not> creatable then (Inl ErrFile, s) else KnownHosts parse f (write_file f [] m s))
     else KnownHosts parse f s)"

definition DefaultKnownHostsPath :: "bytes option \<Rightarrow> ssh_error + bytes" where
  "DefaultKnownHostsPath home = (case home of None \<Rightarrow> Inl ErrHome | Some h \<Rightarrow> Inr (path_Join [h, ''.ssh'', ''known_hosts'']))"

definition DefaultKnownHosts :: "(bytes \<Rightarrow> 'cb option) \<Rightarrow> bytes option \<Rightarrow> bool \<Rightarrow> int \<Rightarrow> 'cb hosts \<Rightarrow> (ssh_error + 'cb) \<times> 'cb hosts" where
  "DefaultKnownHosts parse home creatable m s =
    (case DefaultKnownHostsPath home of Inl err \<Rightarrow> (Inl err, s) | Inr p \<Rightarrow> EnsureKnownHosts parse creatable m p s)"

text \<open>What the library's check says: the key is known, the host has other keys or none, or another error.\<close>

datatype host_check = HostOK | KeyError bool | CheckFails nat

definition target_file :: "bytes option \<Rightarrow> bytes \<Rightarrow> ssh_error + bytes" where
  "target_file home knownFile = (if knownFile = [] then DefaultKnownHostsPath home else Inr knownFile)"

definition CheckKnownHost ::
  "(bytes \<Rightarrow> 'cb option) \<Rightarrow> ('cb \<Rightarrow> bytes \<Rightarrow> bytes \<Rightarrow> bytes \<Rightarrow> host_check) \<Rightarrow> bytes option \<Rightarrow> bytes \<Rightarrow> bytes \<Rightarrow> bytes \<Rightarrow> bytes \<Rightarrow> 'cb hosts \<Rightarrow>
     (bool \<times> ssh_error option) \<times> 'cb hosts" where
  "CheckKnownHost parse chk home host remote key knownFile s =
    (case target_file home knownFile of
       Inl err \<Rightarrow> ((False, Some err), s)
     | Inr f \<Rightarrow>
         (case KnownHosts parse f s of
            (Inl err, s) \<Rightarrow> ((False, Some err), s)
          | (Inr cb, s) \<Rightarrow>
              ((case chk cb host remote key of
                  HostOK \<Rightarrow> (True, None)
                | KeyError want \<Rightarrow> if want then (True, Some ErrHostKeyMismatch) else (False, Some ErrHostNotFound)
                | CheckFails n \<Rightarrow> (False, Some (ErrOther n))), s)))"

text \<open>\<open>normal\<close> and \<open>line\<close> are the library's; the file may not be openable, or writable (then \<open>k\<close> bytes were written).\<close>

definition AddKnownHost ::
  "(bytes \<Rightarrow> bytes) \<Rightarrow> (bytes list \<Rightarrow> bytes \<Rightarrow> bytes) \<Rightarrow> bytes option \<Rightarrow> bool \<Rightarrow> nat option \<Rightarrow> int \<Rightarrow> bytes \<Rightarrow> bytes \<Rightarrow> bytes \<Rightarrow> bytes \<Rightarrow> 'cb hosts \<Rightarrow>
     ssh_error option \<times> 'cb hosts" where
  "AddKnownHost normal line home openable short m host remote key knownFile s =
    (case target_file home knownFile of
       Inl err \<Rightarrow> (Some err, s)
     | Inr f \<Rightarrow>
         if \<not> openable then (Some ErrFile, s)
         else
          (let old = (case h_files s f of None \<Rightarrow> [] | Some c \<Rightarrow> c);
               remoteNormalized = normal remote;
               hostNormalized = normal host;
               addresses = [remoteNormalized] @ (if hostNormalized \<noteq> remoteNormalized then [hostNormalized] else []);
               entry = line addresses key @ [CHR 0x0A]
           in case short of
                Some k \<Rightarrow> (Some ErrFile, write_file f (old @ take k entry) m s)
              | None \<Rightarrow> (let s = write_file f (old @ entry) m s in (None, s\<lparr>h_cache := (h_cache s)(f := None)\<rparr>))))"

section \<open>The system\<close>

text \<open>Programs that share the cache, in steps that are whole calls, the passing of time, and changes of the files by others.  A
  change sets the modification time of the file to the clock, which is later than it was.\<close>

inductive hosts_step :: "(bytes \<Rightarrow> 'cb option) \<Rightarrow> (bytes \<Rightarrow> bytes) \<Rightarrow> (bytes list \<Rightarrow> bytes \<Rightarrow> bytes) \<Rightarrow> 'cb hosts \<Rightarrow> 'cb hosts \<Rightarrow> bool"
  for parse :: "bytes \<Rightarrow> 'cb option" and normal :: "bytes \<Rightarrow> bytes" and line :: "bytes list \<Rightarrow> bytes \<Rightarrow> bytes" where
  hs_time: "0 \<le> d \<Longrightarrow> hosts_step parse normal line s (s\<lparr>h_now := h_now s + d\<rparr>)"
| hs_write: "h_now s > h_mtime s f \<Longrightarrow> hosts_step parse normal line s (write_file f c (h_now s) s)"
| hs_remove: "hosts_step parse normal line s (s\<lparr>h_files := (h_files s)(f := None)\<rparr>)"
| hs_get: "hosts_step parse normal line s (snd (KnownHosts parse f s))"
| hs_ensure: "h_now s > h_mtime s f \<Longrightarrow> hosts_step parse normal line s (snd (EnsureKnownHosts parse creatable (h_now s) f s))"
| hs_add: "(\<And>f. target_file home knownFile = Inr f \<Longrightarrow> h_now s > h_mtime s f) \<Longrightarrow>
    hosts_step parse normal line s (snd (AddKnownHost normal line home openable short (h_now s) host remote key knownFile s))"

definition hosts_start :: "'cb hosts \<Rightarrow> bool" where
  "hosts_start s \<longleftrightarrow> h_cache s = Map.empty"

text \<open>An entry whose time is that of the file holds the parsed contents of the file; any other was last compared with the file before the
  file changed.\<close>

definition hosts_inv :: "(bytes \<Rightarrow> 'cb option) \<Rightarrow> 'cb hosts \<Rightarrow> bool" where
  "hosts_inv parse s \<longleftrightarrow>
    (\<forall>f e. h_cache s f = Some e \<longrightarrow> modTime e \<le> h_mtime s f \<and> (lastStat e \<le> h_mtime s f \<or> modTime e = h_mtime s f) \<and> lastStat e \<le> h_now s \<and>
       (\<forall>c. h_files s f = Some c \<longrightarrow> modTime e = h_mtime s f \<longrightarrow> parse c = Some (callback e)))"

lemma hosts_invD:
  assumes "hosts_inv parse s" and "h_cache s f = Some e"
  shows "modTime e \<le> h_mtime s f" and "lastStat e \<le> h_mtime s f \<or> modTime e = h_mtime s f" and "lastStat e \<le> h_now s"
    and "h_files s f = Some c \<Longrightarrow> modTime e = h_mtime s f \<Longrightarrow> parse c = Some (callback e)"
  using assms unfolding hosts_inv_def by blast+

lemma KnownHosts_keeps: "hosts_inv parse s \<Longrightarrow> hosts_inv parse (snd (KnownHosts parse f s))"
proof -
  assume inv: "hosts_inv parse s"
  have fresh: "hosts_inv parse (s\<lparr>h_cache := (h_cache s)(f \<mapsto> \<lparr>lastStat = h_now s, modTime = h_mtime s f, callback = cb\<rparr>)\<rparr>)"
    if "h_files s f = Some c" "parse c = Some cb" for c cb
    using inv that by (auto simp: hosts_inv_def)
  have again: "hosts_inv parse (s\<lparr>h_cache := (h_cache s)(f \<mapsto> e\<lparr>lastStat := h_now s\<rparr>)\<rparr>)" if "h_cache s f = Some e" "\<not> h_mtime s f > modTime e" for e
    using inv that by (fastforce simp: hosts_inv_def)
  show ?thesis using inv fresh again by (auto simp: KnownHosts_def Let_def split: option.splits)
qed

lemma write_keeps: "hosts_inv parse s \<Longrightarrow> h_now s > h_mtime s f \<Longrightarrow> hosts_inv parse (write_file f c (h_now s) s)"
  by (fastforce simp: hosts_inv_def write_file_def)

lemma drop_keeps: "hosts_inv parse s \<Longrightarrow> hosts_inv parse (s\<lparr>h_cache := (h_cache s)(f := None)\<rparr>)"
  by (simp add: hosts_inv_def)

interpretation known_hosts: invariant_system hosts_start "hosts_step parse normal line" "hosts_inv parse"
  for parse :: "bytes \<Rightarrow> 'cb option" and normal :: "bytes \<Rightarrow> bytes" and line :: "bytes list \<Rightarrow> bytes \<Rightarrow> bytes"
proof
  fix s :: "'cb hosts" assume "hosts_start s"
  then show "hosts_inv parse s" by (simp add: hosts_start_def hosts_inv_def)
next
  fix s t :: "'cb hosts" assume inv: "hosts_inv parse s" and "hosts_step parse normal line s t"
  from this(2) show "hosts_inv parse t"
  proof cases
    case (hs_time d)
    then show ?thesis using inv by (fastforce simp: hosts_inv_def)
  next
    case (hs_write f c)
    then show ?thesis using write_keeps [OF inv] by simp
  next
    case (hs_remove f)
    then show ?thesis using inv by (auto simp: hosts_inv_def)
  next
    case (hs_get f)
    then show ?thesis using KnownHosts_keeps [OF inv] by simp
  next
    case (hs_ensure f creatable)
    then show ?thesis using KnownHosts_keeps [OF inv] KnownHosts_keeps [OF write_keeps [OF inv]] inv by (simp add: EnsureKnownHosts_def)
  next
    case (hs_add home knownFile openable short host remote key)
    then show ?thesis using inv write_keeps [OF inv] drop_keeps [OF write_keeps [OF inv]]
      by (auto simp: AddKnownHost_def Let_def split: sum.splits option.splits)
  qed
qed

section \<open>Properties\<close>


definition quiet_host :: "bytes hosts" where
  "quiet_host = \<lparr>h_cache = Map.empty, h_files = [''f'' \<mapsto> ''k''], h_mtime = (\<lambda>_. 0), h_now = 10 ^ 9\<rparr>"


text \<open>What is used of the library: a file that parses and is empty or ends with a newline still parses when the line of a key is appended,
  and the result accepts that key.\<close>

definition records :: "(bytes \<Rightarrow> 'cb option) \<Rightarrow> ('cb \<Rightarrow> bytes \<Rightarrow> bytes \<Rightarrow> bytes \<Rightarrow> host_check) \<Rightarrow> (bytes \<Rightarrow> bytes) \<Rightarrow> (bytes list \<Rightarrow> bytes \<Rightarrow> bytes) \<Rightarrow> bool" where
  "records parse chk normal line \<longleftrightarrow>
    (\<forall>c cb host remote key. parse c = Some cb \<longrightarrow> (c = [] \<or> last c = CHR 0x0A) \<longrightarrow>
       (\<exists>cb'. parse (c @ line ([normal remote] @ (if normal host \<noteq> normal remote then [normal host] else [])) key @ [CHR 0x0A]) = Some cb' \<and>
          chk cb' host remote key = HostOK))"

text \<open>A host key that has been added is known at once.  Whatever the cache held, also an entry younger than a second, after
  \<^verbatim>\<open>AddKnownHost\<close> returns without error checking the same host and key in the same file finds it, the default file included.\<close>
theorem added_host_is_known:
  assumes "records parse chk normal line" and "target_file home knownFile = Inr f"
    and "c = (case h_files s f of None \<Rightarrow> [] | Some c \<Rightarrow> c)" and "parse c \<noteq> None" and "c = [] \<or> last c = CHR 0x0A"
    and "AddKnownHost normal line home openable short m host remote key knownFile s = (None, t)"
  shows "fst (CheckKnownHost parse chk home host remote key knownFile t) = (True, None)"
proof -
  let ?line = "line ([normal remote] @ (if normal host \<noteq> normal remote then [normal host] else [])) key @ [CHR 0x0A]"
  obtain cb' where cb: "parse (c @ ?line) = Some cb'" "chk cb' host remote key = HostOK"
    using assms(1,4,5) unfolding records_def by blast
  have t: "t = (write_file f (c @ ?line) m s)\<lparr>h_cache := (h_cache s)(f := None)\<rparr>"
    using assms(2,3,6) by (auto simp: AddKnownHost_def Let_def write_file_def split: if_splits option.splits)
  then have "fst (KnownHosts parse f t) = Inr cb'" using cb(1) by (simp add: KnownHosts_def write_file_def)
  then show ?thesis using assms(2) cb(2) by (auto simp: CheckKnownHost_def split: prod.splits)
qed

definition key_found :: "bytes \<Rightarrow> bytes \<Rightarrow> bytes \<Rightarrow> bytes \<Rightarrow> host_check" where
  "key_found cb host remote key = (if sublist key cb then HostOK else KeyError False)"

theorem added_host_is_known_witness:
  "fst (CheckKnownHost Some key_found None ''h'' ''1'' ''k'' ''f''
     (snd (AddKnownHost (\<lambda>h. h) (\<lambda>as k. k) None True None (10 ^ 9) ''h'' ''1'' ''k'' ''f'' (quiet_host\<lparr>h_files := Map.empty\<rparr>)))) = (True, None)"
proof -
  have "records Some key_found (\<lambda>h. h) (\<lambda>as k. k)" by (auto simp: records_def key_found_def sublist_def)
  moreover have "fst (AddKnownHost (\<lambda>h. h) (\<lambda>as k. k) None True None (10 ^ 9) ''h'' ''1'' ''k'' ''f'' (quiet_host\<lparr>h_files := Map.empty\<rparr>)) = None"
    by (simp add: AddKnownHost_def target_file_def Let_def)
  ultimately show ?thesis
    using added_host_is_known [of Some key_found "\<lambda>h. h" "\<lambda>as k. k" None "''f''" "''f''" "[]" "quiet_host\<lparr>h_files := Map.empty\<rparr>" True None "10 ^ 9" "''h''" "''1''" "''k''"]
    by (simp add: target_file_def prod_eq_iff)
qed

text \<open>A file that is put back with an earlier modification time is never read again.\<close>

lemma older_file_ignored:
  assumes "h_cache s f = Some e" and "h_mtime s f < modTime e"
  shows "fst (KnownHosts parse f s) = Inr (callback e)"
  using assms by (auto simp: KnownHosts_def Let_def split: option.splits)

text \<open>Keys of a file that was removed stay accepted.\<close>

lemma removed_file_trusted:
  assumes "h_cache s f = Some e" and "h_files s f = None"
  shows "KnownHosts parse f s = (Inr (callback e), s)"
  using assms by (simp add: KnownHosts_def Let_def)

text \<open>A file without a final newline gets the new entry on its last line.\<close>

lemma entry_joins_last_line:
  assumes "h_files s f = Some ''x''" and "f \<noteq> []"
  shows "h_files (snd (AddKnownHost (\<lambda>h. h) (\<lambda>as k. k) home True None m ''h'' ''h'' ''key'' f s)) f = Some (''xkey'' @ [CHR 0x0A])"
  using assms by (simp add: AddKnownHost_def target_file_def Let_def write_file_def)

end
