(* ===== verification/SSH_Config.thy ===== *)
theory SSH_Config
  imports Go_Path Go_Strconv
begin

text \<open>
  Package \<^verbatim>\<open>ssh\<close>, file \<^verbatim>\<open>src/ssh/config.go\<close>: reading an OpenSSH configuration file and looking a host up in it.  The pointer to the host
  being filled in is the name under which the map holds it.  (Connecting with a configuration is in \<open>SSH_Client\<close>.)
\<close>

section \<open>config.go\<close>

record HostConfig =
  hc_Host :: bytes
  hc_HostName :: bytes
  hc_User :: bytes
  hc_Port :: nat
  hc_IdentityFiles :: "bytes list"
  hc_ProxyJump :: bytes
  hc_ProxyCommand :: bytes
  hc_StrictHostKeyChecking :: bytes
  hc_UserKnownHostsFile :: bytes

type_synonym SSHConfig = "bytes \<rightharpoonup> HostConfig"

definition zero_host :: "bytes \<Rightarrow> HostConfig" where
  "zero_host name =
    \<lparr>hc_Host = name, hc_HostName = [], hc_User = [], hc_Port = 0, hc_IdentityFiles = [], hc_ProxyJump = [], hc_ProxyCommand = [],
     hc_StrictHostKeyChecking = [], hc_UserKnownHostsFile = []\<rparr>"

text \<open>The inner \<^verbatim>\<open>switch\<close>.\<close>

definition set_directive :: "bytes \<Rightarrow> bytes \<Rightarrow> HostConfig \<Rightarrow> HostConfig" where
  "set_directive key val c =
    (if key = ''hostname'' then c\<lparr>hc_HostName := val\<rparr>
     else if key = ''user'' then c\<lparr>hc_User := val\<rparr>
     else if key = ''port'' then (case ParseUint val 32 of Inl _ \<Rightarrow> c | Inr p \<Rightarrow> c\<lparr>hc_Port := p\<rparr>)
     else if key = ''identityfile'' then c\<lparr>hc_IdentityFiles := hc_IdentityFiles c @ [val]\<rparr>
     else if key = ''proxyjump'' then c\<lparr>hc_ProxyJump := val\<rparr>
     else if key = ''proxycommand'' then c\<lparr>hc_ProxyCommand := val\<rparr>
     else if key = ''stricthostkeychecking'' then c\<lparr>hc_StrictHostKeyChecking := val\<rparr>
     else if key = ''userknownhostsfile'' then c\<lparr>hc_UserKnownHostsFile := val\<rparr>
     else c)"

text \<open>One turn of the loop: the hosts and the name of the current one.\<close>

definition config_line :: "unicode \<Rightarrow> bytes \<Rightarrow> SSHConfig \<times> bytes option \<Rightarrow> SSHConfig \<times> bytes option" where
  "config_line U text st =
    (let line = TrimSpace text in
     if line = [] \<or> prefix ''#'' line then st
     else
      (let fields = Fields line in
       if length fields < 2 then st
       else
        (let key = ToLower U (fields ! 0); val = Join '' '' (drop 1 fields) in
         if key = ''host'' then ((fst st)(fields ! 1 \<mapsto> zero_host (fields ! 1)), Some (fields ! 1))
         else
          (let st = (case snd st of None \<Rightarrow> ((fst st)(''*'' \<mapsto> zero_host ''*''), Some ''*'') | Some n \<Rightarrow> st);
               n = the (snd st)
           in ((fst st)(n := map_option (set_directive key val) (fst st n)), Some n)))))"

text \<open>The configuration, and whether the scanner reached the end.\<close>

definition ParseSSHConfig :: "unicode \<Rightarrow> bytes \<Rightarrow> SSHConfig \<times> bool" where
  "ParseSSHConfig U r = (let (ls, ok) = scan_lines r in (fst (fold (config_line U) ls (Map.empty, None)), ok))"

datatype config_error = ConfigHome | ConfigMissing | ConfigUnreadable | ConfigScan SSHConfig

definition config_path :: "bytes option \<Rightarrow> bytes \<Rightarrow> bytes option" where
  "config_path home path = (if path = [] then map_option (\<lambda>h. path_Join [h, ''.ssh'', ''config'']) home else Some path)"

text \<open>Files are read by a function that tells a missing file from an unreadable one.\<close>

definition ParseSSHConfigFile :: "unicode \<Rightarrow> (bytes \<Rightarrow> bool + bytes) \<Rightarrow> bytes option \<Rightarrow> bytes \<Rightarrow> config_error + SSHConfig" where
  "ParseSSHConfigFile U openf home path =
    (case config_path home path of
       None \<Rightarrow> Inl ConfigHome
     | Some target \<Rightarrow>
         (case openf target of
            Inl missing \<Rightarrow> Inl (if missing then ConfigMissing else ConfigUnreadable)
          | Inr text \<Rightarrow> (case ParseSSHConfig U text of (cfg, ok) \<Rightarrow> if ok then Inr cfg else Inl (ConfigScan cfg))))"

definition GetHost :: "SSHConfig \<Rightarrow> bytes \<Rightarrow> HostConfig" where
  "GetHost cfg alias =
    (case cfg alias of
       Some h \<Rightarrow> h
     | None \<Rightarrow>
         (let res = (zero_host alias)\<lparr>hc_HostName := alias\<rparr> in
          case cfg ''*'' of
            None \<Rightarrow> res
          | Some w \<Rightarrow> res\<lparr>hc_User := hc_User w, hc_Port := hc_Port w, hc_IdentityFiles := hc_IdentityFiles w\<rparr>))"

definition expandHome :: "bytes option \<Rightarrow> bytes \<Rightarrow> bytes" where
  "expandHome home path =
    (if prefix ''~/'' path then (case home of Some h \<Rightarrow> path_Join [h, drop 2 path] | None \<Rightarrow> path) else path)"

section \<open>Writing a configuration\<close>

text \<open>The directives of a host, one line each, with any words after the name of the host.\<close>

definition directives :: "HostConfig \<Rightarrow> (bytes \<times> bytes) list" where
  "directives h =
    (if hc_HostName h = [] then [] else [(''HostName'', hc_HostName h)]) @
    (if hc_User h = [] then [] else [(''User'', hc_User h)]) @
    (if hc_Port h = 0 then [] else [(''Port'', format_nat (hc_Port h))]) @
    map (\<lambda>i. (''IdentityFile'', i)) (hc_IdentityFiles h) @
    (if hc_ProxyJump h = [] then [] else [(''ProxyJump'', hc_ProxyJump h)]) @
    (if hc_ProxyCommand h = [] then [] else [(''ProxyCommand'', hc_ProxyCommand h)]) @
    (if hc_StrictHostKeyChecking h = [] then [] else [(''StrictHostKeyChecking'', hc_StrictHostKeyChecking h)]) @
    (if hc_UserKnownHostsFile h = [] then [] else [(''UserKnownHostsFile'', hc_UserKnownHostsFile h)])"

definition host_lines :: "HostConfig \<Rightarrow> bytes list" where
  "host_lines h = (''Host '' @ hc_Host h) # map (\<lambda>(k, v). k @ '' '' @ v) (directives h)"

definition config_text :: "HostConfig list \<Rightarrow> bytes" where
  "config_text hs = concat (map (\<lambda>l. l @ [CHR 0x0A]) (concat (map host_lines hs)))"

text \<open>Values that a line can hold: words separated by single blanks.\<close>

definition value_ok :: "bytes \<Rightarrow> bool" where
  "value_ok v \<longleftrightarrow> list_all word_ok (Split (CHR '' '') v)"

definition config_host_ok :: "HostConfig \<Rightarrow> bool" where
  "config_host_ok h \<longleftrightarrow> word_ok (hc_Host h) \<and> list_all (\<lambda>(k, v). value_ok v) (directives h) \<and> hc_Port h < 2 ^ 32 \<and>
    list_all (\<lambda>l. length l < 65536) (host_lines h)"

section \<open>Lemmas\<close>

lemma value_ok_fields: "value_ok v \<Longrightarrow> word_ok k \<Longrightarrow> Fields (k @ '' '' @ v) = k # Split (CHR '' '') v \<and> Join '' '' (Split (CHR '' '') v) = v"
proof -
  assume v: "value_ok v" and k: "word_ok k"
  have j: "Join '' '' (Split (CHR '' '') v) = v" using Join_Split [of "CHR '' ''" v] by simp
  then have "k @ '' '' @ v = Join '' '' (k # Split (CHR '' '') v)" using Join_Cons [of "Split (CHR '' '') v" "'' ''" k] by simp
  then show ?thesis using Fields_Join [of "k # Split (CHR '' '') v"] v k j by (simp add: value_ok_def)
qed

lemma Join_last: "ws \<noteq> [] \<Longrightarrow> last ws \<noteq> [] \<Longrightarrow> Join sep ws \<noteq> [] \<and> last (Join sep ws) = last (last ws)"
  by (induction ws rule: induct_list012) auto

lemma value_ok_edges: "value_ok v \<Longrightarrow> v \<noteq> [] \<and> \<not> space_byte (last v)"
proof -
  assume v: "value_ok v"
  have "word_ok (last (Split (CHR '' '') v))" using v by (simp add: value_ok_def list_all_iff)
  then have "last (Split (CHR '' '') v) \<noteq> []" "\<not> space_byte (last (last (Split (CHR '' '') v)))" by (simp_all add: word_ok_def list_all_iff)
  moreover have "Join '' '' (Split (CHR '' '') v) = v" using Join_Split [of "CHR '' ''" v] by simp
  ultimately show ?thesis using Join_last [of "Split (CHR '' '') v" "'' ''"] by simp
qed

lemma TrimSpace_line:
  assumes "word_ok k" and "value_ok v"
  shows "TrimSpace (k @ '' '' @ v) = k @ '' '' @ v"
proof (rule TrimSpace_edges)
  have "k \<noteq> []" "\<not> space_byte (hd k)" using assms(1) by (auto simp: word_ok_def list_all_iff)
  then show "k @ '' '' @ v \<noteq> []" "\<not> space_byte (hd (k @ '' '' @ v))" by simp_all
  show "\<not> space_byte (last (k @ '' '' @ v))" using value_ok_edges [OF assms(2)] by simp
qed

lemma config_line_directive:
  assumes "word_ok k" and "\<not> prefix ''#'' k" and "value_ok v" and "ToLower U k \<noteq> ''host''" and "m n = Some c"
  shows "config_line U (k @ '' '' @ v) (m, Some n) = (m(n \<mapsto> set_directive (ToLower U k) v c), Some n)"
proof -
  have "k \<noteq> []" "\<not> prefix ''#'' (k @ '' '' @ v)" using assms(1,2) by (auto simp: word_ok_def neq_Nil_conv)
  moreover have "Split (CHR '' '') v \<noteq> []" by simp
  ultimately show ?thesis using assms(4,5) value_ok_fields [OF assms(3,1)] TrimSpace_line [OF assms(1,3)]
    by (simp add: config_line_def Let_def Suc_le_eq)
qed

lemma config_line_host:
  assumes "word_ok n"
  shows "config_line U (''Host '' @ n) st = ((fst st)(n \<mapsto> zero_host n), Some n)"
proof -
  have k: "word_ok ''Host''" by (simp add: word_ok_def space_byte_def byte_eval)
  have "CHR '' '' \<notin> set n" using assms by (auto simp: word_ok_def list_all_iff space_byte_def byte_eval)
  then have s: "Split (CHR '' '') n = [n]" by (rule Split_plain)
  then have v: "value_ok n" using assms by (simp add: value_ok_def)
  have l: "ToLower U ''Host'' = ''host''" by (simp add: ToLower_def is_ascii_def lower_def is_upper_def byte_eval)
  show ?thesis using value_ok_fields [OF v k] TrimSpace_line [OF k v] s l by (simp add: config_line_def Let_def)
qed

definition keywords_used :: "bytes list" where
  "keywords_used = [''HostName'', ''User'', ''Port'', ''IdentityFile'', ''ProxyJump'', ''ProxyCommand'', ''StrictHostKeyChecking'', ''UserKnownHostsFile'']"

lemma keywords_ok: "k \<in> set keywords_used \<Longrightarrow> word_ok k \<and> \<not> prefix ''#'' k \<and> ToLower U k \<noteq> ''host''"
  by (auto simp: keywords_used_def word_ok_def space_byte_def ToLower_def is_ascii_def lower_def is_upper_def byte_eval)

lemma directives_keywords: "(k, v) \<in> set (directives h) \<Longrightarrow> k \<in> set keywords_used"
  by (auto simp: directives_def keywords_used_def split: if_splits)

lemma fold_directives:
  assumes "\<And>k v. (k, v) \<in> set ds \<Longrightarrow> k \<in> set keywords_used \<and> value_ok v" and "m n = Some c"
  shows "fold (config_line U) (map (\<lambda>(k, v). k @ '' '' @ v) ds) (m, Some n) =
    (m(n \<mapsto> fold (\<lambda>(k, v). set_directive (ToLower U k) v) ds c), Some n)"
  using assms
proof (induction ds arbitrary: m c)
  case Nil
  then show ?case by (auto simp: fun_upd_idem)
next
  case (Cons d ds)
  obtain k v where d: "d = (k, v)" by fastforce
  have "config_line U (k @ '' '' @ v) (m, Some n) = (m(n \<mapsto> set_directive (ToLower U k) v c), Some n)"
    using Cons.prems keywords_ok [of k U] by (intro config_line_directive) (auto simp: d)
  moreover have "fold (config_line U) (map (\<lambda>(k, v). k @ '' '' @ v) ds) (m(n \<mapsto> set_directive (ToLower U k) v c), Some n) =
      ((m(n \<mapsto> set_directive (ToLower U k) v c))(n \<mapsto> fold (\<lambda>(k, v). set_directive (ToLower U k) v) ds (set_directive (ToLower U k) v c)), Some n)"
    by (rule Cons.IH) (use Cons.prems(1) in auto)
  ultimately show ?case by (simp add: d) (auto simp: fun_eq_iff)
qed

lemma fold_identity:
  "fold (\<lambda>(k, v). set_directive (ToLower U k) v) (map (\<lambda>i. (''IdentityFile'', i)) is) c = c\<lparr>hc_IdentityFiles := hc_IdentityFiles c @ is\<rparr>"
proof (induction "is" arbitrary: c)
  case (Cons i "is")
  have "set_directive (ToLower U ''IdentityFile'') i c = c\<lparr>hc_IdentityFiles := hc_IdentityFiles c @ [i]\<rparr>"
    by (simp add: set_directive_def ToLower_def is_ascii_def lower_def is_upper_def byte_eval)
  then show ?case using Cons.IH by simp
qed simp

text \<open>What each keyword sets, in lower case.\<close>

lemma set_keywords:
  "set_directive (ToLower U ''HostName'') v c = c\<lparr>hc_HostName := v\<rparr>"
  "set_directive (ToLower U ''User'') v c = c\<lparr>hc_User := v\<rparr>"
  "p < 2 ^ 32 \<Longrightarrow> set_directive (ToLower U ''Port'') (format_nat p) c = c\<lparr>hc_Port := p\<rparr>"
  "set_directive (ToLower U ''ProxyJump'') v c = c\<lparr>hc_ProxyJump := v\<rparr>"
  "set_directive (ToLower U ''ProxyCommand'') v c = c\<lparr>hc_ProxyCommand := v\<rparr>"
  "set_directive (ToLower U ''StrictHostKeyChecking'') v c = c\<lparr>hc_StrictHostKeyChecking := v\<rparr>"
  "set_directive (ToLower U ''UserKnownHostsFile'') v c = c\<lparr>hc_UserKnownHostsFile := v\<rparr>"
  using ParseUint_format [of p 32]
  by (simp_all add: set_directive_def ToLower_def is_ascii_def lower_def is_upper_def byte_eval)

lemma directives_restore:
  "hc_Port h < 2 ^ 32 \<Longrightarrow> fold (\<lambda>(k, v). set_directive (ToLower U k) v) (directives h) (zero_host (hc_Host h)) = h"
  by (simp add: directives_def fold_identity set_keywords zero_host_def)

lemma fold_host:
  assumes "config_host_ok h"
  shows "fold (config_line U) (host_lines h) (m, cur) = (m(hc_Host h \<mapsto> h), Some (hc_Host h))"
proof -
  have "(k, v) \<in> set (directives h) \<Longrightarrow> k \<in> set keywords_used \<and> value_ok v" for k v
    using assms directives_keywords by (auto simp: config_host_ok_def list_all_iff)
  then have "fold (config_line U) (map (\<lambda>(k, v). k @ '' '' @ v) (directives h)) (m(hc_Host h \<mapsto> zero_host (hc_Host h)), Some (hc_Host h)) =
      (m(hc_Host h \<mapsto> h), Some (hc_Host h))"
    using fold_directives [of "directives h" "m(hc_Host h \<mapsto> zero_host (hc_Host h))" "hc_Host h"] assms directives_restore [of h U]
    by (simp add: config_host_ok_def)
  moreover have "config_line U (''Host '' @ hc_Host h) (m, cur) = (m(hc_Host h \<mapsto> zero_host (hc_Host h)), Some (hc_Host h))"
    using config_line_host [of "hc_Host h" U "(m, cur)"] assms by (simp add: config_host_ok_def)
  ultimately show ?thesis by (simp add: host_lines_def)
qed

lemma fold_hosts:
  "list_all config_host_ok hs \<Longrightarrow>
   fst (fold (config_line U) (concat (map host_lines hs)) (m, cur)) = m ++ map_of (map (\<lambda>h. (hc_Host h, h)) (rev hs))"
proof (induction hs arbitrary: m cur)
  case (Cons h hs)
  have e: "fold (config_line U) (host_lines h @ concat (map host_lines hs)) (m, cur) =
      fold (config_line U) (concat (map host_lines hs)) (m(hc_Host h \<mapsto> h), Some (hc_Host h))"
    using fold_host [of h U m cur] Cons.prems by simp
  have "fst (fold (config_line U) (concat (map host_lines hs)) (m(hc_Host h \<mapsto> h), Some (hc_Host h))) =
      m(hc_Host h \<mapsto> h) ++ map_of (map (\<lambda>h. (hc_Host h, h)) (rev hs))"
    by (rule Cons.IH) (use Cons.prems in simp)
  then show ?case by (simp only: e concat.simps list.map) (simp add: fun_eq_iff map_add_def split: option.splits)
qed simp

lemma Split_lines:
  "list_all (\<lambda>l. CHR 0x0A \<notin> set l) ls \<Longrightarrow> Split (CHR 0x0A) (concat (map (\<lambda>l. l @ [CHR 0x0A]) ls)) = ls @ [[]]"
  by (induction ls) (simp_all add: Split_append)

text \<open>A line that does not end with a carriage return.\<close>

lemma scan_lines_text:
  assumes "list_all (\<lambda>l. CHR 0x0A \<notin> set l \<and> length l < 65536 \<and> dropCR l = l) ls"
  shows "scan_lines (concat (map (\<lambda>l. l @ [CHR 0x0A]) ls)) = (ls, True)"
proof -
  have "Split (CHR 0x0A) (concat (map (\<lambda>l. l @ [CHR 0x0A]) ls)) = ls @ [[]]" using assms by (intro Split_lines) (simp add: list_all_iff)
  moreover have t: "takeWhile (\<lambda>l. length l < 65536) ls = ls" by (rule takeWhile_eq_all_conv [THEN iffD2]) (use assms in \<open>simp add: list_all_iff\<close>)
  moreover have "map dropCR ls = ls" by (rule map_idI) (use assms in \<open>simp add: list_all_iff\<close>)
  ultimately show ?thesis by (simp add: scan_lines_def Let_def del: takeWhile_eq_all_conv)
qed

lemma value_ok_chars: "value_ok v \<Longrightarrow> c \<in> set v \<Longrightarrow> c = CHR '' '' \<or> \<not> space_byte c"
proof -
  assume v: "value_ok v" "c \<in> set v"
  have "set (Join '' '' ws) \<subseteq> insert (CHR '' '') (\<Union> (set ` set ws))" for ws by (induction ws rule: induct_list012) auto
  from this [of "Split (CHR '' '') v"] show ?thesis
    using v Join_Split [of "CHR '' ''" v] by (auto simp: value_ok_def word_ok_def list_all_iff)
qed

lemma line_clean:
  assumes "word_ok k" and "value_ok v"
  shows "CHR 0x0A \<notin> set (k @ '' '' @ v) \<and> dropCR (k @ '' '' @ v) = k @ '' '' @ v"
proof -
  have "space_byte (CHR 0x0A)" "space_byte (CHR 0x0D)" by (simp_all add: space_byte_def byte_eval)
  then have "CHR 0x0A \<notin> set v" "CHR 0x0A \<notin> set k" "last v \<noteq> CHR 0x0D" "v \<noteq> []"
    using assms value_ok_chars [OF assms(2), of "CHR 0x0A"] value_ok_edges [OF assms(2)] by (auto simp: word_ok_def list_all_iff)
  then show ?thesis by (simp add: dropCR_def)
qed

lemma host_lines_clean:
  assumes "config_host_ok h" and "l \<in> set (host_lines h)"
  shows "CHR 0x0A \<notin> set l \<and> length l < 65536 \<and> dropCR l = l"
proof -
  have "word_ok ''Host''" by (simp add: word_ok_def space_byte_def byte_eval)
  moreover have "CHR '' '' \<notin> set (hc_Host h)" using assms(1) by (auto simp: config_host_ok_def word_ok_def list_all_iff space_byte_def byte_eval)
  then have "value_ok (hc_Host h)" using assms(1) by (simp add: value_ok_def Split_plain config_host_ok_def)
  moreover have "word_ok k \<and> value_ok v" if "(k, v) \<in> set (directives h)" for k v
    using that assms(1) directives_keywords [OF that] keywords_ok by (auto simp: config_host_ok_def list_all_iff)
  ultimately have "CHR 0x0A \<notin> set l \<and> dropCR l = l" using assms(2) line_clean [of "''Host''"] line_clean
    by (auto simp: host_lines_def)
  moreover have "length l < 65536" using assms by (simp add: config_host_ok_def list_all_iff)
  ultimately show ?thesis by blast
qed

section \<open>Properties\<close>

text \<open>A written configuration is read back.  For any sequence of host blocks, with values of any number of words, reading the text
  succeeds and looking a host up gives the last block with its name, field by field; a name without a block gives the
  user, port and key files of the block for \<^verbatim>\<open>*\<close> and the name itself as the address.\<close>
theorem config_roundtrip:
  assumes "list_all config_host_ok hs"
  shows "\<exists>cfg. ParseSSHConfig U (config_text hs) = (cfg, True) \<and>
    (\<forall>n. GetHost cfg n =
      (case find (\<lambda>h. hc_Host h = n) (rev hs) of
         Some h \<Rightarrow> h
       | None \<Rightarrow>
           (case find (\<lambda>h. hc_Host h = ''*'') (rev hs) of
              None \<Rightarrow> (zero_host n)\<lparr>hc_HostName := n\<rparr>
            | Some w \<Rightarrow> (zero_host n)\<lparr>hc_HostName := n, hc_User := hc_User w, hc_Port := hc_Port w, hc_IdentityFiles := hc_IdentityFiles w\<rparr>)))"
proof -
  have "scan_lines (config_text hs) = (concat (map host_lines hs), True)"
    unfolding config_text_def using assms host_lines_clean by (intro scan_lines_text) (fastforce simp: list_all_iff)
  then have p: "ParseSSHConfig U (config_text hs) = (map_of (map (\<lambda>h. (hc_Host h, h)) (rev hs)), True)"
    using fold_hosts [OF assms, of U Map.empty None] by (simp add: ParseSSHConfig_def)
  have f: "map_of (map (\<lambda>h. (hc_Host h, h)) xs) n = find (\<lambda>h. hc_Host h = n) xs" for xs n by (induction xs) auto
  show ?thesis by (rule exI [of _ "map_of (map (\<lambda>h. (hc_Host h, h)) (rev hs))"]) (use p in \<open>simp add: GetHost_def f Let_def split: option.splits\<close>)
qed

definition example_host :: HostConfig where
  "example_host = (zero_host ''a'')\<lparr>hc_User := ''u'', hc_IdentityFiles := [''k'']\<rparr>"

theorem config_roundtrip_witness:
  "\<exists>cfg. ParseSSHConfig \<lparr>uni_lower = (\<lambda>s. s), uni_upper = (\<lambda>s. s), uni_fold = (=)\<rparr> (config_text [example_host]) = (cfg, True) \<and>
    GetHost cfg ''a'' = example_host"
proof -
  have "list_all config_host_ok [example_host]"
    by (simp add: example_host_def zero_host_def config_host_ok_def word_ok_def value_ok_def directives_def host_lines_def space_byte_def byte_eval)
  then obtain cfg where "ParseSSHConfig \<lparr>uni_lower = (\<lambda>s. s), uni_upper = (\<lambda>s. s), uni_fold = (=)\<rparr> (config_text [example_host]) = (cfg, True)"
    "GetHost cfg ''a'' = (case find (\<lambda>h. hc_Host h = ''a'') (rev [example_host]) of Some h \<Rightarrow> h | None \<Rightarrow> zero_host [])"
    using config_roundtrip [of "[example_host]"] by (fastforce simp: example_host_def zero_host_def)
  then show ?thesis by (auto simp: example_host_def zero_host_def)
qed

text \<open>A \<^verbatim>\<open>Host\<close> line with two names makes a block for the first only.\<close>

lemma second_name_ignored: "snd (config_line U ''Host a b'' (Map.empty, None)) = Some ''a'' \<and> fst (config_line U ''Host a b'' (Map.empty, None)) ''b'' = None"
proof -
  have k: "word_ok ''Host''" "value_ok ''a b''" by (simp_all add: word_ok_def value_ok_def space_byte_def byte_eval)
  have l: "ToLower U ''Host'' = ''host''" by (simp add: ToLower_def is_ascii_def lower_def is_upper_def byte_eval)
  show ?thesis using value_ok_fields [OF k(2,1)] TrimSpace_line [OF k] l by (simp add: config_line_def Let_def)
qed

text \<open>The block for \<^verbatim>\<open>*\<close> does not pass its other settings on.\<close>

lemma wildcard_policy_lost: "cfg n = None \<Longrightarrow> hc_UserKnownHostsFile (GetHost cfg n) = [] \<and> hc_StrictHostKeyChecking (GetHost cfg n) = [] \<and> hc_ProxyJump (GetHost cfg n) = []"
  by (simp add: GetHost_def zero_host_def Let_def split: option.splits)

end
