(* ===== verification/SSH_Socks.thy ===== *)
theory SSH_Socks
  imports Go_Text Go_Strconv
begin

text \<open>
  Package \<^verbatim>\<open>ssh\<close>, file \<^verbatim>\<open>src/ssh/socks5.go\<close>: the local SOCKS5 proxy.  A connection is given by the segments its reads return, of which the
  buffered reader holds the unread part of the last one; dialling through the SSH connection is a predicate on the address.
\<close>

section \<open>Go library\<close>

text \<open>\<^verbatim>\<open>io.ReadFull\<close> on a \<^verbatim>\<open>bufio.Reader\<close>: the buffered bytes first, then whole segments of the connection.\<close>

fun ReadFull_br :: "nat \<Rightarrow> bytes \<Rightarrow> bytes list \<Rightarrow> (bytes \<times> bytes \<times> bytes list) option" where
  "ReadFull_br n buf [] = (if n \<le> length buf then Some (take n buf, drop n buf, []) else None)"
| "ReadFull_br n buf (s # ss) =
    (if n \<le> length buf then Some (take n buf, drop n buf, s # ss)
     else map_option (\<lambda>(a, r). (buf @ a, r)) (ReadFull_br (n - length buf) s ss))"

text \<open>\<^verbatim>\<open>net.IP.String\<close>: dotted, also for a version 4 address in a version 6 one, or eight hexadecimal fields of which the first
  longest run of at least two zeros is left out.\<close>

definition ipv4_string :: "bytes \<Rightarrow> bytes" where
  "ipv4_string ip = Join ''.'' (map (\<lambda>c. format_nat (byte_val c)) ip)"

definition hex_lower :: "nat \<Rightarrow> char" where
  "hex_lower d = byte_of (if d < 10 then 48 + d else 87 + d)"

fun hex_nat :: "nat \<Rightarrow> bytes" where
  "hex_nat n = (if n < 16 then [hex_lower n] else hex_nat (n div 16) @ [hex_lower (n mod 16)])"

fun ip_fields :: "bytes \<Rightarrow> nat list" where
  "ip_fields (a # b # r) = (byte_val a * 256 + byte_val b) # ip_fields r"
| "ip_fields _ = []"

fun best_run :: "nat \<Rightarrow> nat \<times> nat \<Rightarrow> nat list \<Rightarrow> nat \<times> nat" where
  "best_run i z [] = z"
| "best_run i z (f # fs) =
    (let l = length (takeWhile (\<lambda>x. x = 0) (f # fs)) in
     best_run (Suc i) (if l \<ge> 2 \<and> l > snd z - fst z then (i, i + l) else z) fs)"

definition ipv6_string :: "bytes \<Rightarrow> bytes" where
  "ipv6_string ip =
    (let fs = ip_fields ip; z = best_run 0 (255, 255) fs in
     if fst z = 255 then Join '':'' (map hex_nat fs)
     else Join '':'' (map hex_nat (take (fst z) fs)) @ ''::'' @ Join '':'' (map hex_nat (drop (snd z) fs)))"

definition IP_String :: "bytes \<Rightarrow> bytes" where
  "IP_String ip =
    (if length ip = 4 then ipv4_string ip
     else if take 12 ip = replicate 10 (byte_of 0) @ replicate 2 (byte_of 255) then ipv4_string (drop 12 ip)
     else ipv6_string ip)"

section \<open>socks5.go\<close>

text \<open>What a connection leads to: the bytes written to it, the address dialled, and, when the two connections were joined, the bytes
  left in the buffered reader and the segments that are copied to the target.\<close>

record socks_result =
  sr_written :: bytes
  sr_dialled :: "bytes option"
  sr_joined :: "(bytes \<times> bytes list) option"

definition socks_refusal :: bytes where
  "socks_refusal = map byte_of [5, 1, 0, 1, 0, 0, 0, 0, 0, 0]"

definition socks_success :: "nat \<Rightarrow> bytes" where
  "socks_success p = map byte_of [5, 0, 0, 1, 127, 0, 0, 1, p div 256, p]"

text \<open>Reading the address: it may end the connection without an answer, be refused, or give a host.\<close>

datatype host_result = Silent | Refused | Host bytes bytes "bytes list"

definition read_host :: "char \<Rightarrow> bytes \<Rightarrow> bytes list \<Rightarrow> host_result" where
  "read_host atyp buf segs =
    (if atyp = byte_of 1 then
       (case ReadFull_br 4 buf segs of None \<Rightarrow> Silent | Some (ip, buf, segs) \<Rightarrow> Host (IP_String ip) buf segs)
     else if atyp = byte_of 3 then
       (case ReadFull_br 1 buf segs of
          None \<Rightarrow> Silent
        | Some (l, buf, segs) \<Rightarrow>
            (case ReadFull_br (byte_val (hd l)) buf segs of None \<Rightarrow> Silent | Some (d, buf, segs) \<Rightarrow> Host d buf segs))
     else if atyp = byte_of 4 then
       (case ReadFull_br 16 buf segs of None \<Rightarrow> Silent | Some (ip, buf, segs) \<Rightarrow> Host (IP_String ip) buf segs)
     else Refused)"

text \<open>From the request on, with \<open>out\<close> already written; \<open>ok\<close> tells whether the success reply can be written.\<close>

definition serve_request :: "(bytes \<Rightarrow> bool) \<Rightarrow> bool \<Rightarrow> bytes \<Rightarrow> bytes \<Rightarrow> bytes list \<Rightarrow> socks_result" where
  "serve_request dial ok out buf segs =
    (let silent = \<lparr>sr_written = out, sr_dialled = None, sr_joined = None\<rparr>;
         refused = \<lparr>sr_written = out @ socks_refusal, sr_dialled = None, sr_joined = None\<rparr>
     in case ReadFull_br 4 buf segs of
          None \<Rightarrow> refused
        | Some (reqHdr, buf, segs) \<Rightarrow>
            if reqHdr ! 0 \<noteq> byte_of 5 \<or> reqHdr ! 1 \<noteq> byte_of 1 then refused
            else
             (case read_host (reqHdr ! 3) buf segs of
                Silent \<Rightarrow> silent
              | Refused \<Rightarrow> refused
              | Host host buf segs \<Rightarrow>
                  (case ReadFull_br 2 buf segs of
                     None \<Rightarrow> silent
                   | Some (portBuf, buf, segs) \<Rightarrow>
                       (let p = byte_val (portBuf ! 0) * 256 + byte_val (portBuf ! 1);
                            targetAddr = JoinHostPort host (Itoa (int p))
                        in if \<not> dial targetAddr then
                             \<lparr>sr_written = out @ socks_refusal, sr_dialled = Some targetAddr, sr_joined = None\<rparr>
                           else if \<not> ok then \<lparr>sr_written = out, sr_dialled = Some targetAddr, sr_joined = None\<rparr>
                           else \<lparr>sr_written = out @ socks_success p, sr_dialled = Some targetAddr, sr_joined = Some (buf, segs)\<rparr>))))"

definition handleSOCKS5Conn :: "(bytes \<Rightarrow> bool) \<Rightarrow> bool \<Rightarrow> bool \<Rightarrow> bytes list \<Rightarrow> socks_result" where
  "handleSOCKS5Conn dial ok1 ok2 segs =
    (let silent = \<lparr>sr_written = [], sr_dialled = None, sr_joined = None\<rparr> in
     case ReadFull_br 2 [] segs of
       None \<Rightarrow> silent
     | Some (hdr, buf, segs) \<Rightarrow>
         if hdr ! 0 \<noteq> byte_of 5 then silent
         else
          (case ReadFull_br (byte_val (hdr ! 1)) buf segs of
             None \<Rightarrow> silent
           | Some (methods, buf, segs) \<Rightarrow>
               if \<not> ok1 then silent else serve_request dial ok2 [byte_of 5, byte_of 0] buf segs))"

text \<open>The accept loop over what its turns meet: an accepted connection, or an error with the state of the context and of the client.
  The result is the number of connections handed to a handler and whether the loop returned.\<close>

datatype accept_turn = Accepted | AcceptError bool bool

fun serveSOCKS5Loop :: "accept_turn list \<Rightarrow> nat \<times> bool" where
  "serveSOCKS5Loop [] = (0, False)"
| "serveSOCKS5Loop (Accepted # ts) = (case serveSOCKS5Loop ts of (n, r) \<Rightarrow> (Suc n, r))"
| "serveSOCKS5Loop (AcceptError ctxDone closed # ts) = (if ctxDone then (0, True) else if closed then (0, True) else serveSOCKS5Loop ts)"

section \<open>Reading\<close>

lemma ReadFull_br_None: "ReadFull_br n buf segs = None \<longleftrightarrow> length (buf @ concat segs) < n"
  by (induction segs arbitrary: n buf) auto

lemma ReadFull_br_Some:
  "ReadFull_br n buf segs = Some (a, b, r) \<Longrightarrow> length a = n \<and> buf @ concat segs = a @ b @ concat r"
proof (induction segs arbitrary: n buf a)
  case (Cons s ss)
  show ?case
  proof (cases "n \<le> length buf")
    case False
    with Cons.prems obtain a' where "ReadFull_br (n - length buf) s ss = Some (a', b, r)" "a = buf @ a'" by auto
    with Cons.IH [of "n - length buf" s a'] False show ?thesis by simp
  qed (use Cons.prems in auto)
qed (auto split: if_splits)

text \<open>However the bytes are cut into segments, a read gets the first of them, and of the segments that follow those it needs none is
  touched.\<close>

lemma ReadFull_br_aligned:
  assumes "buf @ concat ss = a @ d" and "length a = n"
  shows "\<exists>b q. ReadFull_br n buf (ss @ ts) = Some (a, b, q @ ts) \<and> b @ concat q = d"
  using assms
proof (induction ss arbitrary: n buf a)
  case Nil
  then show ?case by (cases ts) auto
next
  case (Cons s ss)
  show ?case
  proof (cases "n \<le> length buf")
    case True
    with Cons.prems have "take n buf = a" "drop n buf @ s @ concat ss = d" by (auto simp: append_eq_append_conv_if split: if_splits)
    with True show ?thesis by (intro exI [of _ "drop n buf"] exI [of _ "s # ss"]) simp
  next
    case False
    with Cons.prems have "buf = take (length buf) a" and e: "s @ concat ss = drop (length buf) a @ d"
      by (simp_all only: concat.simps append_eq_append_conv_if [of buf] split: if_splits)
    then have a: "a = buf @ drop (length buf) a" "s @ concat ss = drop (length buf) a @ d" by (metis append_take_drop_id)+
    then obtain b q where "ReadFull_br (n - length buf) s (ss @ ts) = Some (drop (length buf) a, b, q @ ts)" "b @ concat q = d"
      using Cons.IH [OF a(2), of "n - length buf"] Cons.prems(2) by auto
    with False show ?thesis by (intro exI [of _ b] exI [of _ q]) (simp add: a(1) [symmetric])
  qed
qed

section \<open>Requests\<close>

text \<open>The protocol: what a client that wants a connection to \<open>h\<close> and \<open>p\<close> sends.\<close>

datatype socks_host = IPv4 bytes | Domain bytes | IPv6 bytes

fun host_ok :: "socks_host \<Rightarrow> bool" where
  "host_ok (IPv4 ip) \<longleftrightarrow> length ip = 4"
| "host_ok (Domain d) \<longleftrightarrow> length d < 256"
| "host_ok (IPv6 ip) \<longleftrightarrow> length ip = 16"

fun host_bytes :: "socks_host \<Rightarrow> bytes" where
  "host_bytes (IPv4 ip) = byte_of 1 # ip"
| "host_bytes (Domain d) = byte_of 3 # byte_of (length d) # d"
| "host_bytes (IPv6 ip) = byte_of 4 # ip"

fun host_text :: "socks_host \<Rightarrow> bytes" where
  "host_text (IPv4 ip) = IP_String ip"
| "host_text (Domain d) = d"
| "host_text (IPv6 ip) = IP_String ip"

definition socks_target :: "socks_host \<Rightarrow> nat \<Rightarrow> bytes" where
  "socks_target h p = JoinHostPort (host_text h) (Itoa (int p))"

definition socks_request :: "char \<Rightarrow> socks_host \<Rightarrow> nat \<Rightarrow> bytes" where
  "socks_request rsv h p = [byte_of 5, byte_of 1, rsv] @ host_bytes h @ [byte_of (p div 256), byte_of p]"

definition socks_message :: "bytes \<Rightarrow> char \<Rightarrow> socks_host \<Rightarrow> nat \<Rightarrow> bytes" where
  "socks_message ms rsv h p = [byte_of 5, byte_of (length ms)] @ ms @ socks_request rsv h p"

lemma byte_of_inj: "a < 256 \<Longrightarrow> b < 256 \<Longrightarrow> byte_of a = byte_of b \<longleftrightarrow> a = b"
  using byte_val_of by (metis mod_less)

lemma read_host_encoded:
  assumes "host_ok h" and "buf @ concat segs = tl (host_bytes h) @ d"
  shows "\<exists>b r. read_host (hd (host_bytes h)) buf (segs @ ts) = Host (host_text h) b (r @ ts) \<and> b @ concat r = d"
proof (cases h)
  case (Domain s)
  have "buf @ concat segs = [byte_of (length s)] @ s @ d" using assms(2) Domain by simp
  then obtain b r where 1: "ReadFull_br 1 buf (segs @ ts) = Some ([byte_of (length s)], b, r @ ts)" "b @ concat r = s @ d"
    using ReadFull_br_aligned [of buf segs "[byte_of (length s)]" "s @ d" 1 ts] by auto
  then obtain b' r' where "ReadFull_br (length s) b (r @ ts) = Some (s, b', r' @ ts)" "b' @ concat r' = d"
    using ReadFull_br_aligned [of b r s d "length s" ts] by auto
  then show ?thesis using 1 assms(1) Domain by (simp add: read_host_def byte_of_inj)
next
  case (IPv4 ip)
  then show ?thesis using ReadFull_br_aligned [of buf segs ip d 4 ts] assms by (auto simp: read_host_def)
next
  case (IPv6 ip)
  then show ?thesis using ReadFull_br_aligned [of buf segs ip d 16 ts] assms by (auto simp: read_host_def byte_of_inj)
qed

lemma read_host_decoded:
  assumes "read_host atyp buf segs = Host host b r"
  shows "\<exists>h. host_ok h \<and> host = host_text h \<and> atyp # buf @ concat segs = host_bytes h @ b @ concat r"
proof -
  consider (v4) "atyp = byte_of 1" | (dom) "atyp = byte_of 3" "atyp \<noteq> byte_of 1" | (v6) "atyp = byte_of 4" "atyp \<noteq> byte_of 1" "atyp \<noteq> byte_of 3"
    using assms by (auto simp: read_host_def split: if_splits)
  then show ?thesis
  proof cases
    case v4
    then obtain ip where "ReadFull_br 4 buf segs = Some (ip, b, r)" "host = IP_String ip"
      using assms by (auto simp: read_host_def split: option.splits)
    then show ?thesis using ReadFull_br_Some [of 4 buf segs ip b r] v4 by (intro exI [of _ "IPv4 ip"]) simp
  next
    case dom
    then obtain l b1 r1 where 1: "ReadFull_br 1 buf segs = Some (l, b1, r1)" "ReadFull_br (byte_val (hd l)) b1 r1 = Some (host, b, r)"
      using assms by (auto simp: read_host_def split: option.splits)
    note e = ReadFull_br_Some [OF 1(1)] ReadFull_br_Some [OF 1(2)]
    obtain c where "l = [c]" using e(1) by (cases l) auto
    then show ?thesis using e dom(1) by (intro exI [of _ "Domain host"]) auto
  next
    case v6
    then obtain ip where "ReadFull_br 16 buf segs = Some (ip, b, r)" "host = IP_String ip"
      using assms by (auto simp: read_host_def split: option.splits)
    then show ?thesis using ReadFull_br_Some [of 16 buf segs ip b r] v6 by (intro exI [of _ "IPv6 ip"]) simp
  qed
qed

definition joined_result :: "(bytes \<Rightarrow> bool) \<Rightarrow> bool \<Rightarrow> bytes \<Rightarrow> bytes \<Rightarrow> nat \<Rightarrow> bytes \<times> bytes list \<Rightarrow> socks_result" where
  "joined_result dial ok out t p left =
    (if \<not> dial t then \<lparr>sr_written = out @ socks_refusal, sr_dialled = Some t, sr_joined = None\<rparr>
     else if \<not> ok then \<lparr>sr_written = out, sr_dialled = Some t, sr_joined = None\<rparr>
     else \<lparr>sr_written = out @ socks_success p, sr_dialled = Some t, sr_joined = Some left\<rparr>)"

lemma serve_request_encoded:
  assumes "host_ok h" and "p < 65536" and "buf @ concat segs = socks_request rsv h p @ d"
  shows "\<exists>b r. serve_request dial ok out buf (segs @ ts) = joined_result dial ok out (socks_target h p) p (b, r @ ts) \<and> b @ concat r = d"
proof -
  let ?hdr = "[byte_of 5, byte_of 1, rsv, hd (host_bytes h)]"
  let ?pb = "[byte_of (p div 256), byte_of p]"
  have hb: "host_bytes h = hd (host_bytes h) # tl (host_bytes h)" by (cases h) simp_all
  have "buf @ concat segs = ?hdr @ tl (host_bytes h) @ ?pb @ d" using assms(3) hb by (simp add: socks_request_def)
  then obtain b1 r1 where 1: "ReadFull_br 4 buf (segs @ ts) = Some (?hdr, b1, r1 @ ts)" "b1 @ concat r1 = tl (host_bytes h) @ ?pb @ d"
    using ReadFull_br_aligned [of buf segs ?hdr _ 4 ts] by auto
  obtain b2 r2 where 2: "read_host (hd (host_bytes h)) b1 (r1 @ ts) = Host (host_text h) b2 (r2 @ ts)" "b2 @ concat r2 = ?pb @ d"
    using read_host_encoded [OF assms(1) 1(2), of ts] by auto
  obtain b3 r3 where 3: "ReadFull_br 2 b2 (r2 @ ts) = Some (?pb, b3, r3 @ ts)" "b3 @ concat r3 = d"
    using ReadFull_br_aligned [OF 2(2), of 2 ts] by auto
  have "p div 256 < 256" using assms(2) by (simp add: less_mult_imp_div_less)
  then have p: "p div 256 mod 256 * 256 + p mod 256 = p" by simp
  show ?thesis
    by (rule exI [of _ b3], rule exI [of _ r3])
      (use 1(1) 2(1) 3 p in \<open>simp add: serve_request_def joined_result_def socks_target_def Let_def del: of_nat_add of_nat_mult\<close>)
qed

lemma serve_request_decoded:
  assumes "sr_dialled (serve_request dial ok out buf segs) = Some t"
  shows "\<exists>rsv h p d. host_ok h \<and> p < 65536 \<and> t = socks_target h p \<and> buf @ concat segs = socks_request rsv h p @ d"
proof -
  obtain hdr b1 r1 where 1: "ReadFull_br 4 buf segs = Some (hdr, b1, r1)" "hdr ! 0 = byte_of 5" "hdr ! 1 = byte_of 1"
    using assms by (auto simp: serve_request_def Let_def split: option.splits if_splits)
  obtain host b2 r2 where 2: "read_host (hdr ! 3) b1 r1 = Host host b2 r2"
    using assms 1 by (auto simp: serve_request_def Let_def split: host_result.splits)
  obtain pb b3 r3 where 3: "ReadFull_br 2 b2 r2 = Some (pb, b3, r3)"
    using assms 1 2 by (auto simp: serve_request_def Let_def split: option.splits)
  define p where "p = byte_val (pb ! 0) * 256 + byte_val (pb ! 1)"
  have t: "t = JoinHostPort host (Itoa (int p))"
    using assms 1 2 3 by (auto simp: serve_request_def Let_def p_def split: if_splits)
  obtain h where h: "host_ok h" "host = host_text h" "hdr ! 3 # b1 @ concat r1 = host_bytes h @ b2 @ concat r2"
    using read_host_decoded [OF 2] by blast
  note e1 = ReadFull_br_Some [OF 1(1)] and e3 = ReadFull_br_Some [OF 3]
  obtain c2 where hdr: "hdr = [byte_of 5, byte_of 1, c2, hdr ! 3]"
    using e1 1(2,3) by (auto simp: numeral_eq_Suc length_Suc_conv)
  obtain x y where pb: "pb = [x, y]" using e3 by (auto simp: numeral_eq_Suc length_Suc_conv)
  have "p = byte_val x * 256 + byte_val y" by (simp add: p_def pb)
  then have "p < 65536" using byte_val_less [of x] byte_val_less [of y] by linarith
  moreover have "p div 256 = byte_val x" "p mod 256 = byte_val y" by (simp_all add: p_def pb)
  ultimately have p: "p < 65536" "p div 256 = byte_val x" "p mod 256 = byte_val y" by blast+
  have "byte_of (p div 256) = x" "byte_of p = y" using p(2,3) byte_val_inject [of "byte_of p" y] by simp_all
  then have pb': "pb = [byte_of (p div 256), byte_of p]" using pb by simp
  have "buf @ concat segs = [byte_of 5, byte_of 1, c2] @ (hdr ! 3 # b1 @ concat r1)" using e1 hdr by (metis append.assoc append_Cons append_Nil)
  also have "\<dots> = socks_request c2 h p @ b3 @ concat r3" using h(3) e3 pb' by (simp add: socks_request_def)
  finally show ?thesis using h(1,2) p(1) t by (auto simp: socks_target_def)
qed

section \<open>Properties\<close>

lemma handle_encoded:
  assumes "host_ok h" and "p < 65536" and "length ms < 256" and "concat segs = socks_message ms rsv h p @ d"
  shows "\<exists>b r. handleSOCKS5Conn dial True ok (segs @ ts) = joined_result dial ok [byte_of 5, byte_of 0] (socks_target h p) p (b, r @ ts) \<and>
    b @ concat r = d"
proof -
  have "[] @ concat segs = [byte_of 5, byte_of (length ms)] @ ms @ socks_request rsv h p @ d" using assms(4) by (simp add: socks_message_def)
  then obtain b1 r1 where 1: "ReadFull_br 2 [] (segs @ ts) = Some ([byte_of 5, byte_of (length ms)], b1, r1 @ ts)" "b1 @ concat r1 = ms @ socks_request rsv h p @ d"
    using ReadFull_br_aligned [of "[]" segs "[byte_of 5, byte_of (length ms)]" _ 2 ts] by auto
  obtain b2 r2 where 2: "ReadFull_br (length ms) b1 (r1 @ ts) = Some (ms, b2, r2 @ ts)" "b2 @ concat r2 = socks_request rsv h p @ d"
    using ReadFull_br_aligned [OF 1(2), of "length ms" ts] by auto
  have "handleSOCKS5Conn dial True ok (segs @ ts) = serve_request dial ok [byte_of 5, byte_of 0] b2 (r2 @ ts)"
    using 1(1) 2(1) assms(3) by (simp add: handleSOCKS5Conn_def Let_def)
  then show ?thesis using serve_request_encoded [OF assms(1,2) 2(2), of dial ok "[byte_of 5, byte_of 0]" ts] by simp
qed

lemma handle_decoded:
  assumes "sr_dialled (handleSOCKS5Conn dial ok1 ok2 segs) = Some t"
  shows "\<exists>ms rsv h p d. length ms < 256 \<and> host_ok h \<and> p < 65536 \<and> t = socks_target h p \<and> concat segs = socks_message ms rsv h p @ d"
proof -
  obtain hdr b1 r1 where 1: "ReadFull_br 2 [] segs = Some (hdr, b1, r1)" "hdr ! 0 = byte_of 5"
    using assms by (auto simp: handleSOCKS5Conn_def Let_def split: option.splits if_splits)
  obtain ms b2 r2 where 2: "ReadFull_br (byte_val (hdr ! 1)) b1 r1 = Some (ms, b2, r2)"
    using assms 1 by (auto simp: handleSOCKS5Conn_def Let_def split: option.splits)
  have "sr_dialled (serve_request dial ok2 [byte_of 5, byte_of 0] b2 r2) = Some t"
    using assms 1 2 by (auto simp: handleSOCKS5Conn_def Let_def split: if_splits)
  then obtain rsv h p d where 3: "host_ok h" "p < 65536" "t = socks_target h p" "b2 @ concat r2 = socks_request rsv h p @ d"
    using serve_request_decoded by meson
  note e1 = ReadFull_br_Some [OF 1(1)] and e2 = ReadFull_br_Some [OF 2]
  obtain c where "hdr = [byte_of 5, c]" using e1 1(2) by (auto simp: numeral_eq_Suc length_Suc_conv)
  then have "hdr = [byte_of 5, byte_of (length ms)]" "length ms < 256" using e2 by auto
  then have "concat segs = socks_message ms rsv h p @ d" using e1 e2 3(4) by (simp add: socks_message_def)
  then show ?thesis using 3(1-3) \<open>length ms < 256\<close> by blast
qed

text \<open>C37: what the SOCKS5 proxy dials.  However the client's bytes are cut into segments, an address is dialled exactly when they begin
  with a greeting and a well-formed CONNECT request, and it is the address of that request; the client is answered by a
  success with the request's port exactly when the dial succeeds, else by a refusal.  Of what the client sent with the request a
  part stays in the reader's buffer; when it waited for the answer the buffer is empty and all later segments are copied to the
  target.\<close>
theorem socks_dials_iff:
  "(sr_dialled (handleSOCKS5Conn dial True ok segs) = Some t \<longleftrightarrow>
     (\<exists>ms rsv h p d. length ms < 256 \<and> host_ok h \<and> p < 65536 \<and> concat segs = socks_message ms rsv h p @ d \<and> t = socks_target h p)) \<and>
   (\<forall>ms rsv h p d ss ts. length ms < 256 \<and> host_ok h \<and> p < 65536 \<and> segs = ss @ ts \<and> concat ss = socks_message ms rsv h p @ d \<longrightarrow>
     (\<exists>b r. b @ concat r = d \<and>
       handleSOCKS5Conn dial True True segs =
         (if dial (socks_target h p)
          then \<lparr>sr_written = [byte_of 5, byte_of 0] @ socks_success p, sr_dialled = Some (socks_target h p), sr_joined = Some (b, r @ ts)\<rparr>
          else \<lparr>sr_written = [byte_of 5, byte_of 0] @ socks_refusal, sr_dialled = Some (socks_target h p), sr_joined = None\<rparr>)))"
  (is "(?d = Some t \<longleftrightarrow> ?m) \<and> ?r")
proof -
  have "?d = Some t" if ?m
  proof -
    from that obtain ms rsv h p d where a: "length ms < 256" "host_ok h" "p < 65536" "concat segs = socks_message ms rsv h p @ d"
      "t = socks_target h p" by blast
    from handle_encoded [OF a(2,3,1,4), of dial ok "[]"] a(5) show ?thesis by (auto simp: joined_result_def)
  qed
  moreover have "?d = Some t \<Longrightarrow> ?m" using handle_decoded by blast
  moreover have ?r
  proof (intro allI impI, elim conjE)
    fix ms rsv h p d ss ts assume a: "length ms < 256" "host_ok h" "p < 65536" "segs = ss @ ts" "concat ss = socks_message ms rsv h p @ d"
    obtain b r where "handleSOCKS5Conn dial True True segs = joined_result dial True [byte_of 5, byte_of 0] (socks_target h p) p (b, r @ ts)"
      "b @ concat r = d" using handle_encoded [OF a(2,3,1,5), of dial True ts] a(4) by blast
    then show "\<exists>b r. b @ concat r = d \<and>
       handleSOCKS5Conn dial True True segs =
         (if dial (socks_target h p)
          then \<lparr>sr_written = [byte_of 5, byte_of 0] @ socks_success p, sr_dialled = Some (socks_target h p), sr_joined = Some (b, r @ ts)\<rparr>
          else \<lparr>sr_written = [byte_of 5, byte_of 0] @ socks_refusal, sr_dialled = Some (socks_target h p), sr_joined = None\<rparr>)"
      by (intro exI [of _ b] exI [of _ r]) (simp add: joined_result_def)
  qed
  ultimately show ?thesis by blast
qed

theorem socks_dials_iff_witness:
  "\<exists>b r. b @ concat r = [] \<and> sr_joined (handleSOCKS5Conn (\<lambda>_. True) True True
     [socks_message [byte_of 0] (byte_of 0) (Domain ''h'') 80, ''GET'']) = Some (b, r @ [''GET''])"
proof -
  have "length [byte_of 0] < 256 \<and> host_ok (Domain ''h'') \<and> (80 :: nat) < 65536 \<and>
    [socks_message [byte_of 0] (byte_of 0) (Domain ''h'') 80, ''GET''] = [socks_message [byte_of 0] (byte_of 0) (Domain ''h'') 80] @ [''GET''] \<and>
    concat [socks_message [byte_of 0] (byte_of 0) (Domain ''h'') 80] = socks_message [byte_of 0] (byte_of 0) (Domain ''h'') 80 @ []" by simp
  with socks_dials_iff [of "\<lambda>_. True" True "[socks_message [byte_of 0] (byte_of 0) (Domain ''h'') 80, ''GET'']" "[]", THEN conjunct2]
  have "\<exists>b r. b @ concat r = [] \<and> handleSOCKS5Conn (\<lambda>_. True) True True [socks_message [byte_of 0] (byte_of 0) (Domain ''h'') 80, ''GET''] =
      \<lparr>sr_written = [byte_of 5, byte_of 0] @ socks_success 80, sr_dialled = Some (socks_target (Domain ''h'') 80), sr_joined = Some (b, r @ [''GET''])\<rparr>"
    by (smt (verit))
  then show ?thesis by auto
qed

text \<open>Data that arrives in the same segment as the request stays in the buffer and never reaches the target.\<close>

lemma early_data_lost:
  "sr_joined (handleSOCKS5Conn (\<lambda>_. True) True True [socks_message [byte_of 0] (byte_of 0) (Domain ''h'') 80 @ ''GET'']) = Some (''GET'', [])"
  by (simp add: handleSOCKS5Conn_def serve_request_def read_host_def socks_message_def socks_request_def Let_def byte_eval)

text \<open>A listener closed by its owner fails every accept; the loop does not return.\<close>

lemma closed_listener_spins: "serveSOCKS5Loop (replicate n (AcceptError False False)) = (0, False)"
  by (induction n) simp_all

end
