(* ===== verification/SSH_Options.thy ===== *)
theory SSH_Options
  imports SSH_Hosts SSH_Config SSH_Socks
begin

text \<open>
  Package \<^verbatim>\<open>ssh\<close>, file \<^verbatim>\<open>src/ssh/options.go\<close>, the part of \<^verbatim>\<open>client.go\<close> that connects, the part of \<^verbatim>\<open>config.go\<close> that connects with a configuration,
  and \<^verbatim>\<open>agent/agent.go\<close>: the options of a client, applied in order, and the dial they lead to.  An option is a function of the
  environment (keys, files, the SSH agent's socket) and of the client, its configuration and the cache of known hosts; jump
  clients, dialers and callbacks given by the caller are identified by numbers.  The network is an argument.
\<close>

section \<open>Data\<close>

datatype 'cb hostKeyCallback = KnownHostsCB 'cb | FingerprintCB bytes | InsecureCB | CustomCB nat

datatype 's authMethod =
    PasswordAuth bytes
  | InteractiveAuth "bytes \<Rightarrow> bytes \<Rightarrow> bytes \<Rightarrow> bool \<Rightarrow> ssh_error + bytes"
  | PublicKeysAuth 's
  | AgentConnAuth nat
  | AgentSocketAuth bytes
  | CustomAuth nat

record ('s, 'cb) ClientConfig =
  cf_User :: bytes
  cf_Timeout :: int
  cf_ClientVersion :: bytes
  cf_Ciphers :: "bytes list"
  cf_KeyExchanges :: "bytes list"
  cf_Auth :: "'s authMethod list"
  cf_HostKeyCallback :: "'cb hostKeyCallback option"
  cf_HostKeyAlgorithms :: "bytes list"
  cf_BannerCallback :: "nat option"

record Client =
  cl_User :: bytes
  cl_Addr :: bytes
  cl_Port :: nat
  cl_ProxyURL :: bytes
  cl_Jump :: "nat option"
  cl_Dialer :: "nat option"
  cl_RequestPty :: bool
  cl_PtyTerm :: bytes
  cl_PtyWidth :: int
  cl_PtyHeight :: int
  cl_WindowSize :: "32 word"
  cl_MaxPacketSize :: "32 word"

record ('s, 'cb) ssh_env =
  en_keys :: "'s key_lib"
  en_parse :: "bytes \<Rightarrow> 'cb option"
  en_home :: "bytes option"
  en_agent :: bytes
  en_creatable :: bool
  en_username :: "bytes option"

record ('s, 'cb) dialing =
  d_client :: Client
  d_config :: "('s, 'cb) ClientConfig"
  d_hosts :: "'cb hosts"

type_synonym ('s, 'cb) Option = "('s, 'cb) ssh_env \<Rightarrow> ('s, 'cb) dialing \<Rightarrow> ssh_error option \<times> ('s, 'cb) dialing"

text \<open>Options that change the client only, or the configuration only.\<close>

definition on_client :: "(Client \<Rightarrow> Client) \<Rightarrow> ('s, 'cb) Option" where
  "on_client f en d = (None, d\<lparr>d_client := f (d_client d)\<rparr>)"

definition on_config :: "(('s, 'cb) ClientConfig \<Rightarrow> ('s, 'cb) ClientConfig) \<Rightarrow> ('s, 'cb) Option" where
  "on_config f en d = (None, d\<lparr>d_config := f (d_config d)\<rparr>)"

definition add_auth :: "'s authMethod \<Rightarrow> ('s, 'cb) Option" where
  "add_auth m = on_config (\<lambda>c. c\<lparr>cf_Auth := cf_Auth c @ [m]\<rparr>)"

definition add_signer :: "ssh_error + 's \<Rightarrow> ('s, 'cb) Option" where
  "add_signer r en d = (case r of Inl err \<Rightarrow> (Some err, d) | Inr signer \<Rightarrow> add_auth (PublicKeysAuth signer) en d)"

definition set_callback :: "'cb hostKeyCallback \<Rightarrow> ('s, 'cb) Option" where
  "set_callback cb = on_config (\<lambda>c. c\<lparr>cf_HostKeyCallback := Some cb\<rparr>)"

section \<open>agent.go\<close>

definition SocketPath :: "('s, 'cb) ssh_env \<Rightarrow> bytes" where
  "SocketPath en = en_agent en"

definition HasAgent :: "('s, 'cb) ssh_env \<Rightarrow> bool" where
  "HasAgent en \<longleftrightarrow> SocketPath en \<noteq> []"

datatype agent_error = ErrAgentUnavailable | AgentDial

definition Connect_agent :: "(bytes \<Rightarrow> nat option) \<Rightarrow> ('s, 'cb) ssh_env \<Rightarrow> bytes \<Rightarrow> agent_error + nat" where
  "Connect_agent dial en socketPath =
    (let target = (if socketPath = [] then SocketPath en else socketPath) in
     if target = [] then Inl ErrAgentUnavailable
     else case dial target of None \<Rightarrow> Inl AgentDial | Some conn \<Rightarrow> Inr conn)"

definition AuthMethod :: "nat option \<Rightarrow> 's authMethod option" where
  "AuthMethod conn = map_option AgentConnAuth conn"

definition AuthMethodSocket :: "bytes \<Rightarrow> 's authMethod option" where
  "AuthMethodSocket socketPath = (if socketPath = [] then None else Some (AgentSocketAuth socketPath))"

definition DefaultAuthMethod :: "('s, 'cb) ssh_env \<Rightarrow> 's authMethod option" where
  "DefaultAuthMethod en = AuthMethodSocket (SocketPath en)"

definition add_method :: "'s authMethod option \<Rightarrow> ('s, 'cb) Option" where
  "add_method m en d = (case m of None \<Rightarrow> (None, d) | Some a \<Rightarrow> add_auth a en d)"

section \<open>options.go\<close>

definition WithDialer :: "nat option \<Rightarrow> ('s, 'cb) Option" where
  "WithDialer dialer = on_client (\<lambda>c. c\<lparr>cl_Dialer := dialer\<rparr>)"

definition WithPassword :: "bytes \<Rightarrow> ('s, 'cb) Option" where
  "WithPassword password = add_auth (PasswordAuth password)"

text \<open>The callback given to the library asks the handler question by question.\<close>

fun interactive_answers ::
  "(bytes \<Rightarrow> bytes \<Rightarrow> bytes \<Rightarrow> bool \<Rightarrow> ssh_error + bytes) \<Rightarrow> bytes \<Rightarrow> bytes \<Rightarrow> (bytes \<times> bool) list \<Rightarrow> ssh_error + bytes list" where
  "interactive_answers handler user instruction [] = Inr []"
| "interactive_answers handler user instruction ((q, echo) # qs) =
    (case handler user instruction q echo of
       Inl err \<Rightarrow> Inl err
     | Inr answer \<Rightarrow> map_sum id ((#) answer) (interactive_answers handler user instruction qs))"

definition WithKeyboardInteractive :: "(bytes \<Rightarrow> bytes \<Rightarrow> bytes \<Rightarrow> bool \<Rightarrow> ssh_error + bytes) \<Rightarrow> ('s, 'cb) Option" where
  "WithKeyboardInteractive handler = add_auth (InteractiveAuth handler)"

definition WithKeyFile :: "bytes \<Rightarrow> bytes \<Rightarrow> ('s, 'cb) Option" where
  "WithKeyFile keyFile passphrase en d = add_signer (ParseKeyFile (en_keys en) (h_files (d_hosts d)) keyFile passphrase) en d"

definition WithKey :: "bytes \<Rightarrow> bytes \<Rightarrow> ('s, 'cb) Option" where
  "WithKey pemBytes passphrase en d = add_signer (ParseKey (en_keys en) pemBytes passphrase) en d"

definition WithAgent :: "nat option \<Rightarrow> ('s, 'cb) Option" where
  "WithAgent conn = add_method (AuthMethod conn)"

definition WithAgentSocket :: "bytes \<Rightarrow> ('s, 'cb) Option" where
  "WithAgentSocket socket = add_method (AuthMethodSocket socket)"

definition WithDefaultAgent :: "('s, 'cb) Option" where
  "WithDefaultAgent en = add_method (DefaultAuthMethod en) en"

definition WithAuth :: "'s authMethod \<Rightarrow> ('s, 'cb) Option" where
  "WithAuth m = add_auth m"

definition WithSigner :: "'s \<Rightarrow> ('s, 'cb) Option" where
  "WithSigner signer = add_auth (PublicKeysAuth signer)"

definition WithPort :: "nat \<Rightarrow> ('s, 'cb) Option" where
  "WithPort p = on_client (\<lambda>c. c\<lparr>cl_Port := p\<rparr>)"

definition WithTimeout :: "int \<Rightarrow> ('s, 'cb) Option" where
  "WithTimeout d = on_config (\<lambda>c. c\<lparr>cf_Timeout := d\<rparr>)"

definition WithWindowSize :: "32 word \<Rightarrow> ('s, 'cb) Option" where
  "WithWindowSize n = on_client (\<lambda>c. c\<lparr>cl_WindowSize := n\<rparr>)"

definition WithMaxPacketSize :: "32 word \<Rightarrow> ('s, 'cb) Option" where
  "WithMaxPacketSize n = on_client (\<lambda>c. c\<lparr>cl_MaxPacketSize := n\<rparr>)"

definition fast_ciphers :: "bytes list" where
  "fast_ciphers = [''aes128-gcm@openssh.com'', ''chacha20-poly1305@openssh.com'', ''aes256-gcm@openssh.com'']"

definition fast_kex :: "bytes list" where
  "fast_kex = [''curve25519-sha256'', ''curve25519-sha256@libssh.org'', ''ecdh-sha2-nistp256'']"

definition WithHighPerformanceDefaults :: "('s, 'cb) Option" where
  "WithHighPerformanceDefaults en d =
    (None, d\<lparr>d_client := (d_client d)\<lparr>cl_WindowSize := 16 * 1024 * 1024, cl_MaxPacketSize := 64 * 1024\<rparr>,
             d_config := (d_config d)\<lparr>cf_Ciphers := fast_ciphers, cf_KeyExchanges := fast_kex\<rparr>\<rparr>)"

text \<open>The result of consulting the cache of known hosts becomes the callback.\<close>

definition use_hosts :: "(ssh_error + 'cb) \<times> 'cb hosts \<Rightarrow> ('s, 'cb) Option" where
  "use_hosts r en d =
    (case r of (Inl err, h) \<Rightarrow> (Some err, d\<lparr>d_hosts := h\<rparr>) | (Inr cb, h) \<Rightarrow> set_callback (KnownHostsCB cb) en (d\<lparr>d_hosts := h\<rparr>))"

definition WithKnownHosts :: "bytes \<Rightarrow> ('s, 'cb) Option" where
  "WithKnownHosts path en d = use_hosts (KnownHosts (en_parse en) path (d_hosts d)) en d"

definition WithEnsureKnownHosts :: "bytes \<Rightarrow> ('s, 'cb) Option" where
  "WithEnsureKnownHosts path en d =
    use_hosts (EnsureKnownHosts (en_parse en) (en_creatable en) (h_now (d_hosts d)) path (d_hosts d)) en d"

definition WithFingerprint :: "bytes \<Rightarrow> ('s, 'cb) Option" where
  "WithFingerprint fingerprint = set_callback (FingerprintCB fingerprint)"

text \<open>What the library's handshake asks of a callback; \<open>fp\<close> is the fingerprint of a key.\<close>

definition run_callback ::
  "(bytes \<Rightarrow> bytes) \<Rightarrow> ('cb \<Rightarrow> bytes \<Rightarrow> bytes \<Rightarrow> bytes \<Rightarrow> host_check) \<Rightarrow> (nat \<Rightarrow> bytes \<Rightarrow> bool) \<Rightarrow> 'cb hostKeyCallback \<Rightarrow> bytes \<Rightarrow> bytes \<Rightarrow> bytes \<Rightarrow> bool" where
  "run_callback fp chk custom cb host remote key =
    (case cb of
       KnownHostsCB k \<Rightarrow> chk k host remote key = HostOK
     | FingerprintCB fingerprint \<Rightarrow> \<not> fp key \<noteq> fingerprint
     | InsecureCB \<Rightarrow> True
     | CustomCB n \<Rightarrow> custom n key)"

definition WithLegacyCiphers :: "('s, 'cb) Option" where
  "WithLegacyCiphers =
    on_config (\<lambda>c. c\<lparr>cf_Ciphers := cf_Ciphers c @ [''aes128-cbc'', ''aes192-cbc'', ''aes256-cbc'', ''3des-cbc''],
      cf_KeyExchanges := cf_KeyExchanges c @ [''diffie-hellman-group-exchange-sha1'', ''diffie-hellman-group-exchange-sha256'']\<rparr>)"

definition WithCiphers :: "bytes list \<Rightarrow> ('s, 'cb) Option" where
  "WithCiphers ciphers = on_config (\<lambda>c. c\<lparr>cf_Ciphers := cf_Ciphers c @ ciphers\<rparr>)"

definition WithKeyExchanges :: "bytes list \<Rightarrow> ('s, 'cb) Option" where
  "WithKeyExchanges kex = on_config (\<lambda>c. c\<lparr>cf_KeyExchanges := cf_KeyExchanges c @ kex\<rparr>)"

definition WithRequestPty :: "bool \<Rightarrow> ('s, 'cb) Option" where
  "WithRequestPty enabled = on_client (\<lambda>c. c\<lparr>cl_RequestPty := enabled\<rparr>)"

definition WithPtyTerminal :: "bytes \<Rightarrow> int \<Rightarrow> int \<Rightarrow> ('s, 'cb) Option" where
  "WithPtyTerminal term width height =
    on_client (\<lambda>c. c\<lparr>cl_RequestPty := True, cl_PtyTerm := term, cl_PtyWidth := width, cl_PtyHeight := height\<rparr>)"

definition WithInsecureIgnoreHostKey :: "('s, 'cb) Option" where
  "WithInsecureIgnoreHostKey = set_callback InsecureCB"

definition WithHostKeyCallback :: "'cb hostKeyCallback option \<Rightarrow> ('s, 'cb) Option" where
  "WithHostKeyCallback cb = on_config (\<lambda>c. c\<lparr>cf_HostKeyCallback := cb\<rparr>)"

definition WithHostKeyAlgorithms :: "bytes list \<Rightarrow> ('s, 'cb) Option" where
  "WithHostKeyAlgorithms algorithms = on_config (\<lambda>c. c\<lparr>cf_HostKeyAlgorithms := algorithms\<rparr>)"

definition WithBannerCallback :: "nat option \<Rightarrow> ('s, 'cb) Option" where
  "WithBannerCallback cb = on_config (\<lambda>c. c\<lparr>cf_BannerCallback := cb\<rparr>)"

definition WithProxy :: "bytes \<Rightarrow> ('s, 'cb) Option" where
  "WithProxy socks5URL = on_client (\<lambda>c. c\<lparr>cl_ProxyURL := socks5URL\<rparr>)"

definition WithJump :: "nat option \<Rightarrow> ('s, 'cb) Option" where
  "WithJump jumpClient = on_client (\<lambda>c. c\<lparr>cl_Jump := jumpClient\<rparr>)"

definition WithConfig ::
  "(('s, 'cb) ClientConfig \<Rightarrow> ssh_error option \<times> ('s, 'cb) ClientConfig) \<Rightarrow> ('s, 'cb) Option" where
  "WithConfig fn en d = (case fn (d_config d) of (err, c) \<Rightarrow> (err, d\<lparr>d_config := c\<rparr>))"

definition WithCertFile :: "bytes \<Rightarrow> bytes \<Rightarrow> bytes \<Rightarrow> ('s, 'cb) Option" where
  "WithCertFile certFile keyFile passphrase en d =
    add_signer (ParseCertKeyFile (en_keys en) (h_files (d_hosts d)) certFile keyFile passphrase) en d"

definition WithCert :: "bytes \<Rightarrow> bytes \<Rightarrow> bytes \<Rightarrow> ('s, 'cb) Option" where
  "WithCert certBytes keyBytes passphrase en d = add_signer (ParseCertKey (en_keys en) certBytes keyBytes passphrase) en d"

definition WithCertSigner :: "'s \<Rightarrow> ('s, 'cb) Option" where
  "WithCertSigner signer = add_auth (PublicKeysAuth signer)"

section \<open>Connecting\<close>

definition formatTargetAddr :: "bytes \<Rightarrow> nat \<Rightarrow> bytes" where
  "formatTargetAddr addr p =
    (if p = 22 \<or> p = 0 then (if CHR '':'' \<in> set addr then addr else addr @ '':22'')
     else JoinHostPort addr (format_nat p))"

definition resolveDefaultUsername :: "('s, 'cb) ssh_env \<Rightarrow> bytes \<Rightarrow> bytes" where
  "resolveDefaultUsername en current =
    (if current \<noteq> [] then current
     else case en_username en of Some u \<Rightarrow> if u \<noteq> [] then u else ''root'' | None \<Rightarrow> ''root'')"

text \<open>How the connection is made: through a jump client, a dialer, a SOCKS5 proxy with its address and credentials, or directly.\<close>

datatype route = ViaJump nat bytes | ViaDialer nat bytes | ViaProxy bytes "(bytes \<times> bytes) option" bytes int | Direct bytes int

text \<open>A parsed proxy URL: its host and, if it has them, user and password.\<close>

definition dialSocks5Proxy :: "(bytes \<Rightarrow> (bytes \<times> (bytes \<times> bytes option) option) option) \<Rightarrow> bytes \<Rightarrow> bytes \<Rightarrow> int \<Rightarrow> route option" where
  "dialSocks5Proxy purl proxyURL target timeout =
    (case purl proxyURL of
       None \<Rightarrow> None
     | Some (host, user) \<Rightarrow>
         Some (ViaProxy (if host = [] then proxyURL else host)
           (map_option (\<lambda>(u, pw). (u, case pw of None \<Rightarrow> [] | Some pw \<Rightarrow> pw)) user) target timeout))"

definition dialTransportConn ::
  "(bytes \<Rightarrow> (bytes \<times> (bytes \<times> bytes option) option) option) \<Rightarrow> Client \<Rightarrow> bytes \<Rightarrow> int \<Rightarrow> route option" where
  "dialTransportConn purl c target timeout =
    (case cl_Jump c of
       Some j \<Rightarrow> Some (ViaJump j target)
     | None \<Rightarrow>
         (case cl_Dialer c of
            Some k \<Rightarrow> Some (ViaDialer k target)
          | None \<Rightarrow> if cl_ProxyURL c \<noteq> [] then dialSocks5Proxy purl (cl_ProxyURL c) target timeout else Some (Direct target timeout)))"

text \<open>The network: whether a connection is made along a route, and what the handshake with a configuration over it says.\<close>

record ('s, 'cb) network =
  nw_purl :: "bytes \<Rightarrow> (bytes \<times> (bytes \<times> bytes option) option) option"
  nw_connect :: "route \<Rightarrow> ssh_error option"
  nw_handshake :: "route \<Rightarrow> ('s, 'cb) ClientConfig \<Rightarrow> bool"

definition Dial ::
  "('s, 'cb) network \<Rightarrow> ('s, 'cb) ssh_env \<Rightarrow> ('s, 'cb) dialing \<Rightarrow> (ssh_error + route) \<times> ('s, 'cb) dialing" where
  "Dial N en d =
    (if cl_Jump (d_client d) \<noteq> None \<and> cl_ProxyURL (d_client d) \<noteq> [] then (Inl ErrProxyAndJumpConflict, d)
     else
      (let d = (if cf_User (d_config d) = []
                then (let u = resolveDefaultUsername en (cl_User (d_client d)) in
                      d\<lparr>d_config := (d_config d)\<lparr>cf_User := u\<rparr>, d_client := (d_client d)\<lparr>cl_User := u\<rparr>\<rparr>)
                else d);
           (err, d) = (case cf_HostKeyCallback (d_config d) of
                         Some _ \<Rightarrow> (None, d)
                       | None \<Rightarrow> use_hosts (DefaultKnownHosts (en_parse en) (en_home en) (en_creatable en) (h_now (d_hosts d)) (d_hosts d)) en d)
       in case err of
            Some e \<Rightarrow> (Inl e, d)
          | None \<Rightarrow>
              (case dialTransportConn (nw_purl N) (d_client d) (formatTargetAddr (cl_Addr (d_client d)) (cl_Port (d_client d))) (cf_Timeout (d_config d)) of
                 None \<Rightarrow> (Inl (ErrOther 0), d)
               | Some r \<Rightarrow>
                   (case nw_connect N r of
                      Some e \<Rightarrow> (Inl e, d)
                    | None \<Rightarrow> if nw_handshake N r (d_config d) then (Inr r, d) else (Inl ErrSSHDialFailed, d)))))"

definition new_client :: "bytes \<Rightarrow> bytes \<Rightarrow> Client" where
  "new_client user targetAddr =
    \<lparr>cl_User = user, cl_Addr = targetAddr, cl_Port = 22, cl_ProxyURL = [], cl_Jump = None, cl_Dialer = None, cl_RequestPty = False,
     cl_PtyTerm = [], cl_PtyWidth = 0, cl_PtyHeight = 0, cl_WindowSize = 16 * 1024 * 1024, cl_MaxPacketSize = 64 * 1024\<rparr>"

definition new_config :: "bytes \<Rightarrow> ('s, 'cb) ClientConfig" where
  "new_config user =
    \<lparr>cf_User = user, cf_Timeout = 20 * 10 ^ 9, cf_ClientVersion = ''SSH-2.0-Aoni'', cf_Ciphers = fast_ciphers, cf_KeyExchanges = fast_kex,
     cf_Auth = [], cf_HostKeyCallback = None, cf_HostKeyAlgorithms = [], cf_BannerCallback = None\<rparr>"

fun run_options :: "('s, 'cb) Option option list \<Rightarrow> ('s, 'cb) Option" where
  "run_options [] en d = (None, d)"
| "run_options (None # opts) en d = run_options opts en d"
| "run_options (Some opt # opts) en d = (case opt en d of (Some err, d) \<Rightarrow> (Some err, d) | (None, d) \<Rightarrow> run_options opts en d)"

definition New_client ::
  "('s, 'cb) network \<Rightarrow> ('s, 'cb) ssh_env \<Rightarrow> 'cb hosts \<Rightarrow> bytes \<Rightarrow> bytes \<Rightarrow> ('s, 'cb) Option option list \<Rightarrow>
     (ssh_error + route) \<times> ('s, 'cb) dialing" where
  "New_client N en h user targetAddr opts =
    (case run_options opts en \<lparr>d_client = new_client user targetAddr, d_config = new_config user, d_hosts = h\<rparr> of
       (Some err, d) \<Rightarrow> (Inl err, d)
     | (None, d) \<Rightarrow> Dial N en d)"

text \<open>Connecting with the user's configuration file; \<open>stat\<close> tells which key files exist.\<close>

definition config_options :: "unicode \<Rightarrow> (bytes \<Rightarrow> bool) \<Rightarrow> ('s, 'cb) ssh_env \<Rightarrow> HostConfig \<Rightarrow> ('s, 'cb) Option option list" where
  "config_options U stat en hostCfg =
    (if hc_Port hostCfg > 0 then [Some (WithPort (hc_Port hostCfg))] else []) @
    concat (map (\<lambda>idFile. let expanded = expandHome (en_home en) idFile in if stat expanded then [Some (WithKeyFile expanded [])] else [])
      (hc_IdentityFiles hostCfg)) @
    (if EqualFoldU U (hc_StrictHostKeyChecking hostCfg) ''no'' then [Some WithInsecureIgnoreHostKey] else []) @
    (if hc_UserKnownHostsFile hostCfg \<noteq> [] then [Some (WithKnownHosts (expandHome (en_home en) (hc_UserKnownHostsFile hostCfg)))] else [])"

definition NewClientFromConfig ::
  "('s, 'cb) network \<Rightarrow> unicode \<Rightarrow> (bytes \<Rightarrow> bool + bytes) \<Rightarrow> (bytes \<Rightarrow> bool) \<Rightarrow> ('s, 'cb) ssh_env \<Rightarrow> 'cb hosts \<Rightarrow> bytes \<Rightarrow>
     ('s, 'cb) Option option list \<Rightarrow> ((config_error + ssh_error) + route) \<times> ('s, 'cb) dialing option" where
  "NewClientFromConfig N U openf stat en h alias opts =
    (let connect = (\<lambda>hostCfg.
           (case New_client N en h (hc_User hostCfg) (if hc_HostName hostCfg = [] then alias else hc_HostName hostCfg)
                   (config_options U stat en hostCfg @ opts) of
              (Inl err, d) \<Rightarrow> (Inl (Inr err), Some d)
            | (Inr r, d) \<Rightarrow> (Inr r, Some d)))
     in case ParseSSHConfigFile U openf (en_home en) [] of
          Inl ConfigMissing \<Rightarrow> connect ((zero_host alias)\<lparr>hc_HostName := alias\<rparr>)
        | Inl err \<Rightarrow> (Inl (Inl err), None)
        | Inr cfg \<Rightarrow> connect (GetHost cfg alias))"

section \<open>Lemmas\<close>

text \<open>Options that do not switch the check of host keys off.\<close>

definition never_insecure :: "('s, 'cb) Option \<Rightarrow> bool" where
  "never_insecure opt \<longleftrightarrow>
    (\<forall>en d. cf_HostKeyCallback (d_config (snd (opt en d))) = Some InsecureCB \<longrightarrow> cf_HostKeyCallback (d_config d) = Some InsecureCB)"

abbreviation safe_options :: "('s, 'cb) Option option list \<Rightarrow> bool" where
  "safe_options opts \<equiv> list_all (\<lambda>opt. case opt of None \<Rightarrow> True | Some opt \<Rightarrow> never_insecure opt) opts"

lemmas option_defs = on_client_def on_config_def add_auth_def add_signer_def add_method_def set_callback_def use_hosts_def

lemma library_options_safe:
  "never_insecure (WithDialer k)" "never_insecure (WithPassword b)" "never_insecure (WithKeyboardInteractive q)" "never_insecure (WithKeyFile b b')"
  "never_insecure (WithKey b b')" "never_insecure (WithAgent k)" "never_insecure (WithAgentSocket b)" "never_insecure WithDefaultAgent"
  "never_insecure (WithAuth a)" "never_insecure (WithSigner g)" "never_insecure (WithPort n)" "never_insecure (WithTimeout t)"
  "never_insecure (WithWindowSize w)" "never_insecure (WithMaxPacketSize w)" "never_insecure WithHighPerformanceDefaults"
  "never_insecure (WithKnownHosts b)" "never_insecure (WithEnsureKnownHosts b)" "never_insecure (WithFingerprint b)"
  "never_insecure WithLegacyCiphers" "never_insecure (WithCiphers bs)" "never_insecure (WithKeyExchanges bs)" "never_insecure (WithRequestPty v)"
  "never_insecure (WithPtyTerminal b t u)" "never_insecure (WithHostKeyAlgorithms bs)" "never_insecure (WithBannerCallback k)"
  "never_insecure (WithProxy b)" "never_insecure (WithJump k)" "never_insecure (WithCertFile b b' b'')" "never_insecure (WithCert b b' b'')"
  "never_insecure (WithCertSigner g)"
  unfolding never_insecure_def
  by (simp_all add: option_defs WithDialer_def WithPassword_def WithKeyboardInteractive_def WithKeyFile_def WithKey_def WithAgent_def
      WithAgentSocket_def WithDefaultAgent_def WithAuth_def WithSigner_def WithPort_def WithTimeout_def WithWindowSize_def WithMaxPacketSize_def
      WithHighPerformanceDefaults_def WithKnownHosts_def WithEnsureKnownHosts_def WithFingerprint_def WithLegacyCiphers_def WithCiphers_def
      WithKeyExchanges_def WithRequestPty_def WithPtyTerminal_def WithHostKeyAlgorithms_def WithBannerCallback_def WithProxy_def WithJump_def
      WithCertFile_def WithCert_def WithCertSigner_def split: sum.splits option.splits prod.splits)

lemma run_options_append:
  "run_options (a @ b) en d = (case run_options a en d of (Some err, d) \<Rightarrow> (Some err, d) | (None, d) \<Rightarrow> run_options b en d)"
proof (induction a arbitrary: d)
  case (Cons o' a)
  then show ?case by (cases o') (auto split: prod.splits option.splits)
qed simp

lemma run_options_safe:
  "safe_options opts \<Longrightarrow> run_options opts en d = (e, d') \<Longrightarrow> cf_HostKeyCallback (d_config d') = Some InsecureCB \<Longrightarrow>
   cf_HostKeyCallback (d_config d) = Some InsecureCB"
proof (induction opts arbitrary: d)
  case (Cons opt opts)
  show ?case
  proof (cases opt)
    case None
    with Cons show ?thesis by simp
  next
    case (Some f)
    obtain e1 d1 where f: "f en d = (e1, d1)" by fastforce
    have "cf_HostKeyCallback (d_config d1) = Some InsecureCB"
      using Cons Some f by (cases e1) auto
    then show ?thesis using Cons.prems(1) Some f by (simp add: never_insecure_def) (metis snd_conv)
  qed
qed simp

text \<open>A connection is made only after a handshake with a callback, which is the one the options set or that of the default file.\<close>

lemma Dial_callback:
  assumes "Dial N en d = (Inr r, d')"
  shows "\<exists>cb. cf_HostKeyCallback (d_config d') = Some cb \<and> nw_handshake N r (d_config d') \<and>
    (case cf_HostKeyCallback (d_config d) of Some cb' \<Rightarrow> cb = cb' | None \<Rightarrow> cb \<noteq> InsecureCB)"
proof -
  define d0 where "d0 = (if cf_User (d_config d) = []
      then (let u = resolveDefaultUsername en (cl_User (d_client d)) in
            d\<lparr>d_config := (d_config d)\<lparr>cf_User := u\<rparr>, d_client := (d_client d)\<lparr>cl_User := u\<rparr>\<rparr>) else d)"
  have noconf: "\<not> (cl_Jump (d_client d) \<noteq> None \<and> cl_ProxyURL (d_client d) \<noteq> [])" 
  proof
    assume "cl_Jump (d_client d) \<noteq> None \<and> cl_ProxyURL (d_client d) \<noteq> []"
    then have "Dial N en d = (Inl ErrProxyAndJumpConflict, d)" by (simp add: Dial_def)
    then show False using assms by simp
  qed
  have c0: "cf_HostKeyCallback (d_config d0) = cf_HostKeyCallback (d_config d)" by (simp add: d0_def Let_def)
  obtain err d1 where d1: "(case cf_HostKeyCallback (d_config d0) of Some _ \<Rightarrow> (None, d0)
      | None \<Rightarrow> use_hosts (DefaultKnownHosts (en_parse en) (en_home en) (en_creatable en) (h_now (d_hosts d0)) (d_hosts d0)) en d0) = (err, d1)"
    by fastforce
  have D: "Dial N en d = (case err of Some e \<Rightarrow> (Inl e, d1) | None \<Rightarrow>
      (case dialTransportConn (nw_purl N) (d_client d1) (formatTargetAddr (cl_Addr (d_client d1)) (cl_Port (d_client d1))) (cf_Timeout (d_config d1)) of
         None \<Rightarrow> (Inl (ErrOther 0), d1)
       | Some r \<Rightarrow> (case nw_connect N r of Some e \<Rightarrow> (Inl e, d1)
           | None \<Rightarrow> if nw_handshake N r (d_config d1) then (Inr r, d1) else (Inl ErrSSHDialFailed, d1))))"
    unfolding Dial_def d0_def [symmetric] if_not_P [OF noconf] by (simp only: Let_def d1 prod.case)
  then have h: "err = None" "nw_handshake N r (d_config d1)" "d' = d1" using assms by (auto split: option.splits if_splits)
  have "\<exists>cb. cf_HostKeyCallback (d_config d1) = Some cb \<and> (case cf_HostKeyCallback (d_config d) of Some cb' \<Rightarrow> cb = cb' | None \<Rightarrow> cb \<noteq> InsecureCB)"
    using d1 h(1) c0 by (auto simp: use_hosts_def set_callback_def on_config_def split: option.splits sum.splits prod.splits)
  then show ?thesis using h by blast
qed

lemma New_client_callback:
  assumes "New_client N en h user addr opts = (Inr r, d)" and "safe_options opts"
  shows "\<exists>cb. cf_HostKeyCallback (d_config d) = Some cb \<and> nw_handshake N r (d_config d) \<and> cb \<noteq> InsecureCB"
proof -
  let ?d0 = "\<lparr>d_client = new_client user addr, d_config = new_config user, d_hosts = h\<rparr>"
  obtain d1 where d1: "run_options opts en ?d0 = (None, d1)" "Dial N en d1 = (Inr r, d)"
    using assms(1) by (auto simp: New_client_def split: prod.splits option.splits)
  have "cf_HostKeyCallback (d_config d1) \<noteq> Some InsecureCB"
    using run_options_safe [OF assms(2) d1(1)] by (auto simp: new_config_def)
  then show ?thesis using Dial_callback [OF d1(2)] by (auto split: option.splits)
qed

lemma config_options_safe:
  assumes "\<not> EqualFoldU U (hc_StrictHostKeyChecking c) ''no''"
  shows "safe_options (config_options U stat en c)"
  using assms by (auto simp: config_options_def list_all_iff Let_def library_options_safe split: if_splits)

text \<open>A configured file of known hosts comes after the switch and replaces it.\<close>

lemma config_file_wins:
  assumes "hc_UserKnownHostsFile c \<noteq> []" and "run_options (config_options U stat en c) en d = (None, d')"
  shows "\<exists>k. cf_HostKeyCallback (d_config d') = Some (KnownHostsCB k)"
proof -
  obtain a where a: "config_options U stat en c = a @ [Some (WithKnownHosts (expandHome (en_home en) (hc_UserKnownHostsFile c)))]"
    using assms(1) by (simp add: config_options_def)
  show ?thesis using assms(2) unfolding a run_options_append
    by (auto simp: WithKnownHosts_def use_hosts_def set_callback_def on_config_def split: prod.splits option.splits sum.splits)
qed

section \<open>Properties\<close>

text \<open>C15: host keys are checked.  A client that connects with the user's configuration file, with any options of the package other than
  those that set a callback of their own, has run the handshake with a host key callback; it accepts every key only if the
  configuration says \<^verbatim>\<open>StrictHostKeyChecking no\<close> for the host and names no file of known hosts.\<close>
theorem host_keys_checked:
  assumes "NewClientFromConfig N U openf stat en h alias opts = (Inr r, Some d)" and "safe_options opts"
  shows "\<exists>cb. cf_HostKeyCallback (d_config d) = Some cb \<and> nw_handshake N r (d_config d) \<and>
    (cb = InsecureCB \<longrightarrow> (\<exists>cfg. ParseSSHConfigFile U openf (en_home en) [] = Inr cfg \<and>
      EqualFoldU U (hc_StrictHostKeyChecking (GetHost cfg alias)) ''no'' \<and> hc_UserKnownHostsFile (GetHost cfg alias) = []))"
proof -
  define c where "c = (case ParseSSHConfigFile U openf (en_home en) [] of Inr cfg \<Rightarrow> GetHost cfg alias | Inl _ \<Rightarrow> (zero_host alias)\<lparr>hc_HostName := alias\<rparr>)"
  obtain user addr where n: "New_client N en h user addr (config_options U stat en c @ opts) = (Inr r, d)"
    using assms(1) by (auto simp: NewClientFromConfig_def c_def Let_def split: sum.splits config_error.splits prod.splits)
  obtain d1 where d1: "run_options (config_options U stat en c @ opts) en
      \<lparr>d_client = new_client user addr, d_config = new_config user, d_hosts = h\<rparr> = (None, d1)" "Dial N en d1 = (Inr r, d)"
    using n by (auto simp: New_client_def split: prod.splits option.splits)
  obtain cb where cb: "cf_HostKeyCallback (d_config d) = Some cb" "nw_handshake N r (d_config d)"
    "case cf_HostKeyCallback (d_config d1) of Some cb' \<Rightarrow> cb = cb' | None \<Rightarrow> cb \<noteq> InsecureCB"
    using Dial_callback [OF d1(2)] by blast
  obtain d2 where d2: "run_options (config_options U stat en c) en
      \<lparr>d_client = new_client user addr, d_config = new_config user, d_hosts = h\<rparr> = (None, d2)" "run_options opts en d2 = (None, d1)"
    using d1(1) by (auto simp: run_options_append split: prod.splits option.splits)
  have "EqualFoldU U (hc_StrictHostKeyChecking c) ''no'' \<and> hc_UserKnownHostsFile c = []" if "cb = InsecureCB"
  proof -
    have "cf_HostKeyCallback (d_config d1) = Some InsecureCB" using that cb(3) by (auto split: option.splits)
    then have "cf_HostKeyCallback (d_config d2) = Some InsecureCB" by (rule run_options_safe [OF assms(2) d2(2)])
    then show ?thesis
      using config_file_wins [OF _ d2(1)] run_options_safe [OF config_options_safe d2(1)] by (auto simp: new_config_def)
  qed
  moreover have "\<not> EqualFoldU U (hc_StrictHostKeyChecking ((zero_host alias)\<lparr>hc_HostName := alias\<rparr>)) ''no''"
    by (simp add: zero_host_def EqualFoldU_def is_ascii_def long_s_def kelvin_def byte_eval)
  ultimately show ?thesis using cb(1,2) by (auto simp: c_def split: sum.splits)
qed

text \<open>A user with a file of known hosts and no configuration file connects.\<close>

definition example_env :: "(bytes, bytes) ssh_env" where
  "example_env = \<lparr>en_keys = \<lparr>kl_parse = Some, kl_parse_with = (\<lambda>k p. Some k), kl_cert = (\<lambda>_. None), kl_cert_signer = (\<lambda>_ _. None)\<rparr>,
    en_parse = Some, en_home = Some ''/h'', en_agent = [], en_creatable = True, en_username = None\<rparr>"

definition example_net :: "(bytes, bytes) network" where
  "example_net = \<lparr>nw_purl = (\<lambda>_. None), nw_connect = (\<lambda>_. None), nw_handshake = (\<lambda>_ _. True)\<rparr>"

definition example_hosts :: "bytes hosts" where
  "example_hosts = \<lparr>h_cache = Map.empty, h_files = (\<lambda>_. Some ''k''), h_mtime = (\<lambda>_. 0), h_now = 0\<rparr>"

theorem host_keys_checked_witness:
  "\<exists>r d cb. NewClientFromConfig example_net \<lparr>uni_lower = (\<lambda>s. s), uni_upper = (\<lambda>s. s), uni_fold = (=)\<rparr> (\<lambda>_. Inl True) (\<lambda>_. False)
      example_env example_hosts ''a'' [] = (Inr r, Some d) \<and> cf_HostKeyCallback (d_config d) = Some cb \<and> cb \<noteq> InsecureCB"
proof -
  let ?U = "\<lparr>uni_lower = (\<lambda>s. s), uni_upper = (\<lambda>s. s), uni_fold = (=)\<rparr>"
  let ?c = "NewClientFromConfig example_net ?U (\<lambda>_. Inl True) (\<lambda>_. False) example_env example_hosts ''a'' []"
  have f: "ParseSSHConfigFile ?U (\<lambda>_. Inl True) (en_home example_env) [] = Inl ConfigMissing"
    by (simp add: ParseSSHConfigFile_def config_path_def example_env_def)
  have o: "config_options ?U (\<lambda>_. False) example_env ((zero_host ''a'')\<lparr>hc_HostName := ''a''\<rparr>) = []"
    by (simp add: config_options_def zero_host_def EqualFoldU_def is_ascii_def long_s_def kelvin_def byte_eval)
  have "\<exists>r d. New_client example_net example_env example_hosts [] ''a'' [] = (Inr r, d)"
    by (simp add: New_client_def Dial_def new_client_def new_config_def Let_def use_hosts_def DefaultKnownHosts_def DefaultKnownHostsPath_def
        EnsureKnownHosts_def KnownHosts_def example_env_def example_hosts_def example_net_def set_callback_def on_config_def dialTransportConn_def)
  then obtain r d where "?c = (Inr r, Some d)"
    using f o by (auto simp: NewClientFromConfig_def Let_def zero_host_def)
  with host_keys_checked [OF this] f show ?thesis by auto
qed

text \<open>An IPv6 address with the default port is dialled without a port.\<close>

lemma ipv6_without_port: "formatTargetAddr ''::1'' 22 = ''::1''"
  by (simp add: formatTargetAddr_def)

end
