(* ===== verification/SSH_Sftp.thy ===== *)
theory SSH_Sftp
  imports Go_Text Go_Strconv
begin

text \<open>
  Package \<^verbatim>\<open>ssh/sftp\<close>, file \<^verbatim>\<open>src/ssh/sftp/sftp.go\<close>: file transfer, in particular the parallel one, in which a producer cuts the
  file into chunks and a number of workers copies them.  The goroutines are a step relation whose steps are one
  operation on the channel or one iteration of a copying loop.  A file being written is the map of the bytes written so
  far; reading the remote file, whose client is a third-party package, is an argument with the contract of
  \<^verbatim>\<open>io.ReaderAt\<close>, and every write may fail.
\<close>

section \<open>Files\<close>

datatype sftp_error =
    ErrInvalidTargetFile
  | ErrInvalidChunkSize
  | ErrParallelTransferFailed sftp_error
  | ErrClientClosed
  | SftpRead
  | SftpWrite
  | SftpOpen
  | SftpStat
  | SftpSession
  | SftpSync
  | SftpExec

type_synonym disk = "int \<rightharpoonup> char"

definition store :: "disk \<Rightarrow> int \<Rightarrow> bytes \<Rightarrow> disk" where
  "store f off b = (\<lambda>p. if off \<le> p \<and> p < off + int (length b) then Some (b ! nat (p - off)) else f p)"

text \<open>\<^verbatim>\<open>os.File.ReadAt\<close>: the bytes at an offset; fewer than asked for come with an error.\<close>

definition local_ReadAt :: "bytes \<Rightarrow> int \<Rightarrow> int \<Rightarrow> bytes \<times> bool" where
  "local_ReadAt src off n =
    (if off < 0 then ([], True) else let b = take (nat n) (drop (nat off) src) in (b, int (length b) < n))"

section \<open>Copying a chunk\<close>

text \<open>One iteration of the loop of \<^verbatim>\<open>uploadChunk\<close>, with \<open>written\<close> bytes copied.  The write succeeds (\<open>None\<close>) or fails after
  some of the bytes.\<close>

datatype copy_result = CopyError sftp_error | Copied int

abbreviation bufferSize :: int where "bufferSize \<equiv> 65536"

definition uploadChunk :: "bytes \<Rightarrow> int \<Rightarrow> int \<Rightarrow> int \<Rightarrow> nat option \<Rightarrow> disk \<Rightarrow> disk \<times> copy_result" where
  "uploadChunk localFile offset sz written wErr remoteFile =
    (let readLen = min bufferSize (sz - written); (buf, err) = local_ReadAt localFile (offset + written) readLen in
     if length buf > 0 then
       (case wErr of
          Some k \<Rightarrow> (store remoteFile (offset + written) (take k buf), CopyError SftpWrite)
        | None \<Rightarrow>
            (let remoteFile = store remoteFile (offset + written) buf; written = written + int (length buf) in
             if err \<and> written < sz then (remoteFile, CopyError SftpRead) else (remoteFile, Copied written)))
     else if err \<and> written < sz then (remoteFile, CopyError SftpRead)
     else (remoteFile, Copied written))"

text \<open>The same for \<^verbatim>\<open>downloadChunk\<close>, where \<open>remote_ReadAt\<close> reads the remote file.\<close>

definition downloadChunk :: "(int \<Rightarrow> int \<Rightarrow> bytes \<times> bool) \<Rightarrow> int \<Rightarrow> int \<Rightarrow> int \<Rightarrow> nat option \<Rightarrow> disk \<Rightarrow> disk \<times> copy_result" where
  "downloadChunk remote_ReadAt offset sz written wErr localFile =
    (let readLen = min bufferSize (sz - written); (buf, err) = remote_ReadAt (offset + written) readLen in
     if length buf > 0 then
       (case wErr of
          Some k \<Rightarrow> (store localFile (offset + written) (take k buf), CopyError SftpWrite)
        | None \<Rightarrow>
            (let localFile = store localFile (offset + written) buf; written = written + int (length buf) in
             if err \<and> written < sz then (localFile, CopyError SftpRead) else (localFile, Copied written)))
     else if err \<and> written < sz then (localFile, CopyError SftpRead)
     else (localFile, Copied written))"

section \<open>The dispatcher\<close>

record transferTask =
  tt_offset :: int
  tt_size :: int

datatype worker = Waiting | Copying int int int | Returned

text \<open>The state of one call: the producer's next offset, whether the channel is open, the tasks in it, the workers, the error
  channel, whether the context is done and whether the caller cancelled it, and the file written.\<close>

record xfer =
  x_next :: int
  x_open :: bool
  x_tasks :: "transferTask list"
  x_workers :: "worker list"
  x_errs :: "sftp_error list"
  x_done :: bool
  x_caller :: bool
  x_file :: disk

definition xfer_start :: "nat \<Rightarrow> xfer" where
  "xfer_start workers =
    \<lparr>x_next = 0, x_open = True, x_tasks = [], x_workers = replicate workers Waiting, x_errs = [], x_done = False, x_caller = False,
     x_file = Map.empty\<rparr>"

text \<open>The producer: one turn of the loop of \<^verbatim>\<open>produceChunks\<close>, and its two ends.  The dispatcher's workers: taking a task, one
  iteration of copying, the end of a chunk, an error (which is put on the channel if it has room, and cancels), the end of the
  channel.  The caller may cancel the context at any time.\<close>

inductive xfer_step ::
  "(int \<Rightarrow> int \<Rightarrow> int \<Rightarrow> nat option \<Rightarrow> disk \<Rightarrow> disk \<times> copy_result) \<Rightarrow> int \<Rightarrow> int \<Rightarrow> xfer \<Rightarrow> xfer \<Rightarrow> bool"
  for body :: "int \<Rightarrow> int \<Rightarrow> int \<Rightarrow> nat option \<Rightarrow> disk \<Rightarrow> disk \<times> copy_result" and totalSize :: int and chunkSize :: int where
  xs_produce: "x_open s \<Longrightarrow> x_next s < totalSize \<Longrightarrow> length (x_tasks s) < 2 * length (x_workers s) \<Longrightarrow>
    xfer_step body totalSize chunkSize s
      (s\<lparr>x_tasks := x_tasks s @ [\<lparr>tt_offset = x_next s, tt_size = min chunkSize (totalSize - x_next s)\<rparr>],
         x_next := wrap64 (x_next s + chunkSize)\<rparr>)"
| xs_produced: "x_open s \<Longrightarrow> \<not> x_next s < totalSize \<Longrightarrow> xfer_step body totalSize chunkSize s (s\<lparr>x_open := False\<rparr>)"
| xs_abandoned: "x_open s \<Longrightarrow> x_next s < totalSize \<Longrightarrow> x_done s \<Longrightarrow> xfer_step body totalSize chunkSize s (s\<lparr>x_open := False\<rparr>)"
| xs_take: "i < length (x_workers s) \<Longrightarrow> x_workers s ! i = Waiting \<Longrightarrow> x_tasks s = t # ts \<Longrightarrow>
    xfer_step body totalSize chunkSize s
      (s\<lparr>x_tasks := ts, x_workers := (x_workers s)[i := Copying (tt_offset t) (tt_size t) 0]\<rparr>)"
| xs_copy: "i < length (x_workers s) \<Longrightarrow> x_workers s ! i = Copying off sz w \<Longrightarrow> w < sz \<Longrightarrow>
    body off sz w wErr (x_file s) = (f, Copied w') \<Longrightarrow>
    xfer_step body totalSize chunkSize s (s\<lparr>x_file := f, x_workers := (x_workers s)[i := Copying off sz w']\<rparr>)"
| xs_copied: "i < length (x_workers s) \<Longrightarrow> x_workers s ! i = Copying off sz w \<Longrightarrow> \<not> w < sz \<Longrightarrow>
    xfer_step body totalSize chunkSize s (s\<lparr>x_workers := (x_workers s)[i := Waiting]\<rparr>)"
| xs_fail: "i < length (x_workers s) \<Longrightarrow> x_workers s ! i = Copying off sz w \<Longrightarrow> w < sz \<Longrightarrow>
    body off sz w wErr (x_file s) = (f, CopyError e) \<Longrightarrow>
    xfer_step body totalSize chunkSize s
      (s\<lparr>x_file := f, x_workers := (x_workers s)[i := Returned],
         x_errs := (if length (x_errs s) < length (x_workers s) then x_errs s @ [e] else x_errs s), x_done := True\<rparr>)"
| xs_exit: "i < length (x_workers s) \<Longrightarrow> x_workers s ! i = Waiting \<Longrightarrow> x_tasks s = [] \<Longrightarrow> \<not> x_open s \<Longrightarrow>
    xfer_step body totalSize chunkSize s (s\<lparr>x_workers := (x_workers s)[i := Returned]\<rparr>)"
| xs_cancel: "\<not> x_caller s \<Longrightarrow> xfer_step body totalSize chunkSize s (s\<lparr>x_caller := True, x_done := True\<rparr>)"

inductive_cases xfer_stepE: "xfer_step body totalSize chunkSize s t"

lemmas xfer_cases = xfer_stepE [consumes 1, case_names xs_produce xs_produced xs_abandoned xs_take xs_copy xs_copied xs_fail xs_exit xs_cancel]

text \<open>The group has been waited for when every worker returned; the result is the first error of the channel.\<close>

definition finished :: "xfer \<Rightarrow> bool" where
  "finished s \<longleftrightarrow> list_all (\<lambda>w. w = Returned) (x_workers s)"

definition dispatch_result :: "xfer \<Rightarrow> sftp_error option" where
  "dispatch_result s = (case x_errs s of [] \<Rightarrow> None | e # es \<Rightarrow> Some (ErrParallelTransferFailed e))"

abbreviation xfer_reach where
  "xfer_reach body totalSize chunkSize workers \<equiv> reach (\<lambda>s. s = xfer_start workers) (xfer_step body totalSize chunkSize)"

definition dispatchParallelUpload :: "bytes \<Rightarrow> int \<Rightarrow> int \<Rightarrow> nat \<Rightarrow> xfer \<Rightarrow> bool" where
  "dispatchParallelUpload localFile totalSize chunkSize workers s \<longleftrightarrow>
    xfer_reach (uploadChunk localFile) totalSize chunkSize workers s \<and> finished s"

definition dispatchParallelDownload :: "(int \<Rightarrow> int \<Rightarrow> bytes \<times> bool) \<Rightarrow> int \<Rightarrow> int \<Rightarrow> nat \<Rightarrow> xfer \<Rightarrow> bool" where
  "dispatchParallelDownload remote_ReadAt totalSize chunkSize workers s \<longleftrightarrow>
    xfer_reach (downloadChunk remote_ReadAt) totalSize chunkSize workers s \<and> finished s"

section \<open>The transfer functions\<close>

text \<open>What the file systems and the SSH connection answer: opening, stating, creating and flushing, and whether a client is given
  and the SFTP session starts.\<close>

record sftp_env =
  se_client :: bool
  se_session :: bool
  se_source :: bool
  se_stat :: bool
  se_create :: bool
  se_sync :: bool

definition maxPacketOf :: "32 word \<Rightarrow> nat" where
  "maxPacketOf maxPacketSize = (if unat maxPacketSize = 0 then 64 * 1024 else unat maxPacketSize)"

definition NewClient :: "sftp_env \<Rightarrow> 32 word \<Rightarrow> sftp_error + nat" where
  "NewClient en maxPacketSize =
    (if \<not> se_client en then Inl ErrClientClosed
     else if \<not> se_session en then Inl SftpSession
     else Inr (maxPacketOf maxPacketSize))"

text \<open>The transfers return the error and the destination file if they made one.  \<open>disp\<close> is the dispatcher, \<open>copied\<close> what the
  client's own copying routine gives.\<close>

definition Upload :: "sftp_env \<Rightarrow> 32 word \<Rightarrow> sftp_error option \<times> disk \<Rightarrow> sftp_error option \<times> disk option" where
  "Upload en maxPacketSize copied =
    (if \<not> se_source en then (Some SftpOpen, None)
     else case NewClient en maxPacketSize of
            Inl err \<Rightarrow> (Some err, None)
          | Inr _ \<Rightarrow> if \<not> se_create en then (Some SftpOpen, None) else (fst copied, Some (snd copied)))"

definition Download :: "sftp_env \<Rightarrow> 32 word \<Rightarrow> sftp_error option \<times> disk \<Rightarrow> sftp_error option \<times> disk option" where
  "Download en maxPacketSize copied =
    (if \<not> se_create en then (Some SftpOpen, None)
     else case NewClient en maxPacketSize of
            Inl err \<Rightarrow> (Some err, Some Map.empty)
          | Inr _ \<Rightarrow>
              if \<not> se_source en then (Some SftpOpen, Some Map.empty)
              else case fst copied of
                     Some err \<Rightarrow> (Some err, Some (snd copied))
                   | None \<Rightarrow> (if se_sync en then None else Some SftpSync, Some (snd copied)))"

definition worker_count :: "int \<Rightarrow> nat" where
  "worker_count workers = (if workers \<le> 0 then 4 else nat workers)"

definition UploadParallel ::
  "sftp_env \<Rightarrow> int \<Rightarrow> int \<Rightarrow> int \<Rightarrow> 32 word \<Rightarrow> (int \<Rightarrow> int \<Rightarrow> nat \<Rightarrow> sftp_error option \<times> disk) \<Rightarrow> sftp_error option \<times> disk option" where
  "UploadParallel en totalSize workers chunkSize maxPacketSize disp =
    (if chunkSize \<le> 0 then (Some ErrInvalidChunkSize, None)
     else if \<not> se_source en then (Some SftpOpen, None)
     else if \<not> se_stat en then (Some SftpStat, None)
     else case NewClient en maxPacketSize of
            Inl err \<Rightarrow> (Some err, None)
          | Inr _ \<Rightarrow>
              if \<not> se_create en then (Some SftpOpen, None)
              else if totalSize = 0 then (None, Some Map.empty)
              else case disp totalSize chunkSize (worker_count workers) of (err, f) \<Rightarrow> (err, Some f))"

definition DownloadParallel ::
  "sftp_env \<Rightarrow> int \<Rightarrow> int \<Rightarrow> int \<Rightarrow> 32 word \<Rightarrow> (int \<Rightarrow> int \<Rightarrow> nat \<Rightarrow> sftp_error option \<times> disk) \<Rightarrow> sftp_error option \<times> disk option" where
  "DownloadParallel en totalSize workers chunkSize maxPacketSize disp =
    (if chunkSize \<le> 0 then (Some ErrInvalidChunkSize, None)
     else case NewClient en maxPacketSize of
            Inl err \<Rightarrow> (Some err, None)
          | Inr _ \<Rightarrow>
              if \<not> se_source en then (Some SftpOpen, None)
              else if \<not> se_stat en then (Some SftpStat, None)
              else if \<not> se_create en then (Some SftpOpen, None)
              else if totalSize = 0 then (if se_sync en then None else Some SftpSync, Some Map.empty)
              else case disp totalSize chunkSize (worker_count workers) of
                     (Some err, f) \<Rightarrow> (Some err, Some f)
                   | (None, f) \<Rightarrow> (if se_sync en then None else Some SftpSync, Some f))"

section \<open>What copying a chunk promises\<close>

definition holds_part :: "bytes \<Rightarrow> disk \<Rightarrow> bool" where
  "holds_part src f \<longleftrightarrow> (\<forall>p c. f p = Some c \<longrightarrow> 0 \<le> p \<and> p < int (length src) \<and> c = src ! nat p)"

text \<open>The contract of \<^verbatim>\<open>io.ReaderAt\<close> for a file with contents \<open>src\<close>.\<close>

definition reader_ok :: "(int \<Rightarrow> int \<Rightarrow> bytes \<times> bool) \<Rightarrow> bytes \<Rightarrow> bool" where
  "reader_ok rd src \<longleftrightarrow>
    (\<forall>off n b err. 0 \<le> off \<longrightarrow> 0 < n \<longrightarrow> rd off n = (b, err) \<longrightarrow>
       int (length b) \<le> n \<and> (\<exists>r. drop (nat off) src = b @ r) \<and> (int (length b) < n \<longrightarrow> err))"

lemma reader_okD:
  assumes "reader_ok rd src" and "0 \<le> off" and "0 < n" and "rd off n = (b, err)"
  shows "int (length b) \<le> n" and "\<exists>r. drop (nat off) src = b @ r" and "int (length b) < n \<longrightarrow> err"
  using assms unfolding reader_ok_def by blast+

lemma local_reader_ok: "reader_ok (local_ReadAt src) src"
proof -
  have "\<exists>r. drop k src = take m (drop k src) @ r" for k m by (metis append_take_drop_id)
  then show ?thesis by (auto simp: reader_ok_def local_ReadAt_def Let_def)
qed

lemma upload_is_download: "uploadChunk src = downloadChunk (local_ReadAt src)"
  by (intro ext) (simp add: uploadChunk_def downloadChunk_def)

text \<open>A client of the copying loop: each iteration adds only bytes of the source, loses none, and makes progress or fails.\<close>

locale chunk_copier =
  fixes body :: "int \<Rightarrow> int \<Rightarrow> int \<Rightarrow> nat option \<Rightarrow> disk \<Rightarrow> disk \<times> copy_result" and src :: bytes
  assumes copies_source: "0 \<le> off \<Longrightarrow> 0 \<le> w \<Longrightarrow> w < sz \<Longrightarrow> body off sz w e f = (g, r) \<Longrightarrow> holds_part src f \<Longrightarrow> holds_part src g"
    and keeps_written: "0 \<le> off \<Longrightarrow> 0 \<le> w \<Longrightarrow> w < sz \<Longrightarrow> body off sz w e f = (g, r) \<Longrightarrow> dom f \<subseteq> dom g"
    and progress: "0 \<le> off \<Longrightarrow> 0 \<le> w \<Longrightarrow> w < sz \<Longrightarrow> body off sz w e f = (g, Copied w') \<Longrightarrow>
      w < w' \<and> w' \<le> sz \<and> {off + w..<off + w'} \<subseteq> dom g"

lemma store_holds: "holds_part src f \<Longrightarrow> 0 \<le> off \<Longrightarrow> drop (nat off) src = b @ r \<Longrightarrow> holds_part src (store f off b)"
  unfolding holds_part_def
proof (intro allI impI)
  fix p c assume a: "\<forall>p c. f p = Some c \<longrightarrow> 0 \<le> p \<and> p < int (length src) \<and> c = src ! nat p" "0 \<le> off" "drop (nat off) src = b @ r"
    and s: "store f off b p = Some c"
  show "0 \<le> p \<and> p < int (length src) \<and> c = src ! nat p"
  proof (cases "off \<le> p \<and> p < off + int (length b)")
    case True
    then have c: "c = b ! nat (p - off)" using s by (simp add: store_def)
    have k: "nat (p - off) < length b" "nat off + nat (p - off) = nat p" using True a(2) by linarith+
    have "length b + length r = length src - nat off" using arg_cong [OF a(3), of length] by simp
    then have l: "nat p < length src" "nat off \<le> length src" using k by linarith+
    have "src ! nat p = drop (nat off) src ! nat (p - off)" using l(2) k(2) by simp
    then show ?thesis using c l True a(2) k(1) by (auto simp: a(3) nth_append)
  next
    case False
    then show ?thesis using a(1) s by (auto simp: store_def split: if_splits)
  qed
qed

lemma store_dom: "dom (store f off b) = dom f \<union> {off..<off + int (length b)}"
  by (auto simp: store_def split: if_splits)

lemma download_effect:
  assumes "reader_ok rd src" and "0 \<le> off" and "0 \<le> w" and "w < sz" and "downloadChunk rd off sz w e f = (g, r)"
  shows "\<exists>b. (\<exists>r. drop (nat (off + w)) src = b @ r) \<and> g = store f (off + w) b \<and>
    (\<forall>w'. r = Copied w' \<longrightarrow> b \<noteq> [] \<and> int (length b) \<le> sz - w \<and> w' = w + int (length b))"
proof -
  obtain b err where rd: "rd (off + w) (min bufferSize (sz - w)) = (b, err)" by fastforce
  note c = reader_okD [OF assms(1) _ _ rd]
  obtain r' where r': "drop (nat (off + w)) src = b @ r'" using c(2) assms(2-4) by auto
  have pre: "\<exists>r. drop (nat (off + w)) src = take k b @ r" for k
    using r' by (metis append.assoc append_take_drop_id)
  have l: "int (length b) \<le> sz - w" "b = [] \<Longrightarrow> err" using c(1,3) assms(2-4) by auto
  have none: "store f (off + w) [] = f" by (rule ext) (auto simp: store_def)
  consider (failed) k e' where "g = store f (off + w) (take k b)" "r = CopyError e'" | (short) e' where "g = store f (off + w) b" "r = CopyError e'"
    | (ok) "g = store f (off + w) b" "r = Copied (w + int (length b))" "b \<noteq> []"
    using assms(5) rd l(2) none assms(4) by (auto simp: downloadChunk_def Let_def split: if_splits option.splits)
  then show ?thesis
  proof cases
    case failed
    then show ?thesis using pre [of k] by auto
  next
    case short
    then show ?thesis using r' by auto
  next
    case ok
    then show ?thesis using r' l(1) by auto
  qed
qed

lemma download_copier:
  assumes "reader_ok rd src"
  shows "chunk_copier (downloadChunk rd) src"
proof (unfold_locales, goal_cases)
  case (1 off w sz e f g r)
  then show ?case using download_effect [OF assms 1(1-4)] store_holds [OF 1(5)] by auto
next
  case (2 off w sz e f g r)
  then show ?case using download_effect [OF assms 2(1-4)] store_dom by (metis Un_upper1)
next
  case (3 off w sz e f g w')
  then obtain b where "g = store f (off + w) b" "b \<noteq> []" "int (length b) \<le> sz - w" "w' = w + int (length b)"
    using download_effect [OF assms 3] by auto
  then show ?case by (simp add: store_dom add.assoc)
qed

interpretation up: chunk_copier "uploadChunk src" src for src
  unfolding upload_is_download by (rule download_copier [OF local_reader_ok])

section \<open>The invariant of a transfer\<close>

text \<open>Where a byte that has been handed out is: a task or a worker holds it.\<close>

definition pending :: "xfer \<Rightarrow> int \<Rightarrow> bool" where
  "pending s p \<longleftrightarrow> (\<exists>t \<in> set (x_tasks s). tt_offset t \<le> p \<and> p < tt_offset t + tt_size t) \<or>
    (\<exists>off sz w. Copying off sz w \<in> set (x_workers s) \<and> off + w \<le> p \<and> p < off + sz)"

definition task_ok :: "int \<Rightarrow> transferTask \<Rightarrow> bool" where
  "task_ok totalSize t \<longleftrightarrow> 0 \<le> tt_offset t \<and> 0 < tt_size t \<and> tt_offset t + tt_size t \<le> totalSize"

fun worker_ok :: "int \<Rightarrow> worker \<Rightarrow> bool" where
  "worker_ok totalSize (Copying off sz w) \<longleftrightarrow> 0 \<le> off \<and> 0 \<le> w \<and> w \<le> sz \<and> off + sz \<le> totalSize"
| "worker_ok totalSize _ \<longleftrightarrow> True"

definition returned :: "xfer \<Rightarrow> nat" where
  "returned s = length (filter (\<lambda>w. w = Returned) (x_workers s))"

definition shape_inv :: "int \<Rightarrow> nat \<Rightarrow> xfer \<Rightarrow> bool" where
  "shape_inv totalSize workers s \<longleftrightarrow> length (x_workers s) = workers \<and> 0 \<le> x_next s \<and>
    list_all (task_ok totalSize) (x_tasks s) \<and> list_all (worker_ok totalSize) (x_workers s) \<and> length (x_errs s) \<le> returned s"

definition flow_inv :: "int \<Rightarrow> xfer \<Rightarrow> bool" where
  "flow_inv totalSize s \<longleftrightarrow> (x_done s \<longrightarrow> x_errs s \<noteq> [] \<or> x_caller s) \<and> (\<not> x_open s \<longrightarrow> totalSize \<le> x_next s \<or> x_done s) \<and>
    (x_errs s = [] \<longrightarrow> Returned \<in> set (x_workers s) \<longrightarrow> x_tasks s = [] \<and> \<not> x_open s)"

definition data_inv :: "int \<Rightarrow> xfer \<Rightarrow> bool" where
  "data_inv totalSize s \<longleftrightarrow>
    (x_errs s = [] \<longrightarrow> (\<forall>p. 0 \<le> p \<longrightarrow> p < x_next s \<longrightarrow> p < totalSize \<longrightarrow> p \<in> dom (x_file s) \<or> pending s p))"

lemma returned_update:
  assumes "i < length ws" and "ws ! i \<noteq> Returned"
  shows "length (filter (\<lambda>w. w = Returned) (ws[i := v])) = length (filter (\<lambda>w. w = Returned) ws) + (if v = Returned then 1 else 0)"
  using assms
proof (induction ws arbitrary: i)
  case (Cons w ws)
  then show ?case by (cases i) auto
qed simp

lemma returned_bound:
  assumes "i < length (x_workers s)" and "x_workers s ! i \<noteq> Returned"
  shows "returned s < length (x_workers s)"
proof -
  have "length (filter (\<lambda>w. w = Returned) (x_workers s)) < length (x_workers s)"
    by (rule length_filter_less [of "x_workers s ! i"]) (use assms in auto)
  then show ?thesis by (simp add: returned_def)
qed

lemma list_all_update: "list_all P xs \<Longrightarrow> P v \<Longrightarrow> list_all P (xs[i := v])"
  by (auto simp: list_all_iff dest: set_update_subset_insert [THEN subsetD])

context chunk_copier
begin

lemma worker_in:
  assumes "shape_inv n k s" and "i < length (x_workers s)" and "x_workers s ! i = Copying off sz w"
  shows "0 \<le> off" "0 \<le> w" "w \<le> sz" "off + sz \<le> n"
proof -
  have "worker_ok n (x_workers s ! i)" using assms(1,2) by (simp add: shape_inv_def list_all_length)
  then show "0 \<le> off" "0 \<le> w" "w \<le> sz" "off + sz \<le> n" by (simp_all add: assms(3))
qed

lemma shape_step:
  assumes "xfer_step body n c s t" and "shape_inv n k s" and "0 < c" and "n + c < 2 ^ 63"
  shows "shape_inv n k t"
  using assms(1)
proof (cases rule: xfer_cases)
  case xs_produce
  have "wrap64 (x_next s + c) = x_next s + c" using xs_produce(3) assms(2-4) by (intro wrap64_id) (auto simp: shape_inv_def)
  then show ?thesis using xs_produce assms(2,3) by (simp add: shape_inv_def task_ok_def returned_def)
next
  case (xs_take i tk ts)
  then have "task_ok n tk" using assms(2) by (simp add: shape_inv_def)
  then have "worker_ok n (Copying (tt_offset tk) (tt_size tk) 0)" by (simp add: task_ok_def)
  then show ?thesis using xs_take assms(2) by (simp add: shape_inv_def list_all_update returned_def returned_update)
next
  case (xs_copy i off sz w e f w')
  note wk = worker_in [OF assms(2) xs_copy(2,3)]
  have "worker_ok n (Copying off sz w')" using progress [OF wk(1,2) xs_copy(4,5)] wk by simp
  then show ?thesis using xs_copy assms(2) by (simp add: shape_inv_def list_all_update returned_def returned_update)
next
  case (xs_copied i off sz w)
  then show ?thesis using assms(2) by (simp add: shape_inv_def list_all_update returned_def returned_update)
next
  case (xs_fail i off sz w e f err)
  then show ?thesis using assms(2) by (simp add: shape_inv_def list_all_update returned_def returned_update)
next
  case (xs_exit i)
  then show ?thesis using assms(2) by (simp add: shape_inv_def list_all_update returned_def returned_update)
qed (use assms(2) in \<open>auto simp: shape_inv_def returned_def\<close>)

lemma holds_step:
  assumes "xfer_step body n c s t" and "shape_inv n k s" and "holds_part src (x_file s)"
  shows "holds_part src (x_file t)"
  using assms(1)
proof (cases rule: xfer_cases)
  case (xs_copy i off sz w e f w')
  then show ?thesis using copies_source [OF worker_in(1,2) [OF assms(2) xs_copy(2,3)] xs_copy(4,5) assms(3)] by simp
next
  case (xs_fail i off sz w e f err)
  then show ?thesis using copies_source [OF worker_in(1,2) [OF assms(2) xs_fail(2,3)] xs_fail(4,5) assms(3)] by simp
qed (use assms(3) in auto)

lemma flow_step:
  assumes "xfer_step body n c s t" and "shape_inv n k s" and "flow_inv n s"
  shows "flow_inv n t"
  using assms(1)
proof (cases rule: xfer_cases)
  case (xs_fail i off sz w e f err)
  then have "length (x_errs s) < length (x_workers s)"
    using returned_bound [of i s] assms(2) by (simp add: shape_inv_def)
  then show ?thesis using xs_fail assms(3) by (simp add: flow_inv_def)
qed (use assms(3) in \<open>auto simp: flow_inv_def dest!: set_update_subset_insert [THEN subsetD]\<close>)

lemma data_step:
  assumes "xfer_step body n c s t" and "shape_inv n k s" and "data_inv n s" and "0 < c" and "n + c < 2 ^ 63" and "x_errs t = []"
    and "0 \<le> p" and "p < x_next t" and "p < n"
  shows "p \<in> dom (x_file t) \<or> pending t p"
proof -
  have old: "p \<in> dom (x_file s) \<or> pending s p" if "x_errs s = []" "p < x_next s"
    using assms(3,7,9) that unfolding data_inv_def by blast
  show ?thesis using assms(1)
  proof (cases rule: xfer_cases)
    case xs_produce
    have "wrap64 (x_next s + c) = x_next s + c" using xs_produce(3) assms(2,4,5) by (intro wrap64_id) (auto simp: shape_inv_def)
    then show ?thesis using xs_produce old assms(6-9) by (cases "p < x_next s") (auto simp: pending_def)
  next
    case (xs_take i tk ts)
    have keep: "v \<in> set ((x_workers s)[i := u])" if "v \<in> set (x_workers s)" "v \<noteq> Waiting" for v u
      using that xs_take(3) by (metis in_set_conv_nth length_list_update nth_list_update_neq)
    have "Copying (tt_offset tk) (tt_size tk) 0 \<in> set ((x_workers s)[i := Copying (tt_offset tk) (tt_size tk) 0])"
      using xs_take(2) by (simp add: set_update_memI)
    then have "pending s p \<Longrightarrow> pending t p" using keep unfolding pending_def xs_take(1,4) by fastforce
    then show ?thesis using old assms(6,8) xs_take(1) by auto
  next
    case (xs_copy i off sz w e f w')
    note wk = worker_in [OF assms(2) xs_copy(2,3)]
    note pr = progress [OF wk(1,2) xs_copy(4,5)]
    have fd: "dom (x_file s) \<subseteq> dom (x_file t)" using keeps_written [OF wk(1,2) xs_copy(4,5)] xs_copy(1) by simp
    have keep: "v \<in> set (x_workers t)" if "v \<in> set (x_workers s)" "v \<noteq> Copying off sz w" for v
      using that xs_copy(1,3) by (simp add: in_set_conv_nth) (metis nth_list_update_neq)
    have new: "Copying off sz w' \<in> set (x_workers t)" using xs_copy(1,2) by (simp add: set_update_memI)
    have "p \<in> dom (x_file t) \<or> pending t p" if "pending s p"
    proof (cases "off + w \<le> p \<and> p < off + sz")
      case True
      then show ?thesis using pr new xs_copy(1) unfolding pending_def by (cases "p < off + w'") fastforce+
    next
      case False
      then show ?thesis using that keep xs_copy(1) unfolding pending_def by fastforce
    qed
    then show ?thesis using old fd assms(6,8) xs_copy(1) by auto
  next
    case (xs_copied i off sz w)
    have keep: "v \<in> set (x_workers t)" if "v \<in> set (x_workers s)" "v \<noteq> Copying off sz w" for v
      using that xs_copied(1,3) by (simp add: in_set_conv_nth) (metis nth_list_update_neq)
    have "pending s p \<Longrightarrow> pending t p" using keep xs_copied(1,4) unfolding pending_def by fastforce
    then show ?thesis using old assms(6,8) xs_copied(1) by auto
  next
    case (xs_fail i off sz w e f err)
    then have "length (x_errs s) < length (x_workers s)" using returned_bound [of i s] assms(2) by (simp add: shape_inv_def)
    then show ?thesis using xs_fail assms(6) by simp
  next
    case (xs_exit i)
    have keep: "v \<in> set (x_workers t)" if "v \<in> set (x_workers s)" "v \<noteq> Waiting" for v
      using that xs_exit(1,3) by (simp add: in_set_conv_nth) (metis nth_list_update_neq)
    have "pending s p \<Longrightarrow> pending t p" using keep xs_exit(1) unfolding pending_def by fastforce
    then show ?thesis using old assms(6,8) xs_exit(1) by auto
  qed (use old assms(6-9) in \<open>auto simp: pending_def\<close>)
qed

definition xfer_inv :: "int \<Rightarrow> nat \<Rightarrow> xfer \<Rightarrow> bool" where
  "xfer_inv n k s \<longleftrightarrow> shape_inv n k s \<and> flow_inv n s \<and> data_inv n s \<and> holds_part src (x_file s)"

lemma xfer_inv_start: "0 < k \<Longrightarrow> xfer_inv n k (xfer_start k)"
  by (simp add: xfer_inv_def xfer_start_def shape_inv_def flow_inv_def data_inv_def holds_part_def returned_def list_all_iff)

lemma xfer_inv_step:
  assumes "xfer_step body n c s t" and "0 < c" and "n + c < 2 ^ 63" and "xfer_inv n k s"
  shows "xfer_inv n k t"
proof -
  have inv: "shape_inv n k s" "flow_inv n s" "data_inv n s" "holds_part src (x_file s)" using assms(4) by (simp_all add: xfer_inv_def)
  have "data_inv n t"
    unfolding data_inv_def using data_step [OF assms(1) inv(1,3) assms(2,3)] by blast
  then show ?thesis
    using shape_step [OF assms(1) inv(1) assms(2,3)] flow_step [OF assms(1) inv(1,2)] holds_step [OF assms(1) inv(1,4)] by (simp add: xfer_inv_def)
qed

lemma xfer_inv_reach:
  assumes "xfer_reach body n c k s" and "0 < c" and "n + c < 2 ^ 63" and "0 < k"
  shows "xfer_inv n k s"
  using assms(1) by (induction rule: reach.induct) (auto intro: xfer_inv_start [OF assms(4)] xfer_inv_step [OF _ assms(2,3)])

text \<open>When the call returns without error and was not cancelled, the whole source has been written.\<close>

lemma complete:
  assumes "xfer_reach body n c k s" and "0 < c" and "n + c < 2 ^ 63" and "0 < k"
    and "finished s" and "dispatch_result s = None" and "\<not> x_caller s" and "0 \<le> p" and "p < n"
  shows "p < int (length src) \<and> x_file s p = Some (src ! nat p)"
proof -
  have inv: "shape_inv n k s" "flow_inv n s" "data_inv n s" "holds_part src (x_file s)"
    using xfer_inv_reach [OF assms(1-4)] by (simp_all add: xfer_inv_def)
  have e: "x_errs s = []" using assms(6) by (simp add: dispatch_result_def split: list.splits)
  have all: "\<forall>w \<in> set (x_workers s). w = Returned" using assms(5) by (simp add: finished_def list_all_iff)
  have "x_workers s \<noteq> []" using inv(1) assms(4) by (auto simp: shape_inv_def)
  then have "Returned \<in> set (x_workers s)" using all by (cases "x_workers s") auto
  then have t: "x_tasks s = []" "\<not> x_open s" using inv(2) e by (simp_all add: flow_inv_def)
  then have "n \<le> x_next s" using inv(2) e assms(7) by (auto simp: flow_inv_def)
  then have "p \<in> dom (x_file s) \<or> pending s p" using inv(3) e assms(8,9) by (simp add: data_inv_def)
  moreover have "\<not> pending s p" using all t(1) by (auto simp: pending_def)
  ultimately show ?thesis using inv(4) by (auto simp: holds_part_def)
qed

text \<open>A call never gets stuck: while a worker has not returned, some goroutine can go on.\<close>

lemma not_stuck:
  assumes "xfer_reach body n c k s" and "0 < c" and "n + c < 2 ^ 63" and "0 < k" and "\<not> finished s"
  shows "\<exists>t. xfer_step body n c s t \<and> x_caller t = x_caller s"
proof -
  have inv: "shape_inv n k s" using xfer_inv_reach [OF assms(1-4)] by (simp add: xfer_inv_def)
  obtain i where i: "i < length (x_workers s)" "x_workers s ! i \<noteq> Returned"
    using assms(5) by (auto simp: finished_def list_all_length)
  show ?thesis
  proof (cases "x_workers s ! i")
    case Waiting
    have "0 < length (x_workers s)" using i(1) by linarith
    then have "x_open s \<Longrightarrow> x_tasks s = [] \<Longrightarrow> ?thesis"
      using xs_produce [of s n body c] xs_produced [of s n body c] by (cases "x_next s < n") fastforce+
    moreover have "x_tasks s \<noteq> [] \<Longrightarrow> ?thesis" using xs_take [OF i(1) Waiting, of _ _ body n c] by (cases "x_tasks s") fastforce+
    moreover have "\<not> x_open s \<Longrightarrow> x_tasks s = [] \<Longrightarrow> ?thesis" using xs_exit [OF i(1) Waiting, of body n c] by fastforce
    ultimately show ?thesis by blast
  next
    case (Copying off sz w)
    show ?thesis
    proof (cases "w < sz")
      case True
      obtain f r where r: "body off sz w None (x_file s) = (f, r)" by fastforce
      then show ?thesis using xs_copy [OF i(1) Copying True] xs_fail [OF i(1) Copying True] by (cases r) fastforce+
    next
      case False
      then show ?thesis using xs_copied [OF i(1) Copying False, of body n c] by fastforce
    qed
  qed (use i(2) in simp)
qed

end

section \<open>Termination\<close>

text \<open>A measure that every step decreases: bytes weigh most before they are produced, less in a task and least in a worker.\<close>

fun worker_work :: "worker \<Rightarrow> nat" where
  "worker_work Waiting = 1"
| "worker_work (Copying off sz w) = 2 * nat (sz - w) + 2"
| "worker_work Returned = 0"

definition work :: "int \<Rightarrow> xfer \<Rightarrow> nat" where
  "work n s = 6 * nat (n - x_next s) + (\<Sum>t\<leftarrow>x_tasks s. 3 * nat (tt_size t) + 2) + (\<Sum>w\<leftarrow>x_workers s. worker_work w) +
    (if x_open s then 1 else 0) + (if x_caller s then 0 else 1)"

lemma sum_list_update_less:
  fixes g :: "'a \<Rightarrow> nat"
  assumes "i < length xs" and "g v < g (xs ! i) + d"
  shows "(\<Sum>x\<leftarrow>xs[i := v]. g x) < (\<Sum>x\<leftarrow>xs. g x) + d"
  using assms
proof (induction xs arbitrary: i)
  case (Cons x xs)
  then show ?case by (cases i) auto
qed simp

context chunk_copier
begin

lemma step_decreases:
  assumes "xfer_step body n c s t" and "shape_inv n k s" and "0 < c" and "n + c < 2 ^ 63"
  shows "work n t < work n s"
  using assms(1)
proof (cases rule: xfer_cases)
  case xs_produce
  have "wrap64 (x_next s + c) = x_next s + c" using xs_produce(3) assms(2-4) by (intro wrap64_id) (auto simp: shape_inv_def)
  then show ?thesis using xs_produce assms(3) by (simp add: work_def)
next
  case (xs_take i tk ts)
  have "(\<Sum>w\<leftarrow>(x_workers s)[i := Copying (tt_offset tk) (tt_size tk) 0]. worker_work w) < (\<Sum>w\<leftarrow>x_workers s. worker_work w) + (3 * nat (tt_size tk) + 2)"
    by (rule sum_list_update_less) (use xs_take assms(2) in \<open>auto simp: shape_inv_def task_ok_def\<close>)
  then show ?thesis using xs_take by (simp add: work_def)
next
  case (xs_copy i off sz w e f w')
  note wk = worker_in [OF assms(2) xs_copy(2,3)]
  have "(\<Sum>w\<leftarrow>(x_workers s)[i := Copying off sz w']. worker_work w) < (\<Sum>w\<leftarrow>x_workers s. worker_work w) + 0"
    by (rule sum_list_update_less) (use xs_copy progress [OF wk(1,2) xs_copy(4,5)] in auto)
  then show ?thesis using xs_copy by (simp add: work_def)
next
  case (xs_copied i off sz w)
  have "(\<Sum>w\<leftarrow>(x_workers s)[i := Waiting]. worker_work w) < (\<Sum>w\<leftarrow>x_workers s. worker_work w) + 0"
    by (rule sum_list_update_less) (use xs_copied in auto)
  then show ?thesis using xs_copied by (simp add: work_def)
next
  case (xs_fail i off sz w e f err)
  have "(\<Sum>w\<leftarrow>(x_workers s)[i := Returned]. worker_work w) < (\<Sum>w\<leftarrow>x_workers s. worker_work w) + 0"
    by (rule sum_list_update_less) (use xs_fail in auto)
  then show ?thesis using xs_fail by (simp add: work_def)
next
  case (xs_exit i)
  have "(\<Sum>w\<leftarrow>(x_workers s)[i := Returned]. worker_work w) < (\<Sum>w\<leftarrow>x_workers s. worker_work w) + 0"
    by (rule sum_list_update_less) (use xs_exit in auto)
  then show ?thesis using xs_exit by (simp add: work_def)
qed (auto simp: work_def)

lemma start_work: "work n (xfer_start k) = 6 * nat n + k + 2"
  by (simp add: work_def xfer_start_def sum_list_replicate)

lemma run_bound:
  assumes "\<And>i. i < m \<Longrightarrow> xfer_step body n c (run i) (run (Suc i))" and "run 0 = xfer_start k"
    and "0 < c" and "n + c < 2 ^ 63" and "0 < k"
  shows "m \<le> 6 * nat n + k + 2"
proof -
  have "work n (run i) + i \<le> 6 * nat n + k + 2 \<and> xfer_inv n k (run i)" if "i \<le> m" for i
    using that
  proof (induction i)
    case 0
    then show ?case using assms(2,5) by (simp add: start_work xfer_inv_start)
  next
    case (Suc i)
    then have st: "xfer_step body n c (run i) (run (Suc i))" and inv: "xfer_inv n k (run i)" and b: "work n (run i) + i \<le> 6 * nat n + k + 2"
      using assms(1) by simp_all
    have "work n (run (Suc i)) < work n (run i)" using step_decreases [OF st _ assms(3,4)] inv by (auto simp: xfer_inv_def)
    then show ?case using b xfer_inv_step [OF st assms(3,4) inv] by simp
  qed
  from this [of m] show ?thesis by simp
qed

end

section \<open>Properties\<close>

definition file_of :: "bytes \<Rightarrow> disk" where
  "file_of src = (\<lambda>p. if 0 \<le> p \<and> p < int (length src) then Some (src ! nat p) else None)"

lemma transferred:
  assumes "chunk_copier body src" and "xfer_reach body (int (length src)) c k s" and "finished s" and "dispatch_result s = None"
    and "\<not> x_caller s" and "0 < c" and "int (length src) + c < 2 ^ 63" and "0 < k"
  shows "x_file s = file_of src"
proof
  fix p
  have "holds_part src (x_file s)"
    using chunk_copier.xfer_inv_reach [OF assms(1,2,6-8)] by (simp add: chunk_copier.xfer_inv_def [OF assms(1)])
  then show "x_file s p = file_of src p"
    using chunk_copier.complete [OF assms(1,2,6-8,3-5), of p] by (cases "x_file s p") (auto simp: file_of_def holds_part_def)
qed

lemma worker_count_pos: "0 < worker_count w"
  by (simp add: worker_count_def)


text \<open>One run of a one-byte upload with one worker.\<close>

definition one_byte :: xfer where
  "one_byte = \<lparr>x_next = 1, x_open = False, x_tasks = [], x_workers = [Returned], x_errs = [], x_done = False, x_caller = False,
     x_file = store Map.empty 0 ''a''\<rparr>"

lemma one_byte_run: "dispatchParallelUpload ''a'' 1 1 1 one_byte"
proof -
  let ?st = "xfer_step (uploadChunk ''a'') 1 1"
  let ?s0 = "xfer_start 1"
  let ?s1 = "?s0\<lparr>x_tasks := [\<lparr>tt_offset = 0, tt_size = 1\<rparr>], x_next := 1\<rparr>"
  let ?s2 = "?s1\<lparr>x_open := False\<rparr>"
  let ?s3 = "?s2\<lparr>x_tasks := [], x_workers := [Copying 0 1 0]\<rparr>"
  let ?s4 = "?s3\<lparr>x_file := store Map.empty 0 ''a'', x_workers := [Copying 0 1 1]\<rparr>"
  let ?s5 = "?s4\<lparr>x_workers := [Waiting]\<rparr>"
  let ?s6 = "?s5\<lparr>x_workers := [Returned]\<rparr>"
  have w: "wrap64 1 = 1" by (rule wrap64_id) simp_all
  have b: "uploadChunk ''a'' 0 1 0 None Map.empty = (store Map.empty 0 ''a'', Copied 1)"
    by (simp add: uploadChunk_def local_ReadAt_def Let_def)
  have "?st ?s0 ?s1" using xs_produce [of ?s0 1 "uploadChunk ''a''" 1] by (simp add: xfer_start_def w)
  moreover have "?st ?s1 ?s2" by (rule xs_produced) (simp_all add: xfer_start_def)
  moreover have "?st ?s2 ?s3" using xs_take [of 0 ?s2 _ _ "uploadChunk ''a''" 1 1] by (simp add: xfer_start_def)
  moreover have "?st ?s3 ?s4" using xs_copy [of 0 ?s3 0 1 0 "uploadChunk ''a''" None _ 1 1 1] b by (simp add: xfer_start_def)
  moreover have "?st ?s4 ?s5" using xs_copied [of 0 ?s4 0 1 1 "uploadChunk ''a''" 1 1] by (simp add: xfer_start_def)
  moreover have "?st ?s5 ?s6" using xs_exit [of 0 ?s5 "uploadChunk ''a''" 1 1] by (simp add: xfer_start_def)
  ultimately have "reach (\<lambda>s. s = ?s0) ?st ?s6" using reach_init [of "\<lambda>s. s = ?s0"] by (meson reach_step)
  moreover have "?s6 = one_byte" by (simp add: one_byte_def xfer_start_def)
  ultimately show ?thesis by (simp add: dispatchParallelUpload_def finished_def one_byte_def)
qed


text \<open>C16: a parallel transfer always returns.  From the start, at most six steps for each byte of the file, one for each worker and two
  more are taken, whatever fails and whether or not it is cancelled; and until every worker has returned some goroutine can take
  a step, so that neither the task channel nor the error channel blocks the call.\<close>
theorem transfer_ends:
  assumes "reader_ok rd src" and "body = uploadChunk src \<or> body = downloadChunk rd" and "0 < chunk" and "n + chunk < 2 ^ 63" and "0 < k"
  shows "(\<forall>run m. run 0 = xfer_start k \<longrightarrow> (\<forall>i < m. xfer_step body n chunk (run i) (run (Suc i))) \<longrightarrow> m \<le> 6 * nat n + k + 2) \<and>
    (\<forall>s. xfer_reach body n chunk k s \<longrightarrow> \<not> finished s \<longrightarrow> (\<exists>t. xfer_step body n chunk s t \<and> x_caller t = x_caller s))"
proof -
  have c: "chunk_copier body src" using assms(2) up.chunk_copier_axioms download_copier [OF assms(1)] by blast
  show ?thesis using chunk_copier.run_bound [OF c _ _ assms(3-5)] chunk_copier.not_stuck [OF c _ assms(3-5)] by blast
qed

theorem transfer_ends_witness:
  "\<exists>t. xfer_step (uploadChunk ''a'') 1 1 (xfer_start 1) t \<and> x_caller t = x_caller (xfer_start 1)"
proof -
  have "xfer_reach (uploadChunk ''a'') 1 1 1 (xfer_start 1)" by (rule reach_init) simp
  moreover have "\<not> finished (xfer_start 1)" by (simp add: finished_def xfer_start_def)
  ultimately show ?thesis using transfer_ends [OF local_reader_ok, of "uploadChunk ''a''" "''a''" 1 1 1] by simp
qed

text \<open>When the caller cancels the context, the producer stops, the workers find the channel closed, and the call returns no error:
  here nothing has been written.\<close>

lemma cancelled_upload_succeeds:
  "\<exists>s. dispatchParallelUpload ''a'' 1 1 1 s \<and> dispatch_result s = None \<and> x_file s = Map.empty"
proof -
  let ?st = "xfer_step (uploadChunk ''a'') 1 1"
  let ?s0 = "xfer_start 1"
  let ?s1 = "?s0\<lparr>x_caller := True, x_done := True\<rparr>"
  let ?s2 = "?s1\<lparr>x_open := False\<rparr>"
  let ?s3 = "?s2\<lparr>x_workers := [Returned]\<rparr>"
  have "?st ?s0 ?s1" by (rule xs_cancel) (simp add: xfer_start_def)
  moreover have "?st ?s1 ?s2" by (rule xs_abandoned) (simp_all add: xfer_start_def)
  moreover have "?st ?s2 ?s3" using xs_exit [of 0 ?s2 "uploadChunk ''a''" 1 1] by (simp add: xfer_start_def)
  ultimately have "reach (\<lambda>s. s = ?s0) ?st ?s3" using reach_init [of "\<lambda>s. s = ?s0"] by (meson reach_step)
  then show ?thesis by (intro exI [of _ ?s3]) (simp add: dispatchParallelUpload_def finished_def dispatch_result_def xfer_start_def)
qed

text \<open>A download that cannot reach the server or open the remote file has already emptied the local one.\<close>

lemma failed_download_truncates:
  "se_create en \<Longrightarrow> \<not> se_client en \<or> \<not> se_session en \<or> \<not> se_source en \<Longrightarrow> \<exists>err. Download en mp copied = (Some err, Some Map.empty)"
  by (auto simp: Download_def NewClient_def)

end
