(* ===== verification/SSH_Scp.thy ===== *)
theory SSH_Scp
  imports SSH_Sftp Go_Path
begin

text \<open>
  Package \<^verbatim>\<open>ssh/sftp\<close>, file \<^verbatim>\<open>src/ssh/sftp/scp.go\<close>: uploading one file through the command \<^verbatim>\<open>scp -tr\<close> on the remote host.  The
  session is given by what its calls answer and by the number of bytes its standard input takes before a write fails.  The
  remote side is specified by the words a POSIX shell makes of the command and by the receiving end of the protocol.
\<close>

section \<open>scp.go\<close>

definition shellQuote :: "bytes \<Rightarrow> bytes" where
  "shellQuote s = [CHR 0x27] @ ReplaceAll [CHR 0x27] [CHR 0x27, CHR 0x5C, CHR 0x27, CHR 0x27] s @ [CHR 0x27]"

definition containsControlChars :: "bytes \<Rightarrow> bool" where
  "containsControlChars s \<longleftrightarrow> list_ex (\<lambda>c. c = CHR 0x00 \<or> c = CHR 0x0A \<or> c = CHR 0x0D) s"

record scp_env =
  sc_client :: bool
  sc_session :: bool
  sc_pipe :: bool
  sc_start :: bool
  sc_limit :: "nat option"
  sc_read_fails :: bool
  sc_wait :: "sftp_error option"

definition put :: "nat option \<Rightarrow> bytes \<Rightarrow> bytes \<Rightarrow> bytes \<times> bool" where
  "put limit out b =
    (case limit of
       None \<Rightarrow> (out @ b, True)
     | Some k \<Rightarrow> if length out + length b \<le> k then (out @ b, True) else (take k (out @ b), False))"

definition scp_header :: "int \<Rightarrow> bytes \<Rightarrow> bytes" where
  "scp_header sz fileName = ''C0644 '' @ FormatInt sz @ '' '' @ fileName @ [CHR 0x0A]"

text \<open>The goroutine that feeds the command: what it wrote and the error it reports.  \<open>dat\<close> are the bytes the reader gives before it
  ends or fails.\<close>

definition scp_feed :: "scp_env \<Rightarrow> bytes \<Rightarrow> int \<Rightarrow> bytes \<Rightarrow> bytes \<times> sftp_error option" where
  "scp_feed en dat sz fileName =
    (case put (sc_limit en) [] (scp_header sz fileName) of
       (out, False) \<Rightarrow> (out, Some SftpWrite)
     | (out, True) \<Rightarrow>
         (case (if sz > 0 then put (sc_limit en) out dat else (out, True)) of
            (out, False) \<Rightarrow> (out, Some SftpWrite)
          | (out, True) \<Rightarrow>
              if sz > 0 \<and> sc_read_fails en then (out, Some SftpRead)
              else (case put (sc_limit en) out [CHR 0x00] of (out, ok) \<Rightarrow> (out, if ok then None else Some SftpWrite))))"

text \<open>The error, and the command with the bytes fed to it when it was started.\<close>

definition WriteFile :: "scp_env \<Rightarrow> bytes \<Rightarrow> int \<Rightarrow> bytes \<Rightarrow> sftp_error option \<times> (bytes \<times> bytes) option" where
  "WriteFile en dat sz remoteFilePath =
    (if \<not> sc_client en then (Some ErrClientClosed, None)
     else
      (let fileName = path_Base remoteFilePath in
       if containsControlChars remoteFilePath \<or> containsControlChars fileName then (Some ErrInvalidTargetFile, None)
       else if \<not> sc_session en then (Some SftpSession, None)
       else if \<not> sc_pipe en then (Some SftpSession, None)
       else if \<not> sc_start en then (Some SftpExec, None)
       else
        (case scp_feed en dat sz fileName of
           (out, copyErr) \<Rightarrow>
             (case copyErr of Some err \<Rightarrow> Some err | None \<Rightarrow> sc_wait en, Some (''scp -tr '' @ shellQuote remoteFilePath, out)))))"

text \<open>The local file is open and its size known, or not.\<close>

definition Scp :: "scp_env \<Rightarrow> bool \<Rightarrow> int option \<Rightarrow> bytes \<Rightarrow> bytes \<Rightarrow> sftp_error option \<times> (bytes \<times> bytes) option" where
  "Scp en opened info dat remoteFilePath =
    (if \<not> opened then (Some SftpOpen, None)
     else case info of None \<Rightarrow> (Some SftpStat, None) | Some sz \<Rightarrow> WriteFile en dat sz remoteFilePath)"

section \<open>The remote side\<close>

text \<open>The words of a simple command of a POSIX shell, as far as quotes, backslashes and blanks go; every other character with a meaning
  of its own, and an open quote, give no result.\<close>

definition sh_special :: "char \<Rightarrow> bool" where
  "sh_special c \<longleftrightarrow> \<not> (is_digit c \<or> is_upper c \<or> is_lower c \<or> c \<in> set ''-_./:@%+,'' \<or> byte_val c \<ge> 128)"

fun sh_words :: "bool \<Rightarrow> bytes option \<Rightarrow> bytes \<Rightarrow> bytes list option" where
  "sh_words True cur [] = None"
| "sh_words False cur [] = Some (case cur of None \<Rightarrow> [] | Some w \<Rightarrow> [w])"
| "sh_words True cur (c # cs) =
    (if c = CHR 0x27 then sh_words False cur cs else sh_words True (Some ((case cur of None \<Rightarrow> [] | Some w \<Rightarrow> w) @ [c])) cs)"
| "sh_words False cur (c # cs) =
    (let w = (case cur of None \<Rightarrow> [] | Some w \<Rightarrow> w) in
     if c = CHR 0x27 then sh_words True (Some w) cs
     else if c = CHR 0x5C then (case cs of [] \<Rightarrow> None | d # ds \<Rightarrow> sh_words False (Some (w @ [d])) ds)
     else if c = CHR '' '' then
       (case cur of None \<Rightarrow> sh_words False None cs | Some w \<Rightarrow> map_option (\<lambda>ws. w # ws) (sh_words False None cs))
     else if sh_special c then None
     else sh_words False (Some (w @ [c])) cs)"

text \<open>The receiving end: one line that announces a file, the announced number of bytes and a zero byte; the rest of the stream is
  returned.\<close>

definition scp_sink :: "bytes \<Rightarrow> (bytes \<times> bytes \<times> bytes) option" where
  "scp_sink s =
    (if \<not> prefix ''C0644 '' s then None
     else case IndexByte (drop 6 s) CHR '' '' of
            None \<Rightarrow> None
          | Some i \<Rightarrow>
              (case ParseUint (take i (drop 6 s)) 63 of
                 Inl _ \<Rightarrow> None
               | Inr n \<Rightarrow>
                   (let r = drop (Suc i) (drop 6 s) in
                    case IndexByte r (CHR 0x0A) of
                      None \<Rightarrow> None
                    | Some j \<Rightarrow>
                        (let d = drop (Suc j) r in
                         if length d \<le> n \<or> d ! n \<noteq> CHR 0x00 then None else Some (take j r, take n d, drop (Suc n) d)))))"

section \<open>Lemmas\<close>

lemma ReplaceAll_quote:
  "ReplaceAll [CHR 0x27] r s = concat (map (\<lambda>c. if c = CHR 0x27 then r else [c]) s)"
  by (induction s) auto

lemma sh_words_quoted:
  "sh_words True (Some w) (concat (map (\<lambda>c. if c = CHR 0x27 then [CHR 0x27, CHR 0x5C, CHR 0x27, CHR 0x27] else [c]) s) @ CHR 0x27 # t) =
   sh_words False (Some (w @ s)) t"
  by (induction s arbitrary: w) simp_all

text \<open>A quoted text is one word of the shell, the text itself.\<close>

lemma shellQuote_word: "sh_words False (Some w) (shellQuote s @ t) = sh_words False (Some (w @ s)) t"
  and shellQuote_first: "sh_words False None (shellQuote s @ t) = sh_words False (Some s) t"
  using sh_words_quoted [of w s t] sh_words_quoted [of "[]" s t] by (simp_all add: shellQuote_def ReplaceAll_quote)

lemma command_words: "sh_words False None (''scp -tr '' @ shellQuote p) = Some [''scp'', ''-tr'', p]"
  using shellQuote_first [of p "[]"] by (simp add: sh_special_def is_digit_def is_upper_def is_lower_def byte_eval)

lemma path_Base_clean: "\<not> containsControlChars p \<Longrightarrow> \<not> containsControlChars (path_Base p)"
  using path_Base_chars [of p] by (fastforce simp: containsControlChars_def list_ex_iff)

lemma sink_reads:
  assumes "CHR 0x0A \<notin> set name" and "length dat < 2 ^ 63"
  shows "scp_sink (scp_header (int (length dat)) name @ dat @ CHR 0x00 # rest) = Some (name, dat, rest)"
proof -
  let ?n = "format_nat (length dat)"
  let ?s = "scp_header (int (length dat)) name @ dat @ CHR 0x00 # rest"
  have h: "?s = ''C0644 '' @ ?n @ CHR '' '' # name @ CHR 0x0A # dat @ CHR 0x00 # rest" by (simp add: scp_header_def FormatInt_def)
  then have d: "prefix ''C0644 '' ?s" "drop 6 ?s = ?n @ CHR '' '' # name @ CHR 0x0A # dat @ CHR 0x00 # rest" by simp_all
  have "CHR '' '' \<notin> set ?n" using format_nat_digits [of "length dat"] by (auto simp: is_digit_def byte_eval)
  then have i: "IndexByte (drop 6 ?s) CHR '' '' = Some (length ?n)" unfolding d(2) by (rule IndexByte_append)
  have p: "ParseUint (take (length ?n) (drop 6 ?s)) 63 = Inr (length dat)" unfolding d(2) using ParseUint_format [OF assms(2)] by simp
  have r: "drop (Suc (length ?n)) (drop 6 ?s) = name @ CHR 0x0A # dat @ CHR 0x00 # rest" unfolding d(2) by simp
  have j: "IndexByte (name @ CHR 0x0A # dat @ CHR 0x00 # rest) CHR 0x0A = Some (length name)" by (rule IndexByte_append [OF assms(1)])
  show ?thesis unfolding scp_sink_def i option.case p sum.case r Let_def j using d(1) by simp
qed

section \<open>Properties\<close>


definition scp_ready :: scp_env where
  "scp_ready = \<lparr>sc_client = True, sc_session = True, sc_pipe = True, sc_start = True, sc_limit = None, sc_read_fails = False, sc_wait = None\<rparr>"


text \<open>The reader is copied to its end, not for the announced number of bytes: what comes after them is read as the next message.\<close>

lemma longer_reader_spills:
  assumes "CHR 0x0A \<notin> set name" and "length dat < 2 ^ 63" and "dat \<noteq> []"
  shows "\<exists>out. scp_feed scp_ready (dat @ CHR 0x00 # rest) (int (length dat)) name = (out, None) \<and>
    scp_sink out = Some (name, dat, rest @ [CHR 0x00])"
  using sink_reads [OF assms(1,2), of "rest @ [CHR 0x00]"] assms(3) by (simp add: scp_feed_def scp_ready_def put_def)

end
