(* ===== verification/SSH_Client.thy ===== *)
theory SSH_Client
  imports SSH_Options SSH_Scp Go_Binary
begin

text \<open>
  Package \<^verbatim>\<open>ssh\<close>, file \<^verbatim>\<open>src/ssh/client.go\<close>: commands, line streams and the life of a connected client.  A command's session is the sequence of
  requests made on it; what the server answers is an argument.  The goroutines that share a client (callers of \<^verbatim>\<open>GetSftp\<close>, of
  \<^verbatim>\<open>Close\<close>, and the keep-alive loop) are a step relation.
\<close>

section \<open>Commands\<close>

datatype request_kind = CombinedOutputReq | OutputReq | RunReq | StartReq

datatype session_event =
    PtyRequest bytes int int
  | Setenv bytes bytes
  | Exec request_kind bytes
  | Interrupt
  | CancelFunc
  | CloseSession

record Cmd =
  cm_Path :: bytes
  cm_Args :: "bytes list"
  cm_Env :: "bytes list"
  cm_cmdStr :: bytes
  cm_Stdin :: "nat option"
  cm_Stdout :: "nat option"
  cm_Stderr :: "nat option"
  cm_Cancel :: bool
  cm_cancelable :: bool
  cm_initOnce :: bool

type_synonym CmdOption = "Cmd \<Rightarrow> Cmd"

definition WithPath :: "bytes \<Rightarrow> CmdOption" where "WithPath path c = c\<lparr>cm_Path := path\<rparr>"
definition WithStdout :: "nat option \<Rightarrow> CmdOption" where "WithStdout w c = c\<lparr>cm_Stdout := w\<rparr>"
definition WithStderr :: "nat option \<Rightarrow> CmdOption" where "WithStderr w c = c\<lparr>cm_Stderr := w\<rparr>"
definition WithStdin :: "nat option \<Rightarrow> CmdOption" where "WithStdin r c = c\<lparr>cm_Stdin := r\<rparr>"
definition WithEnv :: "bytes list \<Rightarrow> CmdOption" where "WithEnv vs c = c\<lparr>cm_Env := vs\<rparr>"

text \<open>\<open>live\<close> tells whether the client is connected and not closed; the server may refuse the session or the terminal.\<close>

definition Command ::
  "bool \<Rightarrow> bool \<Rightarrow> bool \<Rightarrow> Client \<Rightarrow> bool \<Rightarrow> bytes \<Rightarrow> bytes list \<Rightarrow> (ssh_error + Cmd) \<times> session_event list" where
  "Command live session_ok pty_ok c cancelable name args =
    (if \<not> live then (Inl ErrSSHClosed, [])
     else if \<not> session_ok then (Inl (ErrOther 1), [])
     else
      (let width = (if cl_PtyWidth c \<le> 0 then 80 else cl_PtyWidth c);
           height = (if cl_PtyHeight c \<le> 0 then 40 else cl_PtyHeight c);
           term = (if cl_PtyTerm c = [] then ''xterm'' else cl_PtyTerm c);
           pty = (if cl_RequestPty c then [PtyRequest term width height] else [])
       in if cl_RequestPty c \<and> \<not> pty_ok then (Inl ErrPtyRequestFailed, pty @ [CloseSession])
          else
           (Inr \<lparr>cm_Path = name, cm_Args = args, cm_Env = [],
                 cm_cmdStr = (if length args > 0 then name @ '' '' @ Join '' '' args else name),
                 cm_Stdin = None, cm_Stdout = None, cm_Stderr = None, cm_Cancel = False, cm_cancelable = cancelable, cm_initOnce = False\<rparr>, pty)))"

definition cmd_String :: "Cmd \<Rightarrow> bytes" where
  "cmd_String c =
    (if cm_cmdStr c \<noteq> [] then cm_cmdStr c
     else if cm_Args c = [] then cm_Path c
     else cm_Path c @ '' '' @ Join '' '' (cm_Args c))"

text \<open>Sending the environment, of which the server may refuse a variable.\<close>

fun send_env :: "(bytes \<Rightarrow> bool) \<Rightarrow> bytes list \<Rightarrow> session_event list \<times> ssh_error option" where
  "send_env accepts [] = ([], None)"
| "send_env accepts (v # vs) =
    (case Cut v ''='' of
       (key, val, ok) \<Rightarrow>
         if \<not> ok then send_env accepts vs
         else if \<not> accepts key then ([Setenv key val], Some ErrCommandInitFailed)
         else (case send_env accepts vs of (es, err) \<Rightarrow> (Setenv key val # es, err)))"

definition cmd_init :: "(bytes \<Rightarrow> bool) \<Rightarrow> Cmd \<Rightarrow> session_event list \<times> ssh_error option \<times> Cmd" where
  "cmd_init accepts c =
    (if cm_initOnce c then ([], None, c)
     else case send_env accepts (cm_Env c) of
            (es, Some err) \<Rightarrow> (es, Some err, c)
          | (es, None) \<Rightarrow> (es, None, c\<lparr>cm_initOnce := True\<rparr>))"

definition terminate :: "Cmd \<Rightarrow> session_event list" where
  "terminate c = (if cm_Cancel c then [CancelFunc] else [Interrupt])"

text \<open>\<open>done\<close> tells that the context ends before the result \<open>res\<close> is there.\<close>

definition runInContext ::
  "(bytes \<Rightarrow> bool) \<Rightarrow> bool \<Rightarrow> request_kind \<Rightarrow> ssh_error + bytes \<Rightarrow> Cmd \<Rightarrow> (ssh_error + bytes) \<times> session_event list \<times> Cmd" where
  "runInContext accepts ended k res c =
    (case cmd_init accepts c of
       (es, Some err, c) \<Rightarrow> (Inl err, es, c)
     | (es, None, c) \<Rightarrow>
         if \<not> cm_cancelable c then (res, es @ [Exec k (cmd_String c)], c)
         else if ended then (Inl (ErrOther 2), es @ [Exec k (cmd_String c)] @ terminate c, c)
         else (res, es @ [Exec k (cmd_String c)], c))"

definition CombinedOutput where "CombinedOutput accepts ended res c = runInContext accepts ended CombinedOutputReq res c"
definition cmd_Output where "cmd_Output accepts ended res c = runInContext accepts ended OutputReq res c"
definition cmd_Run where "cmd_Run accepts ended res c = runInContext accepts ended RunReq res c"
definition cmd_Start where "cmd_Start accepts ended res c = runInContext accepts ended StartReq res c"

definition Run_command ::
  "bool \<Rightarrow> bool \<Rightarrow> bool \<Rightarrow> Client \<Rightarrow> bool \<Rightarrow> (bytes \<Rightarrow> bool) \<Rightarrow> bool \<Rightarrow> ssh_error + bytes \<Rightarrow> bytes \<Rightarrow> (ssh_error + bytes) \<times> session_event list" where
  "Run_command live session_ok pty_ok c cancelable accepts ended res cmdStr =
    (case Command live session_ok pty_ok c cancelable ''/bin/sh'' [''-c'', cmdStr] of
       (Inl err, es) \<Rightarrow> (Inl err, es)
     | (Inr cmd, es) \<Rightarrow> (case CombinedOutput accepts ended res cmd of (r, es', _) \<Rightarrow> (r, es @ es')))"

definition Script ::
  "bool \<Rightarrow> bool \<Rightarrow> bool \<Rightarrow> Client \<Rightarrow> bool \<Rightarrow> nat option \<Rightarrow> CmdOption option list \<Rightarrow> (ssh_error + Cmd) \<times> session_event list" where
  "Script live session_ok pty_ok c cancelable r opts =
    (case Command live session_ok pty_ok c cancelable ''/bin/sh'' [] of
       (Inl err, es) \<Rightarrow> (Inl err, es)
     | (Inr cmd, es) \<Rightarrow>
         (Inr ((fold (\<lambda>opt cmd. case opt of None \<Rightarrow> cmd | Some f \<Rightarrow> f cmd) opts cmd)\<lparr>cm_Stdin := r\<rparr>), es))"

definition ScriptFile ::
  "(bytes \<Rightarrow> nat option) \<Rightarrow> bool \<Rightarrow> bool \<Rightarrow> bool \<Rightarrow> Client \<Rightarrow> bool \<Rightarrow> bytes \<Rightarrow> CmdOption option list \<Rightarrow> (ssh_error + Cmd) \<times> session_event list" where
  "ScriptFile readf live session_ok pty_ok c cancelable localPath opts =
    (case readf localPath of None \<Rightarrow> (Inl ErrFile, []) | Some r \<Rightarrow> Script live session_ok pty_ok c cancelable (Some r) opts)"

section \<open>Streams\<close>

text \<open>\<^verbatim>\<open>ReadString\<close> up to and including a newline, and the loop around it; \<^verbatim>\<open>TrimRight\<close> removes carriage returns and newlines.  \<open>s\<close> is what
  the reader gives before it ends or fails, \<open>stop\<close> the number of lines put on the channel before the context ends, if it does.\<close>

definition trim_newlines :: "bytes \<Rightarrow> bytes" where
  "trim_newlines l = rev (dropWhile (\<lambda>c. c = CHR 0x0D \<or> c = CHR 0x0A) (rev l))"

function scanLines :: "nat option \<Rightarrow> bytes \<Rightarrow> bytes list" where
  "scanLines stop s =
    (case IndexByte s (CHR 0x0A) of
       None \<Rightarrow> if s \<noteq> [] \<and> stop \<noteq> Some 0 then [trim_newlines s] else []
     | Some i \<Rightarrow>
         if stop = Some 0 then []
         else trim_newlines (take (Suc i) s) # scanLines (map_option (\<lambda>n. n - 1) stop) (drop (Suc i) s))"
  by pat_completeness auto
termination
proof (relation "measure (length \<circ> snd)")
  fix stop :: "nat option" and s i assume "IndexByte s (CHR 0x0A) = Some i"
  then have "i < length s" by (simp add: IndexByte_Some_iff)
  then show "((map_option (\<lambda>n. n - 1) stop, drop (Suc i) s), stop, s) \<in> measure (length \<circ> snd)" by simp
qed simp

declare scanLines.simps [simp del]

text \<open>The workers: the lines put on the two channels, the value of the error channel, that of the done channel, and the requests made
  on the session.  \<open>expired\<close> tells that the end of the context is chosen before the result of waiting for the command.\<close>

datatype stream_end = StreamResult "ssh_error option" | StreamTimeout

definition runStreamWorkers ::
  "nat option \<Rightarrow> nat option \<Rightarrow> bytes \<Rightarrow> bytes \<Rightarrow> ssh_error option \<Rightarrow> bool \<Rightarrow> bytes list \<times> bytes list \<times> stream_end \<times> bool \<times> session_event list" where
  "runStreamWorkers stopOut stopErr out err waited expired =
    (scanLines stopOut out, scanLines stopErr err,
     if expired then (StreamTimeout, False, [Interrupt, CloseSession])
     else (StreamResult waited, True, [CloseSession]))"

text \<open>Starting a stream: the session, the two pipes and the command may each fail; the result is the time limit of the workers.\<close>

definition stream_timeout :: "int \<Rightarrow> int" where
  "stream_timeout timeout = (if timeout \<le> 0 then 60 * 10 ^ 9 else timeout)"

definition Stream :: "bool \<Rightarrow> bool \<Rightarrow> bool \<Rightarrow> bool \<Rightarrow> bytes \<Rightarrow> int \<Rightarrow> (ssh_error + int) \<times> session_event list" where
  "Stream session_ok out_ok err_ok start_ok command timeout =
    (if \<not> session_ok then (Inl (ErrOther 1), [])
     else if \<not> out_ok then (Inl (ErrOther 5), [CloseSession])
     else if \<not> err_ok then (Inl (ErrOther 5), [CloseSession])
     else if \<not> start_ok then (Inl (ErrOther 6), [Exec StartReq command, CloseSession])
     else (Inr (stream_timeout timeout), [Exec StartReq command]))"

section \<open>Guarded operations\<close>

text \<open>Every operation first checks that the client is connected and not closed, then calls the package \<^verbatim>\<open>sftp\<close> with the packet size of
  the client.  The cached SFTP client is known by the packet size it was made with.\<close>

datatype client_error = SSHErr ssh_error | SFTPErr sftp_error

definition NewSftp :: "bool \<Rightarrow> sftp_env \<Rightarrow> Client \<Rightarrow> client_error + nat" where
  "NewSftp live en c =
    (if \<not> live then Inl (SSHErr ErrSSHClosed)
     else case NewClient en (cl_MaxPacketSize c) of Inl err \<Rightarrow> Inl (SFTPErr err) | Inr k \<Rightarrow> Inr k)"

definition GetSftp :: "bool \<Rightarrow> sftp_env \<Rightarrow> Client \<Rightarrow> nat option \<Rightarrow> (client_error + nat) \<times> nat option" where
  "GetSftp live en c cache =
    (if \<not> live then (Inl (SSHErr ErrSSHClosed), cache)
     else case cache of
            Some k \<Rightarrow> (Inr k, cache)
          | None \<Rightarrow>
              (case NewClient en (cl_MaxPacketSize c) of
                 Inl err \<Rightarrow> (Inl (SFTPErr err), None)
               | Inr k \<Rightarrow> (Inr k, Some k)))"

text \<open>The transfers return the error, the destination file if they made one, and the cached client; \<open>copied\<close> is what the client's own
  copying routine gives.\<close>

definition Upload_client ::
  "bool \<Rightarrow> sftp_env \<Rightarrow> Client \<Rightarrow> sftp_error option \<times> disk \<Rightarrow> nat option \<Rightarrow> client_error option \<times> disk option \<times> nat option" where
  "Upload_client live en c copied cache =
    (if \<not> live then (Some (SSHErr ErrSSHClosed), None, cache)
     else case GetSftp live en c cache of
            (Inl err, cache) \<Rightarrow> (Some err, None, cache)
          | (Inr _, cache) \<Rightarrow>
              if \<not> se_source en then (Some (SFTPErr SftpOpen), None, cache)
              else if \<not> se_create en then (Some (SFTPErr SftpOpen), None, cache)
              else (map_option SFTPErr (fst copied), Some (snd copied), cache))"

definition Download_client ::
  "bool \<Rightarrow> sftp_env \<Rightarrow> Client \<Rightarrow> sftp_error option \<times> disk \<Rightarrow> nat option \<Rightarrow> client_error option \<times> disk option \<times> nat option" where
  "Download_client live en c copied cache =
    (if \<not> live then (Some (SSHErr ErrSSHClosed), None, cache)
     else case GetSftp live en c cache of
            (Inl err, cache) \<Rightarrow> (Some err, None, cache)
          | (Inr _, cache) \<Rightarrow>
              if \<not> se_create en then (Some (SFTPErr SftpOpen), None, cache)
              else if \<not> se_source en then (Some (SFTPErr SftpOpen), Some Map.empty, cache)
              else case fst copied of
                     Some err \<Rightarrow> (Some (SFTPErr err), Some (snd copied), cache)
                   | None \<Rightarrow> (if se_sync en then None else Some (SFTPErr SftpSync), Some (snd copied), cache))"

definition UploadParallel_client ::
  "bool \<Rightarrow> sftp_env \<Rightarrow> Client \<Rightarrow> int \<Rightarrow> int \<Rightarrow> int \<Rightarrow> (int \<Rightarrow> int \<Rightarrow> nat \<Rightarrow> sftp_error option \<times> disk) \<Rightarrow> client_error option \<times> disk option" where
  "UploadParallel_client live en c totalSize workers chunkSize disp =
    (if \<not> live then (Some (SSHErr ErrSSHClosed), None)
     else map_prod (map_option SFTPErr) id (UploadParallel en totalSize workers chunkSize (cl_MaxPacketSize c) disp))"

definition DownloadParallel_client ::
  "bool \<Rightarrow> sftp_env \<Rightarrow> Client \<Rightarrow> int \<Rightarrow> int \<Rightarrow> int \<Rightarrow> (int \<Rightarrow> int \<Rightarrow> nat \<Rightarrow> sftp_error option \<times> disk) \<Rightarrow> client_error option \<times> disk option" where
  "DownloadParallel_client live en c totalSize workers chunkSize disp =
    (if \<not> live then (Some (SSHErr ErrSSHClosed), None)
     else map_prod (map_option SFTPErr) id (DownloadParallel en totalSize workers chunkSize (cl_MaxPacketSize c) disp))"

definition WriteFile_client :: "bool \<Rightarrow> scp_env \<Rightarrow> bytes \<Rightarrow> int \<Rightarrow> bytes \<Rightarrow> client_error option \<times> (bytes \<times> bytes) option" where
  "WriteFile_client live en dat sz remoteFilePath =
    (if \<not> live then (Some (SSHErr ErrSSHClosed), None) else map_prod (map_option SFTPErr) id (WriteFile en dat sz remoteFilePath))"

definition Scp_client :: "bool \<Rightarrow> scp_env \<Rightarrow> bool \<Rightarrow> int option \<Rightarrow> bytes \<Rightarrow> bytes \<Rightarrow> client_error option \<times> (bytes \<times> bytes) option" where
  "Scp_client live en opened info dat remoteFilePath =
    (if \<not> live then (Some (SSHErr ErrSSHClosed), None) else map_prod (map_option SFTPErr) id (Scp en opened info dat remoteFilePath))"

text \<open>Listening gives the listener and what the accept loop behind it does on its turns.\<close>

definition ListenSOCKS5 :: "bool \<Rightarrow> (bytes \<Rightarrow> nat option) \<Rightarrow> accept_turn list \<Rightarrow> bytes \<Rightarrow> ssh_error + nat \<times> nat \<times> bool" where
  "ListenSOCKS5 live listen turns localAddr =
    (if \<not> live then Inl ErrSSHClosed
     else case listen localAddr of None \<Rightarrow> Inl (ErrOther 3) | Some ln \<Rightarrow> Inr (ln, serveSOCKS5Loop turns))"

text \<open>Dialling through the connection returns the first of the end of the context and the result of the goroutine that dials; the
  second component are the connections made that nobody is given.\<close>

definition DialContext :: "bool \<Rightarrow> bool \<Rightarrow> (bytes \<Rightarrow> bytes \<Rightarrow> ssh_error + nat) \<Rightarrow> bytes \<Rightarrow> bytes \<Rightarrow> (ssh_error + nat) \<times> nat list" where
  "DialContext live ended dial netw targetAddr =
    (if \<not> live then (Inl ErrSSHClosed, [])
     else if ended then (Inl (ErrOther 2), case dial netw targetAddr of Inl _ \<Rightarrow> [] | Inr conn \<Rightarrow> [conn])
     else (dial netw targetAddr, []))"

text \<open>A stream to a remote Unix socket: the payload is the path, an empty string and a number, in the wire format.\<close>

definition wire_string :: "bytes \<Rightarrow> bytes" where
  "wire_string b = PutUint32 BigEndian (word_of_nat (length b)) @ b"

definition streamLocalPayload :: "bytes \<Rightarrow> bytes" where
  "streamLocalPayload path = wire_string path @ wire_string [] @ PutUint32 BigEndian 0"

definition DialUnix :: "bool \<Rightarrow> bool \<Rightarrow> (bytes \<Rightarrow> bytes \<Rightarrow> ssh_error + nat) \<Rightarrow> bytes \<Rightarrow> (ssh_error + nat) \<times> nat list" where
  "DialUnix live ended openc remoteSocketPath =
    (if \<not> live then (Inl ErrSSHClosed, [])
     else
      (let res = openc ''direct-streamlocal@openssh.com'' (streamLocalPayload remoteSocketPath)
       in if ended then (Inl (ErrOther 2), case res of Inl _ \<Rightarrow> [] | Inr ch \<Rightarrow> [ch])
          else (case res of Inl _ \<Rightarrow> Inl (ErrOther 4) | Inr ch \<Rightarrow> Inr ch, [])))"

section \<open>The life of a client\<close>

text \<open>The shared state: the closed flag, whether the keep-alive context is cancelled and its loop runs, the cached SFTP client, all SFTP
  clients made and closed, how often the connection was closed, the callers of \<^verbatim>\<open>GetSftp\<close> that wait for the lock, and how far
  the one closing caller is.\<close>

datatype closing = NotClosing | FlagSet | SftpShut | Closed

record life =
  l_closed :: bool
  l_cancelled :: bool
  l_alive :: bool
  l_sftp :: "nat option"
  l_made :: nat
  l_shut :: "nat set"
  l_conn_closes :: nat
  l_waiting :: nat
  l_closing :: closing

definition life_start :: life where
  "life_start = \<lparr>l_closed = False, l_cancelled = False, l_alive = True, l_sftp = None, l_made = 0, l_shut = {}, l_conn_closes = 0,
     l_waiting = 0, l_closing = NotClosing\<rparr>"

text \<open>The part of \<^verbatim>\<open>GetSftp\<close> under the lock; starting the SFTP session may fail.\<close>

definition get_sftp_locked :: "bool \<Rightarrow> life \<Rightarrow> life" where
  "get_sftp_locked session_ok s =
    (let s = s\<lparr>l_waiting := l_waiting s - 1\<rparr> in
     case l_sftp s of
       Some _ \<Rightarrow> s
     | None \<Rightarrow> if session_ok then s\<lparr>l_sftp := Some (l_made s), l_made := Suc (l_made s)\<rparr> else s)"

text \<open>The three parts of \<^verbatim>\<open>Close\<close>: taking the flag and cancelling, closing the SFTP client under the lock, closing the connection.\<close>

definition close_flag :: "life \<Rightarrow> life" where
  "close_flag s = s\<lparr>l_closed := True, l_cancelled := True, l_closing := FlagSet\<rparr>"

definition close_sftp :: "life \<Rightarrow> life" where
  "close_sftp s =
    (case l_sftp s of
       None \<Rightarrow> s\<lparr>l_closing := SftpShut\<rparr>
     | Some k \<Rightarrow> s\<lparr>l_sftp := None, l_shut := insert k (l_shut s), l_closing := SftpShut\<rparr>)"

definition close_conn :: "life \<Rightarrow> life" where
  "close_conn s = s\<lparr>l_conn_closes := Suc (l_conn_closes s), l_closing := Closed\<rparr>"

inductive life_step :: "life \<Rightarrow> life \<Rightarrow> bool" where
  ls_get: "\<not> l_closed s \<Longrightarrow> life_step s (s\<lparr>l_waiting := Suc (l_waiting s)\<rparr>)"
| ls_locked: "l_waiting s > 0 \<Longrightarrow> (l_conn_closes s = 0 \<or> \<not> session_ok) \<Longrightarrow> life_step s (get_sftp_locked session_ok s)"
| ls_close: "\<not> l_closed s \<Longrightarrow> life_step s (close_flag s)"
| ls_close_again: "l_closed s \<Longrightarrow> life_step s s"
| ls_close_sftp: "l_closing s = FlagSet \<Longrightarrow> life_step s (close_sftp s)"
| ls_close_conn: "l_closing s = SftpShut \<Longrightarrow> life_step s (close_conn s)"
| ls_keepalive_fails: "l_alive s \<Longrightarrow> \<not> l_closed s \<Longrightarrow> life_step s (close_flag (s\<lparr>l_alive := False\<rparr>))"
| ls_keepalive_ends: "l_alive s \<Longrightarrow> l_cancelled s \<or> l_closed s \<Longrightarrow> life_step s (s\<lparr>l_alive := False\<rparr>)"

definition life_inv :: "life \<Rightarrow> bool" where
  "life_inv s \<longleftrightarrow> (l_closed s \<longleftrightarrow> l_closing s \<noteq> NotClosing) \<and> l_cancelled s = l_closed s \<and>
    l_conn_closes s = (if l_closing s = Closed then 1 else 0) \<and>
    {k. k < l_made s} - l_shut s = set_option (l_sftp s) \<and> l_shut s \<subseteq> {k. k < l_made s} \<and>
    (\<not> l_alive s \<longrightarrow> l_closed s)"

interpretation life: invariant_system "\<lambda>s. s = life_start" life_step life_inv
proof
  fix s t assume inv: "life_inv s" and "life_step s t"
  from this(2) show "life_inv t"
  proof cases
    case (ls_locked session_ok)
    have "l_made s \<notin> l_shut s" using inv by (auto simp: life_inv_def)
    then show ?thesis using inv ls_locked by (auto simp: life_inv_def get_sftp_locked_def Let_def less_Suc_eq split: option.splits)
  next
    case ls_close_sftp
    then show ?thesis using inv by (auto simp: life_inv_def close_sftp_def split: option.splits)
  qed (use inv in \<open>auto simp: life_inv_def close_flag_def close_conn_def split: if_splits\<close>)
qed (auto simp: life_inv_def life_start_def)

section \<open>Lemmas\<close>

definition env_pairs :: "bytes list \<Rightarrow> (bytes \<times> bytes) list" where
  "env_pairs vs = map (\<lambda>v. (fst (Cut v ''=''), fst (snd (Cut v ''='')))) (filter (\<lambda>v. snd (snd (Cut v ''=''))) vs)"

lemma send_env_all:
  "list_all (\<lambda>(k, v). accepts k) (env_pairs vs) \<Longrightarrow> send_env accepts vs = (map (\<lambda>(k, v). Setenv k v) (env_pairs vs), None)"
  by (induction vs) (auto simp: env_pairs_def split: prod.splits if_splits)

lemma send_env_refused:
  "\<not> list_all (\<lambda>(k, v). accepts k) (env_pairs vs) \<Longrightarrow> snd (send_env accepts vs) = Some ErrCommandInitFailed"
  by (induction vs) (auto simp: env_pairs_def split: prod.splits if_splits)

lemma send_env_no_exec: "Exec k b \<notin> set (fst (send_env accepts vs))"
  by (induction vs) (auto split: prod.splits)

text \<open>A command run several times, with the requests made on its session and the results.\<close>

fun run_many ::
  "(bytes \<Rightarrow> bool) \<Rightarrow> (request_kind \<times> bool \<times> (ssh_error + bytes)) list \<Rightarrow> Cmd \<Rightarrow> session_event list \<times> (ssh_error + bytes) list" where
  "run_many accepts [] c = ([], [])"
| "run_many accepts ((k, ended, res) # rs) c =
    (case runInContext accepts ended k res c of (r, es, c') \<Rightarrow> (case run_many accepts rs c' of (es', rs') \<Rightarrow> (es @ es', r # rs')))"

definition run_result :: "Cmd \<Rightarrow> bool \<times> (ssh_error + bytes) \<Rightarrow> ssh_error + bytes" where
  "run_result c x = (if cm_cancelable c \<and> fst x then Inl (ErrOther 2) else snd x)"

definition run_events :: "Cmd \<Rightarrow> request_kind \<times> bool \<times> (ssh_error + bytes) \<Rightarrow> session_event list" where
  "run_events c x = [Exec (fst x) (cmd_String c)] @ (if cm_cancelable c \<and> fst (snd x) then terminate c else [])"

lemma run_many_started:
  "cm_initOnce c \<Longrightarrow> run_many accepts rs c = (concat (map (run_events c) rs), map (\<lambda>x. run_result c (snd x)) rs)"
  by (induction accepts rs c rule: run_many.induct) (auto simp: runInContext_def cmd_init_def run_events_def run_result_def split: prod.splits)

lemma run_many_refused:
  assumes "\<not> list_all (\<lambda>(k, v). accepts k) (env_pairs (cm_Env c))" and "\<not> cm_initOnce c"
  shows "(\<forall>k b. Exec k b \<notin> set (fst (run_many accepts rs c))) \<and> list_all (\<lambda>r. r = Inl ErrCommandInitFailed) (snd (run_many accepts rs c))"
proof -
  obtain es where e: "send_env accepts (cm_Env c) = (es, Some ErrCommandInitFailed)"
    using send_env_refused [OF assms(1)] by (cases "send_env accepts (cm_Env c)") auto
  then have n: "Exec k b \<notin> set es" for k b using send_env_no_exec [of k b accepts "cm_Env c"] by simp
  have r: "runInContext accepts ended k res c = (Inl ErrCommandInitFailed, es, c)" for ended k res
    using e assms(2) by (simp add: runInContext_def cmd_init_def)
  show ?thesis
  proof (induction rs)
    case (Cons x rs)
    obtain k ended res where x: "x = (k, ended, res)" by (cases x) auto
    show ?case using Cons n by (auto simp: x r split: prod.splits)
  qed simp
qed

section \<open>Properties\<close>

text \<open>The environment of a remote command.  However often and in whatever way a command is run, its variables of the form
  name=value are sent once, in order, before the first execution, and every run executes the same command line; a run whose
  context ends first interrupts the command.  If the server refuses one of the variables, nothing is ever executed and every
  run fails with the initialisation error.\<close>
theorem command_environment:
  assumes "\<not> cm_initOnce c" and "rs \<noteq> []"
  shows "(if list_all (\<lambda>(k, v). accepts k) (env_pairs (cm_Env c))
     then run_many accepts rs c =
       (map (\<lambda>(k, v). Setenv k v) (env_pairs (cm_Env c)) @ concat (map (run_events c) rs), map (\<lambda>x. run_result c (snd x)) rs)
     else (\<forall>k b. Exec k b \<notin> set (fst (run_many accepts rs c))) \<and> list_all (\<lambda>r. r = Inl ErrCommandInitFailed) (snd (run_many accepts rs c)))"
proof (cases "list_all (\<lambda>(k, v). accepts k) (env_pairs (cm_Env c))")
  case True
  obtain x xs where rs: "rs = x # xs" using assms(2) by (cases rs) auto
  obtain k ended res where x: "x = (k, ended, res)" by (cases x) auto
  let ?c = "c\<lparr>cm_initOnce := True\<rparr>"
  have same: "cmd_String ?c = cmd_String c" "run_events ?c = run_events c" "run_result ?c = run_result c" "terminate ?c = terminate c"
    by (auto simp: cmd_String_def run_events_def run_result_def terminate_def fun_eq_iff)
  have "runInContext accepts ended k res c =
      (run_result c (ended, res), map (\<lambda>(k, v). Setenv k v) (env_pairs (cm_Env c)) @ run_events c (k, ended, res), ?c)"
    using assms(1) send_env_all [OF True] same by (simp add: runInContext_def cmd_init_def run_result_def run_events_def)
  then show ?thesis using True run_many_started [of ?c accepts xs] same by (simp add: rs x)
next
  case False
  then show ?thesis using run_many_refused [OF False assms(1)] by simp
qed

definition example_cmd :: Cmd where
  "example_cmd = \<lparr>cm_Path = ''ls'', cm_Args = [], cm_Env = [''A=1'', ''B''], cm_cmdStr = ''ls'', cm_Stdin = None, cm_Stdout = None, cm_Stderr = None,
     cm_Cancel = False, cm_cancelable = True, cm_initOnce = False\<rparr>"

theorem command_environment_witness:
  "fst (run_many (\<lambda>_. True) [(RunReq, False, Inr []), (OutputReq, True, Inr [])] example_cmd) =
    [Setenv ''A'' ''1'', Exec RunReq ''ls'', Exec OutputReq ''ls'', Interrupt]"
  using command_environment [of example_cmd "[(RunReq, False, Inr []), (OutputReq, True, Inr [])]" "\<lambda>_. True"]
  by (simp add: example_cmd_def env_pairs_def Cut_def run_events_def cmd_String_def terminate_def)

text \<open>The life of a client.  In every state that callers of \<^verbatim>\<open>GetSftp\<close> and \<^verbatim>\<open>Close\<close> and the keep-alive loop reach together, at most one
  SFTP client is open, the cached one; the connection is closed at most once, exactly once when \<^verbatim>\<open>Close\<close> has returned, also when
  several callers and the keep-alive loop close at the same time; and the keep-alive loop ends only when the client is closed.\<close>
theorem client_life:
  "reach (\<lambda>s. s = life_start) life_step s \<Longrightarrow>
     {k. k < l_made s} - l_shut s = set_option (l_sftp s) \<and> l_conn_closes s = (if l_closing s = Closed then 1 else 0) \<and>
     (l_closed s \<longleftrightarrow> l_closing s \<noteq> NotClosing) \<and> (\<not> l_alive s \<longrightarrow> l_closed s)"
  using life.reach_inv [of s] by (auto simp: life_inv_def)

text \<open>A caller of \<^verbatim>\<open>GetSftp\<close> that passed the check before the flag was set makes an SFTP client between the two later parts of
  \<^verbatim>\<open>Close\<close>, which never closes it.\<close>

definition late_sftp :: life where
  "late_sftp = \<lparr>l_closed = True, l_cancelled = True, l_alive = True, l_sftp = Some 0, l_made = 1, l_shut = {}, l_conn_closes = 1, l_waiting = 0,
     l_closing = Closed\<rparr>"

lemma sftp_outlives_close: "reach (\<lambda>s. s = life_start) life_step late_sftp"
proof -
  let ?s1 = "life_start\<lparr>l_waiting := 1\<rparr>"
  have "life_step life_start ?s1" using ls_get [of life_start] by (simp add: life_start_def)
  moreover have "life_step ?s1 (close_flag ?s1)" by (rule ls_close) (simp add: life_start_def)
  moreover have "life_step (close_flag ?s1) (close_sftp (close_flag ?s1))" by (rule ls_close_sftp) (simp add: close_flag_def)
  moreover have "life_step (close_sftp (close_flag ?s1)) (get_sftp_locked True (close_sftp (close_flag ?s1)))"
    by (rule ls_locked) (simp_all add: life_start_def close_flag_def close_sftp_def)
  moreover have "life_step (get_sftp_locked True (close_sftp (close_flag ?s1))) (close_conn (get_sftp_locked True (close_sftp (close_flag ?s1))))"
    by (rule ls_close_conn) (simp add: life_start_def close_flag_def close_sftp_def get_sftp_locked_def)
  moreover have "close_conn (get_sftp_locked True (close_sftp (close_flag ?s1))) = late_sftp"
    by (simp add: life_start_def close_flag_def close_sftp_def get_sftp_locked_def close_conn_def late_sftp_def)
  ultimately show ?thesis using reach_init [of "\<lambda>s. s = life_start"] by (metis reach_step)
qed

theorem client_life_witness: "{k. k < l_made life_start} - l_shut life_start = set_option (l_sftp life_start)"
  using client_life [of life_start, OF reach_init] by simp

text \<open>The text given to \<^verbatim>\<open>Run\<close> is not quoted: the remote shell splits it, and \<^verbatim>\<open>sh -c\<close> runs its first word only.\<close>

lemma run_splits_command:
  "\<exists>cmd. snd (Run_command True True True (new_client [] []) False (\<lambda>_. True) False (Inr []) ''echo hi'') = [Exec CombinedOutputReq cmd] \<and>
     sh_words False None cmd = Some [''/bin/sh'', ''-c'', ''echo'', ''hi'']"
  by (simp add: Run_command_def Command_def CombinedOutput_def runInContext_def cmd_init_def cmd_String_def new_client_def Let_def
      sh_special_def is_digit_def is_upper_def is_lower_def byte_eval)

text \<open>The interpreter asked for with \<^verbatim>\<open>WithPath\<close> is not the one that runs.\<close>

lemma script_path_ignored:
  "\<exists>cmd es. Script True True True (new_client [] []) False None [Some (WithPath ''/bin/bash'')] = (Inr cmd, es) \<and> cmd_String cmd = ''/bin/sh''"
  by (simp add: Script_def Command_def WithPath_def cmd_String_def new_client_def Let_def)

text \<open>The lines of a stream are those of the text between newlines, up to the end of the context.\<close>

lemma scanLines_newline:
  "CHR 0x0A \<notin> set l \<Longrightarrow> scanLines None (l @ CHR 0x0A # s) = trim_newlines (l @ [CHR 0x0A]) # scanLines None s"
  by (subst scanLines.simps) (simp add: IndexByte_append)

lemma scanLines_lines:
  "list_all (\<lambda>l. CHR 0x0A \<notin> set l \<and> (l = [] \<or> last l \<noteq> CHR 0x0D)) ls \<Longrightarrow> scanLines None (concat (map (\<lambda>l. l @ [CHR 0x0A]) ls)) = ls"
proof (induction ls)
  case Nil
  then show ?case by (subst scanLines.simps) simp
next
  case (Cons l ls)
  have "trim_newlines (l @ [CHR 0x0A]) = l" using Cons.prems by (cases l rule: rev_cases) (auto simp: trim_newlines_def)
  then show ?case using Cons scanLines_newline [of l] by simp
qed

lemma scanLines_take: "scanLines (Some k) s = take k (scanLines None s)"
proof (induction "length s" arbitrary: s k rule: less_induct)
  case less
  show ?case
  proof (cases "IndexByte s (CHR 0x0A)")
    case None
    then show ?thesis by (subst (1 2) scanLines.simps) (cases k; simp)
  next
    case (Some i)
    then have "i < length s" by (simp add: IndexByte_Some_iff)
    then have "scanLines (Some (k - 1)) (drop (Suc i) s) = take (k - 1) (scanLines None (drop (Suc i) s))" using less [of "drop (Suc i) s"] by simp
    then show ?thesis using Some by (cases k) (simp_all add: scanLines.simps [of _ s])
  qed
qed

text \<open>A dial whose context ends first leaves the connection it makes open: nobody is given it, nobody closes it.\<close>

lemma cancelled_dial_leaks: "dial netw a = Inr conn \<Longrightarrow> DialContext True True dial netw a = (Inl (ErrOther 2), [conn])"
  by (simp add: DialContext_def)

end
