(* ===== verification/SSH_Reverse.thy ===== *)
theory SSH_Reverse
  imports SSH_Client
begin

text \<open>
  Package \<^verbatim>\<open>ssh/reverse\<close>, file \<^verbatim>\<open>src/ssh/reverse/client.go\<close>: exposing a local address through a reverse tunnel.  Each turn of the reconnection
  loop is given by what its session meets and by when the context ends; times are nanoseconds.
\<close>

section \<open>client.go\<close>

record reverse_config =
  rc_ServerAddr :: bytes
  rc_LocalAddr :: bytes
  rc_Subdomain :: bytes
  rc_User :: bytes
  rc_Insecure :: bool
  rc_Timeout :: int

text \<open>A configuration without an SSH configuration gets one that accepts every host key.\<close>

definition ExposeLocal_config :: "bytes \<Rightarrow> bytes \<Rightarrow> bytes \<Rightarrow> (bytes \<times> bool \<times> int) option \<Rightarrow> reverse_config" where
  "ExposeLocal_config server localAddr subdomain ssh =
    (let (user, insecure, timeout) = (case ssh of None \<Rightarrow> (''aoni'', True, 10 * 10 ^ 9) | Some c \<Rightarrow> c)
     in \<lparr>rc_ServerAddr = server, rc_LocalAddr = (if localAddr = [] then ''127.0.0.1:8080'' else localAddr), rc_Subdomain = subdomain,
         rc_User = user, rc_Insecure = insecure, rc_Timeout = timeout\<rparr>)"

definition tcpipForwardMsg :: "bytes \<Rightarrow> 32 word \<Rightarrow> bytes" where
  "tcpipForwardMsg addr rport = wire_string addr @ PutUint32 BigEndian rport"

text \<open>What a session meets: the dial, the handshake, the answer to the forwarding request (accepted, or an error), then channels until the
  server closes or the context ends.\<close>

datatype channel_event = NewChannel | ServerClosed | ContextDone

record session_env =
  sv_dial :: bool
  sv_handshake :: bool
  sv_forward :: "bytes \<Rightarrow> bool \<times> bool"
  sv_events :: "channel_event list"

datatype session_result = SessionError | SessionClosed | SessionDone | SessionRuns

fun channel_loop :: "channel_event list \<Rightarrow> nat \<times> session_result" where
  "channel_loop [] = (0, SessionRuns)"
| "channel_loop (NewChannel # es) = (case channel_loop es of (n, r) \<Rightarrow> (Suc n, r))"
| "channel_loop (ServerClosed # es) = (0, SessionClosed)"
| "channel_loop (ContextDone # es) = (0, SessionDone)"

definition runSingleClientSession :: "session_env \<Rightarrow> reverse_config \<Rightarrow> nat \<times> session_result" where
  "runSingleClientSession en cfg =
    (if \<not> sv_dial en then (0, SessionError)
     else if \<not> sv_handshake en then (0, SessionError)
     else case sv_forward en (tcpipForwardMsg (rc_Subdomain cfg) 80) of
            (ok, err) \<Rightarrow> if err \<or> \<not> ok then (0, SessionError) else channel_loop (sv_events en))"

text \<open>One turn of the loop: whether the context is done before it, after the session and while waiting, and the session.\<close>

record turn =
  tn_before :: bool
  tn_session :: session_env
  tn_after :: bool
  tn_waiting :: bool

abbreviation second :: int where "second \<equiv> 10 ^ 9"

text \<open>The waits and whether the loop has returned.\<close>

fun runClientLoop :: "reverse_config \<Rightarrow> int \<Rightarrow> turn list \<Rightarrow> int list \<times> bool" where
  "runClientLoop cfg backoff [] = ([], False)"
| "runClientLoop cfg backoff (t # ts) =
    (if tn_before t then ([], True)
     else
      (let r = snd (runSingleClientSession (tn_session t) cfg) in
       if tn_after t \<or> r = SessionDone then ([], True)
       else if r = SessionError then
         (if tn_waiting t then ([backoff], True)
          else case runClientLoop cfg (min (backoff * 2) (30 * second)) ts of (ws, b) \<Rightarrow> (backoff # ws, b))
       else runClientLoop cfg second ts))"

definition ExposeLocal :: "reverse_config \<Rightarrow> turn list \<Rightarrow> int list \<times> bool" where
  "ExposeLocal cfg ts = runClientLoop cfg second ts"

text \<open>Copying one way: the reads, each with the bytes it gives and whether it fails, to a writer that takes \<open>k\<close> bytes.\<close>

fun proxyPipeWithBuf :: "(bytes \<times> bool) list \<Rightarrow> nat option \<Rightarrow> bytes" where
  "proxyPipeWithBuf [] k = []"
| "proxyPipeWithBuf ((b, err) # rs) k =
    (let room = (case k of None \<Rightarrow> length b | Some n \<Rightarrow> min n (length b)) in
     if room < length b then take room b
     else b @ (if err then [] else proxyPipeWithBuf rs (map_option (\<lambda>n. n - length b) k)))"

text \<open>A channel is copied both ways when it is accepted and the local address answers.\<close>

definition handleForwardedChannel ::
  "bool \<Rightarrow> bool \<Rightarrow> (bytes \<times> bool) list \<Rightarrow> (bytes \<times> bool) list \<Rightarrow> nat option \<Rightarrow> nat option \<Rightarrow> (bytes \<times> bytes) option" where
  "handleForwardedChannel accepted dialled fromChannel fromLocal kLocal kChannel =
    (if \<not> accepted then None
     else if \<not> dialled then None
     else Some (proxyPipeWithBuf fromChannel kLocal, proxyPipeWithBuf fromLocal kChannel))"

section \<open>Lemmas\<close>

definition failing :: "reverse_config \<Rightarrow> turn \<Rightarrow> bool" where
  "failing cfg t \<longleftrightarrow> \<not> tn_before t \<and> \<not> tn_after t \<and> \<not> tn_waiting t \<and> snd (runSingleClientSession (tn_session t) cfg) = SessionError"

text \<open>The wait after \<open>i\<close> failures in a row.\<close>

definition nth_wait :: "nat \<Rightarrow> int" where
  "nth_wait i = min (2 ^ i) 30 * second"

lemma nth_wait_next: "min (nth_wait i * 2) 30000000000 = nth_wait (Suc i)"
  by (simp add: nth_wait_def min_def)

lemma failures_wait:
  "list_all (failing cfg) ts \<Longrightarrow> runClientLoop cfg (nth_wait i) (ts @ us) =
     (case runClientLoop cfg (nth_wait (i + length ts)) us of (ws, b) \<Rightarrow> (map nth_wait [i..<i + length ts] @ ws, b))"
proof (induction ts arbitrary: i)
  case (Cons t ts)
  have "runClientLoop cfg (nth_wait i) ((t # ts) @ us) = (case runClientLoop cfg (nth_wait (Suc i)) (ts @ us) of (ws, b) \<Rightarrow> (nth_wait i # ws, b))"
    using Cons.prems by (simp add: failing_def nth_wait_next)
  moreover have "runClientLoop cfg (nth_wait (Suc i)) (ts @ us) =
      (case runClientLoop cfg (nth_wait (i + length (t # ts))) us of (ws, b) \<Rightarrow> (map nth_wait [Suc i..<i + length (t # ts)] @ ws, b))"
    using Cons.IH [of "Suc i"] Cons.prems by simp
  moreover have "[i..<i + length (t # ts)] = i # [Suc i..<i + length (t # ts)]" by (simp add: upt_conv_Cons del: upt_Suc)
  ultimately show ?case by (simp only: list.map append_Cons split: prod.split) simp
qed simp

lemma waits_bounded:
  "second \<le> b \<Longrightarrow> b \<le> 30 * second \<Longrightarrow> w \<in> set (fst (runClientLoop cfg b ts)) \<Longrightarrow> second \<le> w \<and> w \<le> 30 * second"
proof (induction cfg b ts rule: runClientLoop.induct)
  case (2 cfg b t ts)
  then show ?case by (auto simp: Let_def split: if_splits prod.splits)
qed simp

section \<open>Properties\<close>

text \<open>The reconnection delays of a reverse tunnel.  In every run each wait is between one and thirty seconds; the failures of the first
  turns are followed by waits of 1, 2, 4, 8, 16 and then 30 seconds, and the same sequence starts again after every session that was
  established.\<close>
theorem reverse_backoff:
  assumes "list_all (failing cfg) ts" and "list_all (failing cfg) us" and "\<not> tn_before t" and "\<not> tn_after t"
    and "snd (runSingleClientSession (tn_session t) cfg) = SessionClosed"
  shows "fst (ExposeLocal cfg (ts @ t # us)) = map nth_wait [0..<length ts] @ map nth_wait [0..<length us] \<and>
    (\<forall>vs. \<forall>w \<in> set (fst (ExposeLocal cfg vs)). second \<le> w \<and> w \<le> 30 * second)"
proof -
  have s: "nth_wait 0 = second" by (simp add: nth_wait_def)
  have u: "runClientLoop cfg second us = (map nth_wait [0..<length us], False)"
    using failures_wait [OF assms(2), of 0 "[]"] by (simp add: s)
  then have "runClientLoop cfg b (t # us) = (map nth_wait [0..<length us], False)" for b using assms(3-5) by simp
  then have "fst (ExposeLocal cfg (ts @ t # us)) = map nth_wait [0..<length ts] @ map nth_wait [0..<length us]"
    using failures_wait [OF assms(1), of 0 "t # us"] by (simp add: ExposeLocal_def s)
  moreover have "\<forall>vs. \<forall>w \<in> set (fst (ExposeLocal cfg vs)). second \<le> w \<and> w \<le> 30 * second"
    using waits_bounded [of second] by (simp add: ExposeLocal_def)
  ultimately show ?thesis by blast
qed

definition turn_with :: "bool \<Rightarrow> turn" where
  "turn_with dial = \<lparr>tn_before = False,
     tn_session = \<lparr>sv_dial = dial, sv_handshake = True, sv_forward = (\<lambda>_. (True, False)), sv_events = [ServerClosed]\<rparr>,
     tn_after = False, tn_waiting = False\<rparr>"

theorem reverse_backoff_witness:
  "fst (ExposeLocal (ExposeLocal_config ''s'' [] ''d'' None) ([turn_with False, turn_with False] @ turn_with True # [turn_with False])) =
     map nth_wait [0..<2] @ map nth_wait [0..<1]"
  using reverse_backoff [of "ExposeLocal_config ''s'' [] ''d'' None" "[turn_with False, turn_with False]" "[turn_with False]" "turn_with True"]
  by (simp add: failing_def turn_with_def runSingleClientSession_def numeral_2_eq_2)

text \<open>A session that was established and dropped is followed by the next attempt at once: with a server that drops every session the loop
  never waits.\<close>

lemma dropped_sessions_spin: "runClientLoop cfg b (replicate n (turn_with True)) = ([], False)"
  by (induction n arbitrary: b) (simp_all add: turn_with_def runSingleClientSession_def)

text \<open>What arrives is everything that was read, as long as the writer takes it.\<close>

lemma pipe_delivers: "list_all (\<lambda>r. \<not> snd r) rs \<Longrightarrow> proxyPipeWithBuf rs None = concat (map fst rs)"
  by (induction rs) (auto simp: Let_def)

end
