(* ===== verification/SSH_CA.thy ===== *)
theory SSH_CA
  imports SSH_Hosts Go_Base64 Go_Clock Go_Time Go_Strconv
begin

text \<open>
  Package \<^verbatim>\<open>ssh/ca\<close>, files \<^verbatim>\<open>src/ssh/ca/ca.go\<close>, \<^verbatim>\<open>options.go\<close>, \<^verbatim>\<open>oidc.go\<close> and \<^verbatim>\<open>errors.go\<close>: a certificate authority.  Keys and their encodings, the signature
  of a certificate (\<open>sign\<close>), JSON (\<open>unjson\<close>, whose numbers are given by their integral part) and the clock are arguments.
\<close>

section \<open>Data\<close>

datatype ca_error =
    ErrInvalidCAKey
  | ErrInvalidPublicKey
  | ErrCertExpired
  | ErrInvalidOIDCToken
  | ErrMissingOIDCClaim
  | CASign
  | CAFile
  | CAGenerate

record 'k CA =
  ca_Signer :: 'k
  ca_serial :: "64 word"

type_synonym string_map = "(bytes \<rightharpoonup> bytes) option"

record IssueConfig =
  ic_TTL :: int
  ic_Principals :: "bytes list"
  ic_Extensions :: string_map
  ic_CriticalOptions :: string_map
  ic_KeyID :: bytes
  ic_Serial :: "64 word"

type_synonym IssueOption = "IssueConfig \<Rightarrow> IssueConfig"

datatype cert_type = UserCert | HostCert

record 'p certificate =
  ce_Key :: 'p
  ce_Serial :: "64 word"
  ce_CertType :: cert_type
  ce_KeyId :: bytes
  ce_ValidPrincipals :: "bytes list"
  ce_ValidAfter :: "64 word"
  ce_ValidBefore :: "64 word"
  ce_CriticalOptions :: string_map
  ce_Extensions :: string_map

section \<open>options.go\<close>

definition DefaultIssueConfig :: IssueConfig where
  "DefaultIssueConfig =
    \<lparr>ic_TTL = 8 * 3600 * 10 ^ 9, ic_Principals = [],
     ic_Extensions = Some [''permit-agent-forwarding'' \<mapsto> [], ''permit-pty'' \<mapsto> [], ''permit-user-rc'' \<mapsto> [], ''permit-X11-forwarding'' \<mapsto> []],
     ic_CriticalOptions = Some Map.empty, ic_KeyID = [], ic_Serial = 0\<rparr>"

definition WithTTL :: "int \<Rightarrow> IssueOption" where
  "WithTTL d cfg = (if d > 0 then cfg\<lparr>ic_TTL := d\<rparr> else cfg)"

definition WithPrincipals :: "bytes list \<Rightarrow> IssueOption" where
  "WithPrincipals principals cfg = cfg\<lparr>ic_Principals := ic_Principals cfg @ principals\<rparr>"

definition copy_map :: "string_map \<Rightarrow> (bytes \<rightharpoonup> bytes) \<Rightarrow> string_map" where
  "copy_map old new = Some ((case old of None \<Rightarrow> Map.empty | Some m \<Rightarrow> m) ++ new)"

definition WithExtensions :: "(bytes \<rightharpoonup> bytes) \<Rightarrow> IssueOption" where
  "WithExtensions exts cfg = cfg\<lparr>ic_Extensions := copy_map (ic_Extensions cfg) exts\<rparr>"

definition WithCriticalOptions :: "(bytes \<rightharpoonup> bytes) \<Rightarrow> IssueOption" where
  "WithCriticalOptions opts cfg = cfg\<lparr>ic_CriticalOptions := copy_map (ic_CriticalOptions cfg) opts\<rparr>"

definition WithKeyID :: "bytes \<Rightarrow> IssueOption" where
  "WithKeyID kid cfg = cfg\<lparr>ic_KeyID := kid\<rparr>"

definition WithSerial :: "64 word \<Rightarrow> IssueOption" where
  "WithSerial serial cfg = cfg\<lparr>ic_Serial := serial\<rparr>"

section \<open>ca.go\<close>

definition NewCA :: "gotime \<Rightarrow> 'k \<Rightarrow> 'k CA" where
  "NewCA now signer = \<lparr>ca_Signer = signer, ca_serial = word_of_int (UnixNano now)\<rparr>"

definition NewCAFromPEM :: "'k key_lib \<Rightarrow> gotime \<Rightarrow> bytes \<Rightarrow> bytes \<Rightarrow> ca_error + 'k CA" where
  "NewCAFromPEM L now keyPEM passphrase =
    (case ParseKey L keyPEM passphrase of Inl _ \<Rightarrow> Inl ErrInvalidCAKey | Inr signer \<Rightarrow> Inr (NewCA now signer))"

definition NewCAFromFile :: "'k key_lib \<Rightarrow> (bytes \<rightharpoonup> bytes) \<Rightarrow> gotime \<Rightarrow> bytes \<Rightarrow> bytes \<Rightarrow> ca_error + 'k CA" where
  "NewCAFromFile L files now path passphrase =
    (case files path of None \<Rightarrow> Inl CAFile | Some pemBytes \<Rightarrow> NewCAFromPEM L now pemBytes passphrase)"

text \<open>The generated key and its PEM encoding, if they can be made.\<close>

definition GenerateCA :: "'k key_lib \<Rightarrow> bytes option \<Rightarrow> gotime \<Rightarrow> ca_error + 'k CA \<times> bytes" where
  "GenerateCA L pem now =
    (case pem of
       None \<Rightarrow> Inl CAGenerate
     | Some pemBytes \<Rightarrow> (case kl_parse L pemBytes of None \<Rightarrow> Inl ErrInvalidCAKey | Some signer \<Rightarrow> Inr (NewCA now signer, pemBytes)))"

definition apply_opts :: "IssueOption option list \<Rightarrow> IssueConfig \<Rightarrow> IssueConfig" where
  "apply_opts opts cfg = fold (\<lambda>opt cfg. case opt of None \<Rightarrow> cfg | Some f \<Rightarrow> f cfg) opts cfg"

text \<open>The whole seconds of a lifetime, at the precision of a \<^verbatim>\<open>float64\<close>; the options of the package make no lifetime negative.\<close>

definition lifetime :: "IssueConfig \<Rightarrow> 64 word" where
  "lifetime cfg = word_of_nat (whole_units Go_Time.Second (nat (ic_TTL cfg)))"

definition next_serial :: "IssueConfig \<Rightarrow> 'k CA \<Rightarrow> 64 word \<times> 'k CA" where
  "next_serial cfg ca =
    (if ic_Serial cfg = 0 then (ca_serial ca + 1, ca\<lparr>ca_serial := ca_serial ca + 1\<rparr>) else (ic_Serial cfg, ca))"

definition key_id :: "bytes \<Rightarrow> bytes \<Rightarrow> 64 word \<Rightarrow> IssueConfig \<Rightarrow> bytes" where
  "key_id pre name now cfg = (if ic_KeyID cfg = [] then pre @ name @ ''-'' @ format_nat (unat now) else ic_KeyID cfg)"

definition IssueUserCert ::
  "('k \<Rightarrow> 'p certificate \<Rightarrow> bool) \<Rightarrow> gotime \<Rightarrow> 'p option \<Rightarrow> bytes \<Rightarrow> IssueOption option list \<Rightarrow> 'k CA \<Rightarrow> (ca_error + 'p certificate) \<times> 'k CA" where
  "IssueUserCert sign t userKey username opts ca =
    (case userKey of
       None \<Rightarrow> (Inl ErrInvalidPublicKey, ca)
     | Some key \<Rightarrow>
         (let cfg = DefaultIssueConfig;
              cfg = (if username \<noteq> [] then cfg\<lparr>ic_Principals := [username]\<rparr> else cfg);
              cfg = apply_opts opts cfg;
              now = word_of_int (Time_Unix t);
              (serial, ca) = next_serial cfg ca;
              cert = \<lparr>ce_Key = key, ce_Serial = serial, ce_CertType = UserCert, ce_KeyId = key_id ''aoni-user-cert-'' username now cfg,
                      ce_ValidPrincipals = ic_Principals cfg, ce_ValidAfter = now - 60, ce_ValidBefore = now + lifetime cfg,
                      ce_CriticalOptions = ic_CriticalOptions cfg, ce_Extensions = ic_Extensions cfg\<rparr>
          in if sign (ca_Signer ca) cert then (Inr cert, ca) else (Inl CASign, ca)))"

definition IssueHostCert ::
  "('k \<Rightarrow> 'p certificate \<Rightarrow> bool) \<Rightarrow> gotime \<Rightarrow> 'p option \<Rightarrow> bytes \<Rightarrow> IssueOption option list \<Rightarrow> 'k CA \<Rightarrow> (ca_error + 'p certificate) \<times> 'k CA" where
  "IssueHostCert sign t hostKey hostname opts ca =
    (case hostKey of
       None \<Rightarrow> (Inl ErrInvalidPublicKey, ca)
     | Some key \<Rightarrow>
         (let cfg = DefaultIssueConfig\<lparr>ic_TTL := 365 * 24 * 3600 * 10 ^ 9, ic_Extensions := None\<rparr>;
              cfg = (if hostname \<noteq> [] then cfg\<lparr>ic_Principals := [hostname]\<rparr> else cfg);
              cfg = apply_opts opts cfg;
              now = word_of_int (Time_Unix t);
              (serial, ca) = next_serial cfg ca;
              cert = \<lparr>ce_Key = key, ce_Serial = serial, ce_CertType = HostCert, ce_KeyId = key_id ''aoni-host-cert-'' hostname now cfg,
                      ce_ValidPrincipals = ic_Principals cfg, ce_ValidAfter = now - 60, ce_ValidBefore = now + lifetime cfg,
                      ce_CriticalOptions = None, ce_Extensions = None\<rparr>
          in if sign (ca_Signer ca) cert then (Inr cert, ca) else (Inl CASign, ca)))"

text \<open>Only the public key is saved.\<close>

definition SaveCAKeys :: "('k \<Rightarrow> bytes) \<Rightarrow> bool \<Rightarrow> bool \<Rightarrow> bytes \<Rightarrow> 'k CA \<Rightarrow> ca_error option \<times> (bytes \<times> bytes) list" where
  "SaveCAKeys authorizedKey mkdir_ok write_ok dir ca =
    (if \<not> mkdir_ok then (Some CAFile, [])
     else if \<not> write_ok then (Some CAFile, [])
     else (None, [(path_Join [dir, ''ca_key.pub''], authorizedKey (ca_Signer ca))]))"

section \<open>oidc.go\<close>

record OIDCConfig =
  oc_Issuer :: bytes
  oc_ClientID :: bytes
  oc_ClaimName :: bytes

datatype claim = CText bytes | CNumber int | COther

definition parseUnverifiedJWT :: "(bytes \<Rightarrow> (bytes \<rightharpoonup> claim) option) \<Rightarrow> bytes \<Rightarrow> (bytes \<rightharpoonup> claim) option" where
  "parseUnverifiedJWT unjson tokenStr =
    (let parts = Split CHR ''.'' tokenStr in
     if length parts \<noteq> 3 then None
     else
      (let payloadSegment = parts ! 1; l = length payloadSegment mod 4;
           payloadSegment = (if l > 0 then payloadSegment @ replicate (4 - l) CHR ''='' else payloadSegment)
       in case DecodeString URLEncoding payloadSegment of None \<Rightarrow> None | Some payloadBytes \<Rightarrow> unjson payloadBytes))"

definition validateOIDCClaims :: "gotime \<Rightarrow> (bytes \<rightharpoonup> claim) \<Rightarrow> OIDCConfig \<Rightarrow> ca_error option" where
  "validateOIDCClaims t claims cfg =
    (if (case claims ''exp'' of Some (CNumber n) \<Rightarrow> Time_Unix t > n | _ \<Rightarrow> False) then Some ErrCertExpired
     else if oc_Issuer cfg \<noteq> [] \<and> (case claims ''iss'' of Some (CText s) \<Rightarrow> \<not> prefix (oc_Issuer cfg) s | _ \<Rightarrow> True) then Some ErrInvalidOIDCToken
     else None)"

definition extractUserClaim :: "(bytes \<rightharpoonup> claim) \<Rightarrow> bytes \<Rightarrow> ca_error + bytes" where
  "extractUserClaim claims claimName =
    (let targetClaim = (if claimName = [] then ''email'' else claimName);
         text = (\<lambda>n. case claims n of Some (CText s) \<Rightarrow> s | _ \<Rightarrow> [])
     in if text targetClaim = [] then
          (if targetClaim = ''email'' \<and> text ''sub'' \<noteq> [] then Inr (text ''sub'') else Inl ErrMissingOIDCClaim)
        else Inr (text targetClaim))"

definition IssueFromOIDCToken ::
  "(bytes \<Rightarrow> (bytes \<rightharpoonup> claim) option) \<Rightarrow> ('k \<Rightarrow> 'p certificate \<Rightarrow> bool) \<Rightarrow> gotime \<Rightarrow> bytes \<Rightarrow> 'p option \<Rightarrow> OIDCConfig \<Rightarrow> IssueOption option list \<Rightarrow> 'k CA \<Rightarrow>
     (ca_error + 'p certificate \<times> bytes) \<times> 'k CA" where
  "IssueFromOIDCToken unjson sign t rawIDToken userKey oidcCfg opts ca =
    (if rawIDToken = [] then (Inl ErrInvalidOIDCToken, ca)
     else case parseUnverifiedJWT unjson rawIDToken of
            None \<Rightarrow> (Inl ErrInvalidOIDCToken, ca)
          | Some claims \<Rightarrow>
              (case validateOIDCClaims t claims oidcCfg of
                 Some err \<Rightarrow> (Inl err, ca)
               | None \<Rightarrow>
                   (case extractUserClaim claims (oc_ClaimName oidcCfg) of
                      Inl err \<Rightarrow> (Inl err, ca)
                    | Inr username \<Rightarrow>
                        (case IssueUserCert sign t userKey username opts ca of
                           (Inl err, ca) \<Rightarrow> (Inl err, ca)
                         | (Inr cert, ca) \<Rightarrow> (Inr (cert, username), ca)))))"

section \<open>Issuing many certificates\<close>

text \<open>A request for a certificate: user or host, at a time, for a key and a name, with options.\<close>

record 'p issue_request =
  ir_type :: cert_type
  ir_time :: gotime
  ir_key :: "'p option"
  ir_name :: bytes
  ir_opts :: "IssueOption option list"

definition issue :: "('k \<Rightarrow> 'p certificate \<Rightarrow> bool) \<Rightarrow> 'p issue_request \<Rightarrow> 'k CA \<Rightarrow> (ca_error + 'p certificate) \<times> 'k CA" where
  "issue sign r ca =
    (case ir_type r of
       UserCert \<Rightarrow> IssueUserCert sign (ir_time r) (ir_key r) (ir_name r) (ir_opts r) ca
     | HostCert \<Rightarrow> IssueHostCert sign (ir_time r) (ir_key r) (ir_name r) (ir_opts r) ca)"

fun issue_all :: "('k \<Rightarrow> 'p certificate \<Rightarrow> bool) \<Rightarrow> 'p issue_request list \<Rightarrow> 'k CA \<Rightarrow> 'p certificate list" where
  "issue_all sign [] ca = []"
| "issue_all sign (r # rs) ca =
    (case issue sign r ca of (Inl _, ca) \<Rightarrow> issue_all sign rs ca | (Inr cert, ca) \<Rightarrow> cert # issue_all sign rs ca)"

text \<open>Options that leave the serial number alone.\<close>

definition keeps_serial :: "IssueOption option list \<Rightarrow> bool" where
  "keeps_serial opts \<longleftrightarrow> (\<forall>cfg. ic_Serial cfg = 0 \<longrightarrow> ic_Serial (apply_opts opts cfg) = 0)"

lemma library_keeps_serial:
  "ic_Serial (WithTTL d cfg) = ic_Serial cfg" "ic_Serial (WithPrincipals ps cfg) = ic_Serial cfg" "ic_Serial (WithExtensions e cfg) = ic_Serial cfg"
  "ic_Serial (WithCriticalOptions e cfg) = ic_Serial cfg" "ic_Serial (WithKeyID k cfg) = ic_Serial cfg"
  by (simp_all add: WithTTL_def WithPrincipals_def WithExtensions_def WithCriticalOptions_def WithKeyID_def)

lemma default_serial [simp]: "ic_Serial DefaultIssueConfig = 0"
  by (simp add: DefaultIssueConfig_def)

lemma issue_serial:
  assumes "keeps_serial (ir_opts r)" and "issue sign r ca = (res, ca')"
  shows "(ca' = ca \<and> res = Inl ErrInvalidPublicKey) \<or>
    (ca_serial ca' = ca_serial ca + 1 \<and> (\<forall>cert. res = Inr cert \<longrightarrow> ce_Serial cert = ca_serial ca' \<and> sign (ca_Signer ca) cert))"
proof -
  have z: "ic_Serial (apply_opts (ir_opts r) (if b then cfg\<lparr>ic_Principals := n\<rparr> else cfg)) = 0" if "ic_Serial cfg = 0" for cfg b n
    using assms(1) that unfolding keeps_serial_def by (cases b) simp_all
  show ?thesis
  proof (cases "ir_type r")
    case UserCert
    then show ?thesis using assms(2) z [of DefaultIssueConfig "ir_name r \<noteq> []" "[ir_name r]"]
      by (auto simp: issue_def IssueUserCert_def Let_def next_serial_def split: option.splits if_splits)
  next
    case HostCert
    then show ?thesis using assms(2) z [of "DefaultIssueConfig\<lparr>ic_TTL := 365 * 24 * 3600 * 10 ^ 9, ic_Extensions := None\<rparr>" "ir_name r \<noteq> []" "[ir_name r]"]
      by (auto simp: issue_def IssueHostCert_def Let_def next_serial_def split: option.splits if_splits)
  qed
qed

lemma word_gap: "0 < n \<Longrightarrow> n < 2 ^ 64 \<Longrightarrow> (a :: 64 word) + word_of_nat n \<noteq> a"
  using nat_dvd_not_less [of n "2 ^ 64"] by (simp add: word_of_nat_eq_0_iff)

lemma issue_all_serials:
  "list_all (\<lambda>r. keeps_serial (ir_opts r)) rs \<Longrightarrow> length rs < 2 ^ 64 \<Longrightarrow>
   distinct (map ce_Serial (issue_all sign rs ca)) \<and>
   (\<forall>cert \<in> set (issue_all sign rs ca). \<exists>i. 0 < i \<and> i \<le> length rs \<and> ce_Serial cert = ca_serial ca + word_of_nat i)"
proof (induction rs arbitrary: ca)
  case (Cons r rs)
  obtain res ca' where i: "issue sign r ca = (res, ca')" by fastforce
  note ser = issue_serial [OF _ i]
  have IH: "distinct (map ce_Serial (issue_all sign rs ca'))"
    "\<And>cert. cert \<in> set (issue_all sign rs ca') \<Longrightarrow> \<exists>i. 0 < i \<and> i \<le> length rs \<and> ce_Serial cert = ca_serial ca' + word_of_nat i"
    using Cons.IH [of ca'] Cons.prems by auto
  have mono: "\<exists>i. 0 < i \<and> i \<le> length (r # rs) \<and> ce_Serial cert = ca_serial ca + word_of_nat i" if c: "cert \<in> set (issue_all sign rs ca')" for cert
  proof -
    obtain i where i: "0 < i" "i \<le> length rs" "ce_Serial cert = ca_serial ca' + word_of_nat i" using IH(2) [OF c] by blast
    consider "ca' = ca" | "ca_serial ca' = ca_serial ca + 1" using ser Cons.prems(1) by auto
    then show ?thesis
    proof cases
      case 1
      then show ?thesis using i by auto
    next
      case 2
      then show ?thesis using i by (intro exI [of _ "Suc i"]) (simp add: add.assoc)
    qed
  qed
  show ?case
  proof (cases res)
    case (Inl e)
    then show ?thesis using IH(1) mono i by simp
  next
    case (Inr cert)
    then have c: "ca_serial ca' = ca_serial ca + 1" "ce_Serial cert = ca_serial ca'" using ser Cons.prems(1) by auto
    have "ce_Serial cert \<noteq> ce_Serial c'" if "c' \<in> set (issue_all sign rs ca')" for c'
      using IH(2) [OF that] word_gap [of _ "ca_serial ca'"] c(2) Cons.prems(2) by fastforce
    moreover have "\<exists>i. 0 < i \<and> i \<le> length (r # rs) \<and> ce_Serial cert = ca_serial ca + word_of_nat i"
      by (rule exI [of _ 1]) (simp add: c)
    ultimately show ?thesis using IH(1) mono i Inr by auto
  qed
qed simp

section \<open>Properties\<close>

text \<open>C39: certificates of one authority have different serial numbers.  For any sequence of fewer than \<open>2 ^ 64\<close> requests for user and host
  certificates, with any keys, names and options that do not set a serial number, the certificates issued have pairwise different
  serial numbers, also where the counter wraps around.\<close>
theorem serials_distinct:
  assumes "list_all (\<lambda>r. keeps_serial (ir_opts r)) rs" and "length rs < 2 ^ 64"
  shows "distinct (map ce_Serial (issue_all sign rs ca))"
  using issue_all_serials [OF assms] by blast

theorem serials_distinct_witness:
  "distinct (map ce_Serial (issue_all (\<lambda>_ _. True) [\<lparr>ir_type = UserCert, ir_time = time_Unix 5, ir_key = Some (1 :: nat), ir_name = ''u'', ir_opts = []\<rparr>,
     \<lparr>ir_type = HostCert, ir_time = time_Unix 6, ir_key = Some 2, ir_name = ''h'', ir_opts = []\<rparr>] \<lparr>ca_Signer = ''k'', ca_serial = - 1\<rparr>))"
  by (rule serials_distinct) (simp_all add: keeps_serial_def apply_opts_def)

text \<open>Who gets a certificate for an OIDC token.  If one is issued, the token has three parts, its middle part decodes to claims that are not
  expired (when they have an expiry) and whose issuer begins with the configured one, the user name is the configured claim, or the
  subject when it is the address and that is missing, and is not empty; the certificate is a user certificate for the key presented,
  signed by the authority, and without options its only principal is that name.\<close>
theorem oidc_certificate:
  assumes "IssueFromOIDCToken unjson sign t tok userKey cfg opts ca = (Inr (cert, user), ca')"
  shows "\<exists>h p sig claims. Split CHR ''.'' tok = [h, p, sig] \<and> parseUnverifiedJWT unjson tok = Some claims \<and>
    (\<forall>n. claims ''exp'' = Some (CNumber n) \<longrightarrow> Time_Unix t \<le> n) \<and>
    (oc_Issuer cfg \<noteq> [] \<longrightarrow> (\<exists>iss. claims ''iss'' = Some (CText iss) \<and> prefix (oc_Issuer cfg) iss)) \<and>
    (claims (if oc_ClaimName cfg = [] then ''email'' else oc_ClaimName cfg) = Some (CText user) \<or>
       (oc_ClaimName cfg = [] \<or> oc_ClaimName cfg = ''email'') \<and> claims ''sub'' = Some (CText user)) \<and> user \<noteq> [] \<and>
    userKey = Some (ce_Key cert) \<and> ce_CertType cert = UserCert \<and> sign (ca_Signer ca) cert \<and> (opts = [] \<longrightarrow> ce_ValidPrincipals cert = [user])"
proof -
  obtain claims where c: "parseUnverifiedJWT unjson tok = Some claims" "validateOIDCClaims t claims cfg = None"
    "extractUserClaim claims (oc_ClaimName cfg) = Inr user" "IssueUserCert sign t userKey user opts ca = (Inr cert, ca')"
    using assms by (auto simp: IssueFromOIDCToken_def split: if_splits option.splits sum.splits prod.splits)
  have "length (Split CHR ''.'' tok) = 3" using c(1) by (auto simp: parseUnverifiedJWT_def Let_def split: if_splits)
  then obtain h p sig where s: "Split CHR ''.'' tok = [h, p, sig]" by (auto simp: numeral_eq_Suc length_Suc_conv)
  have x: "\<forall>n. claims ''exp'' = Some (CNumber n) \<longrightarrow> Time_Unix t \<le> n"
    "oc_Issuer cfg \<noteq> [] \<longrightarrow> (\<exists>iss. claims ''iss'' = Some (CText iss) \<and> prefix (oc_Issuer cfg) iss)"
    using c(2) by (auto simp: validateOIDCClaims_def split: if_splits option.splits claim.splits)
  have u: "claims (if oc_ClaimName cfg = [] then ''email'' else oc_ClaimName cfg) = Some (CText user) \<or>
       (oc_ClaimName cfg = [] \<or> oc_ClaimName cfg = ''email'') \<and> claims ''sub'' = Some (CText user)" "user \<noteq> []"
    using c(3) by (auto simp: extractUserClaim_def Let_def split: if_splits option.splits claim.splits)
  have k: "userKey = Some (ce_Key cert)" "ce_CertType cert = UserCert" "sign (ca_Signer ca) cert" "opts = [] \<longrightarrow> ce_ValidPrincipals cert = [user]"
    using c(4) u(2) by (auto simp: IssueUserCert_def Let_def next_serial_def apply_opts_def split: option.splits if_splits)
  show ?thesis using s c(1) x u k by blast
qed

text \<open>The claims \<^verbatim>\<open>{sub: u}\<close> for every payload.\<close>

definition plain_claims :: "bytes \<Rightarrow> (bytes \<rightharpoonup> claim) option" where
  "plain_claims b = Some [''sub'' \<mapsto> CText ''u'']"

lemma plain_token:
  "\<exists>cert user ca'. IssueFromOIDCToken plain_claims (\<lambda>_ _. True) (time_Unix 5) ''..'' (Some (1 :: nat)) \<lparr>oc_Issuer = [], oc_ClientID = ''c'', oc_ClaimName = []\<rparr> []
     \<lparr>ca_Signer = ''k'', ca_serial = 0\<rparr> = (Inr (cert, user), ca')"
proof -
  let ?cfg = "\<lparr>oc_Issuer = [], oc_ClientID = ''c'', oc_ClaimName = []\<rparr>"
  have "DecodeString URLEncoding [] = Some []" using DecodeString_EncodeToString [of URLEncoding "[]"] by (simp add: EncodeToString_def URLEncoding_def alphabets_ok padding_def)
  then have p: "parseUnverifiedJWT plain_claims ''..'' = Some [''sub'' \<mapsto> CText ''u'']" by (simp add: parseUnverifiedJWT_def plain_claims_def)
  have v: "validateOIDCClaims (time_Unix 5) [''sub'' \<mapsto> CText ''u''] ?cfg = None" "extractUserClaim [''sub'' \<mapsto> CText ''u''] [] = Inr ''u''"
    by (simp_all add: validateOIDCClaims_def extractUserClaim_def Let_def)
  have "\<exists>cert ca'. IssueUserCert (\<lambda>_ _. True) (time_Unix 5) (Some (1 :: nat)) ''u'' [] \<lparr>ca_Signer = ''k'', ca_serial = 0\<rparr> = (Inr cert, ca')"
    by (cases "next_serial (apply_opts [] (DefaultIssueConfig\<lparr>ic_Principals := [''u'']\<rparr>)) \<lparr>ca_Signer = ''k'', ca_serial = 0\<rparr>")
      (simp add: IssueUserCert_def Let_def)
  then obtain cert ca' where "IssueUserCert (\<lambda>_ _. True) (time_Unix 5) (Some (1 :: nat)) ''u'' [] \<lparr>ca_Signer = ''k'', ca_serial = 0\<rparr> = (Inr cert, ca')" by blast
  then show ?thesis using p v by (simp add: IssueFromOIDCToken_def)
qed

theorem oidc_certificate_witness:
  "\<exists>cert user ca'. IssueFromOIDCToken plain_claims (\<lambda>_ _. True) (time_Unix 5) ''..'' (Some (1 :: nat))
     \<lparr>oc_Issuer = [], oc_ClientID = ''c'', oc_ClaimName = []\<rparr> [] \<lparr>ca_Signer = ''k'', ca_serial = 0\<rparr> = (Inr (cert, user), ca') \<and>
   ce_ValidPrincipals cert = [user]"
  using plain_token oidc_certificate by fastforce

text \<open>The signature part of the token is not read at all.\<close>

lemma signature_not_read:
  assumes "CHR ''.'' \<notin> set h" and "CHR ''.'' \<notin> set p" and "CHR ''.'' \<notin> set sig" and "CHR ''.'' \<notin> set sig'"
  shows "IssueFromOIDCToken unjson sign t (h @ ''.'' @ p @ ''.'' @ sig) userKey cfg opts ca =
    IssueFromOIDCToken unjson sign t (h @ ''.'' @ p @ ''.'' @ sig') userKey cfg opts ca"
proof -
  have "Split CHR ''.'' (h @ ''.'' @ p @ ''.'' @ s) = [h, p, s]" if "CHR ''.'' \<notin> set s" for s
    using assms(1,2) that by (simp add: Split_append Split_plain)
  then show ?thesis using assms(3,4) by (simp add: IssueFromOIDCToken_def parseUnverifiedJWT_def)
qed

text \<open>Nor is the audience compared with the configured client.\<close>

lemma client_id_not_read:
  "IssueFromOIDCToken unjson sign t tok userKey (cfg\<lparr>oc_ClientID := c\<rparr>) opts ca = IssueFromOIDCToken unjson sign t tok userKey cfg opts ca"
proof -
  have "validateOIDCClaims t claims (cfg\<lparr>oc_ClientID := c\<rparr>) = validateOIDCClaims t claims cfg" for claims
    by (simp add: validateOIDCClaims_def split: option.splits claim.splits)
  then show ?thesis by (simp add: IssueFromOIDCToken_def split: option.split)
qed

text \<open>The issuer only has to begin with the configured one.\<close>

lemma longer_issuer_accepted:
  "validateOIDCClaims t [''iss'' \<mapsto> CText ''https://idp.example.attacker.net''] \<lparr>oc_Issuer = ''https://idp.example'', oc_ClientID = [], oc_ClaimName = []\<rparr> = None"
  by (simp add: validateOIDCClaims_def)

text \<open>Options that set extensions or critical options have no effect on host certificates.\<close>

lemma host_options_dropped:
  "IssueHostCert sign t key name opts ca = (Inr cert, ca') \<Longrightarrow> ce_CriticalOptions cert = None \<and> ce_Extensions cert = None"
  by (auto simp: IssueHostCert_def Let_def next_serial_def split: option.splits if_splits)

text \<open>A lifetime below a second gives a certificate that has expired when it is issued.\<close>

lemma short_lifetime: "0 < d \<Longrightarrow> d < 10 ^ 9 \<Longrightarrow> lifetime (WithTTL d DefaultIssueConfig) = 0"
  using whole_units_exact [of Go_Time.Second "nat d"] by (simp add: lifetime_def WithTTL_def)

end
