(* ===== verification/Raptor.thy ===== *)
theory Raptor
  imports Go_Binary
begin

text \<open>
  Package \<^verbatim>\<open>raptor\<close>, file \<^verbatim>\<open>src/raptor/wrapper.go\<close>: datagrams with repair symbols.  The block size \<^verbatim>\<open>raptor.N\<close>, the encoder and what the decoder
  can recover are arguments, the code of another module.  The slices kept for the next repair symbol are addresses in the
  caller's memory, which may change between two calls.  The read loop and the callers of \<^verbatim>\<open>ReceiveDatagram\<close> are a step relation.
\<close>

section \<open>Sending\<close>

record Datagram =
  dg_SymbolID :: "32 word"
  dg_Data :: bytes
  dg_IsRepair :: bool

text \<open>Type, sequence number and payload, as both kinds of datagram are written.\<close>

definition frame :: "Datagram \<Rightarrow> bytes" where
  "frame d = byte_of (if dg_IsRepair d then 1 else 0) # PutUint32 BigEndian (dg_SymbolID d) @ dg_Data d"

record Wrapper =
  w_sendSeq :: "32 word"
  w_block :: "nat list"

definition NewWrapper :: Wrapper where
  "NewWrapper = \<lparr>w_sendSeq = 0, w_block = []\<rparr>"

text \<open>One call: the memory when it is made, the slice, and whether the transport takes the datagram and the repair symbol.\<close>

record send_call =
  sd_mem :: "nat \<Rightarrow> bytes"
  sd_p :: nat
  sd_ok :: bool
  sd_rok :: bool

definition raptor_SendDatagram ::
  "nat \<Rightarrow> (bytes list \<Rightarrow> 32 word \<Rightarrow> bytes) \<Rightarrow> send_call \<Rightarrow> Wrapper \<Rightarrow> bool \<times> bytes list \<times> Wrapper" where
  "raptor_SendDatagram N encode c w =
    (let buf = frame \<lparr>dg_SymbolID = w_sendSeq w, dg_Data = sd_mem c (sd_p c), dg_IsRepair = False\<rparr> in
     if \<not> sd_ok c then (False, [], w)
     else
      (let w = w\<lparr>w_block := w_block w @ [sd_p c], w_sendSeq := w_sendSeq w + 1\<rparr> in
       if length (w_block w) = N then
        (let repair = encode (map (sd_mem c) (w_block w)) (w_sendSeq w);
             rBuf = frame \<lparr>dg_SymbolID = w_sendSeq w, dg_Data = repair, dg_IsRepair = True\<rparr>
         in (True, buf # (if length repair > 0 \<and> sd_rok c then [rBuf] else []), w\<lparr>w_block := []\<rparr>))
       else (True, [buf], w)))"

fun send_all :: "nat \<Rightarrow> (bytes list \<Rightarrow> 32 word \<Rightarrow> bytes) \<Rightarrow> send_call list \<Rightarrow> Wrapper \<Rightarrow> bytes list \<times> Wrapper" where
  "send_all N encode [] w = ([], w)"
| "send_all N encode (c # cs) w =
    (case raptor_SendDatagram N encode c w of
       (_, out, w) \<Rightarrow> (case send_all N encode cs w of (out', w) \<Rightarrow> (out @ out', w)))"

section \<open>Receiving\<close>

datatype arrival = Raw bytes | TransportError

text \<open>Where the read loop stands: before the next datagram, sending a payload on the channel, feeding the decoder, or gone.\<close>

datatype loop_at = Receiving | Sending Datagram | Feeding Datagram | LoopReturned

record receiver =
  r_in :: "arrival list"
  r_at :: loop_at
  r_recv :: "bytes list"
  r_err :: nat
  r_fed :: "Datagram list"
  r_got :: "bytes list"
  r_recovered :: "bytes list"

definition receiver_start :: "arrival list \<Rightarrow> receiver" where
  "receiver_start arr = \<lparr>r_in = arr, r_at = Receiving, r_recv = [], r_err = 0, r_fed = [], r_got = [], r_recovered = []\<rparr>"

text \<open>What the loop does with a datagram: too short and of unknown type are skipped.\<close>

definition read_datagram :: "bytes \<Rightarrow> loop_at" where
  "read_datagram raw =
    (if length raw < 5 then Receiving
     else
      (let typ = raw ! 0; seq = Uint32 BigEndian (take 4 (drop 1 raw)); payload = drop 5 raw in
       if typ = byte_of 0 then Sending \<lparr>dg_SymbolID = seq, dg_Data = payload, dg_IsRepair = False\<rparr>
       else if typ = byte_of 1 then Feeding \<lparr>dg_SymbolID = seq, dg_Data = payload, dg_IsRepair = True\<rparr>
       else Receiving))"

text \<open>The alternatives of \<^verbatim>\<open>ReceiveDatagram\<close>; \<open>None\<close> when one is not ready.\<close>

datatype choice = ChooseDone | ChooseErr | ChooseRecv | ChooseRecovered bytes

datatype received = GotPacket bytes | GotError | GotDone

definition raptor_ReceiveDatagram ::
  "(Datagram list \<Rightarrow> bytes \<Rightarrow> bool) \<Rightarrow> choice \<Rightarrow> receiver \<Rightarrow> (received \<times> receiver) option" where
  "raptor_ReceiveDatagram recovers ch s =
    (case ch of
       ChooseDone \<Rightarrow> Some (GotDone, s)
     | ChooseErr \<Rightarrow> if r_err s = 0 then None else Some (GotError, s\<lparr>r_err := r_err s - 1\<rparr>)
     | ChooseRecv \<Rightarrow> (case r_recv s of [] \<Rightarrow> None | p # ps \<Rightarrow> Some (GotPacket p, s\<lparr>r_recv := ps, r_got := r_got s @ [p]\<rparr>))
     | ChooseRecovered p \<Rightarrow> if recovers (r_fed s) p then Some (GotPacket p, s\<lparr>r_recovered := r_recovered s @ [p]\<rparr>) else None)"

abbreviation recv_cap :: nat where "recv_cap \<equiv> 128"

inductive recv_step :: "(Datagram list \<Rightarrow> bytes \<Rightarrow> bool) \<Rightarrow> receiver \<Rightarrow> receiver \<Rightarrow> bool" for recovers where
  rs_take: "r_at s = Receiving \<Longrightarrow> r_in s = Raw raw # rest \<Longrightarrow> recv_step recovers s (s\<lparr>r_in := rest, r_at := read_datagram raw\<rparr>)"
| rs_fail: "r_at s = Receiving \<Longrightarrow> r_in s = TransportError # rest \<Longrightarrow> r_err s < 1 \<Longrightarrow>
    recv_step recovers s (s\<lparr>r_in := rest, r_err := Suc (r_err s), r_at := LoopReturned\<rparr>)"
| rs_send: "r_at s = Sending d \<Longrightarrow> length (r_recv s) < recv_cap \<Longrightarrow>
    recv_step recovers s (s\<lparr>r_recv := r_recv s @ [dg_Data d], r_at := Feeding d\<rparr>)"
| rs_feed: "r_at s = Feeding d \<Longrightarrow> recv_step recovers s (s\<lparr>r_fed := r_fed s @ [d], r_at := Receiving\<rparr>)"
| rs_receive: "raptor_ReceiveDatagram recovers ch s = Some (r, t) \<Longrightarrow> recv_step recovers s t"

section \<open>What is sent\<close>

text \<open>The symbols of a sequence of calls that the transport took, by position: the payload with its number, and after every \<open>N\<close>
  payloads the repair symbol computed from them.\<close>

definition payload_of :: "send_call \<Rightarrow> bytes" where
  "payload_of c = sd_mem c (sd_p c)"

definition symbols_at :: "nat \<Rightarrow> (bytes list \<Rightarrow> 32 word \<Rightarrow> bytes) \<Rightarrow> send_call list \<Rightarrow> nat \<Rightarrow> Datagram list" where
  "symbols_at N encode qs i =
    (let r = encode (map payload_of (drop (Suc i - N) (take (Suc i) qs))) (word_of_nat (Suc i)) in
     \<lparr>dg_SymbolID = word_of_nat i, dg_Data = payload_of (qs ! i), dg_IsRepair = False\<rparr> #
     (if N dvd Suc i \<and> r \<noteq> [] \<and> sd_rok (qs ! i) then [\<lparr>dg_SymbolID = word_of_nat (Suc i), dg_Data = r, dg_IsRepair = True\<rparr>] else []))"

definition symbols :: "nat \<Rightarrow> (bytes list \<Rightarrow> 32 word \<Rightarrow> bytes) \<Rightarrow> send_call list \<Rightarrow> Datagram list" where
  "symbols N encode qs = concat (map (symbols_at N encode qs) [0..<length qs])"

text \<open>No slice is changed after it was sent.\<close>

definition unchanged :: "send_call list \<Rightarrow> bool" where
  "unchanged qs \<longleftrightarrow> sorted_wrt (\<lambda>a b. sd_mem b (sd_p a) = payload_of a) qs"

lemma symbols_snoc:
  "symbols N encode (qs @ [c]) = symbols N encode qs @ symbols_at N encode (qs @ [c]) (length qs)"
proof -
  have "symbols_at N encode (qs @ [c]) i = symbols_at N encode qs i" if "i < length qs" for i
    using that by (simp add: symbols_at_def nth_append)
  then have "map (symbols_at N encode (qs @ [c])) [0..<length qs] = map (symbols_at N encode qs) [0..<length qs]" by simp
  then show ?thesis by (simp add: symbols_def del: map_eq_conv)
qed

lemma send_all_snoc:
  "send_all N encode (cs @ [c]) w =
    (case send_all N encode cs w of (out, w) \<Rightarrow> (case raptor_SendDatagram N encode c w of (_, out', w) \<Rightarrow> (out @ out', w)))"
  by (induction N encode cs w rule: send_all.induct) (simp_all split: prod.splits)

lemma block_complete: "0 < N \<Longrightarrow> Suc (n mod N) = N \<longleftrightarrow> N dvd Suc n"
  by (metis Suc_inject dvd_eq_mod_eq_0 mod_Suc nat.distinct(1))

lemma send_all_symbols:
  assumes "0 < N" and "unchanged (filter sd_ok cs)"
  shows "send_all N encode cs NewWrapper =
    (map frame (symbols N encode (filter sd_ok cs)),
     \<lparr>w_sendSeq = word_of_nat (length (filter sd_ok cs)),
      w_block = map sd_p (drop (length (filter sd_ok cs) - length (filter sd_ok cs) mod N) (filter sd_ok cs))\<rparr>)"
  using assms(2)
proof (induction cs rule: rev_induct)
  case Nil
  then show ?case by (simp add: symbols_def NewWrapper_def)
next
  case (snoc c cs)
  define qs where "qs = filter sd_ok cs"
  define n where "n = length qs"
  have u: "unchanged qs" using snoc.prems by (cases "sd_ok c") (auto simp: unchanged_def qs_def sorted_wrt_append)
  note IH = snoc.IH [folded qs_def n_def, OF u]
  show ?case
  proof (cases "sd_ok c")
    case False
    then show ?thesis using IH by (simp add: send_all_snoc raptor_SendDatagram_def qs_def n_def)
  next
    case True
    have same: "sd_mem c (sd_p q) = payload_of q" if "q \<in> set qs" for q
      using snoc.prems True that by (auto simp: unchanged_def qs_def sorted_wrt_append)
    have len: "length (drop (n - n mod N) qs) = n mod N" by (simp add: n_def)
    show ?thesis
    proof (cases "N dvd Suc n")
      case d: True
      then have full: "Suc (n mod N) = N" using block_complete [OF assms(1)] by simp
      then have at: "Suc n - N = n - n mod N" by simp
      have "map (sd_mem c \<circ> sd_p) (drop (n - n mod N) qs) = map payload_of (drop (n - n mod N) qs)"
        using same by (auto dest: in_set_dropD)
      moreover have "Suc n mod N = 0" using d by simp
      ultimately show ?thesis using True IH full d at len
        by (simp add: send_all_snoc raptor_SendDatagram_def symbols_snoc symbols_at_def payload_of_def [of c] Let_def nth_append add.commute
            del: map_eq_conv flip: qs_def n_def)
    next
      case d: False
      then have part: "Suc (n mod N) \<noteq> N" using block_complete [OF assms(1)] by simp
      then have "Suc n mod N = Suc (n mod N)" by (simp add: mod_Suc)
      then have "Suc n - Suc n mod N = n - n mod N" by simp
      moreover have "n - n mod N \<le> length qs" by (simp add: n_def)
      ultimately show ?thesis using True IH part d len
        by (simp add: send_all_snoc raptor_SendDatagram_def symbols_snoc symbols_at_def payload_of_def [of c] Let_def nth_append
            flip: qs_def n_def)
    qed
  qed
qed

lemma data_of_symbols: "map dg_Data (filter (\<lambda>d. \<not> dg_IsRepair d) (symbols N encode qs)) = map payload_of qs"
proof (induction qs rule: rev_induct)
  case (snoc c qs)
  then show ?case by (simp add: symbols_snoc symbols_at_def Let_def)
qed (simp add: symbols_def)


section \<open>What is received\<close>

lemma read_datagram_frame: "read_datagram (frame d) = (if dg_IsRepair d then Feeding d else Sending d)"
  by (cases d) (simp add: read_datagram_def frame_def byte_eval nth_append)

definition data_of :: "Datagram list \<Rightarrow> bytes list" where
  "data_of ds = map dg_Data (filter (\<lambda>d. \<not> dg_IsRepair d) ds)"

text \<open>The datagrams taken so far are those fed to the decoder and the one at hand; their payloads are those handed out, queued and at
  hand.\<close>

definition recv_inv :: "Datagram list \<Rightarrow> receiver \<Rightarrow> bool" where
  "recv_inv ds s \<longleftrightarrow>
    (\<exists>xs ys. ds = xs @ ys \<and> r_in s = map (Raw \<circ> frame) ys \<and>
      r_fed s @ (case r_at s of Sending d \<Rightarrow> [d] | Feeding d \<Rightarrow> [d] | _ \<Rightarrow> []) = xs \<and>
      r_got s @ r_recv s @ (case r_at s of Sending d \<Rightarrow> [dg_Data d] | _ \<Rightarrow> []) = data_of xs \<and>
      (case r_at s of Sending d \<Rightarrow> \<not> dg_IsRepair d | _ \<Rightarrow> True)) \<and> r_at s \<noteq> LoopReturned \<and> r_err s = 0 \<and> length (r_recv s) \<le> recv_cap"

lemma recv_inv_take:
  assumes "recv_inv ds s" and "r_at s = Receiving" and "r_in s = Raw raw # rest"
  shows "recv_inv ds (s\<lparr>r_in := rest, r_at := read_datagram raw\<rparr>)"
proof -
  obtain ys where ds: "ds = r_fed s @ ys" and i: "r_in s = map (Raw \<circ> frame) ys" and g: "r_got s @ r_recv s = data_of (r_fed s)"
    using assms(1,2) by (auto simp: recv_inv_def)
  obtain d zs where ys: "ys = d # zs" and raw: "raw = frame d" and rest: "rest = map (Raw \<circ> frame) zs"
    using i assms(3) by (cases ys) auto
  have "ds = (r_fed s @ [d]) @ zs" using ds ys by simp
  moreover have "r_got s @ r_recv s @ (if dg_IsRepair d then [] else [dg_Data d]) = data_of (r_fed s @ [d])"
    using g by (simp add: data_of_def flip: append_assoc)
  ultimately show ?thesis using assms(1) raw rest unfolding recv_inv_def
    by (intro conjI exI [of _ "r_fed s @ [d]"] exI [of _ zs]) (auto simp: read_datagram_frame split: if_splits)
qed

interpretation raptor: invariant_system "\<lambda>s. s = receiver_start (map (Raw \<circ> frame) ds)" "recv_step recovers" "recv_inv ds" for recovers ds
proof
  fix s t assume inv: "recv_inv ds s" and "recv_step recovers s t"
  from this(2) show "recv_inv ds t"
  proof cases
    case (rs_take raw rest)
    then show ?thesis using recv_inv_take [OF inv] by simp
  next
    case (rs_receive ch r)
    then show ?thesis using inv
      by (auto simp: recv_inv_def raptor_ReceiveDatagram_def split: choice.splits list.splits if_splits)
  qed (use inv in \<open>auto simp: recv_inv_def map_eq_Cons_conv Cons_eq_map_conv\<close>)
qed (auto simp: recv_inv_def receiver_start_def data_of_def)

lemma subseq_map_frame: "subseq arr (map f ds) \<Longrightarrow> \<exists>es. subseq es ds \<and> arr = map f es"
  by (metis nths_map subseq_conv_nths)

lemma frame_inject: "frame d = frame e \<longleftrightarrow> d = e"
  by (metis loop_at.distinct(7) loop_at.inject read_datagram_frame)


section \<open>Properties\<close>


definition one_call :: send_call where
  "one_call = \<lparr>sd_mem = (\<lambda>_. ''x''), sd_p = 0, sd_ok = True, sd_rok = True\<rparr>"


text \<open>A caller that reuses its buffer: the repair symbol is computed from what the buffer holds at the end of the block, not from what was
  sent.\<close>

lemma reused_buffer_repair:
  "last (fst (send_all 2 (\<lambda>b _. concat b)
      [\<lparr>sd_mem = (\<lambda>_. ''a''), sd_p = 0, sd_ok = True, sd_rok = True\<rparr>, \<lparr>sd_mem = (\<lambda>_. ''b''), sd_p = 0, sd_ok = True, sd_rok = True\<rparr>] NewWrapper)) =
    frame \<lparr>dg_SymbolID = 2, dg_Data = ''bb'', dg_IsRepair = True\<rparr>"
  by (simp add: raptor_SendDatagram_def NewWrapper_def Let_def)

text \<open>The error of the transport is handed out once: after it, with nothing queued and nothing to recover, only the end of the caller's context
  ends a call.\<close>

lemma error_handed_out_once:
  "\<exists>s. reach (\<lambda>s. s = receiver_start [TransportError]) (recv_step (\<lambda>_ _. False)) s \<and> r_at s = LoopReturned \<and>
     (\<forall>ch. raptor_ReceiveDatagram (\<lambda>_ _. False) ch s \<noteq> None \<longrightarrow> ch = ChooseDone)"
proof -
  let ?s0 = "receiver_start [TransportError]"
  let ?s1 = "?s0\<lparr>r_in := [], r_err := 1, r_at := LoopReturned\<rparr>"
  let ?s2 = "?s1\<lparr>r_err := 0\<rparr>"
  let ?R = "reach (\<lambda>s. s = ?s0) (recv_step (\<lambda>_ _. False))"
  have "?R ?s0" by (rule reach_init) simp
  moreover have "recv_step (\<lambda>_ _. False) ?s0 ?s1" using rs_fail [of ?s0 "[]" "\<lambda>_ _. False"] by (simp add: receiver_start_def)
  moreover have "recv_step (\<lambda>_ _. False) ?s1 ?s2"
    by (rule rs_receive [of _ ChooseErr _ GotError]) (simp add: raptor_ReceiveDatagram_def receiver_start_def)
  ultimately have "?R ?s2" by (metis reach_step)
  then show ?thesis
    by (intro exI [of _ ?s2]) (auto simp: raptor_ReceiveDatagram_def receiver_start_def split: choice.splits)
qed

end
