(* ===== verification/SQL_Cookie.thy ===== *)
theory SQL_Cookie
  imports Prelude
begin

text \<open>
  Packages \<^verbatim>\<open>sqlcookie\<close> and \<^verbatim>\<open>geoip\<close>, files \<^verbatim>\<open>src/sqlcookie/sqlcookie.go\<close> and \<^verbatim>\<open>src/geoip/geoip.go\<close>.  The database behind \<^verbatim>\<open>database/sql\<close> is a record of what its
  statements do, given their text and arguments; the JSON codec and the MaxMind reader are arguments.
\<close>

section \<open>sqlcookie.go\<close>

datatype query_result = Row bytes | NoRows | QueryError

text \<open>Starting a transaction, executing a statement (\<open>None\<close> is an error), committing a changed database, and selecting one row.\<close>

record 'db engine =
  sq_begin :: "'db \<Rightarrow> bool"
  sq_exec :: "bytes \<Rightarrow> bytes list \<Rightarrow> 'db \<Rightarrow> 'db option"
  sq_commit :: "'db \<Rightarrow> 'db \<Rightarrow> bool"
  sq_query :: "bytes \<Rightarrow> bytes list \<Rightarrow> 'db \<Rightarrow> query_result"

record SQLStorage =
  st_tableName :: bytes

definition New_storage :: SQLStorage where
  "New_storage = \<lparr>st_tableName = ''aoni_cookies''\<rparr>"

definition NewWithTable :: "bytes \<Rightarrow> SQLStorage" where
  "NewWithTable tableName = \<lparr>st_tableName = (if tableName = [] then ''aoni_cookies'' else tableName)\<rparr>"

definition qCreate :: "SQLStorage \<Rightarrow> bytes" where
  "qCreate s = ''CREATE TABLE IF NOT EXISTS '' @ st_tableName s @ '' ('' @ [CHR 0x0A, CHR 0x09, CHR 0x09] @ ''proxy_key TEXT PRIMARY KEY,'' @
     [CHR 0x0A, CHR 0x09, CHR 0x09] @ ''cookie_data TEXT'' @ [CHR 0x0A, CHR 0x09] @ '');''"

definition qDelete :: "SQLStorage \<Rightarrow> bytes" where
  "qDelete s = ''DELETE FROM '' @ st_tableName s @ '' WHERE proxy_key = ?''"

definition qInsert :: "SQLStorage \<Rightarrow> bytes" where
  "qInsert s = ''INSERT INTO '' @ st_tableName s @ '' (proxy_key, cookie_data) VALUES (?, ?)''"

definition qSelect :: "SQLStorage \<Rightarrow> bytes" where
  "qSelect s = ''SELECT cookie_data FROM '' @ st_tableName s @ '' WHERE proxy_key = ?''"

definition InitSchema :: "'db engine \<Rightarrow> SQLStorage \<Rightarrow> 'db \<Rightarrow> bool \<times> 'db" where
  "InitSchema E s db = (case sq_exec E (qCreate s) [] db of None \<Rightarrow> (False, db) | Some db \<Rightarrow> (True, db))"

datatype storage_error = ErrMarshal | ErrBegin | ErrExec | ErrCommit | ErrScan | ErrInvalidCookieData

text \<open>The error if there is one, and the database; the deferred rollback discards the changes of a transaction that is not committed.\<close>

definition Save :: "'db engine \<Rightarrow> ('c list \<Rightarrow> bytes option) \<Rightarrow> SQLStorage \<Rightarrow> bytes \<Rightarrow> 'c list \<Rightarrow> 'db \<Rightarrow> storage_error option \<times> 'db" where
  "Save E marshal s key cookies db =
    (case marshal cookies of
       None \<Rightarrow> (Some ErrMarshal, db)
     | Some jsonData \<Rightarrow>
         if \<not> sq_begin E db then (Some ErrBegin, db)
         else case sq_exec E (qDelete s) [key] db of
                None \<Rightarrow> (Some ErrExec, db)
              | Some tx \<Rightarrow>
                  (case (if length cookies > 0 then sq_exec E (qInsert s) [key, jsonData] tx else Some tx) of
                     None \<Rightarrow> (Some ErrExec, db)
                   | Some tx \<Rightarrow> if sq_commit E db tx then (None, tx) else (Some ErrCommit, db)))"

definition Load :: "'db engine \<Rightarrow> (bytes \<Rightarrow> 'c list option) \<Rightarrow> SQLStorage \<Rightarrow> bytes \<Rightarrow> 'db \<Rightarrow> storage_error + 'c list" where
  "Load E unmarshal s key db =
    (case sq_query E (qSelect s) [key] db of
       NoRows \<Rightarrow> Inr []
     | QueryError \<Rightarrow> Inl ErrScan
     | Row dataStr \<Rightarrow> (case unmarshal dataStr of None \<Rightarrow> Inl ErrInvalidCookieData | Some cookies \<Rightarrow> Inr cookies))"

section \<open>geoip.go\<close>

record Metadata =
  md_Country :: bytes
  md_ASN :: nat
  md_ISP :: bytes
  md_UsageType :: bytes

text \<open>The structure a record of the database is decoded into.\<close>

record geo_result =
  gr_ISOCode :: bytes
  gr_ASN :: nat
  gr_ASNOrg :: bytes
  gr_AutonomousSystemNum :: nat
  gr_AutonomousSystemOrg :: bytes
  gr_ISP :: bytes
  gr_UserType :: bytes
  gr_IsHostingProvider :: bool

text \<open>A database that is nil or closed has no reader; \<open>decode\<close> is the third-party lookup.\<close>

definition Lookup_geo :: "('ip \<Rightarrow> geo_result option) option \<Rightarrow> 'ip \<Rightarrow> unit + Metadata option" where
  "Lookup_geo reader ip =
    (case reader of
       None \<Rightarrow> Inr None
     | Some decode \<Rightarrow>
         (case decode ip of
            None \<Rightarrow> Inl ()
          | Some result \<Rightarrow>
              (let asn = (if gr_ASN result = 0 then gr_AutonomousSystemNum result else gr_ASN result);
                   isp = gr_ISP result;
                   isp = (if isp = [] then gr_ASNOrg result else isp);
                   isp = (if isp = [] then gr_AutonomousSystemOrg result else isp);
                   usage = (if gr_IsHostingProvider result \<or> gr_UserType result = ''hosting'' \<or> gr_UserType result = ''business'' then ''DataCenter''
                            else if gr_UserType result = ''cellular'' then ''Mobile'' else ''Residential'')
               in Inr (Some \<lparr>md_Country = gr_ISOCode result, md_ASN = asn, md_ISP = isp, md_UsageType = usage\<rparr>))))"

text \<open>
  Opening a database file or its bytes: \<open>mmdb_open\<close> and \<open>mmdb_bytes\<close> are the third-party library's.  Closing a
  nil database does nothing; otherwise the result is that of closing the reader.
\<close>

definition Open_geo :: "(bytes \<Rightarrow> 'e + 'r) \<Rightarrow> bytes \<Rightarrow> 'e + 'r option" where
  "Open_geo mmdb_open path = (case mmdb_open path of Inl err \<Rightarrow> Inl err | Inr r \<Rightarrow> Inr (Some r))"

definition OpenBytes :: "(bytes \<Rightarrow> 'e + 'r) \<Rightarrow> bytes \<Rightarrow> 'e + 'r option" where
  "OpenBytes mmdb_bytes b = (case mmdb_bytes b of Inl err \<Rightarrow> Inl err | Inr r \<Rightarrow> Inr (Some r))"

definition Close_geo :: "('r \<Rightarrow> 'e option) \<Rightarrow> 'r option \<Rightarrow> 'e option" where
  "Close_geo close_reader db = (case db of Some r \<Rightarrow> close_reader r | None \<Rightarrow> None)"

section \<open>Saving and loading\<close>

text \<open>What is relied on of the database: the four statements read and change the rows of the table, by key; a select that does not fail sees
  what is committed.\<close>

definition engine_ok :: "'db engine \<Rightarrow> SQLStorage \<Rightarrow> ('db \<Rightarrow> bytes \<rightharpoonup> bytes) \<Rightarrow> bool" where
  "engine_ok E s rows \<longleftrightarrow>
    (\<forall>k db tx. sq_exec E (qDelete s) [k] db = Some tx \<longrightarrow> rows tx = (rows db)(k := None)) \<and>
    (\<forall>k v db tx. sq_exec E (qInsert s) [k, v] db = Some tx \<longrightarrow> rows tx = (rows db)(k \<mapsto> v)) \<and>
    (\<forall>k db. sq_query E (qSelect s) [k] db = (case rows db k of None \<Rightarrow> NoRows | Some v \<Rightarrow> Row v))"

definition json_ok :: "('c list \<Rightarrow> bytes option) \<Rightarrow> (bytes \<Rightarrow> 'c list option) \<Rightarrow> bool" where
  "json_ok marshal unmarshal \<longleftrightarrow> (\<forall>cs b. marshal cs = Some b \<longrightarrow> unmarshal b = Some cs)"

text \<open>A sequence of saves: those that succeeded, and the database.\<close>

fun save_all ::
  "'db engine \<Rightarrow> ('c list \<Rightarrow> bytes option) \<Rightarrow> SQLStorage \<Rightarrow> (bytes \<times> 'c list) list \<Rightarrow> 'db \<Rightarrow> (bytes \<times> 'c list) list \<times> 'db" where
  "save_all E marshal s [] db = ([], db)"
| "save_all E marshal s ((k, cs) # xs) db =
    (case Save E marshal s k cs db of
       (Some _, db) \<Rightarrow> save_all E marshal s xs db
     | (None, db) \<Rightarrow> (case save_all E marshal s xs db of (saved, db) \<Rightarrow> ((k, cs) # saved, db)))"

lemma Save_cases:
  assumes "engine_ok E s rows"
  shows "(\<exists>e. Save E marshal s k cs db = (Some e, db)) \<or>
    (\<exists>tx b. Save E marshal s k cs db = (None, tx) \<and> marshal cs = Some b \<and> rows tx = (if cs = [] then (rows db)(k := None) else (rows db)(k \<mapsto> b)))"
proof (cases "Save E marshal s k cs db")
  case (Pair e tx)
  then show ?thesis using assms unfolding engine_ok_def
    by (cases e) (fastforce simp: Save_def split: option.splits if_splits)+
qed

lemma Load_rows:
  assumes "engine_ok E s rows"
  shows "Load E unmarshal s k db =
    (case rows db k of None \<Rightarrow> Inr [] | Some b \<Rightarrow> (case unmarshal b of None \<Rightarrow> Inl ErrInvalidCookieData | Some cs \<Rightarrow> Inr cs))"
  using assms by (simp add: engine_ok_def Load_def split: option.splits)

text \<open>A save that fails changes nothing; one that succeeds is what is loaded under its key, and the other keys keep their cookies.\<close>

lemma Save_Load:
  assumes "engine_ok E s rows" and "json_ok marshal unmarshal"
  shows "(\<exists>e. Save E marshal s k cs db = (Some e, db)) \<or>
    (\<exists>tx. Save E marshal s k cs db = (None, tx) \<and> (\<forall>k'. Load E unmarshal s k' tx = (if k' = k then Inr cs else Load E unmarshal s k' db)))"
  using Save_cases [OF assms(1), of marshal k cs db] assms(2)
  by (auto simp: Load_rows [OF assms(1)] json_ok_def)

text \<open>Stored cookies.  After any sequence of saves under any keys, each of which may fail at any of its steps, the cookies loaded under
  a key are those of the last save under it that succeeded, an empty list included, and what was there before if there is none: a save
  that fails changes nothing.\<close>
theorem saved_cookies_loaded:
  assumes "engine_ok E s rows" and "json_ok marshal unmarshal" and "save_all E marshal s xs db = (saved, db')"
  shows "Load E unmarshal s k db' = (case map_of (rev saved) k of Some cs \<Rightarrow> Inr cs | None \<Rightarrow> Load E unmarshal s k db)"
  using assms(3)
proof (induction xs arbitrary: db saved)
  case (Cons x xs)
  obtain k0 cs where x: "x = (k0, cs)" by (cases x)
  from Save_Load [OF assms(1,2), of k0 cs db] show ?case
  proof
    assume "\<exists>e. Save E marshal s k0 cs db = (Some e, db)"
    then show ?thesis using Cons x by auto
  next
    assume "\<exists>tx. Save E marshal s k0 cs db = (None, tx) \<and> (\<forall>k'. Load E unmarshal s k' tx = (if k' = k0 then Inr cs else Load E unmarshal s k' db))"
    then obtain tx where tx: "Save E marshal s k0 cs db = (None, tx)" "\<And>k'. Load E unmarshal s k' tx = (if k' = k0 then Inr cs else Load E unmarshal s k' db)"
      by blast
    obtain d where d: "save_all E marshal s xs tx = (d, db')" "saved = (k0, cs) # d"
      using Cons.prems tx(1) x by (auto split: prod.splits)
    show ?thesis using Cons.IH [OF d(1)] by (auto simp: d(2) tx(2) map_add_def split: option.splits)
  qed
qed simp

text \<open>A database that is its table.\<close>

definition table_engine :: "SQLStorage \<Rightarrow> (bytes \<rightharpoonup> bytes) engine" where
  "table_engine s =
    \<lparr>sq_begin = (\<lambda>_. True),
     sq_exec = (\<lambda>q args db. if q = qDelete s then Some (db(args ! 0 := None)) else if q = qInsert s then Some (db(args ! 0 \<mapsto> args ! 1)) else None),
     sq_commit = (\<lambda>_ _. True),
     sq_query = (\<lambda>q args db. if q = qSelect s then (case db (args ! 0) of None \<Rightarrow> NoRows | Some v \<Rightarrow> Row v) else QueryError)\<rparr>"

theorem saved_cookies_loaded_witness:
  "Load (table_engine New_storage) (\<lambda>b. Some b) New_storage ''p''
    (snd (save_all (table_engine New_storage) (\<lambda>cs. Some cs) New_storage [(''p'', ''a''), (''q'', ''b''), (''p'', ''c'')] Map.empty)) = Inr ''c''"
proof -
  let ?E = "table_engine New_storage" and ?xs = "[(''p'', ''a''), (''q'', ''b''), (''p'', ''c'')]"
  have ok: "engine_ok ?E New_storage id"
    by (auto simp: engine_ok_def table_engine_def qDelete_def qInsert_def qSelect_def New_storage_def split: option.splits)
  have j: "json_ok (\<lambda>cs. Some cs) (\<lambda>b. Some (b :: bytes))" by (simp add: json_ok_def)
  obtain db' where "save_all ?E (\<lambda>cs. Some cs) New_storage ?xs Map.empty = (?xs, db')"
    by (simp add: Save_def table_engine_def qDelete_def qInsert_def New_storage_def)
  then show ?thesis using saved_cookies_loaded [OF ok j, of ?xs Map.empty ?xs db' "''p''"] by simp
qed

end
