(* ===== verification/Tun_Device.thy ===== *)
theory Tun_Device
  imports Go_Strconv
begin

text \<open>
  Package \<^verbatim>\<open>tunnel/tun\<close>, files \<^verbatim>\<open>tun_posix.go\<close>, \<^verbatim>\<open>tun_linux.go\<close>, \<^verbatim>\<open>tun_darwin.go\<close> and \<^verbatim>\<open>tun_windows.go\<close> under \<^verbatim>\<open>src/tunnel/tun\<close>.  System calls and the functions of
  \<^verbatim>\<open>wintun.dll\<close> are arguments: what they answer on the structure they are given.  The open descriptors are counted.  A Wintun adapter used
  by a reader and by callers of \<^verbatim>\<open>Close\<close> at the same time is a step relation.
\<close>

unbundle bit_operations_syntax

section \<open>Linux and macOS\<close>

definition cStringToGoString :: "bytes \<Rightarrow> bytes" where
  "cStringToGoString b = (case IndexByte b (CHR 0x00) of None \<Rightarrow> b | Some i \<Rightarrow> take i b)"

datatype tun_error =
    ErrLinuxTunOpenFailed
  | ErrLinuxIoctlFailed
  | ErrDarwinUtunFailed
  | ErrInvalidUtunName
  | ErrWintunNotLoaded
  | ErrAdapterCreationFailed
  | ErrSessionCreationFailed
  | ErrUTF16
  | ErrShortBuffer
  | ErrEOF
  | ErrAllocate

record ifreq =
  if_Name :: bytes
  if_Flags :: "16 word"

definition new_ifreq :: "bytes \<Rightarrow> ifreq" where
  "new_ifreq devName = \<lparr>if_Name = take 15 devName @ replicate (16 - length (take 15 devName)) (CHR 0x00), if_Flags = 0x0001 OR 0x1000\<rparr>"

text \<open>The kernel answers the request with an error or with the structure, whose name it may have changed.  The result comes with the
  number of descriptors left open.\<close>

definition NewLinuxAdapter :: "bool \<Rightarrow> (ifreq \<Rightarrow> ifreq option) \<Rightarrow> bytes \<Rightarrow> (tun_error + bytes) \<times> nat" where
  "NewLinuxAdapter opens ioctl devName =
    (if \<not> opens then (Inl ErrLinuxTunOpenFailed, 0)
     else case ioctl (new_ifreq devName) of
            None \<Rightarrow> (Inl ErrLinuxIoctlFailed, 0)
          | Some ifr \<Rightarrow> (Inr (cStringToGoString (if_Name ifr)), 1))"

record sockaddrCtl =
  sa_Len :: nat
  sa_Family :: nat
  sa_SysAddr :: nat
  sa_ID :: "32 word"
  sa_Unit :: "32 word"

text \<open>The number asked for, one more than the one in the name; zero lets the kernel choose.  \<^verbatim>\<open>int\<close> has 64 bits.\<close>

definition utun_unit :: "bytes \<Rightarrow> tun_error + int" where
  "utun_unit devName =
    (if devName = [] then Inr 0
     else if \<not> prefix ''utun'' devName then Inl ErrInvalidUtunName
     else case Atoi (drop 4 devName) of
            None \<Rightarrow> Inl ErrInvalidUtunName
          | Some parsedUnit \<Rightarrow> Inr (wrap64 (parsedUnit + 1)))"

record darwin_env =
  de_socket :: bool
  de_ioctl :: "bytes \<Rightarrow> 32 word option"
  de_connect :: "sockaddrCtl \<Rightarrow> bool"
  de_ifname :: "(bytes \<times> nat) option"
  de_nonblock :: bool

definition utunControlName :: bytes where
  "utunControlName = ''com.apple.net.utun_control''"

definition NewDarwinAdapter :: "darwin_env \<Rightarrow> bytes \<Rightarrow> (tun_error + bytes) \<times> nat" where
  "NewDarwinAdapter en devName =
    (case utun_unit devName of
       Inl err \<Rightarrow> (Inl err, 0)
     | Inr unit \<Rightarrow>
         if \<not> de_socket en then (Inl ErrDarwinUtunFailed, 0)
         else case de_ioctl en (utunControlName @ replicate (96 - length utunControlName) (CHR 0x00)) of
                None \<Rightarrow> (Inl ErrDarwinUtunFailed, 0)
              | Some ctlID \<Rightarrow>
                  if \<not> de_connect en \<lparr>sa_Len = 32, sa_Family = 32, sa_SysAddr = 2, sa_ID = ctlID, sa_Unit = word_of_int unit\<rparr>
                  then (Inl ErrDarwinUtunFailed, 0)
                  else case de_ifname en of
                         None \<Rightarrow> (Inl ErrDarwinUtunFailed, 0)
                       | Some (buf, n) \<Rightarrow>
                           if \<not> de_nonblock en then (Inl ErrDarwinUtunFailed, 0)
                           else (Inr (cStringToGoString (take n buf)), 1))"

section \<open>Windows\<close>

text \<open>The calls of \<^verbatim>\<open>wintun.dll\<close> that were made.\<close>

datatype dll_call = CreateAdapter | StartSession nat | GetReadWaitEvent | EndSession | CloseAdapter | ReleasePacket | AllocateSend nat | SendPacketCall bytes

record WintunAdapter =
  wa_name :: bytes
  wa_adapter :: bool
  wa_session :: bool
  wa_closed :: bool

record wintun_env =
  we_load :: bool
  we_create :: bool
  we_start :: bool

definition Close_wintun :: "WintunAdapter \<Rightarrow> dll_call list \<times> WintunAdapter" where
  "Close_wintun a =
    (if wa_closed a then ([], a)
     else ((if wa_session a then [EndSession] else []) @ (if wa_adapter a then [CloseAdapter] else []), a\<lparr>wa_closed := True\<rparr>))"

definition startSession :: "wintun_env \<Rightarrow> nat \<Rightarrow> WintunAdapter \<Rightarrow> tun_error option \<times> dll_call list \<times> WintunAdapter" where
  "startSession en capacity a =
    (if \<not> we_start en then (Some ErrSessionCreationFailed, [StartSession capacity], a)
     else (None, [StartSession capacity, GetReadWaitEvent], a\<lparr>wa_session := True\<rparr>))"

text \<open>\<^verbatim>\<open>UTF16PtrFromString\<close> refuses a string with a zero byte.\<close>

definition NewWintunAdapter :: "wintun_env \<Rightarrow> bytes \<Rightarrow> bytes \<Rightarrow> (tun_error + WintunAdapter) \<times> dll_call list" where
  "NewWintunAdapter en adapterName tunnelType =
    (if \<not> we_load en then (Inl ErrWintunNotLoaded, [])
     else if CHR 0x00 \<in> set adapterName then (Inl ErrUTF16, [])
     else if CHR 0x00 \<in> set tunnelType then (Inl ErrUTF16, [])
     else if \<not> we_create en then (Inl ErrAdapterCreationFailed, [CreateAdapter])
     else
      (case startSession en 0x400000 \<lparr>wa_name = adapterName, wa_adapter = True, wa_session = False, wa_closed = False\<rparr> of
         (Some err, cs, a) \<Rightarrow> (Inl err, CreateAdapter # cs @ fst (Close_wintun a))
       | (None, cs, a) \<Rightarrow> (Inr a, CreateAdapter # cs)))"

text \<open>The receive loop over its turns: whether the adapter is closed when it looks, and the packet it is given.  \<open>None\<close> when it still waits.\<close>

fun ReceivePacket :: "(bool \<times> bytes option) list \<Rightarrow> (tun_error + bytes) option" where
  "ReceivePacket [] = None"
| "ReceivePacket ((closed, pkt) # ts) =
    (if closed then Some (Inl ErrEOF) else case pkt of Some p \<Rightarrow> Some (Inr p) | None \<Rightarrow> ReceivePacket ts)"

definition ReleaseReceivePacket :: "bool \<Rightarrow> bytes \<Rightarrow> dll_call list" where
  "ReleaseReceivePacket closed pkt = (if length pkt = 0 \<or> closed then [] else [ReleasePacket])"

definition Read_wintun :: "(bool \<times> bytes option) list \<Rightarrow> bool \<Rightarrow> nat \<Rightarrow> ((tun_error + bytes) \<times> dll_call list) option" where
  "Read_wintun turns closed_after b =
    (case ReceivePacket turns of
       None \<Rightarrow> None
     | Some (Inl err) \<Rightarrow> Some (Inl err, [])
     | Some (Inr pkt) \<Rightarrow>
         Some (if length pkt > b then Inl ErrShortBuffer else Inr pkt, ReleaseReceivePacket closed_after pkt))"

definition SendPacket :: "bool \<Rightarrow> bool \<Rightarrow> bytes \<Rightarrow> tun_error option \<times> dll_call list" where
  "SendPacket closed allocates packet =
    (if closed \<or> length packet = 0 then (None, [])
     else if \<not> allocates then (Some ErrAllocate, [AllocateSend (length packet)])
     else (None, [AllocateSend (length packet), SendPacketCall packet]))"

definition Write_wintun :: "bool \<Rightarrow> bool \<Rightarrow> bytes \<Rightarrow> (tun_error + nat) \<times> dll_call list" where
  "Write_wintun closed allocates b =
    (case SendPacket closed allocates b of (Some err, cs) \<Rightarrow> (Inl err, cs) | (None, cs) \<Rightarrow> (Inr (length b), cs))"

text \<open>A reader and the callers of \<^verbatim>\<open>Close\<close>.  The reader checks the flag, calls the library, copies the packet and gives it back, again after a
  look at the flag; the first caller of \<^verbatim>\<open>Close\<close> ends the session, then closes the adapter.  \<open>t_late\<close> counts uses of the session after it was ended.\<close>

datatype tun_reader = TIdle | TChecked | THolds | TCopied | TReleasing

datatype close_phase = TOpen | TFlagged | TEnded | TShut

record tun_life =
  t_closed :: bool
  t_phase :: close_phase
  t_reader :: tun_reader
  t_ends :: nat
  t_shuts :: nat
  t_loans :: nat
  t_late :: nat

definition tun_start :: tun_life where
  "tun_start = \<lparr>t_closed = False, t_phase = TOpen, t_reader = TIdle, t_ends = 0, t_shuts = 0, t_loans = 0, t_late = 0\<rparr>"

definition touch :: "tun_life \<Rightarrow> tun_life" where
  "touch s = (if t_phase s = TEnded \<or> t_phase s = TShut then s\<lparr>t_late := Suc (t_late s)\<rparr> else s)"

inductive tun_step :: "tun_life \<Rightarrow> tun_life \<Rightarrow> bool" where
  tu_check: "t_reader s = TIdle \<Longrightarrow> \<not> t_closed s \<Longrightarrow> tun_step s (s\<lparr>t_reader := TChecked\<rparr>)"
| tu_empty: "t_reader s = TChecked \<Longrightarrow> tun_step s ((touch s)\<lparr>t_reader := TIdle\<rparr>)"
| tu_packet: "t_reader s = TChecked \<Longrightarrow> tun_step s ((touch s)\<lparr>t_reader := THolds, t_loans := Suc (t_loans s)\<rparr>)"
| tu_copy: "t_reader s = THolds \<Longrightarrow> tun_step s ((touch s)\<lparr>t_reader := TCopied\<rparr>)"
| tu_skip: "t_reader s = TCopied \<Longrightarrow> t_closed s \<Longrightarrow> tun_step s (s\<lparr>t_reader := TIdle\<rparr>)"
| tu_look: "t_reader s = TCopied \<Longrightarrow> \<not> t_closed s \<Longrightarrow> tun_step s (s\<lparr>t_reader := TReleasing\<rparr>)"
| tu_release: "t_reader s = TReleasing \<Longrightarrow> tun_step s ((touch s)\<lparr>t_reader := TIdle, t_loans := t_loans s - 1\<rparr>)"
| tu_close: "\<not> t_closed s \<Longrightarrow> tun_step s (s\<lparr>t_closed := True, t_phase := TFlagged\<rparr>)"
| tu_end: "t_phase s = TFlagged \<Longrightarrow> tun_step s (s\<lparr>t_phase := TEnded, t_ends := Suc (t_ends s)\<rparr>)"
| tu_shut: "t_phase s = TEnded \<Longrightarrow> tun_step s (s\<lparr>t_phase := TShut, t_shuts := Suc (t_shuts s)\<rparr>)"

definition holding :: "tun_reader \<Rightarrow> bool" where
  "holding r \<longleftrightarrow> r = THolds \<or> r = TCopied \<or> r = TReleasing"

definition tun_inv :: "tun_life \<Rightarrow> bool" where
  "tun_inv s \<longleftrightarrow>
    (t_closed s \<longleftrightarrow> t_phase s \<noteq> TOpen) \<and>
    t_ends s = (if t_phase s = TEnded \<or> t_phase s = TShut then 1 else 0) \<and> t_shuts s = (if t_phase s = TShut then 1 else 0) \<and>
    t_loans s \<le> 1 \<and> (holding (t_reader s) \<longrightarrow> t_loans s = 1) \<and> (\<not> t_closed s \<longrightarrow> t_loans s = of_bool (holding (t_reader s))) \<and>
    (t_loans s = 1 \<and> t_reader s = TChecked \<longrightarrow> False) \<and>
    t_late s \<le> (case t_reader s of TIdle \<Rightarrow> 2 | TChecked \<Rightarrow> 0 | THolds \<Rightarrow> 1 | TCopied \<Rightarrow> 2 | TReleasing \<Rightarrow> 0) \<and>
    (t_late s > 0 \<longrightarrow> t_phase s = TEnded \<or> t_phase s = TShut)"

interpretation tun: invariant_system "\<lambda>s. s = tun_start" tun_step tun_inv
proof
  fix s t assume inv: "tun_inv s" and "tun_step s t"
  from this(2) show "tun_inv t"
    by cases (use inv in \<open>cases "t_phase s"; cases "t_reader s"; simp add: tun_inv_def holding_def touch_def\<close>)+
qed (simp add: tun_inv_def tun_start_def holding_def)


section \<open>Properties\<close>

lemma cString_padded: "CHR 0x00 \<notin> set b \<Longrightarrow> 0 < n \<Longrightarrow> cStringToGoString (b @ replicate n (CHR 0x00)) = b"
  by (cases n) (simp_all add: cStringToGoString_def IndexByte_append)

lemma utun_unit_number:
  assumes "n < 2 ^ 63 - 1"
  shows "utun_unit (''utun'' @ format_nat n) = Inr (int n + 1)"
proof -
  have "Atoi (format_nat n) = Some (int n)" using Atoi_Itoa [of "int n"] assms by (simp add: Itoa_def FormatInt_def)
  then show ?thesis using assms by (simp add: utun_unit_def wrap64_id)
qed

text \<open>Opening a device.  Whatever the system calls answer, an error leaves no descriptor open and a device has exactly one.  On Linux a name
  of at most 15 bytes reaches the kernel terminated by a zero byte, and when the kernel keeps it the adapter has that name; on macOS
  the name \<open>utun<n>\<close>, for \<open>n + 1\<close> in 32 bits, asks the kernel for exactly the unit \<open>n + 1\<close> of the utun controller.\<close>
theorem tun_opens:
  assumes "length name \<le> 15" and "CHR 0x00 \<notin> set name" and "n + 1 < 2 ^ 32"
    and "NewDarwinAdapter en (''utun'' @ format_nat n) = (Inr dev, k)"
  shows "NewLinuxAdapter True Some name = (Inr name, 1) \<and> if_Name (new_ifreq name) = name @ replicate (16 - length name) (CHR 0x00) \<and>
    (\<exists>sa. de_connect en sa \<and> unat (sa_Unit sa) = n + 1 \<and> de_ioctl en (utunControlName @ replicate 70 (CHR 0x00)) = Some (sa_ID sa)) \<and>
    (\<forall>opens ioctl d. snd (NewLinuxAdapter opens ioctl d) = (if isl (fst (NewLinuxAdapter opens ioctl d)) then 0 else 1)) \<and>
    (\<forall>env d. snd (NewDarwinAdapter env d) = (if isl (fst (NewDarwinAdapter env d)) then 0 else 1))"
proof (intro conjI)
  have pad: "if_Name (new_ifreq name) = name @ replicate (16 - length name) (CHR 0x00)" using assms(1) by (simp add: new_ifreq_def)
  then show "if_Name (new_ifreq name) = name @ replicate (16 - length name) (CHR 0x00)" .
  show "NewLinuxAdapter True Some name = (Inr name, 1)" using cString_padded [OF assms(2)] assms(1) pad by (simp add: NewLinuxAdapter_def)
  have u: "utun_unit (''utun'' @ format_nat n) = Inr (int n + 1)" using utun_unit_number assms(3) by simp
  have w: "unat (word_of_int (int n + 1) :: 32 word) = n + 1"
  proof -
    have "(word_of_int (int n + 1) :: 32 word) = word_of_nat (n + 1)" by simp
    then have "unat (word_of_int (int n + 1) :: 32 word) = (n + 1) mod 2 ^ 32" by (simp only: unat_of_nat) simp
    then show ?thesis using assms(3) by simp
  qed
  have l: "96 - length utunControlName = 70" by (simp add: utunControlName_def)
  show "\<exists>sa. de_connect en sa \<and> unat (sa_Unit sa) = n + 1 \<and> de_ioctl en (utunControlName @ replicate 70 (CHR 0x00)) = Some (sa_ID sa)"
    using assms(4) w l unfolding NewDarwinAdapter_def u
    by (fastforce split: if_splits option.splits)
  show "\<forall>opens ioctl d. snd (NewLinuxAdapter opens ioctl d) = (if isl (fst (NewLinuxAdapter opens ioctl d)) then 0 else 1)"
    by (simp add: NewLinuxAdapter_def split: option.split)
  show "\<forall>env d. snd (NewDarwinAdapter env d) = (if isl (fst (NewDarwinAdapter env d)) then 0 else 1)"
    by (simp add: NewDarwinAdapter_def split: option.split sum.split)
qed

definition mac_env :: darwin_env where
  "mac_env = \<lparr>de_socket = True, de_ioctl = (\<lambda>_. Some 7), de_connect = (\<lambda>sa. sa_ID sa = 7 \<and> sa_Unit sa = 4), de_ifname = Some (''utun3'' @ [CHR 0x00], 6),
     de_nonblock = True\<rparr>"

theorem tun_opens_witness: "NewLinuxAdapter True Some ''tun0'' = (Inr ''tun0'', 1) \<and> (\<exists>sa. de_connect mac_env sa \<and> unat (sa_Unit sa) = 4)"
proof -
  have "utun_unit (''utun'' @ format_nat 3) = Inr 4" using utun_unit_number [of 3] by simp
  then have "NewDarwinAdapter mac_env (''utun'' @ format_nat 3) = (Inr ''utun3'', 1)"
    by (simp add: NewDarwinAdapter_def mac_env_def cStringToGoString_def del: format_nat.simps)
  then show ?thesis using tun_opens [of "''tun0''" 3 mac_env "''utun3''" 1] by auto
qed

text \<open>A name with a sign, and one whose number does not fit, are accepted and ask for any free unit.\<close>

lemma signed_unit_accepted: "utun_unit ''utun-1'' = Inr 0"
  by (simp add: utun_unit_def Atoi_def ParseInt64_def ParseUint_def is_digit_def byte_eval wrap64_def)

lemma large_unit_wraps: "\<exists>u. utun_unit ''utun4294967295'' = Inr u \<and> (word_of_int u :: 32 word) = 0"
proof -
  have "''4294967295'' = format_nat 4294967295" by (simp add: format_nat.simps digit_char_def byte_eval)
  then show ?thesis using utun_unit_number [of 4294967295] by simp
qed

text \<open>The life of a Wintun adapter.  Under every interleaving of a reader and any number of callers of \<^verbatim>\<open>Close\<close>, the session is ended at
  most once and the adapter closed at most once and later; while the adapter is open the reader has given back every packet but the one
  it holds; and after the session is ended the reader uses it at most twice more.\<close>
theorem wintun_life:
  assumes "reach (\<lambda>s. s = tun_start) tun_step s"
  shows "t_shuts s \<le> t_ends s \<and> t_ends s \<le> 1 \<and> (t_ends s = 1 \<longrightarrow> t_closed s) \<and>
    (\<not> t_closed s \<longrightarrow> t_loans s = of_bool (holding (t_reader s))) \<and> t_late s \<le> 2 \<and> (t_late s > 0 \<longrightarrow> t_ends s = 1)"
proof -
  have "tun_inv s" using tun.reach_inv assms by simp
  then show ?thesis by (cases "t_phase s"; cases "t_reader s"; simp add: tun_inv_def)
qed

theorem wintun_life_witness: "t_loans tun_start = of_bool (holding (t_reader tun_start))"
  using wintun_life [of tun_start, OF reach_init] by (simp add: tun_start_def holding_def)

text \<open>The flag is checked before the calls, not held during them: a reader that has passed the check receives from, and copies out of, a session that
  has been ended.\<close>

lemma ended_session_used: "\<exists>s. reach (\<lambda>s. s = tun_start) tun_step s \<and> t_shuts s = 1 \<and> t_late s = 2"
proof -
  let ?R = "reach (\<lambda>s. s = tun_start) tun_step"
  let ?s1 = "tun_start\<lparr>t_reader := TChecked\<rparr>"
  let ?s4 = "?s1\<lparr>t_closed := True, t_phase := TShut, t_ends := 1, t_shuts := 1\<rparr>"
  have "?R tun_start" by (rule reach_init) simp
  moreover have "tun_step tun_start ?s1" by (rule tu_check) (simp_all add: tun_start_def)
  ultimately have "?R ?s1" by (rule reach_step)
  then have "?R (?s1\<lparr>t_closed := True, t_phase := TFlagged\<rparr>)" by (rule reach_step) (rule tu_close, simp add: tun_start_def)
  then have "?R (?s1\<lparr>t_closed := True, t_phase := TEnded, t_ends := 1\<rparr>)"
    using tu_end [of "?s1\<lparr>t_closed := True, t_phase := TFlagged\<rparr>"] by (simp add: tun_start_def reach_step)
  then have "?R ?s4" using tu_shut [of "?s1\<lparr>t_closed := True, t_phase := TEnded, t_ends := 1\<rparr>"] by (simp add: tun_start_def reach_step)
  then have "?R (?s4\<lparr>t_reader := THolds, t_loans := 1, t_late := 1\<rparr>)"
    using tu_packet [of ?s4] by (simp add: tun_start_def touch_def reach_step)
  then have "?R (?s4\<lparr>t_reader := TCopied, t_loans := 1, t_late := 2\<rparr>)"
    using tu_copy [of "?s4\<lparr>t_reader := THolds, t_loans := 1, t_late := 1\<rparr>"] by (simp add: tun_start_def touch_def reach_step numeral_2_eq_2)
  then show ?thesis by (intro exI) (auto simp: tun_start_def)
qed

text \<open>A packet that does not fit into the buffer is given back to the ring and lost, one that fits is handed out once and given back.\<close>

lemma Read_wintun_packet:
  "Read_wintun ((False, Some p) # ts) False b = Some (if length p > b then Inl ErrShortBuffer else Inr p, if p = [] then [] else [ReleasePacket])"
  by (simp add: Read_wintun_def ReleaseReceivePacket_def)

text \<open>An adapter whose session cannot be started is closed again.\<close>

lemma failed_session_closes_adapter:
  "we_load en \<Longrightarrow> we_create en \<Longrightarrow> \<not> we_start en \<Longrightarrow> CHR 0x00 \<notin> set name \<union> set typ \<Longrightarrow>
     NewWintunAdapter en name typ = (Inl ErrSessionCreationFailed, [CreateAdapter, StartSession 0x400000, CloseAdapter])"
  by (simp add: NewWintunAdapter_def startSession_def Close_wintun_def)

end
