(* ===== verification/Gen_Plugin.thy ===== *)
theory Gen_Plugin
  imports Go_Text Go_Path Go_Strconv
begin

text \<open>
  Command \<^verbatim>\<open>protoc-gen-aoni\<close>, file \<^verbatim>\<open>src/cmd/protoc-gen-aoni/main.go\<close>: the text of the generated clients, as a list of lines.  The descriptors are records;
  \<open>q\<close> stands for \<^verbatim>\<open>QualifiedGoIdent\<close> of \<^verbatim>\<open>protogen\<close>, which writes an identifier with the name of its package.
\<close>

section \<open>Descriptors\<close>

type_synonym GoIdent = "bytes \<times> bytes"

record Method =
  me_GoName :: bytes
  me_Name :: bytes
  me_Input :: GoIdent
  me_Output :: GoIdent
  me_StreamingClient :: bool
  me_StreamingServer :: bool
  me_Comments :: bytes

record Service =
  sv_GoName :: bytes
  sv_FullName :: bytes
  sv_Methods :: "Method list"

record proto_file =
  pf_Generate :: bool
  pf_Services :: "Service list"
  pf_Prefix :: bytes
  pf_Path :: bytes
  pf_Deprecated :: bool
  pf_GoPackageName :: bytes

definition aoniPackage :: "bytes \<Rightarrow> GoIdent" where
  "aoniPackage n = (''github.com/lemon4ksan/aoni'', n)"

definition grpcPackage :: "bytes \<Rightarrow> GoIdent" where
  "grpcPackage n = (''github.com/lemon4ksan/aoni/grpc'', n)"

definition contextPackage :: "bytes \<Rightarrow> GoIdent" where
  "contextPackage n = (''context'', n)"

section \<open>main.go\<close>

definition unexport :: "unicode \<Rightarrow> bytes \<Rightarrow> bytes" where
  "unexport U s = (if s = [] then [] else ToLower U (take 1 s) @ drop 1 s)"

definition formatFullMethodSymbol :: "Service \<Rightarrow> Method \<Rightarrow> bytes" where
  "formatFullMethodSymbol service m = sv_GoName service @ ''_'' @ me_GoName m @ ''_FullMethodName''"

definition genFullMethods :: "Service \<Rightarrow> bytes list" where
  "genFullMethods service =
    (if length (sv_Methods service) = 0 then []
     else [''const (''] @
       map (\<lambda>m. formatFullMethodSymbol service m @ '' = '' @ [CHR 0x22] @ (''/'' @ sv_FullName service @ ''/'' @ me_Name m) @ [CHR 0x22]) (sv_Methods service) @
       ['')'', []])"

definition unary :: "Method \<Rightarrow> bool" where
  "unary m \<longleftrightarrow> \<not> me_StreamingServer m \<and> \<not> me_StreamingClient m"

definition clientSignature :: "(GoIdent \<Rightarrow> bytes) \<Rightarrow> Method \<Rightarrow> bytes" where
  "clientSignature q m =
    me_GoName m @ ''(ctx '' @ q (contextPackage ''Context'') @ '', in *'' @ q (me_Input m) @
    '', mods ...'' @ q (aoniPackage ''RequestModifier'') @ '') ('' @
    (if unary m then ''*'' @ q (me_Output m)
     else ''*'' @ q (grpcPackage ''StreamResponse'') @ ''['' @ q (me_Output m) @ '']'') @
    '', error)''"

definition genClientMethod :: "unicode \<Rightarrow> (GoIdent \<Rightarrow> bytes) \<Rightarrow> Service \<Rightarrow> Method \<Rightarrow> bytes list" where
  "genClientMethod U q service m =
    [''func (c *'' @ unexport U (sv_GoName service @ ''Client'') @ '') '' @ clientSignature q m @ '' {'',
     (if unary m
      then ''return '' @ q (grpcPackage ''Invoke'') @ ''['' @ q (me_Output m) @ ''](ctx, c.doer, '' @ formatFullMethodSymbol service m @ '', in, mods...)''
      else ''return '' @ q (grpcPackage ''ServerStream'') @ ''['' @ q (me_Output m) @ ''](ctx, c.doer, '' @ formatFullMethodSymbol service m @ '', in, mods...)''),
     ''}'', []]"

definition genService :: "unicode \<Rightarrow> (GoIdent \<Rightarrow> bytes) \<Rightarrow> Service \<Rightarrow> bytes list" where
  "genService U q service =
    (let clientName = sv_GoName service @ ''Client''; implName = unexport U clientName in
     genFullMethods service @
     [''// '' @ clientName @ '' is the aoni stealth gRPC client API for '' @ sv_GoName service @ '' service.'',
      ''type '' @ clientName @ '' interface {''] @
     map (\<lambda>m. me_Comments m @ clientSignature q m) (sv_Methods service) @
     [''}'', [],
      ''type '' @ implName @ '' struct {'', ''doer '' @ q (aoniPackage ''RequestDoer''), ''}'', [],
      ''func New'' @ clientName @ ''(doer '' @ q (aoniPackage ''RequestDoer'') @ '') '' @ clientName @ '' {'',
      ''return &'' @ implName @ ''{doer: doer}'', ''}'', []] @
     concat (map (genClientMethod U q service) (sv_Methods service)))"

definition generateFileContent :: "unicode \<Rightarrow> (GoIdent \<Rightarrow> bytes) \<Rightarrow> proto_file \<Rightarrow> bytes list" where
  "generateFileContent U q file = concat (map (genService U q) (pf_Services file))"

text \<open>The version of the compiler: three numbers and a suffix.\<close>

definition protocVersion :: "(int \<times> int \<times> int \<times> bytes) option \<Rightarrow> bytes" where
  "protocVersion v =
    (case v of
       None \<Rightarrow> ''(unknown)''
     | Some (major, minor, patch, s) \<Rightarrow>
         (let suffix = (if s \<noteq> [] then ''-'' @ s else [])
          in ''v'' @ FormatInt major @ ''.'' @ FormatInt minor @ ''.'' @ FormatInt patch @ suffix))"

text \<open>\<^verbatim>\<open>filepath.Ext\<close> of a name without slashes: from the last point.\<close>

definition Ext :: "bytes \<Rightarrow> bytes" where
  "Ext name = (case LastIndexByte name (CHR ''.'') of None \<Rightarrow> [] | Some i \<Rightarrow> drop i name)"

definition program_name :: "unicode \<Rightarrow> bytes \<Rightarrow> bytes" where
  "program_name U arg0 =
    (let programName = path_Base arg0; ext = Ext programName
     in if EqualFoldU U ext ''.exe'' then take (length programName - length ext) programName else programName)"

text \<open>The name of the generated file and its lines, if there is one.\<close>

definition generateFile ::
  "unicode \<Rightarrow> (GoIdent \<Rightarrow> bytes) \<Rightarrow> bytes \<Rightarrow> bytes \<Rightarrow> (int \<times> int \<times> int \<times> bytes) option \<Rightarrow> proto_file \<Rightarrow> (bytes \<times> bytes list) option" where
  "generateFile U q arg0 version compiler file =
    (if length (pf_Services file) = 0 then None
     else
      (let filename = pf_Prefix file @ ''_aoni.pb.go''; programName = program_name U arg0 in
       Some (filename,
         [''// Code generated by '' @ programName @ ''. DO NOT EDIT.'', ''// versions:'', ''// - '' @ programName @ '' v'' @ version,
          ''// - protoc           '' @ protocVersion compiler,
          (if pf_Deprecated file then ''// '' @ pf_Path file @ '' is a deprecated file.'' else ''// source: '' @ pf_Path file),
          [], ''package '' @ pf_GoPackageName file, []] @
         generateFileContent U q file)))"

definition main_run ::
  "unicode \<Rightarrow> (GoIdent \<Rightarrow> bytes) \<Rightarrow> bytes \<Rightarrow> bytes \<Rightarrow> (int \<times> int \<times> int \<times> bytes) option \<Rightarrow> proto_file list \<Rightarrow> (bytes \<times> bytes list) list" where
  "main_run U q arg0 version compiler files =
    map the (filter (\<lambda>r. r \<noteq> None) (map (\<lambda>f. if \<not> pf_Generate f then None else generateFile U q arg0 version compiler f) files))"

section \<open>Reading the generated text\<close>

text \<open>The value of a constant of a block: the line with its name before the equals sign, without the quotes.\<close>

definition const_line :: "bytes \<Rightarrow> (bytes \<times> bytes) list" where
  "const_line l = (case Cut l ('' = '' @ [CHR 0x22]) of (a, r, found) \<Rightarrow> if found then [(a, butlast r)] else [])"

definition const_value :: "bytes list \<Rightarrow> bytes \<Rightarrow> bytes option" where
  "const_value block name = map_of (concat (map const_line block)) name"

lemma Cut_blank: "CHR 0x20 \<notin> set a \<Longrightarrow> Cut (a @ CHR 0x20 # s @ b) (CHR 0x20 # s) = (a, b, True)"
proof -
  assume a: "CHR 0x20 \<notin> set a"
  have "Index (a @ CHR 0x20 # s @ b) (CHR 0x20 # s) = Some (length a)"
    using a by (induction a) auto
  then show ?thesis by (simp add: Cut_def)
qed

lemma const_line_symbol:
  assumes "CHR 0x20 \<notin> set n"
  shows "const_line (n @ '' = '' @ [CHR 0x22] @ v @ [CHR 0x22]) = [(n, v)]"
  using Cut_blank [OF assms, of "''= '' @ [CHR 0x22]" "v @ [CHR 0x22]"] by (simp add: const_line_def)

definition names_ok :: "Service \<Rightarrow> bool" where
  "names_ok service \<longleftrightarrow> CHR 0x20 \<notin> set (sv_GoName service) \<and> list_all (\<lambda>m. CHR 0x20 \<notin> set (me_GoName m)) (sv_Methods service) \<and>
    distinct (map me_GoName (sv_Methods service))"

lemma genFullMethods_consts:
  assumes "names_ok service"
  shows "concat (map const_line (genFullMethods service)) =
    map (\<lambda>m. (formatFullMethodSymbol service m, ''/'' @ sv_FullName service @ ''/'' @ me_Name m)) (sv_Methods service)"
proof -
  have "const_line (formatFullMethodSymbol service m @ '' = '' @ [CHR 0x22] @ (''/'' @ sv_FullName service @ ''/'' @ me_Name m) @ [CHR 0x22]) =
      [(formatFullMethodSymbol service m, ''/'' @ sv_FullName service @ ''/'' @ me_Name m)]" if "m \<in> set (sv_Methods service)" for m
    using assms that by (intro const_line_symbol) (auto simp: names_ok_def list_all_iff formatFullMethodSymbol_def)
  then have "concat (map (\<lambda>m. const_line (formatFullMethodSymbol service m @ '' = '' @ [CHR 0x22] @ (''/'' @ sv_FullName service @ ''/'' @ me_Name m) @ [CHR 0x22])) (sv_Methods service)) =
      concat (map (\<lambda>m. [(formatFullMethodSymbol service m, ''/'' @ sv_FullName service @ ''/'' @ me_Name m)]) (sv_Methods service))"
    by (intro arg_cong [of _ _ concat] map_cong) auto
  moreover have "concat (map (\<lambda>m. [f m]) xs) = map f xs" for f :: "Method \<Rightarrow> bytes \<times> bytes" and xs by (induction xs) auto
  moreover have "const_line ''const ('' = []" "const_line '')'' = []" "const_line [] = []" by (simp_all add: const_line_def Cut_def)
  ultimately show ?thesis by (simp add: genFullMethods_def comp_def)
qed

text \<open>What a generated method calls.  For every method of a service whose method names are different, the generated client has a function with
  the method's signature that calls \<^verbatim>\<open>Invoke\<close> when neither side streams and \<^verbatim>\<open>ServerStream\<close> otherwise, with a constant whose value in the
  generated block is the path of exactly this method.\<close>
theorem generated_method_calls:
  assumes "names_ok service" and "m \<in> set (sv_Methods service)"
  shows "const_value (genFullMethods service) (formatFullMethodSymbol service m) = Some (''/'' @ sv_FullName service @ ''/'' @ me_Name m) \<and>
    prefix (genFullMethods service) (genService U q service) \<and>
    sublist [''func (c *'' @ unexport U (sv_GoName service @ ''Client'') @ '') '' @ clientSignature q m @ '' {'',
        ''return '' @ q (grpcPackage (if me_StreamingServer m \<or> me_StreamingClient m then ''ServerStream'' else ''Invoke'')) @
          ''['' @ q (me_Output m) @ ''](ctx, c.doer, '' @ formatFullMethodSymbol service m @ '', in, mods...)'', ''}''] (genService U q service)"
proof (intro conjI)
  have "inj_on (formatFullMethodSymbol service) (set (sv_Methods service))"
    using assms(1) by (auto simp: inj_on_def formatFullMethodSymbol_def names_ok_def distinct_map dest: inj_onD)
  moreover have "distinct (sv_Methods service)" using assms(1) by (simp add: names_ok_def distinct_map)
  ultimately have "distinct (map (formatFullMethodSymbol service) (sv_Methods service))" by (simp add: distinct_map)
  then show "const_value (genFullMethods service) (formatFullMethodSymbol service m) = Some (''/'' @ sv_FullName service @ ''/'' @ me_Name m)"
    using assms(2) unfolding const_value_def genFullMethods_consts [OF assms(1)] by (intro map_of_is_SomeI) (auto simp: comp_def)
  show "prefix (genFullMethods service) (genService U q service)" by (simp add: genService_def Let_def)
  obtain xs ys where ms: "sv_Methods service = xs @ m # ys" using assms(2) by (metis split_list)
  have "genClientMethod U q service m =
      [''func (c *'' @ unexport U (sv_GoName service @ ''Client'') @ '') '' @ clientSignature q m @ '' {'',
        ''return '' @ q (grpcPackage (if me_StreamingServer m \<or> me_StreamingClient m then ''ServerStream'' else ''Invoke'')) @
          ''['' @ q (me_Output m) @ ''](ctx, c.doer, '' @ formatFullMethodSymbol service m @ '', in, mods...)'', ''}''] @ [[]]" (is "_ = ?ls @ _")
    by (simp add: genClientMethod_def unary_def)
  then have "\<exists>a b. concat (map (genClientMethod U q service) (sv_Methods service)) = a @ ?ls @ b"
    unfolding ms by (intro exI [of _ "concat (map (genClientMethod U q service) xs)"] exI [of _ "[] # concat (map (genClientMethod U q service) ys)"]) simp
  then have "sublist ?ls (concat (map (genClientMethod U q service) (sv_Methods service)))" by (simp only: sublist_def)
  moreover have "suffix (concat (map (genClientMethod U q service) (sv_Methods service))) (genService U q service)"
    unfolding genService_def Let_def by (intro suffix_appendI suffix_order.refl)
  ultimately show "sublist ?ls (genService U q service)" using sublist_order.order_trans suffix_imp_sublist by blast
qed

definition ping :: Method where
  "ping = \<lparr>me_GoName = ''Ping'', me_Name = ''ping'', me_Input = ([], ''In''), me_Output = ([], ''Out''), me_StreamingClient = True,
     me_StreamingServer = False, me_Comments = []\<rparr>"

definition echo_service :: Service where
  "echo_service = \<lparr>sv_GoName = ''Echo'', sv_FullName = ''p.Echo'', sv_Methods = [ping]\<rparr>"

theorem generated_method_calls_witness:
  "const_value (genFullMethods echo_service) ''Echo_Ping_FullMethodName'' = Some ''/p.Echo/ping''"
  using generated_method_calls [of echo_service ping undefined snd]
  by (simp add: names_ok_def echo_service_def ping_def formatFullMethodSymbol_def)

text \<open>A method that streams from the client takes a single message and is sent through \<^verbatim>\<open>ServerStream\<close>.\<close>

lemma client_stream_sends_one:
  "genClientMethod U snd echo_service ping ! 1 = ''return ServerStream[Out](ctx, c.doer, Echo_Ping_FullMethodName, in, mods...)''"
  by (simp add: genClientMethod_def unary_def ping_def echo_service_def grpcPackage_def formatFullMethodSymbol_def)

text \<open>Two services of a file can give their constants the same name.\<close>

lemma symbols_collide:
  "formatFullMethodSymbol (echo_service\<lparr>sv_GoName := ''A''\<rparr>) (ping\<lparr>me_GoName := ''B_C''\<rparr>) =
   formatFullMethodSymbol (echo_service\<lparr>sv_GoName := ''A_B''\<rparr>) (ping\<lparr>me_GoName := ''C''\<rparr>)"
  by (simp add: formatFullMethodSymbol_def)

end
