(* ===== verification/Spec2Isabelle.thy ===== *)
theory Spec2Isabelle
  imports Extract Extract_Unescape SIO_Client Socket_Dispatch Socket_Connector WT_Session GRPC_Client HS_Digest OT_Middleware Auth_PKCE DPoP_Proof WP_Client WT_Dial Socket_Link SSH_Reverse SSH_CA Raptor SQL_Cookie Tun_Device Gen_Plugin
begin

text \<open>
  A verification development for the Go repository \<^verbatim>\<open>aoni-contrib\<close>, a collection of client
  libraries around an HTTP client.  Each package under \<^verbatim>\<open>src/\<close> is a component of its own; the
  packages share only the Go library, so the theories form a tree: the prelude, the models
  of the library functions, then one or more theories per package.

  \<^bold>\<open>The program and its theories.\<close>

  \<^item> \<^verbatim>\<open>extract/\<close> (\<^verbatim>\<open>unescape.go\<close>: \<open>Extract_Unescape\<close>; \<^verbatim>\<open>extract.go\<close>: \<open>Extract\<close>).  HTML entity decoding and the search for
    text between markers, attributes and regular-expression matches.  Go iterators are
    functions of a consumer with state; the regular-expression engine is a parameter.
  \<^item> \<^verbatim>\<open>socketio/\<close> (\<^verbatim>\<open>packet.go\<close>: \<open>SIO_Packet\<close>; \<^verbatim>\<open>client.go\<close>, \<^verbatim>\<open>engineio.go\<close>, \<^verbatim>\<open>reconnect.go\<close>: \<open>SIO_Client\<close>).  The packet
    codec with its binary attachments, the session with its state machine, read loop,
    heartbeat and acknowledgements, and the reconnection loop.
  \<^item> \<^verbatim>\<open>socket/\<close> (\<^verbatim>\<open>frame.go\<close>, \<^verbatim>\<open>connector/\<close> cipher wrapper: \<open>Socket_Frame\<close>; \<^verbatim>\<open>dispatcher/\<close>, \<^verbatim>\<open>session/\<close>, \<^verbatim>\<open>processor/\<close>:
    \<open>Socket_Dispatch\<close>; \<^verbatim>\<open>connector/\<close> life cycle: \<open>Socket_Connector\<close>, its cipher and read loop: \<open>Socket_Cipher\<close>;
    the packages together: \<open>Socket_Link\<close>).  Length-prefixed frames in pooled
    buffers, dispatching by job, method and opcode, the worker pool and the connector with
    its reconnection, as step relations where goroutines interleave.
  \<^item> \<^verbatim>\<open>webtransport/\<close> (\<^verbatim>\<open>errors.go\<close>, \<^verbatim>\<open>capsule.go\<close>: \<open>WT_Capsule\<close>; \<^verbatim>\<open>stream.go\<close>, \<^verbatim>\<open>session.go\<close>: \<open>WT_Session\<close>; \<^verbatim>\<open>dial.go\<close>: \<open>WT_Dial\<close>).
    Error-code maps, capsules, streams, datagrams, the session with its control loop, the handshake and
    the dispatcher of a connection.
  \<^item> \<^verbatim>\<open>grpc/\<close> (\<^verbatim>\<open>frame.go\<close>, \<^verbatim>\<open>status.go\<close>, \<^verbatim>\<open>metadata.go\<close>: \<open>GRPC_Frame\<close>; \<^verbatim>\<open>client.go\<close>, \<^verbatim>\<open>proto.go\<close>, \<^verbatim>\<open>dynamic.go\<close>,
    \<^verbatim>\<open>timeout.go\<close>: \<open>GRPC_Client\<close>).  Frames, status, unary calls and streams.
  \<^item> \<^verbatim>\<open>auth/httpsig/\<close> (\<^verbatim>\<open>algorithms.go\<close>: \<open>HS_Alg\<close>; \<^verbatim>\<open>base.go\<close>: \<open>HS_Base\<close>; \<^verbatim>\<open>sign.go\<close>, \<^verbatim>\<open>verify.go\<close>: \<open>HS_Sign\<close>, with the laws in
    \<open>HS_Ident\<close> and \<open>HS_Verify\<close>; \<^verbatim>\<open>digest.go\<close>: \<open>HS_Digest\<close>).  RFC 9421 signatures and content digests.
  \<^item> \<^verbatim>\<open>auth/pkce/\<close> (\<open>Auth_PKCE\<close>) and \<^verbatim>\<open>auth/dpop/\<close> (\<^verbatim>\<open>jwk.go\<close>: \<open>DPoP_Jwk\<close>; \<^verbatim>\<open>proof.go\<close>, \<^verbatim>\<open>verify.go\<close>: \<open>DPoP_Proof\<close>).  Code verifiers
    and challenges; JSON Web Keys, proofs of possession and their verification.
  \<^item> \<^verbatim>\<open>otel/\<close> (\<^verbatim>\<open>w3c.go\<close>, \<^verbatim>\<open>carrier.go\<close>: \<open>OT_Context\<close>; \<^verbatim>\<open>span.go\<close>, \<^verbatim>\<open>tracer.go\<close>: \<open>OT_Trace\<close>; \<^verbatim>\<open>exporter.go\<close>: \<open>OT_Export\<close>;
    \<^verbatim>\<open>middleware.go\<close>, \<^verbatim>\<open>semconv.go\<close>, \<^verbatim>\<open>options.go\<close>: \<open>OT_Middleware\<close>).  Trace headers, spans in a pool as objects of a store, the
    exporter with its queue and worker, and the request middleware.
  \<^item> \<^verbatim>\<open>webpush/\<close> (\<^verbatim>\<open>encrypt.go\<close>: \<open>WP_Encrypt\<close>; \<^verbatim>\<open>vapid.go\<close>, \<^verbatim>\<open>client.go\<close>: \<open>WP_Client\<close>).  Message encryption, server keys and
    tokens, and sending.
  \<^item> \<^verbatim>\<open>ssh/\<close> (\<^verbatim>\<open>utils.go\<close>: \<open>SSH_Hosts\<close>; \<^verbatim>\<open>config.go\<close>: \<open>SSH_Config\<close>; \<^verbatim>\<open>options.go\<close>, connecting in \<^verbatim>\<open>client.go\<close>, \<^verbatim>\<open>agent/\<close>: \<open>SSH_Options\<close>;
    \<^verbatim>\<open>socks5.go\<close>: \<open>SSH_Socks\<close>; the rest of \<^verbatim>\<open>client.go\<close> and \<^verbatim>\<open>streamlocal.go\<close>: \<open>SSH_Client\<close>; \<^verbatim>\<open>sftp/sftp.go\<close>: \<open>SSH_Sftp\<close>;
    \<^verbatim>\<open>sftp/scp.go\<close>: \<open>SSH_Scp\<close>; \<^verbatim>\<open>ca/\<close>: \<open>SSH_CA\<close>; \<^verbatim>\<open>reverse/\<close>: \<open>SSH_Reverse\<close>).  Keys and known hosts with their cache,
    the configuration file, the options and the order of checks before a handshake, commands and
    streams, the client shared by its users and the keep-alive loop, the SOCKS5 proxy, parallel transfers
    as producer and workers, scp, certificates and the reverse tunnel.
  \<^item> \<^verbatim>\<open>raptor/\<close> (\<open>Raptor\<close>): datagrams with repair symbols, where the sender keeps the slices of its
    caller, in an explicit memory.  \<^verbatim>\<open>sqlcookie/\<close> and \<^verbatim>\<open>geoip/\<close> (\<open>SQL_Cookie\<close>): cookies in a database, and the lookup of
    an address.  \<^verbatim>\<open>tunnel/tun/\<close> (\<open>Tun_Device\<close>): opening TUN devices, and the Wintun adapter.  \<^verbatim>\<open>cmd/protoc-gen-aoni/\<close>
    (\<open>Gen_Plugin\<close>): the text of the generated gRPC clients.

  \<^bold>\<open>The Go library.\<close>  \<open>Prelude\<close> has bytes, searching, wrap-around and the shared interfaces (packet codecs,
  framed readers, key-value stores, reachable states).  \<open>Go_Utf8\<close>, \<open>Go_Strconv\<close>, \<open>Go_Binary\<close>, \<open>Go_Base64\<close>,
  \<open>Go_Http\<close>, \<open>Go_Text\<close>, \<open>Go_Time\<close>, \<open>Go_Clock\<close>, \<open>Go_Big\<close> and \<open>Go_Path\<close> model the functions of \<^verbatim>\<open>unicode/utf8\<close>, \<^verbatim>\<open>strconv\<close>,
  \<^verbatim>\<open>encoding/binary\<close>, \<^verbatim>\<open>encoding/base64\<close>, \<^verbatim>\<open>net/http\<close>, \<^verbatim>\<open>net/url\<close>, \<^verbatim>\<open>strings\<close>, \<^verbatim>\<open>time\<close>, \<^verbatim>\<open>math/big\<close>, \<^verbatim>\<open>path\<close> and \<^verbatim>\<open>bufio\<close>
  that the packages call.

  \<^bold>\<open>How the code is modelled.\<close>  A Go string or byte slice is a list of bytes (\<open>char\<close>); \<^verbatim>\<open>int\<close> and \<^verbatim>\<open>int64\<close> are \<open>int\<close> with
  \<open>wrap64\<close> where the code can overflow, \<^verbatim>\<open>uint32\<close> and \<^verbatim>\<open>uint64\<close> are words or numbers modulo their
  width; a struct is a record, a method a function that returns the updated record; an
  error is a value of the package's error datatype in a sum, a panic is \<open>None\<close>; a map with
  an order that matters is an association list.  Loops are recursive functions with a
  termination proof; the loops that read from a peer run over the list of what the peer
  sends, so no fuel is needed.  Goroutines are step relations on the shared state, one step
  per critical section, and the invariants hold for every interleaving.

  \<^bold>\<open>Parameters.\<close>  What is not under \<^verbatim>\<open>src/\<close> is an argument: the regular-expression engine, JSON and Protocol
  Buffers, gzip, ciphers, the cryptographic primitives (\<open>crypto\<close>, with \<open>crypto_laws\<close>: what is signed
  verifies), the HTTP client, the network, the file system, the database and the clock; of the SSH
  library, how keys and \<^verbatim>\<open>known_hosts\<close> lines are read, and whether a handshake, a session or a request succeeds.  Text outside ASCII in \<^verbatim>\<open>strings.ToLower\<close>
  and \<^verbatim>\<open>strings.EqualFold\<close> is the record \<open>unicode\<close>.  The witnesses instantiate the parameters.

  \<^bold>\<open>What is shown.\<close>  Codecs: every encoder is inverted by its decoder, also for sequences of items in one stream
  (packets, frames, capsules, gRPC messages, identifiers, headers), and decoders are bounded
  on arbitrary input.  Optimised routines agree with reference definitions (entity decoding).
  State machines: the invariants of the Socket.IO client, the connector, the worker pool and
  the WebTransport session, the span exporter, the shared SSH client, the cache of known hosts and the
  Wintun adapter hold in every reachable state; the reconnection loop and a parallel file transfer
  end.  The span pool cannot be observed by well-behaved clients, whatever a client does the spans are
  well typed.  End-to-end: what one side emits the other dispatches (Socket.IO binary events, packets over a socket connection that may break,
  WebTransport
  streams and datagrams, gRPC streams, datagrams with repair symbols), a signed request verifies, its
  signature base determines the covered message, and what verifies meets the policy; a proof of
  possession is accepted exactly for the request it was made for; a push message decrypts to its
  payload; a parallel transfer that reports success has copied the file, and a file sent with scp arrives under
  its name whatever the name is.  Access: the host key is checked before a client from the
  configuration file connects, the SOCKS5 proxy dials exactly what a well-formed request asks for, and
  certificates of one authority have different serial numbers.  Beside the properties listed in the
  manifest, each theory has the laws of its remaining operations as theorems.  The lemmas that a finding of
  the manifest names show a behaviour of the code that departs from its comments or its purpose.

  \<^bold>\<open>Not modelled.\<close>  The examples and the fuzzing script, which have no logic of the library; accessors that
  return a field of a record, and constants; socket options (\<^verbatim>\<open>optimizeTCPConn\<close>), the deadlines of streams and logging,
  which only call the transport or a logger.  Copying between two open connections is what is
  left unread of them.  Timers and scheduling delays are inputs of the models; memory reuse is modelled
  where a pooled buffer or a kept slice can show through.
\<close>

end
